(* ===== verification/Qb_Prelude.thy ===== *)
theory Qb_Prelude
  imports Complex_Main "HOL-Library.AList" "HOL-Library.Word" "HOL-Library.Sublist"
begin

unbundle bit_operations_syntax

text \<open>
  Shared vocabulary of the development: bytes, the exceptions the Python code can raise
  as values, loops that may raise, Python slices, little and big endian integers as
  \<^verbatim>\<open>struct\<close> writes them, insertion-ordered dictionaries, bounded queues, and the three
  interface locales (\<open>codec\<close>, \<open>bounded_fifo\<close>, \<open>machine\<close>) that the components interpret
  on their own definitions.
\<close>

section \<open>Types\<close>

type_synonym byte = "8 word"
type_synonym bytes = "byte list"

text \<open>Association lists stand for Python dictionaries: \<open>AList.update\<close> keeps the position of
  an existing key and appends a new one, which is the insertion order of a \<^verbatim>\<open>dict\<close>.\<close>

type_synonym ('k, 'v) pydict = "('k \<times> 'v) list"

named_theorems wf_intros \<open>preservation lemmas of the component invariants\<close>
named_theorems py_defs \<open>small definitions that proofs unfold together\<close>

section \<open>Exceptions as values\<close>

datatype py_error =
    ValueError string
  | TypeError string
  | KeyError string
  | IndexError
  | AttributeError string
  | RuntimeError string
  | OSError string
  | StructError
  | OverflowError
  | UnicodeDecodeError
  | AuthenticationError
  | SettingsBusyError string
  | ArgumentTypeError string

text \<open>\<^verbatim>\<open>type(exc).__name__\<close>; the classes of \<^verbatim>\<open>OSError\<close> carry their name.\<close>

definition exc_name :: "py_error \<Rightarrow> string" where
  "exc_name e = (case e of ValueError m \<Rightarrow> ''ValueError'' | TypeError m \<Rightarrow> ''TypeError'' | KeyError m \<Rightarrow> ''KeyError''
     | IndexError \<Rightarrow> ''IndexError'' | AttributeError m \<Rightarrow> ''AttributeError'' | RuntimeError m \<Rightarrow> ''RuntimeError''
     | OSError m \<Rightarrow> m | StructError \<Rightarrow> ''error'' | OverflowError \<Rightarrow> ''OverflowError''
     | UnicodeDecodeError \<Rightarrow> ''UnicodeDecodeError'' | AuthenticationError \<Rightarrow> ''BrewAuthenticationError''
     | SettingsBusyError m \<Rightarrow> ''SettingsBusyError'' | ArgumentTypeError m \<Rightarrow> ''ArgumentTypeError'')"

definition bindE :: "py_error + 'a \<Rightarrow> ('a \<Rightarrow> py_error + 'b) \<Rightarrow> py_error + 'b" where
  "bindE m f = (case m of Inl e \<Rightarrow> Inl e | Inr x \<Rightarrow> f x)"

lemma bindE_simps [simp]:
  "bindE (Inr x) f = f x"
  "bindE (Inl e) f = Inl e"
  by (simp_all add: bindE_def)

lemma bindE_eq_Inr: "bindE m f = Inr y \<longleftrightarrow> (\<exists>x. m = Inr x \<and> f x = Inr y)"
  by (cases m) auto

lemma bindE_InrE: "bindE m f = Inr y \<Longrightarrow> (\<And>x. m = Inr x \<Longrightarrow> f x = Inr y \<Longrightarrow> R) \<Longrightarrow> R"
  by (cases m) auto

lemma bindE_assoc: "bindE (bindE m f) g = bindE m (\<lambda>x. bindE (f x) g)"
  by (cases m) auto

lemma bindE_cong [fundef_cong]:
  "m = m' \<Longrightarrow> (\<And>x. m' = Inr x \<Longrightarrow> f x = f' x) \<Longrightarrow> bindE m f = bindE m' f'"
  by (cases m') auto

text \<open>A \<^verbatim>\<open>for\<close> loop whose body may raise, and a list comprehension whose element may raise.\<close>

fun foldE :: "('a \<Rightarrow> 's \<Rightarrow> py_error + 's) \<Rightarrow> 'a list \<Rightarrow> 's \<Rightarrow> py_error + 's" where
  "foldE f [] s = Inr s"
| "foldE f (x # xs) s = bindE (f x s) (foldE f xs)"

fun mapE :: "('a \<Rightarrow> py_error + 'b) \<Rightarrow> 'a list \<Rightarrow> py_error + 'b list" where
  "mapE f [] = Inr []"
| "mapE f (x # xs) = bindE (f x) (\<lambda>y. bindE (mapE f xs) (\<lambda>ys. Inr (y # ys)))"

lemma foldE_append: "foldE f (xs @ ys) s = bindE (foldE f xs s) (foldE f ys)"
proof (induction xs arbitrary: s)
  case Nil
  then show ?case by simp
next
  case (Cons x xs)
  then show ?case by (cases "f x s") simp_all
qed

lemma foldE_invariant:
  assumes "foldE f xs s = Inr s'" "P s"
    and "\<And>x s s'. x \<in> set xs \<Longrightarrow> P s \<Longrightarrow> f x s = Inr s' \<Longrightarrow> P s'"
  shows "P s'"
  using assms
proof (induction xs arbitrary: s)
  case Nil
  then show ?case by simp
next
  case (Cons x xs)
  from Cons.prems(1) obtain t where t: "f x s = Inr t" "foldE f xs t = Inr s'"
    by (auto simp: bindE_eq_Inr)
  have "P t" using Cons.prems(2,3) t(1) by auto
  with t(2) show ?case using Cons.prems(3) by (intro Cons.IH [of t]) auto
qed

lemma mapE_Inr_length: "mapE f xs = Inr ys \<Longrightarrow> length ys = length xs"
  by (induction xs arbitrary: ys) (auto simp: bindE_eq_Inr)

lemma mapE_total: "(\<And>x. x \<in> set xs \<Longrightarrow> f x = Inr (g x)) \<Longrightarrow> mapE f xs = Inr (map g xs)"
  by (induction xs) auto

section \<open>Rounding and clamping\<close>

text \<open>Python's \<^verbatim>\<open>round\<close> to an integer: to the nearest, ties to the even neighbour.\<close>

definition py_round :: "real \<Rightarrow> int" where
  "py_round x =
     (let f = \<lfloor>x\<rfloor>; d = x - of_int f
      in if d < 1 / 2 then f else if 1 / 2 < d then f + 1
         else if even f then f else f + 1)"

lemma py_round_of_int [simp]: "py_round (of_int n) = n"
  by (simp add: py_round_def)

lemma py_round_near: "\<bar>x - of_int (py_round x)\<bar> \<le> 1 / 2"
  unfolding py_round_def Let_def
  using floor_correct [of x] by (auto simp: abs_le_iff)

lemma py_round_le: "x \<le> of_int n \<Longrightarrow> py_round x \<le> n"
proof -
  assume a: "x \<le> of_int n"
  show ?thesis
  proof (cases "x = of_int n")
    case True
    then show ?thesis by simp
  next
    case False
    then have "\<lfloor>x\<rfloor> < n" using a by (metis floor_less_iff order_le_imp_less_or_eq)
    then show ?thesis by (auto simp: py_round_def Let_def)
  qed
qed

lemma py_round_ge: "of_int n \<le> x \<Longrightarrow> n \<le> py_round x"
proof -
  assume "of_int n \<le> x"
  then have "n \<le> \<lfloor>x\<rfloor>" by (simp add: le_floor_iff)
  then show ?thesis by (auto simp: py_round_def Let_def)
qed

text \<open>\<^verbatim>\<open>max(lo, min(hi, x))\<close>, the clamp the configuration and the audio path use everywhere.\<close>

definition clamp :: "'a::linorder \<Rightarrow> 'a \<Rightarrow> 'a \<Rightarrow> 'a" where
  "clamp lo hi x = max lo (min hi x)"

lemma clamp_bounds [simp]: "lo \<le> hi \<Longrightarrow> lo \<le> clamp lo hi x" "lo \<le> hi \<Longrightarrow> clamp lo hi x \<le> hi"
  by (auto simp: clamp_def)

lemma clamp_id [simp]: "lo \<le> x \<Longrightarrow> x \<le> hi \<Longrightarrow> clamp lo hi x = x"
  by (simp add: clamp_def)

text \<open>Talkgroups and radio ids of the configuration and of the logs.\<close>

abbreviation TG_MAX :: int where "TG_MAX \<equiv> 0xFFFFFF"

definition in_24bit :: "int \<Rightarrow> bool" where
  "in_24bit v \<longleftrightarrow> 1 \<le> v \<and> v \<le> TG_MAX"

definition valid_ids :: "int set \<Rightarrow> bool" where
  "valid_ids s \<longleftrightarrow> finite s \<and> (\<forall>i \<in> s. in_24bit i)"

lemma valid_ids_simps [simp]:
  "valid_ids {}" "valid_ids (insert i s) \<longleftrightarrow> in_24bit i \<and> valid_ids s"
  "valid_ids (s \<union> t) \<longleftrightarrow> valid_ids s \<and> valid_ids t"
  by (auto simp: valid_ids_def)

lemma valid_ids_Diff [intro]: "valid_ids s \<Longrightarrow> valid_ids (s - t)"
  by (auto simp: valid_ids_def)

section \<open>Slices\<close>

text \<open>\<^verbatim>\<open>xs[a:b]\<close> for \<open>0 \<le> a\<close>, \<open>0 \<le> b\<close>: never raises, stops at the end of the list.\<close>

definition slice :: "nat \<Rightarrow> nat \<Rightarrow> 'a list \<Rightarrow> 'a list" where
  "slice a b xs = drop a (take b xs)"

lemma length_slice [simp]: "length (slice a b xs) = min b (length xs) - a"
  by (simp add: slice_def min.commute)

lemma slice_append_exact:
  "length p = a \<Longrightarrow> length m = b - a \<Longrightarrow> a \<le> b \<Longrightarrow> slice a b (p @ m @ r) = m"
  by (simp add: slice_def)

section \<open>Fixed-width integers in byte strings\<close>

primrec le_bytes :: "nat \<Rightarrow> int \<Rightarrow> bytes" where
  "le_bytes 0 v = []"
| "le_bytes (Suc n) v = word_of_int v # le_bytes n (v div 256)"

primrec le_val :: "bytes \<Rightarrow> int" where
  "le_val [] = 0"
| "le_val (b # bs) = uint b + 256 * le_val bs"

definition be_bytes :: "nat \<Rightarrow> int \<Rightarrow> bytes" where
  "be_bytes n v = rev (le_bytes n v)"

definition be_val :: "bytes \<Rightarrow> int" where
  "be_val bs = le_val (rev bs)"

lemma length_le_bytes [simp]: "length (le_bytes n v) = n"
  by (induction n arbitrary: v) auto

lemma length_be_bytes [simp]: "length (be_bytes n v) = n"
  by (simp add: be_bytes_def)

lemma le_bytes_unroll [simp]:
  "le_bytes 1 v = [word_of_int v]"
  "le_bytes 2 v = [word_of_int v, word_of_int (v div 256)]"
  "le_bytes 4 v = [word_of_int v, word_of_int (v div 256),
     word_of_int (v div 65536), word_of_int (v div 16777216)]"
  by (simp_all add: numeral_eq_Suc zdiv_zmult2_eq [symmetric])

lemma le_val_le_bytes [simp]: "le_val (le_bytes n v) = v mod 256 ^ n"
proof (induction n arbitrary: v)
  case 0
  then show ?case by simp
next
  case (Suc n)
  have "v mod (256 * 256 ^ n) = 256 * (v div 256 mod 256 ^ n) + v mod 256"
    by (rule zmod_zmult2_eq) simp
  then show ?case
    by (simp add: Suc uint_word_of_int add.commute)
qed

lemma be_val_be_bytes [simp]: "be_val (be_bytes n v) = v mod 256 ^ n"
  by (simp add: be_val_def be_bytes_def)

lemma le_val_nonneg [simp]: "0 \<le> le_val bs"
  by (induction bs) auto

lemma le_val_bound: "le_val bs < 256 ^ length bs"
proof (induction bs)
  case Nil
  then show ?case by simp
next
  case (Cons b bs)
  have "uint b \<le> 255" using uint_lt2p [of b] by simp
  with Cons show ?case by simp
qed

lemma be_val_nonneg [simp]: "0 \<le> be_val bs"
  by (simp add: be_val_def)

lemma be_val_bound: "be_val bs < 256 ^ length bs"
  using le_val_bound [of "rev bs"] by (simp add: be_val_def)

lemma le_bytes_le_val: "le_bytes (length bs) (le_val bs) = bs"
proof (induction bs)
  case Nil
  then show ?case by simp
next
  case (Cons b bs)
  have ub: "0 \<le> uint b" "uint b < 256" using uint_lt2p [of b] by auto
  have "word_of_int (uint b + 256 * le_val bs) = (b :: byte)"
  proof -
    have "(word_of_int (256 * le_val bs) :: byte) = 0"
      by (subst word_of_int_eq_0_iff) (simp add: dvd_triv_left)
    then have "(word_of_int (uint b + 256 * le_val bs) :: byte) = word_of_int (uint b)"
      by (simp only: wi_hom_add [symmetric] add_0_right)
    then show ?thesis by simp
  qed
  moreover have "(uint b + 256 * le_val bs) div 256 = le_val bs"
    using ub by simp
  ultimately show ?case using Cons by simp
qed

text \<open>\<^verbatim>\<open>struct.pack\<close> of an unsigned field raises when the value does not fit.\<close>

definition pack_le :: "nat \<Rightarrow> int \<Rightarrow> py_error + bytes" where
  "pack_le n v = (if 0 \<le> v \<and> v < 256 ^ n then Inr (le_bytes n v) else Inl StructError)"

definition pack_be :: "nat \<Rightarrow> int \<Rightarrow> py_error + bytes" where
  "pack_be n v = (if 0 \<le> v \<and> v < 256 ^ n then Inr (be_bytes n v) else Inl StructError)"

text \<open>Reading a field at an offset raises when the buffer is too short.\<close>

definition unpack_le_at :: "nat \<Rightarrow> nat \<Rightarrow> bytes \<Rightarrow> py_error + int" where
  "unpack_le_at n off bs =
     (if off + n \<le> length bs then Inr (le_val (slice off (off + n) bs)) else Inl StructError)"

definition unpack_be_at :: "nat \<Rightarrow> nat \<Rightarrow> bytes \<Rightarrow> py_error + int" where
  "unpack_be_at n off bs =
     (if off + n \<le> length bs then Inr (be_val (slice off (off + n) bs)) else Inl StructError)"

lemma unpack_le_at_field:
  "length p = off \<Longrightarrow> 0 \<le> v \<Longrightarrow> v < 256 ^ n \<Longrightarrow>
   unpack_le_at n off (p @ le_bytes n v @ r) = Inr v"
  by (simp add: unpack_le_at_def slice_append_exact)

lemma unpack_be_at_field:
  "length p = off \<Longrightarrow> 0 \<le> v \<Longrightarrow> v < 256 ^ n \<Longrightarrow>
   unpack_be_at n off (p @ be_bytes n v @ r) = Inr v"
  by (simp add: unpack_be_at_def slice_append_exact)

section \<open>Dictionaries\<close>

text \<open>\<^verbatim>\<open>{k: v for k, v in d.items() if keep(v)}\<close>\<close>

definition dict_filter :: "('v \<Rightarrow> bool) \<Rightarrow> ('k, 'v) pydict \<Rightarrow> ('k, 'v) pydict" where
  "dict_filter keep d = filter (\<lambda>(k, v). keep v) d"

definition dict_ok :: "('k, 'v) pydict \<Rightarrow> bool" where
  "dict_ok d = distinct (map fst d)"

lemma dict_ok_Nil [simp, intro]: "dict_ok []"
  by (simp add: dict_ok_def)

lemma dict_ok_update [simp, intro]: "dict_ok d \<Longrightarrow> dict_ok (AList.update k v d)"
  unfolding dict_ok_def by (rule distinct_update)

lemma dict_ok_delete [simp, intro]: "dict_ok d \<Longrightarrow> dict_ok (AList.delete k d)"
  unfolding dict_ok_def by (rule distinct_delete)

lemma dict_ok_filter [simp, intro]: "dict_ok d \<Longrightarrow> dict_ok (dict_filter p d)"
  unfolding dict_ok_def dict_filter_def by (rule distinct_map_filter)

lemma map_of_update [simp]: "map_of (AList.update k v d) = (map_of d)(k \<mapsto> v)"
  by (rule update_conv')

lemma map_of_delete_upd [simp]: "map_of (AList.delete k d) = (map_of d)(k := None)"
  by (rule delete_conv')

lemma map_of_dict_filter:
  assumes "dict_ok d"
  shows "map_of (dict_filter p d) k =
    (case map_of d k of None \<Rightarrow> None | Some v \<Rightarrow> if p v then Some v else None)"
  using assms
proof (induction d)
  case Nil
  then show ?case by (simp add: dict_filter_def)
next
  case (Cons kv d)
  obtain a v where kv: "kv = (a, v)" by (cases kv)
  have notin: "map_of d a = None"
    using Cons.prems kv by (simp add: dict_ok_def map_of_eq_None_iff)
  have ok: "dict_ok d" using Cons.prems by (simp add: dict_ok_def)
  show ?case
    using Cons.IH [OF ok] notin kv by (auto simp: dict_filter_def)
qed

lemma set_dict_filter [simp]: "set (dict_filter p d) = {kv \<in> set d. p (snd kv)}"
  by (auto simp: dict_filter_def)

lemma map_of_in_set: "map_of d k = Some v \<Longrightarrow> (k, v) \<in> set d"
  by (rule map_of_SomeD)

lemma in_set_map_of: "dict_ok d \<Longrightarrow> (k, v) \<in> set d \<Longrightarrow> map_of d k = Some v"
  by (simp add: dict_ok_def)

lemma keys_update [simp]: "fst ` set (AList.update k v d) = insert k (fst ` set d)"
  by (simp add: dom_update)

lemma keys_delete [simp]: "fst ` set (AList.delete k d) = fst ` set d - {k}"
  using delete_keys [of k d] by (metis list.set_map set_removeAll)

lemma set_update_subset: "set (AList.update k v d) \<subseteq> insert (k, v) (set d)"
  by (induction d) auto

lemma set_delete_subset: "set (AList.delete k d) \<subseteq> set d"
  by (auto simp: AList.delete_eq)

lemma in_set_updateD: "kv \<in> set (AList.update k v d) \<Longrightarrow> kv = (k, v) \<or> kv \<in> set d"
  using set_update_subset [of k v d] by auto

lemma in_set_deleteD: "kv \<in> set (AList.delete k d) \<Longrightarrow> kv \<in> set d \<and> fst kv \<noteq> k"
  by (auto simp: AList.delete_eq)

lemma update_new: "k \<notin> fst ` set d \<Longrightarrow> AList.update k v d = d @ [(k, v)]"
  by (induction d) auto

lemma map_of_None_iff: "map_of d k = None \<longleftrightarrow> k \<notin> fst ` set d"
  by (rule map_of_eq_None_iff)

section \<open>Interface: an encoder and its decoder\<close>

text \<open>
  What every wire format of the system promises: decoding what was encoded gives the value
  back, for every value the format can carry.
\<close>

locale codec =
  fixes valid :: "'a \<Rightarrow> bool"
    and enc :: "'a \<Rightarrow> py_error + 'w"
    and dec :: "'w \<Rightarrow> py_error + 'a"
  assumes encodes: "valid x \<Longrightarrow> \<exists>w. enc x = Inr w"
    and decodes: "valid x \<Longrightarrow> enc x = Inr w \<Longrightarrow> dec w = Inr x"
begin

lemma round_trip: "valid x \<Longrightarrow> bindE (enc x) dec = Inr x"
  using encodes decodes by fastforce

lemma unambiguous: "valid x \<Longrightarrow> valid y \<Longrightarrow> enc x = enc y \<Longrightarrow> x = y"
  using encodes decodes by (metis Inr_inject)

end

section \<open>Interface: a bounded queue that drops its oldest element\<close>

definition push_bounded :: "nat \<Rightarrow> 'a \<Rightarrow> 'a list \<Rightarrow> 'a list" where
  "push_bounded cap x q = (if length q \<ge> cap then tl q else q) @ [x]"

locale bounded_fifo =
  fixes cap :: nat
    and push :: "'a \<Rightarrow> 'q \<Rightarrow> 'q"
    and items :: "'q \<Rightarrow> 'a list"
  assumes cap_pos: "0 < cap"
    and push_items: "items (push x q) = push_bounded cap x (items q)"
begin

lemma push_within: "length (items q) \<le> cap \<Longrightarrow> length (items (push x q)) \<le> cap"
  using cap_pos by (auto simp: push_items push_bounded_def)

lemma push_last: "items (push x q) \<noteq> [] \<and> last (items (push x q)) = x"
  by (simp add: push_items push_bounded_def)

lemma push_keeps_room: "length (items q) < cap \<Longrightarrow> items (push x q) = items q @ [x]"
  by (simp add: push_items push_bounded_def)

lemma fold_push_suffix:
  "length (items q) \<le> cap \<Longrightarrow>
   items (fold push xs q) = (let ys = items q @ xs in drop (length ys - cap) ys)"
proof (induction xs arbitrary: q)
  case Nil
  then show ?case by simp
next
  case (Cons x xs)
  have le: "length (items (push x q)) \<le> cap" using Cons.prems by (rule push_within)
  show ?case
  proof (cases "length (items q) < cap")
    case True
    then show ?thesis using Cons.IH [OF le] by (simp add: push_keeps_room)
  next
    case False
    then have full: "length (items q) = cap" using Cons.prems by simp
    then obtain y ys where q: "items q = y # ys"
      using cap_pos by (cases "items q") auto
    have p: "items (push x q) = ys @ [x]"
      using full q by (simp add: push_items push_bounded_def)
    show ?thesis
      using Cons.IH [OF le] full q p by (simp add: Let_def Suc_diff_le)
  qed
qed

end

section \<open>Interface: a machine with an invariant\<close>

inductive reach :: "('s \<Rightarrow> bool) \<Rightarrow> ('s \<Rightarrow> 'e \<Rightarrow> 's \<Rightarrow> bool) \<Rightarrow> 's \<Rightarrow> bool" for starts step where
  start: "starts s \<Longrightarrow> reach starts step s"
| more: "reach starts step s \<Longrightarrow> step s e t \<Longrightarrow> reach starts step t"

locale transitions =
  fixes starts :: "'s \<Rightarrow> bool"
    and step :: "'s \<Rightarrow> 'e \<Rightarrow> 's \<Rightarrow> bool"
    and inv :: "'s \<Rightarrow> bool"
  assumes start_inv: "starts s \<Longrightarrow> inv s"
    and step_inv: "inv s \<Longrightarrow> step s e t \<Longrightarrow> inv t"
begin

lemma reach_inv: "reach starts step s \<Longrightarrow> inv s"
  by (induction rule: reach.induct) (auto intro: start_inv step_inv)

end

locale machine =
  fixes inv :: "'s \<Rightarrow> bool"
    and step :: "'e \<Rightarrow> 's \<Rightarrow> 's"
  assumes step_inv: "inv s \<Longrightarrow> inv (step e s)"
begin

lemma run_inv: "inv s \<Longrightarrow> inv (fold step es s)"
  by (induction es arbitrary: s) (auto intro: step_inv)

end

text \<open>A machine is the transition system of its own steps.\<close>

sublocale machine \<subseteq> relational: transitions inv "\<lambda>s e t. t = step e s" inv
  by unfold_locales (auto intro: step_inv)

end
