(* ===== verification/Tetra_Codec.thy ===== *)
theory Tetra_Codec
  imports Qb_Prelude
begin

text \<open>
  The TETRA frame packing of \<^verbatim>\<open>deploy/scripts/tetrapack_brew_audio.py\<close>: single bits of a
  packed byte string, the 36 byte STE block that carries two 137 bit codec frames, PCM
  scaling and the codec handle. Every index that Python checks is an \<open>IndexError\<close> branch;
  the lemmas show that the block operations never take it. The codec library itself is C
  code outside the repository: it is a parameter (\<open>codec_lib\<close>), a function of everything
  fed to one codec instance so far.
\<close>

section \<open>Packed bits\<close>

abbreviation TETRA_SAMPLES_30MS :: nat where "TETRA_SAMPLES_30MS \<equiv> 240"
abbreviation TETRA_SAMPLES_60MS :: nat where "TETRA_SAMPLES_60MS \<equiv> 480"
abbreviation TETRA_BITS_30MS :: nat where "TETRA_BITS_30MS \<equiv> 137"
abbreviation TETRA_BITS_60MS :: nat where "TETRA_BITS_60MS \<equiv> 274"
abbreviation TETRA_CODED_BYTES :: nat where "TETRA_CODED_BYTES \<equiv> 18"
abbreviation TETRA_PACKED_BYTES :: nat where "TETRA_PACKED_BYTES \<equiv> 35"
abbreviation TETRA_STE_BYTES :: nat where "TETRA_STE_BYTES \<equiv> 36"

definition get_packed_bit :: "bytes \<Rightarrow> nat \<Rightarrow> py_error + byte" where
  "get_packed_bit data bit_index =
     (if bit_index div 8 < length data
      then Inr (drop_bit (7 - bit_index mod 8) (data ! (bit_index div 8)) AND 1)
      else Inl IndexError)"

definition set_packed_bit :: "bytes \<Rightarrow> nat \<Rightarrow> byte \<Rightarrow> py_error + bytes" where
  "set_packed_bit data bit_index value =
     (if value AND 1 \<noteq> 0
      then if bit_index div 8 < length data
           then Inr (data[bit_index div 8 :=
                  (data ! (bit_index div 8)) OR push_bit (7 - bit_index mod 8) 1])
           else Inl IndexError
      else Inr data)"

section \<open>STE blocks\<close>

definition split_bit :: "bytes \<Rightarrow> nat \<Rightarrow> bytes list \<Rightarrow> py_error + bytes list" where
  "split_bit packed bit_index frames =
     (let frame_index = bit_index div TETRA_BITS_30MS;
          frame_bit = bit_index mod TETRA_BITS_30MS
      in if frame_index < length frames
         then bindE (get_packed_bit packed bit_index) (\<lambda>v.
              bindE (set_packed_bit (frames ! frame_index) frame_bit v) (\<lambda>f.
              Inr (frames[frame_index := f])))
         else Inl IndexError)"

definition split_tmd_block :: "bytes \<Rightarrow> py_error + bytes \<times> bytes" where
  "split_tmd_block data =
     bindE (if length data = TETRA_STE_BYTES then Inr (drop 1 data)
            else if length data = TETRA_PACKED_BYTES then Inr data
            else Inl (ValueError ''invalid TETRA block length''))
       (\<lambda>packed. bindE
          (foldE (split_bit packed) [0..<TETRA_BITS_60MS]
             [replicate TETRA_CODED_BYTES 0, replicate TETRA_CODED_BYTES 0])
          (\<lambda>frames. Inr (frames ! 0, frames ! 1)))"

definition join_bit :: "bytes \<Rightarrow> bytes \<Rightarrow> nat \<Rightarrow> bytes \<Rightarrow> py_error + bytes" where
  "join_bit frame_a frame_b bit_index packed =
     (let frame = (if bit_index < TETRA_BITS_30MS then frame_a else frame_b);
          frame_bit = bit_index mod TETRA_BITS_30MS
      in bindE (get_packed_bit frame frame_bit) (set_packed_bit packed bit_index))"

definition join_tmd_block :: "bytes \<Rightarrow> bytes \<Rightarrow> py_error + bytes" where
  "join_tmd_block frame_a frame_b =
     (if length frame_a \<noteq> TETRA_CODED_BYTES \<or> length frame_b \<noteq> TETRA_CODED_BYTES
      then Inl (ValueError ''a TETRA codec frame must contain 18 bytes'')
      else bindE (foldE (join_bit frame_a frame_b) [0..<TETRA_BITS_60MS]
                    (replicate TETRA_PACKED_BYTES 0))
             (\<lambda>packed. Inr (0 # packed)))"

subsection \<open>The reference view: the bit at a position\<close>

definition pbit :: "bytes \<Rightarrow> nat \<Rightarrow> bool" where
  "pbit data i = bit (data ! (i div 8)) (7 - i mod 8)"

lemma and_one_bit: "drop_bit n (w :: byte) AND 1 = of_bool (bit w n)"
  by (simp add: bit_iff_odd_drop_bit and_one_eq mod_2_eq_odd)

lemma get_packed_bit_Inr [simp]:
  "i < 8 * length data \<Longrightarrow> get_packed_bit data i = Inr (of_bool (pbit data i))"
  by (simp add: get_packed_bit_def pbit_def and_one_bit less_mult_imp_div_less mult.commute)

lemma get_packed_bit_IndexError:
  "8 * length data \<le> i \<Longrightarrow> get_packed_bit data i = Inl IndexError"
  by (auto simp: get_packed_bit_def)

lemma set_packed_bit_Inr:
  assumes "i < 8 * length data"
  shows "\<exists>d. set_packed_bit data i (of_bool b) = Inr d \<and> length d = length data \<and>
             (\<forall>j. pbit d j = (pbit data j \<or> (j = i \<and> b)))"
proof -
  have lt: "i div 8 < length data" using assms by (simp add: less_mult_imp_div_less mult.commute)
  have same: "j = i" if "j div 8 = i div 8" "7 - j mod 8 = 7 - i mod 8" for j
  proof -
    have "j mod 8 < 8" "i mod 8 < 8" by simp_all
    then have "j mod 8 = i mod 8" using that(2) by linarith
    with that(1) show ?thesis by (metis div_mult_mod_eq)
  qed
  have eight: "7 - j mod 8 < 8" for j :: nat by simp
  show ?thesis
  proof (cases b)
    case True
    let ?d = "data[i div 8 := (data ! (i div 8)) OR push_bit (7 - i mod 8) 1]"
    have "pbit ?d j = (pbit data j \<or> j = i)" for j
    proof (cases "j div 8 = i div 8")
      case eq: True
      have "bit (push_bit (7 - i mod 8) (1 :: byte)) (7 - j mod 8) \<longleftrightarrow> 7 - j mod 8 = 7 - i mod 8"
        by (auto simp: bit_simps)
      then show ?thesis
        using eq lt same [OF eq] by (auto simp: pbit_def bit_or_iff)
    next
      case False
      then show ?thesis by (auto simp: pbit_def)
    qed
    then show ?thesis using True lt by (simp add: set_packed_bit_def)
  next
    case False
    then show ?thesis by (simp add: set_packed_bit_def)
  qed
qed

lemma bytes_eq_by_bits:
  assumes "length a = length b" "\<And>i. i < 8 * length a \<Longrightarrow> pbit a i = pbit b i"
  shows "a = b"
proof (rule nth_equalityI)
  show "length a = length b" by (rule assms(1))
next
  fix k assume k: "k < length a"
  show "a ! k = b ! k"
  proof (rule bit_word_eqI)
    fix n assume "n < LENGTH(8)"
    then have n: "n < 8" by simp
    let ?i = "8 * k + (7 - n)"
    have "?i div 8 = k" "?i mod 8 = 7 - n" using n by (simp_all only: div_mult_self4 mod_mult_self4) auto
    moreover have "?i < 8 * length a" using k n by linarith
    ultimately show "bit (a ! k) n = bit (b ! k) n"
      using assms(2) [of ?i] n by (simp add: pbit_def)
  qed
qed

lemma pbit_zero [simp]: "i < 8 * n \<Longrightarrow> pbit (replicate n 0) i = False"
  by (simp add: pbit_def less_mult_imp_div_less mult.commute)

subsection \<open>The loops against the reference view\<close>

lemma join_loop:
  assumes "length a = 18" "length b = 18" "n \<le> 274"
  shows "\<exists>p. foldE (join_bit a b) [0..<n] (replicate 35 0) = Inr p \<and> length p = 35 \<and>
    (\<forall>j < 280. pbit p j = (j < n \<and> (if j < 137 then pbit a j else pbit b (j - 137))))"
  using assms(3)
proof (induction n)
  case 0
  then show ?case by simp
next
  case (Suc n)
  then obtain p where p: "foldE (join_bit a b) [0..<n] (replicate 35 0) = Inr p"
      "length p = 35"
      "\<forall>j < 280. pbit p j = (j < n \<and> (if j < 137 then pbit a j else pbit b (j - 137)))"
    by auto
  let ?bit = "if n < 137 then pbit a n else pbit b (n - 137)"
  have md: "\<not> n < 137 \<Longrightarrow> n mod 137 = n - 137" using Suc.prems by (simp add: mod_if)
  have g: "bindE (get_packed_bit (if n < 137 then a else b) (n mod 137)) (set_packed_bit p n)
        = set_packed_bit p n (of_bool ?bit)"
    using assms(1,2) md by (auto simp: less_Suc_eq_le)
  obtain d where d: "set_packed_bit p n (of_bool ?bit) = Inr d" "length d = 35"
      "\<forall>j. pbit d j = (pbit p j \<or> (j = n \<and> ?bit))"
    using set_packed_bit_Inr [of n p ?bit] p(2) Suc.prems by auto
  have "foldE (join_bit a b) [0..<Suc n] (replicate 35 0) = Inr d"
    using p(1) g d(1) by (simp add: foldE_append join_bit_def Let_def)
  then show ?case
    using d(2,3) p(3) by (auto simp: less_Suc_eq)
qed

lemma join_tmd_block_spec:
  assumes "length a = 18" "length b = 18"
  obtains p where "join_tmd_block a b = Inr (0 # p)" "length p = 35"
    "\<And>j. j < 280 \<Longrightarrow>
       pbit p j = (j < 274 \<and> (if j < 137 then pbit a j else pbit b (j - 137)))"
proof -
  from join_loop [OF assms, of 274] obtain p where
    "foldE (join_bit a b) [0..<274] (replicate 35 0) = Inr p" "length p = 35"
    "\<forall>j < 280. pbit p j = (j < 274 \<and> (if j < 137 then pbit a j else pbit b (j - 137)))"
    by auto
  then show thesis using assms that by (simp add: join_tmd_block_def)
qed

lemma split_loop:
  assumes "length packed = 35" "n \<le> 274"
  shows "\<exists>f g. foldE (split_bit packed) [0..<n] [replicate 18 0, replicate 18 0] = Inr [f, g] \<and>
    length f = 18 \<and> length g = 18 \<and>
    (\<forall>j < 144. pbit f j = (j < n \<and> j < 137 \<and> pbit packed j)) \<and>
    (\<forall>j < 144. pbit g j = (j + 137 < n \<and> j < 137 \<and> pbit packed (j + 137)))"
  using assms(2)
proof (induction n)
  case 0
  then show ?case by simp
next
  case (Suc n)
  then obtain f g where fg:
      "foldE (split_bit packed) [0..<n] [replicate 18 0, replicate 18 0] = Inr [f, g]"
      "length f = 18" "length g = 18"
      "\<forall>j < 144. pbit f j = (j < n \<and> j < 137 \<and> pbit packed j)"
      "\<forall>j < 144. pbit g j = (j + 137 < n \<and> j < 137 \<and> pbit packed (j + 137))"
    by auto
  have get: "get_packed_bit packed n = Inr (of_bool (pbit packed n))"
    using Suc.prems assms(1) by simp
  show ?case
  proof (cases "n < 137")
    case True
    obtain d where d: "set_packed_bit f n (of_bool (pbit packed n)) = Inr d" "length d = 18"
        "\<forall>j. pbit d j = (pbit f j \<or> (j = n \<and> pbit packed n))"
      using set_packed_bit_Inr [of n f "pbit packed n"] fg(2) True by auto
    have "foldE (split_bit packed) [0..<Suc n] [replicate 18 0, replicate 18 0] = Inr [d, g]"
      using fg(1) get d(1) True by (simp add: foldE_append split_bit_def Let_def)
    then show ?thesis using d fg True by (auto simp: less_Suc_eq)
  next
    case False
    then have dm: "n div 137 = 1" "n mod 137 = n - 137"
      using Suc.prems by (simp_all add: div_if mod_if)
    have lt: "n - 137 < 144" using Suc.prems by simp
    obtain d where d: "set_packed_bit g (n - 137) (of_bool (pbit packed n)) = Inr d"
        "length d = 18"
        "\<forall>j. pbit d j = (pbit g j \<or> (j = n - 137 \<and> pbit packed n))"
      using set_packed_bit_Inr [of "n - 137" g "pbit packed n"] fg(3) lt by auto
    have "foldE (split_bit packed) [0..<Suc n] [replicate 18 0, replicate 18 0] = Inr [f, d]"
      using fg(1) get d(1) dm by (simp add: foldE_append split_bit_def Let_def)
    then show ?thesis using d fg False Suc.prems by (auto simp: less_Suc_eq)
  qed
qed

lemma split_tmd_block_spec:
  assumes "length data = 36 \<or> length data = 35"
  obtains f g where "split_tmd_block data = Inr (f, g)" "length f = 18" "length g = 18"
    "\<And>j. j < 144 \<Longrightarrow> pbit f j = (j < 137 \<and> pbit (drop (length data - 35) data) j)"
    "\<And>j. j < 144 \<Longrightarrow> pbit g j = (j < 137 \<and> pbit (drop (length data - 35) data) (j + 137))"
proof -
  let ?p = "drop (length data - 35) data"
  have len: "length ?p = 35" using assms by auto
  from split_loop [OF len, of 274] obtain f g where
    "foldE (split_bit ?p) [0..<274] [replicate 18 0, replicate 18 0] = Inr [f, g]"
    "length f = 18" "length g = 18"
    "\<forall>j < 144. pbit f j = (j < 274 \<and> j < 137 \<and> pbit ?p j)"
    "\<forall>j < 144. pbit g j = (j + 137 < 274 \<and> j < 137 \<and> pbit ?p (j + 137))"
    by auto
  then show thesis using assms that [of f g] by (auto simp: split_tmd_block_def)
qed

text \<open>The frames the codec writes: 137 bits, the seven filler bits clear.\<close>

definition canonical_frame :: "bytes \<Rightarrow> bool" where
  "canonical_frame f \<longleftrightarrow> length f = TETRA_CODED_BYTES \<and> (\<forall>j \<in> {137..<144}. \<not> pbit f j)"

lemma split_join:
  assumes "length a = 18" "length b = 18"
  obtains ste f g where "join_tmd_block a b = Inr ste" "length ste = 36" "hd ste = 0"
    "split_tmd_block ste = Inr (f, g)" "canonical_frame f" "canonical_frame g"
    "\<And>j. j < 137 \<Longrightarrow> pbit f j = pbit a j" "\<And>j. j < 137 \<Longrightarrow> pbit g j = pbit b j"
proof -
  obtain p where p: "join_tmd_block a b = Inr (0 # p)" "length p = 35"
    "\<And>j. j < 280 \<Longrightarrow>
       pbit p j = (j < 274 \<and> (if j < 137 then pbit a j else pbit b (j - 137)))"
    using join_tmd_block_spec [OF assms] by blast
  have l: "length (0 # p) = 36 \<or> length (0 # p) = 35" using p(2) by simp
  obtain f g where fg: "split_tmd_block (0 # p) = Inr (f, g)" "length f = 18" "length g = 18"
    "\<And>j. j < 144 \<Longrightarrow> pbit f j = (j < 137 \<and> pbit (drop (length (0 # p) - 35) (0 # p)) j)"
    "\<And>j. j < 144 \<Longrightarrow> pbit g j = (j < 137 \<and> pbit (drop (length (0 # p) - 35) (0 # p)) (j + 137))"
    using split_tmd_block_spec [OF l] by blast
  show thesis
    by (rule that [of "0 # p" f g]) (use p fg in \<open>auto simp: canonical_frame_def\<close>)
qed

lemma canonical_frame_eqI:
  assumes "canonical_frame x" "canonical_frame y" "\<And>j. j < 137 \<Longrightarrow> pbit x j = pbit y j"
  shows "x = y"
proof (rule bytes_eq_by_bits)
  show "length x = length y" using assms by (simp add: canonical_frame_def)
next
  fix i assume "i < 8 * length x"
  then have "i < 144" using assms(1) by (simp add: canonical_frame_def)
  then show "pbit x i = pbit y i"
    using assms by (cases "i < 137") (auto simp: canonical_frame_def)
qed

lemma split_join_canonical:
  assumes "canonical_frame a" "canonical_frame b"
  obtains ste where "join_tmd_block a b = Inr ste" "length ste = 36" "hd ste = 0"
    "split_tmd_block ste = Inr (a, b)"
proof -
  have la: "length a = 18" "length b = 18" using assms by (simp_all add: canonical_frame_def)
  obtain ste f g where s: "join_tmd_block a b = Inr ste" "length ste = 36" "hd ste = 0"
    "split_tmd_block ste = Inr (f, g)" "canonical_frame f" "canonical_frame g"
    "\<And>j. j < 137 \<Longrightarrow> pbit f j = pbit a j" "\<And>j. j < 137 \<Longrightarrow> pbit g j = pbit b j"
    using split_join [OF la] by blast
  have "f = a" by (rule canonical_frame_eqI) (use s assms in auto)
  moreover have "g = b" by (rule canonical_frame_eqI) (use s assms in auto)
  ultimately show thesis using s that by simp
qed

text \<open>Packing two codec frames into an STE block and unpacking the block gives back the
  same two frames, for every pair of 18 byte frames whose seven filler bits are clear (the
  only frames the codec writes); the block is 36 bytes and its STE header byte is zero.\<close>

theorem tmd_block_round_trip:
  assumes "canonical_frame a" "canonical_frame b"
  shows "\<exists>ste. join_tmd_block a b = Inr ste \<and> length ste = TETRA_STE_BYTES \<and> hd ste = 0 \<and>
     split_tmd_block ste = Inr (a, b)"
  using split_join_canonical [OF assms] by metis

text \<open>A full frame: 136 one bits in 17 bytes, the last of the 137 bits in the top of byte 17.\<close>

theorem tmd_block_round_trip_witness:
  "canonical_frame (replicate 17 255 @ [128]) \<and> canonical_frame (replicate 18 0) \<and>
   (\<exists>ste. join_tmd_block (replicate 17 255 @ [128]) (replicate 18 0) = Inr ste \<and>
     length ste = 36 \<and> hd ste = 0 \<and>
     split_tmd_block ste = Inr (replicate 17 255 @ [128], replicate 18 0))"
proof -
  have "\<not> pbit (replicate 17 255 @ [128]) j" if "j \<in> {137..<144}" for j
  proof -
    have "j = 137 \<or> j = 138 \<or> j = 139 \<or> j = 140 \<or> j = 141 \<or> j = 142 \<or> j = 143"
      using that by auto
    then show ?thesis by (auto simp: pbit_def nth_append bit_simps)
  qed
  then have a: "canonical_frame (replicate 17 255 @ [128])" by (simp add: canonical_frame_def)
  have b: "canonical_frame (replicate 18 0)" by (simp add: canonical_frame_def)
  show ?thesis using a b tmd_block_round_trip [OF a b] by simp
qed

text \<open>The pair of operations as an instance of the codec interface.\<close>

interpretation ste_block: codec
  "\<lambda>(a, b). canonical_frame a \<and> canonical_frame b"
  "\<lambda>(a, b). join_tmd_block a b" split_tmd_block
proof unfold_locales
  fix x :: "bytes \<times> bytes"
  assume "case x of (a, b) \<Rightarrow> canonical_frame a \<and> canonical_frame b"
  then show "\<exists>w. (case x of (a, b) \<Rightarrow> join_tmd_block a b) = Inr w"
    by (cases x) (auto elim: split_join_canonical)
next
  fix x :: "bytes \<times> bytes" and w
  assume "case x of (a, b) \<Rightarrow> canonical_frame a \<and> canonical_frame b"
    and "(case x of (a, b) \<Rightarrow> join_tmd_block a b) = Inr w"
  then show "split_tmd_block w = Inr x"
    by (cases x) (auto elim: split_join_canonical)
qed

section \<open>PCM samples\<close>

definition pcm_rms :: "int \<Rightarrow> int \<Rightarrow> real" where
  "pcm_rms sum_squares sample_count =
     (if sample_count \<le> 0 then 0 else sqrt (of_int sum_squares / of_int sample_count))"

definition scale_pcm :: "int list \<Rightarrow> real \<Rightarrow> int \<Rightarrow> int list" where
  "scale_pcm samples gain peak_limit =
     (if gain = 1 \<and> (\<forall>v \<in> set samples. - peak_limit \<le> v \<and> v \<le> peak_limit) then samples
      else map (\<lambda>v. clamp (- peak_limit) peak_limit (py_round (of_int v * gain))) samples)"

lemma length_scale_pcm [simp]: "length (scale_pcm samples gain peak_limit) = length samples"
  by (simp add: scale_pcm_def)

lemma scale_pcm_unit:
  "(\<forall>v \<in> set samples. \<bar>v\<bar> \<le> peak_limit) \<Longrightarrow> scale_pcm samples 1 peak_limit = samples"
  by (auto simp: scale_pcm_def abs_le_iff)

text \<open>\<^verbatim>\<open>ctypes.c_int16\<close> keeps the low 16 bits and reads them as a signed value.\<close>

definition wrap16 :: "int \<Rightarrow> int" where
  "wrap16 v = sint (word_of_int v :: 16 word)"

lemma wrap16_bounds: "- 32768 \<le> wrap16 v" "wrap16 v < 32768"
  using sint_range_size [of "word_of_int v :: 16 word"] by (auto simp: wrap16_def word_size)

lemma wrap16_id: "- 32768 \<le> v \<Longrightarrow> v < 32768 \<Longrightarrow> wrap16 v = v"
  by (simp add: wrap16_def signed_of_int signed_take_bit_int_eq_self)

section \<open>Codec handles\<close>

text \<open>
  \<open>lib_encode\<close> and \<open>lib_decode\<close> stand for the C functions: what one instance writes is a
  function of everything it was fed, the current call last. The buffers are fixed arrays, so
  the result is always 18 bytes or 240 samples.
\<close>

record codec_lib =
  lib_alloc :: bool
  lib_encode :: "int list list \<Rightarrow> bytes"
  lib_decode :: "(bytes \<times> bool) list \<Rightarrow> int list"

record codec_handle =
  h_is_encoder :: bool
  h_closed :: bool
  h_destroyed :: nat
  h_pcm :: "int list list"
  h_coded :: "(bytes \<times> bool) list"

definition open_handle :: "codec_lib \<Rightarrow> bool \<Rightarrow> py_error + codec_handle" where
  "open_handle lib encoder =
     (if \<not> lib_alloc lib then Inl (RuntimeError ''tetra-codec allocation failed'')
      else Inr \<lparr>h_is_encoder = encoder, h_closed = False, h_destroyed = 0,
                h_pcm = [], h_coded = []\<rparr>)"

definition handle_encode ::
  "codec_lib \<Rightarrow> codec_handle \<Rightarrow> int list \<Rightarrow> py_error + bytes \<times> codec_handle" where
  "handle_encode lib h samples =
     (if \<not> h_is_encoder h \<or> length samples \<noteq> TETRA_SAMPLES_30MS
      then Inl (ValueError ''tetra_encode requires 240 PCM samples'')
      else let fed = h_pcm h @ [map wrap16 samples]
           in Inr (take TETRA_CODED_BYTES (lib_encode lib fed @ replicate TETRA_CODED_BYTES 0),
                   h\<lparr>h_pcm := fed\<rparr>))"

definition handle_decode ::
  "codec_lib \<Rightarrow> codec_handle \<Rightarrow> bytes \<Rightarrow> bool \<Rightarrow> py_error + int list \<times> codec_handle" where
  "handle_decode lib h coded bad_frame =
     (if h_is_encoder h \<or> length coded \<noteq> TETRA_CODED_BYTES
      then Inl (ValueError ''tetra_decode requires one 18-byte codec frame'')
      else let fed = h_coded h @ [(coded, bad_frame)]
           in Inr (map wrap16 (take TETRA_SAMPLES_30MS
                     (lib_decode lib fed @ replicate TETRA_SAMPLES_30MS 0)),
                   h\<lparr>h_coded := fed\<rparr>))"

definition handle_close :: "codec_handle \<Rightarrow> codec_handle" where
  "handle_close h =
     (if h_closed h then h else h\<lparr>h_destroyed := h_destroyed h + 1, h_closed := True\<rparr>)"

text \<open>The native instance is destroyed at most once, and exactly once it is closed.\<close>

definition handle_ok :: "codec_handle \<Rightarrow> bool" where
  "handle_ok h \<longleftrightarrow> h_destroyed h = (if h_closed h then 1 else 0)"

lemma handle_encode_len:
  "handle_encode lib h samples = Inr (coded, h') \<Longrightarrow> length coded = 18"
  by (auto simp: handle_encode_def Let_def split: if_splits)

lemma handle_encode_ok:
  "h_is_encoder h \<Longrightarrow> length samples = 240 \<Longrightarrow>
   \<exists>coded h'. handle_encode lib h samples = Inr (coded, h') \<and> length coded = 18 \<and>
     h_is_encoder h' \<and> h_closed h' = h_closed h \<and> h_destroyed h' = h_destroyed h \<and>
     h_pcm h' = h_pcm h @ [map wrap16 samples]"
  by (auto simp: handle_encode_def Let_def)

lemma handle_decode_len:
  "handle_decode lib h coded bad = Inr (pcm, h') \<Longrightarrow>
   length pcm = 240 \<and> (\<forall>v \<in> set pcm. - 32768 \<le> v \<and> v < 32768)"
  by (auto simp: handle_decode_def Let_def wrap16_bounds split: if_splits)

lemma handle_ok_open [wf_intros]: "open_handle lib e = Inr h \<Longrightarrow> handle_ok h"
  by (auto simp: open_handle_def handle_ok_def split: if_splits)

lemma handle_ok_encode [wf_intros]:
  "handle_ok h \<Longrightarrow> handle_encode lib h s = Inr (c, h') \<Longrightarrow> handle_ok h'"
  by (auto simp: handle_encode_def handle_ok_def Let_def split: if_splits)

lemma handle_ok_decode [wf_intros]:
  "handle_ok h \<Longrightarrow> handle_decode lib h c b = Inr (s, h') \<Longrightarrow> handle_ok h'"
  by (auto simp: handle_decode_def handle_ok_def Let_def split: if_splits)

lemma handle_ok_close [wf_intros]: "handle_ok h \<Longrightarrow> handle_ok (handle_close h)"
  by (auto simp: handle_close_def handle_ok_def)

lemma handle_close_idem [simp]: "handle_close (handle_close h) = handle_close h"
  by (simp add: handle_close_def)

end
