(* ===== verification/Uplink_Audio.thy ===== *)
theory Uplink_Audio
  imports Qb_Prelude
begin

text \<open>
  \<^verbatim>\<open>UplinkAudioProcessor\<close> of \<^verbatim>\<open>tetrapack_brew_audio.py\<close>: the stateful speech shaping in
  front of the TETRA encoder. \<open>uap_cfg\<close> holds what the constructor computes and never
  changes, \<open>uap\<close> what \<^verbatim>\<open>process\<close> updates from sample to sample. Python floats are real
  numbers here: rounding of intermediate results is not modelled, the final rounding to
  integer samples is.
\<close>

section \<open>State\<close>

record uap_cfg =
  high_pass_hz :: real
  presence_gain :: real
  high_cut_hz :: real
  de_esser_threshold :: real
  de_esser_strength :: real
  high_pass_alpha :: real
  de_esser_enabled :: bool
  de_esser_split_alpha :: real
  de_esser_attack_alpha :: real
  de_esser_release_alpha :: real
  low_pass_b0 :: real
  low_pass_b1 :: real
  low_pass_b2 :: real
  low_pass_a1 :: real
  low_pass_a2 :: real

record uap =
  high_pass_ready :: bool
  high_pass_previous_input :: real
  high_pass_previous_output :: real
  presence_ready :: bool
  presence_previous_input :: real
  de_esser_low_state :: real
  de_esser_envelope :: real
  de_esser_reduced_samples :: nat
  de_esser_min_gain :: real
  low_pass_state1 :: real
  low_pass_state2 :: real

abbreviation SAMPLE_RATE :: real where "SAMPLE_RATE \<equiv> 8000"

definition uap_init_cfg :: "real \<Rightarrow> real \<Rightarrow> real \<Rightarrow> real \<Rightarrow> real \<Rightarrow> real \<Rightarrow> uap_cfg" where
  "uap_init_cfg hp presence high_cut crossover threshold strength =
     (let rc = 1 / (2 * pi * hp);
          enabled = (crossover > 0 \<and> threshold > 0 \<and> strength > 0);
          omega = 2 * pi * high_cut / SAMPLE_RATE;
          cosine = cos omega;
          alpha = sin omega / (2 * (70710678 / 100000000));
          a0 = 1 + alpha;
          b0 = ((1 - cosine) * (1 / 2)) / a0
      in \<lparr>high_pass_hz = hp, presence_gain = presence, high_cut_hz = high_cut,
          de_esser_threshold = threshold, de_esser_strength = strength,
          high_pass_alpha = (if hp > 0 then rc / (rc + 1 / SAMPLE_RATE) else 0),
          de_esser_enabled = enabled,
          de_esser_split_alpha =
            (if enabled then exp (- 2 * pi * crossover / SAMPLE_RATE) else 0),
          de_esser_attack_alpha = exp (- 1 / (3 / 1000 * SAMPLE_RATE)),
          de_esser_release_alpha = exp (- 1 / (60 / 1000 * SAMPLE_RATE)),
          low_pass_b0 = (if high_cut > 0 then b0 else 1),
          low_pass_b1 = (if high_cut > 0 then (1 - cosine) / a0 else 0),
          low_pass_b2 = (if high_cut > 0 then b0 else 0),
          low_pass_a1 = (if high_cut > 0 then (- 2 * cosine) / a0 else 0),
          low_pass_a2 = (if high_cut > 0 then (1 - alpha) / a0 else 0)\<rparr>)"

definition uap_init :: uap where
  "uap_init = \<lparr>high_pass_ready = False, high_pass_previous_input = 0,
     high_pass_previous_output = 0, presence_ready = False, presence_previous_input = 0,
     de_esser_low_state = 0, de_esser_envelope = 0, de_esser_reduced_samples = 0,
     de_esser_min_gain = 1, low_pass_state1 = 0, low_pass_state2 = 0\<rparr>"

section \<open>The stages, in the order \<^verbatim>\<open>process\<close> runs them on one sample\<close>

definition high_pass_stage :: "uap_cfg \<Rightarrow> real \<times> uap \<Rightarrow> real \<times> uap" where
  "high_pass_stage c = (\<lambda>(value, s).
     if \<not> high_pass_hz c > 0 then (value, s)
     else if \<not> high_pass_ready s
       then (0, s\<lparr>high_pass_previous_input := value, high_pass_ready := True\<rparr>)
     else let output = high_pass_alpha c *
                (high_pass_previous_output s + value - high_pass_previous_input s)
          in (output, s\<lparr>high_pass_previous_input := value,
                        high_pass_previous_output := output\<rparr>))"

definition presence_stage :: "uap_cfg \<Rightarrow> real \<times> uap \<Rightarrow> real \<times> uap" where
  "presence_stage c = (\<lambda>(value, s).
     if \<not> presence_gain c > 0 then (value, s)
     else if \<not> presence_ready s
       then (value, s\<lparr>presence_previous_input := value, presence_ready := True\<rparr>)
     else (value + presence_gain c * (value - presence_previous_input s),
           s\<lparr>presence_previous_input := value\<rparr>))"

definition de_esser_stage :: "uap_cfg \<Rightarrow> real \<times> uap \<Rightarrow> real \<times> uap" where
  "de_esser_stage c = (\<lambda>(value, s).
     if \<not> de_esser_enabled c then (value, s)
     else
       let low = de_esser_split_alpha c * de_esser_low_state s
                 + (1 - de_esser_split_alpha c) * value;
           detector = \<bar>value - low\<bar>;
           envelope_alpha = (if detector > de_esser_envelope s
                             then de_esser_attack_alpha c else de_esser_release_alpha c);
           envelope = envelope_alpha * de_esser_envelope s + (1 - envelope_alpha) * detector;
           s1 = s\<lparr>de_esser_low_state := low, de_esser_envelope := envelope\<rparr>
       in if envelope > de_esser_threshold c
          then let excess_ratio = (envelope - de_esser_threshold c)
                                  / (envelope + de_esser_threshold c);
                   high_gain = 1 - de_esser_strength c * excess_ratio
               in (value * high_gain,
                   s1\<lparr>de_esser_reduced_samples := de_esser_reduced_samples s + 1,
                      de_esser_min_gain := min (de_esser_min_gain s) high_gain\<rparr>)
          else (value, s1))"

definition high_cut_stage :: "uap_cfg \<Rightarrow> real \<times> uap \<Rightarrow> real \<times> uap" where
  "high_cut_stage c = (\<lambda>(value, s).
     if \<not> high_cut_hz c > 0 then (value, s)
     else let output = low_pass_b0 c * value + low_pass_state1 s
          in (output,
              s\<lparr>low_pass_state1 := low_pass_b1 c * value - low_pass_a1 c * output
                                    + low_pass_state2 s,
                low_pass_state2 := low_pass_b2 c * value - low_pass_a2 c * output\<rparr>))"

definition shape_sample :: "uap_cfg \<Rightarrow> real \<Rightarrow> int \<Rightarrow> uap \<Rightarrow> real \<times> uap" where
  "shape_sample c gain sample s =
     (let (value, s') = high_cut_stage c (de_esser_stage c (presence_stage c
                          (high_pass_stage c (of_int sample, s))))
      in (value * gain, s'))"

fun shape_samples :: "uap_cfg \<Rightarrow> real \<Rightarrow> int list \<Rightarrow> uap \<Rightarrow> real list \<times> uap" where
  "shape_samples c gain [] s = ([], s)"
| "shape_samples c gain (x # xs) s =
     (let (v, s1) = shape_sample c gain x s; (vs, s2) = shape_samples c gain xs s1
      in (v # vs, s2))"

definition peak_of :: "real list \<Rightarrow> real" where
  "peak_of shaped = fold max (map abs shaped) 0"

definition limiter_scale :: "int \<Rightarrow> real list \<Rightarrow> real" where
  "limiter_scale peak_limit shaped =
     (if peak_of shaped > 0 then min 1 (of_int peak_limit / peak_of shaped) else 1)"

definition uap_process :: "uap_cfg \<Rightarrow> uap \<Rightarrow> int list \<Rightarrow> real \<Rightarrow> int \<Rightarrow> int list \<times> uap" where
  "uap_process c s samples gain peak_limit =
     (let (shaped, s') = shape_samples c gain samples s;
          scale = limiter_scale peak_limit shaped
      in (map (\<lambda>v. clamp (- peak_limit) peak_limit (py_round (v * scale))) shaped, s'))"

definition de_esser_max_reduction_db :: "uap \<Rightarrow> real" where
  "de_esser_max_reduction_db s =
     (if de_esser_min_gain s \<ge> 1 then 0
      else - 20 * log 10 (max (1 / 10 ^ 9) (de_esser_min_gain s)))"

section \<open>Lengths and the limiter\<close>

lemma length_shape_samples [simp]: "length (fst (shape_samples c gain xs s)) = length xs"
  by (induction xs arbitrary: s) (auto simp: Let_def case_prod_unfold)

lemma shape_samples_append:
  "shape_samples c gain (xs @ ys) s =
     (let (us, s1) = shape_samples c gain xs s; (vs, s2) = shape_samples c gain ys s1
      in (us @ vs, s2))"
  by (induction xs arbitrary: s) (auto simp: Let_def case_prod_unfold)

lemma fold_max_ge: "(a::real) \<le> fold max xs a"
proof (induction xs arbitrary: a)
  case (Cons x xs)
  have "a \<le> max x a" by simp
  also have "\<dots> \<le> fold max xs (max x a)" by (rule Cons.IH)
  finally show ?case by simp
qed simp

lemma fold_max_member: "x \<in> set xs \<Longrightarrow> (x::real) \<le> fold max xs a"
proof (induction xs arbitrary: a)
  case (Cons y ys)
  show ?case
  proof (cases "x = y")
    case True
    have "x \<le> max y a" using True by simp
    also have "\<dots> \<le> fold max ys (max y a)" by (rule fold_max_ge)
    finally show ?thesis by simp
  next
    case False
    then show ?thesis using Cons by simp
  qed
qed simp

lemma peak_of_bound: "v \<in> set shaped \<Longrightarrow> \<bar>v\<bar> \<le> peak_of shaped"
  by (auto simp: peak_of_def intro: fold_max_member)

lemma peak_of_nonneg: "0 \<le> peak_of shaped"
  by (simp add: peak_of_def fold_max_ge)

lemma limiter_scaled_bound:
  assumes "0 \<le> peak_limit" "v \<in> set shaped"
  shows "\<bar>v * limiter_scale peak_limit shaped\<bar> \<le> of_int peak_limit"
proof (cases "peak_of shaped > 0")
  case True
  have v: "\<bar>v\<bar> \<le> peak_of shaped" using assms(2) by (rule peak_of_bound)
  have nn: "0 \<le> limiter_scale peak_limit shaped" using assms(1) True by (simp add: limiter_scale_def)
  have le: "limiter_scale peak_limit shaped \<le> of_int peak_limit / peak_of shaped"
    using True by (simp add: limiter_scale_def)
  have "\<bar>v * limiter_scale peak_limit shaped\<bar> = \<bar>v\<bar> * limiter_scale peak_limit shaped"
    using nn by (simp add: abs_mult)
  also have "\<dots> \<le> peak_of shaped * (of_int peak_limit / peak_of shaped)"
    using v le nn peak_of_nonneg by (intro mult_mono) auto
  also have "\<dots> = of_int peak_limit" using True by simp
  finally show ?thesis .
next
  case False
  then have "v = 0" using peak_of_bound [OF assms(2)] peak_of_nonneg [of shaped] by linarith
  then show ?thesis using assms(1) by simp
qed

lemma clamp_inactive:
  assumes "0 \<le> peak_limit" "v \<in> set shaped"
  shows "clamp (- peak_limit) peak_limit (py_round (v * limiter_scale peak_limit shaped))
         = py_round (v * limiter_scale peak_limit shaped)"
proof -
  let ?x = "v * limiter_scale peak_limit shaped"
  have b: "\<bar>?x\<bar> \<le> of_int peak_limit" by (rule limiter_scaled_bound [OF assms])
  then have "py_round ?x \<le> peak_limit" by (intro py_round_le) linarith
  moreover have "- peak_limit \<le> py_round ?x" using b by (intro py_round_ge) simp
  ultimately show ?thesis by simp
qed

text \<open>The shaped block has one sample per input sample, every sample lies within the
  configured peak limit, and the limiter reaches that by scaling the whole block: no sample
  is cut off by the final clamp, each is the rounding of its scaled value.\<close>

theorem uap_process_limited:
  assumes "0 \<le> peak_limit"
  shows "length (fst (uap_process c s samples gain peak_limit)) = length samples \<and>
    (\<forall>v \<in> set (fst (uap_process c s samples gain peak_limit)). \<bar>v\<bar> \<le> peak_limit) \<and>
    fst (uap_process c s samples gain peak_limit) =
      (let shaped = fst (shape_samples c gain samples s)
       in map (\<lambda>v. py_round (v * limiter_scale peak_limit shaped)) shaped)"
proof -
  let ?sh = "fst (shape_samples c gain samples s)"
  have out: "fst (uap_process c s samples gain peak_limit) =
      map (\<lambda>v. py_round (v * limiter_scale peak_limit ?sh)) ?sh"
    using clamp_inactive [OF assms]
    by (auto simp: uap_process_def Let_def case_prod_unfold)
  moreover have "\<bar>py_round (v * limiter_scale peak_limit ?sh)\<bar> \<le> peak_limit"
    if "v \<in> set ?sh" for v
  proof -
    have "- peak_limit \<le> peak_limit" using assms by simp
    then show ?thesis
      using clamp_inactive [OF assms that] clamp_bounds [of "- peak_limit" peak_limit
          "py_round (v * limiter_scale peak_limit ?sh)"] by (simp add: abs_le_iff)
  qed
  ultimately show ?thesis by (simp add: Let_def)
qed

text \<open>Two samples at twice the limit are halved together.\<close>

theorem uap_process_limited_witness:
  "(0::int) \<le> 100 \<and>
   uap_process (uap_init_cfg 0 0 0 2200 0 0) uap_init [200, -100] 1 100
     = ([100, -50], uap_init) \<and>
   list_all (\<lambda>v. \<bar>v\<bar> \<le> 100) (fst (uap_process (uap_init_cfg 0 0 0 2200 0 0) uap_init [200, -100] 1 100))"
proof -
  have p: "(0::int) \<le> 100" by simp
  have e: "uap_process (uap_init_cfg 0 0 0 2200 0 0) uap_init [200, -100] 1 100
     = ([100, -50], uap_init)"
    by (simp add: uap_process_def uap_init_cfg_def shape_sample_def high_pass_stage_def
        presence_stage_def de_esser_stage_def high_cut_stage_def limiter_scale_def
        peak_of_def clamp_def py_round_def Let_def)
  show ?thesis
    using p e uap_process_limited [OF p, of "uap_init_cfg 0 0 0 2200 0 0" uap_init "[200, -100]" 1]
    unfolding list_all_iff by blast
qed

section \<open>The de-esser\<close>

definition uap_ok :: "uap_cfg \<Rightarrow> uap \<Rightarrow> bool" where
  "uap_ok c s \<longleftrightarrow> 0 \<le> de_esser_envelope s \<and> de_esser_min_gain s \<le> 1 \<and>
     1 - de_esser_strength c < de_esser_min_gain s"

definition cfg_ok :: "uap_cfg \<Rightarrow> bool" where
  "cfg_ok c \<longleftrightarrow> 0 < de_esser_threshold c \<and> 0 < de_esser_strength c \<and>
     0 \<le> de_esser_attack_alpha c \<and> de_esser_attack_alpha c \<le> 1 \<and>
     0 \<le> de_esser_release_alpha c \<and> de_esser_release_alpha c \<le> 1"

lemma uap_ok_init: "0 < de_esser_strength c \<Longrightarrow> uap_ok c uap_init"
  by (simp add: uap_ok_def uap_init_def)

lemma cfg_ok_init: "0 < threshold \<Longrightarrow> 0 < strength \<Longrightarrow>
  cfg_ok (uap_init_cfg hp presence high_cut crossover threshold strength)"
  by (simp add: cfg_ok_def uap_init_cfg_def Let_def)

lemma high_gain_bounds:
  assumes "0 < t" "t < e" "0 < (k::real)"
  shows "1 - k < 1 - k * ((e - t) / (e + t))" "1 - k * ((e - t) / (e + t)) \<le> 1"
proof -
  have r: "(e - t) / (e + t) < 1" "0 \<le> (e - t) / (e + t)"
    using assms by (auto simp: divide_simps)
  have "k * ((e - t) / (e + t)) < k * 1"
    using r(1) assms(3) by (rule mult_strict_left_mono)
  moreover have "0 \<le> k * ((e - t) / (e + t))"
    using r(2) assms(3) by (intro mult_nonneg_nonneg) simp_all
  ultimately show "1 - k < 1 - k * ((e - t) / (e + t))" "1 - k * ((e - t) / (e + t)) \<le> 1"
    by linarith+
qed

lemma uap_ok_de_esser [wf_intros]:
  assumes "cfg_ok c" "uap_ok c s"
  shows "uap_ok c (snd (de_esser_stage c (v, s)))"
proof -
  let ?low = "de_esser_split_alpha c * de_esser_low_state s + (1 - de_esser_split_alpha c) * v"
  let ?a = "if \<bar>v - ?low\<bar> > de_esser_envelope s then de_esser_attack_alpha c
            else de_esser_release_alpha c"
  let ?e = "?a * de_esser_envelope s + (1 - ?a) * \<bar>v - ?low\<bar>"
  have e: "0 \<le> ?e" using assms by (auto simp: cfg_ok_def uap_ok_def)
  show ?thesis
  proof (cases "de_esser_enabled c \<and> ?e > de_esser_threshold c")
    case True
    have "1 - de_esser_strength c < 1 - de_esser_strength c *
            ((?e - de_esser_threshold c) / (?e + de_esser_threshold c))"
      using high_gain_bounds(1) [of "de_esser_threshold c" ?e "de_esser_strength c"] True assms
      by (simp add: cfg_ok_def)
    then show ?thesis using True e assms
      by (simp add: de_esser_stage_def uap_ok_def Let_def min_less_iff_disj min_le_iff_disj)
  next
    case False
    then show ?thesis using e assms
      by (auto simp: de_esser_stage_def uap_ok_def Let_def)
  qed
qed

lemma uap_ok_frames:
  "uap_ok c (snd (high_pass_stage c (v, s))) = uap_ok c s"
  "uap_ok c (snd (presence_stage c (v, s))) = uap_ok c s"
  "uap_ok c (snd (high_cut_stage c (v, s))) = uap_ok c s"
  by (simp_all add: high_pass_stage_def presence_stage_def high_cut_stage_def uap_ok_def Let_def)

lemma uap_ok_shape_sample [wf_intros]:
  assumes "cfg_ok c" "uap_ok c s"
  shows "uap_ok c (snd (shape_sample c gain x s))"
proof -
  obtain v1 s1 where 1: "high_pass_stage c (of_int x, s) = (v1, s1)" by fastforce
  obtain v2 s2 where 2: "presence_stage c (v1, s1) = (v2, s2)" by fastforce
  obtain v3 s3 where 3: "de_esser_stage c (v2, s2) = (v3, s3)" by fastforce
  obtain v4 s4 where 4: "high_cut_stage c (v3, s3) = (v4, s4)" by fastforce
  have "uap_ok c s1" using uap_ok_frames(1) [of c "of_int x" s] 1 assms(2) by simp
  then have "uap_ok c s2" using uap_ok_frames(2) [of c v1 s1] 2 by simp
  then have "uap_ok c s3" using uap_ok_de_esser [OF assms(1), of s2 v2] 3 by simp
  then have "uap_ok c s4" using uap_ok_frames(3) [of c v3 s3] 4 by simp
  then show ?thesis by (simp add: shape_sample_def 1 2 3 4)
qed

lemma uap_ok_shape_samples [wf_intros]:
  "cfg_ok c \<Longrightarrow> uap_ok c s \<Longrightarrow> uap_ok c (snd (shape_samples c gain xs s))"
proof (induction xs arbitrary: s)
  case (Cons x xs)
  then show ?case
    using uap_ok_shape_sample [of c s gain x] by (auto simp: Let_def case_prod_unfold)
qed simp

lemma uap_ok_process [wf_intros]:
  "cfg_ok c \<Longrightarrow> uap_ok c s \<Longrightarrow> uap_ok c (snd (uap_process c s samples gain peak_limit))"
  using uap_ok_shape_samples [of c s gain samples]
  by (simp add: uap_process_def Let_def case_prod_unfold)

text \<open>One block after another through the same processor, as a call feeds them.\<close>

interpretation de_esser_run: machine "\<lambda>s. cfg_ok c \<and> uap_ok c s"
  "\<lambda>(samples, gain, peak_limit) s. snd (uap_process c s samples gain peak_limit)" for c
  by unfold_locales (auto intro: uap_ok_process)

lemma reduction_db_le_20:
  assumes "1 / 10 \<le> de_esser_min_gain s"
  shows "de_esser_max_reduction_db s \<le> 20"
proof -
  have "- 1 = log 10 (1 / 10 :: real)" by (simp add: log_divide)
  also have "\<dots> \<le> log 10 (max (1 / 10 ^ 9) (de_esser_min_gain s))"
    using assms by (intro log_mono) auto
  finally show ?thesis by (simp add: de_esser_max_reduction_db_def)
qed

text \<open>With the strength the configuration allows (at most 0.9) and any positive
  threshold, whatever blocks a call feeds through the processor, the smallest de-esser gain
  stays above one minus the strength and at most one, so sibilants are never attenuated by
  more than 20 dB.\<close>

theorem de_esser_bounded:
  assumes "0 < threshold" "0 < strength" "strength \<le> 9 / 10"
    and "c = uap_init_cfg hp presence high_cut crossover threshold strength"
    and "s = fold (\<lambda>(samples, gain, peak_limit) s. snd (uap_process c s samples gain peak_limit))
               blocks uap_init"
  shows "1 - strength < de_esser_min_gain s \<and> de_esser_min_gain s \<le> 1 \<and>
    de_esser_max_reduction_db s \<le> 20"
proof -
  have k: "de_esser_strength c = strength" using assms(4) by (simp add: uap_init_cfg_def Let_def)
  have "cfg_ok c \<and> uap_ok c uap_init"
    using assms k cfg_ok_init [OF assms(1,2)] uap_ok_init [of c] by simp
  then have "cfg_ok c \<and> uap_ok c s" unfolding assms(5) by (rule de_esser_run.run_inv)
  then have b: "1 - strength < de_esser_min_gain s" "de_esser_min_gain s \<le> 1"
    using k by (simp_all add: uap_ok_def)
  then have "1 / 10 \<le> de_esser_min_gain s" using assms(3) by simp
  then show ?thesis using b reduction_db_le_20 by blast
qed

theorem de_esser_bounded_witness:
  "1 - 1 / 2 < de_esser_min_gain (snd (uap_process
       (uap_init_cfg 0 0 0 2200 100 (1 / 2)) uap_init [3000, -3000] 1 24000)) \<and>
   de_esser_max_reduction_db (snd (uap_process
       (uap_init_cfg 0 0 0 2200 100 (1 / 2)) uap_init [3000, -3000] 1 24000)) \<le> 20"
  using de_esser_bounded [of 100 "1 / 2" "uap_init_cfg 0 0 0 2200 100 (1 / 2)" 0 0 0 2200
      "snd (uap_process (uap_init_cfg 0 0 0 2200 100 (1 / 2)) uap_init [3000, -3000] 1 24000)"
      "[([3000, -3000], 1, 24000)]"]
  by simp

end
