(* ===== verification/Py_Text.thy ===== *)
theory Py_Text
  imports Qb_Prelude
begin

text \<open>
  The part of Python's \<^verbatim>\<open>str\<close>, \<^verbatim>\<open>int()\<close>, \<^verbatim>\<open>float()\<close> and \<^verbatim>\<open>re\<close> that the components use on
  log lines, state files and configuration text. Text is a list of Latin-1 characters; the
  only characters the code looks for are ASCII. \<open>inf\<close> and \<open>nan\<close> are not numbers here.
\<close>

section \<open>Characters, stripping and splitting\<close>

definition code :: "char \<Rightarrow> nat" where
  "code c = of_char c"

definition is_digit :: "char \<Rightarrow> bool" where
  "is_digit c \<longleftrightarrow> 48 \<le> code c \<and> code c \<le> 57"

definition is_space :: "char \<Rightarrow> bool" where
  "is_space c \<longleftrightarrow> (9 \<le> code c \<and> code c \<le> 13) \<or> (28 \<le> code c \<and> code c \<le> 32) \<or>
     code c = 133 \<or> code c = 160"

definition is_linebreak :: "char \<Rightarrow> bool" where
  "is_linebreak c \<longleftrightarrow> (10 \<le> code c \<and> code c \<le> 13) \<or> (28 \<le> code c \<and> code c \<le> 30) \<or>
     code c = 133"

definition lstrip_by :: "('a \<Rightarrow> bool) \<Rightarrow> 'a list \<Rightarrow> 'a list" where
  "lstrip_by p s = dropWhile p s"

definition rstrip_by :: "('a \<Rightarrow> bool) \<Rightarrow> 'a list \<Rightarrow> 'a list" where
  "rstrip_by p s = rev (dropWhile p (rev s))"

definition strip_by :: "('a \<Rightarrow> bool) \<Rightarrow> 'a list \<Rightarrow> 'a list" where
  "strip_by p s = rstrip_by p (lstrip_by p s)"

abbreviation strip :: "string \<Rightarrow> string" where "strip \<equiv> strip_by is_space"

lemma rstrip_by_id: "s = [] \<or> \<not> p (last s) \<Longrightarrow> rstrip_by p s = s"
  by (cases s rule: rev_cases) (auto simp: rstrip_by_def)

lemma strip_by_id: "s = [] \<or> (\<not> p (hd s) \<and> \<not> p (last s)) \<Longrightarrow> strip_by p s = s"
  by (cases s) (auto simp: strip_by_def lstrip_by_def rstrip_by_id)

lemma rstrip_by_snoc: "p x \<Longrightarrow> rstrip_by p (s @ [x]) = rstrip_by p s"
  by (simp add: rstrip_by_def)

lemma rstrip_by_last: "rstrip_by p s = [] \<or> \<not> p (last (rstrip_by p s))"
proof (induction s rule: rev_induct)
  case (snoc x s)
  then show ?case by (cases "p x") (simp_all add: rstrip_by_def)
qed (simp add: rstrip_by_def)

lemma rstrip_by_hd: "rstrip_by p s \<noteq> [] \<Longrightarrow> hd (rstrip_by p s) = hd s"
proof (induction s rule: rev_induct)
  case (snoc x s)
  then show ?case
    by (cases "p x"; cases s) (auto simp: rstrip_by_def)
qed (simp add: rstrip_by_def)

lemma strip_by_ends:
  "strip_by p s = [] \<or> (\<not> p (hd (strip_by p s)) \<and> \<not> p (last (strip_by p s)))"
proof (cases "strip_by p s = []")
  case False
  then have "hd (strip_by p s) = hd (dropWhile p s)"
    by (simp add: strip_by_def lstrip_by_def rstrip_by_hd)
  moreover have "dropWhile p s \<noteq> []"
    using False by (auto simp: strip_by_def lstrip_by_def rstrip_by_def dest: set_dropWhileD)
  ultimately have "\<not> p (hd (strip_by p s))" by (simp add: hd_dropWhile)
  then show ?thesis using rstrip_by_last [of p "lstrip_by p s"] False by (simp add: strip_by_def)
qed simp

lemma strip_by_idem [simp]: "strip_by p (strip_by p s) = strip_by p s"
  by (rule strip_by_id) (rule strip_by_ends)

text \<open>\<^verbatim>\<open>splitlines()\<close>: a carriage return followed by a line feed is one break, a break at the
  end opens no further line.\<close>

fun splitlines_from :: "string \<Rightarrow> string \<Rightarrow> string list" where
  "splitlines_from acc [] = (if acc = [] then [] else [rev acc])"
| "splitlines_from acc (c # cs) =
     (if is_linebreak c
      then rev acc # splitlines_from []
             (if code c = 13 \<and> cs \<noteq> [] \<and> code (hd cs) = 10 then tl cs else cs)
      else splitlines_from (c # acc) cs)"

definition splitlines :: "string \<Rightarrow> string list" where
  "splitlines s = splitlines_from [] s"

text \<open>\<^verbatim>\<open>split()\<close> on runs of white space.\<close>

fun split_from :: "string \<Rightarrow> string \<Rightarrow> string list" where
  "split_from acc [] = (if acc = [] then [] else [rev acc])"
| "split_from acc (c # cs) =
     (if is_space c then (if acc = [] then [] else [rev acc]) @ split_from [] cs
      else split_from (c # acc) cs)"

definition split_ws :: "string \<Rightarrow> string list" where
  "split_ws s = split_from [] s"

lemma splitlines_from_plain:
  "list_all (\<lambda>c. \<not> is_linebreak c) l \<Longrightarrow>
   splitlines_from acc (l @ CHR 0x0A # r) = (rev acc @ l) # splitlines_from [] r"
  by (induction l arbitrary: acc) (auto simp: is_linebreak_def code_def)

lemma splitlines_join:
  "(\<And>l. l \<in> set ls \<Longrightarrow> list_all (\<lambda>c. \<not> is_linebreak c) l) \<Longrightarrow>
   splitlines (concat (map (\<lambda>l. l @ [CHR 0x0A]) ls)) = ls"
proof (induction ls)
  case Nil
  then show ?case by (simp add: splitlines_def)
next
  case (Cons l ls)
  then show ?case
    using splitlines_from_plain [of l "[]" "concat (map (\<lambda>l. l @ [CHR 0x0A]) ls)"]
    by (simp add: splitlines_def)
qed

lemma split_from_word:
  "list_all (\<lambda>c. \<not> is_space c) w \<Longrightarrow> split_from acc (w @ r) = split_from (rev w @ acc) r"
  by (induction w arbitrary: acc) auto

lemma split_ws_two:
  assumes "list_all (\<lambda>c. \<not> is_space c) a" "list_all (\<lambda>c. \<not> is_space c) b" "a \<noteq> []" "b \<noteq> []"
  shows "split_ws (a @ CHR '' '' # b) = [a, b]"
proof -
  have "split_from [] (a @ CHR '' '' # b) = split_from (rev a) (CHR '' '' # b)"
    using split_from_word [OF assms(1), of "[]" "CHR '' '' # b"] by simp
  also have "\<dots> = a # split_from [] b"
    using assms(3) by (simp add: is_space_def code_def)
  also have "split_from [] b = [b]"
    using split_from_word [OF assms(2), of "[]" "[]"] assms(4) by simp
  finally show ?thesis by (simp add: split_ws_def)
qed

section \<open>Decimal numbers\<close>

definition digit_char :: "nat \<Rightarrow> char" where
  "digit_char d = char_of (48 + d)"

definition digit_val :: "char \<Rightarrow> nat" where
  "digit_val c = code c - 48"

fun show_nat :: "nat \<Rightarrow> string" where
  "show_nat n = (if n < 10 then [digit_char n] else show_nat (n div 10) @ [digit_char (n mod 10)])"

declare show_nat.simps [simp del]

definition nat_of_digits :: "string \<Rightarrow> nat" where
  "nat_of_digits cs = foldl (\<lambda>a c. 10 * a + digit_val c) 0 cs"

lemma digit_char_facts [simp]:
  "d < 10 \<Longrightarrow> is_digit (digit_char d)" "d < 10 \<Longrightarrow> digit_val (digit_char d) = d"
  by (simp_all add: is_digit_def digit_char_def digit_val_def code_def)

lemma nat_of_digits_snoc: "nat_of_digits (cs @ [c]) = 10 * nat_of_digits cs + digit_val c"
  by (simp add: nat_of_digits_def)

lemma nat_of_digits_show_nat [simp]: "nat_of_digits (show_nat n) = n"
proof (induction n rule: show_nat.induct)
  case (1 n)
  show ?case
  proof (cases "n < 10")
    case True
    then show ?thesis by (subst show_nat.simps) (simp add: nat_of_digits_def)
  next
    case False
    then show ?thesis
      using 1 by (subst show_nat.simps) (simp add: nat_of_digits_snoc)
  qed
qed

lemma show_nat_digits: "list_all is_digit (show_nat n)"
proof (induction n rule: show_nat.induct)
  case (1 n)
  then show ?case by (cases "n < 10") (subst show_nat.simps, simp)+
qed

lemma show_nat_nonempty [simp]: "show_nat n \<noteq> []"
  by (subst show_nat.simps) simp

lemma is_digit_not_space: "is_digit c \<Longrightarrow> \<not> is_space c"
  by (auto simp: is_digit_def is_space_def)

lemma is_digit_not_linebreak: "is_digit c \<Longrightarrow> \<not> is_linebreak c"
  by (auto simp: is_digit_def is_linebreak_def)

lemma nat_of_digits_foldl:
  "foldl (\<lambda>a c. 10 * a + digit_val c) a cs = a * 10 ^ length cs + nat_of_digits cs"
proof (induction cs rule: rev_induct)
  case Nil
  then show ?case by (simp add: nat_of_digits_def)
next
  case (snoc c cs)
  then show ?case by (simp add: nat_of_digits_snoc algebra_simps)
qed

lemma nat_of_digits_append:
  "nat_of_digits (xs @ ys) = nat_of_digits xs * 10 ^ length ys + nat_of_digits ys"
proof -
  have "nat_of_digits (xs @ ys) = foldl (\<lambda>a c. 10 * a + digit_val c) (nat_of_digits xs) ys"
    by (simp add: nat_of_digits_def)
  then show ?thesis by (simp add: nat_of_digits_foldl)
qed

text \<open>\<^verbatim>\<open>int(text)\<close>: white space, a sign, digits with single underscores between them.\<close>

fun digit_groups :: "string \<Rightarrow> bool" where
  "digit_groups [] = False"
| "digit_groups [c] = is_digit c"
| "digit_groups (c # d # cs) =
     (is_digit c \<and> (if d = CHR ''_'' then digit_groups cs else digit_groups (d # cs)))"

definition py_int_str :: "string \<Rightarrow> py_error + int" where
  "py_int_str text =
     (let s = strip text;
          neg = (s \<noteq> [] \<and> hd s = CHR ''-'');
          body = (if s \<noteq> [] \<and> (hd s = CHR ''-'' \<or> hd s = CHR ''+'') then tl s else s)
      in if digit_groups body
         then Inr ((if neg then - 1 else 1) * int (nat_of_digits (filter is_digit body)))
         else Inl (ValueError ''invalid literal for int()''))"

lemma digit_groups_digits: "list_all is_digit cs \<Longrightarrow> cs \<noteq> [] \<Longrightarrow> digit_groups cs"
proof (induction cs rule: digit_groups.induct)
  case (3 c d cs)
  then have "d \<noteq> CHR ''_''" by (auto simp: is_digit_def code_def)
  with 3 show ?case by simp
qed auto

lemma py_int_digits:
  assumes "list_all is_digit cs" "cs \<noteq> []"
  shows "py_int_str cs = Inr (int (nat_of_digits cs))"
proof -
  have d: "is_digit (hd cs)" "is_digit (last cs)" using assms by (auto simp: list_all_iff)
  then have s: "strip cs = cs"
    using assms(2) by (intro strip_by_id) (simp add: is_digit_not_space)
  have "hd cs \<noteq> CHR ''-''" "hd cs \<noteq> CHR ''+''" using d(1) by (auto simp: is_digit_def code_def)
  moreover have "filter is_digit cs = cs" using assms(1) by (simp add: list_all_iff)
  ultimately show ?thesis
    using digit_groups_digits [OF assms] by (simp add: py_int_str_def s)
qed

lemma py_int_show_nat [simp]: "py_int_str (show_nat n) = Inr (int n)"
  by (simp add: py_int_digits show_nat_digits)

definition show_int :: "int \<Rightarrow> string" where
  "show_int i = (if i < 0 then ''-'' @ show_nat (nat (- i)) else show_nat (nat i))"

text \<open>\<^verbatim>\<open>float(text)\<close>: sign, digits, fraction, exponent.\<close>

definition split_at :: "char \<Rightarrow> string \<Rightarrow> string \<times> string option" where
  "split_at c s = (let a = takeWhile (\<lambda>x. x \<noteq> c) s; b = dropWhile (\<lambda>x. x \<noteq> c) s
                   in (a, if b = [] then None else Some (tl b)))"

definition to_lower :: "char \<Rightarrow> char" where
  "to_lower c = (if 65 \<le> code c \<and> code c \<le> 90 then char_of (code c + 32) else c)"

definition py_float_str :: "string \<Rightarrow> py_error + real" where
  "py_float_str text =
     (let s = map to_lower (strip text);
          neg = (s \<noteq> [] \<and> hd s = CHR ''-'');
          body = (if s \<noteq> [] \<and> (hd s = CHR ''-'' \<or> hd s = CHR ''+'') then tl s else s);
          (mant, ex) = split_at CHR ''e'' body;
          (ip, fp) = split_at CHR ''.'' mant;
          frac = (case fp of None \<Rightarrow> [] | Some f \<Rightarrow> f);
          ip_ok = (ip = [] \<or> digit_groups ip);
          fp_ok = (frac = [] \<or> digit_groups frac);
          ds_i = filter is_digit ip; ds_f = filter is_digit frac;
          value = (real (nat_of_digits ds_i) + real (nat_of_digits ds_f) / 10 ^ length ds_f)
                  * (if neg then - 1 else 1)
      in if \<not> ip_ok \<or> \<not> fp_ok \<or> (ip = [] \<and> frac = [])
         then Inl (ValueError ''could not convert string to float'')
         else case ex of
           None \<Rightarrow> Inr value
         | Some e \<Rightarrow>
             (let eneg = (e \<noteq> [] \<and> hd e = CHR ''-'');
                  eb = (if e \<noteq> [] \<and> (hd e = CHR ''-'' \<or> hd e = CHR ''+'') then tl e else e)
              in if \<not> digit_groups eb then Inl (ValueError ''could not convert string to float'')
                 else let k = nat_of_digits (filter is_digit eb)
                      in Inr (if eneg then value / 10 ^ k else value * 10 ^ k)))"

text \<open>\<^verbatim>\<open>f"{x:.6f}"\<close> for a non-negative number.\<close>

definition zero_fill :: "nat \<Rightarrow> string \<Rightarrow> string" where
  "zero_fill n s = replicate (n - length s) CHR ''0'' @ s"

definition show_fixed6 :: "real \<Rightarrow> string" where
  "show_fixed6 x =
     (let m = nat (py_round (\<bar>x\<bar> * 1000000))
      in (if x < 0 then ''-'' else []) @ show_nat (m div 1000000) @ ''.'' @
         zero_fill 6 (show_nat (m mod 1000000)))"

lemma show_nat_length: "n < 10 ^ k \<Longrightarrow> 0 < k \<Longrightarrow> length (show_nat n) \<le> k"
proof (induction n arbitrary: k rule: show_nat.induct)
  case (1 n)
  show ?case
  proof (cases "n < 10")
    case True
    then show ?thesis using 1 by (subst show_nat.simps) simp
  next
    case False
    then have k: "1 < k" using 1(2,3) by (cases "k = 1") auto
    then have "n div 10 < 10 ^ (k - 1)"
      using 1(2) by (metis Suc_diff_1 less_mult_imp_div_less mult.commute power_Suc 1(3))
    then have "length (show_nat (n div 10)) \<le> k - 1" using 1(1) False k by simp
    then show ?thesis using False k by (subst show_nat.simps) simp
  qed
qed

lemma digit_val_0 [simp]: "digit_val CHR ''0'' = 0"
  by (simp add: digit_val_def code_def)

lemma nat_of_digits_zeros: "nat_of_digits (replicate n CHR ''0'' @ s) = nat_of_digits s"
proof -
  have "nat_of_digits (replicate n CHR ''0'') = 0"
    by (induction n) (simp_all add: nat_of_digits_def)
  then show ?thesis by (simp add: nat_of_digits_append)
qed

lemma to_lower_digit [simp]: "is_digit c \<Longrightarrow> to_lower c = c"
  by (simp add: to_lower_def is_digit_def)

lemma py_float_fixed:
  assumes "list_all is_digit ip" "list_all is_digit fp" "ip \<noteq> []" "fp \<noteq> []"
  shows "py_float_str (ip @ CHR ''.'' # fp) =
    Inr (real (nat_of_digits ip) + real (nat_of_digits fp) / 10 ^ length fp)"
proof -
  let ?s = "ip @ CHR ''.'' # fp"
  have dig: "is_digit c" if "c \<in> set ip \<union> set fp" for c
    using that assms by (auto simp: list_all_iff)
  have h: "is_digit (hd ?s)" "is_digit (last ?s)" using assms dig by auto
  have st: "strip ?s = ?s"
    using h by (intro strip_by_id) (simp add: is_digit_not_space)
  have low: "map to_lower ?s = ?s"
    using assms by (intro map_idI) (auto simp: list_all_iff, simp add: to_lower_def code_def)
  have sg: "hd ?s \<noteq> CHR ''-''" "hd ?s \<noteq> CHR ''+''"
    using h(1) by (auto simp: is_digit_def code_def)
  have ne: "c \<noteq> CHR ''e''" if "c \<in> set ?s" for c
    using that dig [of c] by (auto simp: is_digit_def code_def)
  have nd: "c \<noteq> CHR ''.''" if "c \<in> set ip" for c
    using that dig [of c] by (auto simp: is_digit_def code_def)
  have e: "split_at CHR ''e'' ?s = (?s, None)"
    using ne by (simp add: split_at_def takeWhile_eq_all_conv dropWhile_eq_Nil_conv Let_def)
  have tw: "takeWhile (\<lambda>x. x \<noteq> CHR ''.'') ?s = ip" "dropWhile (\<lambda>x. x \<noteq> CHR ''.'') ?s = CHR ''.'' # fp"
    using nd by (simp_all add: takeWhile_append2 dropWhile_append2)
  have d: "split_at CHR ''.'' ?s = (ip, Some fp)"
    by (simp add: split_at_def tw Let_def)
  have g: "digit_groups ip" "digit_groups fp" "filter is_digit ip = ip" "filter is_digit fp = fp"
    using assms by (simp_all add: digit_groups_digits list_all_iff)
  have ifs: "(if ?s \<noteq> [] \<and> (hd ?s = CHR ''-'' \<or> hd ?s = CHR ''+'') then tl ?s else ?s) = ?s"
    "(?s \<noteq> [] \<and> hd ?s = CHR ''-'') = False"
    using sg by simp_all
  show ?thesis
    unfolding py_float_str_def Let_def st low ifs e d prod.case option.case
    using g assms(3,4) by simp
qed

lemma zero_fill_facts:
  assumes "list_all is_digit s" "length s \<le> n" "0 < n"
  shows "length (zero_fill n s) = n" "list_all is_digit (zero_fill n s)"
    "nat_of_digits (zero_fill n s) = nat_of_digits s" "zero_fill n s \<noteq> []"
  using assms by (auto simp: zero_fill_def nat_of_digits_zeros list_all_iff is_digit_def code_def)

text \<open>Six decimals survive printing and reading: the number is a multiple of a millionth.\<close>

lemma py_float_show_fixed6:
  assumes "x = of_nat m / 1000000"
  shows "py_float_str (show_fixed6 x) = Inr x"
proof -
  have r: "py_round (\<bar>x\<bar> * 1000000) = int m"
  proof -
    have "\<bar>x\<bar> * 1000000 = of_int (int m)" using assms by simp
    then show ?thesis by (metis py_round_of_int)
  qed
  have nn: "\<not> x < 0" "\<bar>x\<bar> = x" using assms by simp_all
  note r = r [unfolded nn(2)]
  have len: "length (show_nat (m mod 1000000)) \<le> 6"
    by (rule show_nat_length) simp_all
  note z = zero_fill_facts [OF show_nat_digits len]
  have "py_float_str (show_fixed6 x) = Inr (real (m div 1000000) + real (m mod 1000000) / 1000000)"
    using py_float_fixed [OF show_nat_digits z(2) _ z(4), of "m div 1000000"] z nn
    by (simp add: show_fixed6_def r Let_def)
  also have "real (m div 1000000) + real (m mod 1000000) / 1000000 = x"
  proof -
    have "real m = real (m div 1000000) * 1000000 + real (m mod 1000000)"
      by (metis of_nat_add of_nat_mult of_nat_numeral div_mult_mod_eq)
    then show ?thesis using assms by (simp add: field_simps)
  qed
  finally show ?thesis .
qed

lemma show_fixed6_plain:
  assumes "0 \<le> x"
  shows "list_all (\<lambda>c. \<not> is_space c \<and> \<not> is_linebreak c) (show_fixed6 x)" "show_fixed6 x \<noteq> []"
proof -
  let ?m = "nat (py_round (\<bar>x\<bar> * 1000000))"
  have len: "length (show_nat (?m mod 1000000)) \<le> 6"
    by (rule show_nat_length) simp_all
  note z = zero_fill_facts [OF show_nat_digits len]
  have "list_all is_digit (show_nat (?m div 1000000))" by (rule show_nat_digits)
  then show "list_all (\<lambda>c. \<not> is_space c \<and> \<not> is_linebreak c) (show_fixed6 x)"
    using z(2) assms
    by (auto simp: show_fixed6_def Let_def list_all_iff is_digit_not_space is_digit_not_linebreak)
      (auto simp: is_space_def is_linebreak_def code_def)
  show "show_fixed6 x \<noteq> []" by (simp add: show_fixed6_def Let_def)
qed

section \<open>Regular expressions\<close>

text \<open>
  The patterns of the code are sequences of these items. Matching is Python's: alternatives
  in order, the starred items greedy with backtracking, a search from the first position
  that matches; the result is the captured groups. \<open>Alt ci\<close> ignores case when \<open>ci\<close> holds,
  \<open>DotStar\<close> is \<^verbatim>\<open>.*\<close> (it stops at a line feed) \<open>Cap1 p\<close> a capturing \<^verbatim>\<open>(p+)\<close>
  and \<open>CapAlt alts\<close> a capturing group of alternatives. \<open>rsearch2 r r'\<close> is the search for \<open>r\<close> whose optional end is
  missing in \<open>r'\<close>: at each position the longer pattern is tried first.
\<close>

datatype rx = Alt bool "string list" | DotStar | Cap1 "char \<Rightarrow> bool" | CapAlt "string list"

abbreviation Lit :: "string \<Rightarrow> rx" where "Lit s \<equiv> Alt False [s]"

fun first_some :: "('a \<Rightarrow> 'b option) \<Rightarrow> 'a list \<Rightarrow> 'b option" where
  "first_some f [] = None"
| "first_some f (x # xs) = (case f x of None \<Rightarrow> first_some f xs | Some y \<Rightarrow> Some y)"

definition starts_with :: "bool \<Rightarrow> string \<Rightarrow> string \<Rightarrow> bool" where
  "starts_with ci p s = (if ci then prefix (map to_lower p) (map to_lower s) else prefix p s)"

primrec rmatch :: "rx list \<Rightarrow> string \<Rightarrow> string list option" where
  "rmatch [] s = Some []"
| "rmatch (x # r) s =
     (case x of
        Alt ci alts \<Rightarrow>
          first_some (\<lambda>a. if starts_with ci a s then rmatch r (drop (length a) s) else None) alts
      | DotStar \<Rightarrow>
          first_some (\<lambda>k. rmatch r (drop k s))
            (rev [0..<Suc (length (takeWhile (\<lambda>c. c \<noteq> CHR 0x0A) s))])
      | Cap1 p \<Rightarrow>
          first_some (\<lambda>k. map_option ((#) (take k s)) (rmatch r (drop k s)))
            (rev [1..<Suc (length (takeWhile p s))])
      | CapAlt alts \<Rightarrow>
          first_some (\<lambda>a. if prefix a s then map_option ((#) a) (rmatch r (drop (length a) s)) else None) alts)"

definition rsearch :: "rx list \<Rightarrow> string \<Rightarrow> string list option" where
  "rsearch r s = first_some (\<lambda>k. rmatch r (drop k s)) [0..<Suc (length s)]"

definition rsearch2 :: "rx list \<Rightarrow> rx list \<Rightarrow> string \<Rightarrow> string list option" where
  "rsearch2 r r' s = first_some
     (\<lambda>k. case rmatch r (drop k s) of None \<Rightarrow> rmatch r' (drop k s) | Some g \<Rightarrow> Some g) [0..<Suc (length s)]"

definition contains :: "string \<Rightarrow> string \<Rightarrow> bool" where
  "contains needle s = sublist needle s"

lemma first_some_Some: "first_some f xs = Some y \<Longrightarrow> \<exists>x \<in> set xs. f x = Some y"
  by (induction xs) (auto split: option.splits)

lemma rsearch_Some: "rsearch r s = Some cs \<Longrightarrow> \<exists>k \<le> length s. rmatch r (drop k s) = Some cs"
  unfolding rsearch_def by (drule first_some_Some) (auto simp: less_Suc_eq_le simp del: upt_Suc)

lemma first_some_all_digits:
  assumes "first_some (\<lambda>k. map_option ((#) (take k s)) (g k)) (rev [1..<Suc (length (takeWhile p s))])
    = Some cs"
  shows "\<exists>c r. cs = c # r \<and> c \<noteq> [] \<and> list_all p c"
proof -
  obtain k where k: "k \<in> set (rev [1..<Suc (length (takeWhile p s))])"
      "map_option ((#) (take k s)) (g k) = Some cs"
    using first_some_Some [OF assms] by blast
  have k1: "1 \<le> k" "k \<le> length (takeWhile p s)" using k(1) by auto
  have "take k s = take k (takeWhile p s)"
    by (metis k1(2) min.absorb1 take_take takeWhile_eq_take)
  then have "list_all p (take k s)"
    by (auto simp: list_all_iff dest!: in_set_takeD set_takeWhileD)
  moreover have "take k s \<noteq> []" using k1 by (cases s) auto
  ultimately show ?thesis using k(2) by auto
qed

end
