(* ===== verification/Brew_Wire.thy ===== *)
theory Brew_Wire
  imports Tetra_Codec Py_Text
begin

text \<open>
  The byte formats: BREW messages as \<^verbatim>\<open>tetrapack_brew_audio.py\<close> and
  \<^verbatim>\<open>tetrapack_brew_bridge.py\<close> build and parse them, and the RTP packets exchanged with the
  two DVM bridges. A call or session id is its 16 \<^verbatim>\<open>bytes_le\<close>. Field packing raises as
  \<^verbatim>\<open>struct.pack\<close> (\<open>StructError\<close>) and \<^verbatim>\<open>int.to_bytes\<close> (\<open>OverflowError\<close>) do.
\<close>

section \<open>Constants\<close>

abbreviation BREW_CLASS_SUBSCRIBER :: byte where "BREW_CLASS_SUBSCRIBER \<equiv> 0xF0"
abbreviation BREW_CLASS_CALL_CONTROL :: byte where "BREW_CLASS_CALL_CONTROL \<equiv> 0xF1"
abbreviation BREW_CLASS_FRAME :: byte where "BREW_CLASS_FRAME \<equiv> 0xF2"
abbreviation BREW_CLASS_ERROR :: byte where "BREW_CLASS_ERROR \<equiv> 0xF3"
abbreviation BREW_TYPE_RESTRICTED :: byte where "BREW_TYPE_RESTRICTED \<equiv> 1"

abbreviation SUBSCRIBER_DEREGISTER :: byte where "SUBSCRIBER_DEREGISTER \<equiv> 0"
abbreviation SUBSCRIBER_REGISTER :: byte where "SUBSCRIBER_REGISTER \<equiv> 1"
abbreviation SUBSCRIBER_REREGISTER :: byte where "SUBSCRIBER_REREGISTER \<equiv> 2"
abbreviation SUBSCRIBER_AFFILIATE :: byte where "SUBSCRIBER_AFFILIATE \<equiv> 8"
abbreviation SUBSCRIBER_DEAFFILIATE :: byte where "SUBSCRIBER_DEAFFILIATE \<equiv> 9"

abbreviation CALL_STATE_GROUP_TX :: byte where "CALL_STATE_GROUP_TX \<equiv> 2"
abbreviation CALL_STATE_GROUP_IDLE :: byte where "CALL_STATE_GROUP_IDLE \<equiv> 3"
abbreviation CALL_STATE_CALL_RELEASE :: byte where "CALL_STATE_CALL_RELEASE \<equiv> 10"
abbreviation CALL_STATE_SHORT_TRANSFER :: byte where "CALL_STATE_SHORT_TRANSFER \<equiv> 11"
abbreviation FRAME_TYPE_TRAFFIC_CHANNEL :: byte where "FRAME_TYPE_TRAFFIC_CHANNEL \<equiv> 0"
abbreviation FRAME_TYPE_SDS_TRANSFER :: byte where "FRAME_TYPE_SDS_TRANSFER \<equiv> 1"
abbreviation FRAME_TYPE_SDS_REPORT :: byte where "FRAME_TYPE_SDS_REPORT \<equiv> 2"

abbreviation RTP_HEADER_BYTES :: nat where "RTP_HEADER_BYTES \<equiv> 12"
abbreviation PCM_SAMPLES_20MS :: nat where "PCM_SAMPLES_20MS \<equiv> 160"
abbreviation PCM_BYTES_20MS :: nat where "PCM_BYTES_20MS \<equiv> 320"
abbreviation RTP_PACKET_BYTES :: nat where "RTP_PACKET_BYTES \<equiv> 340"

section \<open>Messages of the audio worker\<close>

definition build_subscriber_message ::
  "int \<Rightarrow> byte \<Rightarrow> int \<Rightarrow> int list \<Rightarrow> py_error + bytes" where
  "build_subscriber_message now_ns message_type issi groups =
     bindE (pack_le 4 issi) (\<lambda>i.
     bindE (pack_le 8 (now_ns div 1000000000)) (\<lambda>s.
     bindE (pack_le 4 (now_ns mod 1000000000)) (\<lambda>n.
     bindE (mapE (pack_le 4) groups) (\<lambda>gs.
     Inr ([BREW_CLASS_SUBSCRIBER, message_type] @ i @ s @ n @ concat gs)))))"

definition build_group_tx :: "bytes \<Rightarrow> int \<Rightarrow> int \<Rightarrow> py_error + bytes" where
  "build_group_tx call_uuid source destination =
     bindE (pack_le 4 source) (\<lambda>s.
     bindE (pack_le 4 destination) (\<lambda>d.
     Inr ([BREW_CLASS_CALL_CONTROL, CALL_STATE_GROUP_TX] @ call_uuid @ s @ d @ [0, 0, 0, 0])))"

definition build_group_idle :: "bytes \<Rightarrow> int \<Rightarrow> bytes" where
  "build_group_idle call_uuid cause =
     [BREW_CLASS_CALL_CONTROL, CALL_STATE_GROUP_IDLE] @ call_uuid @ [word_of_int (cause mod 256)]"

definition build_voice_frame :: "bytes \<Rightarrow> bytes \<Rightarrow> py_error + bytes" where
  "build_voice_frame call_uuid ste_data =
     (if length ste_data \<noteq> TETRA_STE_BYTES
      then Inl (ValueError ''BREW voice data must be a 36-byte STE block'')
      else bindE (pack_le 2 (int (length ste_data) * 8)) (\<lambda>l.
        Inr ([BREW_CLASS_FRAME, FRAME_TYPE_TRAFFIC_CHANNEL] @ call_uuid @ l @ ste_data)))"

section \<open>RTP packets of the DVM bridges\<close>

definition parse_dvm_rtp :: "bytes \<Rightarrow> (int \<times> int \<times> int \<times> bool \<times> bytes) option" where
  "parse_dvm_rtp packet =
     (if length packet < RTP_PACKET_BYTES \<or> drop_bit 6 (packet ! 0) \<noteq> 2 then None
      else if packet ! 1 AND 0x7F \<noteq> 0 then None
      else
        let sequence = be_val (slice 2 4 packet);
            marker = (packet ! 1 AND 0x80 \<noteq> 0);
            pcm = slice RTP_HEADER_BYTES (RTP_HEADER_BYTES + PCM_BYTES_20MS) packet;
            destination = be_val (slice 332 336 packet);
            source = be_val (slice 336 340 packet)
        in Some (source, destination, sequence, marker, pcm))"

definition build_dvm_rtp ::
  "bytes \<Rightarrow> int \<Rightarrow> int \<Rightarrow> int \<Rightarrow> int \<Rightarrow> int \<Rightarrow> bool \<Rightarrow> py_error + bytes" where
  "build_dvm_rtp pcm source destination sequence timestamp ssrc marker =
     (if length pcm \<noteq> PCM_BYTES_20MS
      then Inl (ValueError ''DVM RTP payload must contain 320 bytes of PCM'')
      else
        bindE (pack_be 2 (sequence mod 65536)) (\<lambda>q.
        bindE (pack_be 4 (timestamp mod 4294967296)) (\<lambda>t.
        bindE (pack_be 4 ssrc) (\<lambda>r.
        bindE (pack_be 4 destination) (\<lambda>d.
        bindE (pack_be 4 source) (\<lambda>s.
        Inr ([0x80, if marker then 0x80 else 0x00] @ q @ t @ r @ pcm @ d @ s)))))))"

lemma build_dvm_rtp_Inr:
  assumes "length pcm = 320" "0 \<le> source" "source < 4294967296"
    "0 \<le> destination" "destination < 4294967296" "0 \<le> ssrc" "ssrc < 4294967296"
  shows "build_dvm_rtp pcm source destination sequence timestamp ssrc marker =
    Inr ([0x80, if marker then 0x80 else 0x00] @ be_bytes 2 (sequence mod 65536) @
         be_bytes 4 (timestamp mod 4294967296) @ be_bytes 4 ssrc @ pcm @
         be_bytes 4 destination @ be_bytes 4 source)"
  using assms by (simp add: build_dvm_rtp_def pack_be_def)

lemma parse_dvm_rtp_layout:
  assumes "length q = 2" "length t = 4" "length r = 4" "length pcm = 320"
    "length d = 4" "length s = 4"
  shows "parse_dvm_rtp ([0x80, if marker then 0x80 else 0x00] @ q @ t @ r @ pcm @ d @ s) =
    Some (be_val s, be_val d, be_val q, marker, pcm)"
proof -
  let ?p = "[0x80 :: byte, if marker then 0x80 else 0x00]"
  let ?pk = "?p @ q @ t @ r @ pcm @ d @ s"
  have "slice 2 4 ?pk = q"
    using slice_append_exact [of ?p 2 q 4 "t @ r @ pcm @ d @ s"] assms by simp
  moreover have "slice 12 332 ?pk = pcm"
    using slice_append_exact [of "?p @ q @ t @ r" 12 pcm 332 "d @ s"] assms by simp
  moreover have "slice 332 336 ?pk = d"
    using slice_append_exact [of "?p @ q @ t @ r @ pcm" 332 d 336 s] assms by simp
  moreover have "slice 336 340 ?pk = s"
    using slice_append_exact [of "?p @ q @ t @ r @ pcm @ d" 336 s 340 "[]"] assms by simp
  ultimately show ?thesis
    using assms by (simp add: parse_dvm_rtp_def Let_def)
qed

text \<open>The packets as an instance of the codec interface, for every timestamp and SSRC.\<close>

interpretation dvm_rtp: codec
  "\<lambda>(source, destination, sequence, marker, pcm). length pcm = PCM_BYTES_20MS \<and>
     0 \<le> source \<and> source < 4294967296 \<and> 0 \<le> destination \<and> destination < 4294967296 \<and>
     0 \<le> sequence \<and> sequence < 65536 \<and> 0 \<le> ssrc \<and> ssrc < 4294967296"
  "\<lambda>(source, destination, sequence, marker, pcm).
     build_dvm_rtp pcm source destination sequence timestamp ssrc marker"
  "\<lambda>packet. case parse_dvm_rtp packet of None \<Rightarrow> Inl (ValueError []) | Some x \<Rightarrow> Inr x"
  for timestamp ssrc
  by unfold_locales (auto simp: build_dvm_rtp_Inr parse_dvm_rtp_layout [where marker = True, simplified]
      parse_dvm_rtp_layout [where marker = False, simplified])

text \<open>A packet sent to the P25 bridge is read back with the same source, destination,
  marker and PCM and with the sequence number modulo 65536, for every 320 byte block and all
  32 bit ids; and whatever packet is accepted, its fields are in range and its PCM block has
  320 bytes, so no later read can fail.\<close>

theorem dvm_rtp_round_trip:
  assumes "length pcm = PCM_BYTES_20MS" "0 \<le> source" "source < 4294967296"
    "0 \<le> destination" "destination < 4294967296" "0 \<le> ssrc" "ssrc < 4294967296"
  shows "(\<exists>packet. build_dvm_rtp pcm source destination sequence timestamp ssrc marker = Inr packet \<and>
      length packet = RTP_PACKET_BYTES \<and>
      parse_dvm_rtp packet = Some (source, destination, sequence mod 65536, marker, pcm)) \<and>
    (\<forall>packet s d q m b. parse_dvm_rtp packet = Some (s, d, q, m, b) \<longrightarrow>
      length b = PCM_BYTES_20MS \<and> 0 \<le> s \<and> s < 4294967296 \<and> 0 \<le> d \<and> d < 4294967296 \<and>
      0 \<le> q \<and> q < 65536)"
proof (intro conjI allI impI)
  show "\<exists>packet. build_dvm_rtp pcm source destination sequence timestamp ssrc marker = Inr packet \<and>
      length packet = RTP_PACKET_BYTES \<and>
      parse_dvm_rtp packet = Some (source, destination, sequence mod 65536, marker, pcm)"
    using assms by (simp add: build_dvm_rtp_Inr
        parse_dvm_rtp_layout [where marker = True, simplified]
        parse_dvm_rtp_layout [where marker = False, simplified])
next
  fix packet s d q m b
  assume p: "parse_dvm_rtp packet = Some (s, d, q, m, b)"
  then have len: "RTP_PACKET_BYTES \<le> length packet"
    by (auto simp: parse_dvm_rtp_def split: if_splits)
  have f: "b = slice 12 332 packet" "d = be_val (slice 332 336 packet)"
      "s = be_val (slice 336 340 packet)" "q = be_val (slice 2 4 packet)"
    using p by (auto simp: parse_dvm_rtp_def Let_def split: if_splits)
  show "length b = PCM_BYTES_20MS" using f len by simp
  show "0 \<le> s" "0 \<le> d" "0 \<le> q" using f by simp_all
  show "s < 4294967296" using be_val_bound [of "slice 336 340 packet"] f len by simp
  show "d < 4294967296" using be_val_bound [of "slice 332 336 packet"] f len by simp
  show "q < 65536" using be_val_bound [of "slice 2 4 packet"] f len by simp
qed

theorem dvm_rtp_round_trip_witness:
  "\<exists>packet. build_dvm_rtp (replicate 320 7) 1000001 999 65577 123456 0x42524557 True = Inr packet \<and>
      length packet = 340 \<and>
      parse_dvm_rtp packet = Some (1000001, 999, 41, True, replicate 320 7)"
  using dvm_rtp_round_trip [of "replicate 320 7" 1000001 999 "0x42524557" 65577 123456 True]
  by simp

section \<open>Messages of the SMS bridge\<close>

definition to_bytes_le :: "nat \<Rightarrow> int \<Rightarrow> py_error + bytes" where
  "to_bytes_le n v = (if 0 \<le> v \<and> v < 256 ^ n then Inr (le_bytes n v) else Inl OverflowError)"

definition build_brew_short_transfer :: "bytes \<Rightarrow> int \<Rightarrow> int \<Rightarrow> py_error + bytes" where
  "build_brew_short_transfer session_id source_rid target_rid =
     bindE (to_bytes_le 4 source_rid) (\<lambda>s.
     bindE (to_bytes_le 4 target_rid) (\<lambda>t.
     Inr ([BREW_CLASS_CALL_CONTROL, CALL_STATE_SHORT_TRANSFER] @ session_id @ s @ t @
          replicate 32 0)))"

definition build_brew_sds_transfer :: "bytes \<Rightarrow> bytes \<Rightarrow> py_error + bytes" where
  "build_brew_sds_transfer session_id payload =
     bindE (to_bytes_le 2 (int (length payload) * 8)) (\<lambda>l.
     Inr ([BREW_CLASS_FRAME, FRAME_TYPE_SDS_TRANSFER] @ session_id @ l @ payload))"

definition build_brew_sds_report :: "bytes \<Rightarrow> int \<Rightarrow> py_error + bytes" where
  "build_brew_sds_report session_id status =
     bindE (to_bytes_le 2 8) (\<lambda>l.
     Inr ([BREW_CLASS_FRAME, FRAME_TYPE_SDS_REPORT] @ session_id @ l @
          [word_of_int (status mod 256)]))"

definition build_brew_call_release :: "bytes \<Rightarrow> int \<Rightarrow> py_error + bytes" where
  "build_brew_call_release session_id cause =
     bindE (to_bytes_le 1 (cause mod 256)) (\<lambda>c.
     Inr ([BREW_CLASS_CALL_CONTROL, CALL_STATE_CALL_RELEASE] @ session_id @ c))"

text \<open>\<^verbatim>\<open>parse_brew_frame\<close> returns a dictionary; its optional keys are options here, and the
  hexadecimal renderings are the byte strings themselves.\<close>

record parsed_frame =
  pf_kind :: byte
  pf_type :: byte
  pf_hex :: bytes
  pf_sessionId :: "bytes option"
  pf_lengthBits :: "int option"
  pf_payloadHex :: "bytes option"
  pf_status :: "byte option"

datatype brew_frame = TooShort bytes | ParsedFrame parsed_frame

definition parse_brew_frame :: "bytes \<Rightarrow> brew_frame" where
  "parse_brew_frame frame =
     (if length frame < 2 then TooShort frame
      else
        let kind = frame ! 0; ftype = frame ! 1;
            parsed = \<lparr>pf_kind = kind, pf_type = ftype, pf_hex = frame, pf_sessionId = None,
                      pf_lengthBits = None, pf_payloadHex = None, pf_status = None\<rparr>
        in if kind = BREW_CLASS_FRAME \<and> length frame \<ge> 20
           then
             let payload = drop 20 frame;
                 parsed = parsed\<lparr>pf_sessionId := Some (slice 2 18 frame),
                                 pf_lengthBits := Some (le_val (slice 18 20 frame)),
                                 pf_payloadHex := Some payload\<rparr>
             in if ftype = FRAME_TYPE_SDS_REPORT \<and> payload \<noteq> []
                then ParsedFrame (parsed\<lparr>pf_status := Some (hd payload)\<rparr>)
                else ParsedFrame parsed
           else if kind = BREW_CLASS_CALL_CONTROL \<and> length frame \<ge> 18
           then ParsedFrame (parsed\<lparr>pf_sessionId := Some (slice 2 18 frame)\<rparr>)
           else ParsedFrame parsed)"

lemma frame_uuid [simp]:
  assumes "length u = 16"
  shows "slice 2 18 (a # b # u @ q) = u" "drop 18 (a # b # u @ q) = q"
  using slice_append_exact [of "[a, b]" 2 u 18 q] assms by simp_all

lemma frame_fields [simp]:
  assumes "length u = 16" "length l = 2"
  shows "slice 18 20 (a # b # u @ l @ p) = l" "drop 20 (a # b # u @ l @ p) = p"
  using slice_append_exact [of "[a, b] @ u" 18 l 20 p] assms by simp_all

lemma parse_built_transfer:
  assumes "length session = 16" "length payload < 8192"
  shows "\<exists>frame r. build_brew_sds_transfer session payload = Inr frame \<and>
    parse_brew_frame frame = ParsedFrame r \<and> pf_sessionId r = Some session \<and>
    pf_lengthBits r = Some (8 * int (length payload)) \<and> pf_payloadHex r = Some payload"
proof -
  have "le_val (le_bytes 2 (int (length payload) * 8)) = 8 * int (length payload)"
    using assms(2) by (simp only: le_val_le_bytes) simp
  then show ?thesis using assms
    by (simp add: build_brew_sds_transfer_def to_bytes_le_def parse_brew_frame_def Let_def
        del: le_bytes_unroll le_val_le_bytes)
qed

text \<open>The diagnostic parser reads every message the bridge builds: a text transfer gives
  back its session, its length in bits and its payload, a report its session and status, a
  header or release its session; a payload of 8192 bytes or more cannot be framed and raises.\<close>

theorem parse_built_frames:
  assumes "length session = 16"
  shows "(length payload < 8192 \<longrightarrow>
      (\<exists>frame r. build_brew_sds_transfer session payload = Inr frame \<and>
         parse_brew_frame frame = ParsedFrame r \<and> pf_sessionId r = Some session \<and>
         pf_lengthBits r = Some (8 * int (length payload)) \<and> pf_payloadHex r = Some payload)) \<and>
    (8192 \<le> length payload \<longrightarrow> build_brew_sds_transfer session payload = Inl OverflowError) \<and>
    (\<exists>frame r. build_brew_sds_report session status = Inr frame \<and>
         parse_brew_frame frame = ParsedFrame r \<and> pf_sessionId r = Some session \<and>
         pf_lengthBits r = Some 8 \<and> pf_status r = Some (word_of_int status)) \<and>
    (\<exists>frame r. build_brew_call_release session cause = Inr frame \<and>
         parse_brew_frame frame = ParsedFrame r \<and> pf_sessionId r = Some session \<and>
         pf_payloadHex r = None)"
proof (intro conjI impI)
  assume "length payload < 8192"
  with assms show "\<exists>frame r. build_brew_sds_transfer session payload = Inr frame \<and>
         parse_brew_frame frame = ParsedFrame r \<and> pf_sessionId r = Some session \<and>
         pf_lengthBits r = Some (8 * int (length payload)) \<and> pf_payloadHex r = Some payload"
    by (rule parse_built_transfer)
next
  assume "8192 \<le> length payload"
  then show "build_brew_sds_transfer session payload = Inl OverflowError"
    by (simp add: build_brew_sds_transfer_def to_bytes_le_def)
next
  have l: "le_val (le_bytes 2 8) = 8" by (simp only: le_val_le_bytes) simp
  have w: "(word_of_int (status mod 256) :: byte) = word_of_int status"
    by (simp add: word_of_int_eq_iff take_bit_eq_mod)
  show "\<exists>frame r. build_brew_sds_report session status = Inr frame \<and>
         parse_brew_frame frame = ParsedFrame r \<and> pf_sessionId r = Some session \<and>
         pf_lengthBits r = Some 8 \<and> pf_status r = Some (word_of_int status)"
    using l w assms
    by (simp add: build_brew_sds_report_def to_bytes_le_def parse_brew_frame_def Let_def
        del: le_bytes_unroll le_val_le_bytes)
next
  show "\<exists>frame r. build_brew_call_release session cause = Inr frame \<and>
         parse_brew_frame frame = ParsedFrame r \<and> pf_sessionId r = Some session \<and>
         pf_payloadHex r = None"
    using assms
    by (simp add: build_brew_call_release_def to_bytes_le_def parse_brew_frame_def Let_def
        del: le_bytes_unroll)
qed

theorem parse_built_frames_witness:
  "length (replicate 16 (7 :: byte)) = 16 \<and>
   (\<exists>frame r. build_brew_sds_transfer (replicate 16 7) [0x82, 1, 2] = Inr frame \<and>
      parse_brew_frame frame = ParsedFrame r \<and> pf_sessionId r = Some (replicate 16 7) \<and>
      pf_lengthBits r = Some 24 \<and> pf_payloadHex r = Some [0x82, 1, 2])"
  using parse_built_frames [of "replicate 16 7" "[0x82, 1, 2]" 0 0] by simp

section \<open>Reading identifiers and error reports\<close>

definition hex_digit :: "nat \<Rightarrow> char" where
  "hex_digit n = (if n < 10 then char_of (n + 48) else char_of (n + 87))"

definition hex_text :: "bytes \<Rightarrow> string" where
  "hex_text bs = concat (map (\<lambda>b. [hex_digit (unat b div 16), hex_digit (unat b mod 16)]) bs)"

definition uuid_text :: "bytes \<Rightarrow> string" where
  "uuid_text wire =
     (if length wire = 16
      then hex_text (rev (slice 0 4 wire)) @ ''-'' @ hex_text (rev (slice 4 6 wire)) @ ''-'' @
           hex_text (rev (slice 6 8 wire)) @ ''-'' @ hex_text (slice 8 10 wire) @ ''-'' @
           hex_text (slice 10 16 wire)
      else hex_text wire)"

text \<open>\<open>readable\<close> stands for \<^verbatim>\<open>decode("utf-8", errors="replace")\<close> with every character that is
  not printable replaced by a question mark.\<close>

definition brew_error_reason :: "(bytes \<Rightarrow> string) \<Rightarrow> bytes \<Rightarrow> string" where
  "brew_error_reason readable frame =
     (let raw = rstrip_by (\<lambda>b. b = 0) (drop 2 frame);
          text_prefix = takeWhile (\<lambda>b. b \<noteq> 0) raw
      in if 2 \<le> length raw \<and>
            raw ! 0 \<in> {BREW_CLASS_SUBSCRIBER, BREW_CLASS_CALL_CONTROL, BREW_CLASS_FRAME}
         then ''rejected_class=0x'' @ hex_text [raw ! 0] @ '' rejected_type='' @ show_nat (unat (raw ! 1))
         else if 3 \<le> length text_prefix \<and> list_all (\<lambda>b. 0x20 \<le> b \<and> b < 0x7F) text_prefix
         then take 160 (readable raw)
         else if 16 \<le> length raw
         then (let detail = hex_text (drop 16 raw)
               in ''call_uuid='' @ uuid_text (take 16 raw) @ '' detail='' @
                  (if detail = [] then ''none'' else detail))
         else take 160 (readable raw))"

end
