(* ===== verification/Talkgroup_Router.thy ===== *)
theory Talkgroup_Router
  imports Py_Value
begin

text \<open>
  \<^verbatim>\<open>TalkgroupRouter\<close> of \<^verbatim>\<open>tetrapack_brew_audio.py\<close>: which BREW group a P25 talkgroup goes to
  and back, static groups from the configuration, dynamic groups that time out, and the
  text file that carries the dynamic groups over a restart. Times are real numbers; the
  clock values a call reads are arguments. The routing part of \<^verbatim>\<open>AudioConfig\<close> is the record
  \<open>routing_cfg\<close>.
\<close>

section \<open>State\<close>

record routing_cfg =
  p25_to_brew :: "(int, int) pydict"
  brew_to_p25 :: "(int, int) pydict"
  static_brew_groups :: "int set"
  dynamic_timeout_seconds :: int
  disconnect_talkgroup :: int

record dynamic_route =
  last_active_monotonic :: real
  last_active_epoch :: real

record router =
  rt_config :: routing_cfg
  dynamic :: "(int, dynamic_route) pydict"

definition router_init :: "routing_cfg \<Rightarrow> router" where
  "router_init cfg = \<lparr>rt_config = cfg, dynamic = []\<rparr>"

section \<open>Operations\<close>

definition is_static :: "router \<Rightarrow> int \<Rightarrow> bool" where
  "is_static r brew_talkgroup \<longleftrightarrow> brew_talkgroup \<in> static_brew_groups (rt_config r)"

definition in_dynamic :: "router \<Rightarrow> int \<Rightarrow> bool" where
  "in_dynamic r tg \<longleftrightarrow> tg \<in> fst ` set (dynamic r)"

definition is_active :: "router \<Rightarrow> int \<Rightarrow> bool" where
  "is_active r brew_talkgroup \<longleftrightarrow> is_static r brew_talkgroup \<or> in_dynamic r brew_talkgroup"

definition brew_for_p25 :: "router \<Rightarrow> int \<Rightarrow> int option" where
  "brew_for_p25 r p25_talkgroup =
     (if p25_talkgroup = disconnect_talkgroup (rt_config r) then None
      else Some (case map_of (p25_to_brew (rt_config r)) p25_talkgroup of
                   Some b \<Rightarrow> b | None \<Rightarrow> p25_talkgroup))"

definition p25_for_brew :: "router \<Rightarrow> int \<Rightarrow> int option" where
  "p25_for_brew r brew_talkgroup =
     (if \<not> is_active r brew_talkgroup then None
      else case map_of (brew_to_p25 (rt_config r)) brew_talkgroup of
             Some mapped \<Rightarrow> Some mapped | None \<Rightarrow> Some brew_talkgroup)"

definition activate :: "int \<Rightarrow> real \<Rightarrow> real \<Rightarrow> router \<Rightarrow> bool \<times> router" where
  "activate brew_talkgroup now_monotonic now_epoch r =
     (if is_static r brew_talkgroup then (False, r)
      else (\<not> in_dynamic r brew_talkgroup,
            r\<lparr>dynamic := AList.update brew_talkgroup
                 \<lparr>last_active_monotonic = now_monotonic, last_active_epoch = now_epoch\<rparr>
                 (dynamic r)\<rparr>))"

definition restore :: "int \<Rightarrow> real \<Rightarrow> real \<Rightarrow> real \<Rightarrow> router \<Rightarrow> bool \<times> router" where
  "restore brew_talkgroup last_epoch now_epoch now_monotonic r =
     (let age = max 0 (now_epoch - last_epoch)
      in if of_int (dynamic_timeout_seconds (rt_config r)) \<le> age \<or> is_static r brew_talkgroup
         then (False, r)
         else (True, r\<lparr>dynamic := AList.update brew_talkgroup
                 \<lparr>last_active_monotonic = now_monotonic - age, last_active_epoch = last_epoch\<rparr>
                 (dynamic r)\<rparr>))"

definition overdue :: "router \<Rightarrow> real \<Rightarrow> dynamic_route \<Rightarrow> bool" where
  "overdue r now_monotonic route \<longleftrightarrow>
     now_monotonic - last_active_monotonic route
       > of_int (dynamic_timeout_seconds (rt_config r))"

definition expire :: "real \<Rightarrow> router \<Rightarrow> int list \<times> router" where
  "expire now_monotonic r =
     (let expired = map fst (filter (\<lambda>(tg, route). overdue r now_monotonic route) (dynamic r))
      in (sort expired, r\<lparr>dynamic := fold AList.delete expired (dynamic r)\<rparr>))"

definition clear_routes :: "router \<Rightarrow> int list \<times> router" where
  "clear_routes r = (sort (map fst (dynamic r)), r\<lparr>dynamic := []\<rparr>)"

definition groups :: "router \<Rightarrow> int list" where
  "groups r = sorted_list_of_set (static_brew_groups (rt_config r) \<union> set (map fst (dynamic r)))"

definition snapshot :: "router \<Rightarrow> (int \<times> real \<times> real) list" where
  "snapshot r = map (\<lambda>(tg, route). (tg, last_active_epoch route,
       last_active_epoch route + of_int (dynamic_timeout_seconds (rt_config r))))
     (sort_key fst (dynamic r))"

text \<open>What \<^verbatim>\<open>_reload_routing_if_changed\<close> does to the router under its lock.\<close>

definition install_config :: "routing_cfg \<Rightarrow> router \<Rightarrow> router" where
  "install_config cfg r =
     (let r1 = r\<lparr>rt_config := cfg\<rparr>
      in r1\<lparr>dynamic := fold (\<lambda>tg d. if is_static r1 tg then AList.delete tg d else d)
              (map fst (dynamic r)) (dynamic r)\<rparr>)"

section \<open>Invariant\<close>

definition router_ok :: "router \<Rightarrow> bool" where
  "router_ok r \<longleftrightarrow> dict_ok (dynamic r) \<and> finite (static_brew_groups (rt_config r)) \<and>
     (\<forall>tg \<in> fst ` set (dynamic r). \<not> is_static r tg)"

lemmas router_defs = router_ok_def is_static_def in_dynamic_def

lemma router_ok_init: "finite (static_brew_groups cfg) \<Longrightarrow> router_ok (router_init cfg)"
  by (simp add: router_init_def router_defs)

lemma router_ok_activate [wf_intros]: "router_ok r \<Longrightarrow> router_ok (snd (activate tg m e r))"
  by (auto simp: activate_def router_defs dest!: in_set_updateD)

lemma router_ok_restore [wf_intros]: "router_ok r \<Longrightarrow> router_ok (snd (restore tg l e m r))"
  by (auto simp: restore_def router_defs Let_def dest!: in_set_updateD)

lemma dict_ok_fold_delete: "dict_ok d \<Longrightarrow> dict_ok (fold AList.delete ks d)"
  by (induction ks arbitrary: d) auto

lemma fold_delete_filter:
  "fold AList.delete ks d = filter (\<lambda>(k, v). k \<notin> set ks) d"
  by (induction ks arbitrary: d) (auto simp: AList.delete_eq intro: filter_cong)

lemma expire_dynamic:
  assumes "dict_ok (dynamic r)"
  shows "dynamic (snd (expire now r)) = dict_filter (\<lambda>route. \<not> overdue r now route) (dynamic r)"
proof -
  let ?ks = "map fst (filter (\<lambda>(tg, route). overdue r now route) (dynamic r))"
  have "(case kv of (k, v) \<Rightarrow> k \<notin> set ?ks) = (case kv of (k, v) \<Rightarrow> \<not> overdue r now v)"
    if kv: "kv \<in> set (dynamic r)" for kv
  proof -
    obtain k v where e: "kv = (k, v)" by (cases kv)
    have m: "map_of (dynamic r) k = Some v" using in_set_map_of [OF assms, of k v] kv e by simp
    have u: "v' = v" if "(k, v') \<in> set (dynamic r)" for v'
      using in_set_map_of [OF assms that] m by simp
    have "k \<in> set ?ks \<longleftrightarrow> (\<exists>v'. (k, v') \<in> set (dynamic r) \<and> overdue r now v')"
      by (force simp: image_iff)
    also have "\<dots> \<longleftrightarrow> overdue r now v" using u kv e by blast
    finally show ?thesis by (simp add: e)
  qed
  then have "filter (\<lambda>(k, v). k \<notin> set ?ks) (dynamic r) =
      filter (\<lambda>(k, v). \<not> overdue r now v) (dynamic r)"
    by (intro filter_cong refl)
  moreover have "dynamic (snd (expire now r)) = filter (\<lambda>(k, v). k \<notin> set ?ks) (dynamic r)"
    unfolding expire_def Let_def fold_delete_filter by simp
  ultimately show ?thesis by (simp only: dict_filter_def)
qed

lemma expire_config [simp]: "rt_config (snd (expire now r)) = rt_config r"
  by (simp add: expire_def Let_def)

lemma router_ok_expire [wf_intros]: "router_ok r \<Longrightarrow> router_ok (snd (expire now r))"
  by (auto simp: router_defs expire_dynamic)

lemma router_ok_clear [wf_intros]: "router_ok r \<Longrightarrow> router_ok (snd (clear_routes r))"
  by (simp add: clear_routes_def router_defs)

lemma install_config_dynamic:
  "dynamic (install_config cfg r) = filter (\<lambda>(tg, _). tg \<notin> static_brew_groups cfg) (dynamic r)"
proof -
  have "fold (\<lambda>tg d. if tg \<in> S then AList.delete tg d else d) ks d =
      filter (\<lambda>(k, v). k \<notin> set ks \<inter> S) d" for S ks and d :: "(int, dynamic_route) pydict"
    by (induction ks arbitrary: d) (auto simp: AList.delete_eq intro!: filter_cong)
  then have "dynamic (install_config cfg r) =
      filter (\<lambda>(k, v). k \<notin> set (map fst (dynamic r)) \<inter> static_brew_groups cfg) (dynamic r)"
    by (simp add: install_config_def Let_def is_static_def)
  also have "\<dots> = filter (\<lambda>(tg, _). tg \<notin> static_brew_groups cfg) (dynamic r)"
    by (rule filter_cong) force+
  finally show ?thesis .
qed

lemma install_config_cfg [simp]: "rt_config (install_config cfg r) = cfg"
  by (simp add: install_config_def Let_def)

lemma router_ok_install [wf_intros]:
  "router_ok r \<Longrightarrow> finite (static_brew_groups cfg) \<Longrightarrow> router_ok (install_config cfg r)"
  by (auto simp: router_defs install_config_dynamic dict_ok_def intro: distinct_map_filter)

section \<open>The router as a machine\<close>

datatype router_op =
    Activate int real real
  | Restore int real real real
  | Expire real
  | Clear
  | Install routing_cfg

fun router_step :: "router_op \<Rightarrow> router \<Rightarrow> router" where
  "router_step (Activate tg m e) r = snd (activate tg m e r)"
| "router_step (Restore tg l e m) r = snd (restore tg l e m r)"
| "router_step (Expire now) r = snd (expire now r)"
| "router_step Clear r = snd (clear_routes r)"
| "router_step (Install cfg) r =
     (if finite (static_brew_groups cfg) then install_config cfg r else r)"

interpretation router_machine: machine router_ok router_step
proof unfold_locales
  fix r e
  assume "router_ok r"
  then show "router_ok (router_step e r)"
    by (cases e) (auto intro: wf_intros)
qed

lemma groups_set:
  "router_ok r \<Longrightarrow> set (groups r) = static_brew_groups (rt_config r) \<union> fst ` set (dynamic r)"
  by (simp add: groups_def router_ok_def)

text \<open>C12: whatever sequence of operations runs, no dynamic route is kept for a static group and
  none is kept twice, and the affiliation list \<open>groups\<close> is sorted, free of duplicates and
  holds exactly the talkgroups whose downlink is let through.\<close>

theorem router_reachable_ok:
  assumes "finite (static_brew_groups cfg)"
    and "r = fold router_step ops (router_init cfg)"
  shows "dict_ok (dynamic r) \<and>
    (\<forall>tg. in_dynamic r tg \<longrightarrow> tg \<notin> static_brew_groups (rt_config r)) \<and>
    sorted (groups r) \<and> distinct (groups r) \<and>
    (\<forall>tg. tg \<in> set (groups r) \<longleftrightarrow> p25_for_brew r tg \<noteq> None)"
proof -
  have ok: "router_ok r"
    unfolding assms(2) by (rule router_machine.run_inv [OF router_ok_init [OF assms(1)]])
  have "tg \<in> set (groups r) \<longleftrightarrow> p25_for_brew r tg \<noteq> None" for tg
    by (auto simp: groups_set [OF ok] p25_for_brew_def is_active_def is_static_def in_dynamic_def
        split: option.splits)
  then show ?thesis using ok by (auto simp: groups_def router_defs)
qed

theorem router_reachable_ok_witness:
  "finite {26::int} \<and>
   in_dynamic (fold router_step [Activate 7 0 0, Activate 26 1 1, Expire 5]
      (router_init \<lparr>p25_to_brew = [], brew_to_p25 = [], static_brew_groups = {26},
         dynamic_timeout_seconds = 10, disconnect_talkgroup = 4000\<rparr>)) 7 \<and>
   7 \<notin> static_brew_groups (rt_config (fold router_step [Activate 7 0 0, Activate 26 1 1, Expire 5]
      (router_init \<lparr>p25_to_brew = [], brew_to_p25 = [], static_brew_groups = {26},
         dynamic_timeout_seconds = 10, disconnect_talkgroup = 4000\<rparr>)))"
proof -
  let ?cfg = "\<lparr>p25_to_brew = [], brew_to_p25 = [], static_brew_groups = {26::int},
         dynamic_timeout_seconds = 10, disconnect_talkgroup = 4000\<rparr>"
  let ?r = "fold router_step [Activate 7 0 0, Activate 26 1 1, Expire 5] (router_init ?cfg)"
  have f: "finite (static_brew_groups ?cfg)" by simp
  have d: "in_dynamic ?r 7"
    by (simp add: router_init_def activate_def expire_def is_static_def in_dynamic_def
        overdue_def Let_def)
  show ?thesis using d router_reachable_ok [OF f refl, of "[Activate 7 0 0, Activate 26 1 1, Expire 5]"]
    by simp
qed

text \<open>An expiry pass returns, sorted, exactly the dynamic groups that were silent for longer
  than the timeout, forgets these and no others, and leaves the remaining routes and the
  configuration as they were; a second pass at the same time finds nothing.\<close>

theorem expire_exact:
  assumes "dict_ok (dynamic r)" "expire now r = (expired, r')"
  shows "sorted expired \<and>
    (\<forall>tg. tg \<in> set expired \<longleftrightarrow> (\<exists>route. map_of (dynamic r) tg = Some route \<and>
        now - last_active_monotonic route > of_int (dynamic_timeout_seconds (rt_config r)))) \<and>
    (\<forall>tg. map_of (dynamic r') tg =
        (if tg \<in> set expired then None else map_of (dynamic r) tg)) \<and>
    rt_config r' = rt_config r \<and> fst (expire now r') = []"
proof -
  have e: "expired = sort (map fst (filter (\<lambda>(tg, route). overdue r now route) (dynamic r)))"
    and r': "r' = snd (expire now r)" using assms(2) by (auto simp: expire_def Let_def)
  have d': "dynamic r' = dict_filter (\<lambda>route. \<not> overdue r now route) (dynamic r)"
    unfolding r' by (rule expire_dynamic [OF assms(1)])
  have c: "rt_config r' = rt_config r" unfolding r' by simp
  have mem: "tg \<in> set expired \<longleftrightarrow> (\<exists>route. map_of (dynamic r) tg = Some route \<and> overdue r now route)"
    for tg
  proof -
    have "tg \<in> set expired \<longleftrightarrow> (\<exists>route. (tg, route) \<in> set (dynamic r) \<and> overdue r now route)"
      unfolding e set_sort set_map set_filter by (auto simp: image_iff)
    then show ?thesis using in_set_map_of [OF assms(1)] map_of_in_set [of "dynamic r" tg] by blast
  qed
  have look: "map_of (dynamic r') tg = (if tg \<in> set expired then None else map_of (dynamic r) tg)"
    for tg
    unfolding d' map_of_dict_filter [OF assms(1)] mem by (auto split: option.splits)
  have "filter (\<lambda>(tg, route). overdue r' now route) (dynamic r') = []"
    using c by (auto simp: d' filter_empty_conv overdue_def)
  then have "fst (expire now r') = []" by (simp add: expire_def Let_def)
  then show ?thesis using mem look c by (auto simp: e overdue_def)
qed

theorem expire_exact_witness:
  "fst (expire 20 \<lparr>rt_config = \<lparr>p25_to_brew = [], brew_to_p25 = [], static_brew_groups = {},
      dynamic_timeout_seconds = 10, disconnect_talkgroup = 4000\<rparr>,
      dynamic = [(91, \<lparr>last_active_monotonic = 5, last_active_epoch = 5\<rparr>),
                 (17, \<lparr>last_active_monotonic = 15, last_active_epoch = 15\<rparr>)]\<rparr>) = [91]"
proof -
  let ?r = "\<lparr>rt_config = \<lparr>p25_to_brew = [], brew_to_p25 = [], static_brew_groups = {},
      dynamic_timeout_seconds = 10, disconnect_talkgroup = 4000\<rparr>,
      dynamic = [(91, \<lparr>last_active_monotonic = 5, last_active_epoch = 5\<rparr>),
                 (17, \<lparr>last_active_monotonic = 15, last_active_epoch = 15\<rparr>)]\<rparr>"
  have ok: "dict_ok (dynamic ?r)" by (simp add: dict_ok_def)
  have e: "expire 20 ?r = ([91], snd (expire 20 ?r))"
    by (simp add: expire_def Let_def overdue_def)
  show ?thesis using expire_exact [OF ok e] e by (metis fst_conv)
qed

section \<open>The state file\<close>

definition state_line :: "int \<times> dynamic_route \<Rightarrow> string" where
  "state_line = (\<lambda>(tg, route). show_int tg @ '' '' @ show_fixed6 (last_active_epoch route))"

text \<open>\<^verbatim>\<open>save_dynamic_routes\<close>: the text that replaces the file.\<close>

definition save_dynamic_routes :: "string \<Rightarrow> router \<Rightarrow> string" where
  "save_dynamic_routes boot_id r =
     concat (map (\<lambda>l. l @ [CHR 0x0A])
       ((''# boot_id='' @ boot_id) # map state_line (sort_key fst (dynamic r))))"

definition load_line :: "real \<Rightarrow> real \<Rightarrow> string \<Rightarrow> router \<times> int list \<Rightarrow> router \<times> int list" where
  "load_line now_epoch now_monotonic line = (\<lambda>(r, restored).
     let stripped = strip line; fields = split_ws stripped
     in if stripped = [] \<or> hd stripped = CHR ''#'' then (r, restored)
        else if length fields \<noteq> 2 then (r, restored)
        else case (py_int_str (fields ! 0), py_float_str (fields ! 1)) of
          (Inr talkgroup, Inr last_epoch) \<Rightarrow>
            if in_24bit talkgroup
            then (case restore talkgroup last_epoch now_epoch now_monotonic r of
                    (True, r') \<Rightarrow> (r', restored @ [talkgroup])
                  | (False, r') \<Rightarrow> (r', restored))
            else (r, restored)
        | _ \<Rightarrow> (r, restored))"

text \<open>\<open>None\<close> is the file that is missing or cannot be read.\<close>

definition load_dynamic_routes ::
  "string option \<Rightarrow> real \<Rightarrow> real \<Rightarrow> router \<Rightarrow> int list \<times> router" where
  "load_dynamic_routes content now_epoch now_monotonic r =
     (case content of
        None \<Rightarrow> ([], r)
      | Some text \<Rightarrow>
          (let (r', restored) = fold (load_line now_epoch now_monotonic) (splitlines text) (r, [])
           in (sort restored, r')))"

lemma router_ok_restore_eq: "restore tg l e m r = (b, r') \<Longrightarrow> router_ok r \<Longrightarrow> router_ok r'"
  using router_ok_restore [of r tg l e m] by simp

lemma router_ok_load_line:
  "router_ok (fst s) \<Longrightarrow> router_ok (fst (load_line e m line s))"
  by (cases s) (auto simp: load_line_def Let_def split: sum.splits prod.splits bool.splits
      elim: router_ok_restore_eq)

lemma router_ok_load [wf_intros]:
  "router_ok r \<Longrightarrow> router_ok (snd (load_dynamic_routes content e m r))"
proof -
  have "router_ok (fst s) \<Longrightarrow> router_ok (fst (fold (load_line e m) ls s))" for ls s
    by (induction ls arbitrary: s) (simp_all add: router_ok_load_line)
  then show "router_ok r \<Longrightarrow> router_ok (snd (load_dynamic_routes content e m r))"
    by (auto simp: load_dynamic_routes_def Let_def case_prod_unfold split: option.splits)
qed

definition storable :: "int \<times> dynamic_route \<Rightarrow> bool" where
  "storable = (\<lambda>(tg, route). in_24bit tg \<and>
     (\<exists>m::nat. last_active_epoch route = of_nat m / 1000000))"

lemma load_saved_line:
  assumes "storable (tg, route)"
  shows "load_line e m (state_line (tg, route)) (r, acc) =
    (case restore tg (last_active_epoch route) e m r of
       (True, r') \<Rightarrow> (r', acc @ [tg]) | (False, r') \<Rightarrow> (r', acc))"
proof -
  obtain k :: nat where k: "last_active_epoch route = of_nat k / 1000000" "1 \<le> tg" "tg \<le> 0xFFFFFF"
    using assms by (auto simp: storable_def in_24bit_def)
  let ?a = "show_nat (nat tg)" and ?b = "show_fixed6 (last_active_epoch route)"
  have nn: "0 \<le> last_active_epoch route" using k by simp
  have a: "list_all (\<lambda>c. \<not> is_space c) ?a"
    using show_nat_digits [of "nat tg"] by (auto simp: list_all_iff is_digit_not_space)
  have b: "list_all (\<lambda>c. \<not> is_space c) ?b" "?b \<noteq> []"
    using show_fixed6_plain [OF nn] by (auto simp: list_all_iff)
  have h: "is_digit (hd ?a)" using show_nat_digits [of "nat tg"]
    by (metis list.set_sel(1) list_all_iff show_nat_nonempty)
  have l: "\<not> is_space (last (?a @ CHR '' '' # ?b))" using b by (auto simp: list_all_iff)
  have hd: "hd (?a @ CHR '' '' # ?b) = hd ?a" by simp
  have st: "strip (?a @ CHR '' '' # ?b) = ?a @ CHR '' '' # ?b"
    by (rule strip_by_id) (use h l hd is_digit_not_space in auto)
  have f: "split_ws (?a @ CHR '' '' # ?b) = [?a, ?b]"
    by (rule split_ws_two [OF a b(1)]) (simp_all add: b)
  have nh: "hd ?a \<noteq> CHR ''#''" using h by (auto simp: is_digit_def code_def)
  have line: "state_line (tg, route) = ?a @ CHR '' '' # ?b"
    using k by (simp add: state_line_def show_int_def)
  have fl: "py_float_str ?b = Inr (last_active_epoch route)"
    by (rule py_float_show_fixed6 [OF k(1)])
  show ?thesis
    unfolding load_line_def line Let_def st f using nh k fl by (simp add: in_24bit_def)
qed

lemma state_line_plain:
  assumes "storable x"
  shows "list_all (\<lambda>c. \<not> is_linebreak c) (state_line x)"
proof -
  obtain tg route where x: "x = (tg, route)" by (cases x)
  have nn: "0 \<le> last_active_epoch route" and tg: "1 \<le> tg" using assms x by (auto simp: storable_def in_24bit_def)
  show ?thesis
    using show_fixed6_plain [OF nn] show_nat_digits [of "nat tg"] tg
    by (auto simp: x state_line_def show_int_def list_all_iff is_digit_not_linebreak)
      (auto simp: is_linebreak_def code_def)
qed

lemma load_saved_lines:
  assumes "\<forall>x \<in> set xs. storable x" "dict_ok xs"
  shows "map_of (dynamic (fst (fold (load_line e m) (map state_line xs) (r, acc)))) tg =
    (case map_of xs tg of
       Some route \<Rightarrow>
         if of_int (dynamic_timeout_seconds (rt_config r)) \<le> max 0 (e - last_active_epoch route)
            \<or> is_static r tg
         then map_of (dynamic r) tg
         else Some \<lparr>last_active_monotonic = m - max 0 (e - last_active_epoch route),
                    last_active_epoch = last_active_epoch route\<rparr>
     | None \<Rightarrow> map_of (dynamic r) tg)"
  using assms
proof (induction xs arbitrary: r acc)
  case Nil
  then show ?case by simp
next
  case (Cons x xs)
  obtain k route where x: "x = (k, route)" by (cases x)
  have st: "storable (k, route)" using Cons.prems x by simp
  have ok: "dict_ok xs" and knot: "map_of xs k = None"
    using Cons.prems x by (auto simp: dict_ok_def map_of_eq_None_iff)
  obtain acc' where step: "load_line e m (state_line x) (r, acc) =
      (snd (restore k (last_active_epoch route) e m r), acc')"
    using load_saved_line [OF st, of e m r acc] x
    by (auto split: prod.splits bool.splits)
  have cfg: "rt_config (snd (restore k (last_active_epoch route) e m r)) = rt_config r"
    by (simp add: restore_def Let_def)
  let ?r1 = "snd (restore k (last_active_epoch route) e m r)"
  have stat: "is_static ?r1 tg = is_static r tg"
    by (simp add: is_static_def cfg)
  have st': "\<forall>y \<in> set xs. storable y" using Cons.prems(1) by simp
  have run: "fold (load_line e m) (map state_line (x # xs)) (r, acc) =
      fold (load_line e m) (map state_line xs) (?r1, acc')"
    by (simp add: step)
  have IH: "map_of (dynamic (fst (fold (load_line e m) (map state_line (x # xs)) (r, acc)))) tg =
    (case map_of xs tg of
       Some route \<Rightarrow>
         if of_int (dynamic_timeout_seconds (rt_config r)) \<le> max 0 (e - last_active_epoch route)
            \<or> is_static r tg
         then map_of (dynamic ?r1) tg
         else Some \<lparr>last_active_monotonic = m - max 0 (e - last_active_epoch route),
                    last_active_epoch = last_active_epoch route\<rparr>
     | None \<Rightarrow> map_of (dynamic ?r1) tg)"
    unfolding run using Cons.IH [OF st' ok, of ?r1 acc'] unfolding stat cfg .
  show ?case
  proof (cases "tg = k")
    case True
    then show ?thesis unfolding IH using knot by (simp add: x restore_def Let_def)
  next
    case False
    then have same: "map_of (dynamic ?r1) tg = map_of (dynamic r) tg"
      by (simp add: restore_def Let_def)
    show ?thesis unfolding IH same using False by (simp add: x)
  qed
qed

text \<open>Reloading the state file after a restart gives back every dynamic group that is still
  within its timeout, with the same time of last activity and the age it had, and none of the
  others; for every table of groups in the 24 bit range whose times are multiples of a
  microsecond, which is the precision of the file.\<close>

theorem state_file_round_trip:
  assumes "router_ok r" "\<forall>x \<in> set (dynamic r). storable x"
    and "list_all (\<lambda>c. \<not> is_linebreak c) boot_id"
    and "load_dynamic_routes (Some (save_dynamic_routes boot_id r)) now_epoch now_monotonic
           (router_init (rt_config r)) = (restored, r')"
  shows "map_of (dynamic r') tg =
    (case map_of (dynamic r) tg of
       Some route \<Rightarrow>
         let age = max 0 (now_epoch - last_active_epoch route)
         in if of_int (dynamic_timeout_seconds (rt_config r)) \<le> age then None
            else Some \<lparr>last_active_monotonic = now_monotonic - age,
                       last_active_epoch = last_active_epoch route\<rparr>
     | None \<Rightarrow> None)"
proof -
  let ?xs = "sort_key fst (dynamic r)"
  have ok: "dict_ok (dynamic r)" using assms(1) by (simp add: router_ok_def)
  have okx: "dict_ok ?xs" using ok by (simp add: dict_ok_def distinct_map)
  have mo: "map_of ?xs k = map_of (dynamic r) k" for k
  proof (cases "map_of (dynamic r) k")
    case None
    then have "k \<notin> fst ` set ?xs" unfolding map_of_None_iff by simp
    then have "map_of ?xs k = None" by (simp only: map_of_None_iff not_False_eq_True)
    then show ?thesis using None by simp
  next
    case (Some v)
    then show ?thesis using in_set_map_of [OF okx, of k v] map_of_in_set [of "dynamic r" k v] by simp
  qed
  have sts: "\<forall>x \<in> set ?xs. storable x" using assms(2) by simp
  have lines: "splitlines (save_dynamic_routes boot_id r) = (''# boot_id='' @ boot_id) # map state_line ?xs"
    unfolding save_dynamic_routes_def
    by (rule splitlines_join) (use assms(3) sts state_line_plain in
        \<open>auto simp: is_linebreak_def code_def\<close>)
  have first: "load_line now_epoch now_monotonic (''# boot_id='' @ boot_id) s = s" for s
  proof -
    have "strip (''# boot_id='' @ boot_id) \<noteq> [] \<and> hd (strip (''# boot_id='' @ boot_id)) = CHR ''#''"
    proof -
      have "lstrip_by is_space (''# boot_id='' @ boot_id) = ''# boot_id='' @ boot_id"
        by (simp add: lstrip_by_def is_space_def code_def)
      moreover have "rstrip_by is_space (''# boot_id='' @ boot_id) \<noteq> []"
        by (simp add: rstrip_by_def is_space_def code_def)
      ultimately show ?thesis by (simp add: strip_by_def rstrip_by_hd)
    qed
    then show ?thesis by (cases s) (simp add: load_line_def Let_def)
  qed
  have nost: "\<not> is_static r tg" if "map_of (dynamic r) tg \<noteq> None"
    using that assms(1) by (auto simp: router_ok_def dest!: map_of_in_set)
  have "r' = fst (fold (load_line now_epoch now_monotonic) (map state_line ?xs)
      (router_init (rt_config r), []))"
    using assms(4) first [unfolded append_Cons append_Nil]
    by (simp add: load_dynamic_routes_def lines Let_def case_prod_unfold)
  then show ?thesis
    using load_saved_lines [OF sts okx, of now_epoch now_monotonic "router_init (rt_config r)" "[]" tg]
      nost by (auto simp: mo router_init_def is_static_def Let_def split: option.splits)
qed


theorem state_file_round_trip_witness:
  "let cfg = \<lparr>p25_to_brew = [], brew_to_p25 = [], static_brew_groups = {26},
         dynamic_timeout_seconds = 600, disconnect_talkgroup = 4000\<rparr>;
       r = \<lparr>rt_config = cfg, dynamic =
         [(91, \<lparr>last_active_monotonic = 5, last_active_epoch = 1700000000\<rparr>),
          (17, \<lparr>last_active_monotonic = 9, last_active_epoch = 1700000900\<rparr>)]\<rparr>;
       r' = snd (load_dynamic_routes (Some (save_dynamic_routes ''boot'' r)) 1700001000 50
              (router_init cfg))
   in map_of (dynamic r') 91 = None \<and>
      map_of (dynamic r') 17 =
        Some \<lparr>last_active_monotonic = -50, last_active_epoch = 1700000900\<rparr>"
proof -
  let ?cfg = "\<lparr>p25_to_brew = [], brew_to_p25 = [], static_brew_groups = {26::int},
         dynamic_timeout_seconds = 600, disconnect_talkgroup = 4000\<rparr>"
  let ?r = "\<lparr>rt_config = ?cfg, dynamic =
         [(91, \<lparr>last_active_monotonic = 5, last_active_epoch = 1700000000\<rparr>),
          (17, \<lparr>last_active_monotonic = 9, last_active_epoch = 1700000900\<rparr>)]\<rparr>"
  have ok: "router_ok ?r" by (simp add: router_defs dict_ok_def)
  have st: "\<forall>x \<in> set (dynamic ?r). storable x"
    by (auto simp: storable_def in_24bit_def intro: exI [of _ "1700000000 * 1000000 :: nat"]
        exI [of _ "1700000900 * 1000000 :: nat"])
  have boot: "list_all (\<lambda>c. \<not> is_linebreak c) ''boot''" by (simp add: is_linebreak_def code_def)
  show ?thesis
    using state_file_round_trip [OF ok st boot prod.collapse [symmetric], of 1700001000 50 91]
      state_file_round_trip [OF ok st boot prod.collapse [symmetric], of 1700001000 50 17]
    by (simp add: Let_def)
qed

end
