(* ===== verification/Routing_Config.thy ===== *)
theory Routing_Config
  imports Talkgroup_Router
begin

text \<open>
  \<^verbatim>\<open>AudioConfig.load\<close> and the parser inside \<^verbatim>\<open>_reload_routing_if_changed\<close>: how a JSON and
  a YAML document become the configuration the audio worker runs with. The path operations
  of \<^verbatim>\<open>pathlib\<close> (\<open>resolve_path\<close>, \<open>sibling\<close>), the YAML reader and the text \<^verbatim>\<open>str()\<close> gives for
  floats and containers (\<open>repr\<close>) are arguments. JSON numbers that are not finite have no value
  in the model.
\<close>

section \<open>Helpers for untyped documents\<close>

definition dget :: "(string \<times> pyval) list \<Rightarrow> string \<Rightarrow> pyval \<Rightarrow> pyval" where
  "dget d k dflt = (case map_of d k of None \<Rightarrow> dflt | Some v \<Rightarrow> v)"

fun py_str :: "(pyval \<Rightarrow> string) \<Rightarrow> pyval \<Rightarrow> string" where
  "py_str repr (PStr s) = s"
| "py_str repr (PInt i) = show_int i"
| "py_str repr (PBool b) = (if b then ''True'' else ''False'')"
| "py_str repr PNone = ''None''"
| "py_str repr v = repr v"

section \<open>The mapping loop\<close>

type_synonym mapping_tables = "(int, int) pydict \<times> (int, int) pydict"

definition add_mapping :: "string \<Rightarrow> string \<Rightarrow> pyval \<Rightarrow> mapping_tables \<Rightarrow> py_error + mapping_tables" where
  "add_mapping range_msg unique_msg item = (\<lambda>(p25_to_brew, brew_to_p25).
     bindE (bindE (py_item item ''p25'') py_int) (\<lambda>p25.
     bindE (bindE (bindE (py_get item ''brandmeister'' (PInt 0)) (py_get item ''brew'')) py_int) (\<lambda>brew.
     if \<not> in_24bit p25 \<or> \<not> in_24bit brew then Inl (ValueError range_msg)
     else if map_of p25_to_brew p25 \<noteq> None \<or> map_of brew_to_p25 brew \<noteq> None
     then Inl (ValueError unique_msg)
     else Inr (AList.update p25 brew p25_to_brew, AList.update brew p25 brew_to_p25))))"

definition load_mapping :: "pyval \<Rightarrow> mapping_tables \<Rightarrow> py_error + mapping_tables" where
  "load_mapping item tables =
     (if \<not> is_dict item then Inl (ValueError ''talkgroupMappings entries must be objects'')
      else add_mapping ''talkgroupMappings values must be between 1 and 16777215''
             ''talkgroupMappings must be unique in both directions'' item tables)"

definition reload_mapping :: "pyval \<Rightarrow> mapping_tables \<Rightarrow> py_error + mapping_tables" where
  "reload_mapping = add_mapping ''talkgroup mapping is outside the 24-bit range''
     ''talkgroup mapping is not unique''"

definition int_set :: "pyval \<Rightarrow> py_error + int set" where
  "int_set v = bindE (py_iter v) (\<lambda>xs. bindE (mapE py_int xs) (\<lambda>is. Inr (set is)))"

section \<open>Reloading the routing section\<close>

text \<open>The part of \<^verbatim>\<open>_reload_routing_if_changed\<close> between reading the file and the lock.\<close>

definition parse_routing :: "pyval \<Rightarrow> py_error + routing_cfg" where
  "parse_routing document =
     bindE (py_get (py_or document (PDict [])) ''routing'' (PDict [])) (\<lambda>section.
     let routing = py_or section (PDict []) in
     bindE (bindE (py_get routing ''talkgroupMappings'' (PList [])) py_iter) (\<lambda>items.
     bindE (foldE reload_mapping items ([], [])) (\<lambda>(p25_to_brew, brew_to_p25).
     bindE (bindE (py_get routing ''staticTalkgroups'' (PList [])) int_set) (\<lambda>static_groups.
     if \<exists>g \<in> static_groups. \<not> in_24bit g
     then Inl (ValueError ''static talkgroup is outside the 24-bit range'') else
     bindE (bindE (py_get routing ''dynamicTimeoutSeconds'' (PInt 600)) py_int) (\<lambda>timeout.
     bindE (bindE (py_get routing ''disconnectTalkgroup'' (PInt 4000)) py_int) (\<lambda>disconnect.
     if \<not> in_24bit disconnect
     then Inl (ValueError ''disconnect talkgroup is outside the 24-bit range'') else
     Inr \<lparr>p25_to_brew = p25_to_brew, brew_to_p25 = brew_to_p25,
          static_brew_groups = static_groups, dynamic_timeout_seconds = max 10 timeout,
          disconnect_talkgroup = disconnect\<rparr>))))))"

section \<open>Loading the whole configuration\<close>

record pcm_input_config =
  pi_address :: string
  pi_port :: int
  allowed_sources :: "string set"

record pcm_output_config =
  po_address :: string
  po_port :: int

record audio_config =
  enabled :: bool
  existing_brew_config :: string
  existing_brew_module :: string
  quantarbridge_config :: string
  codec_library :: string
  status_file :: string
  log_file :: string
  dynamic_state_file :: string
  observed_issis_file :: string
  dvmhost_log_dir :: string
  config_local_issis :: "int list"
  ac_routing :: routing_cfg
  pcm_input :: pcm_input_config
  pcm_output :: pcm_output_config
  pcm_additional_inputs :: "pcm_input_config list"
  pcm_additional_outputs :: "pcm_output_config list"
  sms_command_dir :: "string option"
  jitter_frames :: int
  rebuffer_frames :: int
  uplink_initial_frames :: int
  uplink_inactivity_ms :: int
  uplink_gain :: real
  downlink_gain :: real
  uplink_peak_limit :: int
  downlink_peak_limit :: int
  uplink_high_pass_hz :: real
  uplink_presence_gain :: real
  uplink_high_cut_hz :: real
  uplink_de_esser_crossover_hz :: real
  uplink_de_esser_threshold :: real
  uplink_de_esser_strength :: real
  subscriber_refresh_seconds :: real
  user_agent :: string

record path_env =
  resolve_path :: "string \<Rightarrow> string"
  sibling :: "string \<Rightarrow> string \<Rightarrow> string"
  read_yaml :: "string \<Rightarrow> py_error + pyval"
  repr :: "pyval \<Rightarrow> string"

text \<open>The routing part of \<^verbatim>\<open>AudioConfig.load\<close>; \<open>raw\<close> is the JSON object, whose keys are the
  fallback for those of the YAML section.\<close>

definition routing_section :: "pyval \<Rightarrow> py_error + pyval" where
  "routing_section document =
     bindE (py_get (py_or document (PDict [])) ''routing'' (PDict []))
       (\<lambda>section. Inr (py_or section (PDict [])))"

definition load_mappings :: "(string \<times> pyval) list \<Rightarrow> pyval \<Rightarrow> py_error + mapping_tables" where
  "load_mappings raw routing =
     bindE (bindE (py_get routing ''talkgroupMappings'' (dget raw ''talkgroupMappings'' (PList []))) py_iter)
       (\<lambda>items. foldE load_mapping items ([], []))"

definition load_static_groups :: "(string \<times> pyval) list \<Rightarrow> pyval \<Rightarrow> py_error + int set" where
  "load_static_groups raw routing =
     bindE (bindE (py_get routing ''staticTalkgroups'' (dget raw ''staticTalkgroups'' (PList []))) int_set)
       (\<lambda>static_groups. if \<exists>g \<in> static_groups. \<not> in_24bit g
          then Inl (ValueError ''staticTalkgroups values must be between 1 and 16777215'')
          else Inr static_groups)"

definition load_local_issis :: "(string \<times> pyval) list \<Rightarrow> py_error + int list" where
  "load_local_issis raw =
     bindE (int_set (dget raw ''localIssis'' (PList []))) (\<lambda>issis.
       if \<exists>i \<in> issis. \<not> in_24bit i
       then Inl (ValueError ''localIssis values must be between 1 and 16777215'')
       else Inr (sorted_list_of_set issis))"

definition load_disconnect :: "(string \<times> pyval) list \<Rightarrow> pyval \<Rightarrow> py_error + int" where
  "load_disconnect raw routing =
     bindE (bindE (py_get routing ''disconnectTalkgroup'' (dget raw ''disconnectTalkgroup'' (PInt 4000))) py_int)
       (\<lambda>tg. if \<not> in_24bit tg
          then Inl (ValueError ''disconnectTalkgroup must be between 1 and 16777215'') else Inr tg)"

definition input_endpoint :: "(pyval \<Rightarrow> string) \<Rightarrow> pyval \<Rightarrow> py_error + pcm_input_config" where
  "input_endpoint rep item =
     bindE (py_get item ''address'' (PStr ''127.0.0.1'')) (\<lambda>addr.
     bindE (bindE (py_item item ''port'') py_int) (\<lambda>port.
     bindE (bindE (py_get item ''allowedSources'' (PList [])) py_iter) (\<lambda>srcs.
     Inr \<lparr>pi_address = py_str rep addr, pi_port = port,
          allowed_sources = set (map (py_str rep) srcs)\<rparr>)))"

definition output_endpoint :: "(pyval \<Rightarrow> string) \<Rightarrow> pyval \<Rightarrow> py_error + pcm_output_config" where
  "output_endpoint rep item =
     bindE (py_get item ''address'' (PStr ''127.0.0.1'')) (\<lambda>addr.
     bindE (bindE (py_item item ''port'') py_int) (\<lambda>port.
     Inr \<lparr>po_address = py_str rep addr, po_port = port\<rparr>))"

definition required :: "(string \<times> pyval) list \<Rightarrow> string \<Rightarrow> py_error + pyval" where
  "required raw k = py_item (PDict raw) k"

definition int_option :: "(string \<times> pyval) list \<Rightarrow> string \<Rightarrow> int \<Rightarrow> py_error + int" where
  "int_option raw k dflt = py_int (dget raw k (PInt dflt))"

definition float_option :: "(string \<times> pyval) list \<Rightarrow> string \<Rightarrow> real \<Rightarrow> py_error + real" where
  "float_option raw k dflt = py_float (dget raw k (PFloat dflt))"

definition path_option :: "path_env \<Rightarrow> (string \<times> pyval) list \<Rightarrow> string \<Rightarrow> py_error + string" where
  "path_option env raw k = bindE (required raw k) (\<lambda>v. Inr (resolve_path env (py_str (repr env) v)))"

definition audio_config_load :: "path_env \<Rightarrow> string \<Rightarrow> pyval \<Rightarrow> py_error + audio_config" where
  "audio_config_load env path document =
     (case document of
        PDict raw \<Rightarrow>
     let beside = (\<lambda>k base name. resolve_path env
           (py_str (repr env) (dget raw k (PStr (sibling env base name)))));
         qb = beside ''quantarbridgeConfig'' path ''quantarbridge.yml'' in
     bindE (bindE (read_yaml env qb) routing_section) (\<lambda>routing.
     bindE (load_mappings raw routing) (\<lambda>tables.
     bindE (load_static_groups raw routing) (\<lambda>static_groups.
     bindE (int_option raw ''pcmPeakLimit'' 24000) (\<lambda>peak. let peak_limit = clamp 1000 32767 peak in
     bindE (load_local_issis raw) (\<lambda>issis.
     bindE (load_disconnect raw routing) (\<lambda>disconnect.
     bindE (bindE (py_iter (dget raw ''p25PcmAdditionalInputs'' (PList []))) (mapE (input_endpoint (repr env)))) (\<lambda>add_in.
     bindE (bindE (py_iter (dget raw ''p25PcmAdditionalOutputs'' (PList []))) (mapE (output_endpoint (repr env)))) (\<lambda>add_out.
     bindE (path_option env raw ''existingBrewConfig'') (\<lambda>brew_config.
     bindE (path_option env raw ''existingBrewModule'') (\<lambda>brew_module.
     bindE (path_option env raw ''codecLibrary'') (\<lambda>codec.
     bindE (path_option env raw ''statusFile'') (\<lambda>statf.
     bindE (path_option env raw ''logFile'') (\<lambda>logf.
     bindE (bindE (py_get routing ''dynamicTimeoutSeconds'' (dget raw ''dynamicTimeoutSeconds'' (PInt 600))) py_int) (\<lambda>timeout.
     bindE (bindE (required raw ''p25PcmInput'') (output_endpoint (repr env))) (\<lambda>inp.
     bindE (bindE (required raw ''p25PcmOutput'') (output_endpoint (repr env))) (\<lambda>outp.
     bindE (int_option raw ''jitterFrames'' 4) (\<lambda>jitter.
     bindE (int_option raw ''rebufferFrames'' 2) (\<lambda>rebuffer.
     bindE (int_option raw ''uplinkInitialFrames'' 6) (\<lambda>initial.
     bindE (int_option raw ''uplinkInactivityMs'' 420) (\<lambda>inactivity.
     bindE (float_option raw ''uplinkGain'' 2) (\<lambda>up_gain.
     bindE (float_option raw ''downlinkGain'' 1) (\<lambda>down_gain.
     bindE (int_option raw ''uplinkPeakLimit'' peak_limit) (\<lambda>up_peak.
     bindE (int_option raw ''downlinkPeakLimit'' peak_limit) (\<lambda>down_peak.
     bindE (float_option raw ''uplinkHighPassHz'' 0) (\<lambda>hp.
     bindE (float_option raw ''uplinkPresenceGain'' 0) (\<lambda>presence.
     bindE (float_option raw ''uplinkHighCutHz'' 0) (\<lambda>high_cut.
     bindE (float_option raw ''uplinkDeEsserCrossoverHz'' 2200) (\<lambda>crossover.
     bindE (float_option raw ''uplinkDeEsserThreshold'' 0) (\<lambda>threshold.
     bindE (float_option raw ''uplinkDeEsserStrength'' 0) (\<lambda>strength.
     bindE (float_option raw ''subscriberRefreshSeconds'' 300) (\<lambda>refresh.
     Inr \<lparr>enabled = truthy (dget raw ''enabled'' (PBool True)),
       existing_brew_config = brew_config, existing_brew_module = brew_module,
       quantarbridge_config = qb, codec_library = codec, status_file = statf, log_file = logf,
       dynamic_state_file = beside ''dynamicStateFile'' qb ''dynamic_routes.state'',
       observed_issis_file = beside ''observedIssisFile'' qb ''brew-audio-observed-issis.json'',
       dvmhost_log_dir = beside ''dvmhostLogDir'' qb ''log'',
       config_local_issis = issis,
       ac_routing = \<lparr>p25_to_brew = fst tables, brew_to_p25 = snd tables,
         static_brew_groups = static_groups, dynamic_timeout_seconds = max 10 timeout,
         disconnect_talkgroup = disconnect\<rparr>,
       pcm_input = \<lparr>pi_address = po_address inp, pi_port = po_port inp, allowed_sources = {}\<rparr>,
       pcm_output = outp, pcm_additional_inputs = add_in, pcm_additional_outputs = add_out,
       sms_command_dir = (case map_of raw ''smsCommandDir'' of
           Some v \<Rightarrow> if truthy v then Some (resolve_path env (py_str (repr env) v)) else None
         | None \<Rightarrow> None),
       jitter_frames = max 2 jitter, rebuffer_frames = max 1 rebuffer,
       uplink_initial_frames = max 3 initial, uplink_inactivity_ms = max 250 inactivity,
       uplink_gain = up_gain, downlink_gain = down_gain,
       uplink_peak_limit = clamp 1000 32767 up_peak, downlink_peak_limit = clamp 1000 32767 down_peak,
       uplink_high_pass_hz = clamp 0 600 hp, uplink_presence_gain = clamp 0 (4 / 5) presence,
       uplink_high_cut_hz = clamp 0 3500 high_cut,
       uplink_de_esser_crossover_hz = clamp 1000 3500 crossover,
       uplink_de_esser_threshold = clamp 0 32767 threshold,
       uplink_de_esser_strength = clamp 0 (9 / 10) strength,
       subscriber_refresh_seconds = max 60 refresh,
       user_agent = py_str (repr env) (dget raw ''userAgent'' (PStr ''quantarbridge-brew-audio/1''))\<rparr>)))))))))))))))))))))))))))))))
      | _ \<Rightarrow> Inl (ValueError ''BREW audio config must be a JSON object''))"

section \<open>What an accepted mapping table satisfies\<close>

definition tables_ok :: "mapping_tables \<Rightarrow> bool" where
  "tables_ok = (\<lambda>(p2b, b2p). dict_ok p2b \<and> dict_ok b2p \<and>
     (\<forall>p b. map_of p2b p = Some b \<longleftrightarrow> map_of b2p b = Some p) \<and>
     (\<forall>p b. map_of p2b p = Some b \<longrightarrow> in_24bit p \<and> in_24bit b))"

definition routing_ok :: "routing_cfg \<Rightarrow> bool" where
  "routing_ok cfg \<longleftrightarrow> tables_ok (p25_to_brew cfg, brew_to_p25 cfg) \<and>
     finite (static_brew_groups cfg) \<and> (\<forall>g \<in> static_brew_groups cfg. in_24bit g) \<and>
     10 \<le> dynamic_timeout_seconds cfg \<and> in_24bit (disconnect_talkgroup cfg)"

lemma tables_ok_empty [simp]: "tables_ok ([], [])"
  by (simp add: tables_ok_def)

lemma add_mapping_Inr:
  assumes "add_mapping m1 m2 item t = Inr t'"
  obtains p b where "in_24bit p" "in_24bit b" "map_of (fst t) p = None" "map_of (snd t) b = None"
    "t' = (AList.update p b (fst t), AList.update b p (snd t))"
  using assms by (cases t) (auto simp: add_mapping_def bindE_eq_Inr split: if_splits)

lemma add_mapping_ok:
  assumes "add_mapping m1 m2 item t = Inr t'" "tables_ok t"
  shows "tables_ok t'"
proof -
  obtain p2b b2p where t: "t = (p2b, b2p)" by (cases t)
  obtain p b where pb: "in_24bit p" "in_24bit b" "map_of p2b p = None" "map_of b2p b = None"
    and t': "t' = (AList.update p b p2b, AList.update b p b2p)"
    using add_mapping_Inr [OF assms(1)] t by (metis fst_conv snd_conv)
  have inv: "map_of p2b x = Some y \<longleftrightarrow> map_of b2p y = Some x" for x y
    using assms(2) t by (simp add: tables_ok_def)
  have "((map_of p2b)(p \<mapsto> b)) x = Some y \<longleftrightarrow> ((map_of b2p)(b \<mapsto> p)) y = Some x" for x y
    using inv [of x y] inv [of p y] inv [of x b] pb by auto
  then show ?thesis using assms(2) pb by (auto simp: tables_ok_def t t' split: if_splits)
qed

lemma load_mapping_ok: "load_mapping item t = Inr t' \<Longrightarrow> tables_ok t \<Longrightarrow> tables_ok t'"
  by (auto simp: load_mapping_def split: if_splits intro: add_mapping_ok)

lemma fold_mappings_ok:
  "foldE load_mapping items ([], []) = Inr t \<Longrightarrow> tables_ok t"
  "foldE reload_mapping items ([], []) = Inr t \<Longrightarrow> tables_ok t"
  by (erule foldE_invariant, simp, erule (1) load_mapping_ok)
    (erule foldE_invariant, simp, simp add: reload_mapping_def, erule (1) add_mapping_ok)

lemma int_set_finite: "int_set v = Inr s \<Longrightarrow> finite s"
  by (auto simp: int_set_def bindE_eq_Inr)

lemma parse_routing_ok: "parse_routing doc = Inr cfg \<Longrightarrow> routing_ok cfg"
  by (auto simp: parse_routing_def bindE_eq_Inr Let_def routing_ok_def split: if_splits prod.splits
      dest: fold_mappings_ok int_set_finite)

lemma load_sections_Inr:
  "load_mappings raw routing = Inr t \<Longrightarrow> tables_ok t"
  "load_static_groups raw routing = Inr s \<Longrightarrow> finite s \<and> (\<forall>g \<in> s. in_24bit g)"
  "load_local_issis raw = Inr is \<Longrightarrow> sorted is \<and> distinct is \<and> (\<forall>i \<in> set is. in_24bit i)"
  "load_disconnect raw routing = Inr d \<Longrightarrow> in_24bit d"
  by (auto simp: load_mappings_def load_static_groups_def load_local_issis_def load_disconnect_def
      bindE_eq_Inr split: if_splits dest: fold_mappings_ok int_set_finite)

lemma audio_config_load_InrE:
  assumes "audio_config_load env path doc = Inr cfg"
  obtains raw document routing tables static_groups issis disconnect timeout jitter rebuffer initial
    inactivity up_peak down_peak hp presence high_cut crossover threshold strength refresh v
  where "doc = PDict raw" "read_yaml env (quantarbridge_config cfg) = Inr document"
    "routing_section document = Inr routing"
    "load_mappings raw routing = Inr tables" "load_static_groups raw routing = Inr static_groups"
    "load_local_issis raw = Inr issis" "load_disconnect raw routing = Inr disconnect"
    "py_get routing ''dynamicTimeoutSeconds'' (dget raw ''dynamicTimeoutSeconds'' (PInt 600)) = Inr v"
    "py_int v = Inr timeout"
    "config_local_issis cfg = issis"
    "ac_routing cfg = \<lparr>p25_to_brew = fst tables, brew_to_p25 = snd tables,
         static_brew_groups = static_groups, dynamic_timeout_seconds = max 10 timeout,
         disconnect_talkgroup = disconnect\<rparr>"
    "jitter_frames cfg = max 2 jitter" "rebuffer_frames cfg = max 1 rebuffer"
    "uplink_initial_frames cfg = max 3 initial" "uplink_inactivity_ms cfg = max 250 inactivity"
    "uplink_peak_limit cfg = clamp 1000 32767 up_peak"
    "downlink_peak_limit cfg = clamp 1000 32767 down_peak"
    "uplink_high_pass_hz cfg = clamp 0 600 hp" "uplink_presence_gain cfg = clamp 0 (4 / 5) presence"
    "uplink_high_cut_hz cfg = clamp 0 3500 high_cut"
    "uplink_de_esser_crossover_hz cfg = clamp 1000 3500 crossover"
    "uplink_de_esser_threshold cfg = clamp 0 32767 threshold"
    "uplink_de_esser_strength cfg = clamp 0 (9 / 10) strength"
    "subscriber_refresh_seconds cfg = max 60 refresh"
proof -
  obtain raw where raw: "doc = PDict raw"
    using assms by (cases doc) (auto simp: audio_config_load_def)
  show ?thesis
    using assms unfolding raw audio_config_load_def Let_def pyval.case
    apply (elim bindE_InrE)
    apply (drule Inr_inject)
    apply (rule that [OF raw])
    by (assumption | (hypsubst, simp (no_asm) only: audio_config.select_convs; fail)
        | (hypsubst, simp (no_asm) only: audio_config.select_convs, (assumption | rule refl)))+
qed

text \<open>Every configuration the audio worker accepts has mapping tables that are inverse to
  each other, all talkgroups and radio ids in the 24 bit range, a dynamic timeout of at least ten
  seconds, and audio parameters inside the ranges the filters, the jitter buffer and the limiter
  need.\<close>

theorem audio_config_load_ok:
  assumes "audio_config_load env path doc = Inr cfg"
  shows "routing_ok (ac_routing cfg) \<and>
    sorted (config_local_issis cfg) \<and> distinct (config_local_issis cfg) \<and>
    list_all in_24bit (config_local_issis cfg) \<and>
    2 \<le> jitter_frames cfg \<and> 1 \<le> rebuffer_frames cfg \<and> 3 \<le> uplink_initial_frames cfg \<and>
    250 \<le> uplink_inactivity_ms cfg \<and>
    uplink_peak_limit cfg \<in> {1000..32767} \<and> downlink_peak_limit cfg \<in> {1000..32767} \<and>
    uplink_high_pass_hz cfg \<in> {0..600} \<and> uplink_presence_gain cfg \<in> {0..4/5} \<and>
    uplink_high_cut_hz cfg \<in> {0..3500} \<and> uplink_de_esser_crossover_hz cfg \<in> {1000..3500} \<and>
    uplink_de_esser_threshold cfg \<in> {0..32767} \<and> uplink_de_esser_strength cfg \<in> {0..9/10} \<and>
    60 \<le> subscriber_refresh_seconds cfg"
proof -
  have c: "clamp 0 (4 / 5) x * 5 \<le> 4" "clamp 0 (9 / 10) x * 10 \<le> 9" for x :: real
    by (simp_all add: clamp_def)
  show ?thesis
    by (rule audio_config_load_InrE [OF assms])
      (simp add: routing_ok_def load_sections_Inr list_all_iff c)
qed

text \<open>C40: the two parsers of the routing section agree: when the JSON file carries no routing keys
  of its own, a reload of the YAML document the worker started with yields the routing the worker
  started with, although the start goes through \<^verbatim>\<open>AudioConfig.load\<close> and the reload through its own code.\<close>

theorem reload_agrees_with_load:
  assumes "audio_config_load env path (PDict raw) = Inr cfg"
    and "read_yaml env (quantarbridge_config cfg) = Inr doc"
    and "map_of raw ''talkgroupMappings'' = None" "map_of raw ''staticTalkgroups'' = None"
      "map_of raw ''dynamicTimeoutSeconds'' = None" "map_of raw ''disconnectTalkgroup'' = None"
  shows "parse_routing doc = Inr (ac_routing cfg)"
proof -
  have step: "load_mapping i t = Inr t' \<Longrightarrow> reload_mapping i t = Inr t'" for i t t'
    by (cases t) (auto simp: load_mapping_def reload_mapping_def add_mapping_def bindE_eq_Inr
        split: if_splits)
  have loop: "foldE load_mapping items t = Inr t' \<Longrightarrow> foldE reload_mapping items t = Inr t'"
    for items t t'
    by (induction items arbitrary: t) (auto simp: bindE_eq_Inr dest: step)
  have absent: "dget raw ''talkgroupMappings'' v = v" "dget raw ''staticTalkgroups'' v = v"
    "dget raw ''dynamicTimeoutSeconds'' v = v" "dget raw ''disconnectTalkgroup'' v = v" for v
    using assms(3-6) by (simp_all add: dget_def)
  from assms(1) show ?thesis
  proof (rule audio_config_load_InrE)
    fix raw' document routing tables S d timeout v
    assume "PDict raw = PDict raw'"
      and rd: "read_yaml env (quantarbridge_config cfg) = Inr document"
      and sec: "routing_section document = Inr routing"
      and maps: "load_mappings raw' routing = Inr tables"
      and stat: "load_static_groups raw' routing = Inr S"
      and dis: "load_disconnect raw' routing = Inr d"
      and tmo: "py_get routing ''dynamicTimeoutSeconds''
        (dget raw' ''dynamicTimeoutSeconds'' (PInt 600)) = Inr v" "py_int v = Inr timeout"
      and cfg: "ac_routing cfg = \<lparr>p25_to_brew = fst tables, brew_to_p25 = snd tables,
         static_brew_groups = S, dynamic_timeout_seconds = max 10 timeout, disconnect_talkgroup = d\<rparr>"
    then have raw: "raw' = raw" and doc: "document = doc" using assms(2) by simp_all
    obtain sec' where s1: "py_get (py_or doc (PDict [])) ''routing'' (PDict []) = Inr sec'"
      and s2: "routing = py_or sec' (PDict [])"
      using sec unfolding doc by (auto simp: routing_section_def bindE_eq_Inr)
    obtain items where m1: "bindE (py_get routing ''talkgroupMappings'' (PList [])) py_iter = Inr items"
      and m2: "foldE reload_mapping items ([], []) = Inr tables"
      using maps unfolding raw load_mappings_def absent by (elim bindE_InrE) (auto dest: loop)
    have g: "bindE (py_get routing ''staticTalkgroups'' (PList [])) int_set = Inr S"
      "\<not> (\<exists>g \<in> S. \<not> in_24bit g)"
      using stat unfolding raw load_static_groups_def absent
      by (elim bindE_InrE; simp split: if_splits)+
    have di: "bindE (py_get routing ''disconnectTalkgroup'' (PInt 4000)) py_int = Inr d" "in_24bit d"
      using dis unfolding raw load_disconnect_def absent
      by (elim bindE_InrE; simp split: if_splits)+
    have ti: "bindE (py_get routing ''dynamicTimeoutSeconds'' (PInt 600)) py_int = Inr timeout"
      using tmo unfolding raw absent by simp
    show ?thesis
      unfolding parse_routing_def Let_def s1 bindE_simps s2 [symmetric] m1 m2 g(1) di(1) ti cfg
      using g(2) di(2) by (simp add: case_prod_unfold)
  qed
qed

definition mapping_item :: "int \<times> int \<Rightarrow> pyval" where
  "mapping_item = (\<lambda>(p, b). PDict [(''p25'', PInt p), (''brew'', PInt b)])"

definition pairs_ok :: "(int \<times> int) list \<Rightarrow> bool" where
  "pairs_ok ps \<longleftrightarrow> list_all (\<lambda>(p, b). in_24bit p \<and> in_24bit b) ps \<and>
     distinct (map fst ps) \<and> distinct (map snd ps)"

lemma mapping_loop_from:
  "pairs_ok qs \<Longrightarrow>
   (if pairs_ok (qs @ ps)
    then foldE load_mapping (map mapping_item ps) (qs, map prod.swap qs) =
      Inr (qs @ ps, map prod.swap (qs @ ps))
    else \<exists>m. foldE load_mapping (map mapping_item ps) (qs, map prod.swap qs) = Inl (ValueError m))"
proof (induction ps arbitrary: qs)
  case Nil
  then show ?case by simp
next
  case (Cons x ps)
  obtain p b where x: "x = (p, b)" by (cases x)
  have k: "map_of qs p = None \<longleftrightarrow> p \<notin> fst ` set qs"
    "map_of (map prod.swap qs) b = None \<longleftrightarrow> b \<notin> snd ` set qs"
    by (auto simp: map_of_None_iff image_iff)
  show ?case
  proof (cases "pairs_ok (qs @ [(p, b)])")
    case True
    then have n: "p \<notin> fst ` set qs" "b \<notin> snd ` set qs" "in_24bit p" "in_24bit b"
      by (auto simp: pairs_ok_def)
    then have "b \<notin> fst ` set (map prod.swap qs)" by (auto simp: image_iff)
    then have "load_mapping (mapping_item x) (qs, map prod.swap qs) =
        Inr (qs @ [(p, b)], map prod.swap (qs @ [(p, b)]))"
      using n k by (simp add: load_mapping_def add_mapping_def mapping_item_def x update_new)
    then show ?thesis using Cons.IH [OF True] by (simp add: x split: if_split_asm)
  next
    case False
    then have "\<exists>m. load_mapping (mapping_item x) (qs, map prod.swap qs) = Inl (ValueError m)"
      using Cons.prems k
      by (auto simp: load_mapping_def add_mapping_def mapping_item_def x pairs_ok_def)
    moreover have "\<not> pairs_ok (qs @ x # ps)" using False by (auto simp: pairs_ok_def x)
    ultimately show ?thesis by auto
  qed
qed

text \<open>The mapping loop accepts a list of pairs exactly when all numbers are in range and no
  P25 and no BREW number occurs twice, and then builds the tables of these pairs in order.\<close>

theorem mapping_loop_exact:
  "if list_all (\<lambda>(p, b). in_24bit p \<and> in_24bit b) ps \<and> distinct (map fst ps) \<and> distinct (map snd ps)
   then foldE load_mapping (map mapping_item ps) ([], []) = Inr (ps, map prod.swap ps)
   else \<exists>m. foldE load_mapping (map mapping_item ps) ([], []) = Inl (ValueError m)"
  using mapping_loop_from [of "[]" ps] unfolding pairs_ok_def
  by (simp cong: if_cong split del: if_split)

text \<open>Audio for a talkgroup of the P25 side and the answer from the BREW side: the group the
  uplink of a talkgroup is sent to is played back on that talkgroup, except when the talkgroup has
  no mapping and its number is the BREW side of the mapping of another talkgroup.\<close>

theorem uplink_group_plays_back:
  assumes "parse_routing doc = Inr (rt_config r)"
    and "brew_for_p25 r tg = Some b" "is_active r b"
  shows "p25_for_brew r b = Some tg \<longleftrightarrow>
    map_of (p25_to_brew (rt_config r)) tg \<noteq> None \<or> map_of (brew_to_p25 (rt_config r)) tg = None"
proof -
  have inv: "map_of (p25_to_brew (rt_config r)) x = Some y \<longleftrightarrow>
      map_of (brew_to_p25 (rt_config r)) y = Some x" for x y
    using parse_routing_ok [OF assms(1)] by (simp add: routing_ok_def tables_ok_def)
  show ?thesis
  proof (cases "map_of (p25_to_brew (rt_config r)) tg")
    case None
    then have b: "b = tg" using assms(2) by (auto simp: brew_for_p25_def split: if_splits)
    have "map_of (brew_to_p25 (rt_config r)) tg \<noteq> Some tg" using inv [of tg tg] None by simp
    then show ?thesis using assms(3) None by (auto simp: p25_for_brew_def b split: option.splits)
  next
    case (Some y)
    then have "b = y" using assms(2) by (auto simp: brew_for_p25_def split: if_splits)
    then show ?thesis using assms(3) Some inv [of tg y] by (simp add: p25_for_brew_def)
  qed
qed

theorem uplink_group_plays_back_witness:
  "let cfg = \<lparr>p25_to_brew = [(9, 26)], brew_to_p25 = [(26, 9)], static_brew_groups = {26},
         dynamic_timeout_seconds = 600, disconnect_talkgroup = 4000\<rparr>
   in p25_for_brew (router_init cfg) 26 = Some 9 \<and> p25_for_brew (router_init cfg) 26 \<noteq> Some 26"
proof -
  let ?doc = "PDict [(''routing'', PDict [(''talkgroupMappings'', PList [mapping_item (9, 26)]),
      (''staticTalkgroups'', PList [PInt 26])])]"
  let ?cfg = "\<lparr>p25_to_brew = [(9, 26)], brew_to_p25 = [(26, 9)], static_brew_groups = {26},
         dynamic_timeout_seconds = 600, disconnect_talkgroup = 4000\<rparr>"
  have p: "parse_routing ?doc = Inr (rt_config (router_init ?cfg))"
    by (simp add: parse_routing_def py_or_def Let_def reload_mapping_def add_mapping_def
        mapping_item_def in_24bit_def int_set_def router_init_def)
  have act: "is_active (router_init ?cfg) 26"
    by (simp add: is_active_def is_static_def router_init_def)
  have "brew_for_p25 (router_init ?cfg) 9 = Some 26" "brew_for_p25 (router_init ?cfg) 26 = Some 26"
    by (simp_all add: brew_for_p25_def router_init_def)
  from uplink_group_plays_back [OF p this(1) act] uplink_group_plays_back [OF p this(2) act]
  show ?thesis by (simp add: Let_def router_init_def)
qed

definition example_env :: path_env where
  "example_env = \<lparr>resolve_path = (\<lambda>p. p), sibling = (\<lambda>base name. name),
     read_yaml = (\<lambda>_. Inr (PDict [(''routing'', PDict
        [(''talkgroupMappings'', PList [mapping_item (9, 26)]),
         (''staticTalkgroups'', PList [PInt 91]), (''dynamicTimeoutSeconds'', PInt 5)])])),
     repr = (\<lambda>_. [])\<rparr>"

definition example_raw :: "(string \<times> pyval) list" where
  "example_raw =
     [(''existingBrewConfig'', PStr ''brew.yml''), (''existingBrewModule'', PStr ''brew.py''),
      (''codecLibrary'', PStr ''codec.so''), (''statusFile'', PStr ''status.json''),
      (''logFile'', PStr ''log''), (''localIssis'', PList [PInt 7, PInt 3]),
      (''p25PcmInput'', PDict [(''port'', PInt 34001)]),
      (''p25PcmOutput'', PDict [(''port'', PInt 32001)]),
      (''jitterFrames'', PInt 1), (''uplinkPeakLimit'', PInt 40000)]"

lemma example_loads:
  "\<exists>cfg. audio_config_load example_env ''audio.json'' (PDict example_raw) = Inr cfg \<and>
     quantarbridge_config cfg = ''quantarbridge.yml'' \<and> jitter_frames cfg = 2"
proof -
  have raw: "map_of example_raw ''talkgroupMappings'' = None"
    "map_of example_raw ''staticTalkgroups'' = None"
    "map_of example_raw ''dynamicTimeoutSeconds'' = None"
    "map_of example_raw ''disconnectTalkgroup'' = None"
    by (simp_all add: example_raw_def)
  let ?routing = "PDict [(''talkgroupMappings'', PList [mapping_item (9, 26)]),
         (''staticTalkgroups'', PList [PInt 91]), (''dynamicTimeoutSeconds'', PInt 5)]"
  have parts: "read_yaml example_env x = Inr (PDict [(''routing'', ?routing)])"
    "routing_section (PDict [(''routing'', ?routing)]) = Inr ?routing"
    "load_mappings example_raw ?routing = Inr ([(9, 26)], [(26, 9)])"
    "load_static_groups example_raw ?routing = Inr {91}"
    "load_local_issis example_raw = Inr (sorted_list_of_set {7, 3})"
    "load_disconnect example_raw ?routing = Inr 4000"
    for x
    by (simp_all add: example_env_def routing_section_def py_or_def load_mappings_def raw dget_def
        load_mapping_def add_mapping_def mapping_item_def in_24bit_def load_static_groups_def
        int_set_def load_local_issis_def load_disconnect_def)
      (simp_all add: example_raw_def)
  have ends: "bindE (required example_raw ''p25PcmInput'') (output_endpoint f) =
      Inr \<lparr>po_address = ''127.0.0.1'', po_port = 34001\<rparr>"
    "bindE (required example_raw ''p25PcmOutput'') (output_endpoint f) =
      Inr \<lparr>po_address = ''127.0.0.1'', po_port = 32001\<rparr>" for f
    by (simp_all add: required_def example_raw_def output_endpoint_def)
  show ?thesis
    unfolding audio_config_load_def Let_def pyval.case parts ends bindE_simps
    by (simp add: raw dget_def required_def path_option_def int_option_def float_option_def
        output_endpoint_def)
      (simp add: example_raw_def example_env_def)
qed

theorem audio_config_load_ok_witness:
  "\<exists>cfg. audio_config_load example_env ''audio.json'' (PDict example_raw) = Inr cfg \<and>
     routing_ok (ac_routing cfg) \<and> uplink_peak_limit cfg \<le> 32767"
proof -
  obtain cfg where "audio_config_load example_env ''audio.json'' (PDict example_raw) = Inr cfg"
    using example_loads by blast
  from audio_config_load_ok [OF this] this show ?thesis by auto
qed

theorem reload_agrees_with_load_witness:
  "\<exists>cfg. audio_config_load example_env ''audio.json'' (PDict example_raw) = Inr cfg \<and>
     bindE (read_yaml example_env ''quantarbridge.yml'') parse_routing = Inr (ac_routing cfg)"
proof -
  obtain cfg where l: "audio_config_load example_env ''audio.json'' (PDict example_raw) = Inr cfg"
    and q: "quantarbridge_config cfg = ''quantarbridge.yml''"
    using example_loads by blast
  obtain doc where d: "read_yaml example_env (quantarbridge_config cfg) = Inr doc"
    by (simp add: example_env_def)
  have "map_of example_raw ''talkgroupMappings'' = None"
    "map_of example_raw ''staticTalkgroups'' = None"
    "map_of example_raw ''dynamicTimeoutSeconds'' = None"
    "map_of example_raw ''disconnectTalkgroup'' = None"
    by (simp_all add: example_raw_def)
  from reload_agrees_with_load [OF l d this] l d q show ?thesis by auto
qed

end
