(* ===== verification/Ars_Registry.thy ===== *)
theory Ars_Registry
  imports Py_Value
begin

text \<open>
  Which radios are local: \<^verbatim>\<open>apply_ars_log_line\<close>, \<^verbatim>\<open>discover_registered_issis\<close>,
  \<^verbatim>\<open>discover_affiliation_anchor\<close>, \<^verbatim>\<open>load_observed_issis\<close> and \<^verbatim>\<open>save_observed_issis\<close> of
  \<^verbatim>\<open>tetrapack_brew_audio.py\<close>. A log directory is the list of its matching files in the order
  of their names, each with its text, or \<open>None\<close> when it cannot be opened; an offset counts
  the characters of a text.
\<close>

section \<open>Log lines\<close>

definition ARS_REGISTRATION_RE :: "rx list" where
  "ARS_REGISTRATION_RE =
     [Lit ''recognized Motorola SCEP ARS registration, llId = '', Cap1 is_digit]"

definition ARS_REFRESH_RE :: "rx list" where
  "ARS_REFRESH_RE =
     [Alt False [''accepted'', ''recognized''], Lit '' Motorola ARS refresh'', DotStar,
      Lit ''llId = '', Cap1 is_digit]"

definition ARS_DISCONNECT_RE :: "rx list" where
  "ARS_DISCONNECT_RE =
     [Alt True [''DISCONNECT'', ''deregistration''], DotStar, Alt True [''llId = ''], Cap1 is_digit]"

definition ARS_SESSION_RESET_MARKER :: string where
  "ARS_SESSION_RESET_MARKER = ''Motorola LRRP Initial Delay:''"

text \<open>\<^verbatim>\<open>int(match.group(1))\<close>; every pattern has one group, of one or more digits.\<close>

definition group1 :: "string list \<Rightarrow> int" where
  "group1 captured = int (nat_of_digits (hd captured))"

definition registration_match :: "string \<Rightarrow> string list option" where
  "registration_match line =
     (case rsearch ARS_REGISTRATION_RE line of
        Some m \<Rightarrow> Some m | None \<Rightarrow> rsearch ARS_REFRESH_RE line)"

definition apply_ars_log_line :: "string \<Rightarrow> int set \<Rightarrow> (string \<times> int option) \<times> int set" where
  "apply_ars_log_line line issis =
     (if contains ARS_SESSION_RESET_MARKER line then ((''reset'', None), {})
      else let disconnect =
             (case rsearch ARS_DISCONNECT_RE line of
                Some m \<Rightarrow> ((''deregister'', Some (group1 m)), issis - {group1 m})
              | None \<Rightarrow> ((''none'', None), issis))
           in case registration_match line of
                Some m \<Rightarrow> if in_24bit (group1 m)
                          then ((''register'', Some (group1 m)), insert (group1 m) issis)
                          else disconnect
              | None \<Rightarrow> disconnect)"

text \<open>Iterating over a text stream: lines end at \<^verbatim>\<open>\n\<close>, \<^verbatim>\<open>\r\<close> or \<^verbatim>\<open>\r\n\<close>, each read as \<^verbatim>\<open>\n\<close>.\<close>

definition drop_lf :: "string \<Rightarrow> string" where
  "drop_lf s = (if s \<noteq> [] \<and> hd s = CHR 0x0A then tl s else s)"

lemma length_drop_lf [termination_simp]: "length (drop_lf s) < Suc (length s)"
  by (auto simp: drop_lf_def)

fun stream_lines :: "string \<Rightarrow> string \<Rightarrow> string list" where
  "stream_lines acc [] = (if acc = [] then [] else [acc])"
| "stream_lines acc (c # s) =
     (if c = CHR 0x0D then
        (acc @ [CHR 0x0A]) # stream_lines [] (drop_lf s)
      else if c = CHR 0x0A then (acc @ [c]) # stream_lines [] s
      else stream_lines (acc @ [c]) s)"

type_synonym log_file = "string \<times> string option"

definition apply_ars_lines :: "string list \<Rightarrow> int set \<Rightarrow> int set" where
  "apply_ars_lines ls issis = fold (\<lambda>line s. snd (apply_ars_log_line line s)) ls issis"

definition discover_registered_issis :: "log_file list \<Rightarrow> int set \<times> string option \<times> nat" where
  "discover_registered_issis files =
     (if files = [] then ({}, None, 0)
      else case last files of
        (name, None) \<Rightarrow> ({}, None, 0)
      | (name, Some text) \<Rightarrow>
          (apply_ars_lines (stream_lines [] text) {}, Some name, length text))"

definition anchor_line :: "string \<Rightarrow> int option \<Rightarrow> int option" where
  "anchor_line line latest =
     (case registration_match line of
        Some m \<Rightarrow> if in_24bit (group1 m) then Some (group1 m) else latest
      | None \<Rightarrow> latest)"

definition latest_anchor :: "string list \<Rightarrow> int option" where
  "latest_anchor ls = fold anchor_line ls None"

fun anchor_search :: "log_file list \<Rightarrow> int option" where
  "anchor_search [] = None"
| "anchor_search ((name, content) # files) =
     (case content of
        None \<Rightarrow> anchor_search files
      | Some text \<Rightarrow> (case latest_anchor (stream_lines [] text) of
            Some issi \<Rightarrow> Some issi | None \<Rightarrow> anchor_search files))"

definition discover_affiliation_anchor :: "log_file list \<Rightarrow> int option" where
  "discover_affiliation_anchor files = anchor_search (rev (drop (length files - 2) files))"

section \<open>The file of observed radios\<close>

definition add_observed :: "pyval \<Rightarrow> int set \<Rightarrow> int set" where
  "add_observed value result =
     (case py_int value of
        Inl e \<Rightarrow> result
      | Inr issi \<Rightarrow> if in_24bit issi then insert issi result else result)"

text \<open>\<open>None\<close> is the file that is missing, unreadable or not JSON.\<close>

definition load_observed_issis :: "pyval option \<Rightarrow> int set" where
  "load_observed_issis content =
     (case content of
        None \<Rightarrow> {}
      | Some raw \<Rightarrow>
          (case (case raw of PDict d \<Rightarrow> (case map_of d ''issis'' of None \<Rightarrow> PList [] | Some v \<Rightarrow> v)
                           | _ \<Rightarrow> raw) of
             PList values \<Rightarrow> fold add_observed values {}
           | _ \<Rightarrow> {}))"

definition save_observed_issis :: "int set \<Rightarrow> pyval" where
  "save_observed_issis issis = PDict [(''issis'', PList (map PInt (sorted_list_of_set issis)))]"

section \<open>Properties\<close>

definition ars_action :: "string \<Rightarrow> string \<times> int option" where
  "ars_action line = fst (apply_ars_log_line line {})"

lemma apply_action: "fst (apply_ars_log_line line s) = ars_action line"
  by (simp add: ars_action_def apply_ars_log_line_def Let_def split: option.splits)

fun ars_effect :: "string \<times> int option \<Rightarrow> int set \<Rightarrow> int set" where
  "ars_effect (a, None) s = (if a = ''reset'' then {} else s)"
| "ars_effect (a, Some i) s = (if a = ''register'' then insert i s else s - {i})"

lemma apply_effect: "snd (apply_ars_log_line line s) = ars_effect (ars_action line) s"
  by (simp add: ars_action_def apply_ars_log_line_def Let_def split: option.splits)

lemma ars_action_shape:
  "ars_action line = (''reset'', None) \<or> ars_action line = (''none'', None) \<or>
   (\<exists>i. in_24bit i \<and> ars_action line = (''register'', Some i)) \<or>
   (\<exists>i. ars_action line = (''deregister'', Some i))"
  by (simp add: ars_action_def apply_ars_log_line_def Let_def split: option.splits)

lemma apply_cases:
  obtains (reset) "ars_action line = (''reset'', None)" "\<And>s. snd (apply_ars_log_line line s) = {}"
  | (register) i where "ars_action line = (''register'', Some i)" "in_24bit i"
      "\<And>s. snd (apply_ars_log_line line s) = insert i s"
  | (deregister) i where "ars_action line = (''deregister'', Some i)"
      "\<And>s. snd (apply_ars_log_line line s) = s - {i}"
  | (none) "ars_action line = (''none'', None)" "\<And>s. snd (apply_ars_log_line line s) = s"
proof -
  note e = apply_effect [of line]
  from ars_action_shape [of line] show thesis
  proof (elim disjE exE conjE)
    assume "ars_action line = (''reset'', None)" with e show thesis by (intro reset) simp_all
  next
    assume "ars_action line = (''none'', None)" with e show thesis by (intro none) simp_all
  next
    fix i assume "in_24bit i" "ars_action line = (''register'', Some i)"
    with e show thesis by (intro register [of i]) simp_all
  next
    fix i assume "ars_action line = (''deregister'', Some i)"
    with e show thesis by (intro deregister [of i]) simp_all
  qed
qed

text \<open>After a log has been read, the local radios are those whose last registration or refresh
  is followed by neither a deregistration of that radio nor a session reset of the host; all of
  them are valid 24 bit addresses.\<close>

theorem registered_after_log:
  "i \<in> apply_ars_lines ls {} \<longleftrightarrow>
    (\<exists>before line later. ls = before @ line # later \<and> ars_action line = (''register'', Some i) \<and>
       (''reset'', None) \<notin> ars_action ` set later \<and> (''deregister'', Some i) \<notin> ars_action ` set later)"
proof (induction ls rule: rev_induct)
  case Nil
  then show ?case by (simp add: apply_ars_lines_def)
next
  case (snoc l ls)
  let ?P = "\<lambda>ls. \<exists>before line later. ls = before @ line # later \<and>
       ars_action line = (''register'', Some i) \<and>
       (''reset'', None) \<notin> ars_action ` set later \<and> (''deregister'', Some i) \<notin> ars_action ` set later"
  have step: "apply_ars_lines (ls @ [l]) {} = snd (apply_ars_log_line l (apply_ars_lines ls {}))"
    by (simp add: apply_ars_lines_def)
  have split: "?P (ls @ [l]) \<longleftrightarrow> ars_action l = (''register'', Some i) \<or>
      (ars_action l \<noteq> (''reset'', None) \<and> ars_action l \<noteq> (''deregister'', Some i) \<and> ?P ls)"
  proof
    assume "?P (ls @ [l])"
    then obtain b x a where d: "ls @ [l] = b @ x # a" "ars_action x = (''register'', Some i)"
        "(''reset'', None) \<notin> ars_action ` set a" "(''deregister'', Some i) \<notin> ars_action ` set a"
      by blast
    show "ars_action l = (''register'', Some i) \<or>
      (ars_action l \<noteq> (''reset'', None) \<and> ars_action l \<noteq> (''deregister'', Some i) \<and> ?P ls)"
    proof (cases a rule: rev_cases)
      case Nil
      then show ?thesis using d by simp
    next
      case (snoc a' z)
      then have "ls = b @ x # a'" "z = l" using d(1) by auto
      then show ?thesis using d snoc by (auto simp: image_iff)
    qed
  next
    assume "ars_action l = (''register'', Some i) \<or>
      (ars_action l \<noteq> (''reset'', None) \<and> ars_action l \<noteq> (''deregister'', Some i) \<and> ?P ls)"
    then show "?P (ls @ [l])"
    proof
      assume "ars_action l = (''register'', Some i)"
      then show ?thesis by (intro exI [of _ ls] exI [of _ l] exI [of _ "[]"]) simp
    next
      assume a: "ars_action l \<noteq> (''reset'', None) \<and> ars_action l \<noteq> (''deregister'', Some i) \<and> ?P ls"
      then obtain b x r where "ls = b @ x # r" "ars_action x = (''register'', Some i)"
        "(''reset'', None) \<notin> ars_action ` set r" "(''deregister'', Some i) \<notin> ars_action ` set r"
        by blast
      then show ?thesis using a
        by (intro exI [of _ b] exI [of _ x] exI [of _ "r @ [l]"]) (auto simp: image_iff)
    qed
  qed
  show ?case
    unfolding step split using snoc.IH by (cases l rule: apply_cases) auto
qed

lemma valid_ids_apply_lines: "valid_ids s \<Longrightarrow> valid_ids (apply_ars_lines ls s)"
proof (induction ls arbitrary: s)
  case Nil
  then show ?case by (simp add: apply_ars_lines_def)
next
  case (Cons l ls)
  have "valid_ids (snd (apply_ars_log_line l s))"
    using Cons.prems by (cases l rule: apply_cases) auto
  then show ?case using Cons.IH by (simp add: apply_ars_lines_def)
qed

lemma valid_ids_discover [wf_intros]: "valid_ids (fst (discover_registered_issis files))"
  by (auto simp: discover_registered_issis_def valid_ids_apply_lines split: prod.splits option.splits)

lemma valid_ids_load [wf_intros]: "valid_ids (load_observed_issis c)"
proof -
  have "valid_ids s \<Longrightarrow> valid_ids (fold add_observed vs s)" for vs s
    by (induction vs arbitrary: s) (simp_all add: add_observed_def split: sum.splits)
  then show ?thesis
    by (simp add: load_observed_issis_def split: option.splits pyval.splits)
qed

lemma latest_anchor_range: "latest_anchor ls = Some i \<Longrightarrow> in_24bit i"
proof -
  have step: "pred_option in_24bit a \<Longrightarrow> pred_option in_24bit (anchor_line l a)" for l a
    by (simp add: anchor_line_def split: option.splits)
  have "pred_option in_24bit a \<Longrightarrow> pred_option in_24bit (fold anchor_line ls a)" for a
    by (induction ls arbitrary: a) (simp_all add: step)
  from this [of None] show "latest_anchor ls = Some i \<Longrightarrow> in_24bit i"
    by (simp add: latest_anchor_def)
qed

lemma discover_anchor_range [wf_intros]:
  assumes "discover_affiliation_anchor files = Some i"
  shows "in_24bit i"
proof -
  have "anchor_search fs = Some i \<Longrightarrow> in_24bit i" for fs
    by (induction fs rule: anchor_search.induct) (auto split: option.splits dest: latest_anchor_range)
  then show ?thesis using assms by (simp add: discover_affiliation_anchor_def)
qed

lemma fold_add_observed_PInt:
  "list_all in_24bit is \<Longrightarrow> fold add_observed (map PInt is) s = set is \<union> s"
  by (induction "is" arbitrary: s) (simp_all add: add_observed_def)

text \<open>The radios written to the file of observed radios are the radios read back from it.\<close>

theorem observed_issis_round_trip:
  assumes "valid_ids issis"
  shows "load_observed_issis (Some (save_observed_issis issis)) = issis"
proof -
  have f: "finite issis" and "list_all in_24bit (sorted_list_of_set issis)"
    using assms by (simp_all add: valid_ids_def list_all_iff)
  then have "fold add_observed (map PInt (sorted_list_of_set issis)) {} = issis"
    by (simp add: fold_add_observed_PInt)
  then show ?thesis by (simp add: load_observed_issis_def save_observed_issis_def)
qed

theorem observed_issis_round_trip_witness:
  "load_observed_issis (Some (save_observed_issis {7, 16777215})) = {7, 16777215}"
  by (rule observed_issis_round_trip) (simp add: in_24bit_def)

end
