(* ===== verification/Brew_Transport.thy ===== *)
theory Brew_Transport
  imports Brew_Wire Py_Value
begin

text \<open>
  Effects: the status dictionary of \<^verbatim>\<open>AtomicStatus\<close>, the connection of \<^verbatim>\<open>BrewTransport\<close>
  and the two small state files. The record \<open>io\<close> is what all handlers of the audio worker
  share. The network is the oracle \<open>net\<close>: the \<open>n\<close>-th \<^verbatim>\<open>send_binary\<close> either delivers its
  message (\<open>None\<close>) or raises the named exception; \<open>sent\<close> is the history of what was
  delivered. An action is a state transformer that may raise, and keeps the changes made
  before it raised.
\<close>

section \<open>Actions\<close>

type_synonym ('s, 'a) act = "'s \<Rightarrow> (py_error + 'a) \<times> 's"

abbreviation liftE :: "py_error + 'a \<Rightarrow> ('s, 'a) act" where "liftE r \<equiv> Pair r"
abbreviation ret :: "'a \<Rightarrow> ('s, 'a) act" where "ret x \<equiv> liftE (Inr x)"
abbreviation raiseA :: "py_error \<Rightarrow> ('s, 'a) act" where "raiseA e \<equiv> liftE (Inl e)"
definition upd :: "('s \<Rightarrow> 's) \<Rightarrow> ('s, unit) act" where "upd f = (\<lambda>s. (Inr (), f s))"
definition call :: "('s \<Rightarrow> 'a \<times> 's) \<Rightarrow> ('s, 'a) act" where
  "call f = (\<lambda>s. case f s of (x, s') \<Rightarrow> (Inr x, s'))"

definition bindA :: "('s, 'a) act \<Rightarrow> ('a \<Rightarrow> ('s, 'b) act) \<Rightarrow> ('s, 'b) act" where
  "bindA m f = (\<lambda>s. case m s of (Inl e, s') \<Rightarrow> (Inl e, s') | (Inr x, s') \<Rightarrow> f x s')"

definition thenA :: "('s, 'a) act \<Rightarrow> ('s, 'b) act \<Rightarrow> ('s, 'b) act" where
  "thenA m n = bindA m (\<lambda>_. n)"

definition readA :: "('s \<Rightarrow> ('s, 'a) act) \<Rightarrow> ('s, 'a) act" where "readA f = (\<lambda>s. f s s)"

definition catchA :: "(py_error \<Rightarrow> bool) \<Rightarrow> ('s, 'a) act \<Rightarrow> (py_error \<Rightarrow> ('s, 'a) act) \<Rightarrow> ('s, 'a) act" where
  "catchA p m h = (\<lambda>s. case m s of (Inl e, s') \<Rightarrow> if p e then h e s' else (Inl e, s') | r \<Rightarrow> r)"

text \<open>A \<^verbatim>\<open>for\<close> loop with an accumulator.\<close>

primrec forA :: "'x list \<Rightarrow> ('x \<Rightarrow> 'a \<Rightarrow> ('s, 'a) act) \<Rightarrow> 'a \<Rightarrow> ('s, 'a) act" where
  "forA [] body a = ret a"
| "forA (x # xs) body a = bindA (body x a) (forA xs body)"

lemma forA_append: "forA (xs @ ys) body a = bindA (forA xs body a) (forA ys body)"
  by (induction xs arbitrary: a) (simp_all add: bindA_def fun_eq_iff split: prod.splits sum.splits)

lemma act_simps [simp]: "upd f s = (Inr (), f s)" "readA g s = g s s"
  by (simp_all add: upd_def readA_def)

lemma bindA_lift [simp]: "bindA (ret x) f = f x" "bindA (raiseA e) f = raiseA e"
  by (simp_all add: bindA_def)

lemma thenA_lift [simp]: "thenA (ret x) m = m" "thenA (raiseA e) m = raiseA e"
  by (simp_all add: thenA_def)

lemma call_apply [simp]: "call f s = (Inr (fst (f s)), snd (f s))"
  by (simp add: call_def case_prod_unfold)

lemma bindA_Inr [simp]: "m s = (Inr x, s') \<Longrightarrow> bindA m f s = f x s'"
  by (simp add: bindA_def)

lemma bindA_Inl [simp]: "m s = (Inl e, s') \<Longrightarrow> bindA m f s = (Inl e, s')"
  by (simp add: bindA_def)

lemma thenA_Inr [simp]: "m s = (Inr x, s') \<Longrightarrow> thenA m n s = n s'"
  by (simp add: thenA_def)

lemma thenA_Inl [simp]: "m s = (Inl e, s') \<Longrightarrow> thenA m n s = (Inl e, s')"
  by (simp add: thenA_def)

text \<open>Partial correctness with the state an exception leaves behind: \<open>keeps P m\<close> is
  preservation. Total correctness: \<open>does P R m\<close> says that from a state with \<open>P\<close> the action
  returns (raises nothing), ends in a state with \<open>P\<close> again, and that \<open>R\<close> relates the two
  states. With a preorder \<open>R\<close> the rules compose without side conditions.\<close>

definition keeps :: "('s \<Rightarrow> bool) \<Rightarrow> ('s, 'a) act \<Rightarrow> bool" where
  "keeps P m \<longleftrightarrow> (\<forall>s. P s \<longrightarrow> P (snd (m s)))"

definition does :: "('s \<Rightarrow> bool) \<Rightarrow> ('s \<Rightarrow> 's \<Rightarrow> bool) \<Rightarrow> ('s, 'a) act \<Rightarrow> bool" where
  "does P R m \<longleftrightarrow> (\<forall>s. P s \<longrightarrow> (\<exists>x s'. m s = (Inr x, s') \<and> P s' \<and> R s s'))"

named_theorems act_rules \<open>rules of the preservation calculus\<close>

lemma keepsD: "keeps P m \<Longrightarrow> P s \<Longrightarrow> P (snd (m s))"
  by (simp add: keeps_def)

lemma keeps_lift [act_rules]: "keeps P (liftE r)"
  by (simp add: keeps_def)

lemma keeps_upd [act_rules]: "(\<And>s. P s \<Longrightarrow> P (f s)) \<Longrightarrow> keeps P (upd f)"
  by (simp add: keeps_def)

lemma keeps_call [act_rules]: "(\<And>s. P s \<Longrightarrow> P (snd (f s))) \<Longrightarrow> keeps P (call f)"
  by (simp add: keeps_def)

lemma keeps_bind [act_rules]: "keeps P m \<Longrightarrow> (\<And>x. keeps P (f x)) \<Longrightarrow> keeps P (bindA m f)"
  by (fastforce simp: keeps_def bindA_def split: prod.splits sum.splits)

lemma keeps_then [act_rules]: "keeps P m \<Longrightarrow> keeps P n \<Longrightarrow> keeps P (thenA m n)"
  by (simp add: thenA_def keeps_bind)

lemma keeps_read: "(\<And>s. P s \<Longrightarrow> P (snd (f s s))) \<Longrightarrow> keeps P (readA f)"
  by (simp add: keeps_def)

lemma keeps_read_all [act_rules]: "(\<And>s. keeps P (f s)) \<Longrightarrow> keeps P (readA f)"
  by (simp add: keeps_def)

lemma keeps_if [act_rules]: "(b \<Longrightarrow> keeps P m) \<Longrightarrow> (\<not> b \<Longrightarrow> keeps P n) \<Longrightarrow> keeps P (if b then m else n)"
  by simp

lemma keeps_option [act_rules]:
  "(x = None \<Longrightarrow> keeps P m) \<Longrightarrow> (\<And>y. x = Some y \<Longrightarrow> keeps P (f y)) \<Longrightarrow>
   keeps P (case x of None \<Rightarrow> m | Some y \<Rightarrow> f y)"
  by (cases x) auto

lemma keeps_for [act_rules]: "(\<And>x a. keeps P (body x a)) \<Longrightarrow> keeps P (forA xs body a)"
  by (induction xs arbitrary: a) (auto intro: act_rules)

lemma keeps_for_in: "(\<And>x a. x \<in> set xs \<Longrightarrow> keeps P (body x a)) \<Longrightarrow> keeps P (forA xs body a)"
proof (induction xs arbitrary: a)
  case (Cons x xs)
  then show ?case by (auto intro!: keeps_bind)
qed (simp add: keeps_def)

lemma keeps_catch [act_rules]: "keeps P m \<Longrightarrow> (\<And>e. keeps P (h e)) \<Longrightarrow> keeps P (catchA p m h)"
  by (fastforce simp: keeps_def catchA_def split: prod.splits sum.splits)

text \<open>Two more rules, which a component adds to the collection where its actions need them.\<close>

lemma keeps_sum:
  "(\<And>e. keeps P (f e)) \<Longrightarrow> (\<And>x. keeps P (g x)) \<Longrightarrow> keeps P (case r of Inl e \<Rightarrow> f e | Inr x \<Rightarrow> g x)"
  by (cases r) simp_all

lemma keeps_case_prod: "(\<And>a b. keeps P (f a b)) \<Longrightarrow> keeps P (case r of (a, b) \<Rightarrow> f a b)"
  by (cases r) simp

lemma doesE:
  assumes "does P R m" "P s"
  obtains x s' where "m s = (Inr x, s')" "P s'" "R s s'"
  using assms by (auto simp: does_def)

named_theorems does_rules \<open>rules of the total calculus\<close>

lemma does_ret [does_rules]: "reflp R \<Longrightarrow> does P R (ret x)"
  by (auto simp: does_def reflp_def)

lemma does_upd [does_rules]: "(\<And>s. P s \<Longrightarrow> P (f s) \<and> R s (f s)) \<Longrightarrow> does P R (upd f)"
  by (simp add: does_def)

lemma does_call [does_rules]: "(\<And>s. P s \<Longrightarrow> P (snd (f s)) \<and> R s (snd (f s))) \<Longrightarrow> does P R (call f)"
  by (simp add: does_def)

lemma does_bind [does_rules]:
  assumes "transp R" "does P R m" "\<And>x. does P R (f x)"
  shows "does P R (bindA m f)"
  unfolding does_def
proof (intro allI impI)
  fix s assume "P s"
  then obtain x s' where 1: "m s = (Inr x, s')" "P s'" "R s s'" by (rule doesE [OF assms(2)])
  obtain y s'' where 2: "f x s' = (Inr y, s'')" "P s''" "R s' s''" using 1(2) by (rule doesE [OF assms(3)])
  have "R s s''" using assms(1) 1(3) 2(3) by (rule transpE)
  then show "\<exists>x s'. bindA m f s = (Inr x, s') \<and> P s' \<and> R s s'" using 1 2 by simp
qed

lemma does_then [does_rules]: "transp R \<Longrightarrow> does P R m \<Longrightarrow> does P R n \<Longrightarrow> does P R (thenA m n)"
  by (simp add: thenA_def does_bind)

lemma does_read [does_rules]: "(\<And>s. P s \<Longrightarrow> does P R (f s)) \<Longrightarrow> does P R (readA f)"
  by (simp add: does_def)

lemma does_if [does_rules]:
  "(b \<Longrightarrow> does P R m) \<Longrightarrow> (\<not> b \<Longrightarrow> does P R n) \<Longrightarrow> does P R (if b then m else n)"
  by simp

lemma does_option [does_rules]:
  "(x = None \<Longrightarrow> does P R m) \<Longrightarrow> (\<And>y. x = Some y \<Longrightarrow> does P R (f y)) \<Longrightarrow>
   does P R (case x of None \<Rightarrow> m | Some y \<Rightarrow> f y)"
  by (cases x) auto

lemma does_for [does_rules]:
  "reflp R \<Longrightarrow> transp R \<Longrightarrow> (\<And>x a. x \<in> set xs \<Longrightarrow> does P R (body x a)) \<Longrightarrow> does P R (forA xs body a)"
proof (induction xs arbitrary: a)
  case Nil
  show ?case unfolding forA.simps by (rule does_ret [OF Nil(1)])
next
  case (Cons x xs)
  show ?case unfolding forA.simps
    by (intro does_bind Cons.prems Cons.IH) (simp_all add: Cons.prems)
qed

section \<open>Status and transport\<close>

record io =
  data :: "(string, pyval) pydict"
  counters :: "(string, int) pydict"
  socket_open :: bool
  connected :: bool
  net :: "nat \<Rightarrow> string option"
  attempts :: nat
  sent :: "bytes list"
  dynamic_file :: "string option"
  observed_file :: "pyval option"

record clock =
  mono :: real
  epoch :: real
  ns :: int
  utc :: string

definition status_init :: "string \<Rightarrow> (string, pyval) pydict" where
  "status_init started = [(''mode'', PStr ''tetrapack-brew-audio''), (''startedAt'', PStr started),
     (''connected'', PBool False), (''registered'', PBool False), (''affiliated'', PBool False),
     (''activeUplink'', PNone), (''activeDownlink'', PNone), (''lastError'', PNone)]"

definition status_set :: "(string \<times> pyval) list \<Rightarrow> io \<Rightarrow> io" where
  "status_set values i = i\<lparr>data := fold (\<lambda>(k, v). AList.update k v) values (data i)\<rparr>"

definition counter :: "string \<Rightarrow> io \<Rightarrow> int" where
  "counter key i = (case map_of (counters i) key of None \<Rightarrow> 0 | Some n \<Rightarrow> n)"

definition status_increment_by :: "string \<Rightarrow> int \<Rightarrow> io \<Rightarrow> io" where
  "status_increment_by key amount i =
     i\<lparr>counters := AList.update key (counter key i + amount) (counters i)\<rparr>"

abbreviation status_increment :: "string \<Rightarrow> io \<Rightarrow> io" where
  "status_increment key \<equiv> status_increment_by key 1"

text \<open>\<^verbatim>\<open>write\<close>: the object that becomes the content of the status file.\<close>

definition status_write :: "clock \<Rightarrow> io \<Rightarrow> pyval" where
  "status_write ck i = PDict (AList.update ''updatedAt'' (PStr (utc ck))
     (AList.update ''counters'' (PDict (map (\<lambda>(k, n). (k, PInt n)) (counters i))) (data i)))"

primrec send_loop :: "bytes list \<Rightarrow> io \<Rightarrow> bool \<times> io" where
  "send_loop [] i = (True, i)"
| "send_loop (p # ps) i =
     (case net i (attempts i) of
        None \<Rightarrow> send_loop ps (i\<lparr>attempts := attempts i + 1, sent := sent i @ [p]\<rparr>)
      | Some exc \<Rightarrow> (False, status_set [(''lastError'', PStr (''brew_send:'' @ exc))]
                              (i\<lparr>attempts := attempts i + 1\<rparr>)))"

definition send_many :: "bytes list \<Rightarrow> io \<Rightarrow> bool \<times> io" where
  "send_many payloads i =
     (if \<not> socket_open i \<or> \<not> connected i then (False, i) else send_loop payloads i)"

definition send :: "bytes \<Rightarrow> io \<Rightarrow> bool \<times> io" where
  "send payload = send_many [payload]"

definition close_socket :: "io \<Rightarrow> io" where
  "close_socket i = i\<lparr>socket_open := False, connected := False\<rparr>"

text \<open>\<open>send(build(...))\<close>: building the message may raise.\<close>

definition send_built :: "py_error + bytes \<Rightarrow> (io, bool) act" where
  "send_built m = bindA (liftE m) (\<lambda>payload. call (send payload))"

text \<open>\<^verbatim>\<open>for x in xs: ok &= send(build(x))\<close>: every message is tried, also after a failure.\<close>

definition send_each :: "('x \<Rightarrow> py_error + bytes) \<Rightarrow> 'x list \<Rightarrow> (io, bool) act" where
  "send_each build xs = forA xs (\<lambda>x ok. bindA (send_built (build x)) (\<lambda>r. ret (ok \<and> r))) True"

section \<open>Finding the endpoint\<close>

text \<open>\<^verbatim>\<open>_discover_endpoint\<close>; \<open>response\<close> is the text of the HTTP answer.\<close>

definition discover_endpoint :: "string \<Rightarrow> string \<Rightarrow> py_error + string" where
  "discover_endpoint base_url response =
     (let base = rstrip_by (\<lambda>c. c = CHR ''/'') base_url;
          path = strip response;
          endpoint_path = (if prefix ''/'' path then path else ''/'' @ path)
      in if prefix ''https://'' base then Inr (''wss://'' @ drop 8 base @ endpoint_path)
         else if prefix ''http://'' base then Inr (''ws://'' @ drop 7 base @ endpoint_path)
         else Inl (ValueError ''unsupported BREW base URL''))"

section \<open>Facts about effects\<close>

lemma status_set_frame [simp]:
  "counters (status_set vs i) = counters i" "socket_open (status_set vs i) = socket_open i"
  "connected (status_set vs i) = connected i" "net (status_set vs i) = net i"
  "attempts (status_set vs i) = attempts i" "sent (status_set vs i) = sent i"
  "dynamic_file (status_set vs i) = dynamic_file i" "observed_file (status_set vs i) = observed_file i"
  "counter k (status_set vs i) = counter k i"
  by (simp_all add: status_set_def counter_def)

lemma status_increment_frame [simp]:
  "data (status_increment_by k n i) = data i" "socket_open (status_increment_by k n i) = socket_open i"
  "connected (status_increment_by k n i) = connected i" "net (status_increment_by k n i) = net i"
  "attempts (status_increment_by k n i) = attempts i" "sent (status_increment_by k n i) = sent i"
  "dynamic_file (status_increment_by k n i) = dynamic_file i"
  "observed_file (status_increment_by k n i) = observed_file i"
  by (simp_all add: status_increment_by_def)

lemma counter_increment [simp]:
  "counter k (status_increment_by k' n i) = counter k i + (if k = k' then n else 0)"
  by (simp add: status_increment_by_def counter_def)

lemma close_socket_frame [simp]:
  "connected (close_socket i) = False" "socket_open (close_socket i) = False"
  "sent (close_socket i) = sent i" "data (close_socket i) = data i" "counters (close_socket i) = counters i"
  by (simp_all add: close_socket_def)

text \<open>A batch that is reported as sent went out whole and in order; a batch that is not went out
  up to the message that failed. Nothing else is ever sent.\<close>

lemma send_loop_spec:
  "send_loop ps i = (ok, i') \<Longrightarrow>
   \<exists>k \<le> length ps. sent i' = sent i @ take k ps \<and> (ok \<longleftrightarrow> k = length ps) \<and>
     counters i' = counters i \<and> net i' = net i \<and> connected i' = connected i \<and>
     socket_open i' = socket_open i \<and> dynamic_file i' = dynamic_file i \<and>
     observed_file i' = observed_file i \<and> (ok \<longrightarrow> data i' = data i)"
proof (induction ps arbitrary: i)
  case Nil
  then show ?case by auto
next
  case (Cons p ps)
  show ?case
  proof (cases "net i (attempts i)")
    case None
    then have "send_loop ps (i\<lparr>attempts := attempts i + 1, sent := sent i @ [p]\<rparr>) = (ok, i')"
      using Cons.prems by simp
    from Cons.IH [OF this] obtain k where "k \<le> length ps" "sent i' = (sent i @ [p]) @ take k ps"
        "ok \<longleftrightarrow> k = length ps" "counters i' = counters i" "net i' = net i" "connected i' = connected i"
        "socket_open i' = socket_open i" "dynamic_file i' = dynamic_file i"
        "observed_file i' = observed_file i" "ok \<longrightarrow> data i' = data i" by auto
    then show ?thesis by (intro exI [of _ "Suc k"]) simp
  next
    case (Some exc)
    then show ?thesis using Cons.prems by (intro exI [of _ 0]) auto
  qed
qed

lemma send_many_spec:
  "send_many ps i = (ok, i') \<Longrightarrow>
   \<exists>k \<le> length ps. sent i' = sent i @ take k ps \<and> (ok \<longrightarrow> k = length ps) \<and>
     (ps \<noteq> [] \<longrightarrow> ok = (k = length ps)) \<and>
     counters i' = counters i \<and> net i' = net i \<and> connected i' = connected i \<and>
     socket_open i' = socket_open i \<and> dynamic_file i' = dynamic_file i \<and>
     observed_file i' = observed_file i \<and> (ok \<longrightarrow> data i' = data i)"
  by (auto simp: send_many_def split: if_splits dest!: send_loop_spec)

lemma send_loop_frame [simp]:
  "counters (snd (send_loop ps i)) = counters i" "net (snd (send_loop ps i)) = net i"
  "connected (snd (send_loop ps i)) = connected i" "socket_open (snd (send_loop ps i)) = socket_open i"
  "dynamic_file (snd (send_loop ps i)) = dynamic_file i"
  "observed_file (snd (send_loop ps i)) = observed_file i"
  using send_loop_spec [of ps i "fst (send_loop ps i)" "snd (send_loop ps i)"] by auto

lemma send_frame [simp]:
  "counters (snd (send p i)) = counters i" "net (snd (send p i)) = net i"
  "connected (snd (send p i)) = connected i" "socket_open (snd (send p i)) = socket_open i"
  "dynamic_file (snd (send p i)) = dynamic_file i" "observed_file (snd (send p i)) = observed_file i"
  "counter k (snd (send p i)) = counter k i"
  by (simp_all add: send_def send_many_def counter_def del: send_loop.simps)

lemma send_outcome:
  "sent (snd (send p i)) = sent i @ (if fst (send p i) then [p] else [])"
  by (simp add: send_def send_many_def split: option.splits)

lemma send_ok_data: "fst (send p i) \<Longrightarrow> data (snd (send p i)) = data i"
  by (auto simp: send_def send_many_def split: option.splits if_splits)

text \<open>A batch of messages is reported as sent only when all of it went out, in order and with
  nothing in between; when the connection is down nothing is tried, and after a failure exactly the
  messages before the failing one are on the wire and the failure is in the status.\<close>

theorem send_many_all_or_prefix:
  assumes "send_many payloads i = (ok, i')" "payloads \<noteq> []"
  shows "\<exists>k \<le> length payloads. sent i' = sent i @ take k payloads \<and> ok = (k = length payloads) \<and>
    counters i' = counters i \<and> connected i' = connected i"
proof -
  obtain k where "k \<le> length payloads" "sent i' = sent i @ take k payloads" "ok = (k = length payloads)"
    "counters i' = counters i" "connected i' = connected i"
    using send_many_spec [OF assms(1)] assms(2) by blast
  then show ?thesis by blast
qed

theorem send_many_all_or_prefix_witness:
  "\<exists>k. k \<le> 3 \<and> [[1]] = take k [[1], [2], [3 :: byte]] \<and> False = (k = 3)"
proof -
  let ?i = "\<lparr>data = [], counters = [], socket_open = True, connected = True,
       net = (\<lambda>n. if n = 1 then Some ''TimeoutError'' else None), attempts = 0, sent = [],
       dynamic_file = None, observed_file = None\<rparr>"
  let ?i' = "\<lparr>data = [(''lastError'', PStr ''brew_send:TimeoutError'')], counters = [],
       socket_open = True, connected = True,
       net = (\<lambda>n. if n = 1 then Some ''TimeoutError'' else None), attempts = 2, sent = [[1]],
       dynamic_file = None, observed_file = None\<rparr>"
  have e: "send_many [[1], [2], [3]] ?i = (False, ?i')"
    by (simp add: send_many_def status_set_def)
  obtain k where "k \<le> length [[1], [2], [3 :: byte]]" "sent ?i' = sent ?i @ take k [[1], [2], [3]]"
    "False = (k = length [[1], [2], [3 :: byte]])"
    using send_many_all_or_prefix [OF e] by blast
  then show ?thesis by (intro exI [of _ k]) (simp add: numeral_3_eq_3)
qed

text \<open>The address of the BREW socket: an http or https base URL, with any number of slashes at
  its end, gives the ws or wss URL of the same host with one slash before a path that the server
  sent without one.\<close>

theorem discover_endpoint_shape:
  assumes "host \<noteq> []" "last host \<noteq> CHR ''/''"
  shows "discover_endpoint (''https://'' @ host @ replicate n CHR ''/'') response =
      Inr (''wss://'' @ host @ (if prefix ''/'' (strip response) then [] else ''/'') @ strip response) \<and>
    discover_endpoint (''http://'' @ host @ replicate n CHR ''/'') response =
      Inr (''ws://'' @ host @ (if prefix ''/'' (strip response) then [] else ''/'') @ strip response)"
proof -
  have r: "rstrip_by (\<lambda>c. c = CHR ''/'') (p @ host @ replicate m CHR ''/'') = p @ host" for p m
  proof (induction m)
    case 0
    then show ?case using assms by (simp add: rstrip_by_id)
  next
    case (Suc m)
    have "p @ host @ replicate (Suc m) CHR ''/'' = (p @ host @ replicate m CHR ''/'') @ [CHR ''/'']"
      by (simp only: append_assoc replicate_append_same replicate_Suc)
    then show ?case unfolding Suc [symmetric] by (simp only: rstrip_by_snoc)
  qed
  have p: "prefix ''https://'' (''https://'' @ host)" "prefix ''http://'' (''http://'' @ host)"
    "\<not> prefix ''https://'' (''http://'' @ host)" by simp_all
  have d: "drop 8 (''https://'' @ host) = host" "drop 7 (''http://'' @ host) = host" by simp_all
  show ?thesis unfolding discover_endpoint_def Let_def r using p d by simp
qed

theorem discover_endpoint_shape_witness:
  "discover_endpoint ''https://brew.example/'' ''ws'' = Inr ''wss://brew.example/ws''"
  using discover_endpoint_shape [of "''brew.example''" 1 "''ws''"]
  by (simp add: strip_by_id is_space_def code_def)

end
