(* ===== verification/Bridge_Core.thy ===== *)
theory Bridge_Core
  imports Brew_Transport Routing_Config Ars_Registry
begin

text \<open>
  The part of \<^verbatim>\<open>BrewAudioBridge\<close> every thread shares: the transport and status, the router,
  the local radios and the ids of the calls the worker itself started. The handlers are
  \<^verbatim>\<open>_on_brew_connected\<close>, \<^verbatim>\<open>_refresh_brew_subscribers\<close>, \<^verbatim>\<open>_ensure_local_issi\<close>,
  \<^verbatim>\<open>_remove_local_issi\<close>, \<^verbatim>\<open>_reset_local_ars_issis\<close>, \<^verbatim>\<open>_process_ars_log_line\<close>, the bodies
  of the registration, refresh and routing loops, \<^verbatim>\<open>_send_affiliation\<close>,
  \<^verbatim>\<open>_recover_rejected_uplink_session\<close>, \<^verbatim>\<open>_clear_dynamic_routes\<close>,
  \<^verbatim>\<open>_reload_routing_if_changed\<close> and \<^verbatim>\<open>_expire_owned_uuids\<close>. A handler is one atomic step;
  the clock shows one time during it. A file that cannot be written makes the operation that saves it raise. \<open>boot\<close> is the boot id of the host.
\<close>

section \<open>State\<close>

record core =
  bio :: io
  brt :: router
  local_issis :: "int set"
  anchor_issis :: "int set"
  registration_path :: "string option"
  registration_offset :: nat
  last_subscriber_refresh :: real
  last_session_recovery :: real
  routing_mtime :: int
  owned_uuids :: "(bytes, real) pydict"
  ignored_uuids :: "bytes set"
  disk_error :: "py_error option"

definition on_io :: "(io, 'a) act \<Rightarrow> ('b core_scheme, 'a) act" where
  "on_io m = (\<lambda>s. case m (bio s) of (r, i) \<Rightarrow> (r, s\<lparr>bio := i\<rparr>))"

definition upd_io :: "(io \<Rightarrow> io) \<Rightarrow> ('b core_scheme, unit) act" where
  "upd_io f = upd (\<lambda>s. s\<lparr>bio := f (bio s)\<rparr>)"

definition count :: "string \<Rightarrow> ('b core_scheme, unit) act" where
  "count k = upd_io (status_increment k)"

definition set_status :: "(string \<times> pyval) list \<Rightarrow> ('b core_scheme, unit) act" where
  "set_status vs = upd_io (status_set vs)"

abbreviation is_connected :: "'b core_scheme \<Rightarrow> bool" where
  "is_connected s \<equiv> connected (bio s)"

definition ints_value :: "int list \<Rightarrow> pyval" where
  "ints_value xs = PList (map PInt xs)"

definition snapshot_value :: "router \<Rightarrow> pyval" where
  "snapshot_value r = PList (map (\<lambda>(tg, l, x). PDict [(''talkgroup'', PInt tg),
     (''lastActiveEpoch'', PFloat l), (''expiresEpoch'', PFloat x)]) (snapshot r))"

definition mappings_value :: "routing_cfg \<Rightarrow> pyval" where
  "mappings_value cfg = PList (map (\<lambda>(p, b). PDict [(''p25'', PInt p), (''brew'', PInt b)])
     (sort_key fst (p25_to_brew cfg)))"

text \<open>\<open>disk_error\<close> is what writing a file raises, when it raises; nothing is on the disk then.\<close>

definition writing :: "('b core_scheme, unit) act" where
  "writing = readA (\<lambda>s. case disk_error s of None \<Rightarrow> ret () | Some e \<Rightarrow> raiseA e)"

definition save_routes :: "string \<Rightarrow> ('b core_scheme, unit) act" where
  "save_routes boot = thenA writing (upd (\<lambda>s. s\<lparr>bio := (bio s)\<lparr>dynamic_file := Some (save_dynamic_routes boot (brt s))\<rparr>\<rparr>))"

definition save_issis :: "('b core_scheme, unit) act" where
  "save_issis = thenA writing (upd (\<lambda>s. s\<lparr>bio := (bio s)\<lparr>observed_file := Some (save_observed_issis (local_issis s))\<rparr>\<rparr>))"

section \<open>Subscribers\<close>

definition subscriber_msg :: "clock \<Rightarrow> byte \<Rightarrow> int list \<Rightarrow> int \<Rightarrow> py_error + bytes" where
  "subscriber_msg ck message_type gs issi = build_subscriber_message (ns ck) message_type issi gs"

definition on_brew_connected :: "clock \<Rightarrow> ('b core_scheme, unit) act" where
  "on_brew_connected ck = readA (\<lambda>s.
     let gs = groups (brt s); issis = sorted_list_of_set (local_issis s) in
     bindA (on_io (send_each (subscriber_msg ck SUBSCRIBER_REGISTER []) issis)) (\<lambda>register_ok.
     bindA (on_io (send_each (subscriber_msg ck SUBSCRIBER_AFFILIATE gs) issis)) (\<lambda>affiliate_ok.
     thenA (set_status [(''registered'', PBool register_ok), (''affiliated'', PBool affiliate_ok)])
       (if register_ok \<and> affiliate_ok then upd (\<lambda>s. s\<lparr>last_subscriber_refresh := mono ck\<rparr>)
        else ret ()))))"

definition refresh_brew_subscribers :: "clock \<Rightarrow> int set option \<Rightarrow> ('b core_scheme, bool) act" where
  "refresh_brew_subscribers ck requested = readA (\<lambda>s.
     if \<not> is_connected s then ret False
     else let issis = (case requested of None \<Rightarrow> local_issis s | Some r \<Rightarrow> local_issis s \<inter> r);
              gs = groups (brt s); order = sorted_list_of_set issis in
       if issis = {} then thenA (upd (\<lambda>s. s\<lparr>last_subscriber_refresh := mono ck\<rparr>)) (ret False)
       else
       bindA (on_io (send_each (subscriber_msg ck SUBSCRIBER_REREGISTER []) order)) (\<lambda>refresh_ok.
       bindA (if gs = [] then ret True
              else on_io (send_each (subscriber_msg ck SUBSCRIBER_AFFILIATE gs) order)) (\<lambda>affiliate_ok.
       if refresh_ok \<and> affiliate_ok
       then thenA (upd (\<lambda>s. s\<lparr>last_subscriber_refresh := mono ck\<rparr>))
           (thenA (count ''brewSubscriberRefreshes'')
           (thenA (set_status [(''registered'', PBool True), (''affiliated'', PBool True),
                     (''lastSubscriberRefreshAt'', PStr (utc ck))])
             (ret True)))
       else ret False)))"

definition subscriber_refresh_tick :: "audio_config \<Rightarrow> clock \<Rightarrow> ('b core_scheme, unit) act" where
  "subscriber_refresh_tick cfg ck = readA (\<lambda>s.
     if mono ck - last_subscriber_refresh s < subscriber_refresh_seconds cfg then ret ()
     else bindA (refresh_brew_subscribers ck None) (\<lambda>_. ret ()))"

definition send_subscriber :: "clock \<Rightarrow> byte \<Rightarrow> int list \<Rightarrow> int \<Rightarrow> ('b core_scheme, bool) act" where
  "send_subscriber ck message_type gs issi = on_io (send_built (subscriber_msg ck message_type gs issi))"

definition ensure_local_issi :: "clock \<Rightarrow> int \<Rightarrow> bool \<Rightarrow> ('b core_scheme, unit) act" where
  "ensure_local_issi ck issi refresh_existing = readA (\<lambda>s.
     if \<not> in_24bit issi then ret ()
     else if issi \<in> local_issis s
     then (if refresh_existing then bindA (refresh_brew_subscribers ck (Some {issi})) (\<lambda>_. ret ())
           else ret ())
     else
       thenA (upd (\<lambda>s. s\<lparr>local_issis := insert issi (local_issis s)\<rparr>))
       (thenA save_issis
       (thenA (set_status [(''localIssis'', ints_value (sorted_list_of_set (insert issi (local_issis s))))])
       (if is_connected s
        then thenA (send_subscriber ck SUBSCRIBER_REGISTER [] issi)
            (thenA (send_subscriber ck SUBSCRIBER_AFFILIATE (groups (brt s)) issi) (ret ()))
        else ret ()))))"

definition remove_local_issi :: "clock \<Rightarrow> int \<Rightarrow> ('b core_scheme, unit) act" where
  "remove_local_issi ck issi = readA (\<lambda>s.
     if issi \<in> anchor_issis s \<or> issi \<notin> local_issis s then ret ()
     else
       thenA (upd (\<lambda>s. s\<lparr>local_issis := local_issis s - {issi}\<rparr>))
       (thenA (if is_connected s
               then thenA (send_subscriber ck SUBSCRIBER_DEAFFILIATE (groups (brt s)) issi)
                   (thenA (send_subscriber ck SUBSCRIBER_DEREGISTER [] issi) (ret ()))
               else ret ())
       (thenA save_issis
         (set_status [(''localIssis'', ints_value (sorted_list_of_set (local_issis s - {issi})))]))))"

definition reset_local_ars_issis :: "clock \<Rightarrow> ('b core_scheme, unit) act" where
  "reset_local_ars_issis ck = readA (\<lambda>s.
     forA (sorted_list_of_set (local_issis s - anchor_issis s)) (\<lambda>issi _. remove_local_issi ck issi) ())"

definition process_ars_log_line :: "clock \<Rightarrow> string \<Rightarrow> ('b core_scheme, unit) act" where
  "process_ars_log_line ck line =
     (case fst (apply_ars_log_line line {}) of
        (action, Some issi) \<Rightarrow>
          if action = ''register'' then ensure_local_issi ck issi True
          else if action = ''deregister'' then remove_local_issi ck issi else ret ()
      | (action, None) \<Rightarrow> if action = ''reset'' then reset_local_ars_issis ck else ret ())"

text \<open>One pass of the registration loop over the log directory. A file that cannot be opened
  raises \<^verbatim>\<open>OSError\<close>, which the loop catches.\<close>

definition registration_tick :: "clock \<Rightarrow> log_file list \<Rightarrow> ('b core_scheme, unit) act" where
  "registration_tick ck files =
     (if files = [] then ret ()
      else let (name, content) = last files in
        thenA (upd (\<lambda>s. if registration_path s = Some name then s
                        else s\<lparr>registration_path := Some name, registration_offset := 0\<rparr>))
        (case content of
           None \<Rightarrow> ret ()
         | Some text \<Rightarrow>
             thenA (upd (\<lambda>s. if length text < registration_offset s then s\<lparr>registration_offset := 0\<rparr> else s))
             (readA (\<lambda>s.
                if length text = registration_offset s then ret ()
                else thenA (forA (stream_lines [] (drop (registration_offset s) text))
                              (\<lambda>line _. process_ars_log_line ck line) ())
                    (upd (\<lambda>s. s\<lparr>registration_offset := length text\<rparr>))))))"

definition send_affiliation :: "clock \<Rightarrow> byte \<Rightarrow> int list \<Rightarrow> ('b core_scheme, unit) act" where
  "send_affiliation ck message_type gs = readA (\<lambda>s.
     if gs = [] \<or> \<not> is_connected s then ret ()
     else forA (sorted_list_of_set (local_issis s))
       (\<lambda>issi _. thenA (send_subscriber ck message_type gs issi) (ret ())) ())"

section \<open>Sessions and routes\<close>

definition recover_rejected_uplink_session :: "clock \<Rightarrow> ('b core_scheme, unit) act" where
  "recover_rejected_uplink_session ck = readA (\<lambda>s.
     if mono ck - last_session_recovery s < 60
     then count ''brewUplinkSessionRecoverySuppressed''
     else
       thenA (upd (\<lambda>s. s\<lparr>last_session_recovery := mono ck\<rparr>))
       (thenA (count ''brewUplinkSessionRecoveries'')
       (thenA (set_status [(''connected'', PBool False), (''registered'', PBool False),
                 (''affiliated'', PBool False), (''lastUplinkSessionRecoveryAt'', PStr (utc ck))])
         (upd_io close_socket))))"

definition expire_owned_uuids :: "clock \<Rightarrow> 'b core_scheme \<Rightarrow> 'b core_scheme" where
  "expire_owned_uuids ck s =
     (let expired = map fst (filter (\<lambda>(key, expiry). expiry \<le> mono ck) (owned_uuids s))
      in s\<lparr>owned_uuids := fold AList.delete expired (owned_uuids s),
           ignored_uuids := ignored_uuids s - set expired\<rparr>)"

definition clear_dynamic_routes :: "clock \<Rightarrow> string \<Rightarrow> ('b core_scheme, unit) act" where
  "clear_dynamic_routes ck boot =
     bindA (call (\<lambda>s. let (cleared, r) = clear_routes (brt s) in (cleared, s\<lparr>brt := r\<rparr>))) (\<lambda>cleared.
     thenA (save_routes boot)
     (readA (\<lambda>s. thenA (set_status [(''dynamicTalkgroups'', snapshot_value (brt s))])
       (if cleared \<noteq> [] then send_affiliation ck SUBSCRIBER_DEAFFILIATE cleared else ret ()))))"

text \<open>\<open>file\<close> is the routing file: \<open>Inl\<close> when reading it or parsing the YAML fails, otherwise its
  modification time and document. The clause catches OSError, TypeError, ValueError and YAMLError
  (which the reader reports as \<open>ValueError\<close>), and nothing else.\<close>

definition error_class :: "py_error \<Rightarrow> string" where
  "error_class e = (case e of ValueError m \<Rightarrow> ''ValueError'' | TypeError m \<Rightarrow> ''TypeError''
     | OSError m \<Rightarrow> m | _ \<Rightarrow> ''UnicodeDecodeError'')"

definition reload_caught :: "py_error \<Rightarrow> bool" where
  "reload_caught e \<longleftrightarrow> is_os_error e \<or> is_type_error e \<or> is_value_error e"

definition install_routing :: "clock \<Rightarrow> string \<Rightarrow> int \<Rightarrow> routing_cfg \<Rightarrow> ('b core_scheme, unit) act" where
  "install_routing ck boot mtime cfg = readA (\<lambda>s.
     let old_groups = set (groups (brt s)); r = install_config cfg (brt s);
         new_groups = set (groups r) in
     thenA (upd (\<lambda>s. s\<lparr>brt := r\<rparr>))
     (thenA (save_routes boot)
     (thenA (upd (\<lambda>s. s\<lparr>routing_mtime := mtime\<rparr>))
     (thenA (send_affiliation ck SUBSCRIBER_DEAFFILIATE (sorted_list_of_set (old_groups - new_groups)))
     (thenA (send_affiliation ck SUBSCRIBER_AFFILIATE (sorted_list_of_set (new_groups - old_groups)))
       (set_status [(''lastError'', PNone),
          (''staticTalkgroups'', ints_value (sorted_list_of_set (static_brew_groups cfg))),
          (''dynamicTalkgroups'', snapshot_value r),
          (''talkgroupMappings'', mappings_value cfg)]))))))"

definition reload_routing_if_changed ::
  "clock \<Rightarrow> string \<Rightarrow> py_error + int \<times> (py_error + pyval) \<Rightarrow> ('b core_scheme, unit) act" where
  "reload_routing_if_changed ck boot file = readA (\<lambda>s.
     case (case file of
             Inl e \<Rightarrow> Inl e
           | Inr (mtime, document) \<Rightarrow>
               if mtime = routing_mtime s then Inr None
               else bindE (bindE document parse_routing) (\<lambda>cfg. Inr (Some (mtime, cfg)))) of
       Inl e \<Rightarrow> if reload_caught e
                then set_status [(''lastError'', PStr (''routing_reload_'' @ error_class e))]
                else raiseA e
     | Inr None \<Rightarrow> ret ()
     | Inr (Some (mtime, cfg)) \<Rightarrow> install_routing ck boot mtime cfg)"

definition routing_tick ::
  "clock \<Rightarrow> string \<Rightarrow> py_error + int \<times> (py_error + pyval) \<Rightarrow> ('b core_scheme, unit) act" where
  "routing_tick ck boot file =
     thenA (reload_routing_if_changed ck boot file)
     (bindA (call (\<lambda>s. let (expired, r) = expire (mono ck) (brt s) in (expired, s\<lparr>brt := r\<rparr>))) (\<lambda>expired.
      if expired = [] then ret ()
      else thenA (save_routes boot)
          (thenA (send_affiliation ck SUBSCRIBER_DEAFFILIATE expired)
          (readA (\<lambda>s. set_status [(''dynamicTalkgroups'', snapshot_value (brt s))])))))"

definition status_tick :: "clock \<Rightarrow> ('b core_scheme, pyval) act" where
  "status_tick ck =
     thenA (readA (\<lambda>s. set_status
       [(''staticTalkgroups'', ints_value (sorted_list_of_set (static_brew_groups (rt_config (brt s))))),
        (''dynamicTalkgroups'', snapshot_value (brt s))]))
     (readA (\<lambda>s. ret (status_write ck (bio s))))"

lemma upd_io_apply [simp]: "upd_io f s = (Inr (), s\<lparr>bio := f (bio s)\<rparr>)"
  by (simp add: upd_io_def)

lemma count_apply [simp]: "count k s = (Inr (), s\<lparr>bio := status_increment k (bio s)\<rparr>)"
  by (simp add: count_def)

lemma set_status_apply [simp]: "set_status vs s = (Inr (), s\<lparr>bio := status_set vs (bio s)\<rparr>)"
  by (simp add: set_status_def)

lemma writing_apply [simp]:
  "disk_error s = None \<Longrightarrow> writing s = (Inr (), s)"
  "disk_error s = Some e \<Longrightarrow> writing s = (Inl e, s)"
  by (simp_all add: writing_def)

lemma save_apply [simp]:
  "disk_error s = None \<Longrightarrow> save_routes boot s =
     (Inr (), s\<lparr>bio := (bio s)\<lparr>dynamic_file := Some (save_dynamic_routes boot (brt s))\<rparr>\<rparr>)"
  "disk_error s = None \<Longrightarrow> save_issis s =
     (Inr (), s\<lparr>bio := (bio s)\<lparr>observed_file := Some (save_observed_issis (local_issis s))\<rparr>\<rparr>)"
  by (simp_all add: save_routes_def save_issis_def)

lemma save_failed [simp]:
  "disk_error s = Some e \<Longrightarrow> save_routes boot s = (Inl e, s)"
  "disk_error s = Some e \<Longrightarrow> save_issis s = (Inl e, s)"
  by (simp_all add: save_routes_def save_issis_def thenA_def bindA_def)

lemma keeps_writing [act_rules]: "keeps P writing"
  by (simp add: keeps_def writing_def split: option.splits)

lemma does_writing: "(\<And>s. P s \<Longrightarrow> disk_error s = None) \<Longrightarrow> reflp R \<Longrightarrow> does P R writing"
  by (simp add: does_def reflp_def)

section \<open>Invariant\<close>

definition packable :: "int list \<Rightarrow> bool" where
  "packable gs \<longleftrightarrow> (\<forall>g \<in> set gs. 0 \<le> g \<and> g < 2 ^ 32)"

definition clock_ok :: "clock \<Rightarrow> bool" where
  "clock_ok ck \<longleftrightarrow> 0 \<le> ns ck \<and> ns ck < 10 ^ 9 * 2 ^ 64"

definition core_ok :: "'b core_scheme \<Rightarrow> bool" where
  "core_ok s \<longleftrightarrow> router_ok (brt s) \<and> packable (groups (brt s)) \<and> valid_ids (local_issis s) \<and>
     anchor_issis s \<subseteq> local_issis s \<and> dict_ok (owned_uuids s) \<and> routing_ok (rt_config (brt s)) \<and>
     disk_error s = None"

lemma core_okD:
  assumes "core_ok s"
  shows "router_ok (brt s)" "packable (groups (brt s))" "valid_ids (local_issis s)"
    "anchor_issis s \<subseteq> local_issis s" "dict_ok (owned_uuids s)" "finite (local_issis s)"
    "routing_ok (rt_config (brt s))" "disk_error s = None"
  using assms unfolding core_ok_def valid_ids_def by blast+

lemma core_ok_io [simp]: "core_ok (s\<lparr>bio := i\<rparr>) = core_ok s"
  "core_ok (s\<lparr>last_subscriber_refresh := t\<rparr>) = core_ok s"
  by (simp_all add: core_ok_def)

lemma packable_Nil [simp]: "packable []"
  by (simp add: packable_def)

lemma pack_le_total: "0 \<le> v \<Longrightarrow> v < 256 ^ n \<Longrightarrow> pack_le n v = Inr (le_bytes n v)"
  by (simp add: pack_le_def)

lemma subscriber_msg_total:
  assumes "clock_ok ck" "packable gs" "in_24bit i"
  shows "subscriber_msg ck t gs i = Inr ([BREW_CLASS_SUBSCRIBER, t] @ le_bytes 4 i @
    le_bytes 8 (ns ck div 10 ^ 9) @ le_bytes 4 (ns ck mod 10 ^ 9) @ concat (map (le_bytes 4) gs))"
proof -
  have i: "pack_le 4 i = Inr (le_bytes 4 i)" using assms(3) by (simp add: pack_le_def in_24bit_def)
  have "0 \<le> ns ck" "ns ck < 18446744073709551616 * 1000000000"
    using assms(1) by (simp_all add: clock_ok_def)
  then have "ns ck div 1000000000 \<le> (18446744073709551616 * 1000000000 - 1) div 1000000000"
    by (intro zdiv_mono1) simp_all
  then have "ns ck div 10 ^ 9 < 2 ^ 64" by simp
  then have a: "pack_le 8 (ns ck div 10 ^ 9) = Inr (le_bytes 8 (ns ck div 10 ^ 9))"
    using assms(1) by (simp add: pack_le_def clock_ok_def pos_imp_zdiv_nonneg_iff)
  have "ns ck mod 10 ^ 9 < 10 ^ 9" "0 \<le> ns ck mod 10 ^ 9" by simp_all
  then have b: "pack_le 4 (ns ck mod 10 ^ 9) = Inr (le_bytes 4 (ns ck mod 10 ^ 9))"
    by (simp add: pack_le_def)
  have g: "mapE (pack_le 4) gs = Inr (map (le_bytes 4) gs)"
    using assms(2) by (intro mapE_total) (simp add: packable_def pack_le_def)
  show ?thesis
    unfolding subscriber_msg_def build_subscriber_message_def
    using i a b g by (simp del: le_bytes_unroll)
qed

section \<open>What a handler may touch\<close>

text \<open>\<open>calm i j\<close>: the transport is as connected as before, the state files are unchanged and
  messages were only added to the wire.\<close>

definition calm :: "io \<Rightarrow> io \<Rightarrow> bool" where
  "calm i j \<longleftrightarrow> connected j = connected i \<and> socket_open j = socket_open i \<and> net j = net i \<and>
     dynamic_file j = dynamic_file i \<and> observed_file j = observed_file i \<and> (\<exists>ms. sent j = sent i @ ms)"

lemma calm_preorder [simp]: "reflp calm" "transp calm"
  by (auto simp: reflp_def transp_def calm_def)

lemma calm_refl [simp]: "calm i i"
  and calm_trans: "calm i j \<Longrightarrow> calm j k \<Longrightarrow> calm i k"
  by (auto simp: calm_def)

lemma calm_status [simp]: "calm i (status_set vs i)" "calm i (status_increment_by k n i)"
  by (simp_all add: calm_def)

lemma calm_send: "calm i (snd (send p i))"
  by (simp add: calm_def send_outcome)

lemma send_built_does: "\<exists>w. m = Inr w \<Longrightarrow> does (\<lambda>_. True) calm (send_built m)"
  by (auto simp: does_def send_built_def calm_send)

lemma send_each_does:
  "(\<And>x. x \<in> set xs \<Longrightarrow> \<exists>w. build x = Inr w) \<Longrightarrow> does (\<lambda>_. True) calm (send_each build xs)"
  unfolding send_each_def by (intro does_rules calm_preorder send_built_does)

text \<open>\<open>quiet s t\<close>: besides the transport, only the time of the last refresh may differ.\<close>

definition quiet :: "'b core_scheme \<Rightarrow> 'b core_scheme \<Rightarrow> bool" where
  "quiet s t \<longleftrightarrow> calm (bio s) (bio t) \<and> (\<exists>i r. t = s\<lparr>bio := i, last_subscriber_refresh := r\<rparr>)"

lemma quietI: "calm (bio s) i \<Longrightarrow> quiet s (s\<lparr>bio := i, last_subscriber_refresh := r\<rparr>)"
  by (auto simp: quiet_def)

lemma quiet_io: "calm (bio s) i \<Longrightarrow> quiet s (s\<lparr>bio := i\<rparr>)"
  using quietI [of s i "last_subscriber_refresh s"] by simp

lemma quiet_refl: "quiet s s"
  using quiet_io [of s "bio s"] by (simp add: reflpD)

lemma quiet_trans:
  assumes a: "quiet s t" and b: "quiet t u"
  shows "quiet s u"
proof -
  have "calm (bio s) (bio u)" using a b calm_preorder(2) unfolding quiet_def by (meson transpE)
  moreover obtain i r j q where "t = s\<lparr>bio := i, last_subscriber_refresh := r\<rparr>"
      "u = t\<lparr>bio := j, last_subscriber_refresh := q\<rparr>"
    using a b unfolding quiet_def by blast
  ultimately show "quiet s u" unfolding quiet_def by simp blast
qed

lemma quiet_preorder [simp]: "reflp quiet" "transp quiet"
  by (simp add: reflp_def quiet_refl) (rule transpI, rule quiet_trans)

lemma quiet_refresh: "quiet s (last_subscriber_refresh_update f s)"
  by (auto simp: quiet_def reflpD intro!: exI [of _ "bio s"] exI [of _ "f (last_subscriber_refresh s)"])

lemma quietD:
  assumes "quiet s t"
  shows "brt t = brt s" "local_issis t = local_issis s" "anchor_issis t = anchor_issis s"
    "owned_uuids t = owned_uuids s" "ignored_uuids t = ignored_uuids s"
    "connected (bio t) = connected (bio s)" "observed_file (bio t) = observed_file (bio s)"
    "core.more t = core.more s" "last_session_recovery t = last_session_recovery s"
    "registration_offset t = registration_offset s" "registration_path t = registration_path s"
    "routing_mtime t = routing_mtime s" "dynamic_file (bio t) = dynamic_file (bio s)"
  using assms by (auto simp: quiet_def calm_def)

lemma on_io_does:
  assumes "does (\<lambda>_. True) calm m"
  shows "does core_ok quiet (on_io m)"
  unfolding does_def
proof (intro allI impI)
  fix s :: "'b core_scheme"
  assume ok: "core_ok s"
  obtain x j where "m (bio s) = (Inr x, j)" "calm (bio s) j" by (rule doesE [OF assms TrueI, of "bio s"])
  then show "\<exists>x s'. on_io m s = (Inr x, s') \<and> core_ok s' \<and> quiet s s'"
    using ok by (simp add: on_io_def quiet_io)
qed

lemma quiet_steps [does_rules]:
  "does core_ok quiet (count k)" "does core_ok quiet (set_status vs)"
  "does core_ok quiet (upd (last_subscriber_refresh_update f))"
  by (simp_all add: does_def quiet_io quiet_refresh core_ok_def)

lemma send_subscriber_does:
  assumes "clock_ok ck" "packable gs" "in_24bit issi"
  shows "does core_ok quiet (send_subscriber ck t gs issi)"
  unfolding send_subscriber_def using subscriber_msg_total [OF assms]
  by (intro on_io_does send_built_does) blast

lemma send_subscribers_does:
  assumes "clock_ok ck" "packable gs" "valid_ids S"
  shows "does core_ok quiet (on_io (send_each (subscriber_msg ck t gs) (sorted_list_of_set S)))"
  using subscriber_msg_total [OF assms(1,2)] assms(3)
  by (intro on_io_does send_each_does) (simp add: valid_ids_def)

lemma valid_ids_Int: "valid_ids S \<Longrightarrow> valid_ids (S \<inter> T)"
  by (auto simp: valid_ids_def)

lemma on_brew_connected_does: "clock_ok ck \<Longrightarrow> does core_ok quiet (on_brew_connected ck)"
  unfolding on_brew_connected_def Let_def
  by (intro does_rules quiet_preorder send_subscribers_does packable_Nil core_okD)

lemma refresh_does: "clock_ok ck \<Longrightarrow> does core_ok quiet (refresh_brew_subscribers ck req)"
  unfolding refresh_brew_subscribers_def Let_def
  by (cases req; simp only: option.case)
    (intro does_rules quiet_preorder send_subscribers_does packable_Nil valid_ids_Int core_okD; assumption)+

lemma send_affiliation_does:
  assumes "clock_ok ck" "packable gs"
  shows "does core_ok quiet (send_affiliation ck t gs)"
  unfolding send_affiliation_def
  by (intro does_rules quiet_preorder send_subscriber_does assms)
    (use core_okD(3) in \<open>fastforce simp: valid_ids_def\<close>)

text \<open>\<open>settled s t\<close>: only the local radios, their file, the wire, the status and the time of the last
  refresh may differ, and if the radios or their file differ then the file holds the radios.\<close>

definition settled :: "'b core_scheme \<Rightarrow> 'b core_scheme \<Rightarrow> bool" where
  "settled s t \<longleftrightarrow> brt t = brt s \<and> anchor_issis t = anchor_issis s \<and> owned_uuids t = owned_uuids s \<and>
     ignored_uuids t = ignored_uuids s \<and> core.more t = core.more s \<and> routing_mtime t = routing_mtime s \<and>
     last_session_recovery t = last_session_recovery s \<and>
     registration_path t = registration_path s \<and> registration_offset t = registration_offset s \<and>
     connected (bio t) = connected (bio s) \<and> dynamic_file (bio t) = dynamic_file (bio s) \<and>
     (observed_file (bio t) = Some (save_observed_issis (local_issis t)) \<or>
      local_issis t = local_issis s \<and> observed_file (bio t) = observed_file (bio s))"

lemma settled_preorder [simp]: "reflp settled" "transp settled"
  by (auto simp: reflp_def transp_def settled_def)

lemma settled_quiet: "quiet s t \<Longrightarrow> settled s t"
  by (simp add: settled_def quietD)

lemma does_settled: "does core_ok quiet m \<Longrightarrow> does core_ok settled m"
  unfolding does_def using settled_quiet by fast

lemma ensure_effect:
  assumes "core_ok s" "clock_ok ck"
  obtains s' where "ensure_local_issi ck issi re s = (Inr (), s')" "core_ok s'" "settled s s'"
    "local_issis s' = (if in_24bit issi then insert issi (local_issis s) else local_issis s)"
proof (cases "in_24bit issi \<and> issi \<notin> local_issis s")
  case False
  have "does core_ok quiet (if \<not> in_24bit issi then ret () else if re
      then bindA (refresh_brew_subscribers ck (Some {issi})) (\<lambda>_. ret ()) else ret ())"
    by (intro does_rules refresh_does assms(2) quiet_preorder)
  then obtain x s' where r: "(if \<not> in_24bit issi then ret () else if re
      then bindA (refresh_brew_subscribers ck (Some {issi})) (\<lambda>_. ret ()) else ret ()) s = (Inr x, s')"
    "core_ok s'" "quiet s s'" using assms(1) by (rule doesE)
  have e: "ensure_local_issi ck issi re s = (Inr (), s')"
    using False r(1) by (auto simp: ensure_local_issi_def)
  show thesis
    by (rule that [OF e r(2) settled_quiet [OF r(3)]])
      (use False quietD(2) [OF r(3)] in auto)
next
  case True
  let ?l = "insert issi (local_issis s)"
  let ?t = "s\<lparr>local_issis := ?l, bio := status_set [(''localIssis'', ints_value (sorted_list_of_set ?l))]
      ((bio s)\<lparr>observed_file := Some (save_observed_issis ?l)\<rparr>)\<rparr>"
  have ok: "core_ok ?t" using assms(1) True by (auto simp: core_ok_def)
  let ?m = "if is_connected s
        then thenA (send_subscriber ck SUBSCRIBER_REGISTER [] issi)
            (thenA (send_subscriber ck SUBSCRIBER_AFFILIATE (groups (brt s)) issi) (ret ()))
        else ret ()"
  have "does core_ok quiet ?m"
    using True by (intro does_rules send_subscriber_does assms quiet_preorder packable_Nil core_okD) auto
  then obtain x s' where r: "?m ?t = (Inr x, s')" "core_ok s'" "quiet ?t s'"
    using ok by (rule doesE)
  have e: "ensure_local_issi ck issi re s = (Inr (), s')"
    using True r(1) core_okD(8) [OF assms(1)] by (simp add: ensure_local_issi_def)
  show thesis
    by (rule that [OF e r(2)]) (use True quietD [OF r(3)] in \<open>auto simp: settled_def\<close>)
qed

lemma remove_effect:
  assumes "core_ok s" "clock_ok ck"
  obtains s' where "remove_local_issi ck issi s = (Inr (), s')" "core_ok s'" "settled s s'"
    "local_issis s' = (if issi \<in> anchor_issis s then local_issis s else local_issis s - {issi})"
proof (cases "issi \<in> anchor_issis s \<or> issi \<notin> local_issis s")
  case True
  then have e: "remove_local_issi ck issi s = (Inr (), s)"
    by (auto simp: remove_local_issi_def)
  show thesis by (rule that [OF e assms(1)]) (use True in \<open>auto simp: settled_def\<close>)
next
  case False
  let ?l = "local_issis s - {issi}"
  let ?t = "s\<lparr>local_issis := ?l\<rparr>"
  have ok: "core_ok ?t" using assms(1) False by (auto simp: core_ok_def)
  have v: "in_24bit issi" using core_okD(3) [OF assms(1)] False by (simp add: valid_ids_def)
  let ?m = "if is_connected s
        then thenA (send_subscriber ck SUBSCRIBER_DEAFFILIATE (groups (brt s)) issi)
            (thenA (send_subscriber ck SUBSCRIBER_DEREGISTER [] issi) (ret ()))
        else ret ()"
  have "does core_ok quiet ?m"
    by (intro does_rules send_subscriber_does assms quiet_preorder packable_Nil core_okD v)
  then obtain x t where r: "?m ?t = (Inr x, t)" "core_ok t" "quiet ?t t"
    using ok by (rule doesE)
  let ?u = "t\<lparr>bio := status_set [(''localIssis'', ints_value (sorted_list_of_set ?l))]
      ((bio t)\<lparr>observed_file := Some (save_observed_issis (local_issis t))\<rparr>)\<rparr>"
  have e: "remove_local_issi ck issi s = (Inr (), ?u)"
    using False r(1) core_okD(8) [OF r(2)] by (simp add: remove_local_issi_def)
  show thesis
    by (rule that [OF e]) (use r(2) False quietD [OF r(3)] in \<open>auto simp: settled_def\<close>)
qed

lemma remove_list_effect:
  assumes "clock_ok ck" "core_ok s"
  shows "\<exists>s'. forA is (\<lambda>issi _. remove_local_issi ck issi) () s = (Inr (), s') \<and> core_ok s' \<and>
    settled s s' \<and> local_issis s' = local_issis s - (set is - anchor_issis s)"
  using assms(2)
proof (induction "is" arbitrary: s)
  case Nil
  then show ?case using reflpD [OF settled_preorder(1)] by simp
next
  case (Cons i "is")
  obtain t where t: "remove_local_issi ck i s = (Inr (), t)" "core_ok t" "settled s t"
    "local_issis t = (if i \<in> anchor_issis s then local_issis s else local_issis s - {i})"
    by (rule remove_effect [OF Cons.prems assms(1)])
  obtain u where u: "forA is (\<lambda>issi _. remove_local_issi ck issi) () t = (Inr (), u)" "core_ok u"
    "settled t u" "local_issis u = local_issis t - (set is - anchor_issis t)"
    using Cons.IH [OF t(2)] by blast
  have "forA (i # is) (\<lambda>issi _. remove_local_issi ck issi) () s = (Inr (), u)"
    by (simp add: t(1) u(1))
  moreover have "anchor_issis t = anchor_issis s" using t(3) by (simp add: settled_def)
  moreover have "settled s u" using settled_preorder(2) t(3) u(3) by (rule transpE)
  ultimately show ?case using u(2,4) t(4) by (intro exI [of _ u]) auto
qed

lemma process_line_effect:
  assumes "clock_ok ck" "core_ok s"
  obtains s' where "process_ars_log_line ck line s = (Inr (), s')" "core_ok s'" "settled s s'"
    "local_issis s' = snd (apply_ars_log_line line (local_issis s)) \<union> anchor_issis s"
proof -
  have anch: "anchor_issis s \<subseteq> local_issis s" and fin: "finite (local_issis s)"
    using core_okD [OF assms(2)] by blast+
  have pl: "process_ars_log_line ck line = (case ars_action line of
        (action, Some issi) \<Rightarrow>
          if action = ''register'' then ensure_local_issi ck issi True
          else if action = ''deregister'' then remove_local_issi ck issi else ret ()
      | (action, None) \<Rightarrow> if action = ''reset'' then reset_local_ars_issis ck else ret ())"
    by (simp add: process_ars_log_line_def ars_action_def)
  show thesis
  proof (cases line rule: apply_cases)
    case reset
    obtain s' where "forA (sorted_list_of_set (local_issis s - anchor_issis s))
        (\<lambda>issi _. remove_local_issi ck issi) () s = (Inr (), s')" "core_ok s'" "settled s s'"
      "local_issis s' = local_issis s - (set (sorted_list_of_set (local_issis s - anchor_issis s)) - anchor_issis s)"
      using remove_list_effect [OF assms] by blast
    with reset that show thesis using anch fin
      by (auto simp: pl reset_local_ars_issis_def)
  next
    case (register i)
    obtain s' where "ensure_local_issi ck i True s = (Inr (), s')" "core_ok s'" "settled s s'"
      "local_issis s' = (if in_24bit i then insert i (local_issis s) else local_issis s)"
      by (rule ensure_effect [OF assms(2,1)])
    with register that show thesis using anch by (auto simp: pl)
  next
    case (deregister i)
    obtain s' where "remove_local_issi ck i s = (Inr (), s')" "core_ok s'" "settled s s'"
      "local_issis s' = (if i \<in> anchor_issis s then local_issis s else local_issis s - {i})"
      by (rule remove_effect [OF assms(2,1)])
    moreover have "(if i \<in> anchor_issis s then local_issis s else local_issis s - {i}) =
        local_issis s - {i} \<union> anchor_issis s" using anch by auto
    ultimately show thesis using deregister that by (simp add: pl)
  next
    case none
    then have "process_ars_log_line ck line s = (Inr (), s)" by (simp add: pl)
    from that [OF this assms(2)] none anch show thesis
      using reflpD [OF settled_preorder(1)] by auto
  qed
qed

section \<open>Following the log\<close>

lemma effect_union: "ars_effect a (S \<union> A) \<union> A = ars_effect a S \<union> A"
  by (cases "(a, S)" rule: ars_effect.cases) auto

lemma apply_lines_union: "apply_ars_lines ls (S \<union> A) \<union> A = apply_ars_lines ls S \<union> A"
proof (induction ls rule: rev_induct)
  case Nil
  then show ?case by (simp add: apply_ars_lines_def)
next
  case (snoc l ls)
  have step: "apply_ars_lines (ls @ [l]) X = ars_effect (ars_action l) (apply_ars_lines ls X)" for X
    by (simp add: apply_ars_lines_def apply_effect)
  show ?case
    unfolding step using effect_union [of "ars_action l" "apply_ars_lines ls (S \<union> A)" A]
      effect_union [of "ars_action l" "apply_ars_lines ls S" A] snoc.IH by simp
qed

lemma apply_ars_lines_Cons:
  "apply_ars_lines (l # ls) S = apply_ars_lines ls (snd (apply_ars_log_line l S))"
  by (simp add: apply_ars_lines_def)

text \<open>C23: reading log lines into the running worker does to its radios what \<open>apply_ars_lines\<close> does
  to a set, except that the configured radios and the affiliation anchor are never given up; no line
  makes the worker raise, and whenever the radios changed the file of observed radios holds exactly
  the new ones.\<close>

theorem follow_log_refines:
  assumes "core_ok s" "clock_ok ck"
  shows "\<exists>s'. forA ls (\<lambda>line _. process_ars_log_line ck line) () s = (Inr (), s') \<and> core_ok s' \<and>
    settled s s' \<and> local_issis s' = apply_ars_lines ls (local_issis s) \<union> anchor_issis s"
  using assms(1)
proof (induction ls arbitrary: s)
  case Nil
  have "anchor_issis s \<subseteq> local_issis s" using core_okD(4) [OF Nil] .
  then show ?case using Nil reflpD [OF settled_preorder(1)]
    by (auto simp: apply_ars_lines_def)
next
  case (Cons l ls)
  obtain t where t: "process_ars_log_line ck l s = (Inr (), t)" "core_ok t" "settled s t"
    "local_issis t = snd (apply_ars_log_line l (local_issis s)) \<union> anchor_issis s"
    by (rule process_line_effect [OF assms(2) Cons.prems])
  obtain u where u: "forA ls (\<lambda>line _. process_ars_log_line ck line) () t = (Inr (), u)" "core_ok u"
    "settled t u" "local_issis u = apply_ars_lines ls (local_issis t) \<union> anchor_issis t"
    using Cons.IH [OF t(2)] by blast
  have "forA (l # ls) (\<lambda>line _. process_ars_log_line ck line) () s = (Inr (), u)"
    by (simp add: t(1) u(1))
  moreover have "anchor_issis t = anchor_issis s" using t(3) by (simp add: settled_def)
  then have "local_issis u = apply_ars_lines (l # ls) (local_issis s) \<union> anchor_issis s"
    unfolding u(4) t(4) apply_ars_lines_Cons by (simp add: apply_lines_union)
  moreover have "settled s u" using settled_preorder(2) t(3) u(3) by (rule transpE)
  ultimately show ?case using u(2) by blast
qed

lemma stream_lines_append:
  assumes "t \<noteq> []" "last t = CHR 0x0A"
  shows "stream_lines acc (t @ u) = stream_lines acc t @ stream_lines [] u"
  using assms
proof (induction "length t" arbitrary: t acc rule: less_induct)
  case less
  then obtain c t' where t: "t = c # t'" by (cases t) auto
  show ?case
  proof (cases "t' = []")
    case True
    then show ?thesis using less.prems t by simp
  next
    case False
    then have l: "last t' = CHR 0x0A" using less.prems t by simp
    have IH: "stream_lines a (t' @ u) = stream_lines a t' @ stream_lines [] u" for a
      using less.hyps [of t'] False l t by simp
    have d: "drop_lf (t' @ u) = drop_lf t' @ u" using False by (simp add: drop_lf_def)
    have "stream_lines [] (drop_lf t' @ u) = stream_lines [] (drop_lf t') @ stream_lines [] u"
    proof (cases "drop_lf t' = []")
      case True
      then show ?thesis by simp
    next
      case nz: False
      have "last (drop_lf t') = CHR 0x0A"
        using l False nz by (cases t') (auto simp: drop_lf_def split: if_splits)
      then show ?thesis using less.hyps [of "drop_lf t'"] nz t length_drop_lf [of t'] by simp
    qed
    then show ?thesis using IH d by (simp add: t)
  qed
qed

text \<open>The worker that read a log when it started and follows it from there knows the same radios
  as one that reads the whole log at once, whatever was appended, as long as the first part ended
  with a complete line.\<close>

theorem follow_equals_reread:
  assumes "core_ok s" "clock_ok ck"
    and "registration_path s = Some name" "registration_offset s = length before"
    and "before \<noteq> []" "last before = CHR 0x0A"
    and "local_issis s = apply_ars_lines (stream_lines [] before) {} \<union> anchor_issis s"
  shows "\<exists>s'. registration_tick ck (older @ [(name, Some (before @ appended))]) s = (Inr (), s') \<and>
    core_ok s' \<and> registration_offset s' = length (before @ appended) \<and>
    local_issis s' = apply_ars_lines (stream_lines [] (before @ appended)) {} \<union> anchor_issis s"
proof (cases "appended = []")
  case True
  then show ?thesis using assms by (simp add: registration_tick_def)
next
  case False
  obtain s' where s': "forA (stream_lines [] appended) (\<lambda>line _. process_ars_log_line ck line) () s = (Inr (), s')"
    "core_ok s'" "settled s s'"
    "local_issis s' = apply_ars_lines (stream_lines [] appended) (local_issis s) \<union> anchor_issis s"
    using follow_log_refines [OF assms(1,2)] by blast
  let ?u = "s'\<lparr>registration_offset := length (before @ appended)\<rparr>"
  have "registration_tick ck (older @ [(name, Some (before @ appended))]) s = (Inr (), ?u)"
    using assms(3,4) False s'(1) by (simp add: registration_tick_def)
  moreover have "core_ok ?u" using s'(2) by (simp add: core_ok_def)
  moreover have "local_issis ?u = apply_ars_lines (stream_lines [] (before @ appended)) {} \<union> anchor_issis s"
    unfolding stream_lines_append [OF assms(5,6)]
    using s'(4) assms(7) apply_lines_union [of "stream_lines [] appended"
        "apply_ars_lines (stream_lines [] before) {}" "anchor_issis s"]
    by (simp add: apply_ars_lines_def)
  ultimately show ?thesis by (intro exI [of _ ?u]) simp
qed

section \<open>Sessions and routes\<close>

definition recoveries :: "'b core_scheme \<Rightarrow> int" where
  "recoveries s = counter ''brewUplinkSessionRecoveries'' (bio s)"

text \<open>The times at which a sequence of rejected calls makes the worker drop its connection.\<close>

primrec reconnect_times :: "clock list \<Rightarrow> 'b core_scheme \<Rightarrow> real list" where
  "reconnect_times [] s = []"
| "reconnect_times (ck # cks) s =
     (let s' = snd (recover_rejected_uplink_session ck s)
      in (if recoveries s' = recoveries s then [] else [mono ck]) @ reconnect_times cks s')"

lemma recover_cases:
  obtains (suppressed) i where "mono ck < last_session_recovery s + 60"
      "recover_rejected_uplink_session ck s = (Inr (), s\<lparr>bio := i\<rparr>)"
      "recoveries (s\<lparr>bio := i\<rparr>) = recoveries s" "connected i = connected (bio s)"
  | (reconnect) i where "last_session_recovery s + 60 \<le> mono ck"
      "recover_rejected_uplink_session ck s =
         (Inr (), s\<lparr>last_session_recovery := mono ck, bio := i\<rparr>)"
      "recoveries (s\<lparr>last_session_recovery := mono ck, bio := i\<rparr>) = recoveries s + 1"
      "\<not> connected i" "\<not> socket_open i"
proof (cases "mono ck - last_session_recovery s < 60")
  case True
  then show thesis
    by (intro suppressed [of "status_increment ''brewUplinkSessionRecoverySuppressed'' (bio s)"])
      (auto simp: recover_rejected_uplink_session_def recoveries_def)
next
  case False
  then show thesis
    by (intro reconnect [of "close_socket (status_set [(''connected'', PBool False),
          (''registered'', PBool False), (''affiliated'', PBool False),
          (''lastUplinkSessionRecoveryAt'', PStr (utc ck))]
          (status_increment ''brewUplinkSessionRecoveries'' (bio s)))"]) (auto simp: recover_rejected_uplink_session_def recoveries_def counter_def
        close_socket_def status_set_def status_increment_by_def)
qed

text \<open>However often the server rejects the end of an uplink call, the worker reconnects only
  after a minute without a reconnect: two reconnects are never less than 60 seconds apart, the
  counter counts them, and each one leaves the transport closed.\<close>

theorem recovery_cooldown:
  "sorted_wrt (\<lambda>a b. a + 60 \<le> b) (reconnect_times cks s) \<and>
   list_all (\<lambda>t. last_session_recovery s + 60 \<le> t) (reconnect_times cks s) \<and>
   recoveries (snd (forA cks (\<lambda>ck _. recover_rejected_uplink_session ck) () s)) =
     recoveries s + int (length (reconnect_times cks s))"
proof (induction cks arbitrary: s)
  case Nil
  then show ?case by simp
next
  case (Cons ck cks)
  show ?case
  proof (cases rule: recover_cases [of ck s])
    case (suppressed i)
    then show ?thesis using Cons.IH [of "s\<lparr>bio := i\<rparr>"] by simp
  next
    case (reconnect i)
    let ?t = "s\<lparr>last_session_recovery := mono ck, bio := i\<rparr>"
    have "list_all (\<lambda>t. mono ck + 60 \<le> t) (reconnect_times cks ?t)"
      using Cons.IH [of ?t] by simp
    moreover have "reconnect_times (ck # cks) s = mono ck # reconnect_times cks ?t"
      using reconnect by simp
    ultimately show ?thesis using Cons.IH [of ?t] reconnect
      by (auto simp: list_all_iff)
  qed
qed

text \<open>The messages of an affiliation change, for an undisturbed network.\<close>

definition subscriber_frame :: "clock \<Rightarrow> byte \<Rightarrow> int list \<Rightarrow> int \<Rightarrow> bytes" where
  "subscriber_frame ck t gs i = [BREW_CLASS_SUBSCRIBER, t] @ le_bytes 4 i @
     le_bytes 8 (ns ck div 10 ^ 9) @ le_bytes 4 (ns ck mod 10 ^ 9) @ concat (map (le_bytes 4) gs)"

definition affiliation_frames :: "clock \<Rightarrow> byte \<Rightarrow> int list \<Rightarrow> int set \<Rightarrow> bytes list" where
  "affiliation_frames ck t gs issis =
     (if gs = [] then [] else map (subscriber_frame ck t gs) (sorted_list_of_set issis))"

definition online :: "io \<Rightarrow> bool" where
  "online i \<longleftrightarrow> connected i \<and> socket_open i \<and> net i = (\<lambda>_. None)"

lemma online_send: "online i \<Longrightarrow> send p i = (True, i\<lparr>attempts := attempts i + 1, sent := sent i @ [p]\<rparr>)"
  by (simp add: online_def send_def send_many_def)

lemma online_simps [simp]:
  "online (i\<lparr>attempts := n, sent := ms\<rparr>) = online i" "online (status_set vs i) = online i"
  "online (status_increment_by k d i) = online i" "online (i\<lparr>dynamic_file := f\<rparr>) = online i"
  "online (i\<lparr>observed_file := g\<rparr>) = online i"
  by (simp_all add: online_def)

lemma send_subscriber_online:
  assumes "clock_ok ck" "packable gs" "in_24bit i" "online (bio s)"
  shows "send_subscriber ck t gs i s = (Inr True, s\<lparr>bio := (bio s)\<lparr>attempts := attempts (bio s) + 1,
    sent := sent (bio s) @ [subscriber_frame ck t gs i]\<rparr>\<rparr>)"
  unfolding send_subscriber_def on_io_def send_built_def subscriber_msg_total [OF assms(1-3)]
    subscriber_frame_def [symmetric]
  by (simp add: online_send [OF assms(4)])

lemma affiliation_loop_online:
  assumes "clock_ok ck" "packable gs" "list_all in_24bit is" "online (bio s)"
  shows "\<exists>n. forA is (\<lambda>issi _. thenA (send_subscriber ck t gs issi) (ret ())) () s =
    (Inr (), s\<lparr>bio := (bio s)\<lparr>attempts := n,
       sent := sent (bio s) @ map (subscriber_frame ck t gs) is\<rparr>\<rparr>)"
  using assms(3,4)
proof (induction "is" arbitrary: s)
  case Nil
  show ?case by (intro exI [of _ "attempts (bio s)"]) simp
next
  case (Cons i "is")
  let ?t = "s\<lparr>bio := (bio s)\<lparr>attempts := attempts (bio s) + 1,
    sent := sent (bio s) @ [subscriber_frame ck t gs i]\<rparr>\<rparr>"
  have one: "send_subscriber ck t gs i s = (Inr True, ?t)"
    using Cons.prems assms(1,2) by (intro send_subscriber_online) simp_all
  obtain n where "forA is (\<lambda>issi _. thenA (send_subscriber ck t gs issi) (ret ())) () ?t =
    (Inr (), ?t\<lparr>bio := (bio ?t)\<lparr>attempts := n,
       sent := sent (bio ?t) @ map (subscriber_frame ck t gs) is\<rparr>\<rparr>)"
    using Cons.IH [of ?t] Cons.prems by auto
  then show ?case by (intro exI [of _ n]) (simp add: one)
qed

lemma send_affiliation_online:
  assumes "clock_ok ck" "packable gs" "core_ok s" "online (bio s)"
  obtains n where "send_affiliation ck t gs s = (Inr (), s\<lparr>bio := (bio s)\<lparr>attempts := n,
    sent := sent (bio s) @ affiliation_frames ck t gs (local_issis s)\<rparr>\<rparr>)"
proof (cases "gs = []")
  case True
  have "send_affiliation ck t gs s = (Inr (), s\<lparr>bio := (bio s)\<lparr>attempts := attempts (bio s),
      sent := sent (bio s)\<rparr>\<rparr>)" using True by (simp add: send_affiliation_def)
  then show thesis using that [of "attempts (bio s)"] True by (simp add: affiliation_frames_def)
next
  case False
  have "list_all in_24bit (sorted_list_of_set (local_issis s))"
    using core_okD(3) [OF assms(3)] by (simp add: valid_ids_def list_all_iff)
  from affiliation_loop_online [OF assms(1,2) this assms(4)] show thesis
    using that False assms(4) by (auto simp: send_affiliation_def online_def affiliation_frames_def)
qed

lemma packable_subset: "set gs \<subseteq> set hs \<union> {g. in_24bit g} \<Longrightarrow> packable hs \<Longrightarrow> packable gs"
  unfolding packable_def in_24bit_def by force

lemma install_core_ok:
  assumes "core_ok s" "routing_ok cfg"
  shows "core_ok (s\<lparr>brt := install_config cfg (brt s)\<rparr>)"
proof -
  note ok = core_okD [OF assms(1)]
  have f: "finite (static_brew_groups cfg)" and b: "\<forall>g \<in> static_brew_groups cfg. in_24bit g"
    using assms(2) by (simp_all add: routing_ok_def)
  have r: "router_ok (install_config cfg (brt s))" by (rule router_ok_install [OF ok(1) f])
  have "set (groups (install_config cfg (brt s))) \<subseteq> set (groups (brt s)) \<union> {g. in_24bit g}"
    unfolding groups_set [OF r] groups_set [OF ok(1)] using b by (auto simp: install_config_dynamic)
  then have "packable (groups (install_config cfg (brt s)))" using packable_subset ok(2) by blast
  then show ?thesis using assms r by (simp add: core_ok_def)
qed

lemma packable_difference:
  "packable gs \<Longrightarrow> packable (sorted_list_of_set (set gs - A))"
  by (auto simp: packable_def)

text \<open>C36: when the routing file has changed and parses, the worker switches to the new routing,
  forgets the dynamic routes that became static, saves the rest, and tells the server exactly the
  difference: every local radio leaves the groups that are gone and joins those that are new.\<close>

theorem reload_announces_difference:
  assumes "core_ok s" "clock_ok ck" "online (bio s)"
    and "parse_routing document = Inr cfg" "mtime \<noteq> routing_mtime s"
    and "gone = sorted_list_of_set (set (groups (brt s)) - set (groups (install_config cfg (brt s))))"
    and "fresh = sorted_list_of_set (set (groups (install_config cfg (brt s))) - set (groups (brt s)))"
  shows "\<exists>s'. reload_routing_if_changed ck boot (Inr (mtime, Inr document)) s = (Inr (), s') \<and>
    core_ok s' \<and> brt s' = install_config cfg (brt s) \<and> routing_mtime s' = mtime \<and>
    dynamic_file (bio s') = Some (save_dynamic_routes boot (brt s')) \<and>
    sent (bio s') = sent (bio s) @
      affiliation_frames ck SUBSCRIBER_DEAFFILIATE gone (local_issis s) @
      affiliation_frames ck SUBSCRIBER_AFFILIATE fresh (local_issis s)"
proof -
  let ?r = "install_config cfg (brt s)"
  let ?t = "s\<lparr>brt := ?r, bio := (bio s)\<lparr>dynamic_file := Some (save_dynamic_routes boot ?r)\<rparr>,
    routing_mtime := mtime\<rparr>"
  have ok0: "core_ok (s\<lparr>brt := ?r\<rparr>)" by (rule install_core_ok [OF assms(1) parse_routing_ok [OF assms(4)]])
  then have ok: "core_ok ?t" by (simp add: core_ok_def)
  have on: "online (bio ?t)" using assms(3) by simp
  have pg: "packable gone" "packable fresh"
    using packable_difference [OF core_okD(2) [OF assms(1)]] packable_difference [OF core_okD(2) [OF ok0]]
    by (simp_all add: assms(6,7))
  obtain n where a: "send_affiliation ck SUBSCRIBER_DEAFFILIATE gone ?t = (Inr (), ?t\<lparr>bio := (bio ?t)\<lparr>attempts := n,
    sent := sent (bio ?t) @ affiliation_frames ck SUBSCRIBER_DEAFFILIATE gone (local_issis ?t)\<rparr>\<rparr>)"
    by (rule send_affiliation_online [OF assms(2) pg(1) ok on])
  let ?u = "?t\<lparr>bio := (bio ?t)\<lparr>attempts := n, sent := sent (bio ?t) @ affiliation_frames ck SUBSCRIBER_DEAFFILIATE gone (local_issis ?t)\<rparr>\<rparr>"
  have oku: "core_ok ?u" using ok by (simp add: core_ok_def)
  have onu: "online (bio ?u)" using assms(3) by (simp add: online_def)
  obtain m where b: "send_affiliation ck SUBSCRIBER_AFFILIATE fresh ?u = (Inr (), ?u\<lparr>bio := (bio ?u)\<lparr>attempts := m,
    sent := sent (bio ?u) @ affiliation_frames ck SUBSCRIBER_AFFILIATE fresh (local_issis ?u)\<rparr>\<rparr>)"
    by (rule send_affiliation_online [OF assms(2) pg(2) oku onu])
  let ?v = "?u\<lparr>bio := (bio ?u)\<lparr>attempts := m, sent := sent (bio ?u) @ affiliation_frames ck SUBSCRIBER_AFFILIATE fresh (local_issis ?u)\<rparr>\<rparr>"
  let ?w = "?v\<lparr>bio := status_set [(''lastError'', PNone),
          (''staticTalkgroups'', ints_value (sorted_list_of_set (static_brew_groups cfg))),
          (''dynamicTalkgroups'', snapshot_value ?r),
          (''talkgroupMappings'', mappings_value cfg)] (bio ?v)\<rparr>"
  have "reload_routing_if_changed ck boot (Inr (mtime, Inr document)) s = install_routing ck boot mtime cfg s"
    using assms(4,5) by (simp add: reload_routing_if_changed_def)
  also have "\<dots> = (Inr (), ?w)"
  proof -
    have t1: "save_routes boot (s\<lparr>brt := ?r\<rparr>) =
        (Inr (), s\<lparr>brt := ?r, bio := (bio s)\<lparr>dynamic_file := Some (save_dynamic_routes boot ?r)\<rparr>\<rparr>)"
      using core_okD(8) [OF assms(1)] by simp
    show ?thesis
      using a b t1 by (simp add: install_routing_def Let_def assms(6,7))
  qed
  finally have run: "reload_routing_if_changed ck boot (Inr (mtime, Inr document)) s = (Inr (), ?w)" .
  show ?thesis
    by (intro exI [of _ ?w] conjI run) (use ok in \<open>simp_all add: core_ok_def\<close>)
qed

text \<open>A routing file that cannot be read or does not parse changes nothing but the status, as
  long as the failure is one of the exceptions the reload expects; any other exception leaves the
  state as it was and ends the routing thread.\<close>

theorem reload_failure:
  assumes "file = Inl e \<or> file = Inr (mtime, document) \<and> mtime \<noteq> routing_mtime s \<and>
      bindE document parse_routing = Inl e"
  shows "reload_routing_if_changed ck boot file s =
    (if reload_caught e
     then (Inr (), s\<lparr>bio := status_set [(''lastError'', PStr (''routing_reload_'' @ error_class e))] (bio s)\<rparr>)
     else (Inl e, s))"
  using assms by (auto simp: reload_routing_if_changed_def)

definition broken_routing :: pyval where
  "broken_routing = PDict [(''routing'', PDict [(''talkgroupMappings'', PList [PDict [(''brew'', PInt 26)]])])]"

text \<open>One mapping without its P25 talkgroup is enough for the second case: the pass of the
  routing loop ends with a KeyError, which nothing catches, so that routes no longer expire and
  later changes of the file are not seen.\<close>

theorem missing_p25_ends_routing_loop:
  "routing_tick ck boot (Inr (routing_mtime s + 1, Inr broken_routing)) s = (Inl (KeyError ''p25''), s) \<and>
   \<not> reload_caught (KeyError ''p25'')"
proof -
  have "parse_routing broken_routing = Inl (KeyError ''p25'')"
    by (simp add: broken_routing_def parse_routing_def py_or_def Let_def reload_mapping_def add_mapping_def)
  then show ?thesis
    by (simp add: routing_tick_def reload_routing_if_changed_def reload_caught_def)
qed

section \<open>Examples\<close>

definition idle_io :: io where
  "idle_io = \<lparr>data = status_init ''now'', counters = [], socket_open = True, connected = True,
     net = (\<lambda>_. None), attempts = 0, sent = [], dynamic_file = None, observed_file = None\<rparr>"

definition example_router :: router where
  "example_router = \<lparr>rt_config = \<lparr>p25_to_brew = [(9, 26)], brew_to_p25 = [(26, 9)],
       static_brew_groups = {26}, dynamic_timeout_seconds = 600, disconnect_talkgroup = 4000\<rparr>,
     dynamic = [(91, \<lparr>last_active_monotonic = 0, last_active_epoch = 0\<rparr>)]\<rparr>"

definition example_core :: core where
  "example_core = \<lparr>bio = idle_io, brt = example_router, local_issis = {7}, anchor_issis = {},
     registration_path = Some ''log'', registration_offset = 1,
     last_subscriber_refresh = 0, last_session_recovery = 0, routing_mtime = 0,
     owned_uuids = [], ignored_uuids = {}, disk_error = None\<rparr>"

definition example_clock :: clock where
  "example_clock = \<lparr>mono = 100, epoch = 1700000000, ns = 1700000000000000000, utc = ''now''\<rparr>"

lemma example_ok: "core_ok example_core" "clock_ok example_clock" "online (bio example_core)"
  by (simp_all add: core_ok_def example_core_def example_router_def example_clock_def clock_ok_def
      router_defs groups_def packable_def in_24bit_def idle_io_def online_def dict_ok_def
      routing_ok_def tables_ok_def)

lemma registration_line:
  "ars_action ''recognized Motorola SCEP ARS registration, llId = 42'' = (''register'', Some 42)"
proof -
  have "contains ARS_SESSION_RESET_MARKER ''recognized Motorola SCEP ARS registration, llId = 42'' = False"
    by (simp add: contains_def ARS_SESSION_RESET_MARKER_def sublist_code)
  moreover have "rsearch ARS_REGISTRATION_RE ''recognized Motorola SCEP ARS registration, llId = 42'' = Some [''42'']"
  proof -
    have "rmatch ARS_REGISTRATION_RE ''recognized Motorola SCEP ARS registration, llId = 42'' = Some [''42'']"
      by (simp add: ARS_REGISTRATION_RE_def starts_with_def is_digit_def code_def upt_rec)
    then show ?thesis by (simp add: rsearch_def upt_conv_Cons)
  qed
  ultimately show ?thesis
    by (simp add: ars_action_def apply_ars_log_line_def registration_match_def group1_def
        nat_of_digits_def digit_val_def code_def in_24bit_def)
qed

theorem follow_log_refines_witness:
  "\<exists>s'. forA [''recognized Motorola SCEP ARS registration, llId = 42'']
       (\<lambda>line _. process_ars_log_line example_clock line) () example_core = (Inr (), s') \<and>
     local_issis s' = {7, 42} \<and> observed_file (bio s') = Some (save_observed_issis {7, 42})"
proof -
  let ?l = "''recognized Motorola SCEP ARS registration, llId = 42''"
  obtain s' where s': "forA [?l] (\<lambda>line _. process_ars_log_line example_clock line) () example_core = (Inr (), s')"
    "settled example_core s'"
    "local_issis s' = apply_ars_lines [?l] (local_issis example_core) \<union> anchor_issis example_core"
    using follow_log_refines [OF example_ok(1,2), of "[?l]"] by blast
  have "snd (apply_ars_log_line ?l {7}) = insert 42 {7}"
    by (simp add: apply_effect registration_line)
  then have l: "local_issis s' = {7, 42}"
    using s'(3) by (simp add: apply_ars_lines_def example_core_def insert_commute)
  moreover have "local_issis example_core = {7}" by (simp add: example_core_def)
  ultimately have "observed_file (bio s') = Some (save_observed_issis {7, 42})"
    using s'(2) by (auto simp: settled_def)
  then show ?thesis using s'(1) l by blast
qed

theorem follow_equals_reread_witness:
  "\<exists>s'. registration_tick example_clock [(''log'', Some [CHR 0x0A])]
     (example_core\<lparr>local_issis := {}, anchor_issis := {}\<rparr>) = (Inr (), s') \<and>
     registration_offset s' = 1 \<and> local_issis s' = {}"
proof -
  let ?s = "example_core\<lparr>local_issis := {}, anchor_issis := {}\<rparr>"
  have ok: "core_ok ?s" using example_ok(1) by (simp add: core_ok_def)
  have act: "ars_action [CHR 0x0A] = (''none'', None)"
    by (simp add: ars_action_def apply_ars_log_line_def registration_match_def rsearch_def
        ARS_REGISTRATION_RE_def ARS_REFRESH_RE_def ARS_DISCONNECT_RE_def starts_with_def
        contains_def ARS_SESSION_RESET_MARKER_def sublist_code upt_rec)
  have none: "apply_ars_lines (stream_lines [] [CHR 0x0A]) {} = {}"
    by (simp add: apply_ars_lines_def apply_effect act)
  show ?thesis
    using follow_equals_reread [OF ok example_ok(2), of "''log''" "[CHR 0x0A]" "[]" "[]"] none
    by (auto simp: example_core_def)
qed

theorem reload_announces_difference_witness:
  "\<exists>s'. reload_routing_if_changed example_clock ''boot'' (Inr (1, Inr (PDict [(''routing'',
       PDict [(''staticTalkgroups'', PList [PInt 91])])]))) example_core = (Inr (), s') \<and>
     groups (brt s') = [91] \<and>
     sent (bio s') = [subscriber_frame example_clock SUBSCRIBER_DEAFFILIATE [26] 7]"
proof -
  let ?doc = "PDict [(''routing'', PDict [(''staticTalkgroups'', PList [PInt 91])])]"
  let ?cfg = "\<lparr>p25_to_brew = [], brew_to_p25 = [], static_brew_groups = {91},
      dynamic_timeout_seconds = 600, disconnect_talkgroup = 4000\<rparr>"
  have p: "parse_routing ?doc = Inr ?cfg"
    by (simp add: parse_routing_def py_or_def Let_def int_set_def in_24bit_def)
  have g: "groups (brt example_core) = [26, 91]" "groups (install_config ?cfg (brt example_core)) = [91]"
    by (simp_all add: groups_def example_core_def example_router_def install_config_dynamic)
  have m: "1 \<noteq> routing_mtime example_core" by (simp add: example_core_def)
  have d: "[26] = sorted_list_of_set (set (groups (brt example_core)) -
      set (groups (install_config ?cfg (brt example_core))))"
    "[] = sorted_list_of_set (set (groups (install_config ?cfg (brt example_core))) -
      set (groups (brt example_core)))"
    unfolding g by (simp_all add: insert_Diff_if)
  show ?thesis
    using reload_announces_difference [OF example_ok p m d, of "''boot''"] g(2)
    by (auto simp: affiliation_frames_def example_core_def idle_io_def)
qed

theorem reload_failure_witness:
  "reload_routing_if_changed example_clock ''boot'' (Inl (OSError ''FileNotFoundError'')) example_core =
    (Inr (), example_core\<lparr>bio := status_set
       [(''lastError'', PStr ''routing_reload_FileNotFoundError'')] (bio example_core)\<rparr>)"
  using reload_failure [of "Inl (OSError ''FileNotFoundError'')" "OSError ''FileNotFoundError''"]
  by (simp add: reload_caught_def error_class_def)

end
