(* ===== verification/Sds_Pdu.thy ===== *)
theory Sds_Pdu
  imports Brew_Wire
begin

text \<open>
  Text messages as TETRA SDS type 4 PDUs: \<^verbatim>\<open>BitWriter\<close>, \<^verbatim>\<open>build_text_sds_type4_pdu\<close> and
  \<^verbatim>\<open>parse_text_sds_type4_pdu\<close>. Text is a list of Unicode code points here. \<^verbatim>\<open>utf-16-be\<close> and
  \<^verbatim>\<open>utf-8\<close> are written out; of the 8 bit code pages \<^verbatim>\<open>iso8859_1\<close> is the identity and the others
  are the parameter \<open>charmap\<close>, which gives the code point of a byte or none where the page leaves
  it undefined.
\<close>

type_synonym utext = "nat list"

section \<open>Encodings\<close>

definition surrogate :: "nat \<Rightarrow> bool" where
  "surrogate c \<longleftrightarrow> 0xD800 \<le> c \<and> c < 0xE000"

definition scalar :: "nat \<Rightarrow> bool" where
  "scalar c \<longleftrightarrow> c < 0x110000 \<and> \<not> surrogate c"

definition utf16_units :: "nat \<Rightarrow> nat list" where
  "utf16_units c = (if c < 0x10000 then [c]
     else [0xD800 + (c - 0x10000) div 0x400, 0xDC00 + (c - 0x10000) mod 0x400])"

definition utf16_encode :: "utext \<Rightarrow> py_error + bytes" where
  "utf16_encode t =
     (if list_all (\<lambda>c. \<not> surrogate c) t
      then Inr (concat (map (\<lambda>u. be_bytes 2 (int u)) (concat (map utf16_units t))))
      else Inl (ValueError ''surrogates not allowed''))"

fun utf16_decode_units :: "nat list \<Rightarrow> py_error + utext" where
  "utf16_decode_units [] = Inr []"
| "utf16_decode_units (u # us) =
     (if \<not> surrogate u then bindE (utf16_decode_units us) (\<lambda>t. Inr (u # t))
      else case us of
          [] \<Rightarrow> Inl UnicodeDecodeError
        | v # vs \<Rightarrow>
            if u < 0xDC00 \<and> 0xDC00 \<le> v \<and> v < 0xE000
            then bindE (utf16_decode_units vs) (\<lambda>t. Inr ((0x10000 + (u - 0xD800) * 0x400 + (v - 0xDC00)) # t))
            else Inl UnicodeDecodeError)"

fun units_of_bytes :: "bytes \<Rightarrow> py_error + nat list" where
  "units_of_bytes [] = Inr []"
| "units_of_bytes [b] = Inl UnicodeDecodeError"
| "units_of_bytes (a # b # r) = bindE (units_of_bytes r) (\<lambda>us. Inr ((unat a * 256 + unat b) # us))"

definition utf16_decode :: "bytes \<Rightarrow> py_error + utext" where
  "utf16_decode bs = bindE (units_of_bytes bs) utf16_decode_units"

definition utf8_bytes :: "nat \<Rightarrow> nat list" where
  "utf8_bytes c =
     (if c < 0x80 then [c]
      else if c < 0x800 then [0xC0 + c div 64, 0x80 + c mod 64]
      else if c < 0x10000 then [0xE0 + c div 4096, 0x80 + c div 64 mod 64, 0x80 + c mod 64]
      else [0xF0 + c div 262144, 0x80 + c div 4096 mod 64, 0x80 + c div 64 mod 64, 0x80 + c mod 64])"

definition utf8_encode :: "utext \<Rightarrow> py_error + bytes" where
  "utf8_encode t =
     (if list_all (\<lambda>c. \<not> surrogate c) t
      then Inr (map of_nat (concat (map utf8_bytes t)))
      else Inl (ValueError ''surrogates not allowed''))"

section \<open>Writing bits\<close>

definition push :: "int \<Rightarrow> nat \<Rightarrow> bool list \<Rightarrow> bool list" where
  "push v width bits = bits @ map (\<lambda>shift. odd (v div 2 ^ shift)) (rev [0..<width])"

definition push_bytes :: "bytes \<Rightarrow> bool list \<Rightarrow> bool list" where
  "push_bytes data bits = fold (\<lambda>b. push (uint b) 8) data bits"

definition byte_of_bits :: "bool list \<Rightarrow> byte" where
  "byte_of_bits bs = word_of_int (fold (\<lambda>b v. 2 * v + of_bool b) bs 0)"

fun octets :: "bool list \<Rightarrow> bytes" where
  "octets [] = []"
| "octets (b # bs) = byte_of_bits (take 8 (b # bs)) # octets (drop 7 bs)"

definition writer_to_bytes :: "bool list \<Rightarrow> bytes" where
  "writer_to_bytes bits = octets (bits @ replicate ((8 - length bits mod 8) mod 8) False)"

abbreviation PID_TEXT_MESSAGING :: int where "PID_TEXT_MESSAGING \<equiv> 0x82"
abbreviation TEXT_CODING_UTF16BE :: int where "TEXT_CODING_UTF16BE \<equiv> 0x1A"

definition build_text_sds_type4_pdu :: "utext \<Rightarrow> int \<Rightarrow> py_error + bytes" where
  "build_text_sds_type4_pdu text message_reference =
     (let header = push TEXT_CODING_UTF16BE 7 (push 0 1 (push (message_reference mod 256) 8
            (push 0 1 (push 0 1 (push 1 2 (push 0 4 (push PID_TEXT_MESSAGING 8 [])))))))
      in bindE (utf16_encode text) (\<lambda>data. Inr (writer_to_bytes (push_bytes data header))))"

section \<open>Reading a PDU\<close>

definition read_bit :: "bytes \<Rightarrow> nat \<Rightarrow> py_error + bool" where
  "read_bit payload i =
     (if i div 8 < length payload then Inr (bit (payload ! (i div 8)) (7 - i mod 8)) else Inl IndexError)"

definition read_bits :: "bytes \<Rightarrow> nat \<Rightarrow> nat \<Rightarrow> py_error + int" where
  "read_bits payload off n =
     foldE (\<lambda>i v. bindE (read_bit payload i) (\<lambda>b. Inr (2 * v + of_bool b))) [off..<off + n] 0"

definition TEXT_CODINGS_8BIT :: "int \<Rightarrow> string option" where
  "TEXT_CODINGS_8BIT coding = map_of
     [(0x01, ''iso8859_1''), (0x02, ''iso8859_2''), (0x03, ''iso8859_3''), (0x04, ''iso8859_4''),
      (0x05, ''iso8859_5''), (0x06, ''iso8859_6''), (0x07, ''iso8859_7''), (0x08, ''iso8859_8''),
      (0x09, ''iso8859_9''), (0x0A, ''iso8859_10''), (0x0B, ''iso8859_13''), (0x0C, ''iso8859_14''),
      (0x0D, ''iso8859_15''), (0x0E, ''cp437''), (0x0F, ''cp737''), (0x10, ''cp850''),
      (0x11, ''cp852''), (0x12, ''cp855''), (0x13, ''cp857''), (0x14, ''cp860''), (0x15, ''cp861''),
      (0x16, ''cp863''), (0x17, ''cp865''), (0x18, ''cp866''), (0x19, ''cp869'')] coding"

type_synonym charmap = "string \<Rightarrow> byte \<Rightarrow> nat option"

definition decode_8bit :: "charmap \<Rightarrow> string \<Rightarrow> bytes \<Rightarrow> py_error + utext" where
  "decode_8bit cm page bs = mapE (\<lambda>b.
     if page = ''iso8859_1'' then Inr (unat b)
     else case cm page b of None \<Rightarrow> Inl UnicodeDecodeError | Some c \<Rightarrow> Inr c) bs"

definition is_uspace :: "nat \<Rightarrow> bool" where
  "is_uspace c \<longleftrightarrow> (9 \<le> c \<and> c \<le> 13) \<or> (28 \<le> c \<and> c \<le> 32) \<or>
     c \<in> {0x85, 0xA0, 0x1680, 0x2028, 0x2029, 0x202F, 0x205F, 0x3000} \<or> (0x2000 \<le> c \<and> c \<le> 0x200A)"

definition tidy :: "utext \<Rightarrow> utext" where
  "tidy t = strip_by is_uspace (rstrip_by (\<lambda>c. c = 0) t)"

text \<open>The text bytes decoded with the codec of the coding field; decoding errors give no text.\<close>

definition decode_text :: "charmap \<Rightarrow> int \<Rightarrow> bytes \<Rightarrow> utext option" where
  "decode_text cm coding text_bytes =
     (let bs = (if coding = TEXT_CODING_UTF16BE \<and> odd (length text_bytes) then butlast text_bytes else text_bytes);
          decoded = (if coding = TEXT_CODING_UTF16BE then Some (utf16_decode bs)
                     else map_option (\<lambda>page. decode_8bit cm page bs) (TEXT_CODINGS_8BIT coding))
      in case decoded of
           None \<Rightarrow> None
         | Some r \<Rightarrow> if bs = [] then None
                     else case r of Inl e \<Rightarrow> None | Inr t \<Rightarrow> if tidy t = [] then None else Some (tidy t))"

definition parse_text_sds_type4_pdu :: "charmap \<Rightarrow> bytes \<Rightarrow> int option \<Rightarrow> py_error + utext option" where
  "parse_text_sds_type4_pdu cm payload length_bits_opt =
     (let available = int (length payload) * 8;
          length_bits = nat (min (max 0 (case length_bits_opt of None \<Rightarrow> available | Some n \<Rightarrow> n)) available)
      in if length_bits < 32 then Inr None
      else bindE (read_bits payload 0 8) (\<lambda>pid.
        if pid \<noteq> PID_TEXT_MESSAGING then Inr None
        else bindE (read_bits payload 8 4) (\<lambda>mtype.
        if mtype \<noteq> 0 then Inr None
        else bindE (read_bits payload 24 1) (\<lambda>timestamp_used.
        if timestamp_used \<noteq> 0 \<and> length_bits < 25 + 24 + 7 then Inr None
        else let off = (if timestamp_used \<noteq> 0 then 49 else 25) in
          bindE (read_bits payload off 7) (\<lambda>coding.
          let off = off + 7; text_bits = length_bits - off in
          if text_bits < 8 then Inr None
          else bindE (mapE (\<lambda>k. bindE (read_bits payload (off + 8 * k) 8) (\<lambda>v. Inr (word_of_int v :: byte)))
                 [0..<text_bits div 8]) (\<lambda>text_bytes.
            Inr (decode_text cm coding text_bytes)))))))"

section \<open>Reading never fails\<close>

lemma read_bits_total:
  assumes "off + n \<le> 8 * length payload"
  shows "\<exists>v. read_bits payload off n = Inr v"
  using assms
proof (induction n)
  case 0
  then show ?case by (simp add: read_bits_def)
next
  case (Suc n)
  then obtain v where "read_bits payload off n = Inr v" by auto
  moreover have "(off + n) div 8 < length payload" using Suc.prems by linarith
  ultimately show ?case by (simp add: read_bits_def foldE_append read_bit_def)
qed

lemma mapE_all_Inr: "(\<And>x. x \<in> set xs \<Longrightarrow> \<exists>y. f x = Inr y) \<Longrightarrow> \<exists>ys. mapE f xs = Inr ys"
proof (induction xs)
  case (Cons x xs)
  obtain y where "f x = Inr y" using Cons.prems by auto
  moreover obtain ys where "mapE f xs = Inr ys" using Cons by auto
  ultimately show ?case by simp
qed simp

lemma parse_text_sds_total:
  "\<exists>r. parse_text_sds_type4_pdu cm payload length_bits_opt = Inr r"
proof -
  let ?a = "int (length payload) * 8"
  define n where "n = nat (min (max 0 (case length_bits_opt of None \<Rightarrow> ?a | Some n \<Rightarrow> n)) ?a)"
  have n: "n \<le> 8 * length payload" by (simp add: n_def)
  show ?thesis
  proof (cases "n < 32")
    case True
    then show ?thesis by (simp add: parse_text_sds_type4_pdu_def Let_def n_def [symmetric])
  next
    case False
    have r: "\<exists>v. read_bits payload off k = Inr v" if "off + k \<le> n" for off k
      using read_bits_total [of off k payload] that n by simp
    obtain pid mt ts where h: "read_bits payload 0 8 = Inr pid" "read_bits payload 8 4 = Inr mt"
      "read_bits payload 24 1 = Inr ts" using r [of 0 8] r [of 8 4] r [of 24 1] False by auto
    have body: "\<exists>r. bindE (read_bits payload off 7) (\<lambda>coding.
        if n - (off + 7) < 8 then Inr None
        else bindE (mapE (\<lambda>k. bindE (read_bits payload (off + 7 + 8 * k) 8) (\<lambda>v. Inr (word_of_int v :: byte)))
               [0..<(n - (off + 7)) div 8]) (\<lambda>bs. Inr (decode_text cm coding bs))) = Inr r"
      if off: "off + 7 \<le> n" for off
    proof -
      obtain coding where c: "read_bits payload off 7 = Inr coding" using r [OF off] by blast
      have "\<exists>ys. mapE (\<lambda>k. bindE (read_bits payload (off + 7 + 8 * k) 8) (\<lambda>v. Inr (word_of_int v :: byte)))
          [0..<(n - (off + 7)) div 8] = Inr ys"
      proof (rule mapE_all_Inr)
        fix k assume "k \<in> set [0..<(n - (off + 7)) div 8]"
        then have "k < (n - (off + 7)) div 8" by simp
        then have "off + 7 + 8 * k + 8 \<le> n" using off by linarith
        then obtain v where "read_bits payload (off + 7 + 8 * k) 8 = Inr v" using r by blast
        then show "\<exists>y. bindE (read_bits payload (off + 7 + 8 * k) 8) (\<lambda>v. Inr (word_of_int v :: byte)) = Inr y"
          by simp
      qed
      then show ?thesis using c by auto
    qed
    show ?thesis
      using False h body [of 25] body [of 49]
      by (simp add: parse_text_sds_type4_pdu_def Let_def n_def [symmetric])
  qed
qed

text \<open>Whatever bytes arrive as a text PDU, with whatever length field, reading them raises no
  exception: every bit the reader asks for lies within the payload.\<close>

theorem parse_sds_total:
  "\<exists>r. parse_text_sds_type4_pdu cm payload length_bits_opt = Inr r"
  by (rule parse_text_sds_total)

section \<open>What a writer produced is read back\<close>

definition msb :: "nat \<Rightarrow> int \<Rightarrow> bool list" where
  "msb w v = map (\<lambda>shift. odd (v div 2 ^ shift)) (rev [0..<w])"

definition bits_val :: "bool list \<Rightarrow> int" where
  "bits_val bs = fold (\<lambda>b v. 2 * v + of_bool b) bs 0"

lemma push_msb: "push v w bits = bits @ msb w v"
  by (simp add: push_def msb_def)

lemma length_msb [simp]: "length (msb w v) = w"
  by (simp add: msb_def)

lemma msb_Suc: "msb (Suc w) v = odd (v div 2 ^ w) # msb w v"
  by (simp add: msb_def)

lemma fold_bits: "fold (\<lambda>b v. 2 * v + of_bool b) bs x = x * 2 ^ length bs + (bits_val bs :: int)"
  unfolding bits_val_def
proof (induction bs arbitrary: x)
  case (Cons b bs)
  have "fold (\<lambda>b v. 2 * v + of_bool b) (b # bs) x = (2 * x + of_bool b) * 2 ^ length bs + (fold (\<lambda>b v. 2 * v + of_bool b) bs 0 :: int)"
    using Cons.IH [of "2 * x + of_bool b"] by simp
  moreover have "fold (\<lambda>b v. 2 * v + of_bool b) (b # bs) 0 = (of_bool b) * 2 ^ length bs + (fold (\<lambda>b v. 2 * v + of_bool b) bs 0 :: int)"
    using Cons.IH [of "of_bool b"] by simp
  ultimately show ?case by (simp add: algebra_simps)
qed simp

lemma bits_val_msb: "bits_val (msb w v) = v mod 2 ^ w"
proof (induction w)
  case (Suc w)
  have "bits_val (msb (Suc w) v) = of_bool (odd (v div 2 ^ w)) * 2 ^ w + v mod 2 ^ w"
    using fold_bits [of "msb w v" "of_bool (odd (v div 2 ^ w))"] Suc.IH by (simp add: msb_Suc bits_val_def)
  also have "\<dots> = v mod 2 ^ Suc w"
    using zmod_zmult2_eq [of 2 v "2 ^ w"] by (simp add: mod_2_eq_odd algebra_simps)
  finally show ?case .
qed (simp add: msb_def bits_val_def)

lemma octets_msb: "octets (msb 8 v @ r) = word_of_int v # octets r"
proof -
  have "msb 8 v = hd (msb 8 v) # tl (msb 8 v)" by (simp add: msb_Suc numeral_eq_Suc)
  moreover have "take 8 (msb 8 v @ r) = msb 8 v" "drop 7 (tl (msb 8 v) @ r) = r" by simp_all
  ultimately have "octets (msb 8 v @ r) = byte_of_bits (msb 8 v) # octets r"
    by (metis append_Cons octets.simps(2))
  moreover have "byte_of_bits (msb 8 v) = word_of_int (v mod 2 ^ 8)"
    using bits_val_msb [of 8 v] by (simp add: byte_of_bits_def bits_val_def)
  moreover have "(word_of_int (v mod 2 ^ 8) :: byte) = word_of_int v"
    by (simp add: word_of_int_eq_iff take_bit_eq_mod)
  ultimately show ?thesis by simp
qed

lemma push_bytes_msb: "push_bytes data bits = bits @ concat (map (\<lambda>b. msb 8 (uint b)) data)"
  by (induction data arbitrary: bits) (simp_all add: push_bytes_def push_msb)

lemma length_push_bytes: "length (concat (map (\<lambda>b. msb 8 (uint b)) (data :: bytes))) = 8 * length data"
  by (induction data) simp_all

lemma octets_bytes: "octets (concat (map (\<lambda>b. msb 8 (uint b)) data)) = data"
  by (induction data) (simp_all add: octets_msb)

text \<open>The header is four whole bytes.\<close>

lemma build_text_sds_bytes:
  assumes "utf16_encode text = Inr data"
  shows "build_text_sds_type4_pdu text r = Inr ([0x82, 0x04, word_of_int r, 0x1A] @ data)"
proof -
  have a: "msb 4 0 @ msb 2 1 @ msb (Suc 0) 0 @ msb (Suc 0) 0 = msb 8 4" "msb (Suc 0) 0 @ msb 7 26 = msb 8 26"
    by (simp_all add: msb_Suc numeral_eq_Suc, simp_all add: msb_def)
  let ?body = "concat (map (\<lambda>b. msb 8 (uint b)) data)"
  have "msb 8 130 @ msb 4 0 @ msb 2 1 @ msb (Suc 0) 0 @ msb (Suc 0) 0 @ msb 8 (r mod 256) @ msb (Suc 0) 0 @ msb 7 26 @ ?body
      = msb 8 130 @ (msb 4 0 @ msb 2 1 @ msb (Suc 0) 0 @ msb (Suc 0) 0) @ msb 8 (r mod 256) @ (msb (Suc 0) 0 @ msb 7 26) @ ?body"
    by simp
  then have bits: "msb 8 130 @ msb 4 0 @ msb 2 1 @ msb (Suc 0) 0 @ msb (Suc 0) 0 @ msb 8 (r mod 256) @ msb (Suc 0) 0 @ msb 7 26 @ ?body
      = msb 8 130 @ msb 8 4 @ msb 8 (r mod 256) @ msb 8 26 @ ?body"
    by (simp only: a)
  have "(word_of_int (r mod 256) :: byte) = word_of_int r"
    by (simp add: word_of_int_eq_iff take_bit_eq_mod)
  then show ?thesis
    using assms
    by (simp add: build_text_sds_type4_pdu_def Let_def push_msb push_bytes_msb bits writer_to_bytes_def
        octets_msb octets_bytes length_push_bytes)
qed

lemma bit_byte: "bit (b :: byte) n = odd (uint b div 2 ^ n)"
  using bit_imp_le_length [of b n] by (auto simp: bit_iff_odd [of "uint b", symmetric] bit_uint_iff)

lemma read_bits_byte:
  assumes "k < length payload"
  shows "read_bits payload (8 * k) 8 = Inr (uint (payload ! k))"
proof -
  have idx: "(8 * k + i) div 8 = k" "(8 * k + i) mod 8 = i" if "i < 8" for i using that by simp_all
  have step: "foldE (\<lambda>i v. bindE (read_bit payload i) (\<lambda>b. Inr (2 * v + of_bool b))) [8 * k..<8 * k + n] 0 =
      Inr (bits_val (map (\<lambda>i. bit (payload ! k) (7 - i)) [0..<n]))" if "n \<le> 8" for n
    using that
  proof (induction n)
    case 0
    then show ?case by (simp add: bits_val_def)
  next
    case (Suc n)
    then have n: "n < 8" by simp
    then have ih: "foldE (\<lambda>i v. bindE (read_bit payload i) (\<lambda>b. Inr (2 * v + of_bool b))) [8 * k..<8 * k + n] 0 =
      Inr (bits_val (map (\<lambda>i. bit (payload ! k) (7 - i)) [0..<n]))" using Suc.IH by simp
    have "read_bit payload (8 * k + n) = Inr (bit (payload ! k) (7 - n))"
      using idx [OF n] assms by (simp add: read_bit_def)
    then show ?case using ih by (simp add: foldE_append bits_val_def)
  qed
  have "map (\<lambda>i. bit (payload ! k) (7 - i)) [0..<8] = msb 8 (uint (payload ! k))"
    by (simp add: msb_Suc numeral_eq_Suc bit_byte) (simp add: msb_def)
  then show ?thesis using step [of 8] bits_val_msb [of 8 "uint (payload ! k)"] uint_bounded [of "payload ! k"]
    by (simp add: read_bits_def)
qed

lemma utf16_round_trip:
  assumes "list_all scalar t"
  shows "\<exists>data. utf16_encode t = Inr data \<and> even (length data) \<and> utf16_decode data = Inr t"
proof -
  have unit: "list_all (\<lambda>u. u < 0x10000) (utf16_units c)" if "scalar c" for c
    using that by (auto simp: utf16_units_def scalar_def)
  have dec: "utf16_decode_units (concat (map utf16_units t)) = Inr t"
    using assms
  proof (induction t)
    case (Cons c t)
    show ?case
    proof (cases "c < 0x10000")
      case True
      then show ?thesis using Cons by (simp add: utf16_units_def scalar_def)
    next
      case False
      then have "surrogate (0xD800 + (c - 0x10000) div 0x400)"
        "0xD800 + (c - 0x10000) div 0x400 < 0xDC00" "0xDC00 + (c - 0x10000) mod 0x400 < 0xE000"
        using Cons.prems by (auto simp: scalar_def surrogate_def)
      moreover have "0x10000 + ((c - 0x10000) div 0x400) * 0x400 + (c - 0x10000) mod 0x400 = c"
        using False by simp
      ultimately show ?thesis using Cons False by (simp add: utf16_units_def)
    qed
  qed simp
  have bytes: "units_of_bytes (concat (map (\<lambda>u. be_bytes 2 (int u)) us)) = Inr us \<and>
      even (length (concat (map (\<lambda>u. be_bytes 2 (int u)) us)))" if "list_all (\<lambda>u. u < 0x10000) us" for us
    using that
  proof (induction us)
    case (Cons u us)
    have be: "be_bytes 2 (int u) = [word_of_int (int u div 256), word_of_int (int u)]"
      by (simp add: be_bytes_def)
    have "u div 256 < 256" using Cons.prems by auto
    then have "unat (word_of_int (int (u div 256)) :: byte) = u div 256"
      by (simp add: unat_of_nat)
    then have "unat (word_of_int (int u div 256) :: byte) = u div 256" by (simp add: zdiv_int)
    moreover have "unat (word_of_int (int u) :: byte) = u mod 256"
      by (simp add: unat_of_nat)
    ultimately show ?case using Cons by (simp add: be)
  qed simp
  have "list_all (\<lambda>u. u < 0x10000) (concat (map utf16_units t))"
    using assms unit by (induction t) auto
  moreover have "list_all (\<lambda>c. \<not> surrogate c) t" using assms by (auto simp: list_all_iff scalar_def)
  ultimately show ?thesis using bytes dec by (simp add: utf16_encode_def utf16_decode_def)
qed

lemma latin_utf16:
  assumes "list_all (\<lambda>c. c < 256) t"
  obtains utf16 where "utf16_encode t = Inr utf16" "length utf16 = 2 * length t"
proof -
  have sc: "list_all (\<lambda>c. \<not> surrogate c) t" "\<And>c. c \<in> set t \<Longrightarrow> utf16_units c = [c]"
    using assms by (auto simp: list_all_iff surrogate_def utf16_units_def)
  have "length (concat (map (\<lambda>u. be_bytes 2 (int u)) us)) = 2 * length us" for us
    by (induction us) simp_all
  moreover have "concat (map utf16_units t) = t"
    using sc(2) by (induction t) simp_all
  ultimately show thesis using sc(1) that by (simp add: utf16_encode_def)
qed

lemma header_fields:
  "read_bits ([0x82, 0x04, r, 0x1A] @ data) 0 8 = Inr 0x82" "read_bits ([0x82, 0x04, r, 0x1A] @ data) 8 4 = Inr 0"
  "read_bits ([0x82, 0x04, r, 0x1A] @ data) 24 1 = Inr 0" "read_bits ([0x82, 0x04, r, 0x1A] @ data) 25 7 = Inr 0x1A"
proof -
  show "read_bits ([0x82, 0x04, r, 0x1A] @ data) 0 8 = Inr 0x82"
    using read_bits_byte [of 0 "[0x82, 0x04, r, 0x1A] @ data"] by simp
  show "read_bits ([0x82, 0x04, r, 0x1A] @ data) 8 4 = Inr 0"
    by (simp add: read_bits_def read_bit_def upt_rec bit_byte)
  show "read_bits ([0x82, 0x04, r, 0x1A] @ data) 24 1 = Inr 0"
    by (simp add: read_bits_def read_bit_def upt_rec bit_byte)
  show "read_bits ([0x82, 0x04, r, 0x1A] @ data) 25 7 = Inr 0x1A"
    by (simp add: read_bits_def read_bit_def upt_rec bit_byte)
qed

lemma read_data:
  "mapE (\<lambda>k. bindE (read_bits ([a, b, c, d] @ data) (32 + 8 * k) 8) (\<lambda>v. Inr (word_of_int v :: byte)))
     [0..<length data] = Inr data"
proof -
  have "read_bits ([a, b, c, d] @ data) (32 + 8 * k) 8 = Inr (uint (data ! k))" if "k < length data" for k
    using read_bits_byte [of "4 + k" "[a, b, c, d] @ data"] that by (simp add: algebra_simps nth_append)
  then have "mapE (\<lambda>k. bindE (read_bits ([a, b, c, d] @ data) (32 + 8 * k) 8) (\<lambda>v. Inr (word_of_int v :: byte)))
      [0..<length data] = Inr (map (\<lambda>k. data ! k) [0..<length data])"
    by (intro mapE_total) simp
  then show ?thesis by (simp add: map_nth)
qed

lemma sds_text_built:
  assumes "list_all scalar text"
  shows "\<exists>payload. build_text_sds_type4_pdu text message_reference = Inr payload \<and>
    (\<exists>n. length payload = 4 + 2 * n) \<and>
    parse_text_sds_type4_pdu cm payload (Some (8 * int (length payload))) =
      Inr (if tidy text = [] then None else Some (tidy text)) \<and>
    parse_text_sds_type4_pdu cm payload None = Inr (if tidy text = [] then None else Some (tidy text))"
proof -
  obtain data where d: "utf16_encode text = Inr data" "even (length data)" "utf16_decode data = Inr text"
    using utf16_round_trip [OF assms] by blast
  let ?p = "[0x82, 0x04, word_of_int message_reference :: byte, 0x1A] @ data"
  have b: "build_text_sds_type4_pdu text message_reference = Inr ?p" by (rule build_text_sds_bytes [OF d(1)])
  obtain n where n: "length data = 2 * n" using d(2) by (elim evenE)
  have bits: "nat (8 * int (length ?p)) = 32 + 8 * length data" by simp
  have dt: "decode_text cm 26 data = (if tidy text = [] then None else Some (tidy text))"
  proof (cases "data = []")
    case True
    then have "text = []" using d(3) by (simp add: utf16_decode_def)
    then show ?thesis using True by (simp add: decode_text_def tidy_def strip_by_def lstrip_by_def rstrip_by_def)
  next
    case False
    then show ?thesis using d(2,3) by (simp add: decode_text_def)
  qed
  have core: "parse_text_sds_type4_pdu cm ?p l = Inr (if tidy text = [] then None else Some (tidy text))"
    if l: "l = None \<or> l = Some (8 * int (length ?p))" for l
  proof -
    have len: "nat (min (max 0 (case l of None \<Rightarrow> int (length ?p) * 8 | Some n \<Rightarrow> n)) (int (length ?p) * 8)) =
        32 + 8 * length data" using l by auto
    show ?thesis
    proof (cases "data = []")
      case True
      then show ?thesis using header_fields [of "word_of_int message_reference" data] dt
        unfolding parse_text_sds_type4_pdu_def Let_def len by (simp add: decode_text_def split: if_splits)
    next
      case False
      then have "\<not> 8 * length data < 8" by (cases data) simp_all
      then show ?thesis using header_fields [of "word_of_int message_reference" data] dt
          read_data [of "0x82" "0x04" "word_of_int message_reference" "0x1A" data]
        unfolding parse_text_sds_type4_pdu_def Let_def len by simp
    qed
  qed
  have "length ?p = 4 + 2 * n" using n by simp
  then show ?thesis using b core by blast
qed

text \<open>C37: a text of Unicode characters that is built into a PDU, with any message reference, is read
  back, with or without the length field, up to the NUL characters and white space that the reader
  strips; a text with nothing else in it is read as no text.\<close>

theorem sds_text_round_trip:
  assumes "list_all scalar text"
  shows "\<exists>payload. build_text_sds_type4_pdu text message_reference = Inr payload \<and>
    (\<exists>n. length payload = 4 + 2 * n) \<and>
    parse_text_sds_type4_pdu cm payload (Some (8 * int (length payload))) =
      Inr (if tidy text = [] then None else Some (tidy text)) \<and>
    parse_text_sds_type4_pdu cm payload None = Inr (if tidy text = [] then None else Some (tidy text))"
  by (rule sds_text_built [OF assms])

theorem sds_text_round_trip_witness:
  "\<exists>payload. build_text_sds_type4_pdu [0x20, 0x48, 0xE9, 0x1F600, 0x0A, 0] 300 = Inr payload \<and>
     parse_text_sds_type4_pdu (\<lambda>_ _. None) payload None = Inr (Some [0x48, 0xE9, 0x1F600])"
proof -
  have "list_all scalar [0x20, 0x48, 0xE9, 0x1F600, 0x0A, 0]" by (simp add: scalar_def surrogate_def)
  moreover have "tidy [0x20, 0x48, 0xE9, 0x1F600, 0x0A, 0] = [0x48, 0xE9, 0x1F600]"
    by (simp add: tidy_def strip_by_def lstrip_by_def rstrip_by_def is_uspace_def)
  ultimately show ?thesis
    using sds_text_round_trip [of "[0x20, 0x48, 0xE9, 0x1F600, 0x0A, 0]" 300 "\<lambda>_ _. None"] by auto
qed

text \<open>The PDU as an instance of the codec interface, for tidy texts; so two different tidy texts never
  have the same PDU.\<close>

interpretation sds_pdu: codec
  "\<lambda>t. list_all scalar t \<and> t \<noteq> [] \<and> tidy t = t"
  "\<lambda>t. build_text_sds_type4_pdu t message_reference"
  "\<lambda>payload. bindE (parse_text_sds_type4_pdu cm payload None)
     (\<lambda>r. case r of None \<Rightarrow> Inl (ValueError []) | Some t \<Rightarrow> Inr t)"
  for message_reference cm
proof unfold_locales
  fix t :: utext
  assume t: "list_all scalar t \<and> t \<noteq> [] \<and> tidy t = t"
  then show "\<exists>w. build_text_sds_type4_pdu t message_reference = Inr w"
    using sds_text_built [of t message_reference cm] by auto
next
  fix t :: utext and w
  assume "list_all scalar t \<and> t \<noteq> [] \<and> tidy t = t" "build_text_sds_type4_pdu t message_reference = Inr w"
  then show "bindE (parse_text_sds_type4_pdu cm w None)
      (\<lambda>r. case r of None \<Rightarrow> Inl (ValueError []) | Some t \<Rightarrow> Inr t) = Inr t"
    using sds_text_built [of t message_reference cm] by auto
qed

end
