(* ===== verification/Bridge_State.thy ===== *)
theory Bridge_State
  imports Bridge_Core Uplink_Audio Sds_Pdu
begin

text \<open>
  The whole state of \<^verbatim>\<open>BrewAudioBridge\<close>: the shared part of \<^verbatim>\<open>Bridge_Core\<close> with the queue and
  call of the uplink, the calls of the downlink, the pending text messages, the UDP socket
  towards P25 and the files handed to it. \<open>command_files\<close>, \<open>result_files\<close> and \<open>error_files\<close> are
  the directories of the SMS commands: a command is what reading and parsing its file gives. \<open>udp_fails n\<close> says that the \<open>n\<close>-th \<^verbatim>\<open>sendto\<close> raises
  \<^verbatim>\<open>OSError\<close>; \<open>udp_sent\<close>, \<open>outbox\<close> and \<open>retired\<close> (the codec
  handles of the calls that are gone) are histories. \<open>uplink_due\<close> and \<open>downlink_due\<close> are the
  local \<^verbatim>\<open>next_due\<close> of the two media loops.
\<close>

record pcm_frame =
  pf_source :: int
  pf_destination :: int
  pf_sequence :: int
  pf_marker :: bool
  pf_pcm :: bytes
  received_at :: real

record uplink_call =
  ul_source :: int
  ul_p25_destination :: int
  ul_brew_destination :: int
  ul_uuid :: bytes
  encoder :: codec_handle
  proc_cfg :: uap_cfg
  processor :: uap
  pcm_samples :: "int list"
  voice_frames :: nat
  ul_pcm_peak :: int
  ul_pcm_sum_squares :: int
  ul_pcm_sample_count :: int

record downlink_call =
  dl_uuid :: bytes
  dl_source :: int
  dl_brew_destination :: int
  dl_p25_destination :: int
  decoder :: codec_handle
  frames :: "bytes list"
  created_at :: real
  last_frame_at :: real
  ended :: bool
  started :: bool
  underruns :: nat
  dl_pcm_peak :: int
  dl_pcm_sum_squares :: int
  dl_pcm_sample_count :: int

record pending =
  sds_source :: int
  sds_destination :: int
  sds_received_at :: real

record bridge = core +
  stop_set :: bool
  uplink_queue :: "pcm_frame list"
  last_p25_rx :: real
  active_uplink :: "uplink_call option"
  uplink_due :: real
  last_disconnect_at :: real
  downlink_calls :: "(bytes, downlink_call) pydict"
  active_downlink :: "bytes option"
  downlink_due :: real
  rtp_sequence :: int
  rtp_timestamp :: int
  udp_fails :: "nat \<Rightarrow> bool"
  udp_attempts :: nat
  udp_sent :: "(bytes \<times> string \<times> int) list"
  pending_sds :: "(bytes, pending) pydict"
  recent_sds :: "(int \<times> int \<times> utext, real) pydict"
  outbox :: "(string \<times> string) list"
  command_files :: "(string, py_error + pyval) pydict"
  result_files :: "(string, pyval) pydict"
  error_files :: "(string, py_error) pydict"
  retired :: "codec_handle list"

abbreviation RTP_SSRC :: int where "RTP_SSRC \<equiv> 0x42524557"

type_synonym 'a handler = "(bridge, 'a) act"

text \<open>\<^verbatim>\<open>round(x, 1)\<close>\<close>

definition round1 :: "real \<Rightarrow> real" where
  "round1 x = of_int (py_round (x * 10)) / 10"

text \<open>\<^verbatim>\<open>struct.pack("<160h", *chunk)\<close> and \<^verbatim>\<open>struct.unpack("<160h", pcm)\<close>.\<close>

definition pack_pcm :: "int list \<Rightarrow> py_error + bytes" where
  "pack_pcm chunk =
     (if length chunk = PCM_SAMPLES_20MS \<and> list_all (\<lambda>v. - 32768 \<le> v \<and> v < 32768) chunk
      then Inr (concat (map (le_bytes 2) chunk)) else Inl StructError)"

fun unpack_samples :: "bytes \<Rightarrow> int list" where
  "unpack_samples (a # b # r) = wrap16 (uint a + 256 * uint b) # unpack_samples r"
| "unpack_samples _ = []"

definition unpack_pcm :: "bytes \<Rightarrow> py_error + int list" where
  "unpack_pcm pcm = (if length pcm = PCM_BYTES_20MS then Inr (unpack_samples pcm) else Inl StructError)"

lemma length_unpack_samples: "length (unpack_samples bs) = length bs div 2"
  by (induction bs rule: unpack_samples.induct) auto

lemma unpack_samples_bounds: "list_all (\<lambda>v. - 32768 \<le> v \<and> v < 32768) (unpack_samples bs)"
  by (induction bs rule: unpack_samples.induct) (auto simp: wrap16_bounds)

lemma unpack_pack_sample:
  assumes "- 32768 \<le> v" "v < 32768"
  shows "wrap16 (uint (word_of_int v :: byte) + 256 * uint (word_of_int (v div 256) :: byte)) = v"
proof -
  have "uint (word_of_int v :: byte) + 256 * uint (word_of_int (v div 256) :: byte) = v mod 65536"
    using zmod_zmult2_eq [of 256 v 256] by (simp add: uint_word_of_int)
  moreover have "(word_of_int (v mod 65536) :: 16 word) = word_of_int v"
    by (simp add: word_of_int_eq_iff take_bit_eq_mod)
  then have "wrap16 (v mod 65536) = wrap16 v" by (simp only: wrap16_def)
  ultimately show ?thesis using wrap16_id [OF assms] by simp
qed

lemma unpack_pack_pcm: "pack_pcm chunk = Inr pcm \<Longrightarrow> unpack_pcm pcm = Inr chunk \<and> length pcm = 320"
proof -
  assume "pack_pcm chunk = Inr pcm"
  then have p: "pcm = concat (map (le_bytes 2) chunk)" and l: "length chunk = 160"
    and b: "list_all (\<lambda>v. - 32768 \<le> v \<and> v < 32768) chunk"
    by (auto simp: pack_pcm_def split: if_splits)
  have len: "length (concat (map (le_bytes 2) xs)) = 2 * length xs" for xs
    by (induction xs) auto
  have "list_all (\<lambda>v. - 32768 \<le> v \<and> v < 32768) xs \<Longrightarrow>
      unpack_samples (concat (map (le_bytes 2) xs)) = xs" for xs
    by (induction xs) (simp_all add: unpack_pack_sample)
  then show ?thesis using p l b len [of chunk] by (simp add: unpack_pcm_def)
qed

end
