(* ===== verification/Bridge_Downlink.thy ===== *)
theory Bridge_Downlink
  imports Bridge_State
begin

text \<open>
  BREW to P25: \<^verbatim>\<open>_start_or_update_downlink\<close>, \<^verbatim>\<open>_end_downlink\<close>, \<^verbatim>\<open>_queue_downlink_voice\<close>, one
  pass of \<^verbatim>\<open>_downlink_loop\<close>, \<^verbatim>\<open>_play_downlink_block\<close> and \<^verbatim>\<open>_remove_downlink_locked\<close>. A pass
  of the loop reads the clock twice: \<open>ck\<close> while it holds the lock and \<open>due_ck\<close> after it
  waited for the block to become due.
\<close>

section \<open>Calls\<close>

definition new_downlink_call :: "clock \<Rightarrow> bytes \<Rightarrow> int \<Rightarrow> int \<Rightarrow> int \<Rightarrow> codec_handle \<Rightarrow> downlink_call" where
  "new_downlink_call ck uuid source destination p25_destination dec =
     \<lparr>dl_uuid = uuid, dl_source = source, dl_brew_destination = destination,
      dl_p25_destination = p25_destination, decoder = dec, frames = [],
      created_at = mono ck, last_frame_at = mono ck, ended = False, started = False, underruns = 0,
      dl_pcm_peak = 0, dl_pcm_sum_squares = 0, dl_pcm_sample_count = 0\<rparr>"

definition put_call :: "downlink_call \<Rightarrow> bridge \<Rightarrow> bridge" where
  "put_call c s = s\<lparr>downlink_calls := AList.update (dl_uuid c) c (downlink_calls s)\<rparr>"

definition ignore_uuid :: "bytes \<Rightarrow> bridge \<Rightarrow> bridge" where
  "ignore_uuid uuid s = s\<lparr>ignored_uuids := insert uuid (ignored_uuids s)\<rparr>"

definition competing :: "bytes \<Rightarrow> bridge \<Rightarrow> bool" where
  "competing uuid s \<longleftrightarrow> (\<exists>c \<in> set (map snd (downlink_calls s)). dl_uuid c \<noteq> uuid \<and> \<not> ended c)"

definition start_or_update_downlink ::
  "codec_lib \<Rightarrow> clock \<Rightarrow> bytes \<Rightarrow> int \<Rightarrow> int \<Rightarrow> unit handler" where
  "start_or_update_downlink lib ck uuid source destination = readA (\<lambda>s.
     case p25_for_brew (brt s) destination of
       None \<Rightarrow> thenA (upd (ignore_uuid uuid)) (count ''unsubscribedDownlinkCalls'')
     | Some p25_destination \<Rightarrow>
         if uuid \<in> fst ` set (owned_uuids s) \<or> (source \<in> local_issis s \<and> active_uplink s \<noteq> None)
         then thenA (upd (ignore_uuid uuid)) (count ''suppressedEchoCalls'')
         else case map_of (downlink_calls s) uuid of
             None \<Rightarrow>
               if competing uuid s
               then thenA (upd (ignore_uuid uuid)) (count ''downlinkBusyCalls'')
               else bindA (liftE (open_handle lib False)) (\<lambda>dec.
                    thenA (upd (put_call (new_downlink_call ck uuid source destination p25_destination dec)))
                      (count ''downlinkCalls''))
           | Some c \<Rightarrow> upd (put_call (c\<lparr>dl_source := source, ended := False\<rparr>)))"

definition end_downlink :: "bytes \<Rightarrow> bridge \<Rightarrow> bridge" where
  "end_downlink uuid s =
     (if uuid \<in> ignored_uuids s then s\<lparr>ignored_uuids := ignored_uuids s - {uuid}\<rparr>
      else case map_of (downlink_calls s) uuid of
          None \<Rightarrow> s | Some c \<Rightarrow> put_call (c\<lparr>ended := True\<rparr>) s)"

abbreviation JITTER_LIMIT :: nat where "JITTER_LIMIT \<equiv> 24"

definition queue_frame :: "bytes \<Rightarrow> downlink_call \<Rightarrow> downlink_call" where
  "queue_frame frame c = c\<lparr>frames := push_bounded JITTER_LIMIT frame (frames c)\<rparr>"

definition queue_downlink_voice :: "clock \<Rightarrow> bytes \<Rightarrow> int \<Rightarrow> bytes \<Rightarrow> unit handler" where
  "queue_downlink_voice ck uuid length_bits payload = readA (\<lambda>s.
     if uuid \<in> fst ` set (owned_uuids s) \<or> uuid \<in> ignored_uuids s
     then count ''suppressedEchoVoiceFrames''
     else if length payload < TETRA_STE_BYTES then count ''invalidBrewVoiceFrames''
     else case map_of (downlink_calls s) uuid of
         None \<Rightarrow> count ''orphanBrewVoiceFrames''
       | Some c \<Rightarrow>
           thenA (if length (frames c) \<ge> JITTER_LIMIT then count ''downlinkJitterDrops'' else ret ())
           (thenA (upd (put_call ((queue_frame (take TETRA_STE_BYTES payload) c)\<lparr>last_frame_at := mono ck\<rparr>)))
           (thenA (count ''brewVoiceFramesReceived'')
             (if length_bits \<notin> {int TETRA_BITS_60MS, int TETRA_STE_BYTES * 8}
              then count ''unusualBrewVoiceLengths'' else ret ()))))"

section \<open>Playing a block\<close>

text \<open>Sending one packet to every output; a failing output is counted and skipped.\<close>

primrec send_udp :: "bytes \<Rightarrow> pcm_output_config list \<Rightarrow> unit handler" where
  "send_udp packet [] = ret ()"
| "send_udp packet (e # es) =
     thenA (readA (\<lambda>s.
       if udp_fails s (udp_attempts s)
       then thenA (upd (\<lambda>s. s\<lparr>udp_attempts := udp_attempts s + 1\<rparr>)) (count ''p25PcmOutputFailures'')
       else upd (\<lambda>s. s\<lparr>udp_attempts := udp_attempts s + 1,
                        udp_sent := udp_sent s @ [(packet, po_address e, po_port e)]\<rparr>)))
     (send_udp packet es)"

definition send_pcm_chunk :: "audio_config \<Rightarrow> downlink_call \<Rightarrow> int list \<Rightarrow> unit handler" where
  "send_pcm_chunk cfg c chunk = readA (\<lambda>s.
     if stop_set s then ret ()
     else
       bindA (liftE (pack_pcm chunk)) (\<lambda>pcm.
       bindA (liftE (build_dvm_rtp pcm (dl_source c) (dl_p25_destination c) (rtp_sequence s)
                (rtp_timestamp s) RTP_SSRC (rtp_sequence s = 0))) (\<lambda>packet.
       thenA (send_udp packet (pcm_output cfg # pcm_additional_outputs cfg))
       (thenA (upd (\<lambda>s. s\<lparr>rtp_sequence := (rtp_sequence s + 1) mod 65535,
                 rtp_timestamp := (rtp_timestamp s + int PCM_SAMPLES_20MS) mod 2 ^ 32\<rparr>))
         (count ''p25PcmFramesSent'')))))"

definition decode_block ::
  "codec_lib \<Rightarrow> codec_handle \<Rightarrow> bytes \<Rightarrow> codec_handle \<times> int list option" where
  "decode_block lib h ste =
     (case split_tmd_block ste of
        Inl e \<Rightarrow> (h, None)
      | Inr (coded_a, coded_b) \<Rightarrow>
          (case handle_decode lib h coded_a False of
             Inl e \<Rightarrow> (h, None)
           | Inr (a, h1) \<Rightarrow>
               (case handle_decode lib h1 coded_b False of
                  Inl e \<Rightarrow> (h1, None) | Inr (b, h2) \<Rightarrow> (h2, Some (a @ b)))))"

definition max_abs :: "int list \<Rightarrow> int" where
  "max_abs xs = fold (\<lambda>v m. max m \<bar>v\<bar>) xs 0"

definition sum_squares :: "int list \<Rightarrow> int" where
  "sum_squares xs = sum_list (map (\<lambda>v. v * v) xs)"

definition add_pcm_stats :: "int list \<Rightarrow> downlink_call \<Rightarrow> downlink_call" where
  "add_pcm_stats samples c = c\<lparr>dl_pcm_peak := max (dl_pcm_peak c) (max_abs samples),
     dl_pcm_sum_squares := dl_pcm_sum_squares c + sum_squares samples,
     dl_pcm_sample_count := dl_pcm_sample_count c + int (length samples)\<rparr>"

definition play_downlink_block :: "codec_lib \<Rightarrow> audio_config \<Rightarrow> downlink_call \<Rightarrow> bytes \<Rightarrow> unit handler" where
  "play_downlink_block lib cfg c ste =
     (case decode_block lib (decoder c) ste of
        (h, None) \<Rightarrow> thenA (upd (put_call (c\<lparr>decoder := h\<rparr>))) (count ''downlinkDecodeFailures'')
      | (h, Some decoded) \<Rightarrow>
          (let samples = scale_pcm decoded (downlink_gain cfg) (downlink_peak_limit cfg);
               c' = add_pcm_stats samples (c\<lparr>decoder := h\<rparr>)
           in thenA (upd (put_call c'))
              (forA [0, 1, 2] (\<lambda>index _. send_pcm_chunk cfg c'
                 (slice (index * PCM_SAMPLES_20MS) ((index + 1) * PCM_SAMPLES_20MS) samples)) ())))"

definition remove_downlink :: "clock \<Rightarrow> downlink_call \<Rightarrow> bridge \<Rightarrow> bridge" where
  "remove_downlink ck c s = s\<lparr>retired := retired s @ [handle_close (decoder c)],
     downlink_calls := AList.delete (dl_uuid c) (downlink_calls s),
     active_downlink := (if active_downlink s = Some (dl_uuid c) then None else active_downlink s),
     bio := status_set [(''activeDownlink'', PNone),
        (''lastDownlinkAudio'', PDict [(''source'', PInt (dl_source c)),
           (''brewTalkgroup'', PInt (dl_brew_destination c)), (''p25Talkgroup'', PInt (dl_p25_destination c)),
           (''pcmPeak'', PInt (dl_pcm_peak c)),
           (''pcmRms'', PFloat (round1 (pcm_rms (dl_pcm_sum_squares c) (dl_pcm_sample_count c)))),
           (''underruns'', PInt (int (underruns c))), (''endedAt'', PStr (utc ck))])] (bio s)\<rparr>"

section \<open>The downlink loop\<close>

definition ready_to_play :: "audio_config \<Rightarrow> downlink_call \<Rightarrow> bool" where
  "ready_to_play cfg c \<longleftrightarrow>
     (if started c then rebuffer_frames cfg else jitter_frames cfg) \<le> int (length (frames c)) \<or>
     (ended c \<and> frames c \<noteq> [])"

definition select_downlink :: "audio_config \<Rightarrow> clock \<Rightarrow> int \<Rightarrow> bridge \<Rightarrow> bridge" where
  "select_downlink cfg ck random_timestamp s =
     (if active_downlink s \<noteq> None then s
      else case find (ready_to_play cfg) (sort_key created_at (map snd (downlink_calls s))) of
          None \<Rightarrow> s
        | Some c \<Rightarrow> (put_call (c\<lparr>started := True\<rparr>) s)
            \<lparr>active_downlink := Some (dl_uuid c), rtp_sequence := 0, rtp_timestamp := random_timestamp,
             downlink_due := mono ck,
             bio := status_set [(''activeDownlink'', PDict [(''uuid'', PStr (uuid_text (dl_uuid c))),
                (''source'', PInt (dl_source c)), (''brewTalkgroup'', PInt (dl_brew_destination c)),
                (''p25Talkgroup'', PInt (dl_p25_destination c)), (''startedAtEpoch'', PFloat (epoch ck))])]
                (bio s)\<rparr>)"

text \<open>The rest of the locked part: the block to play, if there is one.\<close>

definition take_block :: "clock \<Rightarrow> bridge \<Rightarrow> (downlink_call \<times> bytes) option \<times> bridge" where
  "take_block ck s =
     (case active_downlink s of
        None \<Rightarrow> (None, s)
      | Some uuid \<Rightarrow>
          (case map_of (downlink_calls s) uuid of
             None \<Rightarrow> (None, s\<lparr>active_downlink := None\<rparr>)
           | Some c \<Rightarrow>
               (case frames c of
                  ste # rest \<Rightarrow> (Some (c\<lparr>frames := rest\<rparr>, ste), put_call (c\<lparr>frames := rest\<rparr>) s)
                | [] \<Rightarrow>
                    if ended c then (None, remove_downlink ck c s)
                    else if mono ck - last_frame_at c > 14 / 100
                    then (None, (put_call (c\<lparr>underruns := underruns c + 1, started := False\<rparr>) s)
                           \<lparr>active_downlink := None,
                            bio := status_set [(''activeDownlink'', PNone)]
                              (status_increment ''downlinkUnderruns'' (bio s))\<rparr>)
                    else (None, s))))"

definition downlink_tick ::
  "codec_lib \<Rightarrow> audio_config \<Rightarrow> clock \<Rightarrow> clock \<Rightarrow> int \<Rightarrow> unit handler" where
  "downlink_tick lib cfg ck due_ck random_timestamp =
     thenA (upd (select_downlink cfg ck random_timestamp))
     (bindA (call (take_block ck)) (\<lambda>block.
        case block of
          None \<Rightarrow> ret ()
        | Some (c, ste) \<Rightarrow>
            thenA (upd (\<lambda>s. if mono due_ck - downlink_due s > 18 / 100
                            then s\<lparr>downlink_due := mono due_ck\<rparr> else s))
            (thenA (play_downlink_block lib cfg c ste)
              (upd (\<lambda>s. s\<lparr>downlink_due := downlink_due s + 6 / 100\<rparr>)))))"

section \<open>Invariant\<close>

definition u32 :: "int \<Rightarrow> bool" where
  "u32 v \<longleftrightarrow> 0 \<le> v \<and> v < 4294967296"

definition call_ok :: "downlink_call \<Rightarrow> bool" where
  "call_ok c \<longleftrightarrow> length (frames c) \<le> JITTER_LIMIT \<and>
     list_all (\<lambda>f. length f = TETRA_STE_BYTES) (frames c) \<and>
     \<not> h_is_encoder (decoder c) \<and> \<not> h_closed (decoder c) \<and> handle_ok (decoder c) \<and>
     u32 (dl_source c) \<and> u32 (dl_p25_destination c)"

definition downlink_ok :: "bridge \<Rightarrow> bool" where
  "downlink_ok s \<longleftrightarrow> dict_ok (downlink_calls s) \<and>
     (\<forall>(u, c) \<in> set (downlink_calls s). dl_uuid c = u \<and> call_ok c) \<and>
     (\<forall>u. active_downlink s = Some u \<longrightarrow> u \<in> fst ` set (downlink_calls s)) \<and>
     0 \<le> rtp_sequence s \<and> rtp_sequence s < 65535 \<and>
     list_all (\<lambda>h. h_closed h \<and> h_destroyed h = 1) (retired s)"

definition audio_ok :: "audio_config \<Rightarrow> bool" where
  "audio_ok cfg \<longleftrightarrow> 0 \<le> downlink_peak_limit cfg \<and> downlink_peak_limit cfg \<le> 32767 \<and>
     1 \<le> rebuffer_frames cfg \<and> 2 \<le> jitter_frames cfg"

lemma audio_config_load_audio_ok: "audio_config_load env path doc = Inr cfg \<Longrightarrow> audio_ok cfg"
  by (erule audio_config_load_InrE) (auto simp: audio_ok_def clamp_def max_def min_def)

lemma downlink_okD:
  assumes "downlink_ok s" "map_of (downlink_calls s) u = Some c"
  shows "dl_uuid c = u" "call_ok c"
  using assms map_of_SomeD [OF assms(2)] by (auto simp: downlink_ok_def)

lemma downlink_ok_dict: "downlink_ok s \<Longrightarrow> dict_ok (downlink_calls s)"
  by (simp add: downlink_ok_def)

lemma put_call_frame [simp]:
  "active_downlink (put_call c s) = active_downlink s" "rtp_sequence (put_call c s) = rtp_sequence s"
  "bio (put_call c s) = bio s" "brt (put_call c s) = brt s" "ignored_uuids (put_call c s) = ignored_uuids s"
  "owned_uuids (put_call c s) = owned_uuids s" "local_issis (put_call c s) = local_issis s"
  "udp_sent (put_call c s) = udp_sent s" "udp_fails (put_call c s) = udp_fails s"
  "stop_set (put_call c s) = stop_set s" "rtp_timestamp (put_call c s) = rtp_timestamp s"
  "retired (put_call c s) = retired s"
  "active_uplink (put_call c s) = active_uplink s" "downlink_due (put_call c s) = downlink_due s"
  "map_of (downlink_calls (put_call c s)) = (map_of (downlink_calls s))(dl_uuid c \<mapsto> c)"
  by (simp_all add: put_call_def)

lemma downlink_ok_put [wf_intros]: "downlink_ok s \<Longrightarrow> call_ok c \<Longrightarrow> downlink_ok (put_call c s)"
  by (auto simp: downlink_ok_def put_call_def dest!: in_set_updateD)

lemma downlink_ok_cong:
  "downlink_calls t = downlink_calls s \<Longrightarrow> active_downlink t = active_downlink s \<Longrightarrow>
   rtp_sequence t = rtp_sequence s \<Longrightarrow> retired t = retired s \<Longrightarrow> downlink_ok t = downlink_ok s"
  by (simp add: downlink_ok_def)

lemma call_ok_queue: "call_ok c \<Longrightarrow> TETRA_STE_BYTES \<le> length p \<Longrightarrow> call_ok (queue_frame (take TETRA_STE_BYTES p) c)"
  by (cases "frames c") (auto simp: call_ok_def queue_frame_def push_bounded_def)

lemma call_ok_simps [simp]:
  "call_ok (c\<lparr>ended := e\<rparr>) = call_ok c" "call_ok (c\<lparr>started := e\<rparr>) = call_ok c"
  "call_ok (c\<lparr>underruns := n\<rparr>) = call_ok c" "call_ok (c\<lparr>last_frame_at := t\<rparr>) = call_ok c"
  "call_ok (add_pcm_stats xs c) = call_ok c"
  by (simp_all add: call_ok_def add_pcm_stats_def)

lemma upd_simps [simp]:
  "dl_uuid (c\<lparr>ended := e\<rparr>) = dl_uuid c" "dl_uuid (add_pcm_stats xs c) = dl_uuid c"
  "ended (add_pcm_stats xs c) = ended c" "frames (add_pcm_stats xs c) = frames c"
  "dl_source (add_pcm_stats xs c) = dl_source c" "dl_p25_destination (add_pcm_stats xs c) = dl_p25_destination c"
  by (simp_all add: add_pcm_stats_def)

text \<open>The jitter buffer of a call as an instance of the bounded queue: at most 24 blocks, the oldest
  dropped first.\<close>

interpretation jitter: bounded_fifo JITTER_LIMIT queue_frame frames
  by unfold_locales (simp_all add: queue_frame_def)

section \<open>Playing a block\<close>

lemma decode_block_total:
  assumes "\<not> h_is_encoder h" "length ste = 36"
  obtains h' samples where "decode_block lib h ste = (h', Some samples)" "length samples = 480"
    "\<not> h_is_encoder h'" "h_closed h' = h_closed h" "h_destroyed h' = h_destroyed h"
    "list_all (\<lambda>v. - 32768 \<le> v \<and> v < 32768) samples"
proof -
  obtain f g where fg: "split_tmd_block ste = Inr (f, g)" "length f = 18" "length g = 18"
    by (rule split_tmd_block_spec [of ste]) (simp_all add: assms(2))
  have dec: "\<exists>x h'. handle_decode lib h c False = Inr (x, h') \<and> length x = 240 \<and> \<not> h_is_encoder h' \<and>
      h_closed h' = h_closed h \<and> h_destroyed h' = h_destroyed h \<and> list_all (\<lambda>v. - 32768 \<le> v \<and> v < 32768) x"
    if "\<not> h_is_encoder h" "length c = 18" for h c
    using that by (auto simp: handle_decode_def Let_def list_all_iff wrap16_bounds)
  obtain x h1 where x: "handle_decode lib h f False = Inr (x, h1)" "length x = 240" "\<not> h_is_encoder h1"
      "h_closed h1 = h_closed h" "h_destroyed h1 = h_destroyed h"
      "list_all (\<lambda>v. - 32768 \<le> v \<and> v < 32768) x" using dec [OF assms(1) fg(2)] by blast
  obtain y h2 where y: "handle_decode lib h1 g False = Inr (y, h2)" "length y = 240" "\<not> h_is_encoder h2"
      "h_closed h2 = h_closed h1" "h_destroyed h2 = h_destroyed h1"
      "list_all (\<lambda>v. - 32768 \<le> v \<and> v < 32768) y" using dec [OF x(3) fg(3)] by blast
  show thesis
    by (rule that [of h2 "x @ y"]) (use fg x y in \<open>simp_all add: decode_block_def\<close>)
qed

lemma scale_pcm_16bit:
  assumes "0 \<le> limit" "limit \<le> 32767" "list_all (\<lambda>v. - 32768 \<le> v \<and> v < 32768) xs"
  shows "list_all (\<lambda>v. - 32768 \<le> v \<and> v < 32768) (scale_pcm xs gain limit)"
proof -
  have c: "- 32768 \<le> clamp (- limit) limit v \<and> clamp (- limit) limit v < 32768" for v
    using assms(1,2) by (auto simp: clamp_def)
  show ?thesis using assms(3) c by (auto simp: scale_pcm_def list_all_iff)
qed

lemma pack_pcm_slice:
  assumes "list_all (\<lambda>v. - 32768 \<le> v \<and> v < 32768) xs" "length xs = 480" "i \<in> {0, 1, 2}"
  obtains pcm where "pack_pcm (slice (i * 160) ((i + 1) * 160) xs) = Inr pcm" "length pcm = 320"
proof -
  have "list_all (\<lambda>v. - 32768 \<le> v \<and> v < 32768) (slice (i * 160) ((i + 1) * 160) xs)"
    using assms(1) by (auto simp: slice_def list_all_iff dest!: in_set_dropD in_set_takeD)
  moreover have "length (slice (i * 160) ((i + 1) * 160) xs) = 160" using assms(2,3) by auto
  ultimately have p: "pack_pcm (slice (i * 160) ((i + 1) * 160) xs) =
      Inr (concat (map (le_bytes 2) (slice (i * 160) ((i + 1) * 160) xs)))"
    by (simp add: pack_pcm_def)
  from unpack_pack_pcm [OF p] that [OF p] show thesis by blast
qed

text \<open>\<open>plays s t\<close>: only the UDP history, the RTP counters and the status differ.\<close>

definition plays :: "bridge \<Rightarrow> bridge \<Rightarrow> bool" where
  "plays s t \<longleftrightarrow> (\<exists>i a u q ts. t = s\<lparr>bio := i, rtp_sequence := q, rtp_timestamp := ts,
      udp_attempts := a, udp_sent := u\<rparr> \<and> calm (bio s) i) \<and>
    (0 \<le> rtp_sequence s \<and> rtp_sequence s < 65535 \<longrightarrow> 0 \<le> rtp_sequence t \<and> rtp_sequence t < 65535)"

lemma playsI:
  "calm (bio s) i \<Longrightarrow> (0 \<le> rtp_sequence s \<and> rtp_sequence s < 65535 \<Longrightarrow> 0 \<le> q \<and> q < 65535) \<Longrightarrow>
   plays s (s\<lparr>bio := i, rtp_sequence := q, rtp_timestamp := ts, udp_attempts := a, udp_sent := u\<rparr>)"
  unfolding plays_def by auto blast

lemma plays_refl: "plays s s"
proof -
  have "s = s\<lparr>bio := bio s, rtp_sequence := rtp_sequence s, rtp_timestamp := rtp_timestamp s,
      udp_attempts := udp_attempts s, udp_sent := udp_sent s\<rparr>" by simp
  moreover have "calm (bio s) (bio s)" by (simp add: reflpD)
  ultimately show ?thesis unfolding plays_def by blast
qed

lemma plays_trans:
  assumes "plays s t" "plays t u"
  shows "plays s u"
proof -
  obtain i a us q ts where t: "t = s\<lparr>bio := i, rtp_sequence := q, rtp_timestamp := ts,
      udp_attempts := a, udp_sent := us\<rparr>" "calm (bio s) i" using assms(1) unfolding plays_def by blast
  obtain j b vs r qs where u: "u = t\<lparr>bio := j, rtp_sequence := r, rtp_timestamp := qs,
      udp_attempts := b, udp_sent := vs\<rparr>" "calm (bio t) j" using assms(2) unfolding plays_def by blast
  have "calm (bio s) j" using t(2) u(2) by (auto simp: t(1) intro: calm_trans)
  moreover have "u = s\<lparr>bio := j, rtp_sequence := r, rtp_timestamp := qs, udp_attempts := b, udp_sent := vs\<rparr>"
    by (simp add: u(1) t(1))
  ultimately show ?thesis using assms unfolding plays_def by blast
qed

lemma playsD:
  assumes "plays s t"
  shows "downlink_calls t = downlink_calls s" "active_downlink t = active_downlink s"
    "stop_set t = stop_set s" "udp_fails t = udp_fails s" "downlink_due t = downlink_due s"
    "brt t = brt s" "local_issis t = local_issis s" "owned_uuids t = owned_uuids s"
    "ignored_uuids t = ignored_uuids s" "calm (bio s) (bio t)" "anchor_issis t = anchor_issis s"
    "retired t = retired s"
  using assms by (auto simp: plays_def)

definition to_outputs :: "bytes \<Rightarrow> pcm_output_config list \<Rightarrow> (bytes \<times> string \<times> int) list" where
  "to_outputs packet es = map (\<lambda>e. (packet, po_address e, po_port e)) es"

lemma send_udp_total:
  "\<exists>i a u. send_udp packet es s = (Inr (), s\<lparr>bio := i, udp_attempts := a, udp_sent := u\<rparr>) \<and>
     calm (bio s) i \<and> (udp_fails s = (\<lambda>_. False) \<longrightarrow> u = udp_sent s @ to_outputs packet es)"
proof (induction es arbitrary: s)
  case Nil
  show ?case
    by (intro exI [of _ "bio s"] exI [of _ "udp_attempts s"] exI [of _ "udp_sent s"])
      (simp add: to_outputs_def reflpD)
next
  case (Cons e es)
  let ?n = "udp_attempts s"
  let ?t = "if udp_fails s ?n
    then s\<lparr>bio := status_increment ''p25PcmOutputFailures'' (bio s), udp_attempts := ?n + 1\<rparr>
    else s\<lparr>udp_attempts := ?n + 1, udp_sent := udp_sent s @ [(packet, po_address e, po_port e)]\<rparr>"
  obtain i a u where IH: "send_udp packet es ?t = (Inr (), ?t\<lparr>bio := i, udp_attempts := a, udp_sent := u\<rparr>)"
    "calm (bio ?t) i" "udp_fails ?t = (\<lambda>_. False) \<longrightarrow> u = udp_sent ?t @ to_outputs packet es"
    using Cons.IH [of ?t] by blast
  have one: "send_udp packet (e # es) s = send_udp packet es ?t" by simp
  have st: "?t\<lparr>bio := i, udp_attempts := a, udp_sent := u\<rparr> = s\<lparr>bio := i, udp_attempts := a, udp_sent := u\<rparr>"
    by simp
  have "calm (bio s) (bio ?t)" by (simp add: reflpD)
  then have "calm (bio s) i" using IH(2) by (blast intro: calm_trans)
  moreover have "udp_fails s = (\<lambda>_. False) \<longrightarrow> u = udp_sent s @ to_outputs packet (e # es)"
    using IH(3) by (simp add: to_outputs_def)
  ultimately show ?case using IH(1) unfolding one st by blast
qed

definition next_sequence :: "int \<Rightarrow> int" where
  "next_sequence q = (q + 1) mod 65535"

lemma send_pcm_chunk_total:
  assumes "\<not> stop_set s" "pack_pcm chunk = Inr pcm" "length pcm = 320"
    "u32 (dl_source c)" "u32 (dl_p25_destination c)"
    and q: "0 \<le> rtp_sequence s" "rtp_sequence s < 65535"
  obtains packet t where "send_pcm_chunk cfg c chunk s = (Inr (), t)" "plays s t"
    "parse_dvm_rtp packet =
       Some (dl_source c, dl_p25_destination c, rtp_sequence s, rtp_sequence s = 0, pcm)"
    "rtp_sequence t = next_sequence (rtp_sequence s)"
    "udp_fails s = (\<lambda>_. False) \<longrightarrow>
       udp_sent t = udp_sent s @ to_outputs packet (pcm_output cfg # pcm_additional_outputs cfg)"
proof -
  let ?es = "pcm_output cfg # pcm_additional_outputs cfg"
  let ?m = "rtp_sequence s = 0"
  obtain packet where b: "build_dvm_rtp pcm (dl_source c) (dl_p25_destination c) (rtp_sequence s)
      (rtp_timestamp s) RTP_SSRC ?m = Inr packet"
    using build_dvm_rtp_Inr [of pcm "dl_source c" "dl_p25_destination c" RTP_SSRC] assms(3-5)
    by (auto simp: u32_def)
  have parse: "parse_dvm_rtp packet =
      Some (dl_source c, dl_p25_destination c, rtp_sequence s, ?m, pcm)"
    using dvm_rtp.decodes [where x = "(dl_source c, dl_p25_destination c, rtp_sequence s, ?m, pcm)"
        and ssrc = RTP_SSRC and timestamp = "rtp_timestamp s" and w = packet] b assms(3-7)
    by (auto simp: u32_def split: option.splits)
  obtain i a u where su: "send_udp packet ?es s = (Inr (), s\<lparr>bio := i, udp_attempts := a, udp_sent := u\<rparr>)"
    "calm (bio s) i" "udp_fails s = (\<lambda>_. False) \<longrightarrow> u = udp_sent s @ to_outputs packet ?es"
    using send_udp_total by blast
  let ?t = "s\<lparr>bio := status_increment ''p25PcmFramesSent'' i, rtp_sequence := (rtp_sequence s + 1) mod 65535,
     rtp_timestamp := (rtp_timestamp s + 160) mod 2 ^ 32, udp_attempts := a, udp_sent := u\<rparr>"
  have run: "send_pcm_chunk cfg c chunk s = (Inr (), ?t)"
    using assms(1,2) b su(1) by (simp add: send_pcm_chunk_def del: send_udp.simps)
  have "calm (bio s) (status_increment ''p25PcmFramesSent'' i)"
    using su(2) by (simp add: calm_def)
  then have pl: "plays s ?t" by (intro playsI) auto
  show thesis by (rule that [OF run pl parse]) (use su(3) in \<open>simp_all add: next_sequence_def\<close>)
qed

text \<open>What a voice block becomes: \<open>block_played\<close> collects the facts about the state after it.\<close>

lemma play_block:
  assumes "call_ok c" "length ste = 36" "audio_ok cfg" "\<not> stop_set s"
    and q: "0 \<le> rtp_sequence s" "rtp_sequence s < 65535"
  obtains h decoded t packet where "decode_block lib (decoder c) ste = (h, Some decoded)"
    "length decoded = 480" "play_downlink_block lib cfg c ste s = (Inr (), t)"
    "plays (put_call (add_pcm_stats (scale_pcm decoded (downlink_gain cfg) (downlink_peak_limit cfg))
       (c\<lparr>decoder := h\<rparr>)) s) t" "call_ok (c\<lparr>decoder := h\<rparr>)"
    "list_all (\<lambda>i. \<exists>pcm. parse_dvm_rtp (packet i) = Some (dl_source c, dl_p25_destination c,
       (next_sequence ^^ i) (rtp_sequence s), (next_sequence ^^ i) (rtp_sequence s) = 0, pcm) \<and>
       unpack_pcm pcm = Inr (slice (i * 160) ((i + 1) * 160)
         (scale_pcm decoded (downlink_gain cfg) (downlink_peak_limit cfg)))) [0, 1, 2]"
    "udp_fails s = (\<lambda>_. False) \<longrightarrow> udp_sent t = udp_sent s @
       concat (map (\<lambda>i. to_outputs (packet i) (pcm_output cfg # pcm_additional_outputs cfg)) [0, 1, 2])"
proof -
  obtain h decoded where d: "decode_block lib (decoder c) ste = (h, Some decoded)" "length decoded = 480"
    "\<not> h_is_encoder h" "h_closed h = h_closed (decoder c)" "h_destroyed h = h_destroyed (decoder c)"
    "list_all (\<lambda>v. - 32768 \<le> v \<and> v < 32768) decoded"
    using assms(1,2) by (rule_tac decode_block_total [of "decoder c" ste lib]) (auto simp: call_ok_def)
  let ?xs = "scale_pcm decoded (downlink_gain cfg) (downlink_peak_limit cfg)"
  have xs: "list_all (\<lambda>v. - 32768 \<le> v \<and> v < 32768) ?xs" "length ?xs = 480"
    using assms(3) d(2,6) by (simp_all add: audio_ok_def scale_pcm_16bit)
  have ok: "call_ok (c\<lparr>decoder := h\<rparr>)" using assms(1) d by (simp add: call_ok_def handle_ok_def)
  let ?c = "add_pcm_stats ?xs (c\<lparr>decoder := h\<rparr>)"
  have u: "u32 (dl_source ?c)" "u32 (dl_p25_destination ?c)" using ok by (simp_all add: call_ok_def)
  define chunk where "chunk = (\<lambda>i. slice (i * 160) ((i + 1) * 160) ?xs)"
  have pk: "\<exists>pcm. pack_pcm (chunk i) = Inr pcm \<and> length pcm = 320 \<and> unpack_pcm pcm = Inr (chunk i)"
    if i: "i \<in> {0, 1, 2}" for i
  proof -
    obtain pcm where "pack_pcm (chunk i) = Inr pcm" "length pcm = 320"
      unfolding chunk_def by (rule pack_pcm_slice [OF xs i])
    then show ?thesis using unpack_pack_pcm by blast
  qed
  obtain p0 where p0: "pack_pcm (chunk 0) = Inr p0" "length p0 = 320" "unpack_pcm p0 = Inr (chunk 0)" using pk by blast
  obtain p1 where p1: "pack_pcm (chunk 1) = Inr p1" "length p1 = 320" "unpack_pcm p1 = Inr (chunk 1)" using pk by blast
  obtain p2 where p2: "pack_pcm (chunk 2) = Inr p2" "length p2 = 320" "unpack_pcm p2 = Inr (chunk 2)" using pk by blast
  let ?s0 = "put_call ?c s"
  have nq: "0 \<le> next_sequence x \<and> next_sequence x < 65535" for x by (simp add: next_sequence_def)
  have q0: "0 \<le> rtp_sequence ?s0" "rtp_sequence ?s0 < 65535" and st0: "\<not> stop_set ?s0"
    using q assms(4) by simp_all
  obtain k0 s1 where s1: "send_pcm_chunk cfg ?c (chunk 0) ?s0 = (Inr (), s1)" "plays ?s0 s1"
    "parse_dvm_rtp k0 = Some (dl_source ?c, dl_p25_destination ?c, rtp_sequence ?s0, rtp_sequence ?s0 = 0, p0)"
    "rtp_sequence s1 = next_sequence (rtp_sequence ?s0)"
    "udp_fails ?s0 = (\<lambda>_. False) \<longrightarrow> udp_sent s1 = udp_sent ?s0 @ to_outputs k0 (pcm_output cfg # pcm_additional_outputs cfg)"
    by (rule send_pcm_chunk_total [OF st0 p0(1,2) u q0])
  have q1: "0 \<le> rtp_sequence s1" "rtp_sequence s1 < 65535" and st1: "\<not> stop_set s1"
    using nq s1(4) st0 playsD(3) [OF s1(2)] by simp_all
  obtain k1 s2 where s2: "send_pcm_chunk cfg ?c (chunk 1) s1 = (Inr (), s2)" "plays s1 s2"
    "parse_dvm_rtp k1 = Some (dl_source ?c, dl_p25_destination ?c, rtp_sequence s1, rtp_sequence s1 = 0, p1)"
    "rtp_sequence s2 = next_sequence (rtp_sequence s1)"
    "udp_fails s1 = (\<lambda>_. False) \<longrightarrow> udp_sent s2 = udp_sent s1 @ to_outputs k1 (pcm_output cfg # pcm_additional_outputs cfg)"
    by (rule send_pcm_chunk_total [OF st1 p1(1,2) u q1])
  have q2: "0 \<le> rtp_sequence s2" "rtp_sequence s2 < 65535" and st2: "\<not> stop_set s2"
    using nq s2(4) st1 playsD(3) [OF s2(2)] by simp_all
  obtain k2 s3 where s3: "send_pcm_chunk cfg ?c (chunk 2) s2 = (Inr (), s3)" "plays s2 s3"
    "parse_dvm_rtp k2 = Some (dl_source ?c, dl_p25_destination ?c, rtp_sequence s2, rtp_sequence s2 = 0, p2)"
    "rtp_sequence s3 = next_sequence (rtp_sequence s2)"
    "udp_fails s2 = (\<lambda>_. False) \<longrightarrow> udp_sent s3 = udp_sent s2 @ to_outputs k2 (pcm_output cfg # pcm_additional_outputs cfg)"
    by (rule send_pcm_chunk_total [OF st2 p2(1,2) u q2])
  have pl: "plays ?s0 s3" using s1(2) s2(2) s3(2) plays_trans by blast
  have run: "play_downlink_block lib cfg c ste s = (Inr (), s3)"
    using s1(1) s2(1) s3(1) by (simp add: play_downlink_block_def d(1) Let_def chunk_def)
  define packet where "packet = (\<lambda>i::nat. if i = 0 then k0 else if i = 1 then k1 else k2)"
  have parse: "\<exists>pcm. parse_dvm_rtp (packet i) = Some (dl_source c, dl_p25_destination c,
       (next_sequence ^^ i) (rtp_sequence s), (next_sequence ^^ i) (rtp_sequence s) = 0, pcm) \<and>
       unpack_pcm pcm = Inr (slice (i * 160) ((i + 1) * 160) ?xs)" if "i < 3" for i
  proof -
    have "i = 0 \<or> i = 1 \<or> i = 2" using that by linarith
    then show ?thesis
      using s1(3,4) s2(3,4) s3(3) p0(3) p1(3) p2(3)
      by (elim disjE) (simp_all add: packet_def chunk_def numeral_2_eq_2)
  qed
  have udp: "udp_sent s3 = udp_sent s @
       concat (map (\<lambda>i. to_outputs (packet i) (pcm_output cfg # pcm_additional_outputs cfg)) [0, 1, 2])"
    if "udp_fails s = (\<lambda>_. False)"
    using that s1(5) s2(5) s3(5) playsD(4) [OF s1(2)] playsD(4) [OF s2(2)]
    by (simp add: packet_def)
  have parses: "list_all (\<lambda>i. \<exists>pcm. parse_dvm_rtp (packet i) = Some (dl_source c, dl_p25_destination c,
       (next_sequence ^^ i) (rtp_sequence s), (next_sequence ^^ i) (rtp_sequence s) = 0, pcm) \<and>
       unpack_pcm pcm = Inr (slice (i * 160) ((i + 1) * 160) ?xs)) [0, 1, 2]"
    using parse [of 0] parse [of 1] parse [of 2] by simp
  show thesis by (rule that [OF d(1,2) run pl ok parses]) (use udp in blast)
qed

text \<open>One voice block of 60 ms becomes three RTP packets to every P25 output, in order: each
  carries the source and talkgroup of the call, the next sequence number, the marker exactly on
  number 0, and 160 of the 480 decoded and scaled samples.\<close>

theorem voice_block_packets:
  assumes "call_ok c" "length ste = TETRA_STE_BYTES" "audio_ok cfg" "\<not> stop_set s"
    and "0 \<le> rtp_sequence s" "rtp_sequence s < 65535" "udp_fails s = (\<lambda>_. False)"
    and "play_downlink_block lib cfg c ste s = (r, t)"
  shows "\<exists>h decoded packet. r = Inr () \<and> decode_block lib (decoder c) ste = (h, Some decoded) \<and>
    udp_sent t = udp_sent s @ concat (map (\<lambda>i. to_outputs (packet i)
      (pcm_output cfg # pcm_additional_outputs cfg)) [0, 1, 2]) \<and>
    list_all (\<lambda>i. \<exists>pcm. parse_dvm_rtp (packet i) = Some (dl_source c, dl_p25_destination c,
       (next_sequence ^^ i) (rtp_sequence s), (next_sequence ^^ i) (rtp_sequence s) = 0, pcm) \<and>
       unpack_pcm pcm = Inr (slice (i * 160) ((i + 1) * 160)
         (scale_pcm decoded (downlink_gain cfg) (downlink_peak_limit cfg)))) [0, 1, 2]"
proof -
  obtain h decoded t' packet where p: "decode_block lib (decoder c) ste = (h, Some decoded)"
    "length decoded = 480" "play_downlink_block lib cfg c ste s = (Inr (), t')"
    "plays (put_call (add_pcm_stats (scale_pcm decoded (downlink_gain cfg) (downlink_peak_limit cfg))
       (c\<lparr>decoder := h\<rparr>)) s) t'" "call_ok (c\<lparr>decoder := h\<rparr>)"
    "list_all (\<lambda>i. \<exists>pcm. parse_dvm_rtp (packet i) = Some (dl_source c, dl_p25_destination c,
       (next_sequence ^^ i) (rtp_sequence s), (next_sequence ^^ i) (rtp_sequence s) = 0, pcm) \<and>
       unpack_pcm pcm = Inr (slice (i * 160) ((i + 1) * 160)
         (scale_pcm decoded (downlink_gain cfg) (downlink_peak_limit cfg)))) [0, 1, 2]"
    "udp_fails s = (\<lambda>_. False) \<longrightarrow> udp_sent t' = udp_sent s @
       concat (map (\<lambda>i. to_outputs (packet i) (pcm_output cfg # pcm_additional_outputs cfg)) [0, 1, 2])"
    by (rule play_block [OF assms(1-6), where lib = lib])
  have "r = Inr ()" "t = t'" using p(3) assms(8) by simp_all
  then show ?thesis using p(1,6,7) assms(7) by blast
qed

section \<open>What is played of a call\<close>

text \<open>The samples of the buffered blocks, decoded in order by one decoder, and the three parts of 20 ms that each is sent in.\<close>

fun decoded_blocks :: "codec_lib \<Rightarrow> codec_handle \<Rightarrow> bytes list \<Rightarrow> int list list" where
  "decoded_blocks lib h [] = []"
| "decoded_blocks lib h (ste # rest) = (case decode_block lib h ste of
     (h', None) \<Rightarrow> decoded_blocks lib h' rest | (h', Some xs) \<Rightarrow> xs # decoded_blocks lib h' rest)"

definition parts_sent :: "audio_config \<Rightarrow> int list \<Rightarrow> int list list" where
  "parts_sent cfg xs = map (\<lambda>i. slice (i * 160) ((i + 1) * 160)
     (scale_pcm xs (downlink_gain cfg) (downlink_peak_limit cfg))) [0, 1, 2]"

text \<open>\<open>carries c packet xs\<close>: the packet names source and talkgroup of the call and holds the samples \<open>xs\<close>.\<close>

definition carries :: "downlink_call \<Rightarrow> bytes \<Rightarrow> int list \<Rightarrow> bool" where
  "carries c packet xs \<longleftrightarrow> (\<exists>q m pcm. parse_dvm_rtp packet = Some (dl_source c, dl_p25_destination c, q, m, pcm) \<and>
     unpack_pcm pcm = Inr xs)"

definition sends_parts :: "audio_config \<Rightarrow> downlink_call \<Rightarrow> int list list \<Rightarrow> bridge \<Rightarrow> bridge \<Rightarrow> bool" where
  "sends_parts cfg c parts s t \<longleftrightarrow> (\<exists>packets. list_all2 (carries c) packets parts \<and>
     udp_sent t = udp_sent s @ concat (map (\<lambda>p. to_outputs p (pcm_output cfg # pcm_additional_outputs cfg)) packets))"

lemma carries_cong: "dl_source c = dl_source c' \<Longrightarrow> dl_p25_destination c = dl_p25_destination c' \<Longrightarrow> carries c = carries c'"
  by (simp add: carries_def fun_eq_iff)

lemma sends_parts_trans:
  assumes "sends_parts cfg c ps s t" "sends_parts cfg c qs t u" shows "sends_parts cfg c (ps @ qs) s u"
proof -
  obtain a b where "list_all2 (carries c) a ps" "list_all2 (carries c) b qs"
    "udp_sent t = udp_sent s @ concat (map (\<lambda>p. to_outputs p (pcm_output cfg # pcm_additional_outputs cfg)) a)"
    "udp_sent u = udp_sent t @ concat (map (\<lambda>p. to_outputs p (pcm_output cfg # pcm_additional_outputs cfg)) b)"
    using assms unfolding sends_parts_def by blast
  then show ?thesis unfolding sends_parts_def by (intro exI [of _ "a @ b"]) (simp add: list_all2_appendI)
qed

section \<open>Invariance\<close>

lemma downlink_ok_core [simp]:
  "downlink_ok (s\<lparr>bio := i\<rparr>) = downlink_ok s" "downlink_ok (s\<lparr>ignored_uuids := g\<rparr>) = downlink_ok s"
  "downlink_ok (s\<lparr>owned_uuids := w\<rparr>) = downlink_ok s" "downlink_ok (s\<lparr>downlink_due := d\<rparr>) = downlink_ok s"
  by (simp_all add: downlink_ok_def)

lemma downlink_ok_plays: "plays s t \<Longrightarrow> downlink_ok s \<Longrightarrow> downlink_ok t"
  using playsD(1,2,12) [of s t] unfolding plays_def downlink_ok_def by simp

lemma map_of_delete_iff: "map_of (AList.delete k d) u = (if u = k then None else map_of d u)"
  by simp

lemma closed_once: "handle_ok h \<Longrightarrow> h_closed (handle_close h) \<and> h_destroyed (handle_close h) = 1"
  by (simp add: handle_ok_def handle_close_def)

lemma downlink_ok_remove [wf_intros]:
  "downlink_ok s \<Longrightarrow> call_ok c \<Longrightarrow> downlink_ok (remove_downlink ck c s)"
  by (auto simp: downlink_ok_def remove_downlink_def call_ok_def closed_once dest!: in_set_deleteD)

lemma in_calls: "map_of (downlink_calls s) u = Some c \<Longrightarrow> u \<in> fst ` set (downlink_calls s)"
  by (metis map_of_None_iff option.distinct(1))

lemma downlink_ok_select [wf_intros]:
  assumes "downlink_ok s"
  shows "downlink_ok (select_downlink cfg ck r s)"
proof (cases "active_downlink s = None \<and> find (ready_to_play cfg) (sort_key created_at (map snd (downlink_calls s))) \<noteq> None")
  case False
  then show ?thesis using assms by (auto simp: select_downlink_def split: option.splits)
next
  case True
  then obtain c where c: "find (ready_to_play cfg) (sort_key created_at (map snd (downlink_calls s))) = Some c"
    by blast
  then have "c \<in> set (sort_key created_at (map snd (downlink_calls s)))"
    unfolding find_Some_iff using nth_mem by blast
  then obtain u where u: "(u, c) \<in> set (downlink_calls s)" by auto
  then have ok: "call_ok c" "dl_uuid c = u" using assms by (auto simp: downlink_ok_def)
  have "downlink_ok (put_call (c\<lparr>started := True\<rparr>) s)"
    using assms ok(1) by (intro downlink_ok_put) simp_all
  then show ?thesis using c True ok(2)
    by (simp add: select_downlink_def downlink_ok_def put_call_def)
qed

lemma take_block_cases:
  assumes "downlink_ok s"
  obtains (nothing) "take_block ck s = (None, s)"
  | (stale) "take_block ck s = (None, s\<lparr>active_downlink := None\<rparr>)"
  | (block) u c ste rest where "active_downlink s = Some u" "map_of (downlink_calls s) u = Some c"
      "frames c = ste # rest" "take_block ck s = (Some (c\<lparr>frames := rest\<rparr>, ste), put_call (c\<lparr>frames := rest\<rparr>) s)"
      "call_ok (c\<lparr>frames := rest\<rparr>)" "length ste = TETRA_STE_BYTES" "dl_uuid c = u"
  | (drained) u c where "active_downlink s = Some u" "map_of (downlink_calls s) u = Some c"
      "frames c = []" "ended c" "take_block ck s = (None, remove_downlink ck c s)" "dl_uuid c = u"
  | (underrun) u c t where "active_downlink s = Some u" "map_of (downlink_calls s) u = Some c"
      "frames c = []" "\<not> ended c" "take_block ck s = (None, t)" "downlink_ok t"
      "map_of (downlink_calls t) = (map_of (downlink_calls s))(u \<mapsto> c\<lparr>underruns := underruns c + 1, started := False\<rparr>)"
proof (cases "active_downlink s")
  case None
  then have "take_block ck s = (None, s)" by (simp add: take_block_def)
  then show thesis by (rule nothing)
next
  case (Some u)
  show thesis
  proof (cases "map_of (downlink_calls s) u")
    case None
    then show thesis using stale Some by (simp add: take_block_def)
  next
    case c: (Some c)
    note okc = downlink_okD [OF assms c]
    show thesis
    proof (cases "frames c")
      case (Cons ste rest)
      then have "call_ok (c\<lparr>frames := rest\<rparr>)" "length ste = TETRA_STE_BYTES"
        using okc(2) by (auto simp: call_ok_def)
      then show thesis using block [OF Some c Cons] Cons Some c okc(1) by (simp add: take_block_def)
    next
      case Nil
      show thesis
      proof (cases "ended c")
        case True
        then show thesis using drained [OF Some c Nil] Some c Nil okc(1) by (simp add: take_block_def)
      next
        case False
        let ?c = "c\<lparr>underruns := underruns c + 1, started := False\<rparr>"
        let ?t = "(put_call ?c s)\<lparr>active_downlink := None,
          bio := status_set [(''activeDownlink'', PNone)] (status_increment ''downlinkUnderruns'' (bio s))\<rparr>"
        have ok: "downlink_ok (put_call ?c s)" using assms okc(2) by (intro downlink_ok_put) simp_all
        then have ok2: "downlink_ok ?t" by (simp add: downlink_ok_def)
        have m: "map_of (downlink_calls ?t) = (map_of (downlink_calls s))(u \<mapsto> ?c)"
          using okc(1) by (simp add: put_call_def)
        have tb: "take_block ck s = (if mono ck - last_frame_at c > 14 / 100 then (None, ?t) else (None, s))"
          using Some c Nil False by (simp add: take_block_def)
        show thesis
        proof (cases "mono ck - last_frame_at c > 14 / 100")
          case True
          with tb have "take_block ck s = (None, ?t)" by (simp only: if_True)
          from underrun [OF Some c Nil False this ok2 m] show thesis .
        next
          case False
          with tb have "take_block ck s = (None, s)" by (simp only: if_False)
          then show thesis by (rule nothing)
        qed
      qed
    qed
  qed
qed

lemma downlink_ok_stale: "downlink_ok s \<Longrightarrow> downlink_ok (s\<lparr>active_downlink := None\<rparr>)"
  by (simp add: downlink_ok_def)

text \<open>A pass of the loop returns and keeps the invariant.\<close>

lemma downlink_tick_block:
  assumes "downlink_ok s" "audio_ok cfg" "\<not> stop_set s" "active_downlink s = Some u"
    "map_of (downlink_calls s) u = Some c" "frames c = ste # rest"
  obtains c' t decoded where "downlink_tick lib cfg ck due_ck r s = (Inr (), t)" "downlink_ok t" "\<not> stop_set t"
    "active_downlink t = Some u" "map_of (downlink_calls t) = (map_of (downlink_calls s))(u \<mapsto> c')"
    "frames c' = rest" "ended c' = ended c" "retired t = retired s" "ignored_uuids t = ignored_uuids s" "dl_uuid c' = u"
    "udp_fails t = udp_fails s" "decode_block lib (decoder c) ste = (decoder c', Some decoded)" "length decoded = 480"
    "carries c' = carries c" "udp_fails s = (\<lambda>_. False) \<Longrightarrow> sends_parts cfg c (parts_sent cfg decoded) s t"
proof -
  note okc = downlink_okD [OF assms(1,5)]
  have sel: "select_downlink cfg ck r s = s" using assms(4) by (simp add: select_downlink_def)
  let ?c = "c\<lparr>frames := rest\<rparr>"
  have tb: "take_block ck s = (Some (?c, ste), put_call ?c s)"
    using assms(4-6) by (simp add: take_block_def)
  have ok: "call_ok ?c" "length ste = 36" using okc(2) assms(6) by (auto simp: call_ok_def)
  define s1 where "s1 = (if mono due_ck - downlink_due (put_call ?c s) > 18 / 100
      then (put_call ?c s)\<lparr>downlink_due := mono due_ck\<rparr> else put_call ?c s)"
  have s1: "downlink_ok s1" "\<not> stop_set s1" "active_downlink s1 = Some u" "ignored_uuids s1 = ignored_uuids s" "retired s1 = retired s"
    "map_of (downlink_calls s1) = (map_of (downlink_calls s))(u \<mapsto> ?c)"
    "0 \<le> rtp_sequence s1" "rtp_sequence s1 < 65535" "udp_fails s1 = udp_fails s" "udp_sent s1 = udp_sent s"
    using downlink_ok_put [OF assms(1) ok(1)] assms(1,3,4) okc(1)
    by (auto simp: s1_def downlink_ok_def)
  obtain h decoded t packet where p: "decode_block lib (decoder ?c) ste = (h, Some decoded)"
    "length decoded = 480" "play_downlink_block lib cfg ?c ste s1 = (Inr (), t)"
    "plays (put_call (add_pcm_stats (scale_pcm decoded (downlink_gain cfg) (downlink_peak_limit cfg))
       (?c\<lparr>decoder := h\<rparr>)) s1) t" "call_ok (?c\<lparr>decoder := h\<rparr>)"
    "list_all (\<lambda>i. \<exists>pcm. parse_dvm_rtp (packet i) = Some (dl_source ?c, dl_p25_destination ?c,
       (next_sequence ^^ i) (rtp_sequence s1), (next_sequence ^^ i) (rtp_sequence s1) = 0, pcm) \<and>
       unpack_pcm pcm = Inr (slice (i * 160) ((i + 1) * 160)
         (scale_pcm decoded (downlink_gain cfg) (downlink_peak_limit cfg)))) [0, 1, 2]"
    "udp_fails s1 = (\<lambda>_. False) \<longrightarrow> udp_sent t = udp_sent s1 @
       concat (map (\<lambda>i. to_outputs (packet i) (pcm_output cfg # pcm_additional_outputs cfg)) [0, 1, 2])"
    by (rule play_block [OF ok assms(2) s1(2,7,8), where lib = lib])
  let ?c' = "add_pcm_stats (scale_pcm decoded (downlink_gain cfg) (downlink_peak_limit cfg)) (?c\<lparr>decoder := h\<rparr>)"
  let ?t = "t\<lparr>downlink_due := downlink_due t + 6 / 100\<rparr>"
  have run: "downlink_tick lib cfg ck due_ck r s = (Inr (), ?t)"
    using p(3) by (simp add: downlink_tick_def sel tb s1_def)
  have "downlink_ok (put_call ?c' s1)" using s1(1) p(5) by (intro downlink_ok_put) simp_all
  then have okt: "downlink_ok ?t" using downlink_ok_plays [OF p(4)] by simp
  have cc: "carries ?c' = carries c" by (intro carries_cong) (simp_all add: add_pcm_stats_def)
  have "list_all (\<lambda>i. carries c (packet i) (slice (i * 160) ((i + 1) * 160)
      (scale_pcm decoded (downlink_gain cfg) (downlink_peak_limit cfg)))) [0, 1, 2]"
    by (rule list.pred_mono_strong [OF p(6)]) (auto simp: carries_def)
  then have l: "list_all2 (carries c) (map packet [0, 1, 2]) (parts_sent cfg decoded)"
    by (simp add: parts_sent_def)
  have parts: "sends_parts cfg c (parts_sent cfg decoded) s ?t" if "udp_fails s = (\<lambda>_. False)"
    unfolding sends_parts_def using p(7) s1(9,10) that l by (intro exI [of _ "map packet [0, 1, 2]"]) simp
  have d: "decode_block lib (decoder c) ste = (decoder ?c', Some decoded)" using p(1) by (simp add: add_pcm_stats_def)
  show thesis
    by (rule that [of ?t ?c' decoded, OF run okt _ _ _ _ _ _ _ _ _ d p(2) cc parts])
      (use playsD [OF p(4)] s1 okc(1) in \<open>simp_all add: add_pcm_stats_def\<close>)
qed

lemma select_frame:
  "stop_set (select_downlink cfg ck r s) = stop_set s"
  "ignored_uuids (select_downlink cfg ck r s) = ignored_uuids s"
  by (simp_all add: select_downlink_def put_call_def split: option.splits)

lemma downlink_tick_select:
  "downlink_tick lib cfg ck due_ck r s = downlink_tick lib cfg ck due_ck r (select_downlink cfg ck r s)"
proof -
  have "select_downlink cfg ck r (select_downlink cfg ck r s) = select_downlink cfg ck r s"
    by (simp add: select_downlink_def split: option.splits)
  then show ?thesis by (simp add: downlink_tick_def)
qed

text \<open>A block taken when the stop event is set is decoded and not sent.\<close>

lemma downlink_tick_stopped:
  assumes "downlink_ok s" "stop_set s" "active_downlink s = Some u"
    "map_of (downlink_calls s) u = Some c" "frames c = ste # rest"
  obtains t where "downlink_tick lib cfg ck due_ck r s = (Inr (), t)" "downlink_ok t"
proof -
  note okc = downlink_okD [OF assms(1,4)]
  have sel: "select_downlink cfg ck r s = s" using assms(3) by (simp add: select_downlink_def)
  let ?c = "c\<lparr>frames := rest\<rparr>"
  have tb: "take_block ck s = (Some (?c, ste), put_call ?c s)"
    using assms(3-5) by (simp add: take_block_def)
  have ok: "call_ok ?c" "length ste = 36" using okc(2) assms(5) by (auto simp: call_ok_def)
  define s1 where "s1 = (if mono due_ck - downlink_due (put_call ?c s) > 18 / 100
      then (put_call ?c s)\<lparr>downlink_due := mono due_ck\<rparr> else put_call ?c s)"
  have s1: "downlink_ok s1" "stop_set s1" using downlink_ok_put [OF assms(1) ok(1)] assms(2) by (auto simp: s1_def)
  obtain h decoded where d: "decode_block lib (decoder ?c) ste = (h, Some decoded)"
    "\<not> h_is_encoder h" "h_closed h = h_closed (decoder ?c)" "h_destroyed h = h_destroyed (decoder ?c)"
    using ok by (rule_tac decode_block_total [of "decoder ?c" ste lib]) (auto simp: call_ok_def)
  let ?c' = "add_pcm_stats (scale_pcm decoded (downlink_gain cfg) (downlink_peak_limit cfg)) (?c\<lparr>decoder := h\<rparr>)"
  have okc': "call_ok (?c\<lparr>decoder := h\<rparr>)" using ok(1) d by (simp add: call_ok_def handle_ok_def)
  have chunk: "send_pcm_chunk cfg e xs z = (Inr (), z)" if "stop_set z" for e xs z
    using that by (simp add: send_pcm_chunk_def)
  have "play_downlink_block lib cfg ?c ste s1 = (Inr (), put_call ?c' s1)"
    using d(1) s1(2) by (simp add: play_downlink_block_def Let_def chunk)
  then have run: "downlink_tick lib cfg ck due_ck r s =
      (Inr (), (put_call ?c' s1)\<lparr>downlink_due := downlink_due (put_call ?c' s1) + 6 / 100\<rparr>)"
    by (simp add: downlink_tick_def sel tb s1_def)
  have "downlink_ok (put_call ?c' s1)" using s1(1) okc' by (intro downlink_ok_put) simp_all
  then show thesis by (intro that [OF run]) simp
qed

lemma downlink_tick_ok:
  assumes "downlink_ok s" "audio_ok cfg"
  obtains t where "downlink_tick lib cfg ck due_ck r s = (Inr (), t)" "downlink_ok t"
proof -
  let ?s = "select_downlink cfg ck r s"
  have ok: "downlink_ok ?s" using assms by (simp add: downlink_ok_select)
  have idem: "select_downlink cfg ck r ?s = ?s"
    by (simp add: select_downlink_def split: option.splits)
  show thesis
  proof (rule take_block_cases [OF ok, of ck], goal_cases nothing stale block drained underrun)
    case nothing
    then show thesis using that ok by (simp add: downlink_tick_def)
  next
    case stale
    then show thesis using that downlink_ok_stale [OF ok] by (simp add: downlink_tick_def)
  next
    case (block u c ste rest)
    note sel = downlink_tick_select [of lib cfg ck due_ck r s]
    show thesis
    proof (cases "stop_set ?s")
      case True
      show thesis
        by (rule downlink_tick_stopped [OF ok True block(1-3), where lib = lib and cfg = cfg and ck = ck
              and due_ck = due_ck and r = r]) (use that in \<open>simp add: sel\<close>)
    next
      case False
      show thesis
        by (rule downlink_tick_block [OF ok assms(2) False block(1-3), where lib = lib and ck = ck
              and due_ck = due_ck and r = r]) (use that in \<open>simp add: sel\<close>)
    qed
  next
    case (drained u c)
    then show thesis using that downlink_ok_remove [OF ok downlink_okD(2) [OF ok drained(2)]]
      by (simp add: downlink_tick_def)
  next
    case (underrun u c t)
    then show thesis using that by (simp add: downlink_tick_def)
  qed
qed

text \<open>C22: a call that has ended while it is being played is played to its end: after one pass of the loop per buffered block
  and one more, every buffered block has been decoded in order and, when no output fails, its three parts of 20 ms have
  been sent to every output, in order and with nothing in between; then its decoder is destroyed, exactly once, the call is
  gone, the channel is free and no other call was touched. (A call that ends without a block in its buffer, and is not the
  one being played, is never taken up and stays, \<^verbatim>\<open>empty_ended_call_stays\<close>.)\<close>

theorem ended_call_drains:
  assumes "downlink_ok s" "audio_ok cfg" "\<not> stop_set s" "active_downlink s = Some u"
    and "map_of (downlink_calls s) u = Some c" "ended c" "length passes = length (frames c) + 1"
  shows "\<exists>t. forA passes (\<lambda>(ck, due_ck, r) _. downlink_tick lib cfg ck due_ck r) () s = (Inr (), t) \<and>
    length (decoded_blocks lib (decoder c) (frames c)) = length (frames c) \<and>
    (udp_fails s = (\<lambda>_. False) \<longrightarrow>
      sends_parts cfg c (concat (map (parts_sent cfg) (decoded_blocks lib (decoder c) (frames c)))) s t) \<and>
    downlink_ok t \<and> active_downlink t = None \<and>
    map_of (downlink_calls t) = (map_of (downlink_calls s))(u := None) \<and>
    (\<exists>h. retired t = retired s @ [h] \<and> h_closed h \<and> h_destroyed h = 1)"
  using assms
proof (induction "frames c" arbitrary: s c passes)
  case Nil
  then obtain ck due_ck r where p: "passes = [(ck, due_ck, r)]"
    by (metis add_0 list.size(3) length_0_conv length_Suc_conv One_nat_def prod_cases3)
  have sel: "select_downlink cfg ck r s = s" using Nil.prems(4) by (simp add: select_downlink_def)
  have "dl_uuid c = u" and okc: "call_ok c" using downlink_okD [OF Nil.prems(1,5)] .
  moreover have "take_block ck s = (None, remove_downlink ck c s)"
    using Nil.prems(4,5,6) Nil.hyps by (simp add: take_block_def)
  then have "downlink_tick lib cfg ck due_ck r s = (Inr (), remove_downlink ck c s)"
    by (simp add: downlink_tick_def sel)
  moreover have "sends_parts cfg c [] s (remove_downlink ck c s)" by (simp add: sends_parts_def remove_downlink_def)
  ultimately show ?case
    using downlink_ok_remove [OF Nil.prems(1) okc, of ck] Nil.prems(4) okc Nil.hyps [symmetric]
    by (simp add: p remove_downlink_def fun_eq_iff closed_once call_ok_def)
next
  case (Cons ste rest)
  obtain ck due_ck r ps where p: "passes = (ck, due_ck, r) # ps" "length ps = length rest + 1"
  proof -
    have "length passes = Suc (length rest + 1)" using Cons.prems(7) Cons.hyps(2) [symmetric] by simp
    then obtain x ps where "passes = x # ps" "length ps = length rest + 1" by (cases passes) auto
    moreover obtain ck due_ck r where "x = (ck, due_ck, r)" by (rule prod_cases3)
    ultimately show thesis using that by blast
  qed
  obtain c' t decoded where t: "downlink_tick lib cfg ck due_ck r s = (Inr (), t)" "downlink_ok t" "\<not> stop_set t"
    "active_downlink t = Some u" "map_of (downlink_calls t) = (map_of (downlink_calls s))(u \<mapsto> c')"
    "frames c' = rest" "ended c' = ended c" "retired t = retired s" "udp_fails t = udp_fails s"
    "decode_block lib (decoder c) ste = (decoder c', Some decoded)" "carries c' = carries c"
    "udp_fails s = (\<lambda>_. False) \<Longrightarrow> sends_parts cfg c (parts_sent cfg decoded) s t"
    by (rule downlink_tick_block [OF Cons.prems(1-5) Cons.hyps(2) [symmetric],
          where lib = lib and ck = ck and due_ck = due_ck and r = r]) blast
  have m: "map_of (downlink_calls t) u = Some c'" by (simp add: t(5))
  have e: "ended c'" using t(7) Cons.prems(6) by simp
  have l: "length ps = length (frames c') + 1" using p(2) t(6) by simp
  obtain v where v: "forA ps (\<lambda>(ck, due_ck, r) _. downlink_tick lib cfg ck due_ck r) () t = (Inr (), v)"
    "length (decoded_blocks lib (decoder c') (frames c')) = length (frames c')"
    "udp_fails t = (\<lambda>_. False) \<longrightarrow>
      sends_parts cfg c' (concat (map (parts_sent cfg) (decoded_blocks lib (decoder c') (frames c')))) t v"
    "downlink_ok v" "active_downlink v = None"
    "map_of (downlink_calls v) = (map_of (downlink_calls t))(u := None)"
    "\<exists>h. retired v = retired t @ [h] \<and> h_closed h \<and> h_destroyed h = 1"
    using Cons.hyps(1) [OF t(6) [symmetric] t(2) Cons.prems(2) t(3,4) m e l] by blast
  have d: "decoded_blocks lib (decoder c) (frames c) = decoded # decoded_blocks lib (decoder c') (frames c')"
    by (simp add: Cons.hyps(2) [symmetric] t(6,10))
  have "sends_parts cfg c' qs t v = sends_parts cfg c qs t v" for qs by (simp add: sends_parts_def t(11))
  then have "udp_fails s = (\<lambda>_. False) \<longrightarrow>
      sends_parts cfg c (concat (map (parts_sent cfg) (decoded_blocks lib (decoder c) (frames c)))) s v"
    using v(3) t(9) sends_parts_trans [OF t(12)] unfolding d by auto
  moreover have "length (decoded_blocks lib (decoder c) (frames c)) = length (frames c)"
    unfolding d using v(2) t(6) by (simp add: Cons.hyps(2) [symmetric])
  ultimately show ?case
    by (intro exI [of _ v] conjI v(4,5)) (simp_all add: p(1) t(1) v(1) v(6) t(5) v(7) [unfolded t(8) One_nat_def])
qed

text \<open>A call without buffered blocks that has ended is never selected, so nothing removes it or closes its decoder. It is what
  becomes of a call that ends before its first block, or after a gap that took the channel from it.\<close>

lemma empty_ended_call_stays:
  assumes "active_downlink s = None" "\<forall>c \<in> snd ` set (downlink_calls s). ended c \<and> frames c = []"
    and "1 \<le> rebuffer_frames cfg" "1 \<le> jitter_frames cfg"
  shows "downlink_tick lib cfg ck due_ck r s = (Inr (), s)"
proof -
  have "find (ready_to_play cfg) (sort_key created_at (map snd (downlink_calls s))) = None"
  proof -
    have "\<not> ready_to_play cfg c" if "c \<in> snd ` set (downlink_calls s)" for c
      using assms(2-4) that by (auto simp: ready_to_play_def)
    then show ?thesis unfolding find_None_iff by auto
  qed
  then have "select_downlink cfg ck r s = s" by (simp add: select_downlink_def)
  then show ?thesis using assms(1) by (simp add: downlink_tick_def take_block_def)
qed

section \<open>The other operations\<close>

lemma p25_for_brew_u32:
  assumes "routing_ok (rt_config r)" "u32 b" "p25_for_brew r b = Some p"
  shows "u32 p"
proof (cases "map_of (brew_to_p25 (rt_config r)) b")
  case None
  then show ?thesis using assms by (auto simp: p25_for_brew_def split: if_splits)
next
  case (Some x)
  then have "map_of (p25_to_brew (rt_config r)) x = Some b" "x = p"
    using assms by (auto simp: p25_for_brew_def routing_ok_def tables_ok_def split: if_splits)
  then have "in_24bit p" using assms(1) by (auto simp: routing_ok_def tables_ok_def)
  then show ?thesis by (simp add: in_24bit_def u32_def)
qed

lemma call_ok_new:
  assumes "open_handle lib False = Inr h" "u32 src" "u32 p"
  shows "call_ok (new_downlink_call ck u src b p h)"
  using assms handle_ok_open [OF assms(1)]
  by (auto simp: call_ok_def new_downlink_call_def open_handle_def split: if_splits)

lemma downlink_ok_start [wf_intros]:
  assumes "downlink_ok s" "routing_ok (rt_config (brt s))" "u32 source" "u32 destination"
  shows "downlink_ok (snd (start_or_update_downlink lib ck uuid source destination s))"
proof (cases "p25_for_brew (brt s) destination")
  case None
  then show ?thesis using assms(1) by (simp add: start_or_update_downlink_def ignore_uuid_def)
next
  case (Some p)
  have p: "u32 p" by (rule p25_for_brew_u32 [OF assms(2,4) Some])
  show ?thesis
  proof (cases "map_of (downlink_calls s) uuid")
    case None
    show ?thesis
    proof (cases "open_handle lib False")
      case (Inl e)
      then show ?thesis using Some None assms(1)
        by (simp add: start_or_update_downlink_def ignore_uuid_def)
    next
      case (Inr h)
      then show ?thesis using Some None assms(1) call_ok_new [OF Inr assms(3) p]
        by (simp add: start_or_update_downlink_def ignore_uuid_def downlink_ok_put)
    qed
  next
    case c: (Some c)
    have "call_ok (c\<lparr>dl_source := source, ended := False\<rparr>)"
      using downlink_okD(2) [OF assms(1) c] assms(3) by (simp add: call_ok_def)
    then show ?thesis using Some c assms(1)
      by (simp add: start_or_update_downlink_def ignore_uuid_def downlink_ok_put)
  qed
qed

lemma downlink_ok_end [wf_intros]: "downlink_ok s \<Longrightarrow> downlink_ok (end_downlink uuid s)"
  by (auto simp: end_downlink_def split: option.splits intro!: downlink_ok_put dest: downlink_okD)

lemma downlink_ok_voice [wf_intros]:
  assumes "downlink_ok s"
  shows "downlink_ok (snd (queue_downlink_voice ck uuid bits payload s))"
proof (cases "map_of (downlink_calls s) uuid")
  case None
  then show ?thesis using assms by (simp add: queue_downlink_voice_def)
next
  case (Some c)
  show ?thesis
  proof (cases "TETRA_STE_BYTES \<le> length payload")
    case True
    have "call_ok ((queue_frame (take TETRA_STE_BYTES payload) c)\<lparr>last_frame_at := mono ck\<rparr>)"
      using call_ok_queue [OF downlink_okD(2) [OF assms Some] True] by simp
    then have "downlink_ok (put_call ((queue_frame (take TETRA_STE_BYTES payload) c)\<lparr>last_frame_at := mono ck\<rparr>) s)"
      "\<And>i. downlink_ok (put_call ((queue_frame (take TETRA_STE_BYTES payload) c)\<lparr>last_frame_at := mono ck\<rparr>)
         (s\<lparr>bio := i\<rparr>))"
      using assms by (auto intro!: downlink_ok_put)
    then show ?thesis using assms Some True
      by (auto simp: queue_downlink_voice_def)
  next
    case False
    then show ?thesis using assms Some by (simp add: queue_downlink_voice_def)
  qed
qed

definition accepts_voice :: "bytes \<Rightarrow> bridge \<Rightarrow> bool" where
  "accepts_voice uuid s \<longleftrightarrow> uuid \<notin> fst ` set (owned_uuids s) \<and> uuid \<notin> ignored_uuids s"

lemma queue_voice_accepted:
  assumes "downlink_ok s" "accepts_voice uuid s" "map_of (downlink_calls s) uuid = Some c"
    "TETRA_STE_BYTES \<le> length payload"
  obtains t c' where "queue_downlink_voice ck uuid bits payload s = (Inr (), t)" "downlink_ok t"
    "accepts_voice uuid t" "map_of (downlink_calls t) uuid = Some c'"
    "frames c' = frames (queue_frame (take TETRA_STE_BYTES payload) c)"
proof -
  let ?t = "snd (queue_downlink_voice ck uuid bits payload s)"
  let ?c = "(queue_frame (take TETRA_STE_BYTES payload) c)\<lparr>last_frame_at := mono ck\<rparr>"
  have u: "dl_uuid c = uuid" by (rule downlink_okD(1) [OF assms(1,3)])
  have q: "dl_uuid (queue_frame f c) = dl_uuid c" for f by (simp add: queue_frame_def)
  have ok: "downlink_ok ?t" by (rule downlink_ok_voice [OF assms(1)])
  have run: "queue_downlink_voice ck uuid bits payload s = (Inr (), ?t)"
    using assms(2-4) u q by (simp add: queue_downlink_voice_def accepts_voice_def)
  have acc: "accepts_voice uuid ?t"
    using assms(2-4) u q by (simp add: queue_downlink_voice_def accepts_voice_def)
  have m: "map_of (downlink_calls ?t) uuid = Some ?c"
    using assms(2-4) u q by (simp add: queue_downlink_voice_def accepts_voice_def)
  show thesis by (rule that [OF run ok acc m]) simp
qed

text \<open>The voice of an accepted call is buffered in order of arrival, 36 bytes of each frame;
  when more than 24 blocks wait the oldest are dropped, so that the buffer always holds the last
  24 blocks of what it held and what arrived.\<close>

theorem jitter_buffer_suffix:
  assumes "downlink_ok s" "accepts_voice uuid s" "map_of (downlink_calls s) uuid = Some c"
    and "list_all (\<lambda>(ck, bits, payload). TETRA_STE_BYTES \<le> length payload) arrivals"
  shows "\<exists>t c'. forA arrivals (\<lambda>(ck, bits, payload) _. queue_downlink_voice ck uuid bits payload) () s = (Inr (), t) \<and>
    map_of (downlink_calls t) uuid = Some c' \<and>
    frames c' = (let blocks = frames c @ map (\<lambda>(ck, bits, payload). take TETRA_STE_BYTES payload) arrivals
                 in drop (length blocks - JITTER_LIMIT) blocks)"
proof -
  have "\<exists>t c'. forA arrivals (\<lambda>(ck, bits, payload) _. queue_downlink_voice ck uuid bits payload) () s = (Inr (), t) \<and>
    map_of (downlink_calls t) uuid = Some c' \<and>
    frames c' = frames (fold queue_frame (map (\<lambda>(ck, bits, payload). take TETRA_STE_BYTES payload) arrivals) c)"
    using assms
  proof (induction arrivals arbitrary: s c)
    case Nil
    then show ?case by auto
  next
    case (Cons a as)
    obtain ck bits payload where a: "a = (ck, bits, payload)" by (rule prod_cases3)
    let ?f = "take TETRA_STE_BYTES payload"
    have len: "TETRA_STE_BYTES \<le> length payload" using Cons.prems(4) a by simp
    obtain t c' where t: "queue_downlink_voice ck uuid bits payload s = (Inr (), t)" "downlink_ok t"
      "accepts_voice uuid t" "map_of (downlink_calls t) uuid = Some c'"
      "frames c' = frames (queue_frame ?f c)"
      by (rule queue_voice_accepted [OF Cons.prems(1-3) len])
    have fold_frames: "frames c1 = frames c2 \<Longrightarrow> frames (fold queue_frame xs c1) = frames (fold queue_frame xs c2)"
      for xs c1 c2
      by (induction xs arbitrary: c1 c2) (simp_all add: queue_frame_def)
    have rest: "list_all (\<lambda>(ck, bits, payload). TETRA_STE_BYTES \<le> length payload) as"
      using Cons.prems(4) by simp
    show ?case
      using Cons.IH [OF t(2,3,4) rest] t(1) fold_frames [OF t(5)] by (simp add: a)
  qed
  moreover have "length (frames c) \<le> JITTER_LIMIT"
    using downlink_okD(2) [OF assms(1,3)] by (simp add: call_ok_def)
  ultimately show ?thesis using jitter.fold_push_suffix by simp
qed

section \<open>A call that is started again\<close>

text \<open>The bridge forgets the end of a call whose start it refused: when a group transmission that
  is under way is announced again while the talkgroup is no longer routed, its end is taken as the end
  of the refusal only. The call stays open, and as long as it does no other call is accepted.\<close>

theorem refused_restart_blocks_channel:
  assumes "downlink_ok s" "map_of (downlink_calls s) uuid = Some c" "\<not> ended c"
    and "p25_for_brew (brt s) destination = None"
    and "p25_for_brew (brt s) other_destination = Some p"
    and "other \<noteq> uuid" "map_of (downlink_calls s) other = None" "other \<notin> fst ` set (owned_uuids s)"
    and "active_uplink s = None"
  shows "\<exists>s1 s2. start_or_update_downlink lib ck uuid source destination s = (Inr (), s1) \<and>
    map_of (downlink_calls (end_downlink uuid s1)) uuid = Some c \<and>
    start_or_update_downlink lib ck' other source' other_destination (end_downlink uuid s1) = (Inr (), s2) \<and>
    map_of (downlink_calls s2) other = None \<and> other \<in> ignored_uuids s2"
proof -
  have u: "dl_uuid c = uuid" by (rule downlink_okD(1) [OF assms(1,2)])
  have "competing other s"
    using assms(3,6) u map_of_SomeD [OF assms(2)] by (force simp: competing_def)
  then have comp: "competing other (s\<lparr>ignored_uuids := g, bio := i\<rparr>)"
    "competing other (s\<lparr>bio := i, ignored_uuids := g\<rparr>)" for g i
    by (simp_all add: competing_def)
  show ?thesis
    using assms(2-9) comp
    by (simp add: start_or_update_downlink_def ignore_uuid_def end_downlink_def)
qed

section \<open>Concrete instances\<close>

definition example_lib :: codec_lib where
  "example_lib = \<lparr>lib_alloc = True, lib_encode = (\<lambda>_. []), lib_decode = (\<lambda>_. [])\<rparr>"

definition example_handle :: codec_handle where
  "example_handle = \<lparr>h_is_encoder = False, h_closed = False, h_destroyed = 0, h_pcm = [], h_coded = []\<rparr>"

definition example_call :: downlink_call where
  "example_call = (new_downlink_call example_clock [1] 42 91 31337 example_handle)
     \<lparr>frames := [replicate TETRA_STE_BYTES 0]\<rparr>"

definition example_bridge :: bridge where
  "example_bridge = core.extend example_core
     \<lparr>stop_set = False, uplink_queue = [], last_p25_rx = 0, active_uplink = None, uplink_due = 0,
      last_disconnect_at = 0, downlink_calls = [([1], example_call)], active_downlink = Some [1],
      downlink_due = 0, rtp_sequence = 0, rtp_timestamp = 0, udp_fails = (\<lambda>_. False), udp_attempts = 0,
      udp_sent = [], pending_sds = [], recent_sds = [], outbox = [],
      command_files = [], result_files = [], error_files = [], retired = []\<rparr>"

lemma example_downlink_ok: "downlink_ok example_bridge" "call_ok example_call" "\<not> stop_set example_bridge"
  by (simp_all add: downlink_ok_def example_bridge_def core.defs example_core_def example_call_def
      new_downlink_call_def example_handle_def call_ok_def handle_ok_def u32_def dict_ok_def)

theorem voice_block_packets_witness:
  "\<exists>cfg r t packet. audio_config_load example_env ''audio.json'' (PDict example_raw) = Inr cfg \<and>
     play_downlink_block example_lib cfg example_call (replicate TETRA_STE_BYTES 0) example_bridge = (r, t) \<and>
     r = Inr () \<and> udp_sent t = concat (map (\<lambda>i. to_outputs (packet i)
       (pcm_output cfg # pcm_additional_outputs cfg)) [0, 1, 2 :: nat])"
proof -
  obtain cfg where cfg: "audio_config_load example_env ''audio.json'' (PDict example_raw) = Inr cfg"
    using example_loads by blast
  note ok = audio_config_load_audio_ok [OF cfg]
  have ex: "0 \<le> rtp_sequence example_bridge" "rtp_sequence example_bridge < 65535"
    "udp_fails example_bridge = (\<lambda>_. False)" "udp_sent example_bridge = []"
    by (simp_all add: example_bridge_def core.defs)
  obtain r t where run: "play_downlink_block example_lib cfg example_call (replicate TETRA_STE_BYTES 0)
      example_bridge = (r, t)" by (rule prod.exhaust)
  have "length (replicate TETRA_STE_BYTES (0 :: byte)) = TETRA_STE_BYTES" by simp
  from voice_block_packets [OF example_downlink_ok(2) this ok example_downlink_ok(3) ex(1,2,3) run]
  show ?thesis using cfg run ex(4) by auto
qed

theorem ended_call_drains_witness:
  "\<exists>cfg t. audio_config_load example_env ''audio.json'' (PDict example_raw) = Inr cfg \<and>
     forA [(example_clock, example_clock, 0), (example_clock, example_clock, 0)]
       (\<lambda>(ck, due_ck, r) _. downlink_tick example_lib cfg ck due_ck r) ()
       (end_downlink [1] example_bridge) = (Inr (), t) \<and>
     length (udp_sent t) = 3 * (1 + length (pcm_additional_outputs cfg)) \<and>
     active_downlink t = None \<and> downlink_calls t = []"
proof -
  obtain cfg where cfg: "audio_config_load example_env ''audio.json'' (PDict example_raw) = Inr cfg"
    using example_loads by blast
  note ok = audio_config_load_audio_ok [OF cfg]
  let ?s = "end_downlink [1] example_bridge"
  let ?c = "example_call\<lparr>ended := True\<rparr>"
  have s: "downlink_ok ?s" by (rule downlink_ok_end [OF example_downlink_ok(1)])
  have ex: "\<not> stop_set ?s" "active_downlink ?s = Some [1]" "map_of (downlink_calls ?s) = [[1] \<mapsto> ?c]"
    "ended ?c" "length (frames ?c) = 1" "udp_fails ?s = (\<lambda>_. False)" "udp_sent ?s = []"
    by (simp_all add: example_bridge_def core.defs end_downlink_def put_call_def example_core_def
        example_call_def new_downlink_call_def fun_eq_iff)
  have m: "map_of (downlink_calls ?s) [1] = Some ?c" using ex(3) by simp
  obtain t where "forA [(example_clock, example_clock, 0), (example_clock, example_clock, 0)]
       (\<lambda>(ck, due_ck, r) _. downlink_tick example_lib cfg ck due_ck r) () ?s = (Inr (), t)"
    "length (decoded_blocks example_lib (decoder ?c) (frames ?c)) = length (frames ?c)"
    "sends_parts cfg ?c (concat (map (parts_sent cfg) (decoded_blocks example_lib (decoder ?c) (frames ?c)))) ?s t"
    "active_downlink t = None" "map_of (downlink_calls t) = (map_of (downlink_calls ?s))([1] := None)"
    using ended_call_drains [OF s ok ex(1,2) m ex(4),
        of "[(example_clock, example_clock, 0), (example_clock, example_clock, 0)]" example_lib] ex(5,6)
    by auto
  moreover have "length (udp_sent t) = 3 * (1 + length (pcm_additional_outputs cfg))"
  proof -
    obtain xs where x: "decoded_blocks example_lib (decoder ?c) (frames ?c) = [xs]"
      using \<open>length (decoded_blocks example_lib (decoder ?c) (frames ?c)) = _\<close> ex(5) by (auto simp: length_Suc_conv)
    obtain packets where "list_all2 (carries ?c) packets (parts_sent cfg xs)"
      "udp_sent t = udp_sent ?s @ concat (map (\<lambda>p. to_outputs p (pcm_output cfg # pcm_additional_outputs cfg)) packets)"
      using \<open>sends_parts cfg ?c _ ?s t\<close> unfolding sends_parts_def x by auto
    moreover from this(1) have "length packets = 3" by (simp add: list_all2_lengthD parts_sent_def)
    ultimately show ?thesis using ex(7) by (simp add: to_outputs_def length_concat comp_def sum_list_triv)
  qed
  moreover from \<open>map_of (downlink_calls t) = _\<close> have "downlink_calls t = []"
    using ex(3) by (metis dom_map_of_conv_image_fst fun_upd_upd fun_upd_triv empty_iff image_is_empty map_of.simps(1) map_of_eq_empty_iff)
  ultimately show ?thesis using cfg by blast
qed

theorem jitter_buffer_suffix_witness:
  "\<exists>t c. forA (replicate 24 (example_clock, 288, replicate TETRA_STE_BYTES 1))
       (\<lambda>(ck, bits, payload) _. queue_downlink_voice ck [1] bits payload) () example_bridge = (Inr (), t) \<and>
     map_of (downlink_calls t) [1] = Some c \<and> frames c = replicate 24 (replicate TETRA_STE_BYTES 1)"
proof -
  let ?a = "replicate 24 (example_clock, 288 :: int, replicate TETRA_STE_BYTES (1 :: byte))"
  have ex: "accepts_voice [1] example_bridge" "map_of (downlink_calls example_bridge) [1] = Some example_call"
    "frames example_call = [replicate TETRA_STE_BYTES 0]"
    by (simp_all add: example_bridge_def core.defs accepts_voice_def example_core_def
        example_call_def new_downlink_call_def)
  have "list_all (\<lambda>(ck, bits, payload). TETRA_STE_BYTES \<le> length payload) ?a"
    by (simp add: list_all_iff)
  from jitter_buffer_suffix [OF example_downlink_ok(1) ex(1,2) this] show ?thesis
    by (auto simp: ex(3) Let_def)
qed

theorem refused_restart_blocks_channel_witness:
  "\<exists>s1 s2. start_or_update_downlink example_lib example_clock [1] 42 77 example_bridge = (Inr (), s1) \<and>
     start_or_update_downlink example_lib example_clock [2] 43 91 (end_downlink [1] s1) = (Inr (), s2) \<and>
     map_of (downlink_calls s2) [2] = None"
proof -
  have ex: "map_of (downlink_calls example_bridge) [1] = Some example_call" "\<not> ended example_call"
    "p25_for_brew (brt example_bridge) 77 = None" "p25_for_brew (brt example_bridge) 91 = Some 91"
    "map_of (downlink_calls example_bridge) [2] = None" "[2] \<notin> fst ` set (owned_uuids example_bridge)"
    "active_uplink example_bridge = None"
    by (simp_all add: example_bridge_def core.defs example_core_def example_call_def
        new_downlink_call_def example_router_def router_defs p25_for_brew_def is_active_def is_static_def in_dynamic_def)
  have "[2] \<noteq> ([1] :: bytes)" by simp
  from refused_restart_blocks_channel [OF example_downlink_ok(1) ex(1,2,3,4) this ex(5,6,7)]
  show ?thesis by blast
qed

end
