(* ===== verification/Bridge_Uplink.thy ===== *)
theory Bridge_Uplink
  imports Bridge_Downlink
begin

text \<open>
  P25 to BREW: the body of \<^verbatim>\<open>_udp_receive_loop\<close> on one packet, one pass of \<^verbatim>\<open>_uplink_loop\<close>,
  \<^verbatim>\<open>_begin_uplink\<close>, \<^verbatim>\<open>_send_uplink_voice\<close> and \<^verbatim>\<open>_finish_uplink\<close>. The call object that the loop
  and \<^verbatim>\<open>self.active_uplink\<close> share is a value that every step returns updated. A pass reads the
  clock as \<open>ck\<close> and, after it waited for the frame to become due, as \<open>due_ck\<close>; \<open>uuid\<close> is the
  fresh \<^verbatim>\<open>uuid4\<close> it would use.
\<close>

section \<open>Packets from P25\<close>

abbreviation UPLINK_QUEUE_LIMIT :: nat where "UPLINK_QUEUE_LIMIT \<equiv> 180"

definition queue_pcm :: "pcm_frame \<Rightarrow> bridge \<Rightarrow> bridge" where
  "queue_pcm frame s = s\<lparr>uplink_queue := push_bounded UPLINK_QUEUE_LIMIT frame (uplink_queue s)\<rparr>"

definition handle_p25_packet ::
  "pcm_input_config \<Rightarrow> clock \<Rightarrow> string \<Rightarrow> string \<Rightarrow> bytes \<Rightarrow> unit handler" where
  "handle_p25_packet endpoint ck boot address packet =
     (if allowed_sources endpoint \<noteq> {} \<and> address \<notin> allowed_sources endpoint
      then count ''rejectedP25PcmSources''
      else case parse_dvm_rtp packet of
          None \<Rightarrow> count ''invalidP25PcmPackets''
        | Some (source, destination, sequence, marker, pcm) \<Rightarrow> readA (\<lambda>s.
            if destination = disconnect_talkgroup (rt_config (brt s)) then
              thenA (if marker \<and> mono ck - last_disconnect_at s \<ge> 1 / 2
                     then thenA (upd (\<lambda>s. s\<lparr>last_disconnect_at := mono ck\<rparr>)) (clear_dynamic_routes ck boot)
                     else ret ())
                (count ''disconnectP25PcmPackets'')
            else if brew_for_p25 (brt s) destination = None then count ''unmappedP25PcmPackets''
            else
              thenA (ensure_local_issi ck source False)
              (thenA (readA (\<lambda>s. if length (uplink_queue s) \<ge> UPLINK_QUEUE_LIMIT
                                  then count ''uplinkQueueDrops'' else ret ()))
              (thenA (upd (\<lambda>s. (queue_pcm \<lparr>pf_source = source, pf_destination = destination,
                         pf_sequence = sequence, pf_marker = marker, pf_pcm = pcm,
                         received_at = mono ck\<rparr> s)\<lparr>last_p25_rx := mono ck\<rparr>))
                (count ''p25PcmFramesReceived'')))))"

section \<open>A call to BREW\<close>

definition retire :: "codec_handle \<Rightarrow> bridge \<Rightarrow> bridge" where
  "retire h s = s\<lparr>retired := retired s @ [handle_close h]\<rparr>"

definition own_uuid :: "bytes \<Rightarrow> real \<Rightarrow> bridge \<Rightarrow> bridge" where
  "own_uuid uuid expiry s = s\<lparr>owned_uuids := AList.update uuid expiry (owned_uuids s)\<rparr>"

definition new_uplink_call ::
  "audio_config \<Rightarrow> bytes \<Rightarrow> int \<Rightarrow> int \<Rightarrow> int \<Rightarrow> codec_handle \<Rightarrow> uplink_call" where
  "new_uplink_call cfg uuid source p25_destination brew_destination enc =
     \<lparr>ul_source = source, ul_p25_destination = p25_destination, ul_brew_destination = brew_destination,
      ul_uuid = uuid, encoder = enc,
      proc_cfg = uap_init_cfg (uplink_high_pass_hz cfg) (uplink_presence_gain cfg) (uplink_high_cut_hz cfg)
        (uplink_de_esser_crossover_hz cfg) (uplink_de_esser_threshold cfg) (uplink_de_esser_strength cfg),
      processor = uap_init, pcm_samples = [], voice_frames = 0, ul_pcm_peak = 0, ul_pcm_sum_squares = 0,
      ul_pcm_sample_count = 0\<rparr>"

definition begin_uplink ::
  "codec_lib \<Rightarrow> audio_config \<Rightarrow> clock \<Rightarrow> string \<Rightarrow> bytes \<Rightarrow> int \<Rightarrow> int \<Rightarrow> uplink_call option handler" where
  "begin_uplink lib cfg ck boot uuid source p25_destination = readA (\<lambda>s.
     case brew_for_p25 (brt s) p25_destination of
       None \<Rightarrow> ret None
     | Some brew_destination \<Rightarrow>
         bindA (call (\<lambda>s. let (created, r) = activate brew_destination (mono ck) (epoch ck) (brt s)
                          in (created, s\<lparr>brt := r\<rparr>))) (\<lambda>created.
         thenA (save_routes boot)
         (thenA (readA (\<lambda>s.
            if in_dynamic (brt s) brew_destination
            then thenA (set_status [(''dynamicTalkgroups'', snapshot_value (brt s))])
                (if created then send_affiliation ck SUBSCRIBER_AFFILIATE [brew_destination] else ret ())
            else ret ()))
         (readA (\<lambda>s.
            if \<not> is_connected s then thenA (count ''uplinkCallsDroppedDisconnected'') (ret None)
            else bindA (liftE (open_handle lib True)) (\<lambda>enc.
                 thenA (upd (own_uuid uuid (mono ck + 30)))
                 (bindA (on_io (send_built (build_group_tx uuid source brew_destination))) (\<lambda>ok.
                    if \<not> ok then thenA (upd (retire enc)) (ret None)
                    else thenA (count ''uplinkCalls'')
                        (thenA (set_status [(''activeUplink'', PDict [(''uuid'', PStr (uuid_text uuid)),
                            (''source'', PInt source), (''p25Talkgroup'', PInt p25_destination),
                            (''brewTalkgroup'', PInt brew_destination), (''startedAtEpoch'', PFloat (epoch ck))])])
                        (ret (Some (new_uplink_call cfg uuid source p25_destination brew_destination enc))))))))))))"

definition send_uplink_voice ::
  "codec_lib \<Rightarrow> audio_config \<Rightarrow> uplink_call \<Rightarrow> int list \<Rightarrow> uplink_call handler" where
  "send_uplink_voice lib cfg c samples =
     (let (processed, p) = uap_process (proc_cfg c) (processor c) samples (uplink_gain cfg) (uplink_peak_limit cfg) in
      bindA (liftE (handle_encode lib (encoder c) (take TETRA_SAMPLES_30MS processed))) (\<lambda>(coded_a, h1).
      bindA (liftE (handle_encode lib h1 (drop TETRA_SAMPLES_30MS processed))) (\<lambda>(coded_b, h2).
      bindA (liftE (join_tmd_block coded_a coded_b)) (\<lambda>ste.
      bindA (on_io (send_built (build_voice_frame (ul_uuid c) ste))) (\<lambda>ok.
      let c' = c\<lparr>processor := p, encoder := h2\<rparr> in
      if ok then thenA (count ''brewVoiceFramesSent'') (ret (c'\<lparr>voice_frames := voice_frames c + 1\<rparr>))
      else thenA (count ''brewVoiceFramesSendFailed'') (ret c'))))))"

definition last_uplink_audio :: "clock \<Rightarrow> uplink_call \<Rightarrow> (string \<times> pyval) list" where
  "last_uplink_audio ck c = [(''activeUplink'', PNone),
     (''lastUplinkAudio'', PDict [(''source'', PInt (ul_source c)),
        (''p25Talkgroup'', PInt (ul_p25_destination c)), (''brewTalkgroup'', PInt (ul_brew_destination c)),
        (''voiceFrames'', PInt (int (voice_frames c))), (''pcmPeak'', PInt (ul_pcm_peak c)),
        (''pcmRms'', PFloat (round1 (pcm_rms (ul_pcm_sum_squares c) (ul_pcm_sample_count c)))),
        (''deEsserReducedSamples'', PInt (int (de_esser_reduced_samples (processor c)))),
        (''deEsserMaxReductionDb'', PFloat (round1 (de_esser_max_reduction_db (processor c)))),
        (''endedAt'', PStr (utc ck))])]"

definition finish_uplink :: "codec_lib \<Rightarrow> audio_config \<Rightarrow> clock \<Rightarrow> uplink_call \<Rightarrow> unit handler" where
  "finish_uplink lib cfg ck c =
     bindA (if pcm_samples c = [] then ret c
            else bindA (send_uplink_voice lib cfg c (take TETRA_SAMPLES_60MS
                   (pcm_samples c @ replicate (TETRA_SAMPLES_60MS - length (pcm_samples c)) 0)))
                 (\<lambda>c'. ret (c'\<lparr>pcm_samples := []\<rparr>))) (\<lambda>c.
     thenA (on_io (call (send (build_group_idle (ul_uuid c) 0))))
     (thenA (upd (own_uuid (ul_uuid c) (mono ck + 10)))
     (thenA (upd (retire (encoder c)))
       (set_status (last_uplink_audio ck c)))))"

section \<open>The uplink loop\<close>

text \<open>The locked part: the frame to send, if there is one.\<close>

definition take_frame :: "audio_config \<Rightarrow> bridge \<Rightarrow> pcm_frame option \<times> bridge" where
  "take_frame cfg s =
     (if \<not> stop_set s \<and> uplink_queue s \<noteq> [] \<and>
         (active_uplink s \<noteq> None \<or> uplink_initial_frames cfg \<le> int (length (uplink_queue s)))
      then (Some (hd (uplink_queue s)), s\<lparr>uplink_queue := tl (uplink_queue s)\<rparr>) else (None, s))"

definition quiet_long :: "audio_config \<Rightarrow> clock \<Rightarrow> bridge \<Rightarrow> bool" where
  "quiet_long cfg ck s \<longleftrightarrow> (mono ck - last_p25_rx s) * 1000 \<ge> of_int (uplink_inactivity_ms cfg)"

definition end_of_call :: "codec_lib \<Rightarrow> audio_config \<Rightarrow> clock \<Rightarrow> unit handler" where
  "end_of_call lib cfg ck = readA (\<lambda>s.
     case active_uplink s of
       None \<Rightarrow> ret ()
     | Some c \<Rightarrow>
         if quiet_long cfg ck s
         then thenA (finish_uplink lib cfg ck c) (upd (\<lambda>s. s\<lparr>active_uplink := None, uplink_due := 0\<rparr>))
         else ret ())"

definition add_samples :: "int list \<Rightarrow> uplink_call \<Rightarrow> uplink_call" where
  "add_samples samples c = c\<lparr>ul_pcm_peak := max (ul_pcm_peak c) (max_abs samples),
     ul_pcm_sum_squares := ul_pcm_sum_squares c + sum_squares samples,
     ul_pcm_sample_count := ul_pcm_sample_count c + int (length samples),
     pcm_samples := pcm_samples c @ samples\<rparr>"

definition send_block :: "codec_lib \<Rightarrow> audio_config \<Rightarrow> uplink_call \<Rightarrow> uplink_call handler" where
  "send_block lib cfg c =
     (if TETRA_SAMPLES_60MS \<le> length (pcm_samples c)
      then send_uplink_voice lib cfg (c\<lparr>pcm_samples := drop TETRA_SAMPLES_60MS (pcm_samples c)\<rparr>)
             (take TETRA_SAMPLES_60MS (pcm_samples c))
      else ret c)"

definition feed_frame :: "codec_lib \<Rightarrow> audio_config \<Rightarrow> clock \<Rightarrow> pcm_frame \<Rightarrow> uplink_call \<Rightarrow> unit handler" where
  "feed_frame lib cfg due_ck frame c =
     thenA (upd (\<lambda>s. let due = (if uplink_due s > 0 \<and> mono due_ck - uplink_due s > 12 / 100
                                  then mono due_ck else uplink_due s)
                      in s\<lparr>uplink_due := due + 2 / 100\<rparr>))
     (bindA (liftE (unpack_pcm (pf_pcm frame))) (\<lambda>samples.
      bindA (send_block lib cfg (add_samples samples c)) (\<lambda>c'.
      upd (\<lambda>s. s\<lparr>active_uplink := Some c'\<rparr>))))"

definition same_talker :: "pcm_frame \<Rightarrow> uplink_call option \<Rightarrow> bool" where
  "same_talker frame active \<longleftrightarrow> (case active of None \<Rightarrow> False
     | Some c \<Rightarrow> ul_source c = pf_source frame \<and> ul_p25_destination c = pf_destination frame)"

definition send_frame ::
  "codec_lib \<Rightarrow> audio_config \<Rightarrow> clock \<Rightarrow> clock \<Rightarrow> string \<Rightarrow> bytes \<Rightarrow> pcm_frame \<Rightarrow> unit handler" where
  "send_frame lib cfg ck due_ck boot uuid frame =
     thenA (readA (\<lambda>s.
        if same_talker frame (active_uplink s) then ret ()
        else thenA (case active_uplink s of None \<Rightarrow> ret () | Some c \<Rightarrow> finish_uplink lib cfg ck c)
            (bindA (begin_uplink lib cfg ck boot uuid (pf_source frame) (pf_destination frame)) (\<lambda>active.
             upd (\<lambda>s. s\<lparr>active_uplink := active, uplink_due := mono ck\<rparr>)))))
     (readA (\<lambda>s. case active_uplink s of None \<Rightarrow> ret () | Some c \<Rightarrow> feed_frame lib cfg due_ck frame c))"

definition uplink_tick ::
  "codec_lib \<Rightarrow> audio_config \<Rightarrow> clock \<Rightarrow> clock \<Rightarrow> string \<Rightarrow> bytes \<Rightarrow> unit handler" where
  "uplink_tick lib cfg ck due_ck boot uuid =
     bindA (call (take_frame cfg)) (\<lambda>frame.
       case frame of None \<Rightarrow> end_of_call lib cfg ck | Some f \<Rightarrow> send_frame lib cfg ck due_ck boot uuid f)"

section \<open>Invariant\<close>

definition pcm_frame_ok :: "pcm_frame \<Rightarrow> bool" where
  "pcm_frame_ok f \<longleftrightarrow> u32 (pf_source f) \<and> u32 (pf_destination f) \<and> length (pf_pcm f) = PCM_BYTES_20MS"

definition uplink_call_ok :: "uplink_call \<Rightarrow> bool" where
  "uplink_call_ok c \<longleftrightarrow> h_is_encoder (encoder c) \<and> \<not> h_closed (encoder c) \<and> handle_ok (encoder c) \<and>
     length (ul_uuid c) = 16 \<and> length (pcm_samples c) < TETRA_SAMPLES_60MS"

definition uplink_ok :: "bridge \<Rightarrow> bool" where
  "uplink_ok s \<longleftrightarrow> length (uplink_queue s) \<le> UPLINK_QUEUE_LIMIT \<and> list_all pcm_frame_ok (uplink_queue s) \<and>
     (case active_uplink s of None \<Rightarrow> True | Some c \<Rightarrow> uplink_call_ok c)"

text \<open>The queue of the uplink as an instance of the bounded queue: at most 180 frames, the oldest
  dropped first.\<close>

interpretation uplink_fifo: bounded_fifo UPLINK_QUEUE_LIMIT queue_pcm uplink_queue
  by unfold_locales (simp_all add: queue_pcm_def)

section \<open>What a step says and touches\<close>

text \<open>\<open>says ms i j\<close>: if the connection works, exactly the messages \<open>ms\<close> went out, and it still works.\<close>

definition says :: "bytes list \<Rightarrow> io \<Rightarrow> io \<Rightarrow> bool" where
  "says ms i j \<longleftrightarrow> connected j = connected i \<and> (online i \<longrightarrow> online j \<and> sent j = sent i @ ms)"

lemma says_trans: "says ms i j \<Longrightarrow> says ks j k \<Longrightarrow> says (ms @ ks) i k"
  by (simp add: says_def)

lemma says_simps [simp]:
  "says ms i (status_set vs j) = says ms i j" "says ms i (status_increment_by k n j) = says ms i j"
  "says [] i i"
  by (simp_all add: says_def)

lemma says_send: "says [p] i (snd (send p i))"
  by (simp add: says_def online_send)

text \<open>\<open>up_frame s t\<close>: what the steps of a call may touch.\<close>

definition up_frame :: "bridge \<Rightarrow> bridge \<Rightarrow> bool" where
  "up_frame s t \<longleftrightarrow> local_issis t = local_issis s \<and> anchor_issis t = anchor_issis s \<and>
     ignored_uuids t = ignored_uuids s \<and> stop_set t = stop_set s \<and> uplink_queue t = uplink_queue s \<and>
     active_uplink t = active_uplink s \<and> last_p25_rx t = last_p25_rx s \<and> uplink_due t = uplink_due s \<and>
     downlink_calls t = downlink_calls s \<and> active_downlink t = active_downlink s \<and>
     rtp_sequence t = rtp_sequence s \<and> pending_sds t = pending_sds s \<and> recent_sds t = recent_sds s \<and>
     udp_fails t = udp_fails s \<and> outbox t = outbox s \<and> command_files t = command_files s \<and>
     result_files t = result_files s \<and> error_files t = error_files s"

lemma up_frame_refl [simp]: "up_frame s s"
  by (simp add: up_frame_def)

lemma up_frame_trans: "up_frame s t \<Longrightarrow> up_frame t u \<Longrightarrow> up_frame s u"
  by (simp add: up_frame_def)

lemma up_frame_upd [simp]:
  "up_frame s (t\<lparr>bio := i\<rparr>) = up_frame s t" "up_frame s (t\<lparr>brt := r\<rparr>) = up_frame s t"
  "up_frame s (t\<lparr>owned_uuids := w\<rparr>) = up_frame s t" "up_frame s (t\<lparr>retired := h\<rparr>) = up_frame s t"
  by (simp_all add: up_frame_def)

lemma up_frame_quiet: "quiet s t \<Longrightarrow> up_frame s t"
  by (auto simp: quiet_def up_frame_def)

section \<open>Voice\<close>

definition voice_message :: "bytes \<Rightarrow> bytes \<Rightarrow> bytes" where
  "voice_message uuid ste = [BREW_CLASS_FRAME, FRAME_TYPE_TRAFFIC_CHANNEL] @ uuid @ le_bytes 2 288 @ ste"

definition same_call :: "uplink_call \<Rightarrow> uplink_call \<Rightarrow> bool" where
  "same_call c c' \<longleftrightarrow> ul_source c' = ul_source c \<and> ul_p25_destination c' = ul_p25_destination c \<and>
     ul_brew_destination c' = ul_brew_destination c \<and> ul_uuid c' = ul_uuid c"

lemma same_call_trans: "same_call a b \<Longrightarrow> same_call b c \<Longrightarrow> same_call a c"
  by (simp add: same_call_def)

lemma length_uap_process [simp]: "length (fst (uap_process p u xs g l)) = length xs"
  by (simp add: uap_process_def case_prod_unfold Let_def)

section \<open>What is heard\<close>

text \<open>The voice block that 60 ms of a call become: the samples go through the filters of the call, then
  both halves through its encoder, and the two coded frames are joined. Filters and encoder are left as
  the block left them.\<close>

definition encode_block ::
  "codec_lib \<Rightarrow> audio_config \<Rightarrow> uap_cfg \<Rightarrow> int list \<Rightarrow> codec_handle \<times> uap \<Rightarrow>
   py_error + bytes \<times> codec_handle \<times> uap" where
  "encode_block lib cfg filters samples w =
     (let (shaped, p) = uap_process filters (snd w) samples (uplink_gain cfg) (uplink_peak_limit cfg) in
      bindE (handle_encode lib (fst w) (take TETRA_SAMPLES_30MS shaped)) (\<lambda>(coded_a, h).
      bindE (handle_encode lib h (drop TETRA_SAMPLES_30MS shaped)) (\<lambda>(coded_b, h').
      bindE (join_tmd_block coded_a coded_b) (\<lambda>ste. Inr (ste, h', p)))))"

fun encode_blocks ::
  "codec_lib \<Rightarrow> audio_config \<Rightarrow> uap_cfg \<Rightarrow> int list list \<Rightarrow> codec_handle \<times> uap \<Rightarrow>
   py_error + bytes list \<times> codec_handle \<times> uap" where
  "encode_blocks lib cfg filters [] w = Inr ([], w)"
| "encode_blocks lib cfg filters (b # bs) w =
     bindE (encode_block lib cfg filters b w) (\<lambda>(v, w').
     bindE (encode_blocks lib cfg filters bs w') (\<lambda>(vs, w''). Inr (v # vs, w'')))"

text \<open>The samples of a call in blocks of 480, the last one filled up with silence.\<close>

function call_blocks :: "int list \<Rightarrow> int list list" where
  "call_blocks xs = (if xs = [] then [] else
     take TETRA_SAMPLES_60MS (xs @ replicate (TETRA_SAMPLES_60MS - length xs) 0) #
       call_blocks (drop TETRA_SAMPLES_60MS xs))"
  by pat_completeness auto
termination by (relation "measure length") auto

declare call_blocks.simps [simp del]

lemma call_blocks_Nil [simp]: "call_blocks [] = []"
  by (simp add: call_blocks.simps)

lemma call_blocks_full:
  "list_all (\<lambda>b. length b = TETRA_SAMPLES_60MS) bs \<Longrightarrow> call_blocks (concat bs @ xs) = bs @ call_blocks xs"
proof (induction bs)
  case (Cons b bs)
  then have b: "length b = 480" "b \<noteq> []" by auto
  have "call_blocks (b @ concat bs @ xs) = b # call_blocks (concat bs @ xs)"
    using b by (subst call_blocks.simps) simp
  then show ?case using Cons by simp
qed simp

lemma call_blocks_rest:
  "xs \<noteq> [] \<Longrightarrow> length xs < TETRA_SAMPLES_60MS \<Longrightarrow>
   call_blocks xs = [take TETRA_SAMPLES_60MS (xs @ replicate (TETRA_SAMPLES_60MS - length xs) 0)]"
  by (subst call_blocks.simps) simp

lemma encode_blocks_append:
  "encode_blocks lib cfg f as w = Inr (vs, w') \<Longrightarrow> encode_blocks lib cfg f bs w' = Inr (ws, w'') \<Longrightarrow>
   encode_blocks lib cfg f (as @ bs) w = Inr (vs @ ws, w'')"
  by (induction as arbitrary: w vs) (auto simp: bindE_def split: sum.splits prod.splits)

text \<open>\<open>codes lib cfg c c' bs vs\<close>: between \<open>c\<close> and \<open>c'\<close> the call turned the blocks \<open>bs\<close> into \<open>vs\<close>.\<close>

definition codes ::
  "codec_lib \<Rightarrow> audio_config \<Rightarrow> uplink_call \<Rightarrow> uplink_call \<Rightarrow> int list list \<Rightarrow> bytes list \<Rightarrow> bool" where
  "codes lib cfg c c' bs vs \<longleftrightarrow> proc_cfg c' = proc_cfg c \<and>
     encode_blocks lib cfg (proc_cfg c) bs (encoder c, processor c) = Inr (vs, encoder c', processor c')"

lemma codes_trans: "codes lib cfg a b as vs \<Longrightarrow> codes lib cfg b c bs ws \<Longrightarrow> codes lib cfg a c (as @ bs) (vs @ ws)"
  by (auto simp: codes_def intro: encode_blocks_append)

lemma codes_Nil: "codes lib cfg c c [] []"
  by (simp add: codes_def)

lemma encode_blocks_length: "encode_blocks lib cfg f bs w = Inr (vs, w') \<Longrightarrow> length vs = length bs"
  by (induction bs arbitrary: w vs) (auto simp: bindE_def split: sum.splits prod.splits)

lemma call_blocks_length: "length (call_blocks xs) = (length xs + 479) div TETRA_SAMPLES_60MS"
proof (induction xs rule: call_blocks.induct)
  case (1 xs)
  show ?case
  proof (cases "xs = []")
    case False
    have "length (call_blocks xs) = Suc ((length xs - 480 + 479) div 480)"
      using 1 [OF False] False by (subst call_blocks.simps) simp
    also have "\<dots> = (length xs + 479) div 480"
      using False by (cases "480 \<le> length xs") (simp_all add: le_div_geq [of 480 "length xs + 479"] Suc_leI)
    finally show ?thesis .
  qed simp
qed

lemma send_uplink_voice_effect:
  assumes "uplink_call_ok c" "length samples = TETRA_SAMPLES_60MS"
  obtains c' ste i where "send_uplink_voice lib cfg c samples s = (Inr c', s\<lparr>bio := i\<rparr>)"
    "uplink_call_ok c'" "same_call c c'" "pcm_samples c' = pcm_samples c" "length ste = TETRA_STE_BYTES"
    "codes lib cfg c c' [samples] [ste]" "says [voice_message (ul_uuid c) ste] (bio s) i"
proof -
  obtain xs p where xs: "uap_process (proc_cfg c) (processor c) samples (uplink_gain cfg) (uplink_peak_limit cfg) = (xs, p)"
    by (rule prod.exhaust)
  have len: "length xs = 480" using length_uap_process [of "proc_cfg c" "processor c" samples
      "uplink_gain cfg" "uplink_peak_limit cfg"] assms(2) by (simp add: xs)
  have enc: "h_is_encoder (encoder c)" using assms(1) by (simp add: uplink_call_ok_def)
  have len2: "length (take 240 xs) = 240" "length (drop 240 xs) = 240" using len by simp_all
  obtain a h1 where a: "handle_encode lib (encoder c) (take 240 xs) = Inr (a, h1)" "length a = 18"
    "h_is_encoder h1" "h_closed h1 = h_closed (encoder c)" "h_destroyed h1 = h_destroyed (encoder c)"
    using handle_encode_ok [OF enc len2(1)] by blast
  obtain b h2 where b: "handle_encode lib h1 (drop 240 xs) = Inr (b, h2)" "length b = 18"
    "h_is_encoder h2" "h_closed h2 = h_closed h1" "h_destroyed h2 = h_destroyed h1"
    using handle_encode_ok [OF a(3) len2(2)] by blast
  obtain q where q: "join_tmd_block a b = Inr (0 # q)" "length q = 35"
    by (rule join_tmd_block_spec [OF a(2) b(2)])
  let ?m = "voice_message (ul_uuid c) (0 # q)"
  have v: "build_voice_frame (ul_uuid c) (0 # q) = Inr ?m"
    using q(2) by (simp add: build_voice_frame_def voice_message_def pack_le_def)
  have blk: "encode_block lib cfg (proc_cfg c) samples (encoder c, processor c) = Inr (0 # q, h2, p)"
    by (simp add: encode_block_def xs a(1) b(1) q(1))
  obtain ok j where s: "send ?m (bio s) = (ok, j)" by (rule prod.exhaust)
  have j: "says [?m] (bio s) j" using says_send [of ?m "bio s"] s by simp
  let ?c = "c\<lparr>processor := p, encoder := h2\<rparr>"
  have okc: "uplink_call_ok ?c" "uplink_call_ok (?c\<lparr>voice_frames := n\<rparr>)" for n
    using assms(1) a b by (simp_all add: uplink_call_ok_def handle_ok_def)
  have run: "send_uplink_voice lib cfg c samples s =
      (if ok then (Inr (?c\<lparr>voice_frames := voice_frames c + 1\<rparr>), s\<lparr>bio := status_increment ''brewVoiceFramesSent'' j\<rparr>)
       else (Inr ?c, s\<lparr>bio := status_increment ''brewVoiceFramesSendFailed'' j\<rparr>))"
    by (simp add: send_uplink_voice_def xs a(1) b(1) q(1) v on_io_def send_built_def s)
  show thesis
  proof (cases ok)
    case True
    show thesis
      by (rule that [of "?c\<lparr>voice_frames := voice_frames c + 1\<rparr>" "status_increment ''brewVoiceFramesSent'' j" "0 # q"])
        (use True run okc j q(2) blk in \<open>simp_all add: same_call_def codes_def\<close>)
  next
    case False
    show thesis
      by (rule that [of ?c "status_increment ''brewVoiceFramesSendFailed'' j" "0 # q"])
        (use False run okc j q(2) blk in \<open>simp_all add: same_call_def codes_def\<close>)
  qed
qed

lemma finish_uplink_effect:
  assumes "uplink_call_ok c"
  obtains h i vs c' where "finish_uplink lib cfg ck c s = (Inr (), s\<lparr>bio := i,
      owned_uuids := AList.update (ul_uuid c) (mono ck + 10) (owned_uuids s), retired := retired s @ [h]\<rparr>)"
    "h_closed h" "h_destroyed h = 1" "list_all (\<lambda>v. length v = TETRA_STE_BYTES) vs"
    "codes lib cfg c c' (call_blocks (pcm_samples c)) vs"
    "says (map (voice_message (ul_uuid c)) vs @ [build_group_idle (ul_uuid c) 0]) (bio s) i"
proof -
  define flush where "flush = (if pcm_samples c = [] then ret c
      else bindA (send_uplink_voice lib cfg c (take TETRA_SAMPLES_60MS
             (pcm_samples c @ replicate (TETRA_SAMPLES_60MS - length (pcm_samples c)) 0)))
           (\<lambda>c'. ret (c'\<lparr>pcm_samples := []\<rparr>)))"
  have "\<exists>c' i vs. flush s = (Inr c', s\<lparr>bio := i\<rparr>) \<and> uplink_call_ok c' \<and> same_call c c' \<and>
      list_all (\<lambda>v. length v = TETRA_STE_BYTES) vs \<and> codes lib cfg c c' (call_blocks (pcm_samples c)) vs \<and>
      says (map (voice_message (ul_uuid c)) vs) (bio s) i"
  proof (cases "pcm_samples c = []")
    case True
    then show ?thesis using assms
      by (intro exI [of _ c] exI [of _ "bio s"] exI [of _ "[]"]) (simp add: flush_def same_call_def codes_Nil)
  next
    case False
    let ?b = "take TETRA_SAMPLES_60MS (pcm_samples c @ replicate (TETRA_SAMPLES_60MS - length (pcm_samples c)) 0)"
    have l: "length ?b = TETRA_SAMPLES_60MS" using assms by (simp add: uplink_call_ok_def)
    obtain c' ste i where v: "send_uplink_voice lib cfg c ?b s = (Inr c', s\<lparr>bio := i\<rparr>)"
      "uplink_call_ok c'" "same_call c c'" "length ste = TETRA_STE_BYTES" "codes lib cfg c c' [?b] [ste]"
      "says [voice_message (ul_uuid c) ste] (bio s) i"
      by (rule send_uplink_voice_effect [OF assms l])
    have "flush s = (Inr (c'\<lparr>pcm_samples := []\<rparr>), s\<lparr>bio := i\<rparr>)"
      using False v(1) by (simp add: flush_def)
    moreover have "call_blocks (pcm_samples c) = [?b]"
      using False assms by (intro call_blocks_rest) (simp_all add: uplink_call_ok_def)
    ultimately show ?thesis using v(2-6) False
      by (intro exI [of _ "c'\<lparr>pcm_samples := []\<rparr>"] exI [of _ i] exI [of _ "[ste]"])
        (simp add: uplink_call_ok_def same_call_def codes_def)
  qed
  then obtain c' i vs where f: "flush s = (Inr c', s\<lparr>bio := i\<rparr>)" "uplink_call_ok c'" "same_call c c'"
    "list_all (\<lambda>v. length v = TETRA_STE_BYTES) vs" "codes lib cfg c c' (call_blocks (pcm_samples c)) vs"
    "says (map (voice_message (ul_uuid c)) vs) (bio s) i" by blast
  let ?idle = "build_group_idle (ul_uuid c) 0"
  have u: "ul_uuid c' = ul_uuid c" using f(3) by (simp add: same_call_def)
  let ?i = "status_set (last_uplink_audio ck c') (snd (send ?idle i))"
  have run: "finish_uplink lib cfg ck c s = (Inr (), s\<lparr>bio := ?i,
      owned_uuids := AList.update (ul_uuid c) (mono ck + 10) (owned_uuids s),
      retired := retired s @ [handle_close (encoder c')]\<rparr>)"
    unfolding finish_uplink_def flush_def [symmetric]
    by (simp add: f(1) u on_io_def own_uuid_def retire_def case_prod_unfold)
  have once: "h_closed (handle_close (encoder c'))" "h_destroyed (handle_close (encoder c')) = 1"
    using f(2) by (simp_all add: closed_once uplink_call_ok_def)
  have "says (map (voice_message (ul_uuid c)) vs @ [?idle]) (bio s) ?i"
    using says_trans [OF f(6) says_send] by simp
  from that [OF run once f(4,5) this] show thesis .
qed

section \<open>Starting a call\<close>

definition group_tx_message :: "bytes \<Rightarrow> int \<Rightarrow> int \<Rightarrow> bytes" where
  "group_tx_message uuid source destination =
     [BREW_CLASS_CALL_CONTROL, CALL_STATE_GROUP_TX] @ uuid @ le_bytes 4 source @ le_bytes 4 destination @ [0, 0, 0, 0]"

lemma build_group_tx_total:
  "u32 source \<Longrightarrow> u32 destination \<Longrightarrow> build_group_tx uuid source destination = Inr (group_tx_message uuid source destination)"
  by (simp add: build_group_tx_def group_tx_message_def pack_le_def u32_def)

lemma brew_for_p25_u32:
  assumes "routing_ok (rt_config r)" "u32 p" "brew_for_p25 r p = Some b"
  shows "u32 b"
proof (cases "map_of (p25_to_brew (rt_config r)) p")
  case None
  then show ?thesis using assms by (auto simp: brew_for_p25_def split: if_splits)
next
  case (Some x)
  have "x = b" using assms(3) Some by (simp add: brew_for_p25_def split: if_splits)
  moreover have "in_24bit x" using assms(1) Some by (simp add: routing_ok_def tables_ok_def)
  ultimately show ?thesis by (simp add: u32_def in_24bit_def)
qed

lemma activate_core_ok:
  assumes "core_ok s" "u32 b"
  shows "core_ok (s\<lparr>brt := snd (activate b m e (brt s))\<rparr>)"
proof -
  let ?r = "snd (activate b m e (brt s))"
  note ok = core_okD [OF assms(1)]
  have r: "router_ok ?r" by (rule router_ok_activate [OF ok(1)])
  have c: "rt_config ?r = rt_config (brt s)" by (simp add: activate_def)
  have "set (groups ?r) \<subseteq> insert b (set (groups (brt s)))"
    unfolding groups_set [OF r] groups_set [OF ok(1)] c
    by (auto simp: activate_def dest!: in_set_updateD)
  then have "packable (groups ?r)"
    using ok(2) assms(2) unfolding packable_def u32_def by force
  then show ?thesis using assms(1) r c by (simp add: core_ok_def)
qed

definition new_route_frames :: "clock \<Rightarrow> int \<Rightarrow> bridge \<Rightarrow> bytes list" where
  "new_route_frames ck b s =
     (if is_active (brt s) b then [] else affiliation_frames ck SUBSCRIBER_AFFILIATE [b] (local_issis s))"

lemma new_route_frames_queue [simp]: "new_route_frames ck b (s\<lparr>uplink_queue := q\<rparr>) = new_route_frames ck b s"
  by (cases "is_active (brt s) b") (simp_all add: new_route_frames_def)

text \<open>The part before the connection is checked.\<close>

definition open_route :: "clock \<Rightarrow> string \<Rightarrow> int \<Rightarrow> unit handler" where
  "open_route ck boot brew_destination =
     bindA (call (\<lambda>s. let (created, r) = activate brew_destination (mono ck) (epoch ck) (brt s)
                      in (created, s\<lparr>brt := r\<rparr>))) (\<lambda>created.
     thenA (save_routes boot)
       (readA (\<lambda>s.
          if in_dynamic (brt s) brew_destination
          then thenA (set_status [(''dynamicTalkgroups'', snapshot_value (brt s))])
              (if created then send_affiliation ck SUBSCRIBER_AFFILIATE [brew_destination] else ret ())
          else ret ())))"

lemma thenA_assoc: "thenA (thenA m n) k = thenA m (thenA n k)"
  "thenA (bindA m f) k = bindA m (\<lambda>x. thenA (f x) k)"
  by (auto simp: thenA_def bindA_def fun_eq_iff split: prod.splits sum.splits)

lemma begin_uplink_open:
  "begin_uplink lib cfg ck boot uuid source p25_destination = readA (\<lambda>s.
     case brew_for_p25 (brt s) p25_destination of
       None \<Rightarrow> ret None
     | Some brew_destination \<Rightarrow> thenA (open_route ck boot brew_destination) (readA (\<lambda>s.
            if \<not> is_connected s then thenA (count ''uplinkCallsDroppedDisconnected'') (ret None)
            else bindA (liftE (open_handle lib True)) (\<lambda>enc.
                 thenA (upd (own_uuid uuid (mono ck + 30)))
                 (bindA (on_io (send_built (build_group_tx uuid source brew_destination))) (\<lambda>ok.
                    if \<not> ok then thenA (upd (retire enc)) (ret None)
                    else thenA (count ''uplinkCalls'')
                        (thenA (set_status [(''activeUplink'', PDict [(''uuid'', PStr (uuid_text uuid)),
                            (''source'', PInt source), (''p25Talkgroup'', PInt p25_destination),
                            (''brewTalkgroup'', PInt brew_destination), (''startedAtEpoch'', PFloat (epoch ck))])])
                        (ret (Some (new_uplink_call cfg uuid source p25_destination brew_destination enc))))))))))"
  unfolding begin_uplink_def open_route_def thenA_assoc ..

lemma open_route_effect:
  assumes "core_ok s" "clock_ok ck" "u32 b"
  obtains t where "open_route ck boot b s = (Inr (), t)" "up_frame s t" "core_ok t"
    "brt t = snd (activate b (mono ck) (epoch ck) (brt s))" "owned_uuids t = owned_uuids s"
    "retired t = retired s" "says (new_route_frames ck b s) (bio s) (bio t)"
    "dynamic_file (bio t) = Some (save_dynamic_routes boot (brt t))"
proof -
  let ?r = "snd (activate b (mono ck) (epoch ck) (brt s))"
  let ?c = "fst (activate b (mono ck) (epoch ck) (brt s))"
  let ?s1 = "s\<lparr>brt := ?r, bio := (bio s)\<lparr>dynamic_file := Some (save_dynamic_routes boot ?r)\<rparr>\<rparr>"
  let ?s2 = "?s1\<lparr>bio := status_set [(''dynamicTalkgroups'', snapshot_value ?r)] (bio ?s1)\<rparr>"
  have ok2: "core_ok ?s2" using activate_core_ok [OF assms(1,3)] by (simp add: core_ok_def)
  have pk: "packable [b]" using assms(3) by (simp add: packable_def u32_def)
  have run: "open_route ck boot b s = (if in_dynamic ?r b
      then (if ?c then send_affiliation ck SUBSCRIBER_AFFILIATE [b] ?s2 else (Inr (), ?s2)) else (Inr (), ?s1))"
    using core_okD(8) [OF assms(1)] by (simp add: open_route_def case_prod_unfold Let_def)
  have act: "in_dynamic ?r b = (\<not> is_static (brt s) b \<or> in_dynamic (brt s) b)"
    "?c = (\<not> is_static (brt s) b \<and> \<not> in_dynamic (brt s) b)"
    by (auto simp: activate_def in_dynamic_def)
  show thesis
  proof (cases "is_active (brt s) b")
    case True
    then have nr: "new_route_frames ck b s = []" "\<not> ?c" using act(2)
      by (auto simp: new_route_frames_def is_active_def)
    have says1: "says [] (bio s) (bio ?s1)" by (simp add: says_def)
    show thesis
    proof (cases "in_dynamic ?r b")
      case True
      then have run2: "open_route ck boot b s = (Inr (), ?s2)" using run nr(2) by simp
      show thesis by (rule that [OF run2 _ ok2]) (use nr(1) says1 in simp_all)
    next
      case False
      then have run1: "open_route ck boot b s = (Inr (), ?s1)" using run by simp
      have ok1: "core_ok ?s1" using ok2 by (simp add: core_ok_def)
      show thesis by (rule that [OF run1 _ ok1]) (use nr(1) says1 in simp_all)
    qed
  next
    case False
    then have d: "in_dynamic ?r b" "?c" using act by (auto simp: is_active_def)
    obtain x t where t: "send_affiliation ck SUBSCRIBER_AFFILIATE [b] ?s2 = (Inr x, t)" "core_ok t" "quiet ?s2 t"
      using ok2 by (rule doesE [OF send_affiliation_does [OF assms(2) pk]])
    have "says (new_route_frames ck b s) (bio s) (bio t)"
    proof (cases "online (bio s)")
      case True
      then have on: "online (bio ?s2)" by simp
      from send_affiliation_online [OF assms(2) pk ok2 on] obtain n where
        "send_affiliation ck SUBSCRIBER_AFFILIATE [b] ?s2 = (Inr (), ?s2\<lparr>bio := (bio ?s2)\<lparr>attempts := n,
          sent := sent (bio ?s2) @ affiliation_frames ck SUBSCRIBER_AFFILIATE [b] (local_issis ?s2)\<rparr>\<rparr>)" by blast
      then show ?thesis using t(1) False on by (auto simp: says_def new_route_frames_def online_def)
    next
      case False
      then show ?thesis using quietD(6) [OF t(3)] by (simp add: says_def)
    qed
    moreover have "up_frame s t" using up_frame_quiet [OF t(3)] by (simp add: up_frame_def)
    moreover have "retired t = retired s" using t(3) by (auto simp: quiet_def)
    ultimately show thesis using that [of t] run d t quietD [OF t(3)] by simp
  qed
qed

definition new_encoder :: codec_handle where
  "new_encoder = \<lparr>h_is_encoder = True, h_closed = False, h_destroyed = 0, h_pcm = [], h_coded = []\<rparr>"

definition uplink_filters :: "audio_config \<Rightarrow> uap_cfg" where
  "uplink_filters cfg = uap_init_cfg (uplink_high_pass_hz cfg) (uplink_presence_gain cfg) (uplink_high_cut_hz cfg)
     (uplink_de_esser_crossover_hz cfg) (uplink_de_esser_threshold cfg) (uplink_de_esser_strength cfg)"

definition fresh_call :: "audio_config \<Rightarrow> bytes \<Rightarrow> int \<Rightarrow> int \<Rightarrow> uplink_call \<Rightarrow> bool" where
  "fresh_call cfg uuid source p25_destination c \<longleftrightarrow> uplink_call_ok c \<and> pcm_samples c = [] \<and>
     ul_uuid c = uuid \<and> ul_source c = source \<and> ul_p25_destination c = p25_destination \<and>
     encoder c = new_encoder \<and> processor c = uap_init \<and> proc_cfg c = uplink_filters cfg"

abbreviation all_closed :: "codec_handle list \<Rightarrow> bool" where
  "all_closed hs \<equiv> list_all (\<lambda>h. h_closed h \<and> h_destroyed h = 1) hs"

lemma begin_uplink_effect:
  assumes "core_ok s" "clock_ok ck" "lib_alloc lib" "length uuid = 16" "u32 source" "u32 p25"
  obtains oc t hs where "begin_uplink lib cfg ck boot uuid source p25 s = (Inr oc, t)" "up_frame s t"
    "core_ok t" "retired t = retired s @ hs" "all_closed hs"
    "case oc of None \<Rightarrow> True | Some c \<Rightarrow> fresh_call cfg uuid source p25 c"
    "\<And>b. online (bio s) \<Longrightarrow> brew_for_p25 (brt s) p25 = Some b \<Longrightarrow> oc \<noteq> None \<and> hs = [] \<and>
       says (new_route_frames ck b s @ [group_tx_message uuid source b]) (bio s) (bio t)"
proof (cases "brew_for_p25 (brt s) p25")
  case None
  then show thesis using that [of None s "[]"] assms(1) by (simp add: begin_uplink_open)
next
  case (Some b)
  have b: "u32 b" by (rule brew_for_p25_u32 [OF core_okD(7) [OF assms(1)] assms(6) Some])
  obtain t where t: "open_route ck boot b s = (Inr (), t)" "up_frame s t" "core_ok t"
    "brt t = snd (activate b (mono ck) (epoch ck) (brt s))" "owned_uuids t = owned_uuids s"
    "retired t = retired s" "says (new_route_frames ck b s) (bio s) (bio t)"
    by (rule open_route_effect [OF assms(1,2) b])
  show thesis
  proof (cases "is_connected t")
    case False
    let ?t = "t\<lparr>bio := status_increment ''uplinkCallsDroppedDisconnected'' (bio t)\<rparr>"
    have "\<not> online (bio s)" using False t(7) by (auto simp: says_def online_def)
    then show thesis
      using that [of None ?t "[]"] Some t(1-3,6) False by (simp add: begin_uplink_open)
  next
    case True
    let ?h = "\<lparr>h_is_encoder = True, h_closed = False, h_destroyed = 0, h_pcm = [], h_coded = []\<rparr>"
    let ?m = "group_tx_message uuid source b"
    let ?c = "new_uplink_call cfg uuid source p25 b ?h"
    have h: "open_handle lib True = Inr ?h" using assms(3) by (simp add: open_handle_def)
    have fresh: "fresh_call cfg uuid source p25 ?c"
      using assms(4) by (simp add: fresh_call_def uplink_call_ok_def new_uplink_call_def handle_ok_def new_encoder_def uplink_filters_def)
    obtain ok j where sd: "send ?m (bio t) = (ok, j)" by (rule prod.exhaust)
    have j: "says [?m] (bio t) j" using says_send [of ?m "bio t"] sd by simp
    let ?o = "own_uuid uuid (mono ck + 30) t"
    have okt: "core_ok (?o\<lparr>bio := i\<rparr>)" "core_ok (?o\<lparr>bio := i, retired := r\<rparr>)" for i r
      using t(3) by (simp_all add: core_ok_def own_uuid_def)
    have upf: "up_frame s ?o" "retired ?o = retired s" using t(2,6) by (simp_all add: own_uuid_def)
    show thesis
    proof (cases ok)
      case False
      have "\<not> online (bio s)" using False t(7) sd by (auto simp: says_def online_send)
      moreover have "begin_uplink lib cfg ck boot uuid source p25 s =
          (Inr None, retire ?h (?o\<lparr>bio := j\<rparr>))"
        using Some t(1) True h assms(5) b False sd
        by (simp add: begin_uplink_open on_io_def send_built_def build_group_tx_total own_uuid_def)
      ultimately show thesis
        using that [of None "retire ?h (?o\<lparr>bio := j\<rparr>)" "[handle_close ?h]"] okt upf
        by (simp add: retire_def handle_close_def)
    next
      case ok: True
      let ?v = "[(''activeUplink'', PDict [(''uuid'', PStr (uuid_text uuid)),
          (''source'', PInt source), (''p25Talkgroup'', PInt p25),
          (''brewTalkgroup'', PInt b), (''startedAtEpoch'', PFloat (epoch ck))])]"
      let ?t = "?o\<lparr>bio := status_set ?v (status_increment ''uplinkCalls'' j)\<rparr>"
      have run: "begin_uplink lib cfg ck boot uuid source p25 s = (Inr (Some ?c), ?t)"
        using Some t(1) True h assms(5) b ok sd
        by (simp add: begin_uplink_open on_io_def send_built_def build_group_tx_total own_uuid_def)
      have "says (new_route_frames ck b s @ [?m]) (bio s) (bio ?t)"
        using says_trans [OF t(7) j] by simp
      then show thesis
        using Some okt(1) upf by (intro that [of "Some ?c" ?t "[]"]) (simp_all add: run fresh)
    qed
  qed
qed

section \<open>Feeding frames\<close>

text \<open>A frame adds 160 samples; a voice message goes out when 480 have come together. The blocks sent
  and the samples held back are, in order, the samples that came.\<close>

definition feeds ::
  "codec_lib \<Rightarrow> audio_config \<Rightarrow> uplink_call \<Rightarrow> uplink_call \<Rightarrow> bytes list \<Rightarrow> int list \<Rightarrow> bool" where
  "feeds lib cfg c c' vs samples \<longleftrightarrow>
     uplink_call_ok c' \<and> same_call c c' \<and> list_all (\<lambda>v. length v = TETRA_STE_BYTES) vs \<and>
     (\<exists>bs. list_all (\<lambda>b. length b = TETRA_SAMPLES_60MS) bs \<and> codes lib cfg c c' bs vs \<and>
        concat bs @ pcm_samples c' = pcm_samples c @ samples)"

lemma feeds_trans:
  assumes "feeds lib cfg a b vs xs" "feeds lib cfg b c ws ys"
  shows "feeds lib cfg a c (vs @ ws) (xs @ ys)"
proof -
  obtain as where as: "list_all (\<lambda>b. length b = TETRA_SAMPLES_60MS) as" "codes lib cfg a b as vs"
    "concat as @ pcm_samples b = pcm_samples a @ xs" using assms(1) by (auto simp: feeds_def)
  obtain bs where bs: "list_all (\<lambda>b. length b = TETRA_SAMPLES_60MS) bs" "codes lib cfg b c bs ws"
    "concat bs @ pcm_samples c = pcm_samples b @ ys" using assms(2) by (auto simp: feeds_def)
  have "concat (as @ bs) @ pcm_samples c = pcm_samples a @ xs @ ys"
    using as(3) bs(3) by (metis append.assoc concat_append)
  then show ?thesis
    using assms as(1) bs(1) codes_trans [OF as(2) bs(2)]
    unfolding feeds_def by (auto intro: same_call_trans intro!: exI [of _ "as @ bs"])
qed

text \<open>A call fed with \<open>xs\<close> from its start and then ended was coded in the blocks of \<open>xs\<close>.\<close>

lemma codes_call:
  assumes "feeds lib cfg c c' vs xs" "pcm_samples c = []" "codes lib cfg c' c'' (call_blocks (pcm_samples c')) ws"
  shows "codes lib cfg c c'' (call_blocks xs) (vs @ ws)"
proof -
  obtain bs where bs: "list_all (\<lambda>b. length b = TETRA_SAMPLES_60MS) bs" "codes lib cfg c c' bs vs"
    "concat bs @ pcm_samples c' = xs" using assms(1,2) by (auto simp: feeds_def)
  have "call_blocks xs = bs @ call_blocks (pcm_samples c')"
    using call_blocks_full [OF bs(1)] bs(3) by metis
  then show ?thesis using codes_trans [OF bs(2) assms(3)] by simp
qed

lemma feed_frame_effect:
  assumes "uplink_call_ok c" "pcm_frame_ok f"
  obtains c' i d vs where "feed_frame lib cfg due_ck f c s =
      (Inr (), s\<lparr>bio := i, uplink_due := d, active_uplink := Some c'\<rparr>)"
    "feeds lib cfg c c' vs (unpack_samples (pf_pcm f))" "says (map (voice_message (ul_uuid c)) vs) (bio s) i"
proof -
  define samples where "samples = unpack_samples (pf_pcm f)"
  have sm: "unpack_pcm (pf_pcm f) = Inr samples" "length samples = 160"
    using assms(2) by (simp_all add: samples_def pcm_frame_ok_def unpack_pcm_def length_unpack_samples)
  let ?c = "add_samples samples c"
  define d where "d = (if uplink_due s > 0 \<and> mono due_ck - uplink_due s > 12 / 100
      then mono due_ck else uplink_due s) + 2 / 100"
  let ?s = "s\<lparr>uplink_due := d\<rparr>"
  have run: "feed_frame lib cfg due_ck f c s = bindA (send_block lib cfg ?c) (\<lambda>c'.
      upd (\<lambda>s. s\<lparr>active_uplink := Some c'\<rparr>)) ?s"
    by (simp add: feed_frame_def sm(1) d_def Let_def)
  have kept: "pcm_samples ?c = pcm_samples c @ samples" "same_call c ?c" "proc_cfg ?c = proc_cfg c"
    "encoder ?c = encoder c" "processor ?c = processor c" "ul_uuid ?c = ul_uuid c"
    by (simp_all add: add_samples_def same_call_def)
  show thesis
  proof (cases "480 \<le> length (pcm_samples ?c)")
    case True
    let ?k = "?c\<lparr>pcm_samples := drop 480 (pcm_samples ?c)\<rparr>" and ?b = "take 480 (pcm_samples ?c)"
    have ok: "uplink_call_ok ?k" and len: "length ?b = TETRA_SAMPLES_60MS"
      using assms(1) sm(2) True by (auto simp: uplink_call_ok_def add_samples_def)
    obtain c' ste i where v: "send_uplink_voice lib cfg ?k ?b ?s = (Inr c', ?s\<lparr>bio := i\<rparr>)"
      "uplink_call_ok c'" "same_call ?k c'" "pcm_samples c' = pcm_samples ?k" "length ste = TETRA_STE_BYTES"
      "codes lib cfg ?k c' [?b] [ste]" "says [voice_message (ul_uuid ?k) ste] (bio ?s) i"
      by (rule send_uplink_voice_effect [OF ok len])
    have "feed_frame lib cfg due_ck f c s = (Inr (), s\<lparr>bio := i, uplink_due := d, active_uplink := Some c'\<rparr>)"
      unfolding run using True v(1) by (simp add: send_block_def)
    moreover have "codes lib cfg c c' [?b] [ste]" using v(6) kept by (simp add: codes_def)
    moreover have "same_call c c'" using v(3) kept(2) by (simp add: same_call_def)
    moreover have "concat [?b] @ pcm_samples c' = pcm_samples c @ samples"
    proof -
      have "pcm_samples c' = drop 480 (pcm_samples ?c)" using v(4) by simp
      then show ?thesis unfolding concat.simps append_Nil2 kept(1) [symmetric] by (simp only: append_take_drop_id)
    qed
    ultimately show thesis
      using v(2,5,7) len kept(6) unfolding samples_def [symmetric]
      by (intro that [of c' d i "[ste]"]) (auto simp: feeds_def samples_def intro!: exI [of _ "[?b]"])
  next
    case False
    have "feed_frame lib cfg due_ck f c s = (Inr (), s\<lparr>bio := bio s, uplink_due := d, active_uplink := Some ?c\<rparr>)"
      unfolding run using False by (simp add: send_block_def)
    moreover have "uplink_call_ok ?c" using False assms(1) by (simp add: uplink_call_ok_def add_samples_def)
    moreover have "codes lib cfg c ?c [] []" using kept by (simp add: codes_def)
    ultimately show thesis
      using kept by (intro that [of ?c d "bio s" "[]"]) (auto simp: feeds_def samples_def intro!: exI [of _ "[]"])
  qed
qed

lemma uplink_tick_same_talker:
  assumes "uplink_call_ok c" "active_uplink s = Some c" "uplink_queue s = f # fs" "pcm_frame_ok f"
    "\<not> stop_set s" "same_talker f (Some c)"
  obtains c' i d vs where "uplink_tick lib cfg ck due_ck boot uuid s =
      (Inr (), s\<lparr>bio := i, uplink_queue := fs, uplink_due := d, active_uplink := Some c'\<rparr>)"
    "feeds lib cfg c c' vs (unpack_samples (pf_pcm f))" "says (map (voice_message (ul_uuid c)) vs) (bio s) i"
proof -
  let ?s = "s\<lparr>uplink_queue := fs\<rparr>"
  obtain c' i d vs where f: "feed_frame lib cfg due_ck f c ?s =
      (Inr (), ?s\<lparr>bio := i, uplink_due := d, active_uplink := Some c'\<rparr>)"
    "feeds lib cfg c c' vs (unpack_samples (pf_pcm f))" "says (map (voice_message (ul_uuid c)) vs) (bio ?s) i"
    by (rule feed_frame_effect [OF assms(1,4)])
  have "uplink_tick lib cfg ck due_ck boot uuid s = feed_frame lib cfg due_ck f c ?s"
    using assms by (simp add: uplink_tick_def take_frame_def send_frame_def)
  then show thesis using f by (intro that [of c' d i vs]) simp_all
qed

lemma same_talker_call: "same_call c c' \<Longrightarrow> same_talker f (Some c') = same_talker f (Some c)"
  by (simp add: same_call_def same_talker_def)

lemma uplink_ticks_same_talker:
  assumes "uplink_call_ok c" "active_uplink s = Some c" "uplink_queue s = fs"
    "list_all (\<lambda>f. pcm_frame_ok f \<and> same_talker f (Some c)) fs" "\<not> stop_set s" "length cks = length fs"
  shows "\<exists>c' i d vs. forA cks (\<lambda>(ck, due_ck) _. uplink_tick lib cfg ck due_ck boot uuid) () s =
      (Inr (), s\<lparr>bio := i, uplink_queue := [], uplink_due := d, active_uplink := Some c'\<rparr>) \<and>
    feeds lib cfg c c' vs (concat (map (\<lambda>f. unpack_samples (pf_pcm f)) fs)) \<and> says (map (voice_message (ul_uuid c)) vs) (bio s) i"
  using assms
proof (induction fs arbitrary: s c cks)
  case Nil
  have "s = s\<lparr>bio := bio s, uplink_queue := [], uplink_due := uplink_due s, active_uplink := Some c\<rparr>"
    using Nil.prems(2,3) by simp
  moreover have "feeds lib cfg c c [] []" using Nil.prems(1)
    by (auto simp: feeds_def same_call_def codes_Nil intro!: exI [of _ "[]"])
  ultimately show ?case using Nil.prems(6)
    by (intro exI [of _ c] exI [of _ "bio s"] exI [of _ "uplink_due s"] exI [of _ "[]"]) simp
next
  case (Cons f fs)
  obtain k ks where cks: "cks = k # ks" "length ks = length fs" using Cons.prems(6) by (cases cks) auto
  obtain ck due_ck where k: "k = (ck, due_ck)" by (rule prod.exhaust)
  have fok: "pcm_frame_ok f" "same_talker f (Some c)" using Cons.prems(4) by simp_all
  obtain c1 i d vs where one: "uplink_tick lib cfg ck due_ck boot uuid s =
      (Inr (), s\<lparr>bio := i, uplink_queue := fs, uplink_due := d, active_uplink := Some c1\<rparr>)"
    "feeds lib cfg c c1 vs (unpack_samples (pf_pcm f))" "says (map (voice_message (ul_uuid c)) vs) (bio s) i"
    by (rule uplink_tick_same_talker [OF Cons.prems(1-3) fok(1) Cons.prems(5) fok(2)])
  let ?s = "s\<lparr>bio := i, uplink_queue := fs, uplink_due := d, active_uplink := Some c1\<rparr>"
  have c1: "uplink_call_ok c1" "same_call c c1" using one(2) by (simp_all add: feeds_def)
  have rest: "list_all (\<lambda>f. pcm_frame_ok f \<and> same_talker f (Some c1)) fs"
    using Cons.prems(4) by (simp add: same_talker_call [OF c1(2)])
  obtain c' j e ws where more: "forA ks (\<lambda>(ck, due_ck) _. uplink_tick lib cfg ck due_ck boot uuid) () ?s =
      (Inr (), ?s\<lparr>bio := j, uplink_queue := [], uplink_due := e, active_uplink := Some c'\<rparr>)"
    "feeds lib cfg c1 c' ws (concat (map (\<lambda>f. unpack_samples (pf_pcm f)) fs))" "says (map (voice_message (ul_uuid c1)) ws) (bio ?s) j"
    using Cons.IH [OF c1(1) _ _ rest _ cks(2), of ?s] Cons.prems(5) by auto
  have "says (map (voice_message (ul_uuid c)) (vs @ ws)) (bio s) j"
    using says_trans [OF one(3)] more(3) c1(2) by (simp add: same_call_def)
  moreover have "feeds lib cfg c c' (vs @ ws) (concat (map (\<lambda>f. unpack_samples (pf_pcm f)) (f # fs)))"
    using feeds_trans [OF one(2) more(2)] by simp
  ultimately show ?case
    by (intro exI [of _ c'] exI [of _ j] exI [of _ e] exI [of _ "vs @ ws"]) (simp add: cks(1) k one(1) more(1))
qed

section \<open>A whole call\<close>

lemma uplink_tick_first:
  assumes "core_ok s" "online (bio s)" "clock_ok ck" "lib_alloc lib" "length uuid = 16" "\<not> stop_set s"
    "active_uplink s = None" "uplink_queue s = f # fs" "uplink_initial_frames cfg \<le> int (length (f # fs))"
    "pcm_frame_ok f" "brew_for_p25 (brt s) (pf_destination f) = Some b"
  obtains t c0 c vs where "uplink_tick lib cfg ck due_ck boot uuid s = (Inr (), t)" "active_uplink t = Some c"
    "fresh_call cfg uuid (pf_source f) (pf_destination f) c0" "same_talker f (Some c)" "uplink_queue t = fs" "\<not> stop_set t"
    "last_p25_rx t = last_p25_rx s" "retired t = retired s"
    "feeds lib cfg c0 c vs (unpack_samples (pf_pcm f))"
    "says (new_route_frames ck b s @ [group_tx_message uuid (pf_source f) b] @ map (voice_message uuid) vs)
       (bio s) (bio t)"
proof -
  let ?s = "s\<lparr>uplink_queue := fs\<rparr>"
  have ok: "core_ok ?s" using assms(1) by (simp add: core_ok_def)
  have on: "online (bio ?s)" and bf: "brew_for_p25 (brt ?s) (pf_destination f) = Some b"
    using assms(2,11) by simp_all
  have ids: "u32 (pf_source f)" "u32 (pf_destination f)" using assms(10) by (simp_all add: pcm_frame_ok_def)
  obtain oc t hs where b: "begin_uplink lib cfg ck boot uuid (pf_source f) (pf_destination f) ?s = (Inr oc, t)"
    "up_frame ?s t" "core_ok t" "retired t = retired ?s @ hs" "all_closed hs"
    "case oc of None \<Rightarrow> True | Some c \<Rightarrow> fresh_call cfg uuid (pf_source f) (pf_destination f) c"
    "\<And>b. online (bio ?s) \<Longrightarrow> brew_for_p25 (brt ?s) (pf_destination f) = Some b \<Longrightarrow> oc \<noteq> None \<and> hs = [] \<and>
       says (new_route_frames ck b ?s @ [group_tx_message uuid (pf_source f) b]) (bio ?s) (bio t)"
    by (rule begin_uplink_effect [OF ok assms(3-5) ids, where cfg = cfg and boot = boot]) blast
  from b(7) [OF on bf] obtain c where oc: "oc = Some c" "hs = []" by auto
  have said: "says (new_route_frames ck b s @ [group_tx_message uuid (pf_source f) b]) (bio s) (bio t)"
    using b(7) [OF on bf] by simp
  have c: "uplink_call_ok c" "pcm_samples c = []" "ul_uuid c = uuid" "same_talker f (Some c)"
    using b(6) oc(1) by (simp_all add: fresh_call_def same_talker_def)
  let ?t = "t\<lparr>active_uplink := Some c, uplink_due := mono ck\<rparr>"
  obtain c' i d vs where f: "feed_frame lib cfg due_ck f c ?t =
      (Inr (), ?t\<lparr>bio := i, uplink_due := d, active_uplink := Some c'\<rparr>)"
    "feeds lib cfg c c' vs (unpack_samples (pf_pcm f))" "says (map (voice_message (ul_uuid c)) vs) (bio ?t) i"
    by (rule feed_frame_effect [OF c(1) assms(10)])
  let ?u = "?t\<lparr>bio := i, uplink_due := d, active_uplink := Some c'\<rparr>"
  have run: "uplink_tick lib cfg ck due_ck boot uuid s = (Inr (), ?u)"
    using assms(6-9) b(1) oc f(1) by (simp add: uplink_tick_def take_frame_def send_frame_def same_talker_def)
  have c': "same_talker f (Some c')"
    using f(2) c(4) same_talker_call [of c c' f] by (simp add: feeds_def same_call_def)
  have fresh: "fresh_call cfg uuid (pf_source f) (pf_destination f) c" using b(6) oc(1) by simp
  have "says (new_route_frames ck b s @ [group_tx_message uuid (pf_source f) b] @ map (voice_message uuid) vs)
      (bio s) (bio ?u)"
    using says_trans [OF said] f(3) c(3) by simp
  then show thesis
    using c' fresh f(2) b(2) [unfolded up_frame_def] b(4) oc(2) assms(6)
    by (intro that [OF run]) simp_all
qed

lemma end_of_call_tick:
  assumes "active_uplink s = Some c" "uplink_call_ok c" "uplink_queue s = []" "quiet_long cfg ck s"
  obtains t vs h c' where "uplink_tick lib cfg ck due_ck boot uuid s = (Inr (), t)" "active_uplink t = None"
    "uplink_queue t = []" "retired t = retired s @ [h]" "h_closed h" "h_destroyed h = 1"
    "list_all (\<lambda>v. length v = TETRA_STE_BYTES) vs" "codes lib cfg c c' (call_blocks (pcm_samples c)) vs"
    "says (map (voice_message (ul_uuid c)) vs @ [build_group_idle (ul_uuid c) 0]) (bio s) (bio t)"
proof -
  obtain h i vs c' where f: "finish_uplink lib cfg ck c s = (Inr (), s\<lparr>bio := i,
      owned_uuids := AList.update (ul_uuid c) (mono ck + 10) (owned_uuids s), retired := retired s @ [h]\<rparr>)"
    "h_closed h" "h_destroyed h = 1" "list_all (\<lambda>v. length v = TETRA_STE_BYTES) vs"
    "codes lib cfg c c' (call_blocks (pcm_samples c)) vs"
    "says (map (voice_message (ul_uuid c)) vs @ [build_group_idle (ul_uuid c) 0]) (bio s) i"
    by (rule finish_uplink_effect [OF assms(2)])
  let ?t = "s\<lparr>bio := i, owned_uuids := AList.update (ul_uuid c) (mono ck + 10) (owned_uuids s),
      retired := retired s @ [h], active_uplink := None, uplink_due := 0\<rparr>"
  have run: "uplink_tick lib cfg ck due_ck boot uuid s = (Inr (), ?t)"
    using assms f(1) by (simp add: uplink_tick_def take_frame_def end_of_call_def)
  show thesis by (rule that [OF run]) (use f assms(3) in simp_all)
qed

text \<open>The samples that a transmission carries.\<close>

abbreviation samples_of :: "pcm_frame list \<Rightarrow> int list" where
  "samples_of fs \<equiv> concat (map (\<lambda>f. unpack_samples (pf_pcm f)) fs)"

lemma length_samples_of: "list_all pcm_frame_ok fs \<Longrightarrow> length (samples_of fs) = 160 * length fs"
  by (induction fs) (simp_all add: pcm_frame_ok_def length_unpack_samples)


definition example_frame :: pcm_frame where
  "example_frame = \<lparr>pf_source = 42, pf_destination = 9, pf_sequence = 0, pf_marker = True,
     pf_pcm = replicate PCM_BYTES_20MS 0, received_at = 99\<rparr>"


section \<open>The steps keep the invariant\<close>

lemma downlink_ok_retired:
  assumes "downlink_ok s" "downlink_calls t = downlink_calls s" "active_downlink t = active_downlink s"
    "rtp_sequence t = rtp_sequence s" "retired t = retired s @ hs" "all_closed hs"
  shows "downlink_ok t"
  using assms by (simp add: downlink_ok_def)

definition media_ok :: "bridge \<Rightarrow> bool" where
  "media_ok s \<longleftrightarrow> core_ok s \<and> downlink_ok s \<and> uplink_ok s"

lemma finish_uplink_ok:
  assumes "media_ok s" "uplink_call_ok c"
  obtains t where "finish_uplink lib cfg ck c s = (Inr (), t)" "media_ok t" "uplink_queue t = uplink_queue s"
    "stop_set t = stop_set s"
proof -
  obtain h i vs where f: "finish_uplink lib cfg ck c s = (Inr (), s\<lparr>bio := i,
      owned_uuids := AList.update (ul_uuid c) (mono ck + 10) (owned_uuids s), retired := retired s @ [h]\<rparr>)"
    "h_closed h" "h_destroyed h = 1"
    by (rule finish_uplink_effect [OF assms(2)])
  let ?t = "s\<lparr>bio := i, owned_uuids := AList.update (ul_uuid c) (mono ck + 10) (owned_uuids s),
      retired := retired s @ [h]\<rparr>"
  have "downlink_ok ?t" by (rule downlink_ok_retired [of s _ "[h]"]) (use assms(1) f(2,3) in \<open>simp_all add: media_ok_def\<close>)
  then show thesis using assms(1) by (intro that [OF f(1)]) (simp_all add: media_ok_def core_ok_def uplink_ok_def)
qed

lemma feed_frame_ok:
  assumes "media_ok s" "uplink_call_ok c" "pcm_frame_ok f"
  obtains t where "feed_frame lib cfg due_ck f c s = (Inr (), t)" "media_ok t"
proof -
  obtain c' i d vs where f: "feed_frame lib cfg due_ck f c s =
      (Inr (), s\<lparr>bio := i, uplink_due := d, active_uplink := Some c'\<rparr>)" "feeds lib cfg c c' vs (unpack_samples (pf_pcm f))"
    by (rule feed_frame_effect [OF assms(2,3)])
  show thesis by (rule that [OF f(1)])
    (use assms(1) f(2) in \<open>simp add: media_ok_def core_ok_def uplink_ok_def downlink_ok_def feeds_def\<close>)
qed

lemma begin_uplink_ok:
  assumes "media_ok s" "clock_ok ck" "lib_alloc lib" "length uuid = 16" "pcm_frame_ok f"
  obtains oc t where "begin_uplink lib cfg ck boot uuid (pf_source f) (pf_destination f) s = (Inr oc, t)"
    "media_ok (t\<lparr>active_uplink := oc, uplink_due := d\<rparr>)"
proof -
  have ids: "u32 (pf_source f)" "u32 (pf_destination f)" using assms(5) by (simp_all add: pcm_frame_ok_def)
  have core: "core_ok s" using assms(1) by (simp add: media_ok_def)
  obtain oc t hs where b: "begin_uplink lib cfg ck boot uuid (pf_source f) (pf_destination f) s = (Inr oc, t)"
    "up_frame s t" "core_ok t" "retired t = retired s @ hs" "all_closed hs"
    "case oc of None \<Rightarrow> True | Some c \<Rightarrow> fresh_call cfg uuid (pf_source f) (pf_destination f) c"
    by (rule begin_uplink_effect [OF core assms(2-4) ids, where cfg = cfg and boot = boot]) blast
  let ?t = "t\<lparr>active_uplink := oc, uplink_due := d\<rparr>"
  have "downlink_ok ?t"
    by (rule downlink_ok_retired [of s _ hs]) (use assms(1) b(2,4,5) in \<open>simp_all add: media_ok_def up_frame_def\<close>)
  moreover have "uplink_ok ?t" using assms(1) b(2,6)
    by (auto simp: media_ok_def uplink_ok_def up_frame_def fresh_call_def split: option.splits)
  ultimately have "media_ok ?t" using b(3) by (simp add: media_ok_def core_ok_def)
  from that [OF b(1) this] show thesis .
qed

lemma uplink_tick_ok:
  assumes "media_ok s" "clock_ok ck" "lib_alloc lib" "length uuid = 16"
  obtains t where "uplink_tick lib cfg ck due_ck boot uuid s = (Inr (), t)" "media_ok t"
proof (cases "fst (take_frame cfg s)")
  case None
  then have tf: "take_frame cfg s = (None, s)" by (auto simp: take_frame_def split: if_splits)
  show thesis
  proof (cases "\<exists>c. active_uplink s = Some c \<and> quiet_long cfg ck s")
    case False
    then have "uplink_tick lib cfg ck due_ck boot uuid s = (Inr (), s)"
      by (auto simp: uplink_tick_def tf end_of_call_def split: option.splits)
    from that [OF this assms(1)] show thesis .
  next
    case True
    then obtain c where c: "active_uplink s = Some c" "quiet_long cfg ck s" by blast
    then have ok: "uplink_call_ok c" using assms(1) by (simp add: media_ok_def uplink_ok_def)
    obtain t where t: "finish_uplink lib cfg ck c s = (Inr (), t)" "media_ok t"
      by (rule finish_uplink_ok [OF assms(1) ok])
    let ?t = "t\<lparr>active_uplink := None, uplink_due := 0\<rparr>"
    have run: "uplink_tick lib cfg ck due_ck boot uuid s = (Inr (), ?t)"
      using c t(1) by (simp add: uplink_tick_def tf end_of_call_def)
    show thesis by (rule that [OF run])
      (use t(2) in \<open>simp add: media_ok_def core_ok_def uplink_ok_def downlink_ok_def\<close>)
  qed
next
  case (Some f)
  then obtain fs where q: "uplink_queue s = f # fs" and tf: "take_frame cfg s = (Some f, s\<lparr>uplink_queue := fs\<rparr>)"
    by (cases "uplink_queue s") (auto simp: take_frame_def split: if_splits)
  let ?s = "s\<lparr>uplink_queue := fs\<rparr>"
  have ok: "media_ok ?s" and fok: "pcm_frame_ok f"
    using assms(1) q by (auto simp: media_ok_def core_ok_def uplink_ok_def downlink_ok_def)
  have run: "uplink_tick lib cfg ck due_ck boot uuid s = send_frame lib cfg ck due_ck boot uuid f ?s"
    by (simp add: uplink_tick_def tf)
  have rest: "\<exists>u. (case active_uplink v of None \<Rightarrow> ret () | Some c \<Rightarrow> feed_frame lib cfg due_ck f c) v = (Inr (), u) \<and> media_ok u"
    if v: "media_ok v" for v
  proof (cases "active_uplink v")
    case (Some c)
    then have c: "uplink_call_ok c" using v by (simp add: media_ok_def uplink_ok_def)
    show ?thesis by (rule feed_frame_ok [OF v c fok]) (use Some in auto)
  qed (use v in simp)
  show thesis
  proof (cases "same_talker f (active_uplink s)")
    case True
    obtain u where "(case active_uplink ?s of None \<Rightarrow> ret () | Some c \<Rightarrow> feed_frame lib cfg due_ck f c) ?s = (Inr (), u)"
      "media_ok u" using rest [OF ok] by blast
    then show thesis using True run that by (simp add: send_frame_def)
  next
    case False
    obtain v where v: "(case active_uplink ?s of None \<Rightarrow> ret () | Some c \<Rightarrow> finish_uplink lib cfg ck c) ?s = (Inr (), v)"
      "media_ok v"
    proof (cases "active_uplink ?s")
      case None
      then show thesis using that ok by simp
    next
      case (Some c)
      then have c: "uplink_call_ok c" using ok by (simp add: media_ok_def uplink_ok_def)
      show thesis by (rule finish_uplink_ok [OF ok c]) (use that Some in auto)
    qed
    obtain oc t where b: "begin_uplink lib cfg ck boot uuid (pf_source f) (pf_destination f) v = (Inr oc, t)"
      "media_ok (t\<lparr>active_uplink := oc, uplink_due := mono ck\<rparr>)"
      by (rule begin_uplink_ok [OF v(2) assms(2-4) fok])
    obtain u where "(case active_uplink (t\<lparr>active_uplink := oc, uplink_due := mono ck\<rparr>) of None \<Rightarrow> ret ()
        | Some c \<Rightarrow> feed_frame lib cfg due_ck f c) (t\<lparr>active_uplink := oc, uplink_due := mono ck\<rparr>) = (Inr (), u)" "media_ok u"
      using rest [OF b(2)] by blast
    then show thesis using False run that v(1) b(1) by (simp add: send_frame_def)
  qed
qed

end
