(* ===== verification/Bridge_Sds.thy ===== *)
theory Bridge_Sds
  imports Bridge_Uplink "HOL-Library.List_Lexorder" "HOL-Library.Char_ord"
begin

text \<open>
  Text messages: \<^verbatim>\<open>_handle_inbound_sds\<close>, \<^verbatim>\<open>_send_brew_sds_report\<close>, \<^verbatim>\<open>_process_sms_command\<close> and the
  body of \<^verbatim>\<open>_sms_command_loop\<close>; and \<^verbatim>\<open>_on_brew_binary\<close>, which dispatches every message from BREW.
  \<open>cm\<close> holds the 8 bit code pages and \<open>readable\<close> the display of undecodable bytes.
\<close>

section \<open>Messages from BREW to P25\<close>

abbreviation BREW_SDS_DUPLICATE_WINDOW_SECONDS :: real where "BREW_SDS_DUPLICATE_WINDOW_SECONDS \<equiv> 60"

definition send_brew_sds_report :: "bytes \<Rightarrow> unit handler" where
  "send_brew_sds_report call_uuid =
     bindA (on_io (send_built (build_brew_sds_report call_uuid 0))) (\<lambda>ok.
       if ok then ret () else count ''brewSmsReportSendFailures'')"

definition p25_message_file :: "int \<Rightarrow> int \<Rightarrow> bytes \<Rightarrow> string" where
  "p25_message_file source destination text_utf8 =
     ''sourceRid: '' @ show_int source @ [CHR 0x0A] @
     ''targetRid: '' @ show_int destination @ [CHR 0x0A] @
     ''textHex: '' @ [CHR 0x22] @ hex_text text_utf8 @ [CHR 0x22, CHR 0x0A]"

definition p25_file_name :: "clock \<Rightarrow> bytes \<Rightarrow> string" where
  "p25_file_name ck uuid = ''brew-sds-'' @ show_int (ns ck div 10 ^ 6) @ ''-'' @ uuid_text uuid @ ''.yaml''"

definition deliver_sds :: "clock \<Rightarrow> bytes \<Rightarrow> pending \<Rightarrow> utext \<Rightarrow> unit handler" where
  "deliver_sds ck call_uuid p text =
     thenA (upd (\<lambda>s. s\<lparr>recent_sds := dict_filter (\<lambda>expiry. expiry > mono ck) (recent_sds s)\<rparr>))
     (readA (\<lambda>s.
        let duplicate_key = (sds_source p, sds_destination p, text) in
        if duplicate_key \<in> fst ` set (recent_sds s)
        then thenA (send_brew_sds_report call_uuid) (count ''duplicateBrewSmsFrames'')
        else bindA (liftE (utf8_encode text)) (\<lambda>data.
          thenA writing
          (thenA (upd (\<lambda>s. s\<lparr>outbox := outbox s @
              [(p25_file_name ck call_uuid, p25_message_file (sds_source p) (sds_destination p) data)],
              recent_sds := AList.update duplicate_key (mono ck + BREW_SDS_DUPLICATE_WINDOW_SECONDS)
                (recent_sds s)\<rparr>))
          (thenA (send_brew_sds_report call_uuid) (count ''brewSmsMessagesDelivered''))))))"

definition handle_inbound_sds :: "charmap \<Rightarrow> audio_config \<Rightarrow> clock \<Rightarrow> bytes \<Rightarrow> bytes \<Rightarrow> unit handler" where
  "handle_inbound_sds cm cfg ck call_uuid frame = readA (\<lambda>s.
     if length frame < 20 then count ''invalidBrewSmsFrames''
     else case map_of (pending_sds s) call_uuid of
         None \<Rightarrow> count ''orphanBrewSmsFrames''
       | Some p \<Rightarrow>
           thenA (upd (\<lambda>s. s\<lparr>pending_sds := AList.delete call_uuid (pending_sds s)\<rparr>))
           (if sds_destination p \<notin> local_issis s then count ''nonLocalBrewSmsFrames''
            else let length_bits = le_val (slice 18 20 frame);
                     payload = slice 20 (20 + (nat length_bits + 7) div 8) frame in
              bindA (liftE (parse_text_sds_type4_pdu cm payload (Some length_bits))) (\<lambda>text.
                case text of
                  None \<Rightarrow> count ''unsupportedBrewSmsFrames''
                | Some t \<Rightarrow>
                    if sms_command_dir cfg = None then count ''undeliverableBrewSmsFrames''
                    else deliver_sds ck call_uuid p t)))"

section \<open>Dispatch\<close>

definition frame_u32 :: "nat \<Rightarrow> bytes \<Rightarrow> int" where
  "frame_u32 off frame = le_val (slice off (off + 4) frame)"

definition on_brew_error :: "(bytes \<Rightarrow> string) \<Rightarrow> clock \<Rightarrow> bytes \<Rightarrow> unit handler" where
  "on_brew_error readable ck frame =
     thenA (count ''brewServerErrors'')
     (thenA (set_status [(''lastError'', PStr (''brew_server_f3_type_'' @ show_nat (unat (frame ! 1)))),
         (''brewServerErrorReason'', (let reason = brew_error_reason readable frame
            in if reason = [] then PNone else PStr reason))])
     (if frame ! 1 = BREW_TYPE_RESTRICTED
      then thenA (count ''brewRestrictedCalls'') (readA (\<lambda>s.
          if 20 \<le> length frame \<and> frame ! 2 = BREW_CLASS_CALL_CONTROL \<and> frame ! 3 = CALL_STATE_GROUP_IDLE \<and>
             slice 4 20 frame \<in> fst ` set (owned_uuids s)
          then recover_rejected_uplink_session ck else ret ()))
      else ret ()))"

definition on_call_frame ::
  "codec_lib \<Rightarrow> charmap \<Rightarrow> audio_config \<Rightarrow> clock \<Rightarrow> byte \<Rightarrow> byte \<Rightarrow> bytes \<Rightarrow> bytes \<Rightarrow> unit handler" where
  "on_call_frame lib cm cfg ck message_class message_type call_uuid frame =
     thenA (upd (\<lambda>s. s\<lparr>pending_sds := dict_filter (\<lambda>p. mono ck - sds_received_at p < 30) (pending_sds s)\<rparr>))
     (if message_class = BREW_CLASS_CALL_CONTROL \<and> message_type = CALL_STATE_SHORT_TRANSFER
      then if length frame < 26 then count ''invalidBrewSmsHeaders''
           else thenA (upd (\<lambda>s. s\<lparr>pending_sds := AList.update call_uuid
                    \<lparr>sds_source = frame_u32 18 frame, sds_destination = frame_u32 22 frame,
                     sds_received_at = mono ck\<rparr> (pending_sds s)\<rparr>))
                  (count ''brewSmsHeadersReceived'')
      else if message_class = BREW_CLASS_FRAME \<and> message_type = FRAME_TYPE_SDS_TRANSFER
      then handle_inbound_sds cm cfg ck call_uuid frame
      else thenA (upd (expire_owned_uuids ck))
        (if message_class = BREW_CLASS_CALL_CONTROL
         then if message_type = CALL_STATE_GROUP_TX \<and> 30 \<le> length frame
              then start_or_update_downlink lib ck call_uuid (frame_u32 18 frame) (frame_u32 22 frame)
              else if message_type = CALL_STATE_GROUP_IDLE then upd (end_downlink call_uuid)
              else ret ()
         else if message_class = BREW_CLASS_FRAME \<and> message_type = FRAME_TYPE_TRAFFIC_CHANNEL \<and> 20 \<le> length frame
         then queue_downlink_voice ck call_uuid (le_val (slice 18 20 frame)) (drop 20 frame)
         else ret ()))"

definition on_brew_binary ::
  "codec_lib \<Rightarrow> charmap \<Rightarrow> (bytes \<Rightarrow> string) \<Rightarrow> audio_config \<Rightarrow> clock \<Rightarrow> bytes \<Rightarrow> unit handler" where
  "on_brew_binary lib cm readable cfg ck frame =
     (if length frame < 2 then ret ()
      else let message_class = frame ! 0; message_type = frame ! 1 in
        if message_class = BREW_CLASS_SUBSCRIBER
        then readA (\<lambda>s. if 6 \<le> length frame \<and> frame_u32 2 frame \<in> local_issis s
                        then count ''localSubscriberEvents'' else ret ())
        else if message_class = BREW_CLASS_ERROR then on_brew_error readable ck frame
        else if message_class = BREW_CLASS_FRAME \<and> message_type = FRAME_TYPE_SDS_REPORT
        then count ''brewSmsReportsReceived''
        else if length frame < 18 then ret ()
        else on_call_frame lib cm cfg ck message_class message_type (slice 2 18 frame) frame)"

section \<open>Commands from P25 to BREW\<close>

definition sms_text :: "(pyval \<Rightarrow> string) \<Rightarrow> pyval \<Rightarrow> utext" where
  "sms_text rep v = map code (strip (py_str rep v))"

text \<open>The checked fields of a command.\<close>

definition sms_fields :: "(pyval \<Rightarrow> string) \<Rightarrow> pyval \<Rightarrow> py_error + int \<times> int \<times> utext" where
  "sms_fields rep command =
     bindE (bindE (py_item command ''sourceRid'') py_int) (\<lambda>source.
     bindE (bindE (py_item command ''targetRid'') py_int) (\<lambda>target.
     bindE (py_item command ''text'') (\<lambda>v.
     let text = sms_text rep v in
     if \<not> in_24bit source \<or> \<not> in_24bit target
     then Inl (ValueError ''SMS sourceRid and targetRid must fit in 24 bits'')
     else if text = [] then Inl (ValueError ''SMS text must not be empty'')
     else Inr (source, target, text))))"

definition sms_frames :: "clock \<Rightarrow> bytes \<Rightarrow> int \<Rightarrow> int \<Rightarrow> utext \<Rightarrow> py_error + bytes list" where
  "sms_frames ck session source target text =
     bindE (build_text_sds_type4_pdu text (ns ck div 10 ^ 6 mod 256)) (\<lambda>payload.
     bindE (build_brew_short_transfer session source target) (\<lambda>header.
     bindE (build_brew_sds_transfer session payload) (\<lambda>transfer.
     bindE (build_brew_call_release session 0) (\<lambda>release.
     Inr [header, transfer, release]))))"

definition sms_result :: "clock \<Rightarrow> bytes \<Rightarrow> pyval \<Rightarrow> pyval" where
  "sms_result ck session command =
     (case command of
        PDict d \<Rightarrow> PDict (AList.update ''messageReference'' (PInt (ns ck div 10 ^ 6 mod 256))
          (AList.update ''sessionId'' (PStr (uuid_text session))
          (AList.update ''sentAt'' (PStr (utc ck)) (AList.update ''status'' (PStr ''sent'') d))))
      | v \<Rightarrow> v)"

definition process_sms_command ::
  "(pyval \<Rightarrow> string) \<Rightarrow> clock \<Rightarrow> bytes \<Rightarrow> string \<Rightarrow> bool handler" where
  "process_sms_command rep ck session name = readA (\<lambda>s.
     if \<not> is_connected s then ret False
     else bindA (liftE (case map_of (command_files s) name of
                          None \<Rightarrow> Inl (OSError ''FileNotFoundError'') | Some document \<Rightarrow> document)) (\<lambda>command.
          bindA (liftE (sms_fields rep command)) (\<lambda>(source, target, text).
          thenA (ensure_local_issi ck source False)
          (bindA (liftE (sms_frames ck session source target text)) (\<lambda>frames.
           bindA (on_io (call (send_many frames))) (\<lambda>ok.
           if \<not> ok then ret False
           else thenA writing (thenA (upd (\<lambda>s. s\<lparr>result_files := AList.update name (sms_result ck session command) (result_files s),
                         command_files := AList.delete name (command_files s)\<rparr>))
               (thenA (count ''brewSmsCommandsSent'') (ret True)))))))))"

definition sms_caught :: "py_error \<Rightarrow> bool" where
  "sms_caught e \<longleftrightarrow> is_key_error e \<or> is_os_error e \<or> is_type_error e \<or> is_value_error e"

definition reject_command :: "string \<Rightarrow> py_error \<Rightarrow> bool handler" where
  "reject_command name e =
     thenA writing
     (thenA (upd (\<lambda>s. s\<lparr>command_files := AList.delete name (command_files s),
                       error_files := AList.update name e (error_files s)\<rparr>))
     (thenA (count ''invalidBrewSmsCommands'') (ret True)))"

text \<open>One pass over the directory: it stops at the first command that could not be sent.\<close>

primrec sms_pass :: "(pyval \<Rightarrow> string) \<Rightarrow> clock \<Rightarrow> (string \<Rightarrow> bytes) \<Rightarrow> string list \<Rightarrow> unit handler" where
  "sms_pass rep ck session [] = ret ()"
| "sms_pass rep ck session (name # names) =
     bindA (catchA sms_caught (process_sms_command rep ck (session name) name) (reject_command name)) (\<lambda>go.
       if go then sms_pass rep ck session names else ret ())"

definition sms_command_tick :: "(pyval \<Rightarrow> string) \<Rightarrow> clock \<Rightarrow> (string \<Rightarrow> bytes) \<Rightarrow> unit handler" where
  "sms_command_tick rep ck session =
     readA (\<lambda>s. sms_pass rep ck session (sort (map fst (command_files s))))"

section \<open>Invariant\<close>

definition bridge_ok :: "bridge \<Rightarrow> bool" where
  "bridge_ok s \<longleftrightarrow> core_ok s \<and> downlink_ok s \<and> uplink_ok s \<and> dict_ok (pending_sds s) \<and>
     dict_ok (recent_sds s) \<and> dict_ok (command_files s)"

lemma bridge_ok_disk: "bridge_ok s \<Longrightarrow> disk_error s = None"
  by (simp add: bridge_ok_def core_okD(8))

lemma bridge_ok_media: "bridge_ok s \<Longrightarrow> media_ok s"
  by (simp add: bridge_ok_def media_ok_def)

abbreviation anyhow :: "bridge \<Rightarrow> bridge \<Rightarrow> bool" where "anyhow \<equiv> \<lambda>_ _. True"

abbreviation returns :: "'a handler \<Rightarrow> bool" where "returns m \<equiv> does bridge_ok anyhow m"

lemma anyhow_preorder [simp]: "reflp anyhow" "transp anyhow"
  by (simp_all add: reflp_def transp_def)

lemma returns_writing [does_rules]: "returns writing"
  by (rule does_writing) (simp_all add: bridge_ok_disk)

lemma returnsE:
  assumes "returns m" "bridge_ok s"
  obtains x t where "m s = (Inr x, t)" "bridge_ok t"
  using assms by (auto simp: does_def)

text \<open>The parts of the state outside the shared core do not change when \<open>core.more\<close> does not.\<close>

lemma core_more_fields:
  assumes "core.more t = core.more (s :: bridge)"
  shows "uplink_queue t = uplink_queue s" "active_uplink t = active_uplink s" "downlink_calls t = downlink_calls s"
    "active_downlink t = active_downlink s" "rtp_sequence t = rtp_sequence s" "retired t = retired s"
    "pending_sds t = pending_sds s" "recent_sds t = recent_sds s" "command_files t = command_files s"
    "result_files t = result_files s" "error_files t = error_files s" "outbox t = outbox s"
    "stop_set t = stop_set s" "last_p25_rx t = last_p25_rx s"
  using assms by (cases s; cases t; simp)+

lemma bridge_ok_more:
  assumes "bridge_ok s" "core_ok t" "core.more t = core.more s"
  shows "bridge_ok t"
  using assms(1,2) core_more_fields [OF assms(3)] by (simp add: bridge_ok_def downlink_ok_def uplink_ok_def)

lemma returns_settled: "does core_ok settled m \<Longrightarrow> returns m"
  unfolding does_def
  by (metis bridge_ok_def bridge_ok_more settled_def)

lemma returns_quiet: "does core_ok quiet m \<Longrightarrow> returns m"
  by (rule returns_settled [OF does_settled])

lemma bridge_ok_upd [simp]:
  "bridge_ok (s\<lparr>bio := i\<rparr>) = bridge_ok s" "bridge_ok (s\<lparr>ignored_uuids := g\<rparr>) = bridge_ok s"
  "bridge_ok (s\<lparr>outbox := f\<rparr>) = bridge_ok s" "bridge_ok (s\<lparr>last_disconnect_at := d\<rparr>) = bridge_ok s"
  "bridge_ok (s\<lparr>result_files := rf\<rparr>) = bridge_ok s" "bridge_ok (s\<lparr>error_files := ef\<rparr>) = bridge_ok s"
  "bridge_ok (s\<lparr>last_session_recovery := r\<rparr>) = bridge_ok s" "bridge_ok (s\<lparr>last_p25_rx := r\<rparr>) = bridge_ok s"
  by (simp_all add: bridge_ok_def core_ok_def downlink_ok_def uplink_ok_def)

lemma bridge_ok_dicts [wf_intros]:
  "bridge_ok s \<Longrightarrow> dict_ok d1 \<Longrightarrow> bridge_ok (s\<lparr>pending_sds := d1\<rparr>)"
  "bridge_ok s \<Longrightarrow> dict_ok d2 \<Longrightarrow> bridge_ok (s\<lparr>recent_sds := d2\<rparr>)"
  "bridge_ok s \<Longrightarrow> dict_ok d3 \<Longrightarrow> bridge_ok (s\<lparr>command_files := d3\<rparr>)"
  by (simp_all add: bridge_ok_def core_ok_def downlink_ok_def uplink_ok_def)

lemma bridge_okD:
  assumes "bridge_ok s"
  shows "core_ok s" "downlink_ok s" "uplink_ok s" "dict_ok (pending_sds s)" "dict_ok (recent_sds s)"
    "dict_ok (command_files s)"
  using assms by (simp_all add: bridge_ok_def)

lemma returns_steps [does_rules]:
  "returns (count k)" "returns (set_status vs)" "returns (on_io (call f))"
  "returns (upd (ignore_uuid uuid))"
  by (simp_all add: does_def ignore_uuid_def on_io_def)

lemma returns_lift: "m = Inr x \<Longrightarrow> returns (liftE m)"
  by (simp add: does_def)

lemma returns_upd: "(\<And>s. bridge_ok s \<Longrightarrow> bridge_ok (f s)) \<Longrightarrow> returns (upd f)"
  by (simp add: does_def)

section \<open>No message raises\<close>

lemma bridge_ok_put_call: "bridge_ok s \<Longrightarrow> call_ok c \<Longrightarrow> bridge_ok (put_call c s)"
  using downlink_ok_put [of s c] by (simp add: bridge_ok_def core_ok_def uplink_ok_def put_call_def)

lemma start_or_update_returns:
  assumes "lib_alloc lib" "u32 source" "u32 destination"
  shows "returns (start_or_update_downlink lib ck uuid source destination)"
proof -
  obtain h where h: "open_handle lib False = Inr h" using assms(1) by (simp add: open_handle_def)
  have new: "call_ok (new_downlink_call ck uuid source destination p h)" if "bridge_ok s"
      "p25_for_brew (brt s) destination = Some p" for s p
    using call_ok_new [OF h assms(2) p25_for_brew_u32 [OF _ assms(3) that(2)]] core_okD(7) [of s] that(1)
    by (simp add: bridge_ok_def)
  have old: "call_ok (c\<lparr>dl_source := source, ended := False\<rparr>)" if "bridge_ok s" "map_of (downlink_calls s) uuid = Some c" for s c
    using downlink_okD(2) [OF _ that(2)] that(1) assms(2) by (simp add: bridge_ok_def call_ok_def)
  show ?thesis
    unfolding start_or_update_downlink_def h bindA_lift
    by (intro does_rules anyhow_preorder returns_upd bridge_ok_put_call new old; assumption)
qed

lemma voice_returns: "returns (queue_downlink_voice ck uuid bits payload)"
proof -
  have q: "call_ok ((queue_frame (take TETRA_STE_BYTES payload) c)\<lparr>last_frame_at := mono ck\<rparr>)"
    if "bridge_ok s" "map_of (downlink_calls s) uuid = Some c" "\<not> length payload < TETRA_STE_BYTES" for s c
    using call_ok_queue [OF downlink_okD(2) [OF bridge_okD(2) [OF that(1)] that(2)]] that(3) by simp
  show ?thesis
    unfolding queue_downlink_voice_def
    by (intro does_rules anyhow_preorder returns_upd bridge_ok_put_call q; assumption)
qed

lemma end_downlink_bridge_ok: "bridge_ok s \<Longrightarrow> bridge_ok (end_downlink uuid s)"
  using downlink_okD(2) [OF bridge_okD(2), of s uuid]
  by (auto simp: end_downlink_def split: option.splits intro!: bridge_ok_put_call)

lemma expire_owned_bridge_ok: "bridge_ok s \<Longrightarrow> bridge_ok (expire_owned_uuids ck s)"
  by (simp add: expire_owned_uuids_def Let_def bridge_ok_def core_ok_def downlink_ok_def uplink_ok_def
      dict_ok_fold_delete)

lemma recover_returns: "returns (recover_rejected_uplink_session ck)"
  unfolding recover_rejected_uplink_session_def upd_io_def
  by (intro does_rules anyhow_preorder returns_upd; simp)

lemma on_brew_error_returns: "returns (on_brew_error readable ck frame)"
  unfolding on_brew_error_def by (intro does_rules anyhow_preorder recover_returns)

lemma send_report_returns: "returns (send_brew_sds_report uuid)"
proof -
  obtain m where "build_brew_sds_report uuid 0 = Inr m"
    by (simp add: build_brew_sds_report_def to_bytes_le_def)
  then show ?thesis
    unfolding send_brew_sds_report_def send_built_def
    by (simp only: bindA_lift) (intro does_rules anyhow_preorder)
qed

definition charmap_ok :: "charmap \<Rightarrow> bool" where
  "charmap_ok cm \<longleftrightarrow> (\<forall>page b c. cm page b = Some c \<longrightarrow> \<not> surrogate c)"

lemma utf16_no_surrogate: "utf16_decode_units us = Inr t \<Longrightarrow> list_all (\<lambda>c. \<not> surrogate c) t"
  by (induction us arbitrary: t rule: utf16_decode_units.induct)
    (auto simp: surrogate_def bindE_eq_Inr split: if_splits list.splits)

lemma mapE_Inr_all: "mapE f xs = Inr ys \<Longrightarrow> (\<And>x y. f x = Inr y \<Longrightarrow> P y) \<Longrightarrow> list_all P ys"
  by (induction xs arbitrary: ys) (auto simp: bindE_eq_Inr)

lemma tidy_subset: "set (tidy t) \<subseteq> set t"
  by (auto simp: tidy_def strip_by_def lstrip_by_def rstrip_by_def dest!: set_dropWhileD)

lemma decode_text_no_surrogate:
  assumes "charmap_ok cm" "decode_text cm coding bs = Some t"
  shows "list_all (\<lambda>c. \<not> surrogate c) t"
proof -
  have 8: "list_all (\<lambda>c. \<not> surrogate c) u" if "decode_8bit cm page b = Inr u" for page b u
    using that unfolding decode_8bit_def
  proof (rule mapE_Inr_all)
    fix x y
    assume "(if page = ''iso8859_1'' then Inr (unat x) else case cm page x of None \<Rightarrow> Inl UnicodeDecodeError | Some c \<Rightarrow> Inr c) = Inr y"
    then show "\<not> surrogate y"
      using assms(1) unsigned_less [where 'a = nat and 'b = 8, of x] by (auto simp: charmap_ok_def surrogate_def split: if_splits option.splits)
  qed
  have 16: "list_all (\<lambda>c. \<not> surrogate c) u" if "utf16_decode b = Inr u" for b u
    using that utf16_no_surrogate by (auto simp: utf16_decode_def bindE_eq_Inr)
  obtain u where "t = tidy u" "list_all (\<lambda>c. \<not> surrogate c) u"
    using assms(2) 8 16 by (auto simp: decode_text_def Let_def split: option.splits if_splits sum.splits)
  then show ?thesis using tidy_subset by (auto simp: list_all_iff)
qed

lemma parse_no_surrogate:
  assumes "charmap_ok cm" "parse_text_sds_type4_pdu cm payload l = Inr (Some t)"
  shows "list_all (\<lambda>c. \<not> surrogate c) t"
  using assms(2) decode_text_no_surrogate [OF assms(1)]
  by (auto simp: parse_text_sds_type4_pdu_def Let_def bindE_eq_Inr split: if_splits)

lemma deliver_returns:
  assumes "list_all (\<lambda>c. \<not> surrogate c) t"
  shows "returns (deliver_sds ck uuid p t)"
proof -
  obtain data where d: "utf8_encode t = Inr data" using assms by (simp add: utf8_encode_def)
  show ?thesis
    unfolding deliver_sds_def Let_def d bindA_lift
    by (intro does_rules anyhow_preorder returns_upd send_report_returns)
      (simp_all add: bridge_ok_dicts(2) bridge_okD(5))
qed

lemma handle_inbound_returns:
  assumes "charmap_ok cm"
  shows "returns (handle_inbound_sds cm cfg ck uuid frame)"
proof -
  have body: "returns (bindA (liftE (parse_text_sds_type4_pdu cm payload l)) (\<lambda>text.
      case text of None \<Rightarrow> count ''unsupportedBrewSmsFrames''
      | Some t \<Rightarrow> if sms_command_dir cfg = None then count ''undeliverableBrewSmsFrames''
                  else deliver_sds ck uuid p t))" for payload l p
  proof -
    obtain r where r: "parse_text_sds_type4_pdu cm payload l = Inr r" using parse_text_sds_total by blast
    have "list_all (\<lambda>c. \<not> surrogate c) t" if "r = Some t" for t
      using parse_no_surrogate [OF assms] r that by simp
    then show ?thesis unfolding r bindA_lift
      by (intro does_rules deliver_returns)
  qed
  show ?thesis
    unfolding handle_inbound_sds_def Let_def
    by (intro does_rules anyhow_preorder returns_upd body) (simp add: bridge_ok_dicts(1) bridge_okD(4))
qed

lemma frame_u32_range: "u32 (frame_u32 off frame)"
proof -
  have "le_val (slice off (off + 4) frame) < 256 ^ length (slice off (off + 4) frame)" by (rule le_val_bound)
  also have "\<dots> \<le> 256 ^ 4" by (rule power_increasing) simp_all
  finally show ?thesis by (simp add: u32_def frame_u32_def)
qed

lemma on_brew_binary_safe:
  assumes "lib_alloc lib" "charmap_ok cm"
  shows "returns (on_brew_binary lib cm readable cfg ck frame)"
proof -
  have "returns (on_call_frame lib cm cfg ck mc mt uuid frame)" for mc mt uuid
    unfolding on_call_frame_def
    by (intro does_rules anyhow_preorder returns_upd handle_inbound_returns assms start_or_update_returns
        frame_u32_range voice_returns end_downlink_bridge_ok expire_owned_bridge_ok)
      (simp_all add: bridge_ok_dicts(1) bridge_okD(4))
  then show ?thesis
    unfolding on_brew_binary_def Let_def by (intro does_rules anyhow_preorder on_brew_error_returns)
qed

text \<open>C35: whatever bytes arrive from the network, the handler of a message returns and the state of the
  worker stays well formed, as long as a codec instance can be allocated for a new call and the outbox can
  be written. (Otherwise it raises, which ends the session and not the worker: \<open>transport_backs_off\<close>.)\<close>

theorem on_brew_binary_returns:
  assumes "bridge_ok s" "lib_alloc lib" "charmap_ok cm"
  shows "\<exists>t. on_brew_binary lib cm readable cfg ck frame s = (Inr (), t) \<and> bridge_ok t"
  using returnsE [OF on_brew_binary_safe [OF assms(2,3)] assms(1)] by (metis (full_types) old.unit.exhaust)

lemma example_bridge_ok: "bridge_ok example_bridge"
  using example_downlink_ok(1) example_ok(1)
  by (simp add: bridge_ok_def uplink_ok_def) (simp add: core_ok_def example_bridge_def core.defs)

theorem on_brew_binary_returns_witness:
  "\<exists>cfg t. audio_config_load example_env ''audio.json'' (PDict example_raw) = Inr cfg \<and>
     on_brew_binary example_lib (\<lambda>_ _. None) (\<lambda>_. []) cfg example_clock [0xF2, 1, 0xFF] example_bridge = (Inr (), t) \<and>
     bridge_ok t"
proof -
  obtain cfg where cfg: "audio_config_load example_env ''audio.json'' (PDict example_raw) = Inr cfg"
    using example_loads by blast
  have "lib_alloc example_lib" "charmap_ok (\<lambda>_ _. None)" by (simp_all add: example_lib_def charmap_ok_def)
  from on_brew_binary_returns [OF example_bridge_ok this, of "\<lambda>_. []" cfg example_clock "[0xF2, 1, 0xFF]"] cfg
  show ?thesis by blast
qed

section \<open>A text message is delivered once\<close>

lemma short_transfer_effect:
  assumes "build_brew_short_transfer uuid source destination = Inr h" "length uuid = 16"
  shows "on_brew_binary lib cm readable cfg ck h s = (Inr (), s\<lparr>
    pending_sds := AList.update uuid \<lparr>sds_source = source, sds_destination = destination, sds_received_at = mono ck\<rparr>
      (dict_filter (\<lambda>p. mono ck - sds_received_at p < 30) (pending_sds s)),
    bio := status_increment ''brewSmsHeadersReceived'' (bio s)\<rparr>)"
proof -
  let ?s = "le_bytes 4 source" and ?d = "le_bytes 4 destination"
  have h: "h = [BREW_CLASS_CALL_CONTROL, CALL_STATE_SHORT_TRANSFER] @ uuid @ ?s @ ?d @ replicate 32 0"
    and r: "0 \<le> source" "source < 256 ^ 4" "0 \<le> destination" "destination < 256 ^ 4"
    using assms(1) by (auto simp: build_brew_short_transfer_def to_bytes_le_def bindE_eq_Inr simp del: le_bytes_unroll split: if_splits)
  have f: "slice 18 22 h = ?s" "slice 22 26 h = ?d" "slice 2 18 h = uuid"
    using slice_append_exact [of "[BREW_CLASS_CALL_CONTROL, CALL_STATE_SHORT_TRANSFER] @ uuid" 18 ?s 22 "?d @ replicate 32 0"]
      slice_append_exact [of "[BREW_CLASS_CALL_CONTROL, CALL_STATE_SHORT_TRANSFER] @ uuid @ ?s" 22 ?d 26 "replicate 32 0"]
      slice_append_exact [of "[BREW_CLASS_CALL_CONTROL, CALL_STATE_SHORT_TRANSFER]" 2 uuid 18 "?s @ ?d @ replicate 32 0"]
      assms(2) by (simp_all add: h del: le_bytes_unroll)
  have u: "frame_u32 18 h = source" "frame_u32 22 h = destination"
    using f(1,2) r by (simp_all add: frame_u32_def del: le_bytes_unroll)
  have l: "length h = 58" "h ! 0 = BREW_CLASS_CALL_CONTROL" "h ! 1 = CALL_STATE_SHORT_TRANSFER"
    using assms(2) by (simp_all add: h)
  show ?thesis using l f(3) u by (simp add: on_brew_binary_def on_call_frame_def Let_def)
qed

lemma sds_transfer_effect:
  assumes "build_brew_sds_transfer uuid payload = Inr f" "length uuid = 16"
    "map_of (pending_sds s) uuid = Some p" "dict_ok (pending_sds s)" "mono ck - sds_received_at p < 30"
    "sds_destination p \<in> local_issis s" "sms_command_dir cfg = Some dir"
    "parse_text_sds_type4_pdu cm payload (Some (8 * int (length payload))) = Inr (Some text)"
  shows "on_brew_binary lib cm readable cfg ck f s = deliver_sds ck uuid p text (s\<lparr>pending_sds :=
    AList.delete uuid (dict_filter (\<lambda>p. mono ck - sds_received_at p < 30) (pending_sds s))\<rparr>)"
proof -
  let ?l = "le_bytes 2 (int (length payload) * 8)"
  have f: "f = [BREW_CLASS_FRAME, FRAME_TYPE_SDS_TRANSFER] @ uuid @ ?l @ payload" and r: "int (length payload) * 8 < 65536"
    using assms(1) by (auto simp: build_brew_sds_transfer_def to_bytes_le_def bindE_eq_Inr simp del: le_bytes_unroll split: if_splits)
  have sl: "slice 18 20 f = ?l" "slice 2 18 f = uuid" "slice 20 (20 + length payload) f = payload"
    using slice_append_exact [of "[BREW_CLASS_FRAME, FRAME_TYPE_SDS_TRANSFER] @ uuid" 18 ?l 20 payload]
      slice_append_exact [of "[BREW_CLASS_FRAME, FRAME_TYPE_SDS_TRANSFER]" 2 uuid 18 "?l @ payload"]
      slice_append_exact [of "[BREW_CLASS_FRAME, FRAME_TYPE_SDS_TRANSFER] @ uuid @ ?l" 20 payload "20 + length payload" "[]"]
      assms(2) by (simp_all add: f del: le_bytes_unroll)
  have bits: "le_val (slice 18 20 f) = 8 * int (length payload)"
    using r by (simp add: sl(1) del: le_bytes_unroll)
  have oct: "(nat (8 * int (length payload)) + 7) div 8 = length payload"
    by (simp add: nat_mult_distrib)
  have l: "20 \<le> length f" "f ! 0 = BREW_CLASS_FRAME" "f ! 1 = FRAME_TYPE_SDS_TRANSFER"
    using assms(2) by (simp_all add: f)
  have m: "map_of (dict_filter (\<lambda>p. mono ck - sds_received_at p < 30) (pending_sds s)) uuid = Some p"
    using assms(3-5) by (simp add: map_of_dict_filter)
  show ?thesis
    using l sl(2) assms(6-8) m
    by (simp add: on_brew_binary_def on_call_frame_def handle_inbound_sds_def bits oct sl(3))
qed

definition sds_report :: "bytes \<Rightarrow> bytes" where
  "sds_report uuid = [BREW_CLASS_FRAME, FRAME_TYPE_SDS_REPORT] @ uuid @ le_bytes 2 8 @ [0]"

lemma send_report_online:
  assumes "online (bio s)"
  shows "send_brew_sds_report uuid s = (Inr (), s\<lparr>bio := (bio s)\<lparr>attempts := attempts (bio s) + 1,
    sent := sent (bio s) @ [sds_report uuid]\<rparr>\<rparr>)"
proof -
  have "build_brew_sds_report uuid 0 = Inr (sds_report uuid)"
    by (simp add: build_brew_sds_report_def to_bytes_le_def sds_report_def)
  then show ?thesis
    by (simp add: send_brew_sds_report_def on_io_def send_built_def online_send [OF assms])
qed

lemma deliver_fresh:
  assumes "online (bio s)" "utf8_encode text = Inr utf8" "dict_ok (recent_sds s)"
    "case map_of (recent_sds s) (sds_source p, sds_destination p, text) of None \<Rightarrow> True | Some e \<Rightarrow> e \<le> mono ck"
    "disk_error s = None"
  obtains i d where "deliver_sds ck uuid p text s = (Inr (), s\<lparr>bio := i, recent_sds := d,
      outbox := outbox s @ [(p25_file_name ck uuid, p25_message_file (sds_source p) (sds_destination p) utf8)]\<rparr>)"
    "online i" "sent i = sent (bio s) @ [sds_report uuid]"
    "dict_ok d" "map_of d (sds_source p, sds_destination p, text) = Some (mono ck + 60)"
proof -
  let ?k = "(sds_source p, sds_destination p, text)"
  let ?f = "dict_filter (\<lambda>expiry. expiry > mono ck) (recent_sds s)"
  have "map_of ?f ?k = None" using assms(3,4) by (auto simp: map_of_dict_filter split: option.splits)
  then have new: "?k \<notin> fst ` set ?f" by (rule map_of_None_iff [THEN iffD1])
  let ?s = "s\<lparr>recent_sds := AList.update ?k (mono ck + 60) ?f,
      outbox := outbox s @ [(p25_file_name ck uuid, p25_message_file (sds_source p) (sds_destination p) utf8)]\<rparr>"
  let ?i = "status_increment ''brewSmsMessagesDelivered'' ((bio s)\<lparr>attempts := attempts (bio s) + 1,
      sent := sent (bio s) @ [sds_report uuid]\<rparr>)"
  have "deliver_sds ck uuid p text s = (Inr (), ?s\<lparr>bio := ?i\<rparr>)"
    using new assms(1,2,5)
    by (simp add: deliver_sds_def Let_def send_report_online del: set_dict_filter)
  then show thesis using assms(1,3)
    by (intro that [where i = ?i and d = "AList.update ?k (mono ck + 60) ?f"]) simp_all
qed

lemma deliver_again:
  assumes "online (bio s)" "dict_ok (recent_sds s)"
    "map_of (recent_sds s) (sds_source p, sds_destination p, text) = Some e" "mono ck < e"
  obtains i d where "deliver_sds ck uuid p text s = (Inr (), s\<lparr>bio := i, recent_sds := d\<rparr>)"
    "online i" "sent i = sent (bio s) @ [sds_report uuid]"
proof -
  let ?k = "(sds_source p, sds_destination p, text)"
  let ?f = "dict_filter (\<lambda>expiry. expiry > mono ck) (recent_sds s)"
  have "map_of ?f ?k = Some e" using assms(2-4) by (simp add: map_of_dict_filter)
  then have old: "?k \<in> fst ` set ?f" by (metis map_of_None_iff option.distinct(1))
  let ?s = "s\<lparr>recent_sds := ?f\<rparr>"
  let ?i = "status_increment ''duplicateBrewSmsFrames'' ((bio s)\<lparr>attempts := attempts (bio s) + 1,
      sent := sent (bio s) @ [sds_report uuid]\<rparr>)"
  have "deliver_sds ck uuid p text s = (Inr (), ?s\<lparr>bio := ?i\<rparr>)"
    using old assms(1)
    by (simp add: deliver_sds_def Let_def send_report_online del: set_dict_filter)
  then show thesis using assms(1) by (intro that [where i = ?i and d = ?f]) simp_all
qed

definition sds_message :: "bytes \<Rightarrow> int \<Rightarrow> int \<Rightarrow> utext \<Rightarrow> int \<Rightarrow> py_error + bytes list" where
  "sds_message uuid source destination text r =
     bindE (build_brew_short_transfer uuid source destination) (\<lambda>h.
     bindE (build_text_sds_type4_pdu text r) (\<lambda>payload.
     bindE (build_brew_sds_transfer uuid payload) (\<lambda>f. Inr [h, f])))"

lemma bindA_last: "bindA m (forA [] body) = m"
  by (auto simp: bindA_def fun_eq_iff split: prod.splits sum.splits)

lemma message_arrives:
  assumes "sds_message uuid source destination text r = Inr msgs" "length uuid = 16" "bridge_ok s"
    "destination \<in> local_issis s" "sms_command_dir cfg = Some dir" "list_all scalar text" "text \<noteq> []" "tidy text = text"
  obtains p i where "forA msgs (\<lambda>f _. on_brew_binary lib cm readable cfg ck f) () s =
      deliver_sds ck uuid p text (s\<lparr>bio := i, pending_sds := AList.delete uuid (dict_filter (\<lambda>p. mono ck - sds_received_at p < 30)
        (AList.update uuid p (dict_filter (\<lambda>p. mono ck - sds_received_at p < 30) (pending_sds s))))\<rparr>)"
    "sds_source p = source" "sds_destination p = destination" "sds_received_at p = mono ck"
    "i = status_increment ''brewSmsHeadersReceived'' (bio s)"
proof -
  obtain h payload f where fr: "msgs = [h, f]" "build_brew_short_transfer uuid source destination = Inr h"
    "build_text_sds_type4_pdu text r = Inr payload" "build_brew_sds_transfer uuid payload = Inr f"
    using assms(1) by (auto simp: sds_message_def bindE_eq_Inr)
  have parse: "parse_text_sds_type4_pdu cm payload (Some (8 * int (length payload))) = Inr (Some text)"
    using sds_text_built [OF assms(6), of r cm] fr(3) assms(7,8) by auto
  let ?p = "\<lparr>sds_source = source, sds_destination = destination, sds_received_at = mono ck\<rparr>"
  let ?i = "status_increment ''brewSmsHeadersReceived'' (bio s)"
  let ?s = "s\<lparr>pending_sds := AList.update uuid ?p (dict_filter (\<lambda>p. mono ck - sds_received_at p < 30) (pending_sds s)),
      bio := ?i\<rparr>"
  have pend: "map_of (pending_sds ?s) uuid = Some ?p" "dict_ok (pending_sds ?s)"
    "sds_destination ?p \<in> local_issis ?s" "mono ck - sds_received_at ?p < 30"
    using bridge_okD(4) [OF assms(3)] assms(4) by simp_all
  show thesis
    by (rule that [of ?p ?i])
      (simp_all add: bindA_last fr(1) short_transfer_effect [OF fr(2) assms(2)]
        sds_transfer_effect [OF fr(4) assms(2) pend(1,2,4,3) assms(5) parse])
qed

text \<open>C4: a text message for a local radio is handed to P25 exactly once and acknowledged every time:
  the header and transfer write one file that names the sender, the radio and the UTF-8 text, and the
  same message sent again within a minute, under any session, writes nothing.\<close>

theorem sds_delivered_once:
  assumes "bridge_ok s" "online (bio s)" "destination \<in> local_issis s" "sms_command_dir cfg = Some dir"
    and "list_all scalar text" "text \<noteq> []" "tidy text = text"
    and "sds_message uuid source destination text r = Inr first" "length uuid = 16"
    and "sds_message uuid' source destination text r' = Inr again" "length uuid' = 16"
    and "(source, destination, text) \<notin> fst ` set (recent_sds s)"
    and "mono ck' < mono ck + 60"
  shows "\<exists>t u utf8. utf8_encode text = Inr utf8 \<and>
    forA first (\<lambda>f _. on_brew_binary lib cm readable cfg ck f) () s = (Inr (), t) \<and>
    outbox t = outbox s @ [(p25_file_name ck uuid, p25_message_file source destination utf8)] \<and>
    forA again (\<lambda>f _. on_brew_binary lib cm readable cfg ck' f) () t = (Inr (), u) \<and>
    outbox u = outbox t \<and> sent (bio u) = sent (bio s) @ [sds_report uuid, sds_report uuid']"
proof -
  have "list_all (\<lambda>c. \<not> surrogate c) text" using assms(5) by (auto simp: list_all_iff scalar_def)
  then obtain utf8 where utf8: "utf8_encode text = Inr utf8" by (simp add: utf8_encode_def)
  obtain p where p: "forA first (\<lambda>f _. on_brew_binary lib cm readable cfg ck f) () s =
      deliver_sds ck uuid p text (s\<lparr>bio := status_increment ''brewSmsHeadersReceived'' (bio s),
        pending_sds := AList.delete uuid (dict_filter (\<lambda>p. mono ck - sds_received_at p < 30)
        (AList.update uuid p (dict_filter (\<lambda>p. mono ck - sds_received_at p < 30) (pending_sds s))))\<rparr>)"
    "sds_source p = source" "sds_destination p = destination"
    by (rule message_arrives [OF assms(8,9,1,3-7), where lib = lib and cm = cm and readable = readable and ck = ck]) blast
  define v where "v = s\<lparr>bio := status_increment ''brewSmsHeadersReceived'' (bio s),
        pending_sds := AList.delete uuid (dict_filter (\<lambda>p. mono ck - sds_received_at p < 30)
        (AList.update uuid p (dict_filter (\<lambda>p. mono ck - sds_received_at p < 30) (pending_sds s))))\<rparr>"
  have v: "online (bio v)" "dict_ok (recent_sds v)" "map_of (recent_sds v) (sds_source p, sds_destination p, text) = None"
    using assms(2,12) p(2,3) bridge_okD(5) [OF assms(1)] by (simp_all add: v_def map_of_None_iff)
  have okv: "bridge_ok v" unfolding v_def
    by (rule bridge_ok_dicts(1)) (use assms(1) bridge_okD(4) [OF assms(1)] in simp_all)
  obtain i d where d: "deliver_sds ck uuid p text v = (Inr (), v\<lparr>bio := i, recent_sds := d,
      outbox := outbox v @ [(p25_file_name ck uuid, p25_message_file (sds_source p) (sds_destination p) utf8)]\<rparr>)"
    "online i" "sent i = sent (bio v) @ [sds_report uuid]"
    "dict_ok d" "map_of d (sds_source p, sds_destination p, text) = Some (mono ck + 60)"
    by (rule deliver_fresh [OF v(1) utf8 v(2), where p = p and ck = ck]) (use v(3) bridge_ok_disk [OF okv] in \<open>auto\<close>)
  define t where "t = v\<lparr>bio := i, recent_sds := d,
      outbox := outbox v @ [(p25_file_name ck uuid, p25_message_file (sds_source p) (sds_destination p) utf8)]\<rparr>"
  have t: "bridge_ok t" unfolding t_def bridge_ok_upd by (intro bridge_ok_dicts) (simp_all add: okv d(4))
  have lt: "destination \<in> local_issis t" "online (bio t)" using assms(3) d(2) by (simp_all add: t_def v_def)
  obtain q where q: "forA again (\<lambda>f _. on_brew_binary lib cm readable cfg ck' f) () t =
      deliver_sds ck' uuid' q text (t\<lparr>bio := status_increment ''brewSmsHeadersReceived'' (bio t),
        pending_sds := AList.delete uuid' (dict_filter (\<lambda>p. mono ck' - sds_received_at p < 30)
        (AList.update uuid' q (dict_filter (\<lambda>p. mono ck' - sds_received_at p < 30) (pending_sds t))))\<rparr>)"
    "sds_source q = source" "sds_destination q = destination"
    by (rule message_arrives [OF assms(10,11) t lt(1) assms(4-7), where lib = lib and cm = cm and readable = readable and ck = ck']) blast
  define w where "w = t\<lparr>bio := status_increment ''brewSmsHeadersReceived'' (bio t),
        pending_sds := AList.delete uuid' (dict_filter (\<lambda>p. mono ck' - sds_received_at p < 30)
        (AList.update uuid' q (dict_filter (\<lambda>p. mono ck' - sds_received_at p < 30) (pending_sds t))))\<rparr>"
  have w: "online (bio w)" "dict_ok (recent_sds w)"
    "map_of (recent_sds w) (sds_source q, sds_destination q, text) = Some (mono ck + 60)"
    using lt(2) d(4,5) p(2,3) q(2,3) by (simp_all add: w_def t_def)
  obtain j e where e: "deliver_sds ck' uuid' q text w = (Inr (), w\<lparr>bio := j, recent_sds := e\<rparr>)"
    "online j" "sent j = sent (bio w) @ [sds_report uuid']"
    by (rule deliver_again [OF w assms(13)])
  show ?thesis
    by (intro exI [of _ t] exI [of _ "w\<lparr>bio := j, recent_sds := e\<rparr>"] exI [of _ utf8] conjI utf8)
      (use p q d(1,3) e(1,3) in \<open>simp_all add: v_def [symmetric] w_def [symmetric] t_def [symmetric]\<close>,
       simp_all add: t_def v_def w_def p d)
qed

theorem sds_delivered_once_witness:
  "\<exists>cfg first again t u. audio_config_load example_env ''audio.json'' (PDict example_raw) = Inr cfg \<and>
     sds_message (replicate 16 1) 42 7 [72, 105] 1 = Inr first \<and>
     sds_message (replicate 16 2) 42 7 [72, 105] 2 = Inr again \<and>
     forA first (\<lambda>f _. on_brew_binary example_lib (\<lambda>_ _. None) (\<lambda>_. []) (cfg\<lparr>sms_command_dir := Some ''sms''\<rparr>)
       example_clock f) () example_bridge = (Inr (), t) \<and>
     forA again (\<lambda>f _. on_brew_binary example_lib (\<lambda>_ _. None) (\<lambda>_. []) (cfg\<lparr>sms_command_dir := Some ''sms''\<rparr>)
       (example_clock\<lparr>mono := 159\<rparr>) f) () t = (Inr (), u) \<and> length (outbox u) = 1"
proof -
  obtain cfg where cfg: "audio_config_load example_env ''audio.json'' (PDict example_raw) = Inr cfg"
    using example_loads by blast
  let ?cfg = "cfg\<lparr>sms_command_dir := Some ''sms''\<rparr>"
  have enc: "utf16_encode [72, 105] = Inr [0, 72, 0, 105]"
    by (simp add: utf16_encode_def utf16_units_def surrogate_def be_bytes_def)
  obtain first where f: "sds_message (replicate 16 1) 42 7 [72, 105] 1 = Inr first"
    by (simp add: sds_message_def build_text_sds_bytes [OF enc] build_brew_short_transfer_def
        build_brew_sds_transfer_def to_bytes_le_def)
  obtain again where g: "sds_message (replicate 16 2) 42 7 [72, 105] 2 = Inr again"
    by (simp add: sds_message_def build_text_sds_bytes [OF enc] build_brew_short_transfer_def
        build_brew_sds_transfer_def to_bytes_le_def)
  have st: "online (bio example_bridge)" "7 \<in> local_issis example_bridge" "sms_command_dir ?cfg = Some ''sms''"
    "(42, 7, [72, 105]) \<notin> fst ` set (recent_sds example_bridge)" "outbox example_bridge = []"
    using example_ok(3) by (simp_all add: example_bridge_def core.defs example_core_def)
  have tx: "list_all scalar [72, 105]" "[72, 105] \<noteq> ([] :: utext)" "tidy [72, 105] = [72, 105]"
    by (simp_all add: scalar_def surrogate_def tidy_def strip_by_def lstrip_by_def rstrip_by_def is_uspace_def)
  have l: "length (replicate 16 (1 :: byte)) = 16" "length (replicate 16 (2 :: byte)) = 16" by simp_all
  have ck: "mono (example_clock\<lparr>mono := 159\<rparr>) < mono example_clock + 60" by (simp add: example_clock_def)
  from sds_delivered_once [OF example_bridge_ok st(1-3) tx f l(1) g l(2) st(4) ck, of example_lib "\<lambda>_ _. None" "\<lambda>_. []"]
  show ?thesis using cfg f g st(5) by auto
qed

section \<open>Commands\<close>

lemma ensure_online:
  assumes "core_ok s" "clock_ok ck" "online (bio s)" "in_24bit issi"
  obtains t where "ensure_local_issi ck issi False s = (Inr (), t)" "core_ok t" "settled s t" "online (bio t)"
    "local_issis t = insert issi (local_issis s)"
    "sent (bio t) = sent (bio s) @ (if issi \<in> local_issis s then [] else
       [subscriber_frame ck SUBSCRIBER_REGISTER [] issi, subscriber_frame ck SUBSCRIBER_AFFILIATE (groups (brt s)) issi])"
proof -
  obtain t where t: "ensure_local_issi ck issi False s = (Inr (), t)" "core_ok t" "settled s t"
    "local_issis t = (if in_24bit issi then insert issi (local_issis s) else local_issis s)"
    by (rule ensure_effect [OF assms(1,2)])
  show thesis
  proof (cases "issi \<in> local_issis s")
    case True
    then have "t = s" using t(1) assms(4) by (simp add: ensure_local_issi_def)
    then show thesis using that t assms True by auto
  next
    case False
    let ?l = "insert issi (local_issis s)"
    let ?i = "status_set [(''localIssis'', ints_value (sorted_list_of_set ?l))]
      ((bio s)\<lparr>observed_file := Some (save_observed_issis ?l)\<rparr>)"
    have on: "online ?i" "connected ?i" using assms(3) by (simp_all add: online_def)
    have pk: "packable (groups (brt s))" by (rule core_okD(2) [OF assms(1)])
    have "online (bio t) \<and> sent (bio t) = sent (bio s) @
       [subscriber_frame ck SUBSCRIBER_REGISTER [] issi, subscriber_frame ck SUBSCRIBER_AFFILIATE (groups (brt s)) issi]"
      using t(1) False assms(4) on
      by (simp add: ensure_local_issi_def core_okD(8) [OF assms(1)] send_subscriber_online [OF assms(2) packable_Nil assms(4)]
          send_subscriber_online [OF assms(2) pk assms(4)]) (auto simp: online_def)
    then show thesis using that t assms(4) False by simp
  qed
qed

lemma sms_fields_valid: "sms_fields rep command = Inr (source, target, text) \<Longrightarrow> in_24bit source \<and> in_24bit target \<and> text \<noteq> []"
  by (auto simp: sms_fields_def bindE_eq_Inr Let_def split: if_splits)

lemma sms_command_sends:
  assumes "bridge_ok s" "online (bio s)" "clock_ok ck"
    and "map_of (command_files s) name = Some (Inr command)"
    and "sms_fields rep command = Inr (source, target, text)"
    and "sms_frames ck session source target text = Inr messages"
  shows "\<exists>t. process_sms_command rep ck session name s = (Inr True, t) \<and>
    sent (bio t) = sent (bio s) @ (if source \<in> local_issis s then [] else
      [subscriber_frame ck SUBSCRIBER_REGISTER [] source,
       subscriber_frame ck SUBSCRIBER_AFFILIATE (groups (brt s)) source]) @ messages \<and>
    map_of (result_files t) name = Some (sms_result ck session command) \<and>
    map_of (command_files t) = (map_of (command_files s))(name := None) \<and> source \<in> local_issis t"
proof -
  have v: "in_24bit source" using sms_fields_valid [OF assms(5)] by simp
  obtain t where t: "ensure_local_issi ck source False s = (Inr (), t)" "settled s t" "online (bio t)"
    "local_issis t = insert source (local_issis s)" "core_ok t"
    "sent (bio t) = sent (bio s) @ (if source \<in> local_issis s then [] else
       [subscriber_frame ck SUBSCRIBER_REGISTER [] source, subscriber_frame ck SUBSCRIBER_AFFILIATE (groups (brt s)) source])"
    by (rule ensure_online [OF bridge_okD(1) [OF assms(1)] assms(3,2) v])
  have more: "core.more t = core.more s" using t(2) by (simp add: settled_def)
  have send: "send_many messages i = (True, i\<lparr>attempts := attempts i + length messages, sent := sent i @ messages\<rparr>)"
    if "online i" for i
  proof -
    have "send_loop ms i = (True, i\<lparr>attempts := attempts i + length ms, sent := sent i @ ms\<rparr>)" if "net i = (\<lambda>_. None)" for ms i
      using that by (induction ms arbitrary: i) simp_all
    then show ?thesis using that by (simp add: send_many_def online_def)
  qed
  have con: "connected (bio s)" using assms(2) by (simp add: online_def)
  show ?thesis
    using con assms(4-6) t(1,4,6) core_okD(8) [OF t(5)] core_more_fields [OF more] send [OF t(3)]
    by (simp add: process_sms_command_def on_io_def)
qed

text \<open>A valid command goes out complete and once: the sender is registered first when it is new,
  then the header, the text and the release leave in this order with nothing in between, the result
  file records it as sent and the command file is gone.\<close>

theorem sms_command_sent:
  assumes "bridge_ok s" "online (bio s)" "clock_ok ck"
    and "map_of (command_files s) name = Some (Inr command)"
    and "sms_fields rep command = Inr (source, target, text)"
    and "sms_frames ck session source target text = Inr messages"
  shows "\<exists>t. process_sms_command rep ck session name s = (Inr True, t) \<and>
    sent (bio t) = sent (bio s) @ (if source \<in> local_issis s then [] else
      [subscriber_frame ck SUBSCRIBER_REGISTER [] source,
       subscriber_frame ck SUBSCRIBER_AFFILIATE (groups (brt s)) source]) @ messages \<and>
    map_of (result_files t) name = Some (sms_result ck session command) \<and>
    map_of (command_files t) = (map_of (command_files s))(name := None) \<and> source \<in> local_issis t"
  by (rule sms_command_sends [OF assms])

text \<open>A text too long for the 16 bit length field stops the whole command thread: framing it raises
  an exception that the loop does not catch, and the command stays in the directory, so that it stops
  the thread again after every restart.\<close>

theorem long_sms_stops_command_loop:
  assumes "bridge_ok s" "online (bio s)" "clock_ok ck"
    and "sort (map fst (command_files s)) = name # names" "map_of (command_files s) name = Some (Inr command)"
    and "sms_fields rep command = Inr (source, target, text)" "4094 \<le> length text"
  shows "\<exists>t. sms_command_tick rep ck session s = (Inl OverflowError, t) \<and>
    map_of (command_files t) name = Some (Inr command) \<and> result_files t = result_files s \<and> error_files t = error_files s"
proof -
  have v: "in_24bit source" "in_24bit target" using sms_fields_valid [OF assms(6)] by simp_all
  obtain t where t: "ensure_local_issi ck source False s = (Inr (), t)" "settled s t"
    by (rule ensure_online [OF bridge_okD(1) [OF assms(1)] assms(3,2) v(1)])
  have more: "core.more t = core.more s" using t(2) by (simp add: settled_def)
  have "list_all (\<lambda>c. c < 256) text"
    using assms(6) by (auto simp: sms_fields_def bindE_eq_Inr Let_def sms_text_def code_def list_all_iff split: if_splits)
  then obtain utf16 where e: "utf16_encode text = Inr utf16" "length utf16 = 2 * length text"
    by (rule latin_utf16)
  have fr: "sms_frames ck (session name) source target text = Inl OverflowError"
    using build_text_sds_bytes [OF e(1), of "ns ck div 10 ^ 6 mod 256"] e(2) assms(7) v
    by (simp add: sms_frames_def build_brew_short_transfer_def build_brew_sds_transfer_def to_bytes_le_def in_24bit_def)
  have con: "connected (bio s)" using assms(2) by (simp add: online_def)
  have "process_sms_command rep ck (session name) name s = (Inl OverflowError, t)"
    using con assms(5,6) t(1) fr by (simp add: process_sms_command_def)
  then have "sms_command_tick rep ck session s = (Inl OverflowError, t)"
    using assms(4) by (simp add: sms_command_tick_def catchA_def sms_caught_def)
  then show ?thesis using core_more_fields [OF more] assms(5) by simp
qed

definition example_command :: "string \<Rightarrow> pyval" where
  "example_command body = PDict [(''sourceRid'', PInt 42), (''targetRid'', PInt 5), (''text'', PStr body)]"

lemma example_command_fields:
  assumes "strip body = body" "body \<noteq> []"
  shows "sms_fields rep (example_command body) = Inr (42, 5, map code body)"
  using assms by (simp add: sms_fields_def example_command_def sms_text_def in_24bit_def Let_def)

definition example_command_bridge :: "string \<Rightarrow> bridge" where
  "example_command_bridge body = example_bridge\<lparr>command_files := [(''a.json'', Inr (example_command body))]\<rparr>"

lemma example_command_bridge_ok: "bridge_ok (example_command_bridge body)" "online (bio (example_command_bridge body))"
  using bridge_ok_dicts(3) [OF example_bridge_ok] example_ok(3)
  by (simp_all add: example_command_bridge_def dict_ok_def example_bridge_def core.defs)

theorem sms_command_sent_witness:
  "\<exists>messages t. sms_frames example_clock (replicate 16 3) 42 5 (map code ''Hi'') = Inr messages \<and>
     process_sms_command (\<lambda>_. []) example_clock (replicate 16 3) ''a.json'' (example_command_bridge ''Hi'') = (Inr True, t) \<and>
     command_files t = [] \<and> length (sent (bio t)) = 2 + length messages"
proof -
  let ?s = "example_command_bridge ''Hi''"
  have st: "strip ''Hi'' = ''Hi''"
    by (rule strip_by_id) (simp add: is_space_def code_def)
  have f: "sms_fields (\<lambda>_. []) (example_command ''Hi'') = Inr (42, 5, map code ''Hi'')"
    by (rule example_command_fields [OF st]) simp
  have enc: "utf16_encode (map code ''Hi'') = Inr [0, 72, 0, 105]"
    by (simp add: utf16_encode_def utf16_units_def surrogate_def be_bytes_def code_def)
  obtain messages where m: "sms_frames example_clock (replicate 16 3) 42 5 (map code ''Hi'') = Inr messages"
    by (simp add: sms_frames_def build_text_sds_bytes [OF enc] build_brew_short_transfer_def
        build_brew_sds_transfer_def build_brew_call_release_def to_bytes_le_def del: list.map)
  have cf: "map_of (command_files ?s) ''a.json'' = Some (Inr (example_command ''Hi''))"
    "command_files ?s = [(''a.json'', Inr (example_command ''Hi''))]"
    by (simp_all add: example_command_bridge_def)
  have loc: "42 \<notin> local_issis ?s" "sent (bio ?s) = []"
    by (simp_all add: example_command_bridge_def example_bridge_def core.defs example_core_def idle_io_def)
  obtain t where t: "process_sms_command (\<lambda>_. []) example_clock (replicate 16 3) ''a.json'' ?s = (Inr True, t)"
    "sent (bio t) = sent (bio ?s) @ (if 42 \<in> local_issis ?s then [] else
      [subscriber_frame example_clock SUBSCRIBER_REGISTER [] 42,
       subscriber_frame example_clock SUBSCRIBER_AFFILIATE (groups (brt ?s)) 42]) @ messages"
    "map_of (command_files t) = (map_of (command_files ?s))(''a.json'' := None)"
    using sms_command_sent [OF example_command_bridge_ok example_ok(2) cf(1) f m] by blast
  have "map_of (command_files t) = Map.empty" using t(3) cf(2) by (simp add: fun_eq_iff)
  then show ?thesis using m t(1,2) loc by simp
qed

theorem long_sms_stops_command_loop_witness:
  "\<exists>t. sms_command_tick (\<lambda>_. []) example_clock (\<lambda>_. replicate 16 3)
     (example_command_bridge (replicate 4094 CHR ''x'')) = (Inl OverflowError, t) \<and>
   map_of (command_files t) ''a.json'' = Some (Inr (example_command (replicate 4094 CHR ''x'')))"
proof -
  let ?b = "replicate 4094 CHR ''x''"
  let ?s = "example_command_bridge ?b"
  have ne: "?b \<noteq> []" by (simp only: replicate_empty)
  have "hd ?b = CHR ''x''" "last ?b = CHR ''x''" using ne by (metis hd_replicate replicate_empty, metis last_replicate replicate_empty)
  then have st: "strip ?b = ?b" by (intro strip_by_id) (simp add: is_space_def code_def)
  have f: "sms_fields (\<lambda>_. []) (example_command ?b) = Inr (42, 5, map code ?b)"
    by (rule example_command_fields [OF st ne])
  have cf: "map_of (command_files ?s) ''a.json'' = Some (Inr (example_command ?b))"
    "sort (map fst (command_files ?s)) = ''a.json'' # []"
    by (simp_all add: example_command_bridge_def)
  have l: "4094 \<le> length (map code ?b)" by (simp only: length_map length_replicate)
  from long_sms_stops_command_loop [OF example_command_bridge_ok example_ok(2) cf(2,1) f l]
  show ?thesis by blast
qed

end
