(* ===== verification/Sms_Config.thy ===== *)
theory Sms_Config
  imports Routing_Config
begin

text \<open>
  The configuration of the SMS bridge (\<^verbatim>\<open>tetrapack_brew_bridge.py\<close>): \<^verbatim>\<open>BrewConfig\<close>,
  \<^verbatim>\<open>BridgeConfig\<close>, \<^verbatim>\<open>load_config\<close>, \<^verbatim>\<open>load_runtime_bm_defaults\<close> and \<^verbatim>\<open>ensure_dirs\<close>. A
  \<^verbatim>\<open>pathlib.Path\<close> is its root flag with its parts. The host is a parameter: the environment
  variables, the YAML files that exist with what parsing them gives, whether the YAML package is
  installed and the text of values that are not strings.
\<close>

section \<open>Paths\<close>

type_synonym pypath = "bool \<times> string list"

primrec split_char :: "char \<Rightarrow> string \<Rightarrow> string list" where
  "split_char c [] = [[]]"
| "split_char c (x # xs) =
     (if x = c then [] # split_char c xs
      else case split_char c xs of [] \<Rightarrow> [[x]] | p # ps \<Rightarrow> (x # p) # ps)"

definition path_of :: "string \<Rightarrow> pypath" where
  "path_of s = (prefix ''/'' s, filter (\<lambda>p. p \<noteq> [] \<and> p \<noteq> ''.'') (split_char CHR ''/'' s))"

primrec join_with :: "string \<Rightarrow> string list \<Rightarrow> string" where
  "join_with sep [] = []"
| "join_with sep (x # xs) = (if xs = [] then x else x @ sep @ join_with sep xs)"

definition path_text :: "pypath \<Rightarrow> string" where
  "path_text p = (case p of (rooted, parts) \<Rightarrow>
     if parts = [] then (if rooted then ''/'' else ''.'')
     else (if rooted then ''/'' else []) @ join_with ''/'' parts)"

definition path_parent :: "pypath \<Rightarrow> pypath" where
  "path_parent p = (case p of (rooted, parts) \<Rightarrow> (rooted, butlast parts))"

definition path_join :: "pypath \<Rightarrow> string \<Rightarrow> pypath" where
  "path_join p name = (case path_of name of (True, parts) \<Rightarrow> (True, parts)
     | (False, parts) \<Rightarrow> (fst p, snd p @ parts))"

definition py_path :: "pyval \<Rightarrow> py_error + pypath" where
  "py_path v = (case v of PStr s \<Rightarrow> Inr (path_of s) | _ \<Rightarrow> Inl (TypeError ''Path''))"

section \<open>The configuration\<close>

record brew_config =
  brew_enabled :: bool
  base_url :: string
  username :: string
  password :: string
  brew_user_agent :: string
  request_timeout_seconds :: real

record bridge_config =
  inbox_dir :: pypath
  outbox_dir :: pypath
  processed_dir :: pypath
  error_dir :: pypath
  p25_outbox_dir :: pypath
  service_route_dir :: pypath
  brew_audio_outbox_dir :: "pypath option"
  poll_interval_seconds :: real
  service_route_max_age_seconds :: int
  local_loop_enabled :: bool
  brew_service_rids :: "int set"
  brandmeister_service_rids :: "int set"
  brew :: brew_config

record sms_host =
  environ :: "string \<Rightarrow> string option"
  yaml_files :: "string \<Rightarrow> (py_error + pyval) option"
  has_yaml :: bool
  host_repr :: "pyval \<Rightarrow> string"

definition env_get :: "sms_host \<Rightarrow> string \<Rightarrow> pyval" where
  "env_get h k = PStr (case environ h k of None \<Rightarrow> [] | Some v \<Rightarrow> v)"

definition bm_credentials :: "sms_host \<Rightarrow> pyval \<Rightarrow> py_error + (string \<times> string) option" where
  "bm_credentials h raw =
     bindE (py_get raw ''brandmeister'' (PDict [])) (\<lambda>bm.
     let brandmeister = py_or bm (PDict []) in
     bindE (py_get brandmeister ''username'' PNone) (\<lambda>u.
     bindE (py_get raw ''callsign'' PNone) (\<lambda>callsign.
     let name = py_or u (py_or callsign (env_get h ''CALLSIGN'')) in
     bindE (py_get brandmeister ''password'' (PStr [])) (\<lambda>secret.
     if truthy name \<or> truthy secret
     then Inr (Some (py_str (host_repr h) (py_or name (PStr [])), py_str (host_repr h) (py_or secret (PStr []))))
     else Inr None))))"

primrec bm_search :: "sms_host \<Rightarrow> pypath list \<Rightarrow> py_error + (string \<times> string) option" where
  "bm_search h [] = Inr None"
| "bm_search h (candidate # cs) =
     (case yaml_files h (path_text candidate) of
        None \<Rightarrow> bm_search h cs
      | Some content \<Rightarrow>
          if \<not> has_yaml h then bm_search h cs
          else case content of
              Inl e \<Rightarrow> bm_search h cs
            | Inr document \<Rightarrow>
                bindE (bm_credentials h (py_or document (PDict []))) (\<lambda>found.
                  case found of None \<Rightarrow> bm_search h cs | Some c \<Rightarrow> Inr (Some c)))"

definition load_runtime_bm_defaults :: "sms_host \<Rightarrow> pypath \<Rightarrow> py_error + (string \<times> string) option" where
  "load_runtime_bm_defaults h config_path = bm_search h
     ([path_join (path_parent config_path) ''quantarbridge.yml''] @
      (if 3 \<le> length (snd config_path)
       then [path_join (path_join (path_parent (path_parent (path_parent config_path))) ''runtime'') ''quantarbridge.yml'']
       else []) @
      [path_of ''/home/quantar/quantar-runtime/quantarbridge.yml''])"

definition path_entry :: "pyval \<Rightarrow> string \<Rightarrow> pypath \<Rightarrow> py_error + pypath" where
  "path_entry raw k dflt =
     bindE (py_get raw k PNone) (\<lambda>_. case py_item raw k of Inl e \<Rightarrow> Inr dflt | Inr v \<Rightarrow> py_path v)"

definition load_brew :: "sms_host \<Rightarrow> pyval \<Rightarrow> (string \<times> string) option \<Rightarrow> py_error + brew_config" where
  "load_brew h brew_raw fallback =
     (let text = py_str (host_repr h);
          credential = (\<lambda>own env1 env2 dflt. text (py_or own (py_or (env_get h env1) (py_or (env_get h env2) (PStr dflt)))))
      in
     bindE (py_get brew_raw ''enabled'' (PBool False)) (\<lambda>e.
     bindE (py_get brew_raw ''baseUrl'' (PStr ''https://core.tetrapack.online'')) (\<lambda>url.
     bindE (py_get brew_raw ''username'' PNone) (\<lambda>u.
     bindE (py_get brew_raw ''password'' PNone) (\<lambda>p.
     bindE (py_get brew_raw ''userAgent'' (PStr ''quantarbridge-sms/20260406'')) (\<lambda>agent.
     bindE (bindE (py_get brew_raw ''requestTimeoutSeconds'' (PFloat 10)) py_float) (\<lambda>timeout.
     Inr \<lparr>brew_enabled = truthy e, base_url = text url,
       username = credential u ''BREW_USERNAME'' ''BM_API_USERNAME'' (case fallback of None \<Rightarrow> [] | Some c \<Rightarrow> fst c),
       password = credential p ''BREW_PASSWORD'' ''BM_API_PASSWORD'' (case fallback of None \<Rightarrow> [] | Some c \<Rightarrow> snd c),
       brew_user_agent = text agent, request_timeout_seconds = timeout\<rparr>)))))))"

text \<open>The ids that are reached over BREW; \<^verbatim>\<open>brewTargetRids\<close> is the old name of the key.\<close>

definition brew_service_entry :: "pyval \<Rightarrow> py_error + pyval" where
  "brew_service_entry raw =
     bindE (py_get raw ''brewServiceRids'' PNone) (\<lambda>v.
       if v = PNone then py_get raw ''brewTargetRids'' (PList [PInt 262993]) else Inr v)"

definition load_config :: "sms_host \<Rightarrow> pypath \<Rightarrow> pyval \<Rightarrow> py_error + bridge_config" where
  "load_config h path raw =
     (let runtime = (\<lambda>name. path_of (''/home/quantar/quantar-runtime/sms/'' @ name)) in
     bindE (py_get raw ''brew'' (PDict [])) (\<lambda>section. let brew_raw = py_or section (PDict []) in
     bindE (brew_service_entry raw) (\<lambda>brew_rids.
     bindE (py_get raw ''brandmeisterServiceRids'' (PList [])) (\<lambda>bm_rids.
     bindE (load_runtime_bm_defaults h path) (\<lambda>fallback_runtime.
     bindE (path_entry raw ''outboxDir'' (runtime ''outbox'')) (\<lambda>outb.
     bindE (path_entry raw ''inboxDir'' (runtime ''inbox'')) (\<lambda>inb.
     bindE (path_entry raw ''processedDir'' (runtime ''processed'')) (\<lambda>processed.
     bindE (path_entry raw ''errorDir'' (runtime ''error'')) (\<lambda>err.
     bindE (path_entry raw ''p25OutboxDir'' (path_join (path_parent outb) ''p25-outbox'')) (\<lambda>p25.
     bindE (path_entry raw ''serviceRouteDir'' (path_join (path_parent outb) ''service-routes'')) (\<lambda>route.
     bindE (py_get raw ''brewAudioOutboxDir'' PNone) (\<lambda>v.
     bindE (if truthy v then bindE (py_path v) (\<lambda>p. Inr (Some p)) else Inr None) (\<lambda>audio.
     bindE (bindE (py_get raw ''pollIntervalSeconds'' (PFloat (1 / 4))) py_float) (\<lambda>poll.
     bindE (bindE (py_get raw ''serviceRouteMaxAgeSeconds'' (PInt 900)) py_int) (\<lambda>max_age.
     bindE (py_get raw ''localLoopEnabled'' (PBool False)) (\<lambda>loop.
     bindE (int_set brew_rids) (\<lambda>brew_set.
     bindE (int_set bm_rids) (\<lambda>bm_set.
     bindE (load_brew h brew_raw fallback_runtime) (\<lambda>b.
     Inr \<lparr>inbox_dir = inb, outbox_dir = outb, processed_dir = processed, error_dir = err,
       p25_outbox_dir = p25, service_route_dir = route, brew_audio_outbox_dir = audio,
       poll_interval_seconds = poll, service_route_max_age_seconds = max 60 max_age,
       local_loop_enabled = truthy loop, brew_service_rids = brew_set,
       brandmeister_service_rids = bm_set, brew = b\<rparr>)))))))))))))))))))"

text \<open>\<^verbatim>\<open>ensure_dirs\<close>; the result is the directories it creates, in order.\<close>

definition ensure_dirs :: "bridge_config \<Rightarrow> py_error + pypath list" where
  "ensure_dirs cfg =
     (let overlap = brew_service_rids cfg \<inter> brandmeister_service_rids cfg in
      if overlap \<noteq> {}
      then Inl (ValueError (''service RIDs cannot use BREW and BrandMeister simultaneously: '' @
             join_with '','' (map show_int (sorted_list_of_set overlap))))
      else Inr ([inbox_dir cfg, outbox_dir cfg, processed_dir cfg, error_dir cfg, p25_outbox_dir cfg,
             service_route_dir cfg] @ (case brew_audio_outbox_dir cfg of None \<Rightarrow> [] | Some d \<Rightarrow> [d])))"

section \<open>What a loaded configuration satisfies\<close>

lemma path_entry_eq:
  "path_entry (PDict d) k dflt = (case map_of d k of None \<Rightarrow> Inr dflt | Some v \<Rightarrow> py_path v)"
  by (simp add: path_entry_def split: option.splits)

lemma load_config_InrE:
  assumes "load_config h path raw = Inr cfg"
  obtains d b sect fallback where "raw = PDict d" "load_brew h (py_or sect (PDict [])) fallback = Inr b"
    "sect = dget d ''brew'' (PDict [])" "load_runtime_bm_defaults h path = Inr fallback"
    "brew cfg = b" "60 \<le> service_route_max_age_seconds cfg"
    "finite (brew_service_rids cfg)" "finite (brandmeister_service_rids cfg)"
    "path_entry (PDict d) ''p25OutboxDir'' (path_join (path_parent (outbox_dir cfg)) ''p25-outbox'') = Inr (p25_outbox_dir cfg)"
    "path_entry (PDict d) ''serviceRouteDir'' (path_join (path_parent (outbox_dir cfg)) ''service-routes'') = Inr (service_route_dir cfg)"
proof -
  obtain d where d: "raw = PDict d"
    using assms by (cases raw) (simp_all add: load_config_def)
  show thesis
    using assms unfolding load_config_def Let_def bindE_eq_Inr d
    by (auto simp: dget_def int_set_finite intro!: that [OF d])
qed

text \<open>A configuration the SMS bridge starts with routes every service in one way only: a service
  reached over BREW is not also reached over BrandMeister; service routes live a minute at least,
  every directory the bridge writes to is created first, and without entries of their own the
  P25 outbox and the service routes lie beside the outbox.\<close>

theorem sms_config_ok:
  assumes "load_config h path (PDict d) = Inr cfg" "ensure_dirs cfg = Inr dirs"
  shows "brew_service_rids cfg \<inter> brandmeister_service_rids cfg = {} \<and>
    60 \<le> service_route_max_age_seconds cfg \<and>
    {outbox_dir cfg, processed_dir cfg, error_dir cfg, p25_outbox_dir cfg, service_route_dir cfg} \<union>
      set_option (brew_audio_outbox_dir cfg) \<subseteq> set dirs \<and>
    (map_of d ''p25OutboxDir'' = None \<longrightarrow>
       p25_outbox_dir cfg = path_join (path_parent (outbox_dir cfg)) ''p25-outbox'') \<and>
    (map_of d ''serviceRouteDir'' = None \<longrightarrow>
       service_route_dir cfg = path_join (path_parent (outbox_dir cfg)) ''service-routes'')"
proof -
  have dirs: "brew_service_rids cfg \<inter> brandmeister_service_rids cfg = {}"
    "{outbox_dir cfg, processed_dir cfg, error_dir cfg, p25_outbox_dir cfg, service_route_dir cfg} \<union>
      set_option (brew_audio_outbox_dir cfg) \<subseteq> set dirs"
    using assms(2) by (auto simp: ensure_dirs_def Let_def split: if_splits option.splits)
  show ?thesis
    using dirs by (rule_tac load_config_InrE [OF assms(1)]) (auto simp: path_entry_eq)
qed

lemma py_get_dget: "py_get (PDict d) k dflt = Inr (dget d k dflt)"
  by (simp add: dget_def)

text \<open>The first non-empty text of a list; a chain of \<^verbatim>\<open>or\<close> over texts.\<close>

primrec first_text :: "string list \<Rightarrow> string" where
  "first_text [] = []"
| "first_text (x # xs) = (if x = [] then first_text xs else x)"

text \<open>The BREW account: a user name or password in the \<open>brew\<close> section wins over the environment,
  \<open>BREW_*\<close> over \<open>BM_API_*\<close>, and the account of \<^verbatim>\<open>quantarbridge.yml\<close> is used only when none of
  them is set.\<close>

theorem brew_account_precedence:
  assumes "load_brew h (PDict d) fallback = Inr b"
    and "map_of d ''username'' \<in> {None, Some (PStr own_name)}" "map_of d ''password'' \<in> {None, Some (PStr own_secret)}"
  shows "username b = first_text [if map_of d ''username'' = None then [] else own_name,
      case_option [] id (environ h ''BREW_USERNAME''), case_option [] id (environ h ''BM_API_USERNAME''),
      case_option [] fst fallback] \<and>
    password b = first_text [if map_of d ''password'' = None then [] else own_secret,
      case_option [] id (environ h ''BREW_PASSWORD''), case_option [] id (environ h ''BM_API_PASSWORD''),
      case_option [] snd fallback]"
proof -
  let ?c = "\<lambda>own env1 env2 dflt. py_str (host_repr h)
    (py_or own (py_or (env_get h env1) (py_or (env_get h env2) (PStr dflt))))"
  have chain: "?c own e1 e2 dflt = first_text [text, case_option [] id (environ h e1),
      case_option [] id (environ h e2), dflt]" if "own = PStr text \<or> own = PNone \<and> text = []" for own e1 e2 dflt "text"
    using that by (auto simp: py_or_def env_get_def split: option.splits)
  have u: "username b = ?c (dget d ''username'' PNone) ''BREW_USERNAME'' ''BM_API_USERNAME'' (case_option [] fst fallback)"
    and p: "password b = ?c (dget d ''password'' PNone) ''BREW_PASSWORD'' ''BM_API_PASSWORD'' (case_option [] snd fallback)"
    using assms(1) by (auto simp: load_brew_def Let_def bindE_eq_Inr py_get_dget simp del: py_get.simps)
  show ?thesis unfolding u p
    by (rule conjI; rule chain) (use assms(2,3) in \<open>auto simp: dget_def\<close>)
qed

definition example_host :: sms_host where
  "example_host = \<lparr>environ = [''BREW_USERNAME'' \<mapsto> ''2629930'', ''BREW_PASSWORD'' \<mapsto> ''pw''], yaml_files = (\<lambda>_. None),
     has_yaml = True, host_repr = (\<lambda>_. [])\<rparr>"

definition example_sms_doc :: "(string \<times> pyval) list" where
  "example_sms_doc = [(''outboxDir'', PStr ''/srv/sms/outbox''), (''brewServiceRids'', PList [PInt 262993]),
     (''brandmeisterServiceRids'', PList [PInt 262994]), (''localLoopEnabled'', PBool True),
     (''brewAudioOutboxDir'', PStr ''/srv/sms/brew-audio''), (''brew'', PDict [(''enabled'', PBool True)])]"

definition example_sms_cfg :: bridge_config where
  "example_sms_cfg = \<lparr>inbox_dir = (True, [''home'', ''quantar'', ''quantar-runtime'', ''sms'', ''inbox'']),
     outbox_dir = (True, [''srv'', ''sms'', ''outbox'']),
     processed_dir = (True, [''home'', ''quantar'', ''quantar-runtime'', ''sms'', ''processed'']),
     error_dir = (True, [''home'', ''quantar'', ''quantar-runtime'', ''sms'', ''error'']),
     p25_outbox_dir = (True, [''srv'', ''sms'', ''p25-outbox'']),
     service_route_dir = (True, [''srv'', ''sms'', ''service-routes'']),
     brew_audio_outbox_dir = Some (True, [''srv'', ''sms'', ''brew-audio'']),
     poll_interval_seconds = 1 / 4, service_route_max_age_seconds = 900, local_loop_enabled = True,
     brew_service_rids = {262993}, brandmeister_service_rids = {262994},
     brew = \<lparr>brew_enabled = True, base_url = ''https://core.tetrapack.online'', username = ''2629930'',
       password = ''pw'', brew_user_agent = ''quantarbridge-sms/20260406'', request_timeout_seconds = 10\<rparr>\<rparr>"

lemma example_sms_config:
  "load_config example_host (path_of ''/etc/qb/sms.json'') (PDict example_sms_doc) = Inr example_sms_cfg"
  "\<exists>dirs. ensure_dirs example_sms_cfg = Inr dirs"
  by (simp_all add: load_config_def example_host_def example_sms_doc_def path_entry_eq load_runtime_bm_defaults_def
      brew_service_entry_def load_brew_def int_set_def py_path_def path_of_def path_join_def path_parent_def
      path_text_def py_or_def env_get_def ensure_dirs_def Let_def example_sms_cfg_def)

theorem sms_config_ok_witness:
  "load_config example_host (path_of ''/etc/qb/sms.json'') (PDict example_sms_doc) = Inr example_sms_cfg \<and>
   p25_outbox_dir example_sms_cfg = (True, [''srv'', ''sms'', ''p25-outbox''])"
proof -
  obtain dirs where "ensure_dirs example_sms_cfg = Inr dirs" using example_sms_config(2) by blast
  from sms_config_ok [OF example_sms_config(1) this] example_sms_config(1) show ?thesis
    by (simp add: example_sms_doc_def path_join_def path_of_def path_parent_def example_sms_cfg_def)
qed

theorem brew_account_precedence_witness:
  "\<exists>b. load_brew example_host (PDict [(''password'', PStr ''own'')]) (Some (''F'', ''f'')) = Inr b \<and>
     username b = ''2629930'' \<and> password b = ''own''"
proof -
  obtain b where b: "load_brew example_host (PDict [(''password'', PStr ''own'')]) (Some (''F'', ''f'')) = Inr b"
    by (simp add: load_brew_def Let_def)
  from brew_account_precedence [OF b, of "[]" "''own''"] b show ?thesis by (simp add: example_host_def)
qed

end
