(* ===== verification/Sms_Bridge.thy ===== *)
theory Sms_Bridge
  imports Sms_Config Brew_Transport Sds_Pdu "HOL-Library.List_Lexorder" "HOL-Library.Char_ord"
begin

text \<open>
  The SMS bridge, \<^verbatim>\<open>tetrapack_brew_bridge.py\<close>: text events from the inbox are collected per pair of
  radios and, once quiet, go to the P25 outbox, to BREW or to the BrandMeister outbox. The state \<open>sms\<close> has the
  directories, the texts being collected and the WebSocket history. The inbox and the service
  routes are dictionaries by file name; the other directories are histories of what was written.
  An event file is what reading and parsing it gives. The record \<open>world\<close> is the outside: clock, random ids,
  the disk, HTTP and the WebSocket, asked by the number of the operation (\<open>ops\<close>), so that each
  operation can fail on its own. Writing a temporary file and renaming it is one operation.
\<close>

section \<open>State\<close>

datatype ws_message = WsBytes bytes | WsText string

record world =
  clk :: "nat \<Rightarrow> clock"
  fresh :: "nat \<Rightarrow> bytes"
  disk :: "nat \<Rightarrow> string option"
  http :: "nat \<Rightarrow> py_error + int \<times> string"
  ws_connect :: "nat \<Rightarrow> py_error option"
  ws_send :: "nat \<Rightarrow> py_error option"
  ws_recv :: "nat \<Rightarrow> ws_message list"
  str_of :: "pyval \<Rightarrow> string"
  exc_text :: "py_error \<Rightarrow> string"
  has_websocket :: bool
  has_requests :: bool

record pending_text =
  pt_source :: int
  pt_target :: int
  local_candidate :: bool
  first_seen :: real
  updated_at :: real
  fragments :: "string list"
  event_names :: "string list"

type_synonym doc = "(string \<times> pyval) list"

record sms =
  ops :: nat
  inbox_files :: "(string, py_error + pyval) pydict"
  processed_files :: "(string, py_error + pyval) pydict"
  rejected_files :: "(string, py_error + pyval) pydict"
  result_docs :: "(string \<times> doc) list"
  error_notes :: "(string \<times> string) list"
  outbox_docs :: "(string \<times> doc) list"
  p25_docs :: "(string \<times> string) list"
  audio_docs :: "(string \<times> doc) list"
  route_docs :: "(string, doc) pydict"
  pending_texts :: "(int \<times> int, pending_text) pydict"
  ws_open :: nat
  ws_sent :: "bytes list"

type_synonym 'a sms_act = "(sms, 'a) act"

definition now_at :: "world \<Rightarrow> sms \<Rightarrow> real" where "now_at w s = mono (clk w (ops s))"
definition ms_at :: "world \<Rightarrow> sms \<Rightarrow> int" where "ms_at w s = ns (clk w (ops s)) div 10 ^ 6"

definition step_op :: "(nat \<Rightarrow> py_error option) \<Rightarrow> (sms \<Rightarrow> sms) \<Rightarrow> unit sms_act" where
  "step_op fails f = (\<lambda>s. let s' = s\<lparr>ops := Suc (ops s)\<rparr> in
     case fails (ops s) of None \<Rightarrow> (Inr (), f s') | Some e \<Rightarrow> (Inl e, s'))"

definition disk_op :: "world \<Rightarrow> (sms \<Rightarrow> sms) \<Rightarrow> unit sms_act" where
  "disk_op w = step_op (\<lambda>n. map_option OSError (disk w n))"

text \<open>\<^verbatim>\<open>try ... finally\<close> with a clean-up that cannot fail, and the outcome of an action as a value.\<close>

definition finallyA :: "('s, 'a) act \<Rightarrow> ('s \<Rightarrow> 's) \<Rightarrow> ('s, 'a) act" where
  "finallyA m f = (\<lambda>s. case m s of (r, s') \<Rightarrow> (r, f s'))"

definition tryA :: "('s, 'a) act \<Rightarrow> ('s, py_error + 'a) act" where
  "tryA m = (\<lambda>s. case m s of (r, s') \<Rightarrow> (Inr r, s'))"

section \<open>Sending over an own BREW session\<close>

definition frame_value :: "brew_frame \<Rightarrow> pyval" where
  "frame_value frame = (case frame of
       TooShort bs \<Rightarrow> PDict [(''kind'', PStr ''binary''), (''hex'', PStr (hex_text bs)), (''error'', PStr ''too_short'')]
     | ParsedFrame r \<Rightarrow> PDict ([(''kind'', PStr (''0x'' @ hex_text [pf_kind r])),
           (''type'', PStr (''0x'' @ hex_text [pf_type r])), (''hex'', PStr (hex_text (pf_hex r)))] @
         (case pf_sessionId r of None \<Rightarrow> [] | Some u \<Rightarrow> [(''sessionId'', PStr (uuid_text u))]) @
         (case pf_lengthBits r of None \<Rightarrow> [] | Some n \<Rightarrow> [(''lengthBits'', PInt n)]) @
         (case pf_payloadHex r of None \<Rightarrow> [] | Some p \<Rightarrow> [(''payloadHex'', PStr (hex_text p))]) @
         (case pf_status r of None \<Rightarrow> [] | Some b \<Rightarrow> [(''status'', PInt (uint b))])))"

definition response_value :: "ws_message \<Rightarrow> pyval" where
  "response_value m = (case m of WsBytes bs \<Rightarrow> frame_value (parse_brew_frame bs)
     | WsText t \<Rightarrow> PDict [(''kind'', PStr ''text''), (''text'', PStr t)])"

definition collect_responses :: "world \<Rightarrow> pyval list sms_act" where
  "collect_responses w = readA (\<lambda>s.
     thenA (step_op (\<lambda>_. None) id) (ret (map response_value (ws_recv w (ops s)))))"

definition endpoint_answer :: "brew_config \<Rightarrow> int \<Rightarrow> string \<Rightarrow> py_error + string" where
  "endpoint_answer cfg status body =
     (if status \<in> {401, 403} then Inl AuthenticationError
      else if 400 \<le> status \<and> status < 600 then Inl (OSError ''HTTPError'')
      else case discover_endpoint (base_url cfg) body of
          Inr url \<Rightarrow> Inr url
        | Inl e \<Rightarrow> Inl (ValueError (''Unsupported BREW base URL: '' @ rstrip_by (\<lambda>c. c = CHR ''/'') (base_url cfg))))"

definition get_endpoint :: "world \<Rightarrow> brew_config \<Rightarrow> string sms_act" where
  "get_endpoint w cfg = readA (\<lambda>s.
     thenA (step_op (\<lambda>_. None) id)
       (liftE (bindE (http w (ops s)) (\<lambda>(status, body). endpoint_answer cfg status body))))"

definition ws_write :: "world \<Rightarrow> py_error + bytes \<Rightarrow> unit sms_act" where
  "ws_write w m = bindA (liftE m) (\<lambda>frame. step_op (ws_send w) (\<lambda>s. s\<lparr>ws_sent := ws_sent s @ [frame]\<rparr>))"

definition not_sent :: "brew_config \<Rightarrow> string \<Rightarrow> string \<Rightarrow> int \<Rightarrow> int \<Rightarrow> string \<Rightarrow> doc" where
  "not_sent cfg status reason source target body =
     [(''status'', PStr status), (''reason'', PStr reason), (''base_url'', PStr (base_url cfg)),
      (''sourceRid'', PInt source), (''targetRid'', PInt target), (''text'', PStr body)]"

definition ws_session :: "world \<Rightarrow> bytes \<Rightarrow> int \<Rightarrow> int \<Rightarrow> bytes \<Rightarrow> pyval list sms_act" where
  "ws_session w session source target payload =
     thenA (step_op (ws_connect w) (\<lambda>s. s\<lparr>ws_open := Suc (ws_open s)\<rparr>))
     (finallyA
       (thenA (ws_write w (build_brew_short_transfer session source target))
       (thenA (ws_write w (build_brew_sds_transfer session payload))
       (thenA (ws_write w (build_brew_call_release session 0))
         (collect_responses w))))
       (\<lambda>s. s\<lparr>ws_open := ws_open s - 1\<rparr>))"

definition brew_client_send_sms :: "world \<Rightarrow> brew_config \<Rightarrow> int \<Rightarrow> int \<Rightarrow> string \<Rightarrow> doc sms_act" where
  "brew_client_send_sms w cfg source target body =
     (if \<not> brew_enabled cfg then ret (not_sent cfg ''deferred'' ''brew_transport_not_enabled'' source target body)
      else if username cfg = [] \<or> password cfg = []
      then ret (not_sent cfg ''error'' ''missing_brew_credentials'' source target body)
      else if \<not> has_websocket w
      then ret (not_sent cfg ''error'' ''python_package_websocket_client_missing'' source target body)
      else if \<not> has_requests w
      then ret (not_sent cfg ''error'' ''python_package_requests_missing'' source target body)
      else readA (\<lambda>s. let message_reference = ms_at w s mod 256; session = fresh w (ops s) in
        bindA (liftE (build_text_sds_type4_pdu (map code body) message_reference)) (\<lambda>payload.
        bindA (get_endpoint w cfg) (\<lambda>endpoint.
        bindA (ws_session w session source target payload) (\<lambda>responses.
        ret [(''status'', PStr ''sent''), (''base_url'', PStr (base_url cfg)), (''endpoint'', PStr endpoint),
             (''sourceRid'', PInt source), (''targetRid'', PInt target), (''text'', PStr body),
             (''messageReference'', PInt message_reference), (''sessionId'', PStr (uuid_text session)),
             (''sdsType4Hex'', PStr (hex_text payload)), (''responses'', PList responses)])))))"

section \<open>Queueing for the audio worker\<close>

text \<open>\<^verbatim>\<open>f"{n:013d}"\<close> and \<^verbatim>\<open>uuid4().hex\<close>.\<close>

definition pad13 :: "int \<Rightarrow> string" where
  "pad13 n = (if n < 0 then ''-'' @ zero_fill 12 (show_nat (nat (- n))) else zero_fill 13 (show_nat (nat n)))"

definition uuid_hex :: "bytes \<Rightarrow> string" where
  "uuid_hex u = filter (\<lambda>c. c \<noteq> CHR ''-'') (uuid_text u)"

definition queue_command :: "string \<Rightarrow> int \<Rightarrow> int \<Rightarrow> int \<Rightarrow> string \<Rightarrow> doc" where
  "queue_command command_id created_at_ms source target body =
     [(''commandId'', PStr command_id), (''createdAtMs'', PInt created_at_ms), (''sourceRid'', PInt source),
      (''targetRid'', PInt target), (''text'', PStr body)]"

definition queue_client_send_sms :: "world \<Rightarrow> pypath \<Rightarrow> int \<Rightarrow> int \<Rightarrow> string \<Rightarrow> doc sms_act" where
  "queue_client_send_sms w dir source target body = readA (\<lambda>s.
     let created_at_ms = ms_at w s;
         command_id = pad13 created_at_ms @ ''-'' @ show_int source @ ''-'' @ show_int target @ ''-'' @
           uuid_hex (fresh w (ops s));
         name = command_id @ ''.json'' in
     thenA (disk_op w (\<lambda>s. s\<lparr>audio_docs := audio_docs s @
         [(name, queue_command command_id created_at_ms source target body)]\<rparr>))
       (ret [(''status'', PStr ''sent''), (''delivery'', PStr ''queued_on_active_brew_session''),
             (''commandId'', PStr command_id), (''commandPath'', PStr (path_text (path_join dir name))),
             (''sourceRid'', PInt source), (''targetRid'', PInt target), (''text'', PStr body)]))"

datatype sms_client = BrewClient brew_config | BrewAudioQueueClient pypath

fun send_sms :: "world \<Rightarrow> sms_client \<Rightarrow> int \<Rightarrow> int \<Rightarrow> string \<Rightarrow> doc sms_act" where
  "send_sms w (BrewClient cfg) source target body = brew_client_send_sms w cfg source target body"
| "send_sms w (BrewAudioQueueClient dir) source target body = queue_client_send_sms w dir source target body"

section \<open>Files for the other services\<close>

definition event_rids :: "doc \<Rightarrow> py_error + int \<times> int" where
  "event_rids ev =
     bindE (bindE (py_item (PDict ev) ''sourceRid'') py_int) (\<lambda>source.
     bindE (bindE (py_item (PDict ev) ''targetRid'') py_int) (\<lambda>target. Inr (source, target)))"

definition message_name :: "world \<Rightarrow> sms \<Rightarrow> doc \<Rightarrow> py_error + string" where
  "message_name w s ev =
     bindE (py_int (dget ev ''timestampMs'' (PInt (ms_at w s)))) (\<lambda>timestamp_ms.
     let session_id = map (\<lambda>c. if c = CHR ''/'' then CHR ''_'' else c)
           (py_str (str_of w) (dget ev ''sessionId'' (PStr (''sms-'' @ show_int timestamp_ms))))
     in Inr (show_int timestamp_ms @ ''_'' @ session_id))"

definition outbox_body :: "doc \<Rightarrow> int \<Rightarrow> int \<Rightarrow> string \<Rightarrow> bool \<Rightarrow> string \<Rightarrow> string \<Rightarrow> string \<Rightarrow> doc" where
  "outbox_body ev source target body local_only route channel raw_hex =
     [(''route'', PStr route), (''channel'', PStr channel),
      (''sourceRid'', PInt (if local_only then target else source)),
      (''targetRid'', PInt (if local_only then source else target)),
      (''origin'', PDict [(''sessionId'', dget ev ''sessionId'' PNone), (''application'', dget ev ''application'' PNone),
         (''sourceRid'', PInt source), (''targetRid'', PInt target), (''localLoop'', PBool local_only)])] @
     (if raw_hex \<noteq> [] then [(''rawIpPacketHex'', PStr raw_hex)]
      else if body \<noteq> [] then [(''text'', PStr body)] else []) @
     (if channel = ''tms'' \<and> raw_hex = [] \<and> map to_lower route \<notin> {''brandmeister'', ''bm''}
      then [(''sendArsFirst'', PBool True)] else [])"

definition write_outbox_message ::
  "world \<Rightarrow> bridge_config \<Rightarrow> doc \<Rightarrow> string \<Rightarrow> bool \<Rightarrow> string \<Rightarrow> string \<Rightarrow> string \<Rightarrow> string sms_act" where
  "write_outbox_message w cfg ev body local_only route channel raw_hex =
     bindA (liftE (event_rids ev)) (\<lambda>(source, target). readA (\<lambda>s.
     bindA (liftE (message_name w s ev)) (\<lambda>stem. let name = stem @ ''.json'' in
     thenA (disk_op w (\<lambda>s. s\<lparr>outbox_docs := outbox_docs s @
         [(name, outbox_body ev source target body local_only route channel raw_hex)]\<rparr>))
       (ret (path_text (path_join (outbox_dir cfg) name))))))"

definition p25_text_file :: "int \<Rightarrow> int \<Rightarrow> bytes \<Rightarrow> string" where
  "p25_text_file source target text_utf8 =
     ''sourceRid: '' @ show_int source @ [CHR 0x0A] @ ''targetRid: '' @ show_int target @ [CHR 0x0A] @
     ''textHex: '' @ [CHR 0x22] @ hex_text text_utf8 @ [CHR 0x22, CHR 0x0A]"

definition write_p25_outbox_message :: "world \<Rightarrow> bridge_config \<Rightarrow> doc \<Rightarrow> string \<Rightarrow> string sms_act" where
  "write_p25_outbox_message w cfg ev body =
     bindA (liftE (event_rids ev)) (\<lambda>(source, target). readA (\<lambda>s.
     bindA (liftE (message_name w s ev)) (\<lambda>stem. let name = stem @ ''.yaml'' in
     bindA (liftE (utf8_encode (map code body))) (\<lambda>utf8.
     thenA (disk_op w (\<lambda>s. s\<lparr>p25_docs := p25_docs s @ [(name, p25_text_file source target utf8)]\<rparr>))
       (ret (path_text (path_join (p25_outbox_dir cfg) name)))))))"

text \<open>\<^verbatim>\<open>write_service_route\<close> returns the name of the file in the route directory.\<close>

definition write_service_route :: "world \<Rightarrow> bridge_config \<Rightarrow> int \<Rightarrow> int \<Rightarrow> string sms_act" where
  "write_service_route w cfg requester service = readA (\<lambda>s.
     let created_at_ms = ms_at w s;
         name = pad13 created_at_ms @ ''-'' @ show_int service @ ''-'' @ show_int requester @ ''-'' @
           uuid_hex (fresh w (ops s)) @ ''.json'' in
     thenA (disk_op w (\<lambda>s. s\<lparr>route_docs := AList.update name
         [(''createdAtMs'', PInt created_at_ms),
          (''expiresAtMs'', PInt (created_at_ms + service_route_max_age_seconds cfg * 1000)),
          (''serviceRid'', PInt service), (''requesterRid'', PInt requester)] (route_docs s)\<rparr>))
       (ret name))"

definition unlink_route :: "world \<Rightarrow> string \<Rightarrow> unit sms_act" where
  "unlink_route w name = disk_op w (\<lambda>s. s\<lparr>route_docs := AList.delete name (route_docs s)\<rparr>)"

definition route_path :: "bridge_config \<Rightarrow> string \<Rightarrow> pyval" where
  "route_path cfg name = PStr (path_text (path_join (service_route_dir cfg) name))"

section \<open>Collecting text\<close>

text \<open>\<^verbatim>\<open>path.stem\<close> of a file name.\<close>

definition py_stem :: "string \<Rightarrow> string" where
  "py_stem name =
     (let tail = takeWhile (\<lambda>c. c \<noteq> CHR ''.'') (rev name); i = length name - length tail - 1
      in if CHR ''.'' \<in> set name \<and> 0 < i \<and> tail \<noteq> [] then take i name else name)"

definition normalize_event :: "bridge_config \<Rightarrow> string \<Rightarrow> pyval \<Rightarrow> py_error + doc" where
  "normalize_event cfg name document = (case document of
       PDict d \<Rightarrow> (let d1 = AList.update ''path'' (PStr (path_text (path_join (inbox_dir cfg) name))) d in
         Inr (AList.update ''sessionId'' (py_or (dget d1 ''sessionId'' PNone) (PStr (py_stem name))) d1))
     | _ \<Rightarrow> Inl (TypeError ''item assignment''))"

definition text_at :: "doc \<Rightarrow> string \<Rightarrow> string" where
  "text_at ev key = (case map_of ev key of Some (PStr t) \<Rightarrow> strip t | _ \<Rightarrow> [])"

definition choose_text :: "doc \<Rightarrow> string" where
  "choose_text ev = first_text (map (text_at ev) [''parsedText'', ''parsedTextFragment'', ''text''])"

definition add_fragment :: "string \<Rightarrow> string list \<Rightarrow> string list" where
  "add_fragment f fs = (if f = [] \<or> (\<exists>e \<in> set fs. f = e \<or> sublist f e) then fs else fs @ [f])"

definition append_text_fragment :: "real \<Rightarrow> pending_text \<Rightarrow> string \<Rightarrow> string \<Rightarrow> pending_text" where
  "append_text_fragment now p fragment event_name =
     (let f = strip fragment in
      if f = [] then p
      else if \<exists>existing \<in> set (fragments p). f = existing \<or> sublist f existing then p
      else p\<lparr>fragments := fragments p @ [f], event_names := event_names p @ [event_name], updated_at := now\<rparr>)"

definition new_pending_text :: "real \<Rightarrow> int \<Rightarrow> int \<Rightarrow> bool \<Rightarrow> pending_text" where
  "new_pending_text now source target local =
     \<lparr>pt_source = source, pt_target = target, local_candidate = local, first_seen = now, updated_at = now,
      fragments = [], event_names = []\<rparr>"

definition collect_text :: "world \<Rightarrow> int \<Rightarrow> int \<Rightarrow> bool \<Rightarrow> string \<Rightarrow> string \<Rightarrow> unit sms_act" where
  "collect_text w source target local body event_name = upd (\<lambda>s.
     let now = now_at w s;
         p = (case map_of (pending_texts s) (source, target) of
                None \<Rightarrow> new_pending_text now source target local | Some p \<Rightarrow> p)
     in s\<lparr>pending_texts := AList.update (source, target) (append_text_fragment now p body event_name) (pending_texts s)\<rparr>)"

section \<open>Sending a collected text\<close>

definition joined_text :: "pending_text \<Rightarrow> string" where
  "joined_text p = strip (concat (fragments p))"

definition synthetic_event :: "pending_text \<Rightarrow> doc" where
  "synthetic_event p =
     [(''application'', PStr ''motorola_tms''), (''sourceRid'', PInt (pt_source p)), (''targetRid'', PInt (pt_target p)),
      (''localDeliveryCandidate'', PBool (local_candidate p)),
      (''sessionId'', PStr (''collected-'' @ join_with ''-'' (take 2 (event_names p))))]"

definition fragments_value :: "pending_text \<Rightarrow> pyval" where
  "fragments_value p = PList (map PStr (fragments p))"

definition text_fields :: "pending_text \<Rightarrow> doc" where
  "text_fields p = [(''sourceRid'', PInt (pt_source p)), (''targetRid'', PInt (pt_target p)),
     (''text'', PStr (joined_text p)), (''fragments'', fragments_value p)]"

definition flush_brew :: "world \<Rightarrow> bridge_config \<Rightarrow> sms_client \<Rightarrow> pending_text \<Rightarrow> doc sms_act" where
  "flush_brew w cfg client p =
     bindA (write_service_route w cfg (pt_source p) (pt_target p)) (\<lambda>route.
     bindA (catchA (\<lambda>_. True) (send_sms w client (pt_source p) (pt_target p) (joined_text p))
              (\<lambda>e. thenA (unlink_route w route) (raiseA e))) (\<lambda>result.
     bindA (if map_of result ''status'' \<noteq> Some (PStr ''sent'')
            then thenA (unlink_route w route) (ret result)
            else ret (AList.update ''serviceRoutePath'' (route_path cfg route) result)) (\<lambda>result.
     ret (AList.update ''fragments'' (fragments_value p)
            (AList.update ''transport'' (PStr ''tetrapack_brew'') result)))))"

definition flush_pending_text :: "world \<Rightarrow> bridge_config \<Rightarrow> sms_client \<Rightarrow> pending_text \<Rightarrow> doc sms_act" where
  "flush_pending_text w cfg client p =
     (if local_candidate p \<and> local_loop_enabled cfg
      then bindA (write_p25_outbox_message w cfg (synthetic_event p) (joined_text p)) (\<lambda>path.
           ret ([(''status'', PStr ''queued''), (''transport'', PStr ''local_p25''), (''outboxPath'', PStr path)] @
             text_fields p))
      else if pt_target p \<in> brew_service_rids cfg
      then if \<not> brew_enabled (brew cfg)
           then ret ([(''status'', PStr ''held''), (''reason'', PStr ''brew_transport_not_enabled_for_service_target''),
                  (''transport'', PStr ''tetrapack_brew'')] @ text_fields p)
           else flush_brew w cfg client p
      else if pt_target p \<in> brandmeister_service_rids cfg
      then bindA (write_service_route w cfg (pt_source p) (pt_target p)) (\<lambda>route.
           bindA (write_outbox_message w cfg (synthetic_event p) (joined_text p) False ''brandmeister'' ''tms'' []) (\<lambda>path.
           ret ([(''status'', PStr ''queued''), (''transport'', PStr ''brandmeister_packet_data''),
                 (''outboxPath'', PStr path), (''serviceRoutePath'', route_path cfg route)] @ text_fields p)))
      else bindA (write_outbox_message w cfg (synthetic_event p) (joined_text p) False ''brandmeister'' ''tms'' []) (\<lambda>path.
           ret ([(''status'', PStr ''queued''), (''transport'', PStr ''brandmeister_packet_data''),
                 (''outboxPath'', PStr path)] @ text_fields p)))"

section \<open>Events from the inbox\<close>

definition record_result :: "world \<Rightarrow> string \<Rightarrow> doc \<Rightarrow> unit sms_act" where
  "record_result w name d = disk_op w (\<lambda>s. s\<lparr>result_docs := result_docs s @ [(name, d)]\<rparr>)"

text \<open>\<^verbatim>\<open>shutil.move\<close> out of the inbox.\<close>

definition move_file ::
  "world \<Rightarrow> (string \<Rightarrow> py_error + pyval \<Rightarrow> sms \<Rightarrow> sms) \<Rightarrow> string \<Rightarrow> unit sms_act" where
  "move_file w store name = readA (\<lambda>s. case map_of (inbox_files s) name of
       None \<Rightarrow> raiseA (OSError ''FileNotFoundError'')
     | Some file \<Rightarrow> disk_op w (\<lambda>s. store name file (s\<lparr>inbox_files := AList.delete name (inbox_files s)\<rparr>)))"

definition to_processed :: "string \<Rightarrow> py_error + pyval \<Rightarrow> sms \<Rightarrow> sms" where
  "to_processed name file s = s\<lparr>processed_files := AList.update name file (processed_files s)\<rparr>"

definition to_rejected :: "string \<Rightarrow> py_error + pyval \<Rightarrow> sms \<Rightarrow> sms" where
  "to_rejected name file s = s\<lparr>rejected_files := AList.update name file (rejected_files s)\<rparr>"

definition finish_event :: "world \<Rightarrow> string \<Rightarrow> doc \<Rightarrow> unit sms_act" where
  "finish_event w name result =
     thenA (record_result w (py_stem name @ ''.result.json'') result) (move_file w to_processed name)"

definition drop_event :: "world \<Rightarrow> string \<Rightarrow> doc \<Rightarrow> doc \<Rightarrow> doc \<Rightarrow> unit sms_act" where
  "drop_event w name ev before after =
     bindA (liftE (event_rids ev)) (\<lambda>(source, target).
       finish_event w name (before @ [(''sourceRid'', PInt source), (''targetRid'', PInt target)] @ after))"

definition raw_packet :: "doc \<Rightarrow> string" where
  "raw_packet ev = (case py_or (dget ev ''rawIpPacketHex'' PNone) (dget ev ''hexIpPacket'' PNone) of
     PStr t \<Rightarrow> t | _ \<Rightarrow> [])"

definition process_location :: "world \<Rightarrow> bridge_config \<Rightarrow> string \<Rightarrow> doc \<Rightarrow> unit sms_act" where
  "process_location w cfg name ev =
     bindA (write_outbox_message w cfg ev [] False ''brandmeister'' ''lrrp'' (raw_packet ev)) (\<lambda>path.
       drop_event w name ev [(''status'', PStr ''queued''), (''transport'', PStr ''brandmeister_location_packet_data''),
         (''outboxPath'', PStr path)] [(''rawIpPacket'', PBool True)])"

definition process_text :: "world \<Rightarrow> string \<Rightarrow> doc \<Rightarrow> unit sms_act" where
  "process_text w name ev =
     bindA (liftE (event_rids ev)) (\<lambda>(source, target).
     thenA (collect_text w source target (truthy (dget ev ''localDeliveryCandidate'' (PBool False)))
              (choose_text ev) (py_stem name))
       (finish_event w name [(''status'', PStr ''pending_text_collection''), (''sourceRid'', PInt source),
          (''targetRid'', PInt target), (''textFragment'', PStr (choose_text ev))]))"

definition process_document :: "world \<Rightarrow> bridge_config \<Rightarrow> string \<Rightarrow> doc \<Rightarrow> unit sms_act" where
  "process_document w cfg name ev =
     (let app = dget ev ''application'' PNone; raw = raw_packet ev in
      if app = PStr ''motorola_lrrp'' \<and> raw \<noteq> [] then process_location w cfg name ev
      else if app \<in> {PStr ''motorola_tms_raw'', PStr ''motorola_ars_raw''} \<and> raw \<noteq> []
      then bindA (liftE (event_rids ev)) (\<lambda>(source, target).
           finish_event w name [(''status'', PStr ''dropped''),
             (''reason'', PStr ''raw_motorola_packet_data_is_not_forwarded_to_brandmeister''),
             (''rawIpPacket'', PBool True), (''sourceRid'', PInt source), (''targetRid'', PInt target)])
      else if app = PStr ''motorola_ars''
      then drop_event w name ev [(''status'', PStr ''dropped''),
             (''reason'', PStr ''ars_bootstrap_is_terminated_locally_until_tms_text_arrives'')] []
      else if app \<noteq> PStr ''motorola_tms'' \<or> choose_text ev = [] then move_file w to_processed name
      else process_text w name ev)"

definition process_event :: "world \<Rightarrow> bridge_config \<Rightarrow> string \<Rightarrow> unit sms_act" where
  "process_event w cfg name = readA (\<lambda>s.
     bindA (liftE (case map_of (inbox_files s) name of
                     None \<Rightarrow> Inl (OSError ''FileNotFoundError'')
                   | Some file \<Rightarrow> bindE file (normalize_event cfg name)))
       (process_document w cfg name))"

section \<open>The loop\<close>

definition failure_doc :: "world \<Rightarrow> string \<Rightarrow> string \<Rightarrow> py_error \<Rightarrow> pending_text \<Rightarrow> doc" where
  "failure_doc w status reason e p =
     [(''status'', PStr status), (''reason'', PStr reason), (''error'', PStr (exc_text w e)),
      (''sourceRid'', PInt (pt_source p)), (''targetRid'', PInt (pt_target p)), (''text'', PStr (concat (fragments p)))]"

definition text_result_name :: "world \<Rightarrow> sms \<Rightarrow> string \<Rightarrow> pending_text \<Rightarrow> string" where
  "text_result_name w s kind p = kind @ ''-'' @ show_int (ms_at w s) @ ''-'' @ show_int (pt_source p) @ ''-'' @
     show_int (pt_target p) @ ''.result.json''"

definition record_text_result :: "world \<Rightarrow> string \<Rightarrow> pending_text \<Rightarrow> doc \<Rightarrow> unit sms_act" where
  "record_text_result w kind p d = readA (\<lambda>s. record_result w (text_result_name w s kind p) d)"

definition drop_text :: "int \<times> int \<Rightarrow> unit sms_act" where
  "drop_text key = upd (\<lambda>s. s\<lparr>pending_texts := AList.delete key (pending_texts s)\<rparr>)"

definition flush_outcome ::
  "world \<Rightarrow> real \<Rightarrow> int \<times> int \<Rightarrow> pending_text \<Rightarrow> nat \<Rightarrow> py_error + doc \<Rightarrow> nat sms_act" where
  "flush_outcome w now key p processed r = (case r of
       Inr result \<Rightarrow>
         thenA (record_text_result w ''collected'' p result) (thenA (drop_text key) (ret (processed + 1)))
     | Inl e \<Rightarrow>
         if e = AuthenticationError
         then thenA (record_text_result w ''failed'' p (failure_doc w ''failed'' ''brew_authentication_rejected'' e p))
             (thenA (drop_text key) (ret (processed + 1)))
         else thenA (upd (\<lambda>s. s\<lparr>pending_texts := AList.update key (p\<lparr>first_seen := now, updated_at := now\<rparr>) (pending_texts s)\<rparr>))
             (thenA (record_text_result w ''retry'' p (failure_doc w ''retrying'' (exc_name e) e p))
             (ret processed)))"

definition flush_one ::
  "world \<Rightarrow> bridge_config \<Rightarrow> sms_client \<Rightarrow> bool \<Rightarrow> real \<Rightarrow> int \<times> int \<Rightarrow> nat \<Rightarrow> nat sms_act" where
  "flush_one w cfg client force now key processed = readA (\<lambda>s. case map_of (pending_texts s) key of
       None \<Rightarrow> ret processed
     | Some p \<Rightarrow>
         if fragments p = [] then thenA (drop_text key) (ret processed)
         else if \<not> force \<and> now - updated_at p < 5 \<and> now - first_seen p < 8 then ret processed
         else bindA (tryA (flush_pending_text w cfg client p)) (flush_outcome w now key p processed))"

definition flush_ready_texts :: "world \<Rightarrow> bridge_config \<Rightarrow> sms_client \<Rightarrow> bool \<Rightarrow> nat sms_act" where
  "flush_ready_texts w cfg client force = readA (\<lambda>s.
     forA (map fst (pending_texts s)) (flush_one w cfg client force (now_at w s)) 0)"

definition reject_event :: "world \<Rightarrow> string \<Rightarrow> py_error \<Rightarrow> unit sms_act" where
  "reject_event w name e =
     thenA (readA (\<lambda>s. if map_of (inbox_files s) name = None then ret () else move_file w to_rejected name))
       (disk_op w (\<lambda>s. s\<lparr>error_notes := error_notes s @
          [(py_stem name @ ''.error.txt'', exc_text w e @ [CHR 0x0A])]\<rparr>))"

definition inbox_names :: "sms \<Rightarrow> string list" where
  "inbox_names s = sort (filter (suffix ''.json'') (map fst (inbox_files s)))"

definition take_event :: "world \<Rightarrow> bridge_config \<Rightarrow> string \<Rightarrow> nat \<Rightarrow> nat sms_act" where
  "take_event w cfg name processed =
     catchA (\<lambda>_. True) (thenA (process_event w cfg name) (ret (processed + 1)))
       (\<lambda>e. thenA (reject_event w name e) (ret processed))"

definition run_once :: "world \<Rightarrow> bridge_config \<Rightarrow> sms_client \<Rightarrow> bool \<Rightarrow> nat sms_act" where
  "run_once w cfg client force_flush = readA (\<lambda>s.
     bindA (forA (inbox_names s) (take_event w cfg) 0) (\<lambda>processed.
     bindA (flush_ready_texts w cfg client force_flush) (\<lambda>n. ret (processed + n))))"

text \<open>\<^verbatim>\<open>main\<close>: the client it chooses, and its loop for a number of rounds.\<close>

definition choose_client :: "bridge_config \<Rightarrow> sms_client" where
  "choose_client cfg = (case brew_audio_outbox_dir cfg of
     Some dir \<Rightarrow> BrewAudioQueueClient dir | None \<Rightarrow> BrewClient (brew cfg))"

definition run_rounds :: "world \<Rightarrow> bridge_config \<Rightarrow> nat \<Rightarrow> unit sms_act" where
  "run_rounds w cfg n =
     forA (replicate n ()) (\<lambda>_ _. thenA (run_once w cfg (choose_client cfg) False) (ret ())) ()"

section \<open>Rules for the operations\<close>

lemma keeps_step_op:
  "(\<And>s. P s \<Longrightarrow> P (s\<lparr>ops := Suc (ops s)\<rparr>)) \<Longrightarrow> (\<And>s. P s \<Longrightarrow> P (f s)) \<Longrightarrow> keeps P (step_op fails f)"
  by (auto simp: keeps_def step_op_def Let_def split: option.splits)

lemma keeps_disk_op [act_rules]:
  "(\<And>s. P s \<Longrightarrow> P (s\<lparr>ops := Suc (ops s)\<rparr>)) \<Longrightarrow> (\<And>s. P s \<Longrightarrow> P (f s)) \<Longrightarrow> keeps P (disk_op w f)"
  unfolding disk_op_def by (rule keeps_step_op)

lemma keeps_finally [act_rules]: "keeps P m \<Longrightarrow> (\<And>s. P s \<Longrightarrow> P (f s)) \<Longrightarrow> keeps P (finallyA m f)"
  by (auto simp: keeps_def finallyA_def split: prod.splits)

lemma keeps_try [act_rules]: "keeps P m \<Longrightarrow> keeps P (tryA m)"
  by (auto simp: keeps_def tryA_def split: prod.splits)

lemma keeps_prod [act_rules]: "(\<And>a b. keeps P (f a b)) \<Longrightarrow> keeps P (case x of (a, b) \<Rightarrow> f a b)"
  by (cases x) simp

declare keeps_sum [act_rules]

lemmas sms_writes = write_service_route_def write_outbox_message_def write_p25_outbox_message_def unlink_route_def
  record_result_def record_text_result_def Let_def

lemmas sms_network = brew_client_send_sms_def queue_client_send_sms_def ws_session_def get_endpoint_def
  ws_write_def collect_responses_def Let_def

text \<open>The part of the state that sending leaves alone.\<close>

definition same_desk :: "sms \<Rightarrow> sms \<Rightarrow> bool" where
  "same_desk s t \<longleftrightarrow> inbox_files t = inbox_files s \<and> processed_files t = processed_files s \<and>
     rejected_files t = rejected_files s \<and> result_docs t = result_docs s \<and> pending_texts t = pending_texts s"

lemma same_desk_refl [simp]: "same_desk s s" by (simp add: same_desk_def)

lemma same_desk_upd [simp]:
  "same_desk s (t\<lparr>ops := n\<rparr>) = same_desk s t" "same_desk s (t\<lparr>outbox_docs := od\<rparr>) = same_desk s t"
  "same_desk s (t\<lparr>p25_docs := pd\<rparr>) = same_desk s t" "same_desk s (t\<lparr>audio_docs := od\<rparr>) = same_desk s t"
  "same_desk s (t\<lparr>route_docs := rd\<rparr>) = same_desk s t" "same_desk s (t\<lparr>ws_open := n\<rparr>) = same_desk s t"
  "same_desk s (t\<lparr>ws_sent := bs\<rparr>) = same_desk s t"
  by (simp_all add: same_desk_def)

lemma send_sms_desk [act_rules]: "keeps (same_desk s0) (send_sms w client source target body)"
proof (cases client)
  case (BrewClient cfg)
  show ?thesis unfolding BrewClient send_sms.simps sms_network by (intro act_rules keeps_step_op; simp)
next
  case (BrewAudioQueueClient dir)
  show ?thesis unfolding BrewAudioQueueClient send_sms.simps sms_network by (intro act_rules; simp)
qed

lemma flush_desk [act_rules]: "keeps (same_desk s0) (flush_pending_text w cfg client p)"
  unfolding flush_pending_text_def flush_brew_def sms_writes
  by (intro act_rules keeps_step_op; simp)

section \<open>No event is lost\<close>

definition kept :: "string \<Rightarrow> py_error + pyval \<Rightarrow> sms \<Rightarrow> bool" where
  "kept name file s \<longleftrightarrow> map_of (inbox_files s) name = Some file \<or>
     map_of (inbox_files s) name = None \<and>
       (map_of (processed_files s) name = Some file \<or> map_of (rejected_files s) name = Some file)"

lemma kept_desk: "same_desk s t \<Longrightarrow> kept name file t = kept name file s"
  by (simp add: kept_def same_desk_def)

lemma kept_upd [simp]:
  "kept name file (t\<lparr>ops := n\<rparr>) = kept name file t" "kept name file (t\<lparr>outbox_docs := od\<rparr>) = kept name file t"
  "kept name file (t\<lparr>result_docs := od\<rparr>) = kept name file t" "kept name file (t\<lparr>error_notes := en\<rparr>) = kept name file t"
  "kept name file (t\<lparr>pending_texts := pt\<rparr>) = kept name file t"
  by (simp_all add: kept_def)

lemma keeps_desk: "(\<And>s. keeps (same_desk s) m) \<Longrightarrow> keeps (kept name file) m"
  unfolding keeps_def using kept_desk same_desk_refl by blast

lemma move_kept:
  assumes "store = to_processed \<or> store = to_rejected"
  shows "keeps (kept name file) (move_file w store other)"
  unfolding keeps_def
proof (intro allI impI)
  fix s assume k: "kept name file s"
  then show "kept name file (snd (move_file w store other s))"
    using assms
    by (cases "other = name")
      (auto simp: move_file_def kept_def disk_op_def step_op_def to_processed_def to_rejected_def Let_def
        update_conv' delete_conv' split: option.splits)
qed

lemma take_event_kept: "keeps (kept name file) (take_event w cfg other n)"
  unfolding take_event_def process_event_def process_document_def process_location_def process_text_def drop_event_def
    finish_event_def reject_event_def sms_writes collect_text_def
  by (intro act_rules move_kept; simp)

lemma flush_ready_kept: "keeps (kept name file) (flush_ready_texts w cfg client force)"
proof -
  have "keeps (kept name file) (flush_outcome w now key p n r)" for now key p n r
    unfolding flush_outcome_def drop_text_def sms_writes by (intro act_rules; simp)
  then show ?thesis
    unfolding flush_ready_texts_def flush_one_def drop_text_def
    by (intro act_rules keeps_desk [OF flush_desk]; simp)
qed

text \<open>C7: no event is lost: whatever fails on the disk or in the network, and even when the pass is
  cut short by an error that escapes, an event file that was in the inbox is afterwards either still
  there, unchanged, or it has been moved, unchanged, to the processed or the error directory.\<close>

theorem events_kept:
  assumes "map_of (inbox_files s) name = Some file" "run_once w cfg client force s = (r, t)"
  shows "map_of (inbox_files t) name = Some file \<or>
    map_of (inbox_files t) name = None \<and>
      (map_of (processed_files t) name = Some file \<or> map_of (rejected_files t) name = Some file)"
proof -
  have "keeps (kept name file) (run_once w cfg client force)"
    unfolding run_once_def by (intro act_rules take_event_kept flush_ready_kept)
  from keepsD [OF this, of s] show ?thesis using assms by (simp add: kept_def)
qed

section \<open>No text is lost\<close>

text \<open>\<open>gives Q m\<close>: what \<open>m\<close> returns, if it returns, satisfies \<open>Q\<close>.\<close>

definition gives :: "('a \<Rightarrow> bool) \<Rightarrow> ('s, 'a) act \<Rightarrow> bool" where
  "gives Q m \<longleftrightarrow> (\<forall>s x t. m s = (Inr x, t) \<longrightarrow> Q x)"

named_theorems gives_rules \<open>rules about returned values\<close>

lemma gives_ret [gives_rules]: "Q x \<Longrightarrow> gives Q (ret x)"
  and gives_raise [gives_rules]: "gives Q (raiseA e)"
  by (simp_all add: gives_def)

lemma gives_bind: "gives R m \<Longrightarrow> (\<And>x. R x \<Longrightarrow> gives Q (f x)) \<Longrightarrow> gives Q (bindA m f)"
  by (fastforce simp: gives_def bindA_def split: prod.splits sum.splits)

lemma gives_any [gives_rules]: "(\<And>x. gives Q (f x)) \<Longrightarrow> gives Q (bindA m f)"
  by (rule gives_bind [of "\<lambda>_. True"]) (simp_all add: gives_def)

lemma gives_then [gives_rules]: "gives Q n \<Longrightarrow> gives Q (thenA m n)"
  by (simp add: thenA_def gives_any)

lemma gives_read [gives_rules]: "(\<And>s. gives Q (f s)) \<Longrightarrow> gives Q (readA f)"
  by (simp add: gives_def)

lemma gives_if [gives_rules]: "(b \<Longrightarrow> gives Q m) \<Longrightarrow> (\<not> b \<Longrightarrow> gives Q n) \<Longrightarrow> gives Q (if b then m else n)"
  by simp

lemma gives_catch: "gives Q m \<Longrightarrow> (\<And>e. gives Q (h e)) \<Longrightarrow> gives Q (catchA p m h)"
  by (fastforce simp: gives_def catchA_def split: prod.splits sum.splits if_splits)

text \<open>\<open>about p body d\<close>: the document \<open>d\<close> is about the text of \<open>p\<close>, and says what became of it (not only that it will be
  tried again).\<close>

definition about :: "pending_text \<Rightarrow> string \<Rightarrow> doc \<Rightarrow> bool" where
  "about p body d \<longleftrightarrow> map_of d ''sourceRid'' = Some (PInt (pt_source p)) \<and>
     map_of d ''targetRid'' = Some (PInt (pt_target p)) \<and> map_of d ''text'' = Some (PStr body) \<and>
     map_of d ''status'' \<noteq> Some (PStr ''retrying'')"

lemma about_upd [simp]:
  "about p body (AList.update ''serviceRoutePath'' v d) = about p body d"
  "about p body (AList.update ''transport'' v d) = about p body d"
  "about p body (AList.update ''fragments'' v d) = about p body d"
  by (simp_all add: about_def update_conv')

lemma send_sms_about: "gives (about p body) (send_sms w client (pt_source p) (pt_target p) body)"
proof (cases client)
  case (BrewClient cfg)
  show ?thesis unfolding BrewClient send_sms.simps brew_client_send_sms_def Let_def not_sent_def
    by (intro gives_rules) (simp_all add: about_def)
next
  case (BrewAudioQueueClient dir)
  show ?thesis unfolding BrewAudioQueueClient send_sms.simps queue_client_send_sms_def Let_def
    by (intro gives_rules) (simp_all add: about_def)
qed

lemma flush_about: "gives (about p (joined_text p)) (flush_pending_text w cfg client p)"
proof -
  have "gives (about p (joined_text p)) (flush_brew w cfg client p)"
    unfolding flush_brew_def
  proof (rule gives_any, rule gives_bind [where R = "about p (joined_text p)"])
    show "gives (about p (joined_text p)) (catchA (\<lambda>_. True) (send_sms w client (pt_source p) (pt_target p) (joined_text p))
        (\<lambda>e. thenA (unlink_route w route) (raiseA e)))" for route
      by (intro gives_catch send_sms_about gives_rules)
    fix route r assume "about p (joined_text p) r"
    then show "gives (about p (joined_text p)) (bindA (if map_of r ''status'' \<noteq> Some (PStr ''sent'')
          then thenA (unlink_route w route) (ret r)
          else ret (AList.update ''serviceRoutePath'' (route_path cfg route) r))
        (\<lambda>result. ret (AList.update ''fragments'' (fragments_value p)
            (AList.update ''transport'' (PStr ''tetrapack_brew'') result))))"
      by (intro gives_bind [where R = "about p (joined_text p)"] gives_rules) simp_all
  qed
  then show ?thesis
    unfolding flush_pending_text_def
    by (intro gives_rules) (simp_all add: about_def text_fields_def)
qed

text \<open>\<open>held_or_settled key p n s\<close>: the text is still collected under \<open>key\<close>, with all its fragments and perhaps more, or a
  document about it was recorded after the first \<open>n\<close>.\<close>

definition settles :: "pending_text \<Rightarrow> doc \<Rightarrow> bool" where
  "settles p d \<longleftrightarrow> (\<exists>fs. prefix (fragments p) fs \<and> (about p (strip (concat fs)) d \<or> about p (concat fs) d))"

definition same_text :: "pending_text \<Rightarrow> pending_text \<Rightarrow> bool" where
  "same_text p q \<longleftrightarrow> prefix (fragments p) (fragments q) \<and> pt_source q = pt_source p \<and> pt_target q = pt_target p"

definition held_or_settled :: "int \<times> int \<Rightarrow> pending_text \<Rightarrow> nat \<Rightarrow> sms \<Rightarrow> bool" where
  "held_or_settled key p n s \<longleftrightarrow> n \<le> length (result_docs s) \<and>
     ((\<exists>q. map_of (pending_texts s) key = Some q \<and> same_text p q) \<or>
      (\<exists>name d. (name, d) \<in> set (drop n (result_docs s)) \<and> settles p d))"

lemma settles_same: "same_text p q \<Longrightarrow> settles q d \<Longrightarrow> settles p d"
  unfolding same_text_def settles_def about_def by (metis prefix_order.trans)

lemma hos_upd [simp]:
  "held_or_settled key p n (s\<lparr>ops := m\<rparr>) = held_or_settled key p n s"
  "held_or_settled key p n (s\<lparr>inbox_files := fs\<rparr>) = held_or_settled key p n s"
  "held_or_settled key p n (s\<lparr>processed_files := fs\<rparr>) = held_or_settled key p n s"
  "held_or_settled key p n (s\<lparr>rejected_files := fs\<rparr>) = held_or_settled key p n s"
  "held_or_settled key p n (s\<lparr>error_notes := en\<rparr>) = held_or_settled key p n s"
  "held_or_settled key p n (s\<lparr>outbox_docs := od\<rparr>) = held_or_settled key p n s"
  by (simp_all add: held_or_settled_def)

lemma hos_record: "held_or_settled key p n s \<Longrightarrow> held_or_settled key p n (s\<lparr>result_docs := result_docs s @ [r]\<rparr>)"
  by (auto simp: held_or_settled_def)

lemma hos_retry: "held_or_settled key p n (s\<lparr>pending_texts := pt\<rparr>) \<Longrightarrow>
    held_or_settled key p n (s\<lparr>pending_texts := pt, ops := m, result_docs := result_docs s @ [r]\<rparr>)"
  by (auto simp: held_or_settled_def)

lemma hos_desk: "same_desk s t \<Longrightarrow> held_or_settled key p n s \<Longrightarrow> held_or_settled key p n t"
  by (simp add: held_or_settled_def same_desk_def)

lemma record_cases:
  "record_text_result w kind p d s = (Inr (), s\<lparr>ops := Suc (ops s), result_docs := result_docs s @ [(text_result_name w s kind p, d)]\<rparr>) \<or>
   (\<exists>e. record_text_result w kind p d s = (Inl (OSError e), s\<lparr>ops := Suc (ops s)\<rparr>))"
  by (simp add: record_text_result_def record_result_def disk_op_def step_op_def Let_def split: option.splits)

lemma outcome_hos:
  assumes "held_or_settled key p n s" "map_of (pending_texts s) key' = Some q" "key' = key \<Longrightarrow> same_text p q"
    "case r of Inr d \<Rightarrow> about q (joined_text q) d | Inl e \<Rightarrow> True"
  shows "held_or_settled key p n (snd (flush_outcome w now key' q m r s))"
proof -
  have final: "held_or_settled key p n (snd (thenA (record_text_result w kind q d) (thenA (drop_text key') (ret k)) s))"
    if "settles q d" for kind d and k :: nat
    using record_cases [of w kind q d s]
  proof (elim disjE exE)
    assume "record_text_result w kind q d s =
      (Inr (), s\<lparr>ops := Suc (ops s), result_docs := result_docs s @ [(text_result_name w s kind q, d)]\<rparr>)"
    then show ?thesis
      using assms(1,3) that settles_same [of p q]
      by (cases "key' = key") (auto simp: drop_text_def delete_conv' held_or_settled_def)
  next
    fix e assume "record_text_result w kind q d s = (Inl (OSError e), s\<lparr>ops := Suc (ops s)\<rparr>)"
    then show ?thesis using assms(1) by simp
  qed
  show ?thesis
  proof (cases r)
    case (Inr d)
    then have "settles q d" using assms(4) unfolding settles_def joined_text_def by auto
    then show ?thesis using final Inr by (simp add: flush_outcome_def)
  next
    case (Inl e)
    show ?thesis
    proof (cases "e = AuthenticationError")
      case True
      have "settles q (failure_doc w ''failed'' ''brew_authentication_rejected'' e q)"
        unfolding settles_def by (intro exI [of _ "fragments q"]) (simp add: failure_doc_def about_def)
      then show ?thesis using final True Inl by (simp add: flush_outcome_def)
    next
      case False
      let ?s = "s\<lparr>pending_texts := AList.update key' (q\<lparr>first_seen := now, updated_at := now\<rparr>) (pending_texts s)\<rparr>"
      have "held_or_settled key p n ?s"
        using assms(1-3) by (cases "key' = key") (auto simp: held_or_settled_def update_conv' same_text_def)
      then show ?thesis
        using record_cases [of w "''retry''" q "failure_doc w ''retrying'' (exc_name e) e q" ?s] False Inl
        by (auto simp: flush_outcome_def intro: hos_retry)
    qed
  qed
qed

definition recorded :: "pending_text \<Rightarrow> nat \<Rightarrow> sms \<Rightarrow> bool" where
  "recorded p n s \<longleftrightarrow> n \<le> length (result_docs s) \<and> (\<exists>name d. (name, d) \<in> set (drop n (result_docs s)) \<and> settles p d)"

lemma recorded_upd [simp]:
  "recorded p n (s\<lparr>ops := m\<rparr>) = recorded p n s" "recorded p n (s\<lparr>pending_texts := pt\<rparr>) = recorded p n s"
  "recorded p n s \<Longrightarrow> recorded p n (s\<lparr>result_docs := result_docs s @ [r]\<rparr>)"
  by (auto simp: recorded_def)

lemma recorded_desk: "keeps (recorded p n) (flush_pending_text w cfg client q)"
  using keepsD [OF flush_desk same_desk_refl] by (auto simp: keeps_def recorded_def same_desk_def)

lemma flush_one_recorded: "keeps (recorded p n) (flush_one w cfg client force now key m)"
proof -
  have "keeps (recorded p n) (flush_outcome w now key q m r)" for q r
    unfolding flush_outcome_def drop_text_def sms_writes by (intro act_rules; simp)
  then show ?thesis
    unfolding flush_one_def drop_text_def by (intro act_rules recorded_desk; simp)
qed

lemma hos_cases: "held_or_settled key p n s \<longleftrightarrow> recorded p n s \<or>
    n \<le> length (result_docs s) \<and> (\<exists>q. map_of (pending_texts s) key = Some q \<and> same_text p q)"
  by (auto simp: held_or_settled_def recorded_def)

lemma flush_one_hos:
  assumes "fragments p \<noteq> []"
  shows "keeps (held_or_settled key p n) (flush_one w cfg client force now key' m)"
  unfolding keeps_def
proof (intro allI impI)
  fix s assume h: "held_or_settled key p n s"
  show "held_or_settled key p n (snd (flush_one w cfg client force now key' m s))"
  proof (cases "recorded p n s")
    case True
    then show ?thesis using keepsD [OF flush_one_recorded] hos_cases by blast
  next
    case False
    then obtain p' where pend: "map_of (pending_texts s) key = Some p'" "same_text p p'" using h by (auto simp: hos_cases)
    show ?thesis
    proof (cases "map_of (pending_texts s) key'")
      case None
      then show ?thesis using h by (simp add: flush_one_def)
    next
      case (Some q)
      then have same: "key' = key \<Longrightarrow> same_text p q" using pend by auto
      obtain r u where run: "flush_pending_text w cfg client q s = (r, u)" by (rule prod.exhaust)
      have desk: "same_desk s u" using keepsD [OF flush_desk [of s w cfg client q] same_desk_refl] run by simp
      have "case r of Inr d \<Rightarrow> about q (joined_text q) d | Inl e \<Rightarrow> True"
        using flush_about [of q w cfg client] run by (auto simp: gives_def split: sum.splits)
      moreover have "map_of (pending_texts u) key' = Some q" using desk Some by (simp add: same_desk_def)
      ultimately have "held_or_settled key p n (snd (flush_outcome w now key' q m r u))"
        using same by (intro outcome_hos hos_desk [OF desk h])
      then have out: "held_or_settled key p n (snd (bindA (tryA (flush_pending_text w cfg client q)) (flush_outcome w now key' q m) s))"
        by (simp add: tryA_def run)
      have drop: "held_or_settled key p n (snd (thenA (drop_text key') (ret m) s))" if "fragments q = []"
        using that same assms h pend by (auto simp: drop_text_def held_or_settled_def delete_conv' same_text_def)
      show ?thesis using Some out drop h by (simp add: flush_one_def)
    qed
  qed
qed

lemma take_event_hos: "keeps (held_or_settled key p n) (take_event w cfg name m)"
proof -
  have c: "held_or_settled key p n (s\<lparr>pending_texts := AList.update k (append_text_fragment now
      (case map_of (pending_texts s) k of None \<Rightarrow> q | Some p \<Rightarrow> p) body ev) (pending_texts s)\<rparr>)"
    if "held_or_settled key p n s" for s k now q body ev
  proof -
    have "prefix fs (fragments (append_text_fragment now q' body ev))" if "prefix fs (fragments q')" for fs q'
      using that by (auto simp: append_text_fragment_def Let_def)
    moreover have "pt_source (append_text_fragment now q' body ev) = pt_source q'"
      "pt_target (append_text_fragment now q' body ev) = pt_target q'" for q'
      by (simp_all add: append_text_fragment_def Let_def)
    ultimately show ?thesis using that
      by (cases "k = key") (auto simp: held_or_settled_def same_text_def update_conv')
  qed
  have m: "keeps (held_or_settled key p n) (move_file w store name)" if "store \<in> {to_processed, to_rejected}" for store
    unfolding move_file_def using that by (intro act_rules) (auto simp: to_processed_def to_rejected_def)
  show ?thesis
    unfolding take_event_def process_event_def process_document_def process_location_def process_text_def drop_event_def
      finish_event_def reject_event_def record_result_def write_outbox_message_def collect_text_def Let_def
    by (intro act_rules m; simp add: c hos_record)
qed

text \<open>Only a failing disk makes a pass raise: whatever goes wrong with an event or a message is caught.\<close>

definition raises_disk :: "world \<Rightarrow> ('s, 'a) act \<Rightarrow> bool" where
  "raises_disk w m \<longleftrightarrow> (\<forall>s e t. m s = (Inl e, t) \<longrightarrow> (\<exists>k x. world.disk w k = Some x \<and> e = OSError x))"

named_theorems raise_rules \<open>rules about raised errors\<close>

lemma raises_ret [raise_rules]: "raises_disk w (ret x)"
  and raises_upd [raise_rules]: "raises_disk w (upd f)"
  and raises_try [raise_rules]: "raises_disk w (tryA m)"
  by (auto simp: raises_disk_def tryA_def split: prod.splits)

lemma raises_bind [raise_rules]: "raises_disk w m \<Longrightarrow> (\<And>x. raises_disk w (f x)) \<Longrightarrow> raises_disk w (bindA m f)"
  by (fastforce simp: raises_disk_def bindA_def split: prod.splits sum.splits)

lemma raises_then [raise_rules]: "raises_disk w m \<Longrightarrow> raises_disk w n \<Longrightarrow> raises_disk w (thenA m n)"
  unfolding thenA_def by (rule raises_bind)

lemma raises_read [raise_rules]: "(\<And>s. raises_disk w (f s)) \<Longrightarrow> raises_disk w (readA f)"
  by (simp add: raises_disk_def)

lemma raises_if [raise_rules]: "raises_disk w m \<Longrightarrow> raises_disk w n \<Longrightarrow> raises_disk w (if b then m else n)"
  by simp

lemma raises_option [raise_rules]:
  "raises_disk w n \<Longrightarrow> (\<And>x. raises_disk w (f x)) \<Longrightarrow> raises_disk w (case r of None \<Rightarrow> n | Some x \<Rightarrow> f x)"
  by (simp split: option.split)

lemma raises_sum [raise_rules]:
  "(\<And>e. raises_disk w (f e)) \<Longrightarrow> (\<And>x. raises_disk w (g x)) \<Longrightarrow> raises_disk w (case r of Inl e \<Rightarrow> f e | Inr x \<Rightarrow> g x)"
  by (simp split: sum.split)

lemma raises_for [raise_rules]: "(\<And>x a. raises_disk w (body x a)) \<Longrightarrow> raises_disk w (forA xs body a)"
  by (induction xs arbitrary: a) (auto intro: raise_rules)

lemma raises_catch: "(\<And>e. raises_disk w (h e)) \<Longrightarrow> raises_disk w (catchA (\<lambda>_. True) m h)"
  by (fastforce simp: raises_disk_def catchA_def split: prod.splits sum.splits)

lemma raises_disk_op [raise_rules]: "raises_disk w (disk_op w f)"
  by (auto simp: raises_disk_def disk_op_def step_op_def Let_def split: option.splits)

lemma reject_raises: "raises_disk w (reject_event w name e)"
proof -
  have "raises_disk w (readA (\<lambda>s. if map_of (inbox_files s) name = None then ret () else move_file w to_rejected name))"
    using raises_disk_op [of w "\<lambda>s. f s" for f]
    by (auto simp: raises_disk_def move_file_def split: option.splits)
  then show ?thesis unfolding reject_event_def by (intro raises_then raises_disk_op)
qed

lemma run_once_raises: "raises_disk w (run_once w cfg client force)"
  unfolding run_once_def take_event_def flush_ready_texts_def flush_one_def flush_outcome_def drop_text_def
    record_text_result_def record_result_def
  by (intro raise_rules raises_catch reject_raises)

lemma rounds_raise: "raises_disk w (run_rounds w cfg n)"
  unfolding run_rounds_def by (intro raise_rules run_once_raises)

text \<open>The texts are only in the memory of the program. What is left of them when \<^verbatim>\<open>main\<close> has come to an end with an error,
  which it does not catch, is nothing.\<close>

definition texts_in_memory :: "(py_error + 'a) \<times> sms \<Rightarrow> ((int \<times> int) \<times> pending_text) list" where
  "texts_in_memory x = (case x of (Inl e, s) \<Rightarrow> [] | (Inr y, s) \<Rightarrow> pending_texts s)"

text \<open>C3: a running bridge loses no collected text, whatever fails in the events and in the sending: after any number of rounds
  of \<^verbatim>\<open>main\<close>, each text is still in memory with all its fragments (to which others may have been added), or a result file that says
  what became of it, with both radios and the text, has been written. The rounds end in one way only, a failing
  operation of the disk; then the program ends, and with it the texts that are still collected
  (\<^verbatim>\<open>full_disk_loses_text\<close>).\<close>

theorem text_never_lost:
  assumes "map_of (pending_texts s) key = Some p" "fragments p \<noteq> []" "run_rounds w cfg n s = (r, t)"
  shows "(\<exists>q. map_of (texts_in_memory (r, t)) key = Some q \<and> prefix (fragments p) (fragments q) \<and>
      pt_source q = pt_source p \<and> pt_target q = pt_target p) \<or>
    (\<exists>name d fs body. (name, d) \<in> set (drop (length (result_docs s)) (result_docs t)) \<and>
      prefix (fragments p) fs \<and> body \<in> {strip (concat fs), concat fs} \<and>
      map_of d ''sourceRid'' = Some (PInt (pt_source p)) \<and> map_of d ''targetRid'' = Some (PInt (pt_target p)) \<and>
      map_of d ''text'' = Some (PStr body) \<and> map_of d ''status'' \<noteq> Some (PStr ''retrying'')) \<or>
    (\<exists>k x. world.disk w k = Some x \<and> r = Inl (OSError x))"
proof (cases r)
  case (Inl e)
  then have "\<exists>k x. world.disk w k = Some x \<and> e = OSError x"
    using rounds_raise [of w cfg n] assms(3) unfolding raises_disk_def by blast
  then show ?thesis using Inl by blast
next
  case (Inr y)
  have "keeps (held_or_settled key p (length (result_docs s))) (run_rounds w cfg n)"
    unfolding run_rounds_def run_once_def flush_ready_texts_def
    by (intro act_rules flush_one_hos [OF assms(2)] take_event_hos)
  moreover have "held_or_settled key p (length (result_docs s)) s"
    using assms(1) by (simp add: held_or_settled_def same_text_def)
  ultimately have "held_or_settled key p (length (result_docs s)) t" using keepsD assms(3) by fastforce
  then consider (held) q where "map_of (pending_texts t) key = Some q" "same_text p q"
    | (settled) name d where "(name, d) \<in> set (drop (length (result_docs s)) (result_docs t))" "settles p d"
    unfolding held_or_settled_def by blast
  then show ?thesis
  proof cases
    case held
    then show ?thesis unfolding same_text_def texts_in_memory_def Inr by auto
  next
    case settled
    then obtain fs body where "prefix (fragments p) fs" "body \<in> {strip (concat fs), concat fs}" "about p body d"
      unfolding settles_def by blast
    then show ?thesis using settled(1) unfolding about_def by blast
  qed
qed

section \<open>An example\<close>

definition example_world :: world where
  "example_world = \<lparr>clk = (\<lambda>_. \<lparr>mono = 100, epoch = 1000, ns = 5000000, utc = ''now''\<rparr>), fresh = (\<lambda>_. replicate 16 1),
     disk = (\<lambda>_. None), http = (\<lambda>_. Inl (OSError ''ConnectionError'')), ws_connect = (\<lambda>_. None),
     ws_send = (\<lambda>_. None), ws_recv = (\<lambda>_. []), str_of = (\<lambda>_. []), exc_text = (\<lambda>_. []),
     has_websocket = True, has_requests = True\<rparr>"

definition example_text :: "int \<Rightarrow> pending_text" where
  "example_text target = \<lparr>pt_source = 42, pt_target = target, local_candidate = False, first_seen = 10, updated_at = 20,
     fragments = [''Hel'', ''lo''], event_names = [''x'']\<rparr>"

definition example_event :: "string \<Rightarrow> pyval" where
  "example_event body = PDict [(''application'', PStr ''motorola_tms''), (''sourceRid'', PInt 42), (''targetRid'', PInt 7),
     (''text'', PStr body)]"

definition example_sms :: sms where
  "example_sms = \<lparr>ops = 0, inbox_files = [(''a.json'', Inr (example_event ''Hi'')), (''b.json'', Inl (ValueError ''json''))],
     processed_files = [], rejected_files = [], result_docs = [], error_notes = [], outbox_docs = [], p25_docs = [],
     audio_docs = [], route_docs = [], pending_texts = [((42, 262993), example_text 262993), ((42, 9), example_text 9)],
     ws_open = 0, ws_sent = []\<rparr>"

theorem events_kept_witness:
  "\<exists>r t. run_once example_world example_sms_cfg (choose_client example_sms_cfg) False example_sms = (r, t) \<and>
     (map_of (inbox_files t) ''b.json'' = Some (Inl (ValueError ''json'')) \<or>
      map_of (processed_files t) ''b.json'' = Some (Inl (ValueError ''json'')) \<or>
      map_of (rejected_files t) ''b.json'' = Some (Inl (ValueError ''json'')))"
proof -
  obtain r t where run: "run_once example_world example_sms_cfg (choose_client example_sms_cfg) False example_sms = (r, t)"
    by (rule prod.exhaust)
  have "map_of (inbox_files example_sms) ''b.json'' = Some (Inl (ValueError ''json''))" by (simp add: example_sms_def)
  from events_kept [OF this run] run show ?thesis by blast
qed

theorem text_never_lost_witness:
  "\<exists>r t. run_rounds example_world example_sms_cfg 3 example_sms = (r, t) \<and>
     ((\<exists>q. map_of (texts_in_memory (r, t)) (42, 262993) = Some q \<and> prefix [''Hel'', ''lo''] (fragments q)) \<or>
      (\<exists>d. d \<in> snd ` set (result_docs t) \<and> map_of d ''targetRid'' = Some (PInt 262993)))"
proof -
  obtain r t where run: "run_rounds example_world example_sms_cfg 3 example_sms = (r, t)" by (rule prod.exhaust)
  have p: "map_of (pending_texts example_sms) (42, 262993) = Some (example_text 262993)" "fragments (example_text 262993) \<noteq> []"
    by (simp_all add: example_sms_def example_text_def)
  have d: "world.disk example_world k = None" for k by (simp add: example_world_def)
  have e: "fragments (example_text 262993) = [''Hel'', ''lo'']" "pt_target (example_text 262993) = 262993"
    by (simp_all add: example_text_def)
  from text_never_lost [OF p run] show ?thesis unfolding e using run d by (force dest: in_set_dropD)
qed

text \<open>A disk that is full when the outcome of a text is to be recorded ends the program; the text was in its memory.\<close>

lemma full_disk_loses_text:
  "\<exists>t. run_rounds (example_world\<lparr>disk := (\<lambda>_. Some ''disk full'')\<rparr>) (example_sms_cfg\<lparr>brew := (brew example_sms_cfg)\<lparr>brew_enabled := False\<rparr>\<rparr>)
      1 (example_sms\<lparr>inbox_files := []\<rparr>) = (Inl (OSError ''disk full''), t) \<and>
     texts_in_memory (Inl (OSError ''disk full'') :: py_error + unit, t) = [] \<and> result_docs t = []"
  by (simp add: run_rounds_def run_once_def inbox_names_def flush_ready_texts_def flush_one_def flush_pending_text_def
      flush_outcome_def tryA_def record_text_result_def record_result_def disk_op_def step_op_def Let_def
      texts_in_memory_def example_sms_def example_text_def example_world_def example_sms_cfg_def thenA_def bindA_def now_at_def)

end
