(* ===== verification/Sms_Delivery.thy ===== *)
theory Sms_Delivery
  imports Sms_Bridge
begin

text \<open>
  What the SMS bridge delivers when the disk works: every text takes one outlet, texts that are due
  leave in one pass, fragments are collected in order, and a send that fails leaves no route behind
  and is tried again.
\<close>

section \<open>Operations on a working disk\<close>

definition disk_works :: "world \<Rightarrow> bool" where
  "disk_works w \<longleftrightarrow> disk w = (\<lambda>_. None)"

lemma disk_op_works [simp]: "disk_works w \<Longrightarrow> disk_op w f s = (Inr (), f (s\<lparr>ops := Suc (ops s)\<rparr>))"
  by (simp add: disk_works_def disk_op_def step_op_def Let_def)

lemma record_works [simp]:
  "disk_works w \<Longrightarrow> record_result w name d s = (Inr (), s\<lparr>ops := Suc (ops s), result_docs := result_docs s @ [(name, d)]\<rparr>)"
  by (simp add: record_result_def)

lemma record_text_works [simp]:
  "disk_works w \<Longrightarrow> record_text_result w kind p d s =
     (Inr (), s\<lparr>ops := Suc (ops s), result_docs := result_docs s @ [(text_result_name w s kind p, d)]\<rparr>)"
  by (simp add: record_text_result_def)

lemma move_works:
  "disk_works w \<Longrightarrow> map_of (inbox_files s) name = Some file \<Longrightarrow> move_file w store name s =
     (Inr (), store name file (s\<lparr>ops := Suc (ops s), inbox_files := AList.delete name (inbox_files s)\<rparr>))"
  by (simp add: move_file_def)

lemma code_no_surrogate: "\<not> surrogate (code c)"
  using nat_of_char_less_256 [of c] by (auto simp: surrogate_def code_def simp del: nat_of_char_less_256)

lemma utf8_encode_total: "\<exists>utf8. utf8_encode (map code body) = Inr utf8"
  by (simp add: utf8_encode_def list_all_iff code_no_surrogate)

lemma synthetic_name: "\<exists>name. message_name w s (synthetic_event p) = Inr name"
  by (simp add: message_name_def synthetic_event_def dget_def)

lemma synthetic_rids [simp]: "event_rids (synthetic_event p) = Inr (pt_source p, pt_target p)"
  by (simp add: event_rids_def synthetic_event_def)

section \<open>One outlet per text\<close>

datatype outlet = Local_P25 | Brew_Queue | Held | BrandMeister

definition outlet_of :: "bridge_config \<Rightarrow> pending_text \<Rightarrow> outlet" where
  "outlet_of cfg p =
     (if local_candidate p \<and> local_loop_enabled cfg then Local_P25
      else if pt_target p \<in> brew_service_rids cfg
      then if brew_enabled (brew cfg) then Brew_Queue else Held
      else BrandMeister)"

definition is_service :: "bridge_config \<Rightarrow> pending_text \<Rightarrow> bool" where
  "is_service cfg p \<longleftrightarrow> pt_target p \<in> brew_service_rids cfg \<union> brandmeister_service_rids cfg"

text \<open>The files each outlet writes; a service gets a route back to the radio.\<close>

fun delivered :: "bridge_config \<Rightarrow> outlet \<Rightarrow> pending_text \<Rightarrow> sms \<Rightarrow> sms \<Rightarrow> bool" where
  "delivered cfg Local_P25 p s t \<longleftrightarrow> (\<exists>name utf8. utf8_encode (map code (joined_text p)) = Inr utf8 \<and>
     p25_docs t = p25_docs s @ [(name, p25_text_file (pt_source p) (pt_target p) utf8)] \<and>
     audio_docs t = audio_docs s \<and> outbox_docs t = outbox_docs s \<and> route_docs t = route_docs s)"
| "delivered cfg Held p s t \<longleftrightarrow> t = s"
| "delivered cfg Brew_Queue p s t \<longleftrightarrow> (\<exists>name cid ms route v.
     audio_docs t = audio_docs s @ [(name, queue_command cid ms (pt_source p) (pt_target p) (joined_text p))] \<and>
     p25_docs t = p25_docs s \<and> outbox_docs t = outbox_docs s \<and> route_docs t = AList.update route v (route_docs s))"
| "delivered cfg BrandMeister p s t \<longleftrightarrow> (\<exists>name route v.
     outbox_docs t = outbox_docs s @ [(name, outbox_body (synthetic_event p) (pt_source p) (pt_target p)
         (joined_text p) False ''brandmeister'' ''tms'' [])] \<and>
     p25_docs t = p25_docs s \<and> audio_docs t = audio_docs s \<and>
     route_docs t = (if is_service cfg p then AList.update route v (route_docs s) else route_docs s))"

lemma flush_one_outlet:
  assumes "disk_works w"
  obtains d t where "flush_pending_text w cfg (BrewAudioQueueClient dir) p s = (Inr d, t)"
    "delivered cfg (outlet_of cfg p) p s t" "same_desk s t" "map_of d ''status'' = Some (PStr
      (case outlet_of cfg p of Brew_Queue \<Rightarrow> ''sent'' | Held \<Rightarrow> ''held'' | _ \<Rightarrow> ''queued''))"
proof -
  obtain name where n: "message_name w s (synthetic_event p) = Inr name" using synthetic_name by blast
  obtain utf8 where u: "utf8_encode (map code (joined_text p)) = Inr utf8" using utf8_encode_total by blast
  obtain r t where run: "flush_pending_text w cfg (BrewAudioQueueClient dir) p s = (r, t)" by (rule prod.exhaust)
  have desk: "same_desk s t" using keepsD [OF flush_desk same_desk_refl] run by (metis snd_conv)
  note flush = flush_pending_text_def flush_brew_def write_p25_outbox_message_def write_outbox_message_def
    write_service_route_def queue_client_send_sms_def catchA_def
  have name: "\<exists>name. message_name w (s\<lparr>ops := k, route_docs := rd\<rparr>) (synthetic_event p) = Inr name" for k rd
    by (rule synthetic_name)
  show thesis
  proof (cases "outlet_of cfg p")
    case Local_P25
    then have c: "local_candidate p" "local_loop_enabled cfg" by (auto simp: outlet_of_def split: if_splits)
    have e: "\<exists>d. flush_pending_text w cfg (BrewAudioQueueClient dir) p s = (Inr d, s\<lparr>ops := Suc (ops s),
        p25_docs := p25_docs s @ [(name @ ''.yaml'', p25_text_file (pt_source p) (pt_target p) utf8)]\<rparr>) \<and>
        map_of d ''status'' = Some (PStr ''queued'')"
      using assms c n u by (simp add: flush Let_def)
    then show thesis using that Local_P25 u desk run by fastforce
  next
    case Held
    then have c: "\<not> (local_candidate p \<and> local_loop_enabled cfg)" "pt_target p \<in> brew_service_rids cfg"
      "\<not> brew_enabled (brew cfg)" by (auto simp: outlet_of_def split: if_splits)
    then have "\<exists>d. flush_pending_text w cfg (BrewAudioQueueClient dir) p s = (Inr d, s) \<and>
        map_of d ''status'' = Some (PStr ''held'')"
      unfolding flush_pending_text_def by auto
    then show thesis using that Held desk run by fastforce
  next
    case Brew_Queue
    then have c: "\<not> (local_candidate p \<and> local_loop_enabled cfg)" "pt_target p \<in> brew_service_rids cfg"
      "brew_enabled (brew cfg)" by (auto simp: outlet_of_def split: if_splits)
    have "\<exists>d nm route v cid ms. flush_pending_text w cfg (BrewAudioQueueClient dir) p s = (Inr d, s\<lparr>route_docs := AList.update route v (route_docs s),
        ops := Suc (Suc (ops s)), audio_docs := audio_docs s @ [(nm, queue_command cid ms (pt_source p) (pt_target p) (joined_text p))]\<rparr>) \<and>
        map_of d ''status'' = Some (PStr ''sent'')"
    proof -
      obtain route v where r: "write_service_route w cfg (pt_source p) (pt_target p) s =
          (Inr route, s\<lparr>ops := Suc (ops s), route_docs := AList.update route v (route_docs s)\<rparr>)"
        using assms by (simp add: write_service_route_def Let_def)
      let ?u = "s\<lparr>ops := Suc (ops s), route_docs := AList.update route v (route_docs s)\<rparr>"
      obtain d nm cid ms where q: "queue_client_send_sms w dir (pt_source p) (pt_target p) (joined_text p) ?u =
          (Inr d, ?u\<lparr>ops := Suc (Suc (ops s)), audio_docs := audio_docs s @
             [(nm, queue_command cid ms (pt_source p) (pt_target p) (joined_text p))]\<rparr>)"
          "map_of d ''status'' = Some (PStr ''sent'')"
        using assms by (simp add: queue_client_send_sms_def Let_def)
      have "\<exists>d'. flush_pending_text w cfg (BrewAudioQueueClient dir) p s = (Inr d',
          s\<lparr>route_docs := AList.update route v (route_docs s), ops := Suc (Suc (ops s)), audio_docs := audio_docs s @
             [(nm, queue_command cid ms (pt_source p) (pt_target p) (joined_text p))]\<rparr>) \<and>
          map_of d' ''status'' = Some (PStr ''sent'')"
        unfolding flush_pending_text_def flush_brew_def using c r q by (auto simp: catchA_def)
      then show ?thesis by blast
    qed
    then show thesis using that Brew_Queue desk run by fastforce
  next
    case BrandMeister
    then have c: "\<not> (local_candidate p \<and> local_loop_enabled cfg)" "pt_target p \<notin> brew_service_rids cfg"
      by (auto simp: outlet_of_def split: if_splits)
    have "\<exists>d u. flush_pending_text w cfg (BrewAudioQueueClient dir) p s = (Inr d, u) \<and>
        delivered cfg BrandMeister p s u \<and> map_of d ''status'' = Some (PStr ''queued'')"
    proof (cases "pt_target p \<in> brandmeister_service_rids cfg")
      case False
      then have "\<not> is_service cfg p" using c by (simp add: is_service_def)
      then show ?thesis unfolding flush_pending_text_def write_outbox_message_def
        using assms c n False by (auto simp: Let_def)
    next
      case True
      then have sv: "is_service cfg p" by (simp add: is_service_def)
      obtain route v where r: "write_service_route w cfg (pt_source p) (pt_target p) s =
          (Inr route, s\<lparr>ops := Suc (ops s), route_docs := AList.update route v (route_docs s)\<rparr>)"
        using assms by (simp add: write_service_route_def Let_def)
      obtain nm where "message_name w (s\<lparr>ops := Suc (ops s), route_docs := AList.update route v (route_docs s)\<rparr>)
          (synthetic_event p) = Inr nm" using synthetic_name by blast
      then show ?thesis unfolding flush_pending_text_def write_outbox_message_def
        using assms c r sv True by (auto simp: Let_def)
    qed
    then show thesis using that BrandMeister desk run by fastforce
  qed
qed

text \<open>C24: with a working disk, a collected text takes exactly one outlet, chosen by its target: a local radio gets it in the
  P25 outbox when local delivery is on, a BREW service through one command for the audio worker,
  everybody else through the BrandMeister outbox, and nothing else is written but the route back
  for a service. A text for a BREW service is not sent at all while BREW is off.\<close>

theorem text_takes_one_outlet:
  assumes "disk_works w"
  shows "\<exists>d t. flush_pending_text w cfg (BrewAudioQueueClient dir) p s = (Inr d, t) \<and>
    delivered cfg (outlet_of cfg p) p s t \<and> same_desk s t \<and> map_of d ''status'' = Some (PStr
      (case outlet_of cfg p of Brew_Queue \<Rightarrow> ''sent'' | Held \<Rightarrow> ''held'' | _ \<Rightarrow> ''queued''))"
proof -
  show ?thesis by (rule flush_one_outlet [OF assms, of cfg dir p s]) blast
qed

section \<open>Texts that are due leave\<close>

definition due :: "bool \<Rightarrow> real \<Rightarrow> pending_text \<Rightarrow> bool" where
  "due force now p \<longleftrightarrow> force \<or> 5 \<le> now - updated_at p \<or> 8 \<le> now - first_seen p"

definition stays :: "bool \<Rightarrow> real \<Rightarrow> pending_text \<Rightarrow> bool" where
  "stays force now p \<longleftrightarrow> fragments p \<noteq> [] \<and> \<not> due force now p"

definition leaves :: "bool \<Rightarrow> real \<Rightarrow> pending_text \<Rightarrow> bool" where
  "leaves force now p \<longleftrightarrow> fragments p \<noteq> [] \<and> due force now p"

text \<open>What a pass writes for the texts that leave, one file per text and outlet, in their order; the last line is the outcome
  that is recorded for each.\<close>

definition for_outlet :: "bridge_config \<Rightarrow> outlet \<Rightarrow> pending_text list \<Rightarrow> pending_text list" where
  "for_outlet cfg out = filter (\<lambda>p. outlet_of cfg p = out)"

definition outcome_of :: "bridge_config \<Rightarrow> pending_text \<Rightarrow> string" where
  "outcome_of cfg p = (case outlet_of cfg p of Brew_Queue \<Rightarrow> ''sent'' | Held \<Rightarrow> ''held'' | _ \<Rightarrow> ''queued'')"

definition sent_out :: "bridge_config \<Rightarrow> pending_text list \<Rightarrow> sms \<Rightarrow> sms \<Rightarrow> bool" where
  "sent_out cfg ps s t \<longleftrightarrow> (\<exists>local brew out res.
     p25_docs t = p25_docs s @ local \<and> list_all2 (\<lambda>(name, f) p. \<exists>utf8. utf8_encode (map code (joined_text p)) = Inr utf8 \<and>
       f = p25_text_file (pt_source p) (pt_target p) utf8) local (for_outlet cfg Local_P25 ps) \<and>
     audio_docs t = audio_docs s @ brew \<and> list_all2 (\<lambda>(name, d) p. \<exists>cid ms.
       d = queue_command cid ms (pt_source p) (pt_target p) (joined_text p)) brew (for_outlet cfg Brew_Queue ps) \<and>
     outbox_docs t = outbox_docs s @ out \<and> list_all2 (\<lambda>(name, d) p.
       d = outbox_body (synthetic_event p) (pt_source p) (pt_target p) (joined_text p) False ''brandmeister'' ''tms'' [])
       out (for_outlet cfg BrandMeister ps) \<and>
     result_docs t = result_docs s @ res \<and> list_all2 (\<lambda>(name, d) p. map_of d ''status'' = Some (PStr (outcome_of cfg p))) res ps)"

lemma sent_out_none: "p25_docs t = p25_docs s \<Longrightarrow> audio_docs t = audio_docs s \<Longrightarrow> outbox_docs t = outbox_docs s \<Longrightarrow>
    result_docs t = result_docs s \<Longrightarrow> sent_out cfg [] s t"
  by (simp add: sent_out_def for_outlet_def)

lemma sent_out_one:
  assumes "delivered cfg (outlet_of cfg p) p s t" "same_desk s t" "map_of d ''status'' = Some (PStr (outcome_of cfg p))"
  shows "sent_out cfg [p] s (t\<lparr>ops := n, result_docs := result_docs t @ [(name, d)], pending_texts := ps\<rparr>)"
  using assms by (cases "outlet_of cfg p") (auto simp: sent_out_def for_outlet_def same_desk_def)

lemma sent_out_trans: assumes "sent_out cfg ps s t" "sent_out cfg qs t u" shows "sent_out cfg (ps @ qs) s u"
proof -
  have f: "for_outlet cfg out (ps @ qs) = for_outlet cfg out ps @ for_outlet cfg out qs" for out
    by (simp add: for_outlet_def)
  obtain a b c d where 1: "p25_docs t = p25_docs s @ a" "audio_docs t = audio_docs s @ b" "outbox_docs t = outbox_docs s @ c"
    "result_docs t = result_docs s @ d"
    "list_all2 (\<lambda>(name, f) p. \<exists>utf8. utf8_encode (map code (joined_text p)) = Inr utf8 \<and>
       f = p25_text_file (pt_source p) (pt_target p) utf8) a (for_outlet cfg Local_P25 ps)"
    "list_all2 (\<lambda>(name, d) p. \<exists>cid ms. d = queue_command cid ms (pt_source p) (pt_target p) (joined_text p)) b (for_outlet cfg Brew_Queue ps)"
    "list_all2 (\<lambda>(name, d) p. d = outbox_body (synthetic_event p) (pt_source p) (pt_target p) (joined_text p) False ''brandmeister'' ''tms'' [])
       c (for_outlet cfg BrandMeister ps)"
    "list_all2 (\<lambda>(name, d) p. map_of d ''status'' = Some (PStr (outcome_of cfg p))) d ps"
    using assms(1) unfolding sent_out_def by blast
  obtain a' b' c' d' where 2: "p25_docs u = p25_docs t @ a'" "audio_docs u = audio_docs t @ b'" "outbox_docs u = outbox_docs t @ c'"
    "result_docs u = result_docs t @ d'"
    "list_all2 (\<lambda>(name, f) p. \<exists>utf8. utf8_encode (map code (joined_text p)) = Inr utf8 \<and>
       f = p25_text_file (pt_source p) (pt_target p) utf8) a' (for_outlet cfg Local_P25 qs)"
    "list_all2 (\<lambda>(name, d) p. \<exists>cid ms. d = queue_command cid ms (pt_source p) (pt_target p) (joined_text p)) b' (for_outlet cfg Brew_Queue qs)"
    "list_all2 (\<lambda>(name, d) p. d = outbox_body (synthetic_event p) (pt_source p) (pt_target p) (joined_text p) False ''brandmeister'' ''tms'' [])
       c' (for_outlet cfg BrandMeister qs)"
    "list_all2 (\<lambda>(name, d) p. map_of d ''status'' = Some (PStr (outcome_of cfg p))) d' qs"
    using assms(2) unfolding sent_out_def by blast
  show ?thesis unfolding sent_out_def f
    by (intro exI [of _ "a @ a'"] exI [of _ "b @ b'"] exI [of _ "c @ c'"] exI [of _ "d @ d'"] conjI list_all2_appendI 1 2)
      (simp_all add: 1 2)
qed

lemma flush_one_works:
  assumes "disk_works w" "map_of (pending_texts s) key = Some p"
  obtains m t where "flush_one w cfg (BrewAudioQueueClient dir) force now key n s = (Inr m, t)"
    "m = n + (if leaves force now p then 1 else 0)"
    "pending_texts t = (if stays force now p then pending_texts s else AList.delete key (pending_texts s))"
    "sent_out cfg (if leaves force now p then [p] else []) s t"
proof (cases "leaves force now p")
  case False
  show thesis
  proof (cases "fragments p = []")
    case True
    show thesis by (rule that [of n "s\<lparr>pending_texts := AList.delete key (pending_texts s)\<rparr>"])
        (use assms True in \<open>simp_all add: flush_one_def stays_def leaves_def drop_text_def sent_out_none\<close>)
  next
    case nonempty: False
    then have "\<not> due force now p" using False by (simp add: leaves_def)
    then show thesis by (intro that [of n s])
        (use assms nonempty in \<open>auto simp: flush_one_def stays_def leaves_def due_def sent_out_none\<close>)
  qed
next
  case True
  then have due: "\<not> (\<not> force \<and> now - updated_at p < 5 \<and> now - first_seen p < 8)" "fragments p \<noteq> []"
    by (auto simp: leaves_def due_def)
  obtain d t where f: "flush_pending_text w cfg (BrewAudioQueueClient dir) p s = (Inr d, t)"
    "delivered cfg (outlet_of cfg p) p s t" "same_desk s t" "map_of d ''status'' = Some (PStr (outcome_of cfg p))"
    unfolding outcome_of_def by (rule flush_one_outlet [OF assms(1), of cfg dir p s])
  have "flush_one w cfg (BrewAudioQueueClient dir) force now key n s =
      thenA (record_text_result w ''collected'' p d) (thenA (drop_text key) (ret (n + 1))) t"
    using assms(2) due f(1) by (auto simp: flush_one_def tryA_def flush_outcome_def)
  then have "flush_one w cfg (BrewAudioQueueClient dir) force now key n s = (Inr (n + 1), t\<lparr>ops := Suc (ops t),
      result_docs := result_docs t @ [(text_result_name w t ''collected'' p, d)],
      pending_texts := AList.delete key (pending_texts t)\<rparr>)"
    using assms(1) by (simp add: drop_text_def)
  from that [OF this] show thesis
    using f(3) sent_out_one [OF f(2-4)] True by (auto simp: stays_def leaves_def same_desk_def)
qed

definition pending_under :: "sms \<Rightarrow> int \<times> int \<Rightarrow> pending_text" where
  "pending_under s key = the (map_of (pending_texts s) key)"

lemma flush_loop_works:
  assumes "disk_works w" "dict_ok (pending_texts s)" "distinct ks" "set ks \<subseteq> fst ` set (pending_texts s)"
  shows "\<exists>m t. forA ks (flush_one w cfg (BrewAudioQueueClient dir) force now) n s = (Inr m, t) \<and>
    pending_texts t = filter (\<lambda>(k, p). k \<notin> set ks \<or> stays force now p) (pending_texts s) \<and>
    sent_out cfg (filter (leaves force now) (map (pending_under s) ks)) s t"
  using assms(2-4)
proof (induction ks arbitrary: s n)
  case Nil
  then show ?case by (simp add: case_prod_unfold sent_out_none)
next
  case (Cons key ks)
  then obtain p where p: "map_of (pending_texts s) key = Some p"
    by (metis list.set_intros(1) map_of_eq_None_iff not_Some_eq subsetD)
  obtain m t where t: "flush_one w cfg (BrewAudioQueueClient dir) force now key n s = (Inr m, t)"
    "pending_texts t = (if stays force now p then pending_texts s else AList.delete key (pending_texts s))"
    "sent_out cfg (if leaves force now p then [p] else []) s t"
    by (rule flush_one_works [OF assms(1) p, where n = n])
  have eq: "pending_texts t = filter (\<lambda>(k, q). k \<noteq> key \<or> stays force now q) (pending_texts s)"
  proof -
    have "(k, q) \<in> set (pending_texts s) \<Longrightarrow> k = key \<Longrightarrow> q = p" for k q
      using p Cons.prems(1) by (simp add: dict_ok_def)
    then have "filter (\<lambda>(k, q). k \<noteq> key \<or> stays force now q) (pending_texts s) =
        filter (\<lambda>(k, q). k \<noteq> key \<or> stays force now p) (pending_texts s)"
      by (intro filter_cong) auto
    then show ?thesis using t(2) by (auto simp: AList.delete_eq case_prod_unfold intro!: filter_cong)
  qed
  have same: "map (pending_under t) ks = map (pending_under s) ks"
    using Cons.prems(2) t(2) by (auto simp: pending_under_def delete_conv')
  have "dict_ok (pending_texts t)" using Cons.prems(1) t(2) by simp
  moreover have "set ks \<subseteq> fst ` set (pending_texts t)"
    using Cons.prems(2,3) unfolding eq by force
  ultimately obtain m' u where u: "forA ks (flush_one w cfg (BrewAudioQueueClient dir) force now) m t = (Inr m', u)"
    "pending_texts u = filter (\<lambda>(k, p). k \<notin> set ks \<or> stays force now p) (pending_texts t)"
    "sent_out cfg (filter (leaves force now) (map (pending_under s) ks)) t u"
    using Cons.IH [of t m] Cons.prems(2) same by auto
  have "pending_texts u = filter (\<lambda>(k, p). k \<notin> set (key # ks) \<or> stays force now p) (pending_texts s)"
    unfolding u(2) eq filter_filter by (intro filter_cong) (use Cons.prems(2) in auto)
  moreover have "sent_out cfg (filter (leaves force now) (map (pending_under s) (key # ks))) s u"
    using sent_out_trans [OF t(3) u(3)] p by (auto simp: pending_under_def split: if_splits)
  ultimately show ?case using t(1) u(1) by simp
qed

text \<open>C25: with a working disk and the audio worker taking the BREW messages, a pass handles every text that has been quiet
  for five seconds or is eight seconds old, and keeps exactly the others. Each of the texts it handles leaves through
  its outlet, in order and with nothing else written there: a file for the local radio, a command for the audio worker,
  or a packet for BrandMeister; and its outcome is recorded. Texts for BREW services while BREW is off leave unsent,
  with the outcome that they were held.\<close>

theorem due_texts_leave:
  assumes "disk_works w" "dict_ok (pending_texts s)"
  shows "\<exists>n t. flush_ready_texts w cfg (BrewAudioQueueClient dir) force s = (Inr n, t) \<and>
    pending_texts t = filter (\<lambda>(k, p). fragments p \<noteq> [] \<and> \<not> due force (now_at w s) p) (pending_texts s) \<and>
    sent_out cfg (filter (\<lambda>p. fragments p \<noteq> [] \<and> due force (now_at w s) p) (map snd (pending_texts s))) s t"
proof -
  have d: "distinct (map fst (pending_texts s))" using assms(2) by (simp add: dict_ok_def)
  then have p: "map (pending_under s) (map fst (pending_texts s)) = map snd (pending_texts s)"
    by (auto simp: pending_under_def)
  obtain n t where "flush_ready_texts w cfg (BrewAudioQueueClient dir) force s = (Inr n, t)"
    "pending_texts t = filter (\<lambda>(k, p). k \<notin> set (map fst (pending_texts s)) \<or> stays force (now_at w s) p) (pending_texts s)"
    "sent_out cfg (filter (leaves force (now_at w s)) (map snd (pending_texts s))) s t"
    using flush_loop_works [OF assms d, of cfg dir force "now_at w s" 0, unfolded p]
    unfolding flush_ready_texts_def act_simps by auto
  moreover from this(2) have "pending_texts t = filter (\<lambda>(k, p). stays force (now_at w s) p) (pending_texts s)"
    by (auto intro!: filter_cong simp: rev_image_eqI)
  ultimately show ?thesis by (simp add: stays_def leaves_def [abs_def])
qed

section \<open>Collecting in order\<close>

text \<open>\<open>chat_event s source target name body\<close>: the inbox file \<open>name\<close> is a text message event.\<close>

definition chat_event :: "sms \<Rightarrow> int \<Rightarrow> int \<Rightarrow> string \<Rightarrow> string \<Rightarrow> bool" where
  "chat_event s source target name body \<longleftrightarrow> (\<exists>d. map_of (inbox_files s) name = Some (Inr (PDict d)) \<and>
     map_of d ''application'' = Some (PStr ''motorola_tms'') \<and> event_rids d = Inr (source, target) \<and>
     choose_text d = body \<and> body \<noteq> [])"

lemma fragments_append: "fragments (append_text_fragment now p f name) = add_fragment (strip f) (fragments p)"
  by (simp add: append_text_fragment_def add_fragment_def Let_def)

lemma first_text_stripped: "strip (choose_text ev) = choose_text ev"
proof -
  have t: "strip (text_at ev key) = text_at ev key" for key
    by (simp add: text_at_def strip_by_id split: option.splits pyval.splits)
  have "\<forall>x \<in> set xs. strip x = x \<Longrightarrow> strip (first_text xs) = first_text xs" for xs :: "string list"
    by (induction xs) (simp_all add: strip_by_id)
  then show ?thesis by (simp add: choose_text_def t del: first_text.simps)
qed

lemma normalize_keeps:
  assumes "normalize_event cfg name (PDict d) = Inr ev"
  shows "event_rids ev = event_rids d" "choose_text ev = choose_text d" "map_of ev ''application'' = map_of d ''application''"
  using assms by (auto simp: normalize_event_def Let_def event_rids_def choose_text_def text_at_def)

definition collected :: "sms \<Rightarrow> int \<times> int \<Rightarrow> string list" where
  "collected s key = (case map_of (pending_texts s) key of None \<Rightarrow> [] | Some p \<Rightarrow> fragments p)"

lemma take_chat_event:
  assumes "disk_works w" "chat_event s source target name body"
  obtains t where "take_event w cfg name n s = (Inr (n + 1), t)"
    "collected t (source, target) = add_fragment body (collected s (source, target))"
    "inbox_files t = AList.delete name (inbox_files s)"
    "map_of (processed_files t) name = map_of (inbox_files s) name"
    "\<forall>other. other \<noteq> name \<longrightarrow> map_of (processed_files t) other = map_of (processed_files s) other"
proof -
  obtain d where d: "map_of (inbox_files s) name = Some (Inr (PDict d))"
      "map_of d ''application'' = Some (PStr ''motorola_tms'')" "event_rids d = Inr (source, target)"
      "choose_text d = body" "body \<noteq> []" using assms(2) by (auto simp: chat_event_def)
  obtain ev where ev: "normalize_event cfg name (PDict d) = Inr ev" by (simp add: normalize_event_def Let_def)
  note evd = normalize_keeps [OF ev]
  have p: "process_event w cfg name s = process_text w name ev s"
    using d ev evd by (simp add: process_event_def process_document_def dget_def)
  obtain u where u: "collect_text w source target (truthy (dget ev ''localDeliveryCandidate'' (PBool False))) body
        (py_stem name) s = (Inr (), u)" "inbox_files u = inbox_files s" "processed_files u = processed_files s"
      "collected u (source, target) = add_fragment body (collected s (source, target))"
    using first_text_stripped [of d] d(4)
    by (auto simp: collect_text_def Let_def collected_def fragments_append new_pending_text_def split: option.splits)
  obtain v where v: "process_event w cfg name s = (Inr (), v)" "inbox_files v = AList.delete name (inbox_files s)"
      "map_of (processed_files v) = (map_of (processed_files s))(name \<mapsto> Inr (PDict d))"
      "pending_texts v = pending_texts u"
    using assms(1) d u evd by (auto simp: p process_text_def finish_event_def move_works to_processed_def)
  show thesis
    by (rule that [of v]) (use u v d in \<open>simp_all add: take_event_def catchA_def collected_def\<close>)
qed

lemma take_chat_events:
  assumes "disk_works w" "distinct names" "list_all2 (chat_event s source target) names bodies"
  shows "\<exists>t. forA names (take_event w cfg) n s = (Inr (n + length names), t) \<and>
    collected t (source, target) = fold add_fragment bodies (collected s (source, target)) \<and>
    (\<forall>name. map_of (inbox_files t) name = (if name \<in> set names then None else map_of (inbox_files s) name) \<and>
       map_of (processed_files t) name = map_of (if name \<in> set names then inbox_files s else processed_files s) name)"
  using assms(2,3)
proof (induction names arbitrary: s n bodies)
  case Nil
  then show ?case by simp
next
  case (Cons name names)
  then obtain body rest where b: "bodies = body # rest" "chat_event s source target name body"
    "list_all2 (chat_event s source target) names rest" by (auto simp: list_all2_Cons1)
  obtain t where t: "take_event w cfg name n s = (Inr (n + 1), t)"
    "collected t (source, target) = add_fragment body (collected s (source, target))"
    "inbox_files t = AList.delete name (inbox_files s)"
    "map_of (processed_files t) name = map_of (inbox_files s) name"
    "\<forall>x. x \<noteq> name \<longrightarrow> map_of (processed_files t) x = map_of (processed_files s) x"
    by (rule take_chat_event [OF assms(1) b(2), of cfg n])
  have "list_all2 (chat_event t source target) names rest"
    using b(3) Cons.prems(1) by (auto simp: list_all2_conv_all_nth chat_event_def t(3) in_set_conv_nth)
  then obtain u where u: "forA names (take_event w cfg) (n + 1) t = (Inr (n + 1 + length names), u)"
    "collected u (source, target) = fold add_fragment rest (collected t (source, target))"
    "\<And>x. map_of (inbox_files u) x = (if x \<in> set names then None else map_of (inbox_files t) x) \<and>
       map_of (processed_files u) x = map_of (if x \<in> set names then inbox_files t else processed_files t) x"
    using Cons.IH [of t rest "n + 1"] Cons.prems(1) by auto
  have "map_of (inbox_files u) x = (if x \<in> set (name # names) then None else map_of (inbox_files s) x) \<and>
      map_of (processed_files u) x = map_of (if x \<in> set (name # names) then inbox_files s else processed_files s) x" for x
    using u(3) [of x] t(3,4,5) Cons.prems(1) by (cases "x = name") auto
  then show ?case using t(1,2) u(1,2) b(1) by simp
qed

text \<open>The text events of one pair of radios are collected in the order of their files: after a
  pass the collected fragments are the old ones followed by the new texts, less those that are part
  of a fragment already there, and every event file has gone to the processed directory.\<close>

theorem fragments_in_order:
  assumes "disk_works w" "distinct names" "list_all2 (chat_event s source target) names bodies"
  shows "\<exists>t. forA names (take_event w cfg) n s = (Inr (n + length names), t) \<and>
    collected t (source, target) = fold add_fragment bodies (collected s (source, target)) \<and>
    (\<forall>name. map_of (inbox_files t) name = (if name \<in> set names then None else map_of (inbox_files s) name) \<and>
       map_of (processed_files t) name = map_of (if name \<in> set names then inbox_files s else processed_files s) name)"
  by (rule take_chat_events [OF assms])

section \<open>Failures\<close>

lemma send_sms_routes: "keeps (\<lambda>s. route_docs s = rd) (send_sms w client source target body)"
proof (cases client)
  case (BrewClient cfg)
  show ?thesis unfolding BrewClient send_sms.simps sms_network by (intro act_rules keeps_step_op; simp)
next
  case (BrewAudioQueueClient dir)
  show ?thesis unfolding BrewAudioQueueClient send_sms.simps sms_network by (intro act_rules; simp)
qed

lemma delete_fresh: "k \<notin> fst ` set d \<Longrightarrow> AList.delete k (AList.update k v d) = d"
  by (induction d) (auto simp: AList.delete_eq)

definition route_name :: "world \<Rightarrow> sms \<Rightarrow> pending_text \<Rightarrow> string" where
  "route_name w s p = pad13 (ms_at w s) @ ''-'' @ show_int (pt_target p) @ ''-'' @ show_int (pt_source p) @ ''-'' @
     uuid_hex (fresh w (ops s)) @ ''.json''"

lemma failed_send_routes:
  assumes "disk_works w" "outlet_of cfg p = Brew_Queue" "route_name w s p \<notin> fst ` set (route_docs s)"
    "flush_pending_text w cfg client p s = (r, t)" "case r of Inl e \<Rightarrow> True | Inr d \<Rightarrow> map_of d ''status'' \<noteq> Some (PStr ''sent'')"
  shows "route_docs t = route_docs s"
proof -
  have c: "\<not> (local_candidate p \<and> local_loop_enabled cfg)" "pt_target p \<in> brew_service_rids cfg"
      "brew_enabled (brew cfg)" using assms(2) by (auto simp: outlet_of_def split: if_splits)
  obtain u v where u: "write_service_route w cfg (pt_source p) (pt_target p) s = (Inr (route_name w s p), u)"
      "route_docs u = AList.update (route_name w s p) v (route_docs s)"
    using assms(1) by (simp add: write_service_route_def Let_def route_name_def)
  obtain q z where z: "send_sms w client (pt_source p) (pt_target p) (joined_text p) u = (q, z)" by (rule prod.exhaust)
  have "route_docs z = route_docs u" using keepsD [OF send_sms_routes, of u] z by (metis snd_conv)
  then have gone: "AList.delete (route_name w s p) (route_docs z) = route_docs s"
    using u(2) delete_fresh [OF assms(3)] by simp
  show ?thesis
    using assms(1,4,5) c u(1) z gone
    by (cases q) (auto simp: flush_pending_text_def flush_brew_def catchA_def unlink_route_def thenA_def split: if_splits)
qed

text \<open>A BREW send that fails for a moment costs nothing: the text stays as it was, its clock starts
  again so that it is not tried for another five seconds, and the route that was announced for the
  answer is taken back.\<close>

theorem failed_send_retried:
  assumes "disk_works w" "outlet_of cfg p = Brew_Queue" "route_name w s p \<notin> fst ` set (route_docs s)"
    and "map_of (pending_texts s) key = Some p" "fragments p \<noteq> []" "due force now p"
    and "flush_pending_text w cfg client p s = (Inl e, u)" "e \<noteq> AuthenticationError"
  shows "\<exists>t. flush_one w cfg client force now key n s = (Inr n, t) \<and>
    map_of (pending_texts t) key = Some (p\<lparr>first_seen := now, updated_at := now\<rparr>) \<and> route_docs t = route_docs s \<and>
    (\<forall>later. later - now < 5 \<longrightarrow> flush_one w cfg client False later key n t = (Inr n, t))"
proof -
  let ?p = "p\<lparr>first_seen := now, updated_at := now\<rparr>"
  have r: "route_docs u = route_docs s" by (rule failed_send_routes [OF assms(1-3,7)]) simp
  have d: "\<not> (\<not> force \<and> now - updated_at p < 5 \<and> now - first_seen p < 8)" using assms(6) by (auto simp: due_def)
  define t where "t = u\<lparr>pending_texts := AList.update key ?p (pending_texts u), ops := Suc (ops u),
     result_docs := result_docs u @ [(text_result_name w (u\<lparr>pending_texts := AList.update key ?p (pending_texts u)\<rparr>) ''retry'' p,
       failure_doc w ''retrying'' (exc_name e) e p)]\<rparr>"
  have f: "flush_one w cfg client force now key n s = (Inr n, t)"
    using assms(1,4,5,7,8) d by (auto simp: flush_one_def tryA_def flush_outcome_def t_def)
  have m: "map_of (pending_texts t) key = Some ?p" by (simp add: t_def)
  have "flush_one w cfg client False later key n t = (Inr n, t)" if "later - now < 5" for later
    using m assms(5) that by (simp add: flush_one_def)
  then show ?thesis using f m r by (intro exI [of _ t]) (simp add: t_def)
qed

text \<open>A text for a BREW service while BREW is off is reported as held, and forgotten.\<close>

theorem held_text_is_dropped:
  assumes "disk_works w" "outlet_of cfg p = Held" "map_of (pending_texts s) key = Some p" "fragments p \<noteq> []"
  shows "\<exists>t. flush_one w cfg client True now key n s = (Inr (n + 1), t) \<and>
    map_of (pending_texts t) key = None \<and> p25_docs t = p25_docs s \<and> audio_docs t = audio_docs s \<and>
    outbox_docs t = outbox_docs s \<and> ws_sent t = ws_sent s"
proof -
  have c: "\<not> (local_candidate p \<and> local_loop_enabled cfg)" "pt_target p \<in> brew_service_rids cfg"
      "\<not> brew_enabled (brew cfg)" using assms(2) by (auto simp: outlet_of_def split: if_splits)
  have "\<exists>d. flush_pending_text w cfg client p s = (Inr d, s)" using c by (auto simp: flush_pending_text_def)
  then show ?thesis using assms(1,3,4) by (auto simp: flush_one_def tryA_def flush_outcome_def drop_text_def)
qed

text \<open>When the outbox file of a BrandMeister service cannot be written, the route stays behind.\<close>

theorem service_route_left_behind:
  assumes "outlet_of cfg p = BrandMeister" "is_service cfg p" "disk w (ops s) = None" "disk w (Suc (ops s)) = Some exc"
  shows "\<exists>t v. flush_pending_text w cfg client p s = (Inl (OSError exc), t) \<and>
    route_docs t = AList.update (route_name w s p) v (route_docs s) \<and> outbox_docs t = outbox_docs s"
proof -
  have c: "\<not> (local_candidate p \<and> local_loop_enabled cfg)" "pt_target p \<notin> brew_service_rids cfg"
    "pt_target p \<in> brandmeister_service_rids cfg"
    using assms(1,2) by (auto simp: outlet_of_def is_service_def split: if_splits)
  obtain u v where u: "write_service_route w cfg (pt_source p) (pt_target p) s = (Inr (route_name w s p), u)"
      "route_docs u = AList.update (route_name w s p) v (route_docs s)" "outbox_docs u = outbox_docs s"
      "ops u = Suc (ops s)"
    using assms(3) by (simp add: write_service_route_def disk_op_def step_op_def Let_def route_name_def)
  obtain name where n: "message_name w u (synthetic_event p) = Inr name" using synthetic_name by blast
  then show ?thesis
    using c u assms(4)
    by (auto simp: flush_pending_text_def write_outbox_message_def disk_op_def step_op_def Let_def)
qed

section \<open>File names\<close>

lemma show_nat_no_slash: "CHR ''/'' \<notin> set (show_nat n)"
  using show_nat_digits [of n] by (auto simp: list_all_iff is_digit_def code_def)

lemma show_int_no_slash: "CHR ''/'' \<notin> set (show_int i)"
  by (simp add: show_int_def show_nat_no_slash)

lemma split_no_sep: "c \<notin> set name \<Longrightarrow> split_char c name = [name]"
  by (induction name) auto

text \<open>No event can make the bridge write outside its outbox: whatever session id an event carries,
  slashes and dots included, the file for it lies directly in the outbox directory.\<close>

theorem outbox_file_stays_inside:
  assumes "write_outbox_message w cfg ev body local_only route channel raw s = (Inr path, t)"
  shows "\<exists>name d. CHR ''/'' \<notin> set name \<and> outbox_docs t = outbox_docs s @ [(name, d)] \<and>
    path = path_text (fst (outbox_dir cfg), snd (outbox_dir cfg) @ [name])"
proof -
  obtain source target where r: "event_rids ev = Inr (source, target)"
    using assms by (cases "event_rids ev") (auto simp: write_outbox_message_def)
  obtain stem where n: "message_name w s ev = Inr stem"
    using assms r by (cases "message_name w s ev") (auto simp: write_outbox_message_def)
  have k: "disk w (ops s) = None" using assms r n
    by (cases "disk w (ops s)") (auto simp: write_outbox_message_def disk_op_def step_op_def Let_def thenA_def bindA_def)
  have slash: "CHR ''/'' \<notin> set (stem @ ''.json'')"
    using n show_int_no_slash by (auto simp: message_name_def bindE_eq_Inr Let_def)
  have "path_join (outbox_dir cfg) (stem @ ''.json'') = (fst (outbox_dir cfg), snd (outbox_dir cfg) @ [stem @ ''.json''])"
  proof -
    have "\<not> prefix ''/'' (stem @ ''.json'')" using slash by (cases stem) auto
    moreover have "stem @ ''.json'' \<noteq> ''.''" by (cases stem) auto
    ultimately show ?thesis unfolding path_join_def path_of_def split_no_sep [OF slash] by simp
  qed
  then show ?thesis using assms r n k slash
    by (auto simp: write_outbox_message_def disk_op_def step_op_def Let_def)
qed

section \<open>The example\<close>

lemma example_works: "disk_works example_world" "dict_ok (pending_texts example_sms)"
  by (simp_all add: disk_works_def example_world_def dict_ok_def example_sms_def)

theorem text_takes_one_outlet_witness:
  "\<exists>d t. flush_pending_text example_world example_sms_cfg (choose_client example_sms_cfg) (example_text 262993) example_sms = (Inr d, t) \<and>
     delivered example_sms_cfg Brew_Queue (example_text 262993) example_sms t \<and> map_of d ''status'' = Some (PStr ''sent'')"
proof -
  have o: "outlet_of example_sms_cfg (example_text 262993) = Brew_Queue"
    by (simp add: outlet_of_def example_sms_cfg_def example_text_def)
  have c: "choose_client example_sms_cfg = BrewAudioQueueClient (True, [''srv'', ''sms'', ''brew-audio''])"
    by (simp add: choose_client_def example_sms_cfg_def)
  show ?thesis
    using text_takes_one_outlet [OF example_works(1), of example_sms_cfg "(True, [''srv'', ''sms'', ''brew-audio''])"
        "example_text 262993" example_sms] unfolding o c outlet.case by blast
qed

theorem due_texts_leave_witness:
  "\<exists>n t. flush_ready_texts example_world example_sms_cfg (choose_client example_sms_cfg) False example_sms = (Inr n, t) \<and>
     pending_texts t = [] \<and> sent_out example_sms_cfg [example_text 262993, example_text 9] example_sms t"
proof -
  have c: "choose_client example_sms_cfg = BrewAudioQueueClient (True, [''srv'', ''sms'', ''brew-audio''])"
    by (simp add: choose_client_def example_sms_cfg_def)
  have p: "pending_texts example_sms = [((42, 262993), example_text 262993), ((42, 9), example_text 9)]"
    by (simp add: example_sms_def)
  have t: "fragments (example_text n) \<noteq> [] \<and> due False (now_at example_world example_sms) (example_text n)" for n
    by (simp add: example_text_def due_def now_at_def example_world_def)
  show ?thesis
    using due_texts_leave [OF example_works, of example_sms_cfg "(True, [''srv'', ''sms'', ''brew-audio''])" False]
    unfolding c p by (simp add: t)
qed

theorem fragments_in_order_witness:
  "\<exists>t. take_event example_world example_sms_cfg ''a.json'' 0 example_sms = (Inr 1, t) \<and> collected t (42, 7) = [''Hi'']"
proof -
  have e: "list_all2 (chat_event example_sms 42 7) [''a.json''] [''Hi'']"
    by (simp add: chat_event_def example_sms_def example_event_def event_rids_def choose_text_def text_at_def
        strip_by_id is_space_def code_def)
  show ?thesis
    using fragments_in_order [OF example_works(1) _ e, of example_sms_cfg 0]
    by (auto simp: collected_def example_sms_def add_fragment_def bindA_def split: prod.splits sum.splits)
qed

theorem failed_send_retried_witness:
  "\<exists>t. flush_one example_world example_sms_cfg (BrewClient (brew example_sms_cfg)) False 100 (42, 262993) 0 example_sms = (Inr 0, t) \<and>
     route_docs t = [] \<and> collected t (42, 262993) = [''Hel'', ''lo'']"
proof -
  let ?p = "example_text 262993"
  have f: "\<exists>u. flush_pending_text example_world example_sms_cfg (BrewClient (brew example_sms_cfg)) ?p example_sms =
      (Inl (OSError ''ConnectionError''), u)"
  proof -
    have j: "joined_text ?p = ''Hello''"
      by (simp add: joined_text_def example_text_def strip_by_id is_space_def code_def)
    obtain payload where "build_text_sds_type4_pdu (map code ''Hello'') 5 = Inr payload"
      by (simp add: build_text_sds_type4_pdu_def utf16_encode_def surrogate_def code_def Let_def)
    then have send: "\<exists>v. send_sms example_world (BrewClient (brew example_sms_cfg)) 42 262993 ''Hello'' u =
        (Inl (OSError ''ConnectionError''), v)" for u
      by (simp add: brew_client_send_sms_def example_sms_cfg_def example_world_def ms_at_def get_endpoint_def step_op_def Let_def)
    obtain route u where "write_service_route example_world example_sms_cfg 42 262993 example_sms = (Inr route, u)"
      using example_works(1) by (simp add: write_service_route_def Let_def)
    moreover obtain v where "send_sms example_world (BrewClient (brew example_sms_cfg)) 42 262993 ''Hello'' u =
        (Inl (OSError ''ConnectionError''), v)" using send by blast
    ultimately show ?thesis
      using example_works(1) unfolding flush_pending_text_def flush_brew_def j
      by (simp add: example_text_def example_sms_cfg_def catchA_def unlink_route_def)
  qed
  have h: "outlet_of example_sms_cfg ?p = Brew_Queue" "route_name example_world example_sms ?p \<notin> fst ` set (route_docs example_sms)"
    "map_of (pending_texts example_sms) (42, 262993) = Some ?p" "fragments ?p \<noteq> []" "due False 100 ?p"
    by (simp_all add: outlet_of_def example_sms_cfg_def example_text_def example_sms_def due_def)
  obtain u where "flush_pending_text example_world example_sms_cfg (BrewClient (brew example_sms_cfg)) ?p example_sms =
      (Inl (OSError ''ConnectionError''), u)" using f by blast
  from failed_send_retried [OF example_works(1) h this, of 0] show ?thesis
    by (auto simp: collected_def example_text_def example_sms_def)
qed

theorem outbox_file_stays_inside_witness:
  "\<exists>path t. write_outbox_message example_world example_sms_cfg [(''sourceRid'', PInt 1), (''targetRid'', PInt 2),
       (''timestampMs'', PInt 7), (''sessionId'', PStr ''../../etc/x'')] ''Hi'' False ''brandmeister'' ''tms'' [] example_sms = (Inr path, t) \<and>
     (\<exists>name. CHR ''/'' \<notin> set name \<and> path = path_text (True, [''srv'', ''sms'', ''outbox'', name]))"
proof -
  let ?ev = "[(''sourceRid'', PInt 1), (''targetRid'', PInt 2), (''timestampMs'', PInt 7), (''sessionId'', PStr ''../../etc/x'')]"
  have "\<exists>path t. write_outbox_message example_world example_sms_cfg ?ev ''Hi'' False ''brandmeister'' ''tms'' [] example_sms = (Inr path, t)"
    using example_works(1) by (simp add: write_outbox_message_def event_rids_def message_name_def dget_def Let_def)
  then obtain path t where r: "write_outbox_message example_world example_sms_cfg ?ev ''Hi'' False ''brandmeister'' ''tms'' [] example_sms = (Inr path, t)"
    by blast
  from outbox_file_stays_inside [OF r] r show ?thesis by (auto simp: example_sms_cfg_def)
qed

end
