(* ===== verification/Bridge_Worker.thy ===== *)
theory Bridge_Worker
  imports Bridge_Sds Sms_Config
begin

text \<open>
  The life of the audio worker: \<^verbatim>\<open>load_brew_dependencies\<close>, the constructor of \<^verbatim>\<open>BrewAudioBridge\<close>,
  \<^verbatim>\<open>start\<close>, \<^verbatim>\<open>request_stop\<close> and \<^verbatim>\<open>stop\<close>, and \<^verbatim>\<open>_run\<close> of the transport, which keeps a session
  open and backs off between attempts. The threads are one event type: an event is one pass of a
  loop or one message, and any order of events is possible, also while \<^verbatim>\<open>stop\<close> runs. \<open>host\<close> is what the
  constructor finds.
\<close>

section \<open>Starting\<close>

record host =
  dynamic_content :: "string option"
  observed_content :: "pyval option"
  dvm_logs :: "log_file list"
  routing_stat :: "int option"
  random_timestamp :: int
  network :: "nat \<Rightarrow> string option"
  udp_network :: "nat \<Rightarrow> bool"
  disk :: "py_error option"

text \<open>\<open>packages\<close>: requests, its digest authentication and websocket-client can be imported.\<close>

definition load_brew_dependencies :: "bool \<Rightarrow> py_error + bridge_config \<Rightarrow> py_error + brew_config" where
  "load_brew_dependencies packages loaded =
     bindE loaded (\<lambda>bridge_cfg. let b = brew bridge_cfg in
       if \<not> brew_enabled b \<or> username b = [] \<or> password b = []
       then Inl (RuntimeError ''BREW is disabled or its protected runtime credentials are unavailable'')
       else if \<not> packages then Inl (RuntimeError ''requests and websocket-client are required'')
       else Inr b)"

definition initial_issis :: "audio_config \<Rightarrow> host \<Rightarrow> string \<Rightarrow> int set \<times> int set" where
  "initial_issis cfg h brew_username =
     (let configured = set (config_local_issis cfg);
          (discovered, log_path, log_offset) = discover_registered_issis (dvm_logs h);
          local1 = configured \<union> discovered \<union> (if log_path = None then load_observed_issis (observed_content h) else {});
          (local2, anchors) = (if local1 \<noteq> {} then (local1, configured)
            else case discover_affiliation_anchor (dvm_logs h) of
                None \<Rightarrow> (local1, configured)
              | Some a \<Rightarrow> (insert a local1, insert a configured));
          configured_issi = (case py_int_str brew_username of Inl e \<Rightarrow> 0 | Inr i \<Rightarrow> i)
      in (if local2 = {} \<and> in_24bit configured_issi then insert configured_issi local2 else local2, anchors))"

definition bridge_init :: "audio_config \<Rightarrow> host \<Rightarrow> clock \<Rightarrow> string \<Rightarrow> bridge" where
  "bridge_init cfg h ck brew_username =
     (let r = snd (load_dynamic_routes (dynamic_content h) (epoch ck) (mono ck) (router_init (ac_routing cfg)));
          (locals, anchors) = initial_issis cfg h brew_username;
          (_, log_path, log_offset) = discover_registered_issis (dvm_logs h)
      in core.extend
        \<lparr>bio = \<lparr>data = status_init (utc ck), counters = [], socket_open = False, connected = False,
           net = network h, attempts = 0, sent = [], dynamic_file = dynamic_content h,
           observed_file = (if locals = {} then observed_content h else Some (save_observed_issis locals))\<rparr>,
         brt = r, local_issis = locals, anchor_issis = anchors, registration_path = log_path,
         registration_offset = log_offset, last_subscriber_refresh = mono ck, last_session_recovery = 0,
         routing_mtime = (case routing_stat h of None \<Rightarrow> - 1 | Some t \<Rightarrow> t), owned_uuids = [], ignored_uuids = {},
         disk_error = disk h\<rparr>
        \<lparr>stop_set = False, uplink_queue = [], last_p25_rx = 0, active_uplink = None, uplink_due = 0,
         last_disconnect_at = 0, downlink_calls = [], active_downlink = None, downlink_due = 0,
         rtp_sequence = 0, rtp_timestamp = random_timestamp h, udp_fails = udp_network h, udp_attempts = 0,
         udp_sent = [], pending_sds = [], recent_sds = [], outbox = [], command_files = [], result_files = [],
         error_files = [], retired = []\<rparr>)"

text \<open>The constructor raises what loading the codec library or the BREW account raises, or saving the
  radios it found.\<close>

definition construct ::
  "audio_config \<Rightarrow> host \<Rightarrow> clock \<Rightarrow> py_error option \<Rightarrow> bool \<Rightarrow> py_error + bridge_config \<Rightarrow> py_error + bridge" where
  "construct cfg h ck codec_failure packages loaded =
     (case codec_failure of
        Some e \<Rightarrow> Inl e
      | None \<Rightarrow> bindE (load_brew_dependencies packages loaded) (\<lambda>b.
         case disk h of
           Some e \<Rightarrow> if fst (initial_issis cfg h (username b)) = {} then Inr (bridge_init cfg h ck (username b)) else Inl e
         | None \<Rightarrow> Inr (bridge_init cfg h ck (username b))))"

definition endpoint_text :: "string \<Rightarrow> int \<Rightarrow> string" where
  "endpoint_text addr port = addr @ '':'' @ show_int port"

definition start_worker :: "audio_config \<Rightarrow> unit handler" where
  "start_worker cfg = readA (\<lambda>s. set_status
     [(''localIssis'', ints_value (sorted_list_of_set (local_issis s))),
      (''staticTalkgroups'', ints_value (sorted_list_of_set (static_brew_groups (ac_routing cfg)))),
      (''dynamicTalkgroups'', snapshot_value (brt s)),
      (''talkgroupMappings'', mappings_value (ac_routing cfg)),
      (''p25PcmInput'', PStr (endpoint_text (pi_address (pcm_input cfg)) (pi_port (pcm_input cfg)))),
      (''p25PcmOutput'', PStr (endpoint_text (po_address (pcm_output cfg)) (po_port (pcm_output cfg)))),
      (''p25PcmAdditionalInputs'',
         PList (map (\<lambda>i. PStr (endpoint_text (pi_address i) (pi_port i))) (pcm_additional_inputs cfg))),
      (''p25PcmAdditionalOutputs'',
         PList (map (\<lambda>i. PStr (endpoint_text (po_address i) (po_port i))) (pcm_additional_outputs cfg)))])"

section \<open>Stopping\<close>

definition request_stop :: "bridge \<Rightarrow> bridge" where
  "request_stop s = s\<lparr>stop_set := True\<rparr>"

definition sign_off :: "clock \<Rightarrow> unit handler" where
  "sign_off ck = readA (\<lambda>s.
     if is_connected s
     then forA (sorted_list_of_set (local_issis s)) (\<lambda>issi _.
            thenA (send_subscriber ck SUBSCRIBER_DEAFFILIATE (groups (brt s)) issi)
            (thenA (send_subscriber ck SUBSCRIBER_DEREGISTER [] issi) (ret ()))) ()
     else ret ())"

definition close_downlinks :: "bridge \<Rightarrow> bridge" where
  "close_downlinks s = s\<lparr>retired := retired s @ map (\<lambda>(u, c). handle_close (decoder c)) (downlink_calls s),
     downlink_calls := []\<rparr>"

definition finish_active :: "codec_lib \<Rightarrow> audio_config \<Rightarrow> clock \<Rightarrow> unit handler" where
  "finish_active lib cfg ck = readA (\<lambda>s. case active_uplink s of
       None \<Rightarrow> ret ()
     | Some c \<Rightarrow> thenA (finish_uplink lib cfg ck c) (upd (\<lambda>s. s\<lparr>active_uplink := None\<rparr>)))"

section \<open>The session\<close>

text \<open>What \<^verbatim>\<open>recv\<close> may bring: a binary message, a text message, a time-out (after which a ping may be
  sent), or the end, by an exception or by \<^verbatim>\<open>None\<close>.\<close>

datatype received = Binary bytes | TextMessage | NoMessage | Ended py_error

primrec receive_loop ::
  "codec_lib \<Rightarrow> charmap \<Rightarrow> (bytes \<Rightarrow> string) \<Rightarrow> audio_config \<Rightarrow> (clock \<times> received) list \<Rightarrow> unit handler" where
  "receive_loop lib cm readable cfg [] = ret ()"
| "receive_loop lib cm readable cfg (r # rs) = readA (\<lambda>s.
     if stop_set s then ret ()
     else case snd r of
         Binary frame \<Rightarrow> thenA (on_brew_binary lib cm readable cfg (fst r) frame) (receive_loop lib cm readable cfg rs)
       | Ended e \<Rightarrow> raiseA e
       | _ \<Rightarrow> receive_loop lib cm readable cfg rs)"

definition open_session :: "clock \<Rightarrow> unit handler" where
  "open_session ck =
     thenA (upd_io (\<lambda>i. i\<lparr>socket_open := True, connected := True\<rparr>))
     (thenA (set_status [(''connected'', PBool True), (''connectedAt'', PStr (utc ck)), (''lastError'', PNone)])
       (on_brew_connected ck))"

definition offline_status :: "(string \<times> pyval) list" where
  "offline_status = [(''connected'', PBool False), (''registered'', PBool False), (''affiliated'', PBool False)]"

definition session_failed :: "py_error \<Rightarrow> unit handler" where
  "session_failed e = readA (\<lambda>s. if stop_set s then ret ()
     else set_status (offline_status @ [(''lastError'', PStr (''brew_connection:'' @ exc_name e))]))"

definition close_session :: "unit handler" where
  "close_session = thenA (upd_io close_socket) (set_status offline_status)"

text \<open>One round of \<^verbatim>\<open>_run\<close>: \<open>attempt\<close> is what finding the endpoint and opening the WebSocket gives. The
  result is whether the session was opened.\<close>

record round =
  round_clock :: clock
  attempt :: "py_error option"
  messages :: "(clock \<times> received) list"

definition transport_round ::
  "codec_lib \<Rightarrow> charmap \<Rightarrow> (bytes \<Rightarrow> string) \<Rightarrow> audio_config \<Rightarrow> round \<Rightarrow> bool handler" where
  "transport_round lib cm readable cfg r =
     thenA (catchA (\<lambda>_. True)
       (case attempt r of
          Some e \<Rightarrow> raiseA e
        | None \<Rightarrow> thenA (open_session (round_clock r)) (receive_loop lib cm readable cfg (messages r)))
       session_failed)
     (thenA close_session (ret (attempt r = None)))"

text \<open>\<^verbatim>\<open>_run\<close> over the rounds to come; the result is how long it waited after each.\<close>

primrec transport_run ::
  "codec_lib \<Rightarrow> charmap \<Rightarrow> (bytes \<Rightarrow> string) \<Rightarrow> audio_config \<Rightarrow> round list \<Rightarrow> real \<Rightarrow> real list handler" where
  "transport_run lib cm readable cfg [] delay = ret []"
| "transport_run lib cm readable cfg (r # rs) delay = readA (\<lambda>s.
     if stop_set s then ret []
     else bindA (transport_round lib cm readable cfg r) (\<lambda>opened.
       let wait = (if opened then 1 else delay) in
       bindA (transport_run lib cm readable cfg rs (min 15 (wait * 2))) (\<lambda>waits. ret (wait # waits))))"

section \<open>Events\<close>

datatype event =
    Connect clock
  | Message clock bytes
  | SessionEnd py_error
  | Packet nat clock string bytes
  | UplinkPass clock clock bytes
  | DownlinkPass clock clock int
  | Registration clock "log_file list"
  | Refresh clock
  | RoutingPass clock "py_error + int \<times> (py_error + pyval)"
  | StatusPass clock
  | Command string "py_error + pyval"
  | SmsPass clock "string \<Rightarrow> bytes"
  | StopSignal

record worker =
  w_lib :: codec_lib
  w_charmap :: charmap
  w_readable :: "bytes \<Rightarrow> string"
  w_repr :: "pyval \<Rightarrow> string"
  w_boot :: string
  w_cfg :: audio_config

abbreviation input_endpoints :: "audio_config \<Rightarrow> pcm_input_config list" where
  "input_endpoints cfg \<equiv> pcm_input cfg # pcm_additional_inputs cfg"

definition quietly :: "'a handler \<Rightarrow> unit handler" where
  "quietly m = bindA m (\<lambda>_. ret ())"

fun handle :: "worker \<Rightarrow> event \<Rightarrow> unit handler" where
  "handle w (Connect ck) = open_session ck"
| "handle w (Message ck frame) = on_brew_binary (w_lib w) (w_charmap w) (w_readable w) (w_cfg w) ck frame"
| "handle w (SessionEnd e) = thenA (session_failed e) close_session"
| "handle w (Packet i ck sender packet) = handle_p25_packet (input_endpoints (w_cfg w) ! i) ck (w_boot w) sender packet"
| "handle w (UplinkPass ck due_ck uuid) = uplink_tick (w_lib w) (w_cfg w) ck due_ck (w_boot w) uuid"
| "handle w (DownlinkPass ck due_ck r) = downlink_tick (w_lib w) (w_cfg w) ck due_ck r"
| "handle w (Registration ck files) = registration_tick ck files"
| "handle w (Refresh ck) = subscriber_refresh_tick (w_cfg w) ck"
| "handle w (RoutingPass ck file) = routing_tick ck (w_boot w) file"
| "handle w (StatusPass ck) = quietly (status_tick ck)"
| "handle w (Command name document) = upd (\<lambda>s. s\<lparr>command_files := AList.update name document (command_files s)\<rparr>)"
| "handle w (SmsPass ck session) = sms_command_tick (w_repr w) ck session"
| "handle w StopSignal = upd request_stop"

text \<open>The clock shows a time the 64 bit fields of the protocol can hold, an endpoint exists and fresh ids have 16 bytes.\<close>

fun possible :: "worker \<Rightarrow> event \<Rightarrow> bool" where
  "possible w (Connect ck) = clock_ok ck"
| "possible w (Message ck frame) = True"
| "possible w (SessionEnd e) = True"
| "possible w (Packet i ck sender packet) = (clock_ok ck \<and> i < length (input_endpoints (w_cfg w)))"
| "possible w (UplinkPass ck due_ck uuid) = (clock_ok ck \<and> length uuid = 16)"
| "possible w (DownlinkPass ck due_ck r) = True"
| "possible w (Registration ck files) = clock_ok ck"
| "possible w (Refresh ck) = clock_ok ck"
| "possible w (RoutingPass ck file) = clock_ok ck"
| "possible w (StatusPass ck) = True"
| "possible w (Command name document) = True"
| "possible w (SmsPass ck session) = clock_ok ck"
| "possible w StopSignal = True"

inductive step :: "worker \<Rightarrow> bridge \<Rightarrow> event \<Rightarrow> bridge \<Rightarrow> bool" for w where
  returned: "possible w e \<Longrightarrow> handle w e s = (Inr (), t) \<Longrightarrow> step w s e t"
| raised: "possible w e \<Longrightarrow> handle w e s = (Inl err, t) \<Longrightarrow> step w s e t"

inductive_cases stepE: "step w s e t"
inductive_simps step_iff: "step w s e t"

text \<open>A worker as \<^verbatim>\<open>main\<close> starts it.\<close>

inductive started :: "worker \<Rightarrow> host \<Rightarrow> bridge \<Rightarrow> bool" for w h where
  "construct (w_cfg w) h ck None packages loaded = Inr s \<Longrightarrow> start_worker (w_cfg w) s = (Inr (), t) \<Longrightarrow> started w h t"

inductive_cases startedE: "started w h t"

definition worker_ok :: "worker \<Rightarrow> bool" where
  "worker_ok w \<longleftrightarrow> (\<exists>env path document. audio_config_load env path document = Inr (w_cfg w)) \<and>
     charmap_ok (w_charmap w)"

text \<open>\<open>resources w h\<close>: codec instances can be allocated and files can be written.\<close>

definition resources :: "worker \<Rightarrow> host \<Rightarrow> bool" where
  "resources w h \<longleftrightarrow> lib_alloc (w_lib w) \<and> disk h = None"

section \<open>Stopping with the threads alive\<close>

text \<open>\<^verbatim>\<open>stop\<close> runs while the other threads do: \<open>between i\<close> are the events they handle between its
  steps: after the active call was finished, after the farewells, after the stop event was set, and
  until they are joined. An exception there stays in its thread. To be joined the transport leaves its
  round, which closes a session that is still open; the joins are taken to be long enough. Writing the
  status may fail like every write.\<close>

definition elsewhere :: "worker \<Rightarrow> event list \<Rightarrow> unit handler" where
  "elsewhere w es = forA es (\<lambda>e _ s. (Inr (), snd (handle w e s))) ()"

definition leave_session :: "unit handler" where
  "leave_session = readA (\<lambda>s. if is_connected s \<or> socket_open (bio s) then close_session else ret ())"

definition stop_worker :: "worker \<Rightarrow> (nat \<Rightarrow> event list) \<Rightarrow> clock \<Rightarrow> pyval handler" where
  "stop_worker w between ck =
     thenA (finish_active (w_lib w) (w_cfg w) ck)
     (thenA (elsewhere w (between 0))
     (thenA (sign_off ck)
     (thenA (elsewhere w (between 1))
     (thenA (upd request_stop)
     (thenA (elsewhere w (between 2))
     (thenA (upd_io close_socket)
     (thenA (elsewhere w (between 3))
     (thenA leave_session
     (thenA (upd close_downlinks)
     (thenA (set_status [(''stoppedAt'', PStr (utc ck)), (''connected'', PBool False),
               (''registered'', PBool False), (''affiliated'', PBool False)])
     (thenA writing
       (readA (\<lambda>s. ret (status_write ck (bio s)))))))))))))))"

section \<open>The invariant after the constructor\<close>

definition routes_valid :: "routing_cfg \<Rightarrow> router \<Rightarrow> bool" where
  "routes_valid cfg r \<longleftrightarrow> router_ok r \<and> rt_config r = cfg \<and> (\<forall>tg \<in> fst ` set (dynamic r). in_24bit tg)"

lemma load_line_valid: "routes_valid cfg (fst s) \<Longrightarrow> routes_valid cfg (fst (load_line e m line s))"
  using router_ok_load_line [of s e m line]
  by (cases s) (auto simp: routes_valid_def load_line_def restore_def Let_def split: sum.splits prod.splits bool.splits if_splits dest!: in_set_updateD)

lemma load_routes_valid:
  assumes "finite (static_brew_groups cfg)"
  shows "routes_valid cfg (snd (load_dynamic_routes content e m (router_init cfg)))"
proof -
  have "routes_valid cfg (fst s) \<Longrightarrow> routes_valid cfg (fst (fold (load_line e m) ls s))" for ls s
    by (induction ls arbitrary: s) (simp_all add: load_line_valid)
  moreover have "routes_valid cfg (router_init cfg)"
    using router_ok_init [OF assms] by (simp add: routes_valid_def router_init_def)
  ultimately show ?thesis
    by (auto simp: load_dynamic_routes_def Let_def case_prod_unfold split: option.splits)
qed

lemma packable_24bit: "\<forall>g \<in> set gs. in_24bit g \<Longrightarrow> packable gs"
  by (fastforce simp: packable_def in_24bit_def)

definition router_fit :: "router \<Rightarrow> bool" where
  "router_fit r \<longleftrightarrow> router_ok r \<and> packable (groups r) \<and> routing_ok (rt_config r)"

lemma routes_valid_fit:
  assumes "routes_valid cfg r" "routing_ok cfg"
  shows "router_fit r"
proof -
  have ok: "router_ok r" "rt_config r = cfg" using assms(1) by (simp_all add: routes_valid_def)
  have "\<forall>g \<in> set (groups r). in_24bit g"
    using assms by (auto simp: groups_set [OF ok(1)] routes_valid_def routing_ok_def)
  then show ?thesis using ok assms(2) by (simp add: router_fit_def packable_24bit)
qed

lemma initial_issis_ok:
  assumes "list_all in_24bit (config_local_issis cfg)"
  shows "valid_ids (fst (initial_issis cfg h u)) \<and> snd (initial_issis cfg h u) \<subseteq> fst (initial_issis cfg h u)"
proof -
  have c: "valid_ids (set (config_local_issis cfg))" using assms by (auto simp: valid_ids_def list_all_iff)
  obtain D path off where d: "discover_registered_issis (dvm_logs h) = (D, path, off)" "valid_ids D"
    using valid_ids_discover [of "dvm_logs h"] by (cases "discover_registered_issis (dvm_logs h)") auto
  let ?C = "set (config_local_issis cfg)"
  let ?L = "?C \<union> D \<union> (if path = None then load_observed_issis (observed_content h) else {})"
  have L: "valid_ids ?L" using c d(2) valid_ids_load [of "observed_content h"] by simp
  show ?thesis
  proof (cases "?L = {}")
    case False
    then have "initial_issis cfg h u = (?L, ?C)"
      unfolding initial_issis_def Let_def d(1) by (simp only: prod.case if_False if_True not_False_eq_True simp_thms)
    then show ?thesis using L by auto
  next
    case True
    then have C: "?C = {}" by blast
    show ?thesis
    proof (cases "discover_affiliation_anchor (dvm_logs h)")
      case None
      then show ?thesis using True C
        unfolding initial_issis_def Let_def d(1) prod.case True by (simp add: valid_ids_def split: sum.splits)
    next
      case (Some a)
      then show ?thesis using discover_anchor_range [OF Some] C
        unfolding initial_issis_def Let_def d(1) prod.case True by (simp add: valid_ids_def)
    qed
  qed
qed

lemma audio_config_load_facts:
  assumes "audio_config_load env path document = Inr cfg"
  shows "routing_ok (ac_routing cfg) \<and> list_all in_24bit (config_local_issis cfg)"
  by (rule audio_config_load_InrE [OF assms]) (simp add: routing_ok_def load_sections_Inr list_all_iff)

lemma bridge_init_ok:
  assumes "audio_config_load env path document = Inr cfg" "disk h = None"
  shows "bridge_ok (bridge_init cfg h ck u)"
proof -
  note ok = audio_config_load_facts [OF assms(1)]
  obtain locals anchors where i: "initial_issis cfg h u = (locals, anchors)" by (rule prod.exhaust)
  obtain D log_path off where d: "discover_registered_issis (dvm_logs h) = (D, log_path, off)" by (metis prod_cases3)
  have "router_fit (snd (load_dynamic_routes (dynamic_content h) (epoch ck) (mono ck) (router_init (ac_routing cfg))))"
    using ok by (intro routes_valid_fit [OF load_routes_valid]) (simp_all add: routing_ok_def)
  moreover have "valid_ids locals" "anchors \<subseteq> locals" using initial_issis_ok [of cfg h u] ok i by simp_all
  ultimately show ?thesis
    unfolding bridge_init_def Let_def i d
    using assms(2) by (simp add: bridge_ok_def core_ok_def downlink_ok_def uplink_ok_def router_fit_def core.defs)
qed

section \<open>Handlers keep the worker running\<close>

lemma up_on_io [act_rules]: "(\<And>s i. P s \<Longrightarrow> P (s\<lparr>bio := i\<rparr>)) \<Longrightarrow> keeps P (on_io m)"
  by (auto simp: keeps_def on_io_def split: prod.splits)

lemma up_count [act_rules]: "(\<And>s i. P s \<Longrightarrow> P (s\<lparr>bio := i\<rparr>)) \<Longrightarrow> keeps P (count k)"
  and up_status [act_rules]: "(\<And>s i. P s \<Longrightarrow> P (s\<lparr>bio := i\<rparr>)) \<Longrightarrow> keeps P (set_status vs)"
  and up_io [act_rules]: "(\<And>s i. P s \<Longrightarrow> P (s\<lparr>bio := i\<rparr>)) \<Longrightarrow> keeps P (upd_io f)"
  by (simp_all add: keeps_def)

lemma keeps_pair [act_rules]: "(\<And>a b. x = (a, b) \<Longrightarrow> keeps P (f a b)) \<Longrightarrow> keeps P (case x of (a, b) \<Rightarrow> f a b)"
  by (cases x) simp

lemma keeps_either [act_rules]:
  "(\<And>e. r = Inl e \<Longrightarrow> keeps P (f e)) \<Longrightarrow> (\<And>x. r = Inr x \<Longrightarrow> keeps P (g x)) \<Longrightarrow>
   keeps P (case r of Inl e \<Rightarrow> f e | Inr x \<Rightarrow> g x)"
  by (cases r) simp_all

lemmas core_handlers = on_brew_connected_def refresh_brew_subscribers_def subscriber_refresh_tick_def send_subscriber_def
  ensure_local_issi_def remove_local_issi_def reset_local_ars_issis_def process_ars_log_line_def registration_tick_def
  send_affiliation_def recover_rejected_uplink_session_def clear_dynamic_routes_def install_routing_def
  reload_routing_if_changed_def routing_tick_def status_tick_def save_routes_def save_issis_def Let_def

lemmas media_handlers = begin_uplink_def finish_uplink_def send_uplink_voice_def end_of_call_def send_block_def
  feed_frame_def send_frame_def uplink_tick_def own_uuid_def retire_def

text \<open>No handler but the two of the uplink touches these.\<close>

definition flags :: "bridge \<Rightarrow> bool \<times> uplink_call option" where
  "flags s = (stop_set s, active_uplink s)"

lemma flags_upd [simp]:
  "flags (s\<lparr>bio := i\<rparr>) = flags s" "flags (s\<lparr>brt := r\<rparr>) = flags s" "flags (s\<lparr>local_issis := l\<rparr>) = flags s"
  "flags (s\<lparr>registration_path := rp\<rparr>) = flags s" "flags (s\<lparr>registration_offset := n\<rparr>) = flags s"
  "flags (s\<lparr>last_subscriber_refresh := x\<rparr>) = flags s" "flags (s\<lparr>last_session_recovery := x\<rparr>) = flags s"
  "flags (s\<lparr>routing_mtime := m\<rparr>) = flags s" "flags (s\<lparr>owned_uuids := w\<rparr>) = flags s"
  "flags (s\<lparr>ignored_uuids := g\<rparr>) = flags s" "flags (s\<lparr>uplink_queue := q\<rparr>) = flags s"
  "flags (s\<lparr>last_p25_rx := x\<rparr>) = flags s" "flags (s\<lparr>last_disconnect_at := x\<rparr>) = flags s"
  "flags (s\<lparr>downlink_calls := c\<rparr>) = flags s" "flags (s\<lparr>pending_sds := p\<rparr>) = flags s"
  "flags (s\<lparr>recent_sds := e\<rparr>) = flags s" "flags (s\<lparr>outbox := f\<rparr>) = flags s"
  "flags (s\<lparr>command_files := cf\<rparr>) = flags s" "flags (s\<lparr>result_files := rf\<rparr>) = flags s"
  "flags (s\<lparr>error_files := ef\<rparr>) = flags s" "flags (s\<lparr>retired := h\<rparr>) = flags s"
  by (simp_all add: flags_def)

lemma flags_put_call [simp]: "flags (put_call c s) = flags s"
  by (simp add: flags_def put_call_def)

lemma core_up:
  "keeps (\<lambda>s. flags s = x) (ensure_local_issi ck i re :: unit handler)"
  "keeps (\<lambda>s. flags s = x) (clear_dynamic_routes ck boot :: unit handler)"
  "keeps (\<lambda>s. flags s = x) (routing_tick ck boot file :: unit handler)"
  "keeps (\<lambda>s. flags s = x) (registration_tick ck files :: unit handler)"
  unfolding core_handlers by (intro act_rules; simp add: case_prod_unfold)+

lemma brew_up:
  "keeps (\<lambda>s. flags s = x) (on_brew_connected ck :: unit handler)"
  "keeps (\<lambda>s. flags s = x) (subscriber_refresh_tick cfg ck :: unit handler)"
  "keeps (\<lambda>s. flags s = x) (recover_rejected_uplink_session ck :: unit handler)"
  "keeps (\<lambda>s. flags s = x) (status_tick ck :: pyval handler)"
  unfolding core_handlers by (intro act_rules; simp add: case_prod_unfold)+

text \<open>What the media loops leave alone.\<close>

definition beside_uplink :: "bridge \<Rightarrow> _" where
  "beside_uplink s = (stop_set s, pending_sds s, recent_sds s, command_files s)"

definition beside_downlink :: "bridge \<Rightarrow> _" where
  "beside_downlink s = (beside_uplink s, brt s, local_issis s, anchor_issis s, owned_uuids s, uplink_queue s, active_uplink s, disk_error s)"

lemma uplink_beside: "keeps (\<lambda>s. beside_uplink s = x) (uplink_tick lib cfg ck due_ck boot uuid)"
  unfolding media_handlers core_handlers
  by (intro act_rules; auto simp: beside_uplink_def case_prod_unfold take_frame_def split: if_splits)

lemma send_udp_beside: "keeps (\<lambda>s. beside_downlink s = x) (send_udp packet es)"
  by (induction es) (simp_all, (intro act_rules; simp add: beside_downlink_def beside_uplink_def)+)

lemma downlink_beside: "keeps (\<lambda>s. beside_downlink s = x) (downlink_tick lib cfg ck due_ck r)"
  unfolding downlink_tick_def play_downlink_block_def send_pcm_chunk_def Let_def
  by (intro act_rules send_udp_beside; simp add: beside_downlink_def beside_uplink_def case_prod_unfold take_block_def
      select_downlink_def remove_downlink_def put_call_def split: if_splits option.splits list.splits)

lemma sms_up: "keeps (\<lambda>s. flags s = x) (sms_command_tick rep ck session)"
proof -
  have "keeps (\<lambda>s. flags s = x) (sms_pass rep ck session names)" for names
    by (induction names)
      (simp_all, (intro act_rules core_up; simp add: process_sms_command_def reject_command_def)+)
  then show ?thesis unfolding sms_command_tick_def by (intro act_rules)
qed

lemma uplink_returns:
  assumes "clock_ok ck" "lib_alloc lib" "length uuid = 16"
  shows "returns (uplink_tick lib cfg ck due_ck boot uuid)"
  unfolding does_def
proof (intro allI impI)
  fix s assume s: "bridge_ok s"
  obtain t where t: "uplink_tick lib cfg ck due_ck boot uuid s = (Inr (), t)" "media_ok t"
    using s by (auto intro: uplink_tick_ok [OF bridge_ok_media assms])
  have "beside_uplink t = beside_uplink s" using keepsD [OF uplink_beside refl] t(1) by (metis snd_conv)
  then have "bridge_ok t" using s t(2) by (simp add: beside_uplink_def bridge_ok_def media_ok_def)
  then show "\<exists>x t. uplink_tick lib cfg ck due_ck boot uuid s = (Inr x, t) \<and> bridge_ok t \<and> anyhow s t"
    using t(1) by blast
qed

lemma downlink_returns:
  assumes "audio_ok cfg"
  shows "returns (downlink_tick lib cfg ck due_ck r)"
  unfolding does_def
proof (intro allI impI)
  fix s assume s: "bridge_ok s"
  obtain t where t: "downlink_tick lib cfg ck due_ck r s = (Inr (), t)" "downlink_ok t"
    by (rule downlink_tick_ok [OF bridge_okD(2) [OF s] assms])
  have "beside_downlink t = beside_downlink s" using keepsD [OF downlink_beside refl] t(1) by (metis snd_conv)
  then have "bridge_ok t"
    using s t(2) by (simp add: beside_downlink_def beside_uplink_def bridge_ok_def core_ok_def uplink_ok_def)
  then show "\<exists>x t. downlink_tick lib cfg ck due_ck r s = (Inr x, t) \<and> bridge_ok t \<and> anyhow s t"
    using t(1) by blast
qed

lemma downlink_up: "keeps (\<lambda>s. flags s = x) (downlink_tick lib cfg ck due_ck r)"
  unfolding keeps_def
proof (intro allI impI)
  fix s assume "flags s = x"
  moreover have "beside_downlink (snd (downlink_tick lib cfg ck due_ck r s)) = beside_downlink s"
    by (rule keepsD [OF downlink_beside refl])
  ultimately show "flags (snd (downlink_tick lib cfg ck due_ck r s)) = x"
    by (simp add: flags_def beside_downlink_def beside_uplink_def)
qed

section \<open>Routes\<close>

lemma bridge_ok_brt: "bridge_ok s \<Longrightarrow> router_fit r \<Longrightarrow> bridge_ok (s\<lparr>brt := r\<rparr>)"
  by (simp add: bridge_ok_def core_ok_def router_fit_def downlink_ok_def uplink_ok_def)

lemma bridge_ok_fit: "bridge_ok s \<Longrightarrow> router_fit (brt s)"
  by (simp add: bridge_ok_def core_ok_def router_fit_def)

lemma router_fit_less:
  assumes "router_fit r" "router_ok r'" "rt_config r' = rt_config r" "fst ` set (dynamic r') \<subseteq> fst ` set (dynamic r)"
  shows "router_fit r'"
proof -
  have "router_ok r" using assms(1) by (simp add: router_fit_def)
  then have "set (groups r') \<subseteq> set (groups r)" using assms(2-4) by (auto simp: groups_set)
  then show ?thesis using assms(1-3) by (auto simp: router_fit_def packable_def)
qed

lemma clear_fit: "router_fit r \<Longrightarrow> router_fit (snd (clear_routes r))"
proof (rule router_fit_less)
  assume "router_fit r"
  then show "router_ok (snd (clear_routes r))" by (simp add: router_fit_def router_ok_clear)
qed (simp_all add: clear_routes_def)

lemma expire_fit: "router_fit r \<Longrightarrow> router_fit (snd (expire now r))"
proof (rule router_fit_less)
  assume f: "router_fit r"
  then have ok: "router_ok r" by (simp add: router_fit_def)
  show "router_ok (snd (expire now r))" by (rule router_ok_expire [OF ok])
  show "fst ` set (dynamic (snd (expire now r))) \<subseteq> fst ` set (dynamic r)"
    using ok expire_dynamic [of r now] by (auto simp: router_ok_def dict_filter_def)
qed simp_all

lemma install_fit: "bridge_ok s \<Longrightarrow> routing_ok cfg \<Longrightarrow> router_fit (install_config cfg (brt s))"
  using install_core_ok [OF bridge_okD(1)] by (auto simp: core_ok_def router_fit_def)

lemma bridge_ok_marks [simp]:
  "bridge_ok (s\<lparr>routing_mtime := m\<rparr>) = bridge_ok s" "bridge_ok (s\<lparr>registration_path := rp\<rparr>) = bridge_ok s"
  "bridge_ok (s\<lparr>registration_offset := n\<rparr>) = bridge_ok s"
  by (simp_all add: bridge_ok_def core_ok_def downlink_ok_def uplink_ok_def)

lemma send_affiliation_keeps [act_rules]: "keeps bridge_ok (send_affiliation ck t gs)"
  unfolding send_affiliation_def send_subscriber_def by (intro act_rules; simp)

lemma save_routes_keeps [act_rules]: "keeps bridge_ok (save_routes boot)"
  unfolding save_routes_def by (intro act_rules; simp)

lemma expire_keeps:
  "keeps bridge_ok (call (\<lambda>s. let (expired, r) = expire (mono ck) (brt s) in (expired, s\<lparr>brt := r\<rparr>)))"
  by (rule keeps_call) (simp add: case_prod_unfold Let_def bridge_ok_brt expire_fit bridge_ok_fit)

lemma install_keeps:
  assumes "routing_ok cfg"
  shows "keeps bridge_ok (install_routing ck boot mtime cfg)"
proof (unfold install_routing_def Let_def, rule keeps_read)
  fix s :: bridge assume "bridge_ok s"
  then have ok: "bridge_ok (s\<lparr>brt := install_config cfg (brt s)\<rparr>)" by (intro bridge_ok_brt install_fit assms)
  have "bridge_ok (snd (thenA (upd (\<lambda>s'. s'\<lparr>brt := install_config cfg (brt s)\<rparr>)) m s))" if "keeps bridge_ok m" for m :: "unit handler"
    using keepsD [OF that ok] by simp
  note later = this
  show "bridge_ok (snd (thenA (upd (brt_update (\<lambda>_. install_config cfg (brt s))))
     (thenA (save_routes boot)
     (thenA (upd (\<lambda>s. s\<lparr>routing_mtime := mtime\<rparr>))
     (thenA (send_affiliation ck SUBSCRIBER_DEAFFILIATE (sorted_list_of_set (set (groups (brt s)) - set (groups (install_config cfg (brt s))))))
     (thenA (send_affiliation ck SUBSCRIBER_AFFILIATE (sorted_list_of_set (set (groups (install_config cfg (brt s))) - set (groups (brt s)))))
       (set_status [(''lastError'', PNone),
          (''staticTalkgroups'', ints_value (sorted_list_of_set (static_brew_groups cfg))),
          (''dynamicTalkgroups'', snapshot_value (install_config cfg (brt s))),
          (''talkgroupMappings'', mappings_value cfg)]))))) s))"
    by (rule later) (intro act_rules; simp)
qed

lemma clear_routes_keeps: "keeps bridge_ok (clear_dynamic_routes ck boot)"
  unfolding clear_dynamic_routes_def
  by (intro act_rules; simp add: case_prod_unfold Let_def bridge_ok_brt clear_fit bridge_ok_fit)

lemma routing_keeps: "keeps bridge_ok (routing_tick ck boot file)"
proof -
  have "keeps bridge_ok (reload_routing_if_changed ck boot file)"
    unfolding reload_routing_if_changed_def
    by (intro act_rules install_keeps; auto simp: bindE_eq_Inr parse_routing_ok split: sum.splits prod.splits if_splits)
  then show ?thesis
    unfolding routing_tick_def by (intro act_rules expire_keeps; simp)
qed

lemma ensure_returns: "clock_ok ck \<Longrightarrow> returns (ensure_local_issi ck issi re)"
proof (rule returns_settled, unfold does_def, intro allI impI)
  fix s :: bridge assume "clock_ok ck" "core_ok s"
  then show "\<exists>x t. ensure_local_issi ck issi re s = (Inr x, t) \<and> core_ok t \<and> settled s t"
    by (metis ensure_effect)
qed

lemma log_line_returns: "clock_ok ck \<Longrightarrow> returns (process_ars_log_line ck line)"
proof (rule returns_settled, unfold does_def, intro allI impI)
  fix s :: bridge assume "clock_ok ck" "core_ok s"
  then show "\<exists>x t. process_ars_log_line ck line s = (Inr x, t) \<and> core_ok t \<and> settled s t"
    by (metis process_line_effect)
qed

lemma registration_returns: "clock_ok ck \<Longrightarrow> returns (registration_tick ck files)"
  unfolding registration_tick_def Let_def case_prod_unfold
  by (intro does_rules anyhow_preorder log_line_returns returns_upd; simp split: if_splits)

lemma clear_routes_returns:
  assumes "clock_ok ck"
  shows "returns (clear_dynamic_routes ck boot)"
  unfolding does_def
proof (intro allI impI)
  fix s assume s: "bridge_ok s"
  obtain cleared r where c: "clear_routes (brt s) = (cleared, r)" by (rule prod.exhaust)
  have g: "set cleared \<subseteq> set (groups (brt s))"
    using c core_okD(1) [OF bridge_okD(1) [OF s]] by (auto simp: clear_routes_def groups_set)
  have p: "packable cleared" using g core_okD(2) [OF bridge_okD(1) [OF s]] by (auto simp: packable_def)
  have ok: "bridge_ok (s\<lparr>brt := r\<rparr>)"
    using bridge_ok_brt [OF s clear_fit [OF bridge_ok_fit [OF s]]] c by simp
  let ?rest = "thenA (save_routes boot) (readA (\<lambda>s. thenA (set_status [(''dynamicTalkgroups'', snapshot_value (brt s))])
       (if cleared \<noteq> [] then send_affiliation ck SUBSCRIBER_DEAFFILIATE cleared else ret ()))) :: unit handler"
  have "returns (send_affiliation ck SUBSCRIBER_DEAFFILIATE cleared :: unit handler)"
    by (rule returns_quiet [OF send_affiliation_does [OF assms p]])
  then have "returns ?rest" unfolding save_routes_def by (intro does_rules anyhow_preorder returns_upd; simp)
  then obtain x t where t: "?rest (s\<lparr>brt := r\<rparr>) = (Inr x, t)" "bridge_ok t" using ok by (rule returnsE)
  have "clear_dynamic_routes ck boot s = ?rest (s\<lparr>brt := r\<rparr>)"
    unfolding clear_dynamic_routes_def by (simp add: c bindA_def)
  then show "\<exists>x t. clear_dynamic_routes ck boot s = (Inr x, t) \<and> bridge_ok t \<and> anyhow s t" using t by auto
qed

lemma be_field_u32: "u32 (be_val (slice a b packet))" if "b = a + 4"
proof -
  have "be_val (slice a (a + 4) packet) < 256 ^ length (slice a (a + 4) packet)"
    unfolding be_val_def using le_val_bound [of "rev (slice a (a + 4) packet)"] by simp
  also have "\<dots> \<le> 256 ^ 4" by (rule power_increasing) simp_all
  finally show ?thesis using that by (simp add: u32_def be_val_def)
qed

lemma parse_dvm_rtp_frame:
  assumes "parse_dvm_rtp packet = Some (source, destination, sequence, marker, pcm)"
  shows "u32 source" "u32 destination" "length pcm = PCM_BYTES_20MS"
  using assms be_field_u32 [of 336 332 packet] be_field_u32 [of 340 336 packet]
  by (auto simp: parse_dvm_rtp_def Let_def split: if_splits)

lemma queue_frame_ok: "bridge_ok s \<Longrightarrow> pcm_frame_ok f \<Longrightarrow> bridge_ok (queue_pcm f s)"
  by (auto simp: bridge_ok_def core_ok_def downlink_ok_def uplink_ok_def queue_pcm_def push_bounded_def
      list_all_iff dest: list.set_sel(2) [rotated])

lemma does_pair [does_rules]:
  "(\<And>a b. x = (a, b) \<Longrightarrow> does P R (f a b)) \<Longrightarrow> does P R (case x of (a, b) \<Rightarrow> f a b)"
  by (cases x) simp

lemma packet_returns:
  assumes "clock_ok ck"
  shows "returns (handle_p25_packet endpoint ck boot sender packet)"
  unfolding handle_p25_packet_def
  by (intro does_rules anyhow_preorder clear_routes_returns ensure_returns assms returns_upd)
    (auto intro!: queue_frame_ok simp: pcm_frame_ok_def parse_dvm_rtp_frame)

lemma does_keeps: "does P R m \<Longrightarrow> keeps P m"
  unfolding does_def keeps_def by (metis snd_conv)

lemma sms_keeps:
  assumes "clock_ok ck"
  shows "keeps bridge_ok (sms_command_tick rep ck session)"
proof -
  have e: "keeps bridge_ok (ensure_local_issi ck source False :: unit handler)" for source
    by (rule does_keeps [OF ensure_returns [OF assms]])
  have d: "bridge_ok s \<Longrightarrow> bridge_ok (s\<lparr>result_files := rf, command_files := AList.delete name (command_files s)\<rparr>)"
    "bridge_ok s \<Longrightarrow> bridge_ok (s\<lparr>command_files := AList.delete name (command_files s), error_files := ef\<rparr>)"
    "bridge_ok s \<Longrightarrow> bridge_ok (s\<lparr>command_files := AList.delete name (command_files s)\<rparr>)" for s rf ef name
    by (simp_all add: bridge_ok_def core_ok_def downlink_ok_def uplink_ok_def)
  have "keeps bridge_ok (sms_pass rep ck session names)" for names
    by (induction names)
      (simp_all, (intro act_rules e; simp add: process_sms_command_def reject_command_def d)+)
  then show ?thesis unfolding sms_command_tick_def by (intro act_rules)
qed

lemma packet_up: "keeps (\<lambda>s. flags s = x) (handle_p25_packet endpoint ck boot sender packet)"
  unfolding handle_p25_packet_def by (intro act_rules core_up; simp add: queue_pcm_def)

lemma message_up: "keeps (\<lambda>s. flags s = x) (on_brew_binary lib cm readable cfg ck frame)"
  unfolding on_brew_binary_def on_brew_error_def on_call_frame_def handle_inbound_sds_def deliver_sds_def
    send_brew_sds_report_def start_or_update_downlink_def queue_downlink_voice_def core_handlers Let_def
  by (intro act_rules; simp add: end_downlink_def expire_owned_uuids_def ignore_uuid_def Let_def split: option.splits)

lemma open_session_returns: "clock_ok ck \<Longrightarrow> returns (open_session ck)"
  unfolding open_session_def upd_io_def
  by (intro does_rules anyhow_preorder returns_upd returns_quiet on_brew_connected_does; simp)

lemma session_end_returns: "returns (thenA (session_failed e) close_session)"
  unfolding session_failed_def close_session_def upd_io_def
  by (intro does_rules anyhow_preorder returns_upd; simp)

lemma session_up:
  "keeps (\<lambda>s. flags s = x) (open_session ck)" "keeps (\<lambda>s. flags s = x) (session_failed e)"
  "keeps (\<lambda>s. flags s = x) close_session"
  unfolding open_session_def session_failed_def close_session_def by (intro act_rules brew_up; simp)+

text \<open>Every event but a pass of the routing loop and of the SMS command loop is handled without an
  exception, when the codec can be allocated and files can be written.\<close>

fun fallible :: "event \<Rightarrow> bool" where
  "fallible (RoutingPass ck file) = True"
| "fallible (SmsPass ck session) = True"
| "fallible _ = False"

lemma handle_returns:
  assumes "worker_ok w" "lib_alloc (w_lib w)" "possible w e" "\<not> fallible e"
  shows "returns (handle w e)"
proof -
  have w: "charmap_ok (w_charmap w)" "audio_ok (w_cfg w)"
    using assms(1) audio_config_load_audio_ok by (auto simp: worker_ok_def)
  show ?thesis
  proof (cases e)
    case (Refresh ck)
    then have "returns (subscriber_refresh_tick (w_cfg w) ck :: unit handler)"
      using assms(3) unfolding subscriber_refresh_tick_def
      by (intro does_rules anyhow_preorder returns_quiet refresh_does) simp_all
    then show ?thesis using Refresh by simp
  next
    case (StatusPass ck)
    have "returns (quietly (status_tick ck))"
      unfolding quietly_def status_tick_def by (intro does_rules anyhow_preorder)
    then show ?thesis using StatusPass by simp
  next
    case (Command name document)
    have "returns (upd (\<lambda>s. s\<lparr>command_files := AList.update name document (command_files s)\<rparr>))"
      by (rule returns_upd) (simp add: bridge_ok_dicts bridge_okD)
    then show ?thesis using Command by (simp only: handle.simps)
  next
    case StopSignal
    have "returns (upd request_stop)"
      by (rule returns_upd) (simp add: request_stop_def bridge_ok_def core_ok_def downlink_ok_def uplink_ok_def)
    then show ?thesis using StopSignal by simp
  qed (use assms w in \<open>simp_all add: open_session_returns on_brew_binary_safe session_end_returns packet_returns
      uplink_returns downlink_returns registration_returns\<close>)
qed

lemma handle_keeps:
  assumes "worker_ok w" "lib_alloc (w_lib w)" "possible w e"
  shows "keeps bridge_ok (handle w e)"
proof (cases "fallible e")
  case False
  then show ?thesis by (intro does_keeps [OF handle_returns [OF assms]])
next
  case True
  then show ?thesis using assms(3) by (cases e) (simp_all add: routing_keeps sms_keeps)
qed

fun of_uplink :: "event \<Rightarrow> bool" where
  "of_uplink (UplinkPass ck due_ck uuid) = True"
| "of_uplink _ = False"

lemma handle_flags: "\<not> of_uplink e \<Longrightarrow> e \<noteq> StopSignal \<Longrightarrow> keeps (\<lambda>s. flags s = x) (handle w e)"
proof (cases e)
  case (SessionEnd err)
  have "keeps (\<lambda>s. flags s = x) (thenA (session_failed err) close_session)" by (intro act_rules session_up)
  then show ?thesis using SessionEnd by simp
next
  case (StatusPass ck)
  have "keeps (\<lambda>s. flags s = x) (quietly (status_tick ck))" unfolding quietly_def by (intro act_rules brew_up)
  then show ?thesis using StatusPass by simp
next
  case (Command name document)
  have "keeps (\<lambda>s. flags s = x) (upd (\<lambda>s. s\<lparr>command_files := AList.update name document (command_files s)\<rparr>))"
    by (intro act_rules) simp
  then show ?thesis using Command by (simp only: handle.simps)
qed (simp_all add: session_up message_up packet_up downlink_up core_up brew_up sms_up)

section \<open>Every reachable state\<close>

interpretation worker_system: transitions "started w h" "step w" "\<lambda>s. worker_ok w \<and> resources w h \<longrightarrow> bridge_ok s" for w h
proof unfold_locales
  fix s assume "started w h s"
  then obtain ck packages loaded s0 where
      c: "construct (w_cfg w) h ck None packages loaded = Inr s0" "start_worker (w_cfg w) s0 = (Inr (), s)"
    by (rule startedE)
  show "worker_ok w \<and> resources w h \<longrightarrow> bridge_ok s"
  proof
    assume w: "worker_ok w \<and> resources w h"
    then obtain env path document where load: "audio_config_load env path document = Inr (w_cfg w)" and d: "disk h = None"
      by (auto simp: worker_ok_def resources_def)
    obtain u where "s0 = bridge_init (w_cfg w) h ck u" using c(1) d by (auto simp: construct_def bindE_eq_Inr)
    then have "bridge_ok s0" using bridge_init_ok [OF load d] by simp
    then show "bridge_ok s" using c(2) by (auto simp: start_worker_def)
  qed
next
  fix s e t assume inv: "worker_ok w \<and> resources w h \<longrightarrow> bridge_ok s" and st: "step w s e t"
  show "worker_ok w \<and> resources w h \<longrightarrow> bridge_ok t"
  proof
    assume w: "worker_ok w \<and> resources w h"
    have "possible w e \<and> t = snd (handle w e s)" using st by (auto elim: stepE)
    then show "bridge_ok t" using keepsD [OF handle_keeps] inv w by (auto simp: resources_def)
  qed
qed

text \<open>C1: on a host where codec instances can be allocated and files can be written, every state
  the worker can reach, from any configuration file that loads, any state files and log of the host
  and with the messages, packets, passes of the loops, network failures and the stop signal in any
  order, is well formed: routes and radios fit their fields, the queue of the uplink is bounded,
  every call has an open codec of its kind and every codec of a call that is gone was closed once.
  In each of them every event but a pass of the routing or the SMS loop is handled without an
  exception, so that none of the other threads can die.\<close>

theorem worker_reachable_ok:
  assumes "worker_ok w" "resources w h" "reach (started w h) (step w) s" "possible w e"
  shows "bridge_ok s \<and> (\<not> fallible e \<longrightarrow> (\<exists>t. handle w e s = (Inr (), t) \<and> step w s e t))"
proof -
  have r: "bridge_ok s" using worker_system.reach_inv [OF assms(3)] assms(1,2) by blast
  have "\<exists>t. handle w e s = (Inr (), t) \<and> step w s e t" if nf: "\<not> fallible e"
  proof -
    obtain x t where t: "handle w e s = (Inr x, t)"
      using handle_returns [OF assms(1) _ assms(4) nf] assms(2) r by (auto simp: does_def resources_def)
    then show ?thesis using step.returned [OF assms(4), of s t] by simp
  qed
  then show ?thesis using r by simp
qed

text \<open>Both conditions are needed. A packet from a radio that is not known yet ends the receiving thread
  when the list of radios cannot be saved, and so does the first frame of a call for the uplink thread
  when the codec library refuses an instance: neither loop catches the exception.\<close>

lemma failed_save_ends_receiving:
  assumes "disk_error s = Some err" "allowed_sources (input_endpoints (w_cfg w) ! i) = {}"
    "parse_dvm_rtp packet = Some (source, destination, sequence, marker, pcm)"
    "destination \<noteq> disconnect_talkgroup (rt_config (brt s))" "brew_for_p25 (brt s) destination = Some b"
    "in_24bit source" "source \<notin> local_issis s"
  shows "\<exists>t. handle w (Packet i ck sender packet) s = (Inl err, t) \<and> uplink_queue t = uplink_queue s"
  using assms by (simp add: handle_p25_packet_def ensure_local_issi_def)

lemma refused_codec_ends_uplink:
  assumes "core_ok s" "online (bio s)" "clock_ok ck" "\<not> lib_alloc lib" "brew_for_p25 (brt s) p25 = Some b" "u32 p25"
  shows "\<exists>t. begin_uplink lib cfg ck boot uuid source p25 s = (Inl (RuntimeError ''tetra-codec allocation failed''), t)"
proof -
  have b: "u32 b" by (rule brew_for_p25_u32 [OF core_okD(7) [OF assms(1)] assms(6,5)])
  obtain t where t: "open_route ck boot b s = (Inr (), t)" "says (new_route_frames ck b s) (bio s) (bio t)"
    by (rule open_route_effect [OF assms(1,3) b])
  have "is_connected t" using t(2) assms(2) by (simp add: says_def online_def)
  then show ?thesis using t(1) assms(4,5) by (simp add: begin_uplink_open open_handle_def)
qed

section \<open>Stopping releases everything\<close>

definition sign_off_frames :: "clock \<Rightarrow> bridge \<Rightarrow> int \<Rightarrow> bytes list" where
  "sign_off_frames ck s i = [subscriber_frame ck SUBSCRIBER_DEAFFILIATE (groups (brt s)) i,
     subscriber_frame ck SUBSCRIBER_DEREGISTER [] i]"

lemma sign_off_loop_online:
  assumes "clock_ok ck" "packable gs" "list_all in_24bit is" "online (bio s)"
  shows "\<exists>n. forA is (\<lambda>issi _. thenA (send_subscriber ck SUBSCRIBER_DEAFFILIATE gs issi)
      (thenA (send_subscriber ck SUBSCRIBER_DEREGISTER [] issi) (ret ()))) () s =
    (Inr (), s\<lparr>bio := (bio s)\<lparr>attempts := n, sent := sent (bio s) @ concat (map (\<lambda>i.
      [subscriber_frame ck SUBSCRIBER_DEAFFILIATE gs i, subscriber_frame ck SUBSCRIBER_DEREGISTER [] i]) is)\<rparr>\<rparr>)"
  using assms(3,4)
proof (induction "is" arbitrary: s)
  case Nil
  show ?case by (intro exI [of _ "attempts (bio s)"]) simp
next
  case (Cons i "is")
  let ?a = "subscriber_frame ck SUBSCRIBER_DEAFFILIATE gs i"
  let ?b = "subscriber_frame ck SUBSCRIBER_DEREGISTER [] i"
  let ?s1 = "s\<lparr>bio := (bio s)\<lparr>attempts := attempts (bio s) + 1, sent := sent (bio s) @ [?a]\<rparr>\<rparr>"
  let ?s2 = "s\<lparr>bio := (bio s)\<lparr>attempts := attempts (bio s) + 2, sent := sent (bio s) @ [?a, ?b]\<rparr>\<rparr>"
  have i: "in_24bit i" using Cons.prems(1) by simp
  have one: "send_subscriber ck SUBSCRIBER_DEAFFILIATE gs i s = (Inr True, ?s1)"
    by (rule send_subscriber_online [OF assms(1,2) i Cons.prems(2)])
  have two: "send_subscriber ck SUBSCRIBER_DEREGISTER [] i ?s1 = (Inr True, ?s2)"
    using send_subscriber_online [OF assms(1) packable_Nil i, of ?s1] Cons.prems(2) by simp
  have "online (bio ?s2)" using Cons.prems(2) by simp
  with Cons.IH [of ?s2] Cons.prems(1) obtain n where n: "forA is (\<lambda>issi _. thenA (send_subscriber ck SUBSCRIBER_DEAFFILIATE gs issi)
      (thenA (send_subscriber ck SUBSCRIBER_DEREGISTER [] issi) (ret ()))) () ?s2 =
    (Inr (), ?s2\<lparr>bio := (bio ?s2)\<lparr>attempts := n, sent := sent (bio ?s2) @ concat (map (\<lambda>i.
      [subscriber_frame ck SUBSCRIBER_DEAFFILIATE gs i, subscriber_frame ck SUBSCRIBER_DEREGISTER [] i]) is)\<rparr>\<rparr>)"
    by auto
  have both: "thenA (send_subscriber ck SUBSCRIBER_DEAFFILIATE gs i) (thenA (send_subscriber ck SUBSCRIBER_DEREGISTER [] i) (ret ())) s =
      (Inr (), ?s2)"
    by (simp only: thenA_def bindA_def one two prod.case sum.case)
  show ?case unfolding forA.simps bindA_def both prod.case sum.case n by (intro exI [of _ n]) simp
qed

lemma sign_off_online:
  assumes "clock_ok ck" "core_ok s" "online (bio s)"
  obtains n where "sign_off ck s = (Inr (), s\<lparr>bio := (bio s)\<lparr>attempts := n, sent := sent (bio s) @
    concat (map (sign_off_frames ck s) (sorted_list_of_set (local_issis s)))\<rparr>\<rparr>)"
proof -
  have "list_all in_24bit (sorted_list_of_set (local_issis s))"
    using core_okD(3) [OF assms(2)] by (simp add: valid_ids_def list_all_iff)
  from sign_off_loop_online [OF assms(1) core_okD(2) [OF assms(2)] this assms(3)]
  obtain n where n: "forA (sorted_list_of_set (local_issis s)) (\<lambda>issi _. thenA (send_subscriber ck SUBSCRIBER_DEAFFILIATE (groups (brt s)) issi)
      (thenA (send_subscriber ck SUBSCRIBER_DEREGISTER [] issi) (ret ()))) () s =
    (Inr (), s\<lparr>bio := (bio s)\<lparr>attempts := n, sent := sent (bio s) @
      concat (map (sign_off_frames ck s) (sorted_list_of_set (local_issis s)))\<rparr>\<rparr>)"
    unfolding sign_off_frames_def by blast
  have "is_connected s" using assms(3) by (simp add: online_def)
  then show thesis using n by (intro that [of n]) (simp add: sign_off_def)
qed

lemma sign_off_quiet: "clock_ok ck \<Longrightarrow> does core_ok quiet (sign_off ck)"
  unfolding sign_off_def
  by (intro does_rules quiet_preorder send_subscriber_does packable_Nil;
      auto simp: core_ok_def valid_ids_def)

lemma all_closed_downlinks:
  assumes "downlink_ok s"
  shows "all_closed (retired (close_downlinks s))"
  using assms by (auto simp: close_downlinks_def downlink_ok_def call_ok_def handle_close_def handle_ok_def list_all_iff)

lemma finish_active_effect:
  assumes "bridge_ok s"
  obtains t where "finish_active lib cfg ck s = (Inr (), t)" "bridge_ok t" "active_uplink t = None"
    "stop_set t = stop_set s"
proof (cases "active_uplink s")
  case None
  show thesis by (rule that [of s]) (use None assms in \<open>simp_all add: finish_active_def\<close>)
next
  case (Some c)
  then have c: "uplink_call_ok c" using bridge_okD(3) [OF assms] by (simp add: uplink_ok_def)
  obtain h i vs c' where f: "finish_uplink lib cfg ck c s = (Inr (), s\<lparr>bio := i,
      owned_uuids := AList.update (ul_uuid c) (mono ck + 10) (owned_uuids s), retired := retired s @ [h]\<rparr>)"
    "h_closed h" "h_destroyed h = 1"
    by (rule finish_uplink_effect [OF c])
  let ?t = "s\<lparr>bio := i, owned_uuids := AList.update (ul_uuid c) (mono ck + 10) (owned_uuids s),
      active_uplink := None, retired := retired s @ [h]\<rparr>"
  have "downlink_ok ?t"
    by (rule downlink_ok_retired [of s _ "[h]"]) (use bridge_okD(2) [OF assms] f(2,3) in simp_all)
  then have "bridge_ok ?t" using assms by (simp add: bridge_ok_def core_ok_def uplink_ok_def)
  then show thesis
    using Some f(1) by (intro that [of ?t]) (simp_all add: finish_active_def)
qed

definition released :: "bridge \<Rightarrow> bool" where
  "released t \<longleftrightarrow> stop_set t \<and> active_uplink t = None \<and> downlink_calls t = [] \<and> all_closed (retired t) \<and>
     \<not> is_connected t \<and> \<not> socket_open (bio t)"

lemma returns_sign_off: "clock_ok ck \<Longrightarrow> bridge_ok s \<Longrightarrow> \<exists>u. sign_off ck s = (Inr (), u) \<and> bridge_ok u \<and> flags u = flags s"
proof -
  assume a: "clock_ok ck" "bridge_ok s"
  obtain x u where u: "sign_off ck s = (Inr x, u)" "core_ok u" "quiet s u"
    using sign_off_quiet [OF a(1)] bridge_okD(1) [OF a(2)] by (rule doesE)
  have m: "core.more u = core.more s" by (rule quietD(8) [OF u(3)])
  show ?thesis using u(1) bridge_ok_more [OF a(2) u(2) m] core_more_fields(2,13) [OF m] by (auto simp: flags_def)
qed

text \<open>What the other threads make of the state.\<close>

abbreviation after :: "worker \<Rightarrow> event list \<Rightarrow> bridge \<Rightarrow> bridge" where
  "after w es \<equiv> fold (\<lambda>e s. snd (handle w e s)) es"

lemma elsewhere_run [simp]: "elsewhere w es s = (Inr (), after w es s)"
proof -
  have "forA es (\<lambda>e _ s. (Inr (), snd (handle w e s))) () s = (Inr (), after w es s)" for s
    by (induction es arbitrary: s) (simp_all add: bindA_def)
  then show ?thesis by (simp add: elsewhere_def)
qed

lemma after_ok:
  "worker_ok w \<Longrightarrow> lib_alloc (w_lib w) \<Longrightarrow> list_all (possible w) es \<Longrightarrow> bridge_ok s \<Longrightarrow> bridge_ok (after w es s)"
  by (induction es arbitrary: s) (simp_all add: keepsD [OF handle_keeps])

lemma event_idle:
  assumes "active_uplink s = None" "stop_set s \<or> \<not> of_uplink e"
  shows "active_uplink (snd (handle w e s)) = None" "stop_set s \<Longrightarrow> stop_set (snd (handle w e s))"
proof -
  have "active_uplink (snd (handle w e s)) = None \<and> (stop_set s \<longrightarrow> stop_set (snd (handle w e s)))"
  proof (cases "of_uplink e \<or> e = StopSignal")
    case True
    then show ?thesis using assms
      by (cases e) (simp_all add: uplink_tick_def take_frame_def end_of_call_def request_stop_def)
  next
    case False
    then have "keeps (\<lambda>t. flags t = flags s) (handle w e)" by (intro handle_flags) simp_all
    then have "flags (snd (handle w e s)) = flags s" by (simp add: keeps_def)
    then show ?thesis using assms(1) by (simp add: flags_def)
  qed
  then show "active_uplink (snd (handle w e s)) = None" "stop_set s \<Longrightarrow> stop_set (snd (handle w e s))" by simp_all
qed

lemma after_idle:
  "active_uplink s = None \<Longrightarrow> stop_set s \<or> list_all (\<lambda>e. \<not> of_uplink e) es \<Longrightarrow>
   active_uplink (after w es s) = None \<and> (stop_set s \<longrightarrow> stop_set (after w es s))"
proof (induction es arbitrary: s)
  case (Cons e es)
  have "stop_set s \<or> \<not> of_uplink e" using Cons.prems(2) by auto
  note e = event_idle [OF Cons.prems(1) this, of w]
  have "stop_set (snd (handle w e s)) \<or> list_all (\<lambda>e. \<not> of_uplink e) es" using Cons.prems(2) e(2) by auto
  from Cons.IH [OF e(1) this] e(2) show ?case by simp
qed simp

lemma leave_session_effect:
  obtains i where "leave_session s = (Inr (), s\<lparr>bio := i\<rparr>)" "\<not> connected i" "\<not> socket_open i" "sent i = sent (bio s)"
proof (cases "is_connected s \<or> socket_open (bio s)")
  case True
  then show thesis
    by (intro that [of "status_set offline_status (close_socket (bio s))"])
      (simp_all add: leave_session_def close_session_def)
next
  case False
  then show thesis by (intro that [of "bio s"]) (simp_all add: leave_session_def)
qed

text \<open>The steps after the farewells.\<close>

lemma stop_tail:
  assumes "worker_ok w" "lib_alloc (w_lib w)" "\<forall>i. list_all (possible w) (between i)"
    "bridge_ok s" "active_uplink s = None" "stop_set s \<or> list_all (\<lambda>e. \<not> of_uplink e) (between 1)"
  obtains v t where "thenA (elsewhere w (between 1))
     (thenA (upd request_stop)
     (thenA (elsewhere w (between 2))
     (thenA (upd_io close_socket)
     (thenA (elsewhere w (between 3))
     (thenA leave_session
     (thenA (upd close_downlinks)
     (thenA (set_status [(''stoppedAt'', PStr (utc ck)), (''connected'', PBool False),
               (''registered'', PBool False), (''affiliated'', PBool False)])
     (thenA writing
       (readA (\<lambda>s. ret (status_write ck (bio s)))))))))))) s = (Inr v, t)"
    "released t" "map_of (data (bio t)) ''connected'' = Some (PBool False)"
    "between 1 = [] \<Longrightarrow> between 2 = [] \<Longrightarrow> between 3 = [] \<Longrightarrow> sent (bio t) = sent (bio s)"
proof -
  define s1 where "s1 = request_stop (after w (between 1) s)"
  define s2 where "s2 = (after w (between 2) s1)\<lparr>bio := close_socket (bio (after w (between 2) s1))\<rparr>"
  define s3 where "s3 = after w (between 3) s2"
  note ok = after_ok [OF assms(1,2) spec [OF assms(3)]]
  have idle: "active_uplink (after w (between 1) s) = None" using after_idle [OF assms(5,6)] by simp
  have "bridge_ok s1" using ok [OF assms(4), of 1]
    by (simp add: s1_def request_stop_def bridge_ok_def core_ok_def downlink_ok_def uplink_ok_def)
  moreover have f1: "active_uplink s1 = None" "stop_set s1" using idle by (simp_all add: s1_def request_stop_def)
  ultimately have b2: "bridge_ok s2" using ok [of s1 2] by (simp add: s2_def)
  have f2: "active_uplink s2 = None" "stop_set s2" using after_idle [OF f1(1), of "between 2" w] f1(2) by (simp_all add: s2_def)
  have b3: "bridge_ok s3" using ok [OF b2, of 3] by (simp add: s3_def)
  have f3: "active_uplink s3 = None" "stop_set s3" using after_idle [OF f2(1), of "between 3" w] f2(2) by (simp_all add: s3_def)
  obtain i where i: "leave_session s3 = (Inr (), s3\<lparr>bio := i\<rparr>)" "\<not> connected i" "\<not> socket_open i" "sent i = sent (bio s3)"
    by (rule leave_session_effect)
  let ?c = "close_downlinks (s3\<lparr>bio := i\<rparr>)"
  have d: "downlink_ok (s3\<lparr>bio := i\<rparr>)" using bridge_okD(2) [OF b3] by (simp add: downlink_ok_def)
  have de: "disk_error s3 = None" by (rule bridge_ok_disk [OF b3])
  let ?t = "?c\<lparr>bio := status_set [(''stoppedAt'', PStr (utc ck)), (''connected'', PBool False),
               (''registered'', PBool False), (''affiliated'', PBool False)] i\<rparr>"
  have rel: "released ?t"
    using all_closed_downlinks [OF d] f3 i(2,3) by (simp add: released_def close_downlinks_def)
  show thesis
  proof (rule that [of "status_write ck (bio ?t)" ?t])
    show "released ?t" by (rule rel)
    show "map_of (data (bio ?t)) ''connected'' = Some (PBool False)" by (simp add: status_set_def)
    show "sent (bio ?t) = sent (bio s)" if "between 1 = []" "between 2 = []" "between 3 = []"
      using that i(4) by (simp add: s1_def s2_def s3_def request_stop_def)
  qed (simp add: s1_def [symmetric] s2_def [symmetric] s3_def [symmetric] i(1) de close_downlinks_def)
qed

text \<open>The state in which the radios take their leave.\<close>

definition at_farewell :: "worker \<Rightarrow> (nat \<Rightarrow> event list) \<Rightarrow> clock \<Rightarrow> bridge \<Rightarrow> bridge" where
  "at_farewell w between ck s = after w (between 0) (snd (finish_active (w_lib w) (w_cfg w) ck s))"


text \<open>The last condition is needed: a call that the uplink begins between the first look and the stop event is never finished. Its
  encoder stays open and BREW is not told that it ended.\<close>

lemma call_begun_while_stopping:
  assumes "bridge_ok s" "online (bio s)" "clock_ok ck" "lib_alloc (w_lib w)" "worker_ok w" "length uuid = 16"
    "\<not> stop_set s" "active_uplink s = None" "uplink_queue s = f # fs"
    "uplink_initial_frames (w_cfg w) \<le> int (length (f # fs))" "pcm_frame_ok f"
    "brew_for_p25 (brt s) (pf_destination f) = Some b"
  shows "\<exists>v t c. stop_worker w ((\<lambda>_. [])(1 := [UplinkPass ck ck uuid])) ck s = (Inr v, t) \<and>
    active_uplink t = Some c \<and> \<not> h_closed (encoder c)"
proof -
  obtain n where x: "sign_off ck s = (Inr (), s\<lparr>bio := (bio s)\<lparr>attempts := n, sent := sent (bio s) @
      concat (map (sign_off_frames ck s) (sorted_list_of_set (local_issis s)))\<rparr>\<rparr>)"
    by (rule sign_off_online [OF assms(3) bridge_okD(1) [OF assms(1)] assms(2)])
  let ?x = "s\<lparr>bio := (bio s)\<lparr>attempts := n, sent := sent (bio s) @
      concat (map (sign_off_frames ck s) (sorted_list_of_set (local_issis s)))\<rparr>\<rparr>"
  have ok: "core_ok ?x" "online (bio ?x)" using bridge_okD(1) [OF assms(1)] assms(2) by (simp_all add: online_def)
  obtain t c0 c vs where t: "uplink_tick (w_lib w) (w_cfg w) ck ck (w_boot w) uuid ?x = (Inr (), t)" "active_uplink t = Some c"
    "feeds (w_lib w) (w_cfg w) c0 c vs (unpack_samples (pf_pcm f))"
    by (rule uplink_tick_first [OF ok assms(3,4,6), where f = f and fs = fs and cfg = "w_cfg w" and b = b
        and due_ck = ck and boot = "w_boot w"])
      (use assms(7-12) in simp_all)
  have p: "possible w (UplinkPass ck ck uuid)" using assms(3,6) by simp
  have "bridge_ok t" using keepsD [OF handle_keeps [OF assms(5,4) p], of ?x] assms(1) t(1) by simp
  then have de: "disk_error t = None" by (rule bridge_ok_disk)
  let ?y = "(request_stop t)\<lparr>bio := close_socket (bio t)\<rparr>"
  obtain i where i: "leave_session ?y = (Inr (), ?y\<lparr>bio := i\<rparr>)" by (rule leave_session_effect)
  let ?z = "(close_downlinks (?y\<lparr>bio := i\<rparr>))\<lparr>bio := status_set [(''stoppedAt'', PStr (utc ck)), (''connected'', PBool False),
               (''registered'', PBool False), (''affiliated'', PBool False)] i\<rparr>"
  have "stop_worker w ((\<lambda>_. [])(1 := [UplinkPass ck ck uuid])) ck s = (Inr (status_write ck (bio ?z)), ?z)"
    using i assms(8) x t(1) de
    by (simp add: stop_worker_def finish_active_def request_stop_def close_downlinks_def)
  moreover have "active_uplink ?z = Some c" using t(2) by (simp add: close_downlinks_def request_stop_def)
  moreover have "\<not> h_closed (encoder c)" using t(3) by (simp add: feeds_def uplink_call_ok_def)
  ultimately show ?thesis by blast
qed

section \<open>Staying connected\<close>

lemma catch_all_returns: "(\<And>e s. \<exists>t. h e s = (Inr (), t)) \<Longrightarrow> \<exists>t. catchA (\<lambda>_. True) m h s = (Inr (), t)"
  for m :: "('s, unit) act"
  by (auto simp: catchA_def split: prod.splits sum.splits)

lemma round_returns:
  "\<exists>t. transport_round lib cm readable cfg r s = (Inr (attempt r = None), t) \<and>
     \<not> is_connected t \<and> \<not> socket_open (bio t) \<and> map_of (data (bio t)) ''connected'' = Some (PBool False)"
proof -
  let ?body = "case attempt r of Some e \<Rightarrow> raiseA e
    | None \<Rightarrow> thenA (open_session (round_clock r)) (receive_loop lib cm readable cfg (messages r))"
  have "\<exists>t. session_failed e s = (Inr (), t)" for e s by (simp add: session_failed_def)
  then obtain u where "catchA (\<lambda>_. True) ?body session_failed s = (Inr (), u)"
    using catch_all_returns [of session_failed ?body s] by blast
  then show ?thesis
    by (simp add: transport_round_def close_session_def offline_status_def status_set_def)
qed

text \<open>The wait after a number of rounds: one second after a session, doubled with every round
  without one, fifteen seconds at most.\<close>

definition failures :: "bool list \<Rightarrow> nat" where
  "failures opened = length (takeWhile (\<lambda>ok. \<not> ok) (rev opened))"

definition backoff :: "bool list \<Rightarrow> real" where
  "backoff opened = min 15 (2 ^ (if True \<in> set opened then failures opened else failures opened - 1))"

primrec waits_from :: "real \<Rightarrow> bool list \<Rightarrow> real list" where
  "waits_from delay [] = []"
| "waits_from delay (ok # oks) = (let wait = (if ok then 1 else delay) in wait # waits_from (min 15 (wait * 2)) oks)"

lemma round_up: "keeps (\<lambda>s. flags s = x) (transport_round lib cm readable cfg r)"
proof -
  have "keeps (\<lambda>s. flags s = x) (receive_loop lib cm readable cfg rs)" for rs
  proof (induction rs)
    case (Cons r rs)
    have one: "keeps (\<lambda>s. flags s = x) (case snd r of
         Binary frame \<Rightarrow> thenA (on_brew_binary lib cm readable cfg (fst r) frame) (receive_loop lib cm readable cfg rs)
       | Ended e \<Rightarrow> raiseA e | _ \<Rightarrow> receive_loop lib cm readable cfg rs)"
      using Cons.IH by (cases "snd r") (simp_all, (intro act_rules message_up Cons.IH)+)
    show ?case unfolding receive_loop.simps by (intro keeps_read_all keeps_if keeps_lift one)
  qed (simp, intro act_rules)
  then show ?thesis
    unfolding transport_round_def by (intro act_rules session_up)
qed

lemma transport_waits:
  assumes "\<not> stop_set s"
  shows "\<exists>t. transport_run lib cm readable cfg rs delay s = (Inr (waits_from delay (map (\<lambda>r. attempt r = None) rs)), t) \<and>
    (rs \<noteq> [] \<longrightarrow> \<not> is_connected t)"
  using assms
proof (induction rs arbitrary: s delay)
  case Nil
  then show ?case by simp
next
  case (Cons r rs)
  let ?wait = "if attempt r = None then 1 else delay"
  obtain t where t: "transport_round lib cm readable cfg r s = (Inr (attempt r = None), t)" "\<not> is_connected t"
    using round_returns by blast
  have "flags t = flags s" using keepsD [OF round_up refl, of lib cm readable cfg r s] t(1) by simp
  then have "\<not> stop_set t" using Cons.prems by (simp add: flags_def)
  then obtain u where u: "transport_run lib cm readable cfg rs (min 15 (?wait * 2)) t =
      (Inr (waits_from (min 15 (?wait * 2)) (map (\<lambda>r. attempt r = None) rs)), u)" "rs \<noteq> [] \<longrightarrow> \<not> is_connected u"
    using Cons.IH by blast
  have "rs = [] \<Longrightarrow> u = t" using u(1) by simp
  then show ?case using t u Cons.prems by (cases "rs = []") (simp_all add: Let_def)
qed

definition delay_after :: "bool list \<Rightarrow> real" where
  "delay_after opened = (if opened = [] then 1 else min 15 (backoff opened * 2))"

lemma backoff_snoc: "backoff (p @ [ok]) = (if ok then 1 else delay_after p)"
proof (cases ok)
  case True
  then show ?thesis by (simp add: backoff_def failures_def)
next
  case False
  have f: "failures (p @ [False]) = Suc (failures p)" by (simp add: failures_def)
  have dbl: "min 15 (2 ^ Suc n) = min 15 (min 15 (2 ^ n) * (2 :: real))" for n :: nat
    by (simp add: min_def)
  show ?thesis
  proof (cases "p = [] \<or> True \<in> set p")
    case True
    then show ?thesis using False f dbl [of "failures p"] by (auto simp: backoff_def delay_after_def failures_def)
  next
    case False
    then obtain n where n: "failures p = Suc n"
      by (cases p rule: rev_cases) (auto simp: failures_def)
    show ?thesis using False \<open>\<not> ok\<close> f n dbl [of n] by (simp add: backoff_def delay_after_def)
  qed
qed

lemma waits_backoff:
  "i < length oks \<Longrightarrow> waits_from (delay_after p) oks ! i = backoff (p @ take (Suc i) oks)"
proof (induction oks arbitrary: p i)
  case (Cons ok oks)
  have "min 15 ((if ok then 1 else delay_after p) * 2) = delay_after (p @ [ok])"
    unfolding delay_after_def [of "p @ [ok]"] backoff_snoc by simp
  then show ?case
    using Cons.IH [of _ "p @ [ok]"] Cons.prems backoff_snoc [of p ok] by (cases i) (simp_all add: Let_def)
qed simp

lemma length_waits [simp]: "length (waits_from delay oks) = length oks"
  by (induction oks arbitrary: delay) (simp_all add: Let_def)

text \<open>C26: the transport never gives up: whatever happens in a round - no endpoint, no connection, a
  session that ends, a handler that raises - the connection is closed and the next round follows
  after a wait of one second after a session, doubled with every further failure and never
  more than fifteen.\<close>

theorem transport_backs_off:
  assumes "\<not> stop_set s"
  shows "\<exists>waits t. transport_run lib cm readable cfg rs 1 s = (Inr waits, t) \<and> length waits = length rs \<and>
    (\<forall>i. i < length rs \<longrightarrow> waits ! i = backoff (take (Suc i) (map (\<lambda>r. attempt r = None) rs)) \<and>
       1 \<le> waits ! i \<and> waits ! i \<le> 15) \<and> (rs \<noteq> [] \<longrightarrow> \<not> is_connected t)"
proof -
  have b: "1 \<le> backoff p \<and> backoff p \<le> 15" for p by (simp add: backoff_def)
  show ?thesis
    using transport_waits [OF assms, of lib cm readable cfg rs 1]
      waits_backoff [of _ "map (\<lambda>r. attempt r = None) rs" "[]"] b
    by (auto simp: delay_after_def)
qed

section \<open>The example\<close>

definition example_worker :: "audio_config \<Rightarrow> worker" where
  "example_worker cfg = \<lparr>w_lib = example_lib, w_charmap = (\<lambda>_ _. None), w_readable = (\<lambda>_. []), w_repr = (\<lambda>_. []),
     w_boot = ''boot'', w_cfg = cfg\<rparr>"

definition example_worker_host :: host where
  "example_worker_host = \<lparr>dynamic_content = None, observed_content = None, dvm_logs = [], routing_stat = None,
     random_timestamp = 5, network = (\<lambda>_. None), udp_network = (\<lambda>_. False), disk = None\<rparr>"

lemma example_worker_starts:
  obtains cfg s where "worker_ok (example_worker cfg)" "resources (example_worker cfg) example_worker_host"
    "reach (started (example_worker cfg) example_worker_host) (step (example_worker cfg)) s"
proof -
  obtain cfg where cfg: "audio_config_load example_env ''audio.json'' (PDict example_raw) = Inr cfg"
    using example_loads by blast
  have ok: "worker_ok (example_worker cfg)"
    using cfg by (auto simp: worker_ok_def example_worker_def charmap_ok_def)
  have res: "resources (example_worker cfg) example_worker_host"
    by (simp add: resources_def example_worker_def example_worker_host_def example_lib_def)
  have "load_brew_dependencies True (Inr example_sms_cfg) = Inr (brew example_sms_cfg)"
    by (simp add: load_brew_dependencies_def example_sms_cfg_def Let_def)
  then have "construct cfg example_worker_host example_clock None True (Inr example_sms_cfg) =
      Inr (bridge_init cfg example_worker_host example_clock (username (brew example_sms_cfg)))"
    by (simp add: construct_def example_worker_host_def)
  moreover obtain t where "start_worker cfg (bridge_init cfg example_worker_host example_clock (username (brew example_sms_cfg))) = (Inr (), t)"
    by (simp add: start_worker_def)
  ultimately have "started (example_worker cfg) example_worker_host t"
    by (intro started.intros) (simp_all add: example_worker_def)
  then show thesis by (rule that [OF ok res reach.start])
qed

theorem worker_reachable_ok_witness:
  "\<exists>w h s t. reach (started w h) (step w) s \<and> bridge_ok s \<and> handle w (Message example_clock [0xF2, 1, 0xFF]) s = (Inr (), t)"
proof -
  obtain cfg s where s: "worker_ok (example_worker cfg)" "resources (example_worker cfg) example_worker_host"
    "reach (started (example_worker cfg) example_worker_host) (step (example_worker cfg)) s"
    by (rule example_worker_starts)
  have p: "possible (example_worker cfg) (Message example_clock [0xF2, 1, 0xFF])" by simp
  from worker_reachable_ok [OF s p] s(3) show ?thesis by auto
qed


theorem transport_backs_off_witness:
  "\<exists>cfg waits t. transport_run example_lib (\<lambda>_ _. None) (\<lambda>_. []) cfg
     (replicate 6 \<lparr>round_clock = example_clock, attempt = Some (OSError ''ConnectionError''), messages = []\<rparr>) 1 example_bridge =
       (Inr waits, t) \<and> waits ! 0 = 1 \<and> waits ! 3 = 8 \<and> waits ! 5 = 15"
proof -
  have up: "\<not> stop_set example_bridge" by (simp add: example_bridge_def core.defs)
  let ?r = "\<lparr>round_clock = example_clock, attempt = Some (OSError ''ConnectionError''), messages = []\<rparr>"
  obtain waits t where w: "transport_run example_lib (\<lambda>_ _. None) (\<lambda>_. []) undefined (replicate 6 ?r) 1 example_bridge = (Inr waits, t)"
    "\<And>i. i < 6 \<Longrightarrow> waits ! i = backoff (take (Suc i) (map (\<lambda>r. attempt r = None) (replicate 6 ?r)))"
    using transport_backs_off [OF up, of example_lib "\<lambda>_ _. None" "\<lambda>_. []" undefined "replicate 6 ?r"] by auto
  have "waits ! 0 = 1 \<and> waits ! 3 = 8 \<and> waits ! 5 = 15"
    using w(2) [of 0] w(2) [of 3] w(2) [of 5] by (simp add: backoff_def failures_def numeral_eq_Suc)
  then show ?thesis using w(1) by blast
qed

end
