(* ===== verification/Runtime_Config.thy ===== *)
theory Runtime_Config
  imports Py_Value
begin

text \<open>
  \<^verbatim>\<open>runtime_config.py\<close>, which the maintenance scripts read \<^verbatim>\<open>quantarbridge.yml\<close> with: line by line, without a YAML
  parser. The functions take the text of the file. An exception's message keeps the part the
  scripts build it from, without the path.
\<close>

definition indented :: "string \<Rightarrow> bool" where
  "indented line \<longleftrightarrow> line \<noteq> [] \<and> is_space (hd line)"

definition section_head :: "string \<Rightarrow> string \<Rightarrow> bool" where
  "section_head sect line \<longleftrightarrow> strip line = sect @ '':'' \<and> \<not> indented line"

definition section_end :: "string \<Rightarrow> bool" where
  "section_end line \<longleftrightarrow> strip line \<noteq> [] \<and> \<not> indented line \<and> \<not> prefix ''#'' (strip line)"

definition section_lines :: "string \<Rightarrow> string \<Rightarrow> py_error + string list" where
  "section_lines txt sect =
     (case dropWhile (\<lambda>line. \<not> section_head sect line) (splitlines txt) of
        [] \<Rightarrow> Inl (RuntimeError (''Missing YAML section: '' @ sect))
      | _ # rest \<Rightarrow> Inr (takeWhile (\<lambda>line. \<not> section_end line) rest))"

definition in_quotes :: "string \<Rightarrow> bool" where
  "in_quotes v \<longleftrightarrow> 2 \<le> length v \<and> hd v = last v \<and> (hd v = CHR 0x22 \<or> hd v = CHR 0x27)"

definition scalar_value :: "string \<Rightarrow> string" where
  "scalar_value rest =
     (let v = strip (takeWhile (\<lambda>c. c \<noteq> CHR ''#'') rest) in if in_quotes v then butlast (tl v) else v)"

definition section_scalar :: "string \<Rightarrow> string \<Rightarrow> string \<Rightarrow> py_error + string option" where
  "section_scalar txt sect key =
     bindE (section_lines txt sect) (\<lambda>ls. let head = ''  '' @ key @ '':'' in
       Inr (first_some (\<lambda>line. if prefix head line then Some (scalar_value (drop (length head) line)) else None) ls))"

definition parse_bool :: "string option \<Rightarrow> bool \<Rightarrow> py_error + bool" where
  "parse_bool value dflt = (case value of
       None \<Rightarrow> Inr dflt
     | Some v \<Rightarrow> let normalized = map to_lower (strip v) in
         if normalized \<in> {''true'', ''yes'', ''on'', ''1''} then Inr True
         else if normalized \<in> {''false'', ''no'', ''off'', ''0''} then Inr False
         else Inl (RuntimeError (''Invalid YAML boolean: '' @ v)))"

text \<open>The \<^verbatim>\<open>try\<close> turns the \<open>ValueError\<close>s of \<^verbatim>\<open>int\<close> into a \<open>RuntimeError\<close>.\<close>

definition device_error :: py_error where
  "device_error = RuntimeError ''Invalid BrandMeister device configuration''"

definition int_or_invalid :: "string \<Rightarrow> py_error + int" where
  "int_or_invalid v = (case py_int_str v of Inl e \<Rightarrow> Inl device_error | Inr i \<Rightarrow> Inr i)"

definition read_brandmeister_device :: "string \<Rightarrow> py_error + int \<times> int" where
  "read_brandmeister_device txt =
     bindE (section_scalar txt ''brandmeister'' ''repeaterId'') (\<lambda>raw_id.
     bindE (int_or_invalid (case raw_id of None \<Rightarrow> [] | Some v \<Rightarrow> v)) (\<lambda>device_id.
     bindE (section_scalar txt ''brandmeister'' ''timeslot'') (\<lambda>raw_timeslot.
     bindE (case raw_timeslot of
         Some v \<Rightarrow> int_or_invalid v
       | None \<Rightarrow> bindE (section_scalar txt ''brandmeister'' ''slot1'') (\<lambda>slot1.
           bindE (parse_bool slot1 False) (\<lambda>b. Inr (if b then 1 else 2)))) (\<lambda>timeslot.
     if device_id \<le> 0 \<or> timeslot \<notin> {1, 2} then Inl device_error
     else Inr (device_id, if device_id > 999999 then 0 else timeslot)))))"

definition read_brandmeister_voice_enabled :: "string \<Rightarrow> py_error + bool" where
  "read_brandmeister_voice_enabled txt =
     bindE (section_scalar txt ''brandmeister'' ''voiceEnabled'') (\<lambda>v. parse_bool v True)"

section \<open>The static talkgroups\<close>

definition static_key :: "string \<Rightarrow> bool" where
  "static_key line \<longleftrightarrow> strip line = ''staticTalkgroups:'' \<and> prefix ''  '' line"

definition indentation :: "string \<Rightarrow> nat" where
  "indentation line = length (takeWhile is_space line)"

definition item_value :: "string \<Rightarrow> int option" where
  "item_value stripped =
     (if prefix ''- '' stripped
      then case py_int_str (strip (takeWhile (\<lambda>c. c \<noteq> CHR ''#'') (drop 2 stripped))) of
          Inr i \<Rightarrow> if i > 0 then Some i else None
        | Inl e \<Rightarrow> None
      else None)"

primrec read_items :: "string list \<Rightarrow> int list" where
  "read_items [] = []"
| "read_items (line # ls) =
     (let stripped = strip line in
      if stripped = [] \<or> prefix ''#'' stripped then read_items ls
      else if indentation line \<le> 2 then []
      else (case item_value stripped of None \<Rightarrow> [] | Some i \<Rightarrow> [i]) @ read_items ls)"

definition read_static_talkgroups :: "string \<Rightarrow> py_error + int list" where
  "read_static_talkgroups txt =
     bindE (section_lines txt ''routing'') (\<lambda>ls.
       case dropWhile (\<lambda>line. \<not> static_key line) ls of
         [] \<Rightarrow> Inr []
       | _ # rest \<Rightarrow> Inr (sorted_list_of_set (set (read_items rest))))"

section \<open>Facts\<close>

lemma read_items_positive: "i \<in> set (read_items ls) \<Longrightarrow> 0 < i"
  by (induction ls) (auto simp: Let_def item_value_def split: if_splits sum.splits)

lemma read_device_ok:
  "read_brandmeister_device txt = Inr (device_id, slot) \<Longrightarrow>
   0 < device_id \<and> slot \<in> {0, 1, 2} \<and> (slot = 0 \<longleftrightarrow> 999999 < device_id)"
  by (auto simp: read_brandmeister_device_def bindE_eq_Inr split: if_splits)

end
