(* ===== verification/Static_Sync.thy ===== *)
theory Static_Sync
  imports Runtime_Config Sms_Config Brew_Transport
begin

text \<open>
  \<^verbatim>\<open>bm_static_sync.py\<close>: the static talkgroups of the BrandMeister profile are written into
  \<^verbatim>\<open>quantarbridge.yml\<close>, as text, and the talkgroup rules of the FNE are rebuilt. The state \<open>site\<close> has the
  files by path, the time stamps of the stamp files and the services that were restarted. The
  regular expressions are written out as the functions on characters they denote; a \<open>^\<close> holds at the
  start and after a line feed. What the API, the disk and \<^verbatim>\<open>systemctl\<close> answer is a parameter.
\<close>

section \<open>Profiles\<close>

definition slot_talkgroup :: "int \<Rightarrow> pyval \<Rightarrow> py_error + int option" where
  "slot_talkgroup slot entry =
     (case bindE (bindE (py_item entry ''slot'') py_int) (\<lambda>s.
           bindE (bindE (py_item entry ''talkgroup'') py_int) (\<lambda>tg. Inr (s, tg))) of
        Inr (s, tg) \<Rightarrow> Inr (if s = slot then Some tg else None)
      | Inl e \<Rightarrow> if is_key_error e \<or> is_type_error e \<or> is_value_error e then Inr None else Inl e)"

definition static_talkgroups_for_slot :: "pyval \<Rightarrow> int \<Rightarrow> py_error + int list" where
  "static_talkgroups_for_slot payload slot =
     bindE (bindE (py_get payload ''staticSubscriptions'' (PList [])) py_iter) (\<lambda>entries.
     bindE (mapE (slot_talkgroup slot) entries) (\<lambda>tgs.
     Inr (sorted_list_of_set (set (List.map_filter id tgs)))))"

definition configured_static_talkgroups :: "pyval \<Rightarrow> int \<Rightarrow> py_error + int list" where
  "configured_static_talkgroups payload slot =
     bindE (static_talkgroups_for_slot payload slot) (\<lambda>talkgroups.
       if talkgroups \<noteq> [] \<or> slot = 0 then Inr talkgroups else static_talkgroups_for_slot payload 0)"

section \<open>The talkgroup list in the configuration text\<close>

abbreviation LF :: char where "LF \<equiv> CHR 0x0A"
abbreviation CR :: char where "CR \<equiv> CHR 0x0D"

text \<open>\<open>end_of_line s\<close> is what follows \<^verbatim>\<open>(?:\r?\n|$)\<close> at \<open>s\<close>, where \<open>s\<close> is empty or starts with a carriage
  return or a line feed; \<open>line_rest s\<close> is what follows \<^verbatim>\<open>[^\r\n]*(?:\r?\n|$)\<close>.\<close>

fun end_of_line :: "string \<Rightarrow> string option" where
  "end_of_line [] = Some []"
| "end_of_line (c # s) =
     (if c = LF then Some s
      else if c = CR \<and> s \<noteq> [] \<and> hd s = LF then Some (tl s) else None)"

definition line_rest :: "string \<Rightarrow> string option" where
  "line_rest s = end_of_line (dropWhile (\<lambda>c. c \<noteq> CR \<and> c \<noteq> LF) s)"

lemma end_of_line_length: "end_of_line s = Some r \<Longrightarrow> s \<noteq> [] \<Longrightarrow> length r < length s"
  by (cases s) (auto split: if_splits)

definition is_blank :: "char \<Rightarrow> bool" where
  "is_blank c \<longleftrightarrow> c = CHR '' '' \<or> c = CHR 0x09"

text \<open>What follows an item line \<^verbatim>\<open>^[ \t]{2,}-[^\r\n]*(?:\r?\n|$)\<close> at the start of \<open>s\<close>.\<close>

definition item_rest :: "string \<Rightarrow> string option" where
  "item_rest s = (let t = dropWhile is_blank s in
     if 2 \<le> length (takeWhile is_blank s) \<and> prefix ''-'' t then line_rest t else None)"

lemma item_rest_length: "item_rest s = Some r \<Longrightarrow> length r < length s"
proof -
  assume a: "item_rest s = Some r"
  let ?t = "dropWhile is_blank s" and ?u = "dropWhile (\<lambda>c. c \<noteq> CR \<and> c \<noteq> LF) (dropWhile is_blank s)"
  have e: "end_of_line ?u = Some r" "prefix ''-'' ?t"
    using a by (auto simp: item_rest_def Let_def line_rest_def split: if_splits)
  have "length ?u < length ?t"
  proof -
    obtain x where "?t = CHR ''-'' # x" using e(2) by (auto simp: prefix_def)
    then show ?thesis using length_dropWhile_le [of "\<lambda>c. c \<noteq> CR \<and> c \<noteq> LF" x] by simp
  qed
  moreover have "length r \<le> length ?u" using e(1) end_of_line_length [OF e(1)] by (cases "?u = []") auto
  ultimately show ?thesis using length_dropWhile_le [of is_blank s] by simp
qed

function skip_items :: "string \<Rightarrow> string" where
  "skip_items s = (case item_rest s of None \<Rightarrow> s | Some r \<Rightarrow> skip_items r)"
  by auto
termination by (relation "measure length") (auto dest: item_rest_length)

declare skip_items.simps [simp del]

definition STATIC_HEAD :: string where "STATIC_HEAD = ''  staticTalkgroups:''"

text \<open>What follows \<^verbatim>\<open>STATIC_TALKGROUPS_BLOCK_RE\<close> when it matches at the start of the line \<open>s\<close>; the items end with
  the text when their last line has no line feed.\<close>

definition block_rest :: "string \<Rightarrow> string option" where
  "block_rest s =
     (if prefix STATIC_HEAD s then map_option skip_items (line_rest (drop (length STATIC_HEAD) s)) else None)"

text \<open>\<^verbatim>\<open>search\<close>: the text before the first match and after it; \<open>bol\<close> tells whether the text starts a line.\<close>

fun find_block :: "bool \<Rightarrow> string \<Rightarrow> (string \<times> string) option" where
  "find_block bol s =
     (case (if bol then block_rest s else None) of
        Some r \<Rightarrow> Some ([], r)
      | None \<Rightarrow> (case s of [] \<Rightarrow> None
          | c # cs \<Rightarrow> map_option (\<lambda>(before, after). (c # before, after)) (find_block (c = LF) cs)))"

declare find_block.simps [simp del]

text \<open>\<^verbatim>\<open>re.search("(?m)^...")\<close>: some line start satisfies \<open>p\<close>.\<close>

primrec some_line_start :: "(string \<Rightarrow> bool) \<Rightarrow> bool \<Rightarrow> string \<Rightarrow> bool" where
  "some_line_start p bol [] \<longleftrightarrow> bol \<and> p []"
| "some_line_start p bol (c # cs) \<longleftrightarrow> bol \<and> p (c # cs) \<or> some_line_start p (c = LF) cs"

definition MAPPINGS_HEAD :: string where "MAPPINGS_HEAD = ''  talkgroupMappings''"

definition mappings_line :: "string \<Rightarrow> bool" where
  "mappings_line s \<longleftrightarrow> prefix MAPPINGS_HEAD s \<and> prefix '':'' (dropWhile is_space (drop (length MAPPINGS_HEAD) s))"

text \<open>\<^verbatim>\<open>^sms:\s*$\<close>, where \<^verbatim>\<open>\s*\<close> may run over line ends.\<close>

definition sms_line :: "string \<Rightarrow> bool" where
  "sms_line s \<longleftrightarrow> prefix ''sms:'' s \<and>
     (dropWhile is_space (drop 4 s) = [] \<or> LF \<in> set (takeWhile is_space (drop 4 s)))"

definition format_static_talkgroups_block :: "int list \<Rightarrow> string" where
  "format_static_talkgroups_block static_talkgroups =
     (if static_talkgroups = [] then ''  staticTalkgroups: []'' @ [LF]
      else STATIC_HEAD @ [LF] @ concat (map (\<lambda>tg. ''    - '' @ show_int tg @ [LF]) static_talkgroups))"

definition block_missing :: py_error where
  "block_missing = RuntimeError ''Could not find routing.staticTalkgroups''"

definition ensure_talkgroup_mappings :: "string \<Rightarrow> py_error + string" where
  "ensure_talkgroup_mappings txt =
     (if some_line_start mappings_line True txt then Inr txt
      else case find_block True txt of
          None \<Rightarrow> Inl block_missing
        | Some (before, after) \<Rightarrow>
            Inr (take (length txt - length after) txt @ ''  talkgroupMappings: []'' @ [LF] @ after))"

definition SMS_CONFIG_BLOCK :: string where
  "SMS_CONFIG_BLOCK = concat (map (\<lambda>l. l @ [LF])
     [''sms:'', ''  enabled: true'', ''  bindAddress: '' @ [CHR 0x22] @ ''127.0.0.1'' @ [CHR 0x22],
      ''  arsPort: 4015'', ''  tmsPort: 4017'', ''  outboundAddress: '' @ [CHR 0x22] @ ''127.0.0.1'' @ [CHR 0x22],
      ''  outboundArsPort: 4005'', ''  outboundTmsPort: 4007'',
      ''  outboundMode: '' @ [CHR 0x22] @ ''brandmeister'' @ [CHR 0x22],
      ''  bmSourceIp: '' @ [CHR 0x22] @ ''auto'' @ [CHR 0x22], ''  bmTargetIp: '' @ [CHR 0x22] @ ''auto'' @ [CHR 0x22],
      ''  bmSlot: 2'',
      ''  inboxPath: '' @ [CHR 0x22] @ ''/home/quantar/quantar-runtime/sms/quantarbridge-inbox'' @ [CHR 0x22],
      ''  outboxPath: '' @ [CHR 0x22] @ ''/home/quantar/quantar-runtime/sms/outbox'' @ [CHR 0x22],
      ''  sentPath: '' @ [CHR 0x22] @ ''/home/quantar/quantar-runtime/sms/sent'' @ [CHR 0x22],
      ''  p25OutboxPath: '' @ [CHR 0x22] @ ''/home/quantar/quantar-runtime/sms/p25-outbox'' @ [CHR 0x22],
      ''  serviceRoutePath: '' @ [CHR 0x22] @ ''/home/quantar/quantar-runtime/sms/service-routes'' @ [CHR 0x22],
      ''  pollIntervalMs: 100'', ''  maxPacketBytes: 2048'']) @ ''  decodeUtf16Le: true''"

definition with_sms_section :: "string \<Rightarrow> string" where
  "with_sms_section txt =
     (if some_line_start sms_line True txt then txt
      else rstrip_by is_space txt @ [LF, LF] @ SMS_CONFIG_BLOCK @ [LF])"

text \<open>The new text of \<^verbatim>\<open>quantarbridge.yml\<close>.\<close>

definition updated_config :: "string \<Rightarrow> int list \<Rightarrow> py_error + string" where
  "updated_config txt static_talkgroups =
     (case find_block True txt of
        None \<Rightarrow> Inl block_missing
      | Some (before, after) \<Rightarrow>
          bindE (ensure_talkgroup_mappings (before @ format_static_talkgroups_block static_talkgroups @ after)) (\<lambda>t.
            Inr (with_sms_section t)))"

section \<open>Files, stamps and services\<close>

record site =
  site_files :: "pypath \<Rightarrow> string option"
  stamps :: "pypath \<Rightarrow> real option"
  commands :: "(string \<times> string) list"

record outside =
  profile :: "int \<Rightarrow> string option \<Rightarrow> py_error + pyval"
  write_fails :: "pypath \<Rightarrow> py_error option"
  systemctl_fails :: "string \<Rightarrow> string \<Rightarrow> py_error option"
  wall_clock :: real

type_synonym 'a site_act = "(site, 'a) act"

definition read_text :: "pypath \<Rightarrow> string site_act" where
  "read_text path = readA (\<lambda>s. case site_files s path of
     None \<Rightarrow> raiseA (OSError ''FileNotFoundError'') | Some t \<Rightarrow> ret t)"

text \<open>The temporary file is renamed over the old one when it is complete; on a failure it is removed.\<close>

definition write_text_if_changed :: "outside \<Rightarrow> pypath \<Rightarrow> string \<Rightarrow> bool site_act" where
  "write_text_if_changed w path new_text = readA (\<lambda>s.
     if (case site_files s path of None \<Rightarrow> [] | Some t \<Rightarrow> t) = new_text then ret False
     else case write_fails w path of
         Some e \<Rightarrow> raiseA e
       | None \<Rightarrow> thenA (upd (\<lambda>s. s\<lparr>site_files := (site_files s)(path \<mapsto> new_text)\<rparr>)) (ret True))"

definition update_quantarbridge_config :: "outside \<Rightarrow> pypath \<Rightarrow> int list \<Rightarrow> bool site_act" where
  "update_quantarbridge_config w path static_talkgroups =
     bindA (read_text path) (\<lambda>current_text.
     bindA (liftE (updated_config current_text static_talkgroups)) (write_text_if_changed w path))"

definition throttle_active :: "outside \<Rightarrow> site \<Rightarrow> pypath \<Rightarrow> real \<Rightarrow> bool" where
  "throttle_active w s stamp min_interval_seconds =
     (if min_interval_seconds \<le> 0 then False
      else case stamps s stamp of None \<Rightarrow> False | Some mtime \<Rightarrow> wall_clock w - mtime < min_interval_seconds)"

definition touch_stamp :: "outside \<Rightarrow> pypath \<Rightarrow> unit site_act" where
  "touch_stamp w stamp = upd (\<lambda>s. s\<lparr>stamps := (stamps s)(stamp \<mapsto> wall_clock w)\<rparr>)"

text \<open>\<^verbatim>\<open>systemctl\<close> with a verb for a service, \<open>check=True\<close>.\<close>

definition systemctl :: "outside \<Rightarrow> string \<Rightarrow> string \<Rightarrow> unit site_act" where
  "systemctl w verb service =
     (case systemctl_fails w verb service of
        Some e \<Rightarrow> raiseA e | None \<Rightarrow> upd (\<lambda>s. s\<lparr>commands := commands s @ [(verb, service)]\<rparr>))"

section \<open>The rules of the FNE\<close>

definition is_key_char :: "char \<Rightarrow> bool" where
  "is_key_char c \<longleftrightarrow> is_digit c \<or> 65 \<le> code c \<and> code c \<le> 90 \<or> 97 \<le> code c \<and> code c \<le> 122 \<or> c = CHR ''_'' \<or> c = CHR ''-''"

text \<open>One line \<^verbatim>\<open>( *)([A-Za-z0-9_-]+):(?:[ \t]*(.*))?\<close>: indentation, key and stripped value.\<close>

definition yaml_entry :: "string \<Rightarrow> (nat \<times> string \<times> string) option" where
  "yaml_entry line =
     (let rest = dropWhile (\<lambda>c. c = CHR '' '') line; key = takeWhile is_key_char rest; tail = drop (length key) rest
      in if strip line = [] \<or> prefix ''#'' (dropWhile is_space line) \<or> key = [] \<or> \<not> prefix '':'' tail then None
         else Some (length (takeWhile (\<lambda>c. c = CHR '' '') line), key, strip (tl tail)))"

primrec yaml_matches :: "string list \<Rightarrow> (nat \<times> string) list \<Rightarrow> string list \<Rightarrow> string list" where
  "yaml_matches keys stack [] = []"
| "yaml_matches keys stack (line # ls) =
     (case yaml_entry line of
        None \<Rightarrow> yaml_matches keys stack ls
      | Some (indent, key, v) \<Rightarrow>
          (let parents = dropWhile (\<lambda>(i, k). indent \<le> i) stack in
           (if rev (map snd parents) @ [key] = keys then [v] else []) @
           yaml_matches keys (if v = [] then (indent, key) # parents else parents) ls))"

text \<open>\<^verbatim>\<open>re.sub(r"\s+#.*$", "", v)\<close>.\<close>

primrec drop_comment :: "string \<Rightarrow> string" where
  "drop_comment [] = []"
| "drop_comment (c # cs) =
     (if is_space c \<and> prefix ''#'' (dropWhile is_space cs) then [] else c # drop_comment cs)"

definition read_yaml_integer :: "string \<Rightarrow> string list \<Rightarrow> py_error + int" where
  "read_yaml_integer txt keys =
     (case yaml_matches keys [] (splitlines txt) of
        [m] \<Rightarrow> (let v = strip (drop_comment m); u = (if in_quotes v then strip (butlast (tl v)) else v) in
          if u \<noteq> [] \<and> list_all is_digit u then Inr (int (nat_of_digits u))
          else Inl (RuntimeError (''Could not read integer '' @ join_with ''.'' keys)))
      | _ \<Rightarrow> Inl (RuntimeError (''Could not read '' @ join_with ''.'' keys)))"

definition LOCAL_PEER_CONFIGS :: "(string \<times> string list) list" where
  "LOCAL_PEER_CONFIGS =
     [(''dvmhost-config.yml'', [''network'', ''id'']), (''dvmbridge-p25-to-dmr.yml'', [''network'', ''id'']),
      (''quantarbridge.yml'', [''fne'', ''peerId'']), (''dvmbridge-dmr-to-p25.yml'', [''network'', ''id''])]"

definition INCLUSION_PEERS :: "int list" where "INCLUSION_PEERS = [9000110, 9000111, 9000101, 9000112]"

definition add_peer :: "(string \<Rightarrow> string option) \<Rightarrow> string \<times> string list \<Rightarrow> int list \<Rightarrow> py_error + int list" where
  "add_peer runtime entry peers =
     bindE (case runtime (fst entry) of None \<Rightarrow> Inl (OSError ''FileNotFoundError'') | Some t \<Rightarrow> read_yaml_integer t (snd entry))
       (\<lambda>peer_id.
       if \<not> (1 \<le> peer_id \<and> peer_id \<le> 0xFFFFFFFF)
       then Inl (RuntimeError (''Invalid local FNE peer ID: '' @ show_int peer_id))
       else Inr (if peer_id \<in> set peers then peers else peers @ [peer_id]))"

definition configured_local_peer_ids :: "(string \<Rightarrow> string option) \<Rightarrow> py_error + int list" where
  "configured_local_peer_ids runtime =
     (let missing = filter (\<lambda>n. runtime n = None) (map fst LOCAL_PEER_CONFIGS) in
      if length missing = length LOCAL_PEER_CONFIGS then Inr INCLUSION_PEERS
      else if missing \<noteq> []
      then Inl (RuntimeError (''Could not discover all local FNE peers; missing: '' @ join_with '', '' missing))
      else foldE (add_peer runtime) LOCAL_PEER_CONFIGS [])"

definition build_talkgroup_rules :: "int list \<Rightarrow> string" where
  "build_talkgroup_rules inclusion_peers = join_with [LF]
     ([''groupVoice:'', ''  - name: BM Dynamic Slot2'', ''    alias: BrandMeister'', ''    config:'',
       ''      active: true'', ''      affiliated: false''] @
      (if inclusion_peers = [] then [''      inclusion: []'']
       else ''      inclusion:'' # map (\<lambda>p. ''        - '' @ show_int p) inclusion_peers) @
      [''      exclusion: []'', ''      rewrite: []'', ''      always: []'', ''      preferred: []'',
       ''      rid_permitted: []'', ''    source:'', ''      tgid: 0'', ''      slot: 2'']) @ [LF]"

definition update_talkgroup_rules :: "outside \<Rightarrow> pypath \<Rightarrow> bool site_act" where
  "update_talkgroup_rules w path = readA (\<lambda>s.
     bindA (liftE (configured_local_peer_ids (\<lambda>name. site_files s (path_join (path_parent path) name)))) (\<lambda>peers.
       write_text_if_changed w path (build_talkgroup_rules peers)))"

section \<open>Restarting\<close>

definition PAIRED :: "string list" where
  "PAIRED = [''dvmfne.service'', ''dvmbridge-p25-to-dmr.service'', ''dvmbridge-dmr-to-p25.service'']"

definition requested_services :: "string list \<Rightarrow> string list" where
  "requested_services services =
     (let requested = rev (remdups (rev services)) in
      if ''dvmfne.service'' \<in> set requested then PAIRED @ filter (\<lambda>x. x \<notin> set PAIRED) requested else requested)"

definition stateful_services :: "string list" where
  "stateful_services = [''dvmhost.service'', ''tetrapack-brew-bridge.service'']"

definition restart_services :: "outside \<Rightarrow> string list \<Rightarrow> unit site_act" where
  "restart_services w services =
     forA (requested_services services)
       (\<lambda>service _. if service \<in> set stateful_services then ret () else systemctl w ''restart'' service) ()"

section \<open>The synchronisation\<close>

record sync_args =
  quantarbridge_config :: pypath
  talkgroup_rules :: pypath
  api_key_file :: "pypath option"
  restart :: "string list"
  stamp :: pypath
  min_interval :: real

definition load_api_key :: "pypath option \<Rightarrow> string option site_act" where
  "load_api_key path = (case path of
     None \<Rightarrow> ret None
   | Some p \<Rightarrow> bindA (read_text p) (\<lambda>t. ret (if strip t = [] then None else Some (strip t))))"

definition brew_audio_owns_voice :: "string \<Rightarrow> py_error + bool" where
  "brew_audio_owns_voice txt = bindE (read_brandmeister_voice_enabled txt) (\<lambda>b. Inr (\<not> b))"

definition sync_config :: "outside \<Rightarrow> sync_args \<Rightarrow> int list \<Rightarrow> bool site_act" where
  "sync_config w a static_talkgroups =
     bindA (update_quantarbridge_config w (quantarbridge_config a) static_talkgroups) (\<lambda>changed.
     bindA (update_talkgroup_rules w (talkgroup_rules a)) (\<lambda>changed'. ret (changed \<or> changed')))"

definition sync_restart :: "outside \<Rightarrow> sync_args \<Rightarrow> bool \<Rightarrow> unit site_act" where
  "sync_restart w a changed =
     (if changed \<and> restart a \<noteq> []
      then bindA (read_text (quantarbridge_config a)) (\<lambda>t.
           bindA (liftE (brew_audio_owns_voice t)) (\<lambda>owns.
             if owns then ret () else restart_services w (restart a)))
      else ret ())"

text \<open>\<^verbatim>\<open>main\<close>; the result is the talkgroups and whether anything changed, or \<open>None\<close> when it was throttled.\<close>

definition sync_main :: "outside \<Rightarrow> sync_args \<Rightarrow> (int list \<times> bool) option site_act" where
  "sync_main w a =
     bindA (read_text (quantarbridge_config a)) (\<lambda>t.
     bindA (liftE (read_brandmeister_device t)) (\<lambda>(device_id, slot). readA (\<lambda>s.
     if throttle_active w s (stamp a) (min_interval a) then ret None
     else thenA (touch_stamp w (stamp a))
       (bindA (load_api_key (api_key_file a)) (\<lambda>key.
        bindA (liftE (bindE (profile w device_id key) (\<lambda>payload. configured_static_talkgroups payload slot))) (\<lambda>tgs.
        bindA (sync_config w a tgs) (\<lambda>changed.
        thenA (sync_restart w a changed) (ret (Some (tgs, changed))))))))))"

end
