(* ===== verification/Static_Text.thy ===== *)
theory Static_Text
  imports Static_Sync
begin

text \<open>
  What the synchronisation makes of the text of \<^verbatim>\<open>quantarbridge.yml\<close>: the talkgroups it writes are the
  ones \<^verbatim>\<open>runtime_config.py\<close> reads back, the rest of the text stays, and a second run changes nothing.
\<close>

section \<open>Matching a block\<close>

lemma end_of_line_suffix: "end_of_line s = Some r \<Longrightarrow> suffix r s"
  by (cases s rule: end_of_line.cases)
    (auto simp: suffix_def neq_Nil_conv split: if_splits intro: exI [of _ "[_]"] exI [of _ "[_, _]"])

lemma line_rest_suffix: "line_rest s = Some r \<Longrightarrow> suffix r s"
  using end_of_line_suffix suffix_dropWhile suffix_order.trans unfolding line_rest_def by blast

lemma item_rest_suffix: "item_rest s = Some r \<Longrightarrow> suffix r s"
  using line_rest_suffix suffix_dropWhile suffix_order.trans
  unfolding item_rest_def Let_def by (fastforce split: if_splits)

lemma skip_items_done [simp]: "item_rest (skip_items s) = None"
proof (induction s rule: skip_items.induct)
  case (1 s)
  then show ?case by (subst skip_items.simps) (simp split: option.split)
qed

lemma skip_items_none: "item_rest s = None \<Longrightarrow> skip_items s = s"
  by (subst skip_items.simps) simp

lemma skip_items_some: "item_rest s = Some r \<Longrightarrow> skip_items s = skip_items r"
  by (subst skip_items.simps) simp

lemma skip_items_suffix: "suffix (skip_items s) s"
proof (induction s rule: skip_items.induct)
  case (1 s)
  show ?case
  proof (cases "item_rest s")
    case None
    then show ?thesis by (simp add: skip_items_none)
  next
    case (Some r)
    then show ?thesis using 1 item_rest_suffix [OF Some] by (simp add: skip_items_some)
  qed
qed

lemma block_rest_parts:
  assumes "block_rest s = Some r"
  shows "suffix r s" "item_rest r = None" "s \<noteq> r"
proof -
  obtain u where u: "line_rest (drop (length STATIC_HEAD) s) = Some u" "r = skip_items u" "prefix STATIC_HEAD s"
    using assms by (auto simp: block_rest_def split: if_splits)
  have suf: "suffix r (drop (length STATIC_HEAD) s)"
    using skip_items_suffix [of u] line_rest_suffix [OF u(1)] u(2) by (auto intro: suffix_order.trans)
  then show "suffix r s" using suffix_drop suffix_order.trans by blast
  show "item_rest r = None" by (simp add: u(2))
  have "length STATIC_HEAD \<le> length s" using u(3) by (rule prefix_length_le)
  moreover have "length STATIC_HEAD = 19" by (simp add: STATIC_HEAD_def)
  ultimately have "length r < length s" using suffix_length_le [OF suf] by simp
  then show "s \<noteq> r" by auto
qed

lemma line_rest_stops:
  assumes "LF \<in> set u"
  shows "line_rest (u @ v) = None \<longleftrightarrow> line_rest (u @ v') = None"
proof -
  let ?P = "\<lambda>c. c \<noteq> CR \<and> c \<noteq> LF"
  have d: "dropWhile ?P (u @ x) = dropWhile ?P u @ x" for x by (rule dropWhile_append1 [OF assms]) simp
  obtain c s where c: "dropWhile ?P u = c # s" using assms by (cases "dropWhile ?P u") (auto simp: dropWhile_eq_Nil_conv)
  have "c = CR \<or> c = LF" using c hd_dropWhile [of ?P u] by simp
  moreover have "s \<noteq> []" if "c = CR"
  proof -
    have "u = takeWhile ?P u @ c # s" using c takeWhile_dropWhile_id [of ?P u] by simp
    then have "LF \<in> set (takeWhile ?P u @ c # s)" using assms by simp
    then have "LF \<in> set s" using that by (auto dest: set_takeWhileD)
    then show ?thesis by auto
  qed
  ultimately show ?thesis unfolding line_rest_def d c by auto
qed

lemma head_no_LF: "LF \<notin> set STATIC_HEAD"
  by (simp add: STATIC_HEAD_def)

lemma block_rest_stops:
  assumes "LF \<in> set u"
  shows "block_rest (u @ v) = None \<longleftrightarrow> block_rest (u @ v') = None"
proof (cases "prefix STATIC_HEAD u")
  case True
  then obtain w where w: "u = STATIC_HEAD @ w" by (auto simp: prefix_def)
  then have "LF \<in> set w" using assms head_no_LF by auto
  from line_rest_stops [OF this, of v v'] show ?thesis by (simp add: block_rest_def w)
next
  case False
  have "\<not> prefix STATIC_HEAD (u @ x)" for x
  proof
    assume "prefix STATIC_HEAD (u @ x)"
    then consider "prefix STATIC_HEAD u" | "prefix u STATIC_HEAD"
      using prefix_same_cases [of STATIC_HEAD "u @ x" u] by auto
    then show False using False assms head_no_LF by cases (auto dest: set_mono_prefix)
  qed
  then show ?thesis by (simp add: block_rest_def)
qed

lemma find_block_Cons:
  "find_block bol (c # cs) = (case (if bol then block_rest (c # cs) else None) of
     Some r \<Rightarrow> Some ([], r)
   | None \<Rightarrow> map_option (\<lambda>(before, after). (c # before, after)) (find_block (c = LF) cs))"
  by (subst find_block.simps) (simp split: option.split)

lemma block_rest_Nil [simp]: "block_rest [] = None"
  by (simp add: block_rest_def STATIC_HEAD_def)

lemma find_block_Nil [simp]: "find_block bol [] = None"
  by (subst find_block.simps) simp

text \<open>The text before and after the block, and the block can be replaced by another one.\<close>

lemma find_block_parts:
  assumes "find_block bol src = Some (before, after)"
  shows "(\<exists>b. src = before @ b @ after \<and> b \<noteq> []) \<and> item_rest after = None \<and>
    (before = [] \<and> bol \<or> before \<noteq> [] \<and> last before = LF)"
  using assms
proof (induction src arbitrary: bol before)
  case (Cons c cs)
  show ?case
  proof (cases "if bol then block_rest (c # cs) else None")
    case None
    then obtain b where b: "find_block (c = LF) cs = Some (b, after)" "before = c # b"
      using Cons.prems by (auto simp: find_block_Cons)
    from Cons.IH [OF b(1)] show ?thesis using b(2) by auto
  next
    case (Some r)
    then have r: "block_rest (c # cs) = Some r" "bol" "before = []" "after = r"
      using Cons.prems by (auto simp: find_block_Cons split: if_splits)
    from block_rest_parts [OF r(1)] show ?thesis using r by (auto simp: suffix_def)
  qed
qed simp

lemma find_block_replace:
  assumes "find_block bol src = Some (before, after)" "block_rest (b @ rest) = Some rest" "b \<noteq> []"
  shows "find_block bol (before @ b @ rest) = Some (before, rest)"
  using assms(1)
proof (induction before arbitrary: bol src)
  case Nil
  then have "bol" using find_block_parts [of bol src "[]" after] by auto
  with assms(2,3) show ?case by (cases b) (simp_all add: find_block_Cons)
next
  case (Cons c bs)
  obtain cs where t: "src = c # cs" using find_block_parts [OF Cons.prems] by auto
  have n: "(if bol then block_rest (c # cs) else None) = None" "find_block (c = LF) cs = Some (bs, after)"
    using Cons.prems by (auto simp: t find_block_Cons split: option.splits)
  have parts: "\<exists>x. src = (c # bs) @ x" "LF \<in> set (c # bs)"
    using find_block_parts [OF Cons.prems] last_in_set [of "c # bs"] by (auto simp del: last.simps)
  then have "bol \<Longrightarrow> block_rest ((c # bs) @ b @ rest) = None"
    using n(1) block_rest_stops [OF parts(2)] t by auto
  with Cons.IH [OF n(2)] show ?case by (simp add: find_block_Cons)
qed

section \<open>The written block\<close>

lemma show_int_chars: "c \<in> set (show_int i) \<Longrightarrow> is_digit c \<or> c = CHR ''-''"
  using show_nat_digits by (auto simp: show_int_def list_all_iff split: if_splits)

lemma show_int_no_break: "LF \<notin> set (show_int i)" "CR \<notin> set (show_int i)"
  using show_int_chars [of LF i] show_int_chars [of CR i] by (auto simp: is_digit_def code_def)

lemma line_rest_line: "LF \<notin> set l \<Longrightarrow> CR \<notin> set l \<Longrightarrow> line_rest (l @ LF # r) = Some r"
  by (simp add: line_rest_def) (subst dropWhile_append2; auto)

definition item_line :: "int \<Rightarrow> string" where
  "item_line tg = ''    - '' @ show_int tg"

lemma item_line_rest: "item_rest (item_line tg @ LF # r) = Some r"
  using line_rest_line [of "CHR ''-'' # CHR '' '' # show_int tg" r] show_int_no_break [of tg]
  by (simp add: item_rest_def item_line_def is_blank_def)

lemma skip_written:
  "item_rest r = None \<Longrightarrow> skip_items (concat (map (\<lambda>tg. item_line tg @ [LF]) tgs) @ r) = r"
  by (induction tgs) (simp_all add: skip_items_none skip_items_some [OF item_line_rest])

lemma format_lines:
  "format_static_talkgroups_block tgs =
     (if tgs = [] then ''  staticTalkgroups: []'' @ [LF]
      else STATIC_HEAD @ [LF] @ concat (map (\<lambda>tg. item_line tg @ [LF]) tgs))"
  by (simp add: format_static_talkgroups_block_def item_line_def)

lemma block_written:
  assumes "item_rest r = None"
  shows "block_rest (format_static_talkgroups_block tgs @ r) = Some r"
proof (cases "tgs = []")
  case True
  have "line_rest ('' []'' @ LF # r) = Some r" by (rule line_rest_line) simp_all
  with True assms show ?thesis
    by (simp add: block_rest_def format_lines STATIC_HEAD_def skip_items_none)
next
  case False
  have "line_rest ([] @ LF # (concat (map (\<lambda>tg. item_line tg @ [LF]) tgs) @ r)) =
      Some (concat (map (\<lambda>tg. item_line tg @ [LF]) tgs) @ r)" by (rule line_rest_line) simp_all
  with False assms show ?thesis
    by (simp add: block_rest_def format_lines skip_written)
qed

text \<open>The block ends with a line feed after a character that is not white space.\<close>

lemma format_last:
  obtains b x where "format_static_talkgroups_block tgs = b @ [x, LF]" "\<not> is_space x"
proof (cases "tgs = []")
  case True
  then show thesis using that [of "''  staticTalkgroups: ['' " "CHR '']''"]
    by (simp add: format_lines is_space_def code_def)
next
  case False
  then obtain ts t where t: "tgs = ts @ [t]" by (cases tgs rule: rev_cases) auto
  have ne: "show_int t \<noteq> []" by (simp add: show_int_def)
  then obtain ds d where d: "show_int t = ds @ [d]" by (cases "show_int t" rule: rev_cases) auto
  have "\<not> is_space d"
    using show_int_chars [of d t] d is_digit_not_space by (auto simp: is_space_def code_def)
  then show thesis
    using that [of "STATIC_HEAD @ [LF] @ concat (map (\<lambda>tg. item_line tg @ [LF]) ts) @ ''    - '' @ ds" d] False d
    by (simp add: format_lines t item_line_def)
qed

section \<open>Searching\<close>

lemma some_line_start_iff:
  "some_line_start p bol t \<longleftrightarrow> (\<exists>u v. t = u @ v \<and> p v \<and> (if u = [] then bol else last u = LF))"
proof (induction t arbitrary: bol)
  case (Cons c cs)
  show ?case
  proof
    assume "some_line_start p bol (c # cs)"
    then consider "bol" "p (c # cs)" | "some_line_start p (c = LF) cs" by auto
    then show "\<exists>u v. c # cs = u @ v \<and> p v \<and> (if u = [] then bol else last u = LF)"
    proof cases
      case 2
      then obtain u v where "cs = u @ v" "p v" "if u = [] then c = LF else last u = LF" using Cons.IH by blast
      then show ?thesis by (intro exI [of _ "c # u"] exI [of _ v]) auto
    qed auto
  next
    assume "\<exists>u v. c # cs = u @ v \<and> p v \<and> (if u = [] then bol else last u = LF)"
    then obtain u v where uv: "c # cs = u @ v" "p v" "if u = [] then bol else last u = LF" by blast
    show "some_line_start p bol (c # cs)"
    proof (cases u)
      case (Cons d w)
      then have "some_line_start p (c = LF) cs" unfolding Cons.IH using uv
        by (intro exI [of _ w] exI [of _ v]) (auto split: if_splits)
      then show ?thesis by simp
    qed (use uv in auto)
  qed
qed auto

lemma mappings_line_iff:
  "mappings_line v \<longleftrightarrow> (\<exists>ws x. v = MAPPINGS_HEAD @ ws @ CHR '':'' # x \<and> list_all is_space ws)"
proof
  assume "mappings_line v"
  then obtain r x where r: "v = MAPPINGS_HEAD @ r" "dropWhile is_space r = CHR '':'' # x"
    by (auto simp: mappings_line_def prefix_def)
  then have "r = takeWhile is_space r @ CHR '':'' # x" using takeWhile_dropWhile_id [of is_space r] by simp
  moreover have "list_all is_space (takeWhile is_space r)" by (auto simp: list_all_iff dest: set_takeWhileD)
  ultimately show "\<exists>ws x. v = MAPPINGS_HEAD @ ws @ CHR '':'' # x \<and> list_all is_space ws" using r(1) by blast
next
  assume "\<exists>ws x. v = MAPPINGS_HEAD @ ws @ CHR '':'' # x \<and> list_all is_space ws"
  then show "mappings_line v"
    by (auto simp: mappings_line_def list_all_iff dropWhile_append2 is_space_def code_def)
qed

lemma mappings_line_append: "mappings_line v \<Longrightarrow> mappings_line (v @ w)"
  unfolding mappings_line_iff by (elim exE conjE) (intro exI conjI, simp, assumption)

lemma rstrip_append: "\<not> list_all p v \<Longrightarrow> rstrip_by p (u @ v) = u @ rstrip_by p v"
  by (auto simp: rstrip_by_def list_all_iff dropWhile_append1)

lemma rstrip_all: "list_all p v \<Longrightarrow> rstrip_by p (u @ v) = rstrip_by p u"
  unfolding rstrip_by_def rev_append by (subst dropWhile_append2) (auto simp: list_all_iff)

lemma rstrip_cut: "\<not> p x \<Longrightarrow> rstrip_by p (u @ x # v) = u @ x # rstrip_by p v"
  by (cases "list_all p v")
    (use rstrip_all [of p v "u @ [x]"] rstrip_append [of p v "u @ [x]"] rstrip_by_id [of "u @ [x]" p] rstrip_all [of p v "[]"]
     in \<open>auto simp: rstrip_by_def\<close>)

lemma mappings_rstrip: "mappings_line v \<Longrightarrow> mappings_line (rstrip_by is_space v)"
proof -
  assume "mappings_line v"
  then obtain ws x where v: "v = (MAPPINGS_HEAD @ ws) @ CHR '':'' # x" "list_all is_space ws"
    by (auto simp: mappings_line_iff)
  have "rstrip_by is_space v = (MAPPINGS_HEAD @ ws) @ CHR '':'' # rstrip_by is_space x"
    unfolding v(1) by (rule rstrip_cut) (simp add: is_space_def code_def)
  then show ?thesis using v(2) by (auto simp: mappings_line_iff)
qed

section \<open>The updated text\<close>

lemma ensure_settles:
  assumes "find_block True src = Some (before, after)"
  obtains after2 where
    "ensure_talkgroup_mappings (before @ format_static_talkgroups_block tgs @ after) =
       Inr (before @ format_static_talkgroups_block tgs @ after2)"
    "item_rest after2 = None" "after2 = after \<or> after2 = ''  talkgroupMappings: []'' @ LF # after"
    "some_line_start mappings_line True (before @ format_static_talkgroups_block tgs @ after2)"
proof -
  define M where "M = ''  talkgroupMappings: []'' @ LF # after"
  let ?B = "format_static_talkgroups_block tgs"
  have ne: "?B \<noteq> []" by (simp add: format_static_talkgroups_block_def)
  have it: "item_rest after = None" using find_block_parts [OF assms] by simp
  have fb: "find_block True (before @ ?B @ after) = Some (before, after)"
    by (rule find_block_replace [OF assms block_written [OF it] ne])
  show thesis
  proof (cases "some_line_start mappings_line True (before @ ?B @ after)")
    case True
    then show thesis using that [of after] it by (simp add: ensure_talkgroup_mappings_def)
  next
    case False
    have e: "ensure_talkgroup_mappings (before @ ?B @ after) = Inr (before @ ?B @ M)"
      using False fb by (simp add: ensure_talkgroup_mappings_def M_def)
    have m: "item_rest M = None" "mappings_line M"
      by (simp_all add: M_def item_rest_def is_blank_def mappings_line_def MAPPINGS_HEAD_def is_space_def code_def)
    have "last (before @ ?B) = LF" "before @ ?B \<noteq> []" using ne by (rule_tac format_last [of tgs]; simp)+
    then have "some_line_start mappings_line True (before @ ?B @ M)"
      unfolding some_line_start_iff by (intro exI [of _ "before @ ?B"] exI [of _ M]) (use m in simp)
    then show thesis by (rule that [OF e m(1) disjI2 [OF M_def]])
  qed
qed

lemma item_rest_None_iff:
  assumes "CR \<notin> set s"
  shows "item_rest s = None \<longleftrightarrow> \<not> (2 \<le> length (takeWhile is_blank s) \<and> prefix ''-'' (dropWhile is_blank s))"
proof -
  have e: "end_of_line u \<noteq> None" if "CR \<notin> set u" "u = [] \<or> hd u = CR \<or> hd u = LF" for u
    using that by (cases u) auto
  have "line_rest t \<noteq> None" if "CR \<notin> set t" for t
    unfolding line_rest_def
    by (rule e) (use that hd_dropWhile [of "\<lambda>c. c \<noteq> CR \<and> c \<noteq> LF" t] in \<open>auto dest: set_dropWhileD\<close>)
  then have "line_rest (dropWhile is_blank s) \<noteq> None" using assms set_dropWhileD by fast
  then show ?thesis by (auto simp: item_rest_def Let_def)
qed

text \<open>Stripping and adding lines at the end does not make an item line of the text after the block.\<close>

lemma item_rest_rstrip:
  assumes "CR \<notin> set s" "CR \<notin> set x" "item_rest s = None"
  shows "item_rest (rstrip_by is_space s @ LF # x) = None"
proof -
  let ?r = "rstrip_by is_space s"
  let ?w = "rev (takeWhile is_space (rev s))"
  have w: "s = ?r @ ?w"
    unfolding rstrip_by_def rev_append [symmetric] by (simp only: takeWhile_dropWhile_id rev_rev_ident)
  have last: "?r = [] \<or> \<not> is_space (last ?r)" by (rule rstrip_by_last)
  have "set s = set ?r \<union> set ?w" using w by (metis set_append)
  then have cr: "CR \<notin> set (?r @ LF # x)" using assms(1,2) by auto
  have "\<not> (2 \<le> length (takeWhile is_blank (?r @ LF # x)) \<and> prefix ''-'' (dropWhile is_blank (?r @ LF # x)))"
  proof (cases "list_all is_blank ?r")
    case True
    then have "?r = []" using last by (cases ?r rule: rev_cases) (auto simp: is_blank_def is_space_def code_def)
    then show ?thesis by (simp add: is_blank_def)
  next
    case False
    then obtain c where "c \<in> set ?r" "\<not> is_blank c" by (auto simp: list_all_iff)
    then have t: "takeWhile is_blank (?r @ y) = takeWhile is_blank ?r" "dropWhile is_blank (?r @ y) = dropWhile is_blank ?r @ y" for y
      by (simp_all add: takeWhile_append1 dropWhile_append1)
    have ne: "dropWhile is_blank ?r \<noteq> []" using \<open>c \<in> set ?r\<close> \<open>\<not> is_blank c\<close> by (auto simp: dropWhile_eq_Nil_conv)
    have "\<not> (2 \<le> length (takeWhile is_blank s) \<and> prefix ''-'' (dropWhile is_blank s))"
      using assms(3) item_rest_None_iff [OF assms(1)] by simp
    then show ?thesis using t [of ?w] t [of "LF # x"] ne w by (cases "dropWhile is_blank ?r") (auto simp del: rev_append)
  qed
  then show ?thesis using item_rest_None_iff [OF cr] by simp
qed

definition sms_tail :: string where "sms_tail = LF # SMS_CONFIG_BLOCK @ [LF]"

lemma SMS_CONFIG_BLOCK_head: "\<exists>x. SMS_CONFIG_BLOCK = ''sms:'' @ LF # x"
  by (simp add: SMS_CONFIG_BLOCK_def)

lemma sms_tail_facts: "CR \<notin> set sms_tail" "sms_line (SMS_CONFIG_BLOCK @ [LF])" "item_rest sms_tail = None"
  by (simp_all add: sms_tail_def SMS_CONFIG_BLOCK_def sms_line_def item_rest_def is_blank_def is_space_def code_def)

text \<open>What the text after the block becomes.\<close>

definition sms_after :: "string \<Rightarrow> string" where
  "sms_after after = (if list_all is_space after then sms_tail else rstrip_by is_space after @ LF # sms_tail)"

lemma add_sms_shape:
  assumes "CR \<notin> set after" "item_rest after = None"
  shows "rstrip_by is_space (before @ format_static_talkgroups_block tgs @ after) @ [LF, LF] @ SMS_CONFIG_BLOCK @ [LF] =
      before @ format_static_talkgroups_block tgs @ sms_after after \<and> item_rest (sms_after after) = None"
proof (cases "list_all is_space after")
  case True
  obtain b x where b: "format_static_talkgroups_block tgs = b @ [x, LF]" "\<not> is_space x" by (rule format_last)
  have "rstrip_by is_space (before @ format_static_talkgroups_block tgs @ after) = rstrip_by is_space ((before @ b @ [x]) @ LF # after)"
    by (simp add: b(1))
  also have "\<dots> = rstrip_by is_space (before @ b @ [x])"
    using True by (intro rstrip_all) (simp add: is_space_def code_def)
  also have "\<dots> = before @ b @ [x]" using b(2) by (intro rstrip_by_id) simp
  finally show ?thesis using True b(1) sms_tail_facts(3) by (simp add: sms_after_def sms_tail_def)
next
  case False
  then show ?thesis
    using rstrip_append [OF False, of "before @ format_static_talkgroups_block tgs"]
      item_rest_rstrip [OF assms(1) sms_tail_facts(1) assms(2)]
    by (simp add: sms_after_def sms_tail_def)
qed

lemma mappings_kept:
  assumes "some_line_start mappings_line True t"
  shows "some_line_start mappings_line True (rstrip_by is_space t @ x)"
proof -
  obtain u v where uv: "t = u @ v" "mappings_line v" "u = [] \<or> last u = LF"
    using assms by (auto simp: some_line_start_iff split: if_splits)
  obtain ws y where v: "v = (MAPPINGS_HEAD @ ws) @ CHR '':'' # y" using uv(2) by (auto simp: mappings_line_iff)
  have "rstrip_by is_space t = u @ rstrip_by is_space v"
    unfolding uv(1) by (rule rstrip_append) (simp add: v is_space_def code_def)
  then show ?thesis
    unfolding some_line_start_iff using uv(3) mappings_line_append [OF mappings_rstrip [OF uv(2)], of x]
    by (rule_tac exI [of _ u], rule_tac exI [of _ "rstrip_by is_space v @ x"]) auto
qed

definition complete_config :: "string \<Rightarrow> bool" where
  "complete_config t \<longleftrightarrow> some_line_start mappings_line True t \<and> some_line_start sms_line True t"

lemma updated_shape:
  assumes "updated_config src tgs = Inr new" "CR \<notin> set src"
  obtains before after after' where "find_block True src = Some (before, after)"
    "new = before @ format_static_talkgroups_block tgs @ after'" "item_rest after' = None" "complete_config new"
    "\<exists>m \<in> {after, ''  talkgroupMappings: []'' @ LF # after}. after' = m \<or> after' = sms_after m"
proof -
  let ?B = "format_static_talkgroups_block tgs"
  obtain before after where f: "find_block True src = Some (before, after)"
    using assms(1) by (auto simp: updated_config_def split: option.splits)
  obtain m where m: "ensure_talkgroup_mappings (before @ ?B @ after) = Inr (before @ ?B @ m)" "item_rest m = None"
    "m = after \<or> m = ''  talkgroupMappings: []'' @ LF # after" "some_line_start mappings_line True (before @ ?B @ m)"
    by (rule ensure_settles [OF f])
  have n: "new = with_sms_section (before @ ?B @ m)" using assms(1) f m(1) by (simp add: updated_config_def)
  have "CR \<notin> set after" using find_block_parts [OF f] assms(2) by auto
  then have cr: "CR \<notin> set m" using m(3) by auto
  show thesis
  proof (cases "some_line_start sms_line True (before @ ?B @ m)")
    case True
    then show thesis using that [OF f, of m] n m(2-4) by (auto simp: with_sms_section_def complete_config_def)
  next
    case False
    let ?r = "rstrip_by is_space (before @ ?B @ m)"
    have e: "new = ?r @ [LF, LF] @ SMS_CONFIG_BLOCK @ [LF]" using n False by (simp add: with_sms_section_def)
    note s = add_sms_shape [OF cr m(2), of before tgs]
    have "some_line_start sms_line True ((?r @ [LF, LF]) @ SMS_CONFIG_BLOCK @ [LF])"
      unfolding some_line_start_iff using sms_tail_facts(2)
      by (intro exI [of _ "?r @ [LF, LF]"] exI [of _ "SMS_CONFIG_BLOCK @ [LF]"]) simp
    then have "complete_config new" using mappings_kept [OF m(4)] by (simp add: complete_config_def e)
    then show thesis using that [OF f, of "sms_after m"] e s m(3) by auto
  qed
qed

lemma updated_again:
  assumes "updated_config src tgs = Inr new" "CR \<notin> set src"
  shows "updated_config new tgs = Inr new"
proof -
  let ?B = "format_static_talkgroups_block tgs"
  obtain before after after' where u: "find_block True src = Some (before, after)" "new = before @ ?B @ after'"
    "item_rest after' = None" "complete_config new"
    by (rule updated_shape [OF assms])
  have "?B \<noteq> []" by (simp add: format_static_talkgroups_block_def)
  then have "find_block True new = Some (before, after')"
    unfolding u(2) by (rule find_block_replace [OF u(1) block_written [OF u(3)]])
  then show ?thesis using u(2,4)
    by (simp add: updated_config_def ensure_talkgroup_mappings_def with_sms_section_def complete_config_def)
qed

section \<open>Reading it back\<close>

text \<open>Text whose only line breaks are line feeds.\<close>

definition plain_text :: "string \<Rightarrow> bool" where
  "plain_text s \<longleftrightarrow> list_all (\<lambda>c. is_linebreak c \<longrightarrow> c = LF) s"

lemma LF_facts [simp]: "is_linebreak LF" "is_space LF" "\<not> is_blank LF" "is_linebreak CR"
  by (simp_all add: is_linebreak_def is_space_def is_blank_def code_def)

lemma plain_no_CR: "plain_text s \<Longrightarrow> CR \<notin> set s"
  by (auto simp: plain_text_def list_all_iff)

lemma plain_text_Nil [simp]: "plain_text []"
  by (simp add: plain_text_def)

lemma plain_text_append [simp]: "plain_text (u @ v) \<longleftrightarrow> plain_text u \<and> plain_text v"
  by (simp add: plain_text_def)

lemma break_not_13: "c = LF \<Longrightarrow> code c \<noteq> 13"
  by (simp add: code_def)

lemma splitlines_from_append:
  "plain_text u \<Longrightarrow> u \<noteq> [] \<Longrightarrow> last u = LF \<Longrightarrow> splitlines_from acc (u @ v) = splitlines_from acc u @ splitlines_from [] v"
proof (induction u arbitrary: acc)
  case (Cons c u)
  show ?case
  proof (cases "u = []")
    case True
    then show ?thesis using Cons.prems by (simp add: break_not_13)
  next
    case False
    then show ?thesis using Cons by (auto simp: plain_text_def break_not_13)
  qed
qed simp

lemma splitlines_append:
  "plain_text u \<Longrightarrow> u = [] \<or> last u = LF \<Longrightarrow> splitlines (u @ v) = splitlines u @ splitlines v"
  by (cases "u = []") (auto simp: splitlines_def splitlines_from_append)

lemma splitlines_word: "list_all (\<lambda>c. \<not> is_linebreak c) l \<Longrightarrow> l \<noteq> [] \<Longrightarrow> splitlines l = [l]"
proof -
  have "list_all (\<lambda>c. \<not> is_linebreak c) l \<Longrightarrow> splitlines_from acc l = (if acc = [] \<and> l = [] then [] else [rev acc @ l])" for acc
    by (induction l arbitrary: acc) auto
  then show "list_all (\<lambda>c. \<not> is_linebreak c) l \<Longrightarrow> l \<noteq> [] \<Longrightarrow> splitlines l = [l]" by (simp add: splitlines_def)
qed

lemma splitlines_line: "list_all (\<lambda>c. \<not> is_linebreak c) l \<Longrightarrow> splitlines (l @ LF # r) = l # splitlines r"
  by (simp add: splitlines_def splitlines_from_plain)

text \<open>Reading items from two pieces of text.\<close>

definition stops :: "string \<Rightarrow> bool" where
  "stops line \<longleftrightarrow> strip line \<noteq> [] \<and> \<not> prefix ''#'' (strip line) \<and> indentation line \<le> 2"

lemma read_items_append:
  "read_items (xs @ ys) = read_items xs @ (if \<exists>l \<in> set xs. stops l then [] else read_items ys)"
  by (induction xs) (auto simp: Let_def stops_def)

lemma section_end_stops: "section_end line \<Longrightarrow> stops line"
  by (cases line) (auto simp: section_end_def stops_def indented_def indentation_def)

lemma read_items_section: "read_items (takeWhile (\<lambda>line. \<not> section_end line) ls) = read_items ls"
proof (induction ls)
  case (Cons l ls)
  then show ?case using section_end_stops [of l] by (auto simp: Let_def stops_def)
qed simp

text \<open>What follows the block holds no further items and no further list.\<close>

definition no_items :: "string list \<Rightarrow> bool" where
  "no_items ls \<longleftrightarrow> read_items ls = [] \<and> list_all (\<lambda>line. \<not> static_key line) (takeWhile (\<lambda>line. \<not> section_end line) ls)"

lemma no_items_append:
  "no_items xs \<Longrightarrow> no_items ys \<Longrightarrow> no_items (xs @ ys)"
proof (cases "\<exists>x \<in> set xs. section_end x")
  case False
  then have "takeWhile (\<lambda>line. \<not> section_end line) xs = xs" by (simp add: takeWhile_eq_all_conv)
  then show "no_items xs \<Longrightarrow> no_items ys \<Longrightarrow> no_items (xs @ ys)"
    using False by (auto simp: no_items_def read_items_append takeWhile_append)
qed (auto simp: no_items_def read_items_append takeWhile_append)

lemma no_items_prefix: "no_items (xs @ ys) \<Longrightarrow> no_items xs"
  by (auto simp: no_items_def read_items_append takeWhile_append list_all_iff split: if_splits dest: set_takeWhileD)

lemma strip_spaces:
  assumes "list_all is_space w"
  shows "strip (l @ w) = strip l"
proof (cases "list_all is_space l")
  case True
  then have "dropWhile is_space l = []" "dropWhile is_space (l @ w) = []"
    using assms by (auto simp: dropWhile_eq_Nil_conv list_all_iff)
  then show ?thesis by (simp only: strip_by_def lstrip_by_def)
next
  case False
  then have "dropWhile is_space (l @ w) = dropWhile is_space l @ w" by (auto simp: list_all_iff dropWhile_append1)
  then show ?thesis using rstrip_all [OF assms] by (simp only: strip_by_def lstrip_by_def)
qed

lemma no_items_last:
  assumes "no_items (ls @ [l @ w])" "list_all is_space w" "strip l \<noteq> []"
  shows "no_items (ls @ [l])"
proof -
  have s: "strip (l @ w) = strip l" by (rule strip_spaces [OF assms(2)])
  have ne: "\<exists>c \<in> set l. \<not> is_space c" using assms(3)
    by (auto simp: strip_by_def lstrip_by_def rstrip_by_def dest: set_dropWhileD)
  then have i: "indentation (l @ w) = indentation l" "indented (l @ w) = indented l"
    by (cases l; auto simp: indentation_def indented_def takeWhile_append)+
  have "read_items [l @ w] = read_items [l]" "section_end (l @ w) = section_end l" "stops (l @ w) = stops l"
    by (simp_all add: s i section_end_def stops_def Let_def)
  moreover have "static_key l \<Longrightarrow> static_key (l @ w)" by (simp add: static_key_def s)
  ultimately show ?thesis
    using assms(1) by (auto simp: no_items_def read_items_append takeWhile_append split: if_splits)
qed

lemma no_items_tail: "no_items (splitlines sms_tail)"
proof -
  obtain x where x: "SMS_CONFIG_BLOCK = ''sms:'' @ LF # x" using SMS_CONFIG_BLOCK_head by blast
  have "splitlines sms_tail = [] # ''sms:'' # splitlines (x @ [LF])"
    using splitlines_line [of "[]" "SMS_CONFIG_BLOCK @ [LF]"] splitlines_line [of "''sms:''" "x @ [LF]"]
    by (simp add: sms_tail_def x is_linebreak_def code_def)
  moreover have "strip ''sms:'' = ''sms:''" by (rule strip_by_id) (simp add: is_space_def code_def)
  ultimately show ?thesis
    by (simp add: no_items_def section_end_def indented_def indentation_def is_space_def code_def static_key_def
        strip_by_def lstrip_by_def rstrip_by_def Let_def)
qed

text \<open>The last line of a text.\<close>

lemma last_line:
  assumes "plain_text r" "r \<noteq> []" "\<not> is_space (last r)"
  obtains r1 l where "r = r1 @ l" "r1 = [] \<or> last r1 = LF" "list_all (\<lambda>c. \<not> is_linebreak c) l" "l \<noteq> []" "strip l \<noteq> []"
proof -
  let ?l = "rev (takeWhile (\<lambda>c. c \<noteq> LF) (rev r))" and ?r1 = "rev (dropWhile (\<lambda>c. c \<noteq> LF) (rev r))"
  obtain i x where x: "r = i @ [x]" using assms(2) by (cases r rule: rev_cases) auto
  have "r = ?r1 @ ?l" by (metis rev_append rev_rev_ident takeWhile_dropWhile_id)
  moreover have "?r1 = [] \<or> last ?r1 = LF"
    using hd_dropWhile [of "\<lambda>c. c \<noteq> LF" "rev r"] by (auto simp: last_rev)
  moreover have "list_all (\<lambda>c. \<not> is_linebreak c) ?l"
    using assms(1) by (auto simp: plain_text_def list_all_iff dest: set_takeWhileD)
  moreover have l: "?l \<noteq> []" "\<not> is_space (last ?l)" using assms(3) by (auto simp: x)
  moreover have "strip ?l \<noteq> []"
  proof -
    have "last ?l \<in> set (dropWhile is_space ?l)" using l
      by (metis Un_iff last_in_set set_append set_takeWhileD takeWhile_dropWhile_id)
    then show ?thesis using l(2)
      by (auto simp: strip_by_def lstrip_by_def rstrip_by_def dropWhile_eq_Nil_conv)
  qed
  ultimately show thesis using that by blast
qed

lemma no_items_sms:
  assumes "plain_text m" "no_items (splitlines m)"
  shows "no_items (splitlines (sms_after m))"
proof (cases "list_all is_space m")
  case True
  then show ?thesis by (simp add: sms_after_def no_items_tail)
next
  case False
  let ?r = "rstrip_by is_space m" and ?w = "rev (takeWhile is_space (rev m))"
  have m: "m = ?r @ ?w"
    unfolding rstrip_by_def rev_append [symmetric] by (simp only: takeWhile_dropWhile_id rev_rev_ident)
  have w: "list_all is_space ?w" by (auto simp: list_all_iff dest: set_takeWhileD)
  have p: "plain_text ?r" "plain_text ?w" using assms(1) m by (metis plain_text_append)+
  have "?r \<noteq> []" using False by (auto simp: rstrip_by_def list_all_iff dropWhile_eq_Nil_conv)
  then have "\<not> is_space (last ?r)" using rstrip_by_last by blast
  from last_line [OF p(1) \<open>?r \<noteq> []\<close> this] obtain r1 l where l: "?r = r1 @ l" "r1 = [] \<or> last r1 = LF"
    "list_all (\<lambda>c. \<not> is_linebreak c) l" "l \<noteq> []" "strip l \<noteq> []" .
  let ?w1 = "takeWhile (\<lambda>c. c \<noteq> LF) ?w" and ?w2 = "dropWhile (\<lambda>c. c \<noteq> LF) ?w"
  have w1: "list_all (\<lambda>c. \<not> is_linebreak c) (l @ ?w1)" "list_all is_space ?w1"
    using l(3) p(2) w by (auto simp: plain_text_def list_all_iff dest!: set_takeWhileD)
  have pr: "plain_text r1" using p(1) l(1) by simp
  have "\<exists>X. splitlines (l @ ?w) = (l @ ?w1) # X"
  proof (cases ?w2)
    case Nil
    then have "?w = ?w1" by (metis append_Nil2 takeWhile_dropWhile_id)
    then show ?thesis using splitlines_word [OF w1(1)] l(4) by simp
  next
    case (Cons c u)
    then have "c = LF" using hd_dropWhile [of "\<lambda>c. c \<noteq> LF" ?w] by simp
    then have "l @ ?w = (l @ ?w1) @ LF # u" using Cons takeWhile_dropWhile_id [of "\<lambda>c. c \<noteq> LF" ?w] by (metis append_assoc)
    then show ?thesis using splitlines_line [OF w1(1), of u] by metis
  qed
  then obtain X where "splitlines m = (splitlines r1 @ [l @ ?w1]) @ X"
    using splitlines_append [OF pr l(2), of "l @ ?w"] m l(1) by (metis append.assoc append_Cons append_Nil)
  then have "no_items (splitlines r1 @ [l @ ?w1])" using assms(2) no_items_prefix by metis
  then have "no_items (splitlines r1 @ [l])" by (rule no_items_last [OF _ w1(2) l(5)])
  from no_items_append [OF this no_items_tail] show ?thesis
    using splitlines_append [OF pr l(2), of "l @ LF # sms_tail"] splitlines_line [OF l(3), of sms_tail] l(1) False
    by (simp add: sms_after_def)
qed

text \<open>The lines of the written block.\<close>

lemma item_line_facts:
  "list_all (\<lambda>c. \<not> is_linebreak c) (item_line tg)"
  "0 < tg \<Longrightarrow> read_items (item_line tg # ls) = tg # read_items ls"
  "\<not> section_end (item_line tg)" "\<not> static_key (item_line tg)"
proof -
  have digits: "list_all (\<lambda>c. \<not> is_space c \<and> \<not> is_linebreak c \<and> c \<noteq> CHR ''#'') (show_int tg)"
    using show_int_chars [of _ tg] is_digit_not_space is_digit_not_linebreak
    by (fastforce simp: list_all_iff is_space_def is_linebreak_def code_def is_digit_def)
  have ne: "show_int tg \<noteq> []" by (simp add: show_int_def)
  show "list_all (\<lambda>c. \<not> is_linebreak c) (item_line tg)"
    using digits by (auto simp: item_line_def list_all_iff is_linebreak_def code_def)
  have st: "strip (item_line tg) = ''- '' @ show_int tg"
  proof -
    have "\<not> is_space (last (show_int tg))" using digits ne by (simp add: list_all_iff)
    then have "strip (''- '' @ show_int tg) = ''- '' @ show_int tg"
      using ne by (intro strip_by_id) (simp add: is_space_def code_def)
    then show ?thesis by (simp add: item_line_def strip_by_def lstrip_by_def is_space_def code_def)
  qed
  show "\<not> section_end (item_line tg)" by (simp add: section_end_def indented_def item_line_def is_space_def code_def)
  show "\<not> static_key (item_line tg)" by (simp add: static_key_def st)
  assume pos: "0 < tg"
  have tw: "takeWhile (\<lambda>c. c \<noteq> CHR ''#'') (show_int tg) = show_int tg"
    using digits by (simp add: takeWhile_eq_all_conv list_all_iff)
  have "strip (show_int tg) = show_int tg" using digits ne by (intro strip_by_id) (simp add: list_all_iff)
  moreover have "py_int_str (show_int tg) = Inr tg" using pos by (simp add: show_int_def)
  ultimately have "item_value (''- '' @ show_int tg) = Some tg"
    using tw pos by (simp add: item_value_def del: takeWhile_eq_all_conv)
  moreover have "indentation (item_line tg) = 4"
    by (simp add: indentation_def item_line_def is_space_def code_def)
  ultimately show "read_items (item_line tg # ls) = tg # read_items ls" by (simp add: Let_def st)
qed

definition block_lines :: "int list \<Rightarrow> string list" where
  "block_lines tgs = (if tgs = [] then [''  staticTalkgroups: []''] else STATIC_HEAD # map item_line tgs)"

lemma head_facts:
  "list_all (\<lambda>c. \<not> is_linebreak c) STATIC_HEAD" "static_key STATIC_HEAD" "\<not> section_end STATIC_HEAD"
  "list_all (\<lambda>c. \<not> is_linebreak c) ''  staticTalkgroups: []''" "\<not> static_key ''  staticTalkgroups: []''"
  "\<not> section_end ''  staticTalkgroups: []''"
  by (simp_all add: STATIC_HEAD_def is_linebreak_def code_def static_key_def section_end_def indented_def is_space_def
      strip_by_def lstrip_by_def rstrip_by_def)

lemma block_as_lines: "format_static_talkgroups_block tgs = concat (map (\<lambda>l. l @ [LF]) (block_lines tgs))"
  by (simp add: format_lines block_lines_def comp_def)

lemma splitlines_block:
  "splitlines (format_static_talkgroups_block tgs @ r) = block_lines tgs @ splitlines r"
proof -
  have "splitlines (concat (map (\<lambda>l. l @ [LF]) ls) @ r) = ls @ splitlines r"
    if "\<And>l. l \<in> set ls \<Longrightarrow> list_all (\<lambda>c. \<not> is_linebreak c) l" for ls
    using that by (induction ls) (simp_all add: splitlines_line)
  moreover have "list_all (\<lambda>c. \<not> is_linebreak c) l" if "l \<in> set (block_lines tgs)" for l
    using that head_facts(1,4) item_line_facts(1) by (auto simp: block_lines_def split: if_splits)
  ultimately show ?thesis unfolding block_as_lines by blast
qed

lemma read_written_items:
  "list_all ((<) 0) tgs \<Longrightarrow> read_items (map item_line tgs @ ls) = tgs @ read_items ls"
  by (induction tgs) (simp_all add: item_line_facts del: read_items.simps)

lemma no_items_mappings:
  assumes "no_items (splitlines after)"
  shows "no_items (splitlines (''  talkgroupMappings: []'' @ LF # after))"
proof -
  let ?M = "''  talkgroupMappings: []''"
  have "splitlines (?M @ LF # after) = ?M # splitlines after"
    by (rule splitlines_line) (simp add: is_linebreak_def code_def)
  moreover have "stops ?M" "\<not> section_end ?M" "\<not> static_key ?M" "item_value (strip ?M) = None"
    by (simp_all add: stops_def section_end_def indented_def indentation_def static_key_def item_value_def
        strip_by_def lstrip_by_def rstrip_by_def is_space_def code_def)
  ultimately show ?thesis using assms by (simp add: no_items_def stops_def Let_def)
qed

lemma updated_config_exists:
  assumes "find_block True src = Some (before, after)"
  shows "\<exists>new. updated_config src tgs = Inr new"
  by (rule ensure_settles [OF assms, of tgs]) (simp add: updated_config_def assms)

lemma read_section:
  assumes "dropWhile (\<lambda>line. \<not> section_head sect line) (splitlines before) = heading # mid"
    and "list_all (\<lambda>line. \<not> section_end line) (mid @ block_lines tgs)" "plain_text before" "before = [] \<or> last before = LF"
  shows "section_lines (before @ format_static_talkgroups_block tgs @ r) sect =
    Inr (mid @ block_lines tgs @ takeWhile (\<lambda>line. \<not> section_end line) (splitlines r))"
proof -
  have "\<exists>l \<in> set (splitlines before). section_head sect l"
    using assms(1) by (metis dropWhile_eq_Nil_conv list.distinct(1))
  then have "dropWhile (\<lambda>line. \<not> section_head sect line) (splitlines before @ ls) = heading # mid @ ls" for ls
    using assms(1) by (auto simp: dropWhile_append)
  moreover have "takeWhile (\<lambda>line. \<not> section_end line) (mid @ block_lines tgs @ ls) =
      mid @ block_lines tgs @ takeWhile (\<lambda>line. \<not> section_end line) ls" for ls
    using assms(2) by (simp add: takeWhile_append list_all_iff)
  ultimately show ?thesis
    by (simp add: section_lines_def splitlines_append [OF assms(3,4)] splitlines_block)
qed

text \<open>C39: the talkgroups the synchronisation writes are the ones the maintenance scripts read back: when
  the list of static talkgroups lies in the \<open>routing\<close> section of a text whose only line breaks are
  line feeds, and no item of the list is left over after a blank or a comment line, then the update
  succeeds with any set of talkgroups, keeps the text before the list, and \<^verbatim>\<open>read_static_talkgroups\<close> of the
  new text is that set, the empty one included.\<close>

theorem synced_talkgroups_read_back:
  assumes "find_block True src = Some (before, after)" "plain_text src"
    and "dropWhile (\<lambda>line. \<not> section_head ''routing'' line) (splitlines before) = heading # mid"
    and "list_all (\<lambda>line. \<not> section_end line \<and> \<not> static_key line) mid" "no_items (splitlines after)"
    and "sorted tgs" "distinct tgs" "list_all ((<) 0) tgs"
  shows "\<exists>new. updated_config src tgs = Inr new \<and> read_static_talkgroups new = Inr tgs \<and> prefix before new"
proof -
  obtain new where new: "updated_config src tgs = Inr new" using updated_config_exists [OF assms(1)] by blast
  obtain before' a after' where v: "find_block True src = Some (before', a)"
    "new = before' @ format_static_talkgroups_block tgs @ after'"
    "\<exists>m \<in> {a, ''  talkgroupMappings: []'' @ LF # a}. after' = m \<or> after' = sms_after m"
    by (rule updated_shape [OF new plain_no_CR [OF assms(2)]])
  have u: "new = before @ format_static_talkgroups_block tgs @ after'"
    "\<exists>m \<in> {after, ''  talkgroupMappings: []'' @ LF # after}. after' = m \<or> after' = sms_after m"
    using v assms(1) by auto
  have parts: "plain_text before" "before = [] \<or> last before = LF" "plain_text after"
    using find_block_parts [OF assms(1)] assms(2) by auto
  have "plain_text (''  talkgroupMappings: []'' @ LF # after)"
    using parts(3) by (simp add: plain_text_def is_linebreak_def code_def)
  then have rest: "no_items (splitlines after')"
    using u(2) no_items_sms [OF parts(3) assms(5)] no_items_sms [OF _ no_items_mappings [OF assms(5)]]
      no_items_mappings [OF assms(5)] assms(5) by blast
  let ?rest = "takeWhile (\<lambda>line. \<not> section_end line) (splitlines after')"
  have "list_all (\<lambda>line. \<not> section_end line) (mid @ block_lines tgs)"
    using assms(4) head_facts item_line_facts(3) by (auto simp: block_lines_def list_all_iff)
  from read_section [OF assms(3) this parts(1,2)]
  have sect: "section_lines new ''routing'' = Inr (mid @ block_lines tgs @ ?rest)" by (simp add: u(1))
  have mid: "dropWhile (\<lambda>line. \<not> static_key line) (mid @ ls) = dropWhile (\<lambda>line. \<not> static_key line) ls" for ls
    using assms(4) by (simp add: dropWhile_append2 list_all_iff)
  have items: "read_items ?rest = []" using rest by (simp add: no_items_def read_items_section)
  have "read_static_talkgroups new = Inr tgs"
  proof (cases "tgs = []")
    case True
    have "dropWhile (\<lambda>line. \<not> static_key line) (mid @ block_lines tgs @ ?rest) = []"
      using True rest head_facts(5) unfolding mid by (auto simp: dropWhile_eq_Nil_conv block_lines_def no_items_def list_all_iff)
    then show ?thesis by (simp only: read_static_talkgroups_def sect bindE_simps list.case True)
  next
    case False
    have "read_items (map item_line tgs @ ?rest) = tgs" using read_written_items [OF assms(8)] items by simp
    then show ?thesis
      using False assms(6,7) by (simp add: read_static_talkgroups_def sect mid block_lines_def head_facts sorted_list_of_set.idem_if_sorted_distinct)
  qed
  then show ?thesis using new u(1) by auto
qed

text \<open>The synchronisation settles: running it again with the same talkgroups on the text it wrote
  changes nothing, whatever the text was, so that the services are not restarted again.\<close>

theorem sync_settles:
  assumes "updated_config src tgs = Inr new" "CR \<notin> set src" "site_files s path = Some new"
  shows "update_quantarbridge_config w path tgs s = (Inr False, s)"
  using updated_again [OF assms(1,2)] assms(3)
  by (simp add: update_quantarbridge_config_def read_text_def write_text_if_changed_def bindA_def)

section \<open>Examples\<close>

definition example_yml :: string where
  "example_yml = ''routing:'' @ [LF] @ STATIC_HEAD @ [LF] @ ''    - 7'' @ [LF] @ ''  x: 1'' @ [LF]"

lemma example_block: "find_block True example_yml = Some (''routing:'' @ [LF], ''  x: 1'' @ [LF])"
proof -
  have "line_rest ([] @ LF # item_line 7 @ LF # ''  x: 1'' @ [LF]) = Some (item_line 7 @ LF # ''  x: 1'' @ [LF])"
    by (rule line_rest_line) simp_all
  moreover have "item_rest (''  x: 1'' @ [LF]) = None" by (simp add: item_rest_def is_blank_def)
  ultimately have "block_rest (STATIC_HEAD @ LF # item_line 7 @ LF # ''  x: 1'' @ [LF]) = Some (''  x: 1'' @ [LF])"
    using skip_items_some [OF item_line_rest [of 7 "''  x: 1'' @ [LF]"]]
    by (simp add: block_rest_def skip_items_none del: append_Cons)
  moreover have "item_line 7 = ''    - 7''" by code_simp
  ultimately have b: "block_rest (STATIC_HEAD @ LF # ''    - 7'' @ LF # ''  x: 1'' @ [LF]) = Some (''  x: 1'' @ [LF])"
    by (simp only:)
  have "\<not> prefix STATIC_HEAD (''routing:'' @ y)" for y by (simp add: STATIC_HEAD_def)
  then have n: "block_rest (''routing:'' @ y) = None" for y by (simp add: block_rest_def)
  have "find_block True (STATIC_HEAD @ y) = Some ([], r)" if "block_rest (STATIC_HEAD @ y) = Some r" for y r
    using that by (subst find_block.simps) simp
  from this [OF b] show ?thesis using n [of "[LF] @ STATIC_HEAD @ LF # ''    - 7'' @ LF # ''  x: 1'' @ [LF]"]
    by (simp add: example_yml_def find_block_Cons)
qed

lemma example_yml_plain: "plain_text example_yml"
  by (simp add: example_yml_def plain_text_def is_linebreak_def code_def STATIC_HEAD_def)

theorem synced_talkgroups_read_back_witness:
  "\<exists>new. updated_config example_yml [91, 262] = Inr new \<and> read_static_talkgroups new = Inr [91, 262]"
proof -
  have r: "splitlines (''routing:'' @ [LF]) = [''routing:'']" "section_head ''routing'' ''routing:''" by code_simp+
  have n: "no_items (splitlines (''  x: 1'' @ [LF]))" by code_simp
  show ?thesis
    using synced_talkgroups_read_back [OF example_block example_yml_plain _ _ n, of "''routing:''" "[]" "[91, 262]"] r
    by auto
qed

definition example_outside :: outside where
  "example_outside = \<lparr>profile = (\<lambda>_ _. Inr (PDict [(''staticSubscriptions'',
       PList [PDict [(''slot'', PInt 0), (''talkgroup'', PInt 262)], PDict [(''slot'', PStr ''0''), (''talkgroup'', PStr ''91'')],
         PDict [(''slot'', PInt 0)]])])),
     write_fails = (\<lambda>_. None), systemctl_fails = (\<lambda>_ _. None), wall_clock = 1000\<rparr>"

definition example_site :: "string \<Rightarrow> site" where
  "example_site t = \<lparr>site_files = [(True, [''q.yml'']) \<mapsto> t], stamps = Map.empty, commands = []\<rparr>"

theorem sync_settles_witness:
  "\<exists>new. updated_config example_yml [91] = Inr new \<and>
     update_quantarbridge_config example_outside (True, [''q.yml'']) [91] (example_site new) = (Inr False, example_site new)"
proof -
  obtain new where n: "updated_config example_yml [91] = Inr new" using updated_config_exists [OF example_block] by blast
  have "site_files (example_site new) (True, [''q.yml'']) = Some new" by (simp add: example_site_def)
  from sync_settles [OF n plain_no_CR [OF example_yml_plain] this] n show ?thesis by blast
qed

text \<open>An item after an empty line is not part of the block that is replaced, but it is read.\<close>

lemma left_over_talkgroup:
  defines "t \<equiv> ''routing:'' @ [LF] @ STATIC_HEAD @ [LF] @ ''    - 7'' @ [LF, LF] @ ''    - 8'' @ [LF] @ MAPPINGS_HEAD @ '': []'' @ [LF] @ ''sms:'' @ [LF]"
  shows "bindE (updated_config t [91]) read_static_talkgroups = Inr [8, 91]"
  unfolding t_def by code_simp

end
