(* ===== verification/Recovery.thy ===== *)
theory Recovery
  imports Static_Sync
begin

text \<open>
  The other maintenance scripts: \<^verbatim>\<open>bm_static_guard.py\<close>, \<^verbatim>\<open>ensure_static_tg.py\<close>, \<^verbatim>\<open>dynamic_expiry_recover.py\<close>,
  \<^verbatim>\<open>bm_to_p25_recover.py\<close>, \<^verbatim>\<open>dmr_to_p25_recover.py\<close>, \<^verbatim>\<open>dvmhost_recover.py\<close> and \<^verbatim>\<open>quantar_static_recover.py\<close>. They share
  the state \<open>site\<close>. The record \<open>watch\<close> is what \<^verbatim>\<open>systemctl show\<close>, \<^verbatim>\<open>ps\<close>, \<^verbatim>\<open>journalctl\<close> and the BrandMeister API
  answer during a run; what a script prints is left out. \<open>commands\<close> is the list of the commands that
  change a service, a subscription or the gateway, in order.
\<close>

section \<open>The outside\<close>

record watch =
  host_side :: outside
  main_pid :: "string \<Rightarrow> py_error + string"
  elapsed :: "string \<Rightarrow> py_error + string"
  journal :: "string list \<Rightarrow> string \<Rightarrow> py_error + string"
  dynamic_profile :: "nat \<Rightarrow> py_error + pyval"
  action_fails :: "nat \<Rightarrow> py_error option"
  loop_time :: "nat \<Rightarrow> real"

definition count_matches :: "string \<Rightarrow> string \<Rightarrow> int" where
  "count_matches txt needle = int (length (filter (contains needle) (splitlines txt)))"

definition service_main_pid :: "watch \<Rightarrow> string \<Rightarrow> py_error + string" where
  "service_main_pid w service =
     bindE (main_pid w service) (\<lambda>out. let pid = strip out in Inr (if pid = [] \<or> pid = ''0'' then [] else pid))"

definition service_age_seconds :: "watch \<Rightarrow> string \<Rightarrow> py_error + int" where
  "service_age_seconds w service =
     bindE (service_main_pid w service) (\<lambda>pid.
       if pid = [] then Inr 0
       else bindE (elapsed w pid) (\<lambda>out. let age = strip out in py_int_str (if age = [] then ''0'' else age)))"

text \<open>Without a configuration file nothing else owns the voice path.\<close>

definition voice_owned :: "pypath \<Rightarrow> bool site_act" where
  "voice_owned config_path = readA (\<lambda>s. case site_files s config_path of
     None \<Rightarrow> ret False | Some t \<Rightarrow> liftE (brew_audio_owns_voice t))"

section \<open>\<^verbatim>\<open>bm_to_p25_recover.py\<close>\<close>

record bm_args =
  bm_window :: string
  min_qb_frames :: int
  min_bridge_p25 :: int
  max_host_p25_net :: int
  bm_cooldown_seconds :: int
  bm_stamp :: pypath
  bm_min_interval :: real
  bm_config :: pypath

abbreviation BRIDGE :: string where "BRIDGE \<equiv> ''dvmbridge-dmr-to-p25.service''"
abbreviation HOST :: string where "HOST \<equiv> ''dvmhost.service''"

definition p25_frames :: "string \<Rightarrow> int" where
  "p25_frames logs = count_matches logs ''P25, LDU1'' + count_matches logs ''P25, LDU2''"

definition bm_stuck :: "watch \<Rightarrow> bm_args \<Rightarrow> py_error + bool" where
  "bm_stuck w a =
     bindE (service_age_seconds w BRIDGE) (\<lambda>bridge_age.
     bindE (service_age_seconds w HOST) (\<lambda>host_age.
     bindE (journal w [''quantarbridge.service''] (bm_window a)) (\<lambda>qb_logs.
     bindE (journal w [BRIDGE] (bm_window a)) (\<lambda>bridge_logs.
     bindE (journal w [HOST] (bm_window a)) (\<lambda>host_logs.
     let qb_frames = count_matches qb_logs ''Forwarding BrandMeister DMR to FNE'';
         bridge_p25 = p25_frames bridge_logs;
         host_p25 = count_matches host_logs ''P25 Net network voice transmission'' + p25_frames host_logs
     in Inr (\<not> (min bridge_age host_age < bm_cooldown_seconds a \<or> qb_frames < min_qb_frames a \<or>
          bridge_p25 < min_bridge_p25 a \<or> host_p25 > max_host_p25_net a)))))))"

definition bm_to_p25_main :: "watch \<Rightarrow> bm_args \<Rightarrow> unit site_act" where
  "bm_to_p25_main w a =
     bindA (voice_owned (bm_config a)) (\<lambda>owned. readA (\<lambda>s.
       if owned \<or> throttle_active (host_side w) s (bm_stamp a) (bm_min_interval a) then ret ()
       else thenA (touch_stamp (host_side w) (bm_stamp a))
         (bindA (liftE (bm_stuck w a)) (\<lambda>stuck.
            if stuck then systemctl (host_side w) ''restart'' BRIDGE else ret ()))))"

section \<open>\<^verbatim>\<open>dmr_to_p25_recover.py\<close>\<close>

record dmr_args =
  dmr_window :: string
  idle_window :: string
  bridge_service :: string
  host_service :: string
  max_watchdog_seconds :: int
  dmr_cooldown_seconds :: int
  dmr_stamp :: pypath
  dmr_min_interval :: real
  dmr_config :: pypath

definition WATCHDOG_RE :: "rx list" where
  "WATCHDOG_RE = [Lit ''Network watchdog, call end, dur = '', Cap1 is_digit, Lit ''s'']"

definition watchdog_seconds :: "string \<Rightarrow> int list" where
  "watchdog_seconds logs = List.map_filter
     (\<lambda>line. map_option (\<lambda>m. int (nat_of_digits (hd m))) (rsearch WATCHDOG_RE line)) (splitlines logs)"

definition worst_watchdog :: "string \<Rightarrow> int" where
  "worst_watchdog logs = (case watchdog_seconds logs of [] \<Rightarrow> 0 | x # xs \<Rightarrow> Max (set (x # xs)))"

definition start_host_if_inactive :: "watch \<Rightarrow> string \<Rightarrow> bool site_act" where
  "start_host_if_inactive w service =
     bindA (liftE (service_main_pid w service)) (\<lambda>pid.
       if pid \<noteq> [] then ret False else thenA (systemctl (host_side w) ''start'' service) (ret True))"

definition dmr_stuck :: "watch \<Rightarrow> dmr_args \<Rightarrow> py_error + bool" where
  "dmr_stuck w a =
     bindE (service_age_seconds w (bridge_service a)) (\<lambda>bridge_age.
     bindE (service_age_seconds w (host_service a)) (\<lambda>host_age.
     bindE (service_main_pid w (bridge_service a)) (\<lambda>bridge_pid.
     bindE (service_main_pid w (host_service a)) (\<lambda>host_pid.
     bindE (journal w [''_PID='' @ bridge_pid] (dmr_window a)) (\<lambda>bridge_logs.
     bindE (journal w [''_PID='' @ bridge_pid, ''_PID='' @ host_pid] (idle_window a)) (\<lambda>recent_logs.
     bindE (journal w [''_PID='' @ host_pid] (dmr_window a)) (\<lambda>host_logs.
     Inr (\<not> min bridge_age host_age < dmr_cooldown_seconds a \<and>
          worst_watchdog bridge_logs \<ge> max_watchdog_seconds a))))))))"

definition dmr_to_p25_main :: "watch \<Rightarrow> dmr_args \<Rightarrow> unit site_act" where
  "dmr_to_p25_main w a =
     bindA (start_host_if_inactive w (host_service a)) (\<lambda>was_started.
     if was_started then ret ()
     else bindA (voice_owned (dmr_config a)) (\<lambda>owned.
       if owned then ret ()
       else bindA (liftE (dmr_stuck w a)) (\<lambda>stuck. readA (\<lambda>s.
         if \<not> stuck \<or> throttle_active (host_side w) s (dmr_stamp a) (dmr_min_interval a) then ret ()
         else thenA (touch_stamp (host_side w) (dmr_stamp a))
             (systemctl (host_side w) ''restart'' (bridge_service a))))))"

section \<open>\<^verbatim>\<open>dvmhost_recover.py\<close>\<close>

record host_args =
  host_window :: string
  service :: string
  min_watchdog_expiries :: int
  min_net_calls :: int
  host_cooldown_seconds :: int

definition host_stuck :: "watch \<Rightarrow> host_args \<Rightarrow> py_error + bool" where
  "host_stuck w a =
     bindE (service_age_seconds w (service a)) (\<lambda>service_age.
     bindE (journal w [service a] (host_window a)) (\<lambda>logs.
     Inr (\<not> (service_age < host_cooldown_seconds a \<or>
          count_matches logs ''P25 Net network watchdog has expired'' < min_watchdog_expiries a \<or>
          count_matches logs ''P25 Net network voice transmission'' < min_net_calls a))))"

definition dvmhost_main :: "watch \<Rightarrow> host_args \<Rightarrow> unit site_act" where
  "dvmhost_main w a =
     bindA (liftE (host_stuck w a)) (\<lambda>stuck.
       if stuck then systemctl (host_side w) ''restart'' (service a) else ret ())"

section \<open>\<^verbatim>\<open>bm_static_guard.py\<close>\<close>

record guard_args =
  guard_config :: pypath
  required_tg :: "int list"
  guard_stamp :: pypath
  guard_min_interval :: real

definition guard_entry :: "int \<Rightarrow> pyval \<Rightarrow> py_error + int option" where
  "guard_entry slot entry =
     (case bindE (bindE (py_get entry ''slot'' (PInt (- 1))) py_int) (\<lambda>s.
           bindE (bindE (py_item entry ''talkgroup'') py_int) (\<lambda>tg. Inr (s, tg))) of
        Inr (s, tg) \<Rightarrow> Inr (if s = slot then Some tg else None)
      | Inl e \<Rightarrow> if is_key_error e \<or> is_type_error e \<or> is_value_error e then Inr None else Inl e)"

definition guard_talkgroups :: "pyval \<Rightarrow> int \<Rightarrow> py_error + int set" where
  "guard_talkgroups payload slot =
     bindE (bindE (py_get payload ''staticSubscriptions'' (PList [])) py_iter) (\<lambda>entries.
     bindE (mapE (guard_entry slot) entries) (\<lambda>tgs. Inr (set (List.map_filter id tgs))))"

text \<open>The result is the talkgroups that are required and missing, \<open>None\<close> when the run was throttled.\<close>

definition guard_main :: "watch \<Rightarrow> guard_args \<Rightarrow> int list option site_act" where
  "guard_main w a =
     bindA (read_text (guard_config a)) (\<lambda>t.
     bindA (liftE (read_brandmeister_device t)) (\<lambda>(device_id, slot).
     if slot \<notin> {0, 1, 2} then raiseA (RuntimeError ''BrandMeister API slot must be 0, 1 or 2'')
     else readA (\<lambda>s.
       if throttle_active (host_side w) s (guard_stamp a) (guard_min_interval a) then ret None
       else thenA (touch_stamp (host_side w) (guard_stamp a))
         (bindA (liftE (bindE (profile (host_side w) device_id None) (\<lambda>payload. guard_talkgroups payload slot))) (\<lambda>static_tgs.
          bindA (liftE (read_static_talkgroups t)) (\<lambda>configured.
          ret (Some (sorted_list_of_set
            ((if configured \<noteq> [] then set configured else set (required_tg a)) - static_tgs)))))))))"

section \<open>\<^verbatim>\<open>dynamic_expiry_recover.py\<close>\<close>

record expiry_args =
  trigger :: pypath
  expiry_config :: pypath
  expiry_key_file :: pypath
  slot_override :: "int option"
  wait_ready_seconds :: int

definition required_api_key :: "pypath \<Rightarrow> string site_act" where
  "required_api_key path = bindA (read_text path) (\<lambda>t.
     if strip t = [] then raiseA (RuntimeError ''BM API key file is empty'') else ret (strip t))"

text \<open>Is the expired talkgroup still among the dynamic subscriptions?\<close>

primrec still_active :: "int \<Rightarrow> int \<Rightarrow> pyval list \<Rightarrow> py_error + bool" where
  "still_active expired slot [] = Inr False"
| "still_active expired slot (entry # es) =
     (case bindE (bindE (py_get entry ''talkgroup'' (PInt 0)) py_int) (\<lambda>tg.
           bindE (bindE (py_get entry ''slot'' (PInt 0)) py_int) (\<lambda>s. Inr (tg, s))) of
        Inr (tg, s) \<Rightarrow> if tg = expired \<and> s = slot then Inr True else still_active expired slot es
      | Inl e \<Rightarrow> if is_type_error e \<or> is_value_error e then still_active expired slot es else Inl e)"

definition profile_active :: "int \<Rightarrow> int \<Rightarrow> pyval \<Rightarrow> py_error + bool" where
  "profile_active expired slot p =
     bindE (bindE (py_get p ''dynamicSubscriptions'' (PList [])) py_iter) (still_active expired slot)"

text \<open>One request; it is sent, and its answer may be an error. Round \<open>k\<close> sends two.\<close>

definition brandmeister_action :: "watch \<Rightarrow> nat \<Rightarrow> string \<Rightarrow> unit site_act" where
  "brandmeister_action w n action =
     thenA (upd (\<lambda>s. s\<lparr>commands := commands s @ [(''action'', action)]\<rparr>))
       (case action_fails w n of Some e \<Rightarrow> raiseA e | None \<Rightarrow> ret ())"

definition drop_dynamic :: "watch \<Rightarrow> nat \<Rightarrow> unit site_act" where
  "drop_dynamic w k = thenA (brandmeister_action w (2 * k) ''dropCallRoute'')
     (brandmeister_action w (2 * k + 1) ''dropDynamicGroups'')"

text \<open>\<^verbatim>\<open>wait_for_dynamic_clear\<close>; \<open>loop_time w k\<close> is the clock at the head of round \<open>k\<close>. \<open>None\<close> is a loop that does not end.\<close>

partial_function (option) clear_rounds ::
  "watch \<Rightarrow> real \<Rightarrow> int \<Rightarrow> int \<Rightarrow> nat \<Rightarrow> site \<Rightarrow> ((py_error + bool) \<times> site) option" where
  "clear_rounds w deadline expired slot k s =
     (if \<not> loop_time w k < deadline then Some (Inr False, s)
      else case bindE (dynamic_profile w k) (profile_active expired slot) of
          Inl e \<Rightarrow> Some (Inl e, s)
        | Inr active \<Rightarrow>
            if \<not> active then Some (Inr True, s)
            else case drop_dynamic w (Suc k) s of
                (Inl e, s') \<Rightarrow> Some (Inl e, s')
              | (Inr u, s') \<Rightarrow> clear_rounds w deadline expired slot (Suc k) s')"

definition wait_for_dynamic_clear :: "watch \<Rightarrow> int \<Rightarrow> int \<Rightarrow> int \<Rightarrow> site \<Rightarrow> ((py_error + bool) \<times> site) option" where
  "wait_for_dynamic_clear w slot expired_tg timeout_seconds =
     clear_rounds w (loop_time w 0 + of_int timeout_seconds) expired_tg slot 0"

definition expired_talkgroup :: "site \<Rightarrow> pypath \<Rightarrow> int" where
  "expired_talkgroup s path = (case site_files s path of
     None \<Rightarrow> 0 | Some t \<Rightarrow> (case py_int_str (strip t) of Inl e \<Rightarrow> 0 | Inr tg \<Rightarrow> tg))"

text \<open>What comes before the waiting; the result is the slot.\<close>

definition expiry_prepare :: "watch \<Rightarrow> expiry_args \<Rightarrow> int site_act" where
  "expiry_prepare w a =
     thenA (upd (\<lambda>s. s\<lparr>site_files := (site_files s)(trigger a := None)\<rparr>))
     (bindA (required_api_key (expiry_key_file a)) (\<lambda>key.
      bindA (read_text (expiry_config a)) (\<lambda>t.
      bindA (liftE (read_brandmeister_device t)) (\<lambda>(device_id, configured_slot).
      thenA (drop_dynamic w 0) (ret (case slot_override a of None \<Rightarrow> configured_slot | Some x \<Rightarrow> x))))))"

text \<open>\<^verbatim>\<open>main\<close>; \<open>None\<close> when the waiting does not end.\<close>

definition expiry_main :: "watch \<Rightarrow> expiry_args \<Rightarrow> site \<Rightarrow> ((py_error + unit) \<times> site) option" where
  "expiry_main w a s =
     (let expired_tg = expired_talkgroup s (trigger a) in
      case expiry_prepare w a s of
        (Inl e, t) \<Rightarrow> Some (Inl e, t)
      | (Inr slot, t) \<Rightarrow>
          if expired_tg = 0 then Some (Inr (), t)
          else map_option (\<lambda>(r, u). (bindE r (\<lambda>_. Inr ()), u))
                 (wait_for_dynamic_clear w slot expired_tg (wait_ready_seconds a) t))"

section \<open>\<^verbatim>\<open>ensure_static_tg.py\<close>\<close>

record ensure_args =
  ensure_config :: pypath
  state_file :: pypath
  topic :: string
  local_slot :: int
  ensure_api_slot :: "int option"
  ensure_key_file :: pypath
  ensure_stamp :: pypath
  ensure_min_interval :: real

definition has_dynamic_state :: "string option \<Rightarrow> bool" where
  "has_dynamic_state content = (case content of
     None \<Rightarrow> False
   | Some t \<Rightarrow> list_ex (\<lambda>line. strip line \<noteq> [] \<and> \<not> prefix ''#'' (strip line)) (splitlines t))"

text \<open>The value of \<^verbatim>\<open>^  transport:\s*"([^"]+)"\s*$\<close> at the start of a line.\<close>

definition transport_at :: "string \<Rightarrow> string option" where
  "transport_at s =
     (let rest = dropWhile is_space (drop 12 s);
          v = takeWhile (\<lambda>c. c \<noteq> CHR 0x22) (tl rest); tail = drop (Suc (length v)) (tl rest)
      in if prefix ''  transport:'' s \<and> prefix [CHR 0x22] rest \<and> v \<noteq> [] \<and> length v < length (tl rest) \<and>
           (dropWhile is_space tail = [] \<or> LF \<in> set (takeWhile is_space tail))
         then Some v else None)"

primrec first_line_start :: "(string \<Rightarrow> 'a option) \<Rightarrow> bool \<Rightarrow> string \<Rightarrow> 'a option" where
  "first_line_start f bol [] = (if bol then f [] else None)"
| "first_line_start f bol (c # cs) =
     (case (if bol then f (c # cs) else None) of Some x \<Rightarrow> Some x | None \<Rightarrow> first_line_start f (c = LF) cs)"

definition parse_transport :: "string \<Rightarrow> string" where
  "parse_transport txt = (case first_line_start transport_at True txt of
     None \<Rightarrow> ''brandmeister'' | Some v \<Rightarrow> strip v)"

primrec subscription_on_slot :: "int \<Rightarrow> pyval list \<Rightarrow> bool" where
  "subscription_on_slot slot [] = False"
| "subscription_on_slot slot (entry # es) =
     (if is_dict entry \<and> bindE (py_get entry ''slot'' (PInt (- 1))) py_int = Inr slot then True
      else subscription_on_slot slot es)"

definition has_subscription_on_slot :: "pyval \<Rightarrow> int \<Rightarrow> bool" where
  "has_subscription_on_slot subscriptions slot =
     (case subscriptions of PList entries \<Rightarrow> subscription_on_slot slot entries | _ \<Rightarrow> False)"

definition publish_talkgroup :: "watch \<Rightarrow> ensure_args \<Rightarrow> string \<Rightarrow> int \<Rightarrow> unit site_act" where
  "publish_talkgroup w a transport tg =
     (if transport = ''mmdvm-gateway''
      then systemctl (host_side w) (''mosquitto_pub '' @ topic a) (''DynTG '' @ show_int (local_slot a) @ '' '' @ show_int tg)
      else ret ())"

text \<open>The result is the talkgroup that was ensured, or \<open>None\<close> when there was nothing to do.\<close>

definition ensure_main :: "watch \<Rightarrow> ensure_args \<Rightarrow> int option site_act" where
  "ensure_main w a = readA (\<lambda>s.
     if has_dynamic_state (site_files s (state_file a)) then ret None
     else bindA (read_text (ensure_config a)) (\<lambda>t.
          bindA (liftE (read_static_talkgroups t)) (\<lambda>static_tgs.
          if static_tgs = [] \<or> throttle_active (host_side w) s (ensure_stamp a) (ensure_min_interval a) then ret None
          else thenA (touch_stamp (host_side w) (ensure_stamp a))
            (bindA (liftE (read_brandmeister_device t)) (\<lambda>(device_id, configured_slot).
             let slot = (case ensure_api_slot a of None \<Rightarrow> configured_slot | Some x \<Rightarrow> x) in
             bindA (required_api_key (ensure_key_file a)) (\<lambda>key.
             bindA (liftE (bindE (profile (host_side w) device_id (Some key)) (\<lambda>p. py_get p ''dynamicSubscriptions'' PNone)))
               (\<lambda>subscriptions.
             if has_subscription_on_slot subscriptions slot then ret None
             else thenA (publish_talkgroup w a (parse_transport t) (hd static_tgs)) (ret (Some (hd static_tgs))))))))))"

section \<open>\<^verbatim>\<open>quantar_static_recover.py\<close>\<close>

text \<open>A script run by \<^verbatim>\<open>subprocess.run(..., check=True)\<close>: any exception of the script ends it with a non-zero code.\<close>

definition checked :: "(py_error + 'a) \<times> site \<Rightarrow> (py_error + unit) \<times> site" where
  "checked r = (case r of (Inr x, s) \<Rightarrow> (Inr (), s) | (Inl e, s) \<Rightarrow> (Inl (RuntimeError ''CalledProcessError''), s))"

definition runtime_file :: "string \<Rightarrow> pypath" where
  "runtime_file name = (True, [''home'', ''quantar'', ''quantar-runtime'', name])"

definition static_expiry_args :: expiry_args where
  "static_expiry_args = \<lparr>trigger = runtime_file ''dynamic_expired.trigger'', expiry_config = runtime_file ''quantarbridge.yml'',
     expiry_key_file = runtime_file ''bm_api.key'', slot_override = None, wait_ready_seconds = 20\<rparr>"

definition static_ensure_args :: ensure_args where
  "static_ensure_args = \<lparr>ensure_config = runtime_file ''quantarbridge.yml'', state_file = runtime_file ''dynamic_routes.state'',
     topic = ''dmr-gateway/dynamic'', local_slot = 2, ensure_api_slot = None, ensure_key_file = runtime_file ''bm_api.key'',
     ensure_stamp = runtime_file ''ensure_static_tg.stamp'', ensure_min_interval = 300\<rparr>"

definition static_recover_main :: "watch \<Rightarrow> site \<Rightarrow> ((py_error + unit) \<times> site) option" where
  "static_recover_main w s =
     (case voice_owned (runtime_file ''quantarbridge.yml'') s of
        (Inl e, s) \<Rightarrow> Some (Inl e, s)
      | (Inr True, s) \<Rightarrow> Some (Inr (), s)
      | (Inr False, s) \<Rightarrow>
          map_option (\<lambda>r. case checked r of
              (Inl e, s) \<Rightarrow> (Inl e, s)
            | (Inr _, s) \<Rightarrow> thenA (systemctl (host_side w) ''restart'' BRIDGE)
                (\<lambda>s. checked (ensure_main w static_ensure_args s)) s)
            (expiry_main w static_expiry_args s))"

section \<open>Jobs\<close>

text \<open>A run of any of the scripts; \<open>None\<close> is a run that does not end.\<close>

datatype job =
    Sync sync_args | BmToP25 bm_args | DmrToP25 dmr_args | DvmHost host_args | StaticGuard guard_args
  | EnsureStatic ensure_args | DynamicExpiry expiry_args | StaticRecover

fun run_job :: "watch \<Rightarrow> job \<Rightarrow> site \<Rightarrow> site option" where
  "run_job w (Sync a) s = Some (snd (sync_main (host_side w) a s))"
| "run_job w (BmToP25 a) s = Some (snd (bm_to_p25_main w a s))"
| "run_job w (DmrToP25 a) s = Some (snd (dmr_to_p25_main w a s))"
| "run_job w (DvmHost a) s = Some (snd (dvmhost_main w a s))"
| "run_job w (StaticGuard a) s = Some (snd (guard_main w a s))"
| "run_job w (EnsureStatic a) s = Some (snd (ensure_main w a s))"
| "run_job w (DynamicExpiry a) s = map_option snd (expiry_main w a s)"
| "run_job w StaticRecover s = map_option snd (static_recover_main w s)"

fun_cases run_jobE: "run_job w j s = Some t"

section \<open>Which commands a script gives\<close>

definition gave :: "(string \<times> string \<Rightarrow> bool) \<Rightarrow> (string \<times> string) list \<Rightarrow> site \<Rightarrow> bool" where
  "gave P before s \<longleftrightarrow> (\<exists>new. commands s = before @ new \<and> list_all P new)"

lemma gave_start [simp]: "gave P (commands s) s"
  by (simp add: gave_def)

lemma gave_upd [simp]:
  "gave P c (s\<lparr>site_files := f\<rparr>) = gave P c s" "gave P c (s\<lparr>stamps := f'\<rparr>) = gave P c s"
  by (simp_all add: gave_def)

lemma gave_add: "P x \<Longrightarrow> gave P c s \<Longrightarrow> gave P c (s\<lparr>commands := commands s @ [x]\<rparr>)"
  by (force simp: gave_def)

declare keeps_case_prod [act_rules]

lemma systemctl_gave: "P (verb, x) \<Longrightarrow> keeps (gave P c) (systemctl w verb x)"
  unfolding systemctl_def by (intro act_rules gave_add)

lemma action_gave: "P (''action'', action) \<Longrightarrow> keeps (gave P c) (brandmeister_action w n action)"
  unfolding brandmeister_action_def by (intro act_rules gave_add)

lemmas maintenance_defs = read_text_def write_text_if_changed_def touch_stamp_def load_api_key_def
  required_api_key_def voice_owned_def

definition not_host_restart :: "string \<times> string \<Rightarrow> bool" where
  "not_host_restart c \<longleftrightarrow> c \<noteq> (''restart'', HOST) \<and> c \<noteq> (''restart'', ''dvmhost'')"

lemma requested_in: "set (requested_services services) \<subseteq> set services \<union> set PAIRED"
  by (auto simp: requested_services_def Let_def)

lemma sync_gave:
  assumes "''dvmhost'' \<notin> set (restart a)"
  shows "keeps (gave not_host_restart c) (sync_main w a)"
proof -
  have p: "''dvmhost'' \<notin> set PAIRED" by (simp add: PAIRED_def)
  have "not_host_restart (''restart'', x)" if "x \<in> set (requested_services (restart a))" "x \<notin> set stateful_services" for x
    using that assms p requested_in [of "restart a"] by (auto simp: not_host_restart_def stateful_services_def)
  then have "keeps (gave not_host_restart c) (restart_services w (restart a))"
    unfolding restart_services_def by (intro keeps_for_in act_rules systemctl_gave)
  then show ?thesis
    unfolding sync_main_def sync_config_def sync_restart_def update_quantarbridge_config_def update_talkgroup_rules_def
      maintenance_defs
    by (intro act_rules; simp)
qed

lemma bm_gave: "keeps (gave not_host_restart c) (bm_to_p25_main w a)"
  unfolding bm_to_p25_main_def maintenance_defs
  by (intro act_rules systemctl_gave; simp add: not_host_restart_def)

lemma dmr_gave: "bridge_service a \<notin> {HOST, ''dvmhost''} \<Longrightarrow> keeps (gave not_host_restart c) (dmr_to_p25_main w a)"
  unfolding dmr_to_p25_main_def start_host_if_inactive_def maintenance_defs
  by (intro act_rules systemctl_gave; simp add: not_host_restart_def)

lemma guard_gave: "keeps (gave not_host_restart c) (guard_main w a)"
  unfolding guard_main_def maintenance_defs by (intro act_rules; simp)

lemma ensure_gave: "keeps (gave not_host_restart c) (ensure_main w a)"
  unfolding ensure_main_def publish_talkgroup_def maintenance_defs Let_def
  by (intro act_rules systemctl_gave; simp add: not_host_restart_def)

lemma drop_dynamic_gave: "keeps (gave not_host_restart c) (drop_dynamic w k)"
  unfolding drop_dynamic_def by (intro act_rules action_gave; simp add: not_host_restart_def)

lemma clear_rounds_gave:
  assumes "clear_rounds w deadline expired slot k s = Some (r, t)" "gave not_host_restart c s"
  shows "gave not_host_restart c t"
proof -
  have "gave not_host_restart c s \<longrightarrow> gave not_host_restart c (snd y)"
    if "clear_rounds w deadline expired slot k s = Some y" for k s y
  proof (rule clear_rounds.raw_induct [where P = "\<lambda>_ _ _ _ _ s y. gave not_host_restart c s \<longrightarrow> gave not_host_restart c (snd y)", OF _ that])
    fix rounds w deadline expired slot k s y
    assume again: "\<And>w deadline expired slot k s y. rounds w deadline expired slot k s = Some y \<Longrightarrow>
        gave not_host_restart c s \<longrightarrow> gave not_host_restart c (snd y)"
      and y: "(if \<not> loop_time w k < deadline then Some (Inr False, s)
        else case bindE (dynamic_profile w k) (profile_active expired slot) of
          Inl e \<Rightarrow> Some (Inl e, s)
        | Inr active \<Rightarrow> if \<not> active then Some (Inr True, s)
            else case drop_dynamic w (Suc k) s of
                (Inl e, s') \<Rightarrow> Some (Inl e, s')
              | (Inr u, s') \<Rightarrow> rounds w deadline expired slot (Suc k) s') = Some y"
    obtain e u where d: "drop_dynamic w (Suc k) s = (e, u)" by fastforce
    then have "gave not_host_restart c s \<Longrightarrow> gave not_host_restart c u"
      using keepsD [OF drop_dynamic_gave [of c w "Suc k"], of s] by simp
    then show "gave not_host_restart c s \<longrightarrow> gave not_host_restart c (snd y)"
      using y again by (auto simp: d split: if_splits sum.splits)
  qed
  with assms show ?thesis by fastforce
qed

lemma expiry_gave:
  assumes "expiry_main w a s = Some (r, t)" "gave not_host_restart c s"
  shows "gave not_host_restart c t"
proof -
  have "keeps (gave not_host_restart c) (expiry_prepare w a)"
    unfolding expiry_prepare_def maintenance_defs by (intro act_rules drop_dynamic_gave; simp)
  from keepsD [OF this assms(2)] have p: "gave not_host_restart c (snd (expiry_prepare w a s))" .
  obtain q u where q: "expiry_prepare w a s = (q, u)" by fastforce
  show ?thesis
  proof (cases q)
    case (Inr slot)
    show ?thesis
    proof (cases "expired_talkgroup s (trigger a) = 0")
      case False
      then obtain r' where "wait_for_dynamic_clear w slot (expired_talkgroup s (trigger a)) (wait_ready_seconds a) u = Some (r', t)"
        using assms(1) q Inr by (auto simp: expiry_main_def)
      then show ?thesis unfolding wait_for_dynamic_clear_def using p q by (auto intro: clear_rounds_gave)
    qed (use assms(1) p q Inr in \<open>auto simp: expiry_main_def\<close>)
  qed (use assms(1) p q in \<open>auto simp: expiry_main_def\<close>)
qed

lemma checked_snd [simp]: "snd (checked r) = snd r"
  by (simp add: checked_def split: prod.split sum.split)

lemma static_recover_gave:
  assumes "static_recover_main w s = Some (r, t)" "gave not_host_restart c s"
  shows "gave not_host_restart c t"
proof -
  have v: "snd (voice_owned path s) = s" for path s by (simp add: voice_owned_def split: option.split)
  have e: "keeps (gave not_host_restart c) (\<lambda>s. checked (ensure_main w a s))" for a
    using keepsD [OF ensure_gave] by (auto simp: keeps_def)
  have k: "keeps (gave not_host_restart c) (thenA (systemctl (host_side w) ''restart'' BRIDGE)
      (\<lambda>s. checked (ensure_main w static_ensure_args s)))"
    by (intro act_rules systemctl_gave e) (simp add: not_host_restart_def)
  obtain q s' where vo: "voice_owned (runtime_file ''quantarbridge.yml'') s = (q, s')" by fastforce
  then have s': "s' = s" using v [of "runtime_file ''quantarbridge.yml''" s] by simp
  show ?thesis
  proof (cases "q = Inr False")
    case True
    then obtain x where x: "expiry_main w static_expiry_args s = Some x"
      "(case checked x of (Inl e, s) \<Rightarrow> (Inl e, s) | (Inr _, s) \<Rightarrow>
         thenA (systemctl (host_side w) ''restart'' BRIDGE) (\<lambda>s. checked (ensure_main w static_ensure_args s)) s) = (r, t)"
      using assms(1) vo s' by (auto simp: static_recover_main_def)
    obtain y u where y: "checked x = (y, u)" by fastforce
    have "u = snd x" using y checked_snd [of x] by simp
    then have "gave not_host_restart c u" using expiry_gave [OF _ assms(2)] x(1) by (metis prod.collapse)
    then show ?thesis using x(2) y keepsD [OF k] by (cases y) (fastforce simp del: act_simps)+
  next
    case False
    then show ?thesis using assms vo s'
      by (cases q) (auto simp: static_recover_main_def split: bool.splits)
  qed
qed

text \<open>The scripts that restart the units they are told to may be told to restart the host: the bridge recovery, and the
  synchronisation, whose list of units not to restart knows the host by one of its two names only.\<close>

definition told_to_restart_host :: "job \<Rightarrow> bool" where
  "told_to_restart_host j \<longleftrightarrow> (case j of
     DmrToP25 a \<Rightarrow> bridge_service a \<in> {HOST, ''dvmhost''} | Sync a \<Rightarrow> ''dvmhost'' \<in> set (restart a) | _ \<Rightarrow> False)"

lemma job_gave:
  assumes "run_job w j s = Some t" "\<And>a. j \<noteq> DvmHost a" "\<not> told_to_restart_host j"
  shows "gave not_host_restart (commands s) t"
proof -
  have k: "gave not_host_restart (commands s) (snd (m s))"
    if "keeps (gave not_host_restart (commands s)) m" for m :: "'x site_act"
    using keepsD [OF that gave_start] .
  show ?thesis
    using assms by (cases j)
      (auto simp: told_to_restart_host_def intro: k [OF sync_gave] k [OF bm_gave] k [OF dmr_gave] k [OF guard_gave]
        k [OF ensure_gave] expiry_gave [OF _ gave_start] static_recover_gave [OF _ gave_start])
qed

text \<open>C38: the radio host keeps its sessions: whatever maintenance script runs, with whatever answers and arguments that
  do not name the host as a unit to restart (\<open>told_to_restart_host\<close>), it adds to the commands given before, and
  a restart of the P25 host, under its unit name with or without the suffix, is among them only when the host
  watchdog itself ran, on that unit, and found it old enough and stuck.\<close>

theorem host_restarted_on_evidence_only:
  assumes "run_job w j s = Some t" "\<not> told_to_restart_host j"
  shows "\<exists>new. commands t = commands s @ new \<and>
    (\<forall>u. u \<in> {HOST, ''dvmhost''} \<and> (''restart'', u) \<in> set new \<longrightarrow>
      (\<exists>a age logs. j = DvmHost a \<and> service a = u \<and> service_age_seconds w u = Inr age \<and>
        journal w [u] (host_window a) = Inr logs \<and> host_cooldown_seconds a \<le> age \<and>
        min_watchdog_expiries a \<le> count_matches logs ''P25 Net network watchdog has expired'' \<and>
        min_net_calls a \<le> count_matches logs ''P25 Net network voice transmission''))"
proof (cases "\<exists>a. j = DvmHost a")
  case False
  with job_gave [OF assms(1) _ assms(2)] show ?thesis
    by (fastforce simp: gave_def not_host_restart_def list_all_iff)
next
  case True
  then obtain a where a: "j = DvmHost a" by blast
  then have t: "t = snd (dvmhost_main w a s)" using assms(1) by simp
  show ?thesis
  proof (cases "host_stuck w a = Inr True \<and> systemctl_fails (host_side w) ''restart'' (service a) = None")
    case True
    then have "commands t = commands s @ [(''restart'', service a)]"
      by (simp add: t dvmhost_main_def systemctl_def)
    moreover obtain age logs where "service_age_seconds w (service a) = Inr age" "journal w [service a] (host_window a) = Inr logs"
      "host_cooldown_seconds a \<le> age"
      "min_watchdog_expiries a \<le> count_matches logs ''P25 Net network watchdog has expired''"
      "min_net_calls a \<le> count_matches logs ''P25 Net network voice transmission''"
      using True by (auto simp: host_stuck_def bindE_eq_Inr not_less)
    ultimately show ?thesis using a by auto
  next
    case False
    then have "commands t = commands s"
      by (auto simp: t dvmhost_main_def systemctl_def bindA_def split: sum.splits option.splits)
    then show ?thesis by simp
  qed
qed

section \<open>Waiting ends\<close>

lemma drop_dynamic_length: "drop_dynamic w k s = (r, t) \<Longrightarrow> length (commands t) \<le> length (commands s) + 2"
  by (auto simp: drop_dynamic_def brandmeister_action_def thenA_def bindA_def split: option.splits prod.splits sum.splits)

lemma clear_rounds_end:
  assumes clock: "\<And>k. loop_time w k + 1 / 2 \<le> loop_time w (Suc k)"
  shows "\<exists>r t. clear_rounds w (loop_time w 0 + of_int timeout) tg slot k s = Some (r, t) \<and>
    length (commands t) \<le> length (commands s) + 2 * (nat (2 * timeout) - k) \<and>
    (r = Inr True \<longrightarrow> (\<exists>n. bindE (dynamic_profile w n) (profile_active tg slot) = Inr False))"
proof -
  have late: "loop_time w 0 + real k / 2 \<le> loop_time w k" for k
  proof (induction k)
    case (Suc k)
    then show ?case using clock [of k] by (simp add: field_simps)
  qed simp
  have deadline: "k < nat (2 * timeout)" if "loop_time w k < loop_time w 0 + of_int timeout" for k
  proof -
    have "real k / 2 < of_int timeout" using late [of k] that by linarith
    then have "real k < of_int (2 * timeout)" by simp
    then show ?thesis by linarith
  qed
  show ?thesis
  proof (induction "nat (2 * timeout) - k" arbitrary: k s rule: less_induct)
    case less
    let ?p = "bindE (dynamic_profile w k) (profile_active tg slot)"
    show ?case
    proof (cases "loop_time w k < loop_time w 0 + of_int timeout \<and> ?p = Inr True")
      case False
      then show ?thesis by (cases ?p) (auto simp: clear_rounds.simps [of w _ tg slot k s])
    next
      case True
      then have k: "k < nat (2 * timeout)" using deadline by blast
      obtain e u where d: "drop_dynamic w (Suc k) s = (e, u)" by fastforce
      show ?thesis
      proof (cases e)
        case (Inl x)
        then show ?thesis using True d k drop_dynamic_length [OF d]
          by (simp add: clear_rounds.simps [of w _ tg slot k s])
      next
        case (Inr x)
        obtain r t where rt: "clear_rounds w (loop_time w 0 + of_int timeout) tg slot (Suc k) u = Some (r, t)"
          "length (commands t) \<le> length (commands u) + 2 * (nat (2 * timeout) - Suc k)"
          "r = Inr True \<longrightarrow> (\<exists>n. bindE (dynamic_profile w n) (profile_active tg slot) = Inr False)"
          using less [of "Suc k" u] diff_less_mono2 [OF lessI k] by blast
        then show ?thesis using True d Inr k drop_dynamic_length [OF d]
          by (simp add: clear_rounds.simps [of w _ tg slot k s])
      qed
    qed
  qed
qed

text \<open>Waiting for a dynamic talkgroup to clear ends: with a clock that advances by the half second the loop
  sleeps, \<^verbatim>\<open>wait_for_dynamic_clear\<close> returns or raises after at most two rounds per second of its time-out, so
  that it sends at most four requests per second of it, and it reports success only after the API has
  shown a profile without the talkgroup.\<close>

theorem clear_wait_ends:
  assumes "\<And>k. loop_time w k + 1 / 2 \<le> loop_time w (Suc k)"
  shows "\<exists>r t. wait_for_dynamic_clear w slot tg timeout s = Some (r, t) \<and>
    length (commands t) \<le> length (commands s) + 4 * nat timeout \<and>
    (r = Inr True \<longrightarrow> (\<exists>n. bindE (dynamic_profile w n) (profile_active tg slot) = Inr False))"
proof -
  have "2 * (nat (2 * timeout) - 0) = 4 * nat timeout" by simp
  then show ?thesis using clear_rounds_end [OF assms, of timeout tg slot 0 s]
    unfolding wait_for_dynamic_clear_def by metis
qed

section \<open>Examples\<close>

definition stuck_watch :: watch where
  "stuck_watch = \<lparr>host_side = \<lparr>profile = (\<lambda>_ _. Inr PNone), write_fails = (\<lambda>_. None),
       systemctl_fails = (\<lambda>_ _. None), wall_clock = 1000\<rparr>,
     main_pid = (\<lambda>_. Inr ''812''), elapsed = (\<lambda>_. Inr '' 500 ''),
     journal = (\<lambda>_ _. Inr (concat (replicate 3 (''P25 Net network voice transmission'' @ [LF] @
       ''P25 Net network watchdog has expired'' @ [LF])))),
     dynamic_profile = (\<lambda>k. Inr (PDict [(''dynamicSubscriptions'',
       PList (if k < 2 then [PDict [(''talkgroup'', PInt 91), (''slot'', PInt 2)]] else []))])),
     action_fails = (\<lambda>_. None), loop_time = (\<lambda>k. real k / 2)\<rparr>"

definition host_example :: host_args where
  "host_example = \<lparr>host_window = ''10 minutes ago'', service = HOST, min_watchdog_expiries = 3, min_net_calls = 3,
     host_cooldown_seconds = 120\<rparr>"

definition quiet_site :: site where
  "quiet_site = \<lparr>site_files = Map.empty, stamps = Map.empty, commands = []\<rparr>"

lemma stuck_example: "host_stuck stuck_watch host_example = Inr True"
  by code_simp

theorem host_restarted_on_evidence_only_witness:
  "\<exists>t. run_job stuck_watch (DvmHost host_example) quiet_site = Some t \<and> commands t = [(''restart'', HOST)] \<and>
     (\<exists>age. service_age_seconds stuck_watch HOST = Inr age \<and> 120 \<le> age)"
proof -
  have t: "run_job stuck_watch (DvmHost host_example) quiet_site = Some (quiet_site\<lparr>commands := [(''restart'', HOST)]\<rparr>)"
    by (simp add: dvmhost_main_def stuck_example systemctl_def)
      (simp add: stuck_watch_def quiet_site_def host_example_def)
  have n: "\<not> told_to_restart_host (DvmHost host_example)" by (simp add: told_to_restart_host_def)
  from host_restarted_on_evidence_only [OF t n] obtain age where
    "service_age_seconds stuck_watch HOST = Inr age" "host_cooldown_seconds host_example \<le> age"
    by (auto simp: quiet_site_def)
  then show ?thesis using t by (auto simp: host_example_def)
qed

text \<open>Told to restart the host by its short name, the synchronisation does.\<close>

lemma short_name_restarts_host:
  "\<exists>t. restart_services (host_side stuck_watch) [''dvmhost'', ''dvmhost.service''] quiet_site = (Inr (), t) \<and>
     commands t = [(''restart'', ''dvmhost'')]"
  by (simp add: restart_services_def requested_services_def stateful_services_def systemctl_def stuck_watch_def quiet_site_def
      PAIRED_def)

theorem clear_wait_ends_witness:
  "\<exists>r t. wait_for_dynamic_clear stuck_watch 2 91 20 quiet_site = Some (r, t) \<and> length (commands t) \<le> 80"
  using clear_wait_ends [of stuck_watch 2 91 20 quiet_site] by (fastforce simp: stuck_watch_def quiet_site_def)

end
