(* ===== verification/Py_Base64.thy ===== *)
theory Py_Base64
  imports Sds_Pdu
begin

text \<open>
  \<^verbatim>\<open>base64.b64encode\<close> and \<^verbatim>\<open>base64.b64decode(..., validate=True)\<close> of Python 3.11, which the dashboard uses for
  its password file: groups of six bits over the usual alphabet, padded with equal signs.
\<close>

definition B64 :: string where
  "B64 = ''ABCDEFGHIJKLMNOPQRSTUVWXYZabcdefghijklmnopqrstuvwxyz0123456789+/''"

definition sextet :: "char \<Rightarrow> int" where
  "sextet c = int (length (takeWhile (\<lambda>x. x \<noteq> c) B64))"

function sextets :: "bool list \<Rightarrow> bool list list" where
  "sextets bs = (if bs = [] then [] else take 6 (bs @ replicate 5 False) # sextets (drop 6 bs))"
  by auto
termination by (relation "measure length") auto

declare sextets.simps [simp del]

lemma sextets_Nil [simp]: "sextets [] = []"
  by (simp add: sextets.simps)

definition bytes_bits :: "bytes \<Rightarrow> bool list" where
  "bytes_bits data = concat (map (\<lambda>b. msb 8 (uint b)) data)"

definition b64encode :: "bytes \<Rightarrow> string" where
  "b64encode data = (let body = map (\<lambda>g. B64 ! nat (bits_val g)) (sextets (bytes_bits data))
     in body @ replicate ((4 - length body mod 4) mod 4) (CHR ''=''))"

definition b64decode :: "string \<Rightarrow> py_error + bytes" where
  "b64decode s = (let body = takeWhile (\<lambda>c. c \<noteq> CHR ''='') s; pad = drop (length body) s;
       bits = concat (map (\<lambda>c. msb 6 (sextet c)) body) in
     if \<not> list_all (\<lambda>c. c \<in> set B64) body \<or> \<not> list_all (\<lambda>c. c = CHR ''='') pad \<or>
        length s mod 4 \<noteq> 0 \<or> 2 < length pad
     then Inl (ValueError ''binascii.Error'')
     else Inr (octets (take (8 * (length bits div 8)) bits)))"

section \<open>Round trip\<close>

lemma sextet_B64: "0 \<le> v \<Longrightarrow> v < 64 \<Longrightarrow> sextet (B64 ! nat v) = v"
proof -
  assume v: "0 \<le> v" "v < 64"
  have "list_all (\<lambda>n. sextet (B64 ! n) = int n) [0..<64]" by code_simp
  then have "sextet (B64 ! nat v) = int (nat v)" using v by (simp add: list_all_iff)
  then show ?thesis using v by simp
qed

lemma B64_facts: "length B64 = 64" "CHR ''='' \<notin> set B64"
  by code_simp+

lemma bits_val_bounds: "0 \<le> bits_val bs \<and> bits_val bs < 2 ^ length bs"
proof (induction bs)
  case (Cons b bs)
  have "bits_val (b # bs) = of_bool b * 2 ^ length bs + bits_val bs"
    using fold_bits [of bs "of_bool b"] by (simp add: bits_val_def)
  then show ?case using Cons by auto
qed (simp add: bits_val_def)

lemma div_shift: "0 < k \<Longrightarrow> x = y + c * k \<Longrightarrow> x div k = c + y div (k :: int)"
  by simp

lemma msb_bits_val: "msb (length bs) (bits_val bs) = bs"
proof (induction bs)
  case (Cons b bs)
  let ?n = "length bs"
  have v: "bits_val (b # bs) = of_bool b * 2 ^ ?n + bits_val bs"
    using fold_bits [of bs "of_bool b"] by (simp add: bits_val_def)
  have bound: "0 \<le> bits_val bs" "bits_val bs < 2 ^ ?n" using bits_val_bounds by auto
  have "msb ?n (bits_val (b # bs)) = msb ?n (bits_val bs)"
  proof -
    have "odd (bits_val (b # bs) div 2 ^ k) = odd (bits_val bs div 2 ^ k)" if k: "k < ?n" for k
    proof -
      obtain m where m: "?n = Suc (k + m)" using less_imp_Suc_add [OF k] by blast
      have p: "(2 :: int) ^ ?n = 2 * 2 ^ m * 2 ^ k" unfolding m by (simp add: power_add)
      have "bits_val (b # bs) = bits_val bs + (of_bool b * (2 * 2 ^ m)) * 2 ^ k"
        unfolding v p by (simp only: ac_simps)
      from div_shift [OF _ this] have "bits_val (b # bs) div 2 ^ k = of_bool b * (2 * 2 ^ m) + bits_val bs div 2 ^ k"
        by simp
      then show ?thesis by (cases b) simp_all
    qed
    then show ?thesis by (simp add: msb_def)
  qed
  moreover have "odd (bits_val (b # bs) div 2 ^ ?n) = b" using v bound by (cases b) auto
  ultimately show ?case using Cons by (simp add: msb_Suc)
qed (simp add: msb_def)

lemma length_sextet: "g \<in> set (sextets bs) \<Longrightarrow> length g = 6"
proof (induction bs rule: sextets.induct)
  case (1 bs)
  show ?case
  proof (cases "bs = []")
    case False
    then have "g = take 6 (bs @ replicate 5 False) \<or> g \<in> set (sextets (drop 6 bs))"
      using 1(2) by (simp add: sextets.simps [of bs])
    moreover have "1 \<le> length bs" using False by (cases bs) auto
    ultimately show ?thesis using 1(1) False by auto
  qed (use 1(2) in simp)
qed

lemma length_concat_sextets: "length (concat (sextets bs)) = 6 * length (sextets bs)"
proof -
  have "length (concat gs) = 6 * length gs" if "\<And>g. g \<in> set gs \<Longrightarrow> length g = 6" for gs :: "bool list list"
    using that by (induction gs) simp_all
  then show ?thesis using length_sextet by blast
qed

lemma concat_sextets: "\<exists>k \<le> 5. concat (sextets bs) = bs @ replicate k False"
proof (induction bs rule: sextets.induct)
  case (1 bs)
  show ?case
  proof (cases "6 \<le> length bs")
    case True
    then obtain k where k: "k \<le> 5" "concat (sextets (drop 6 bs)) = drop 6 bs @ replicate k False"
      using 1 by fastforce
    have "concat (sextets bs) = take 6 bs @ drop 6 bs @ replicate k False"
      using k True by (subst sextets.simps) auto
    then show ?thesis using k(1) by (metis append.assoc append_take_drop_id)
  next
    case False
    have one: "6 - length bs \<le> 5" if "bs \<noteq> []" using that length_greater_0_conv [of bs] by linarith
    then have "concat (sextets bs) = bs @ replicate (6 - length bs) False" if "bs \<noteq> []"
      using that False by (subst sextets.simps) (simp add: min_def)
    moreover have "concat (sextets bs) = bs @ replicate 0 False" if "bs = []" using that by simp
    ultimately show ?thesis by (cases "bs = []") (use one in blast)+
  qed
qed

lemma sextet_count:
  assumes "6 * l = 8 * n + k" "k \<le> (5 :: nat)"
  shows "l mod 4 \<noteq> 1"
proof
  assume "l mod 4 = 1"
  then obtain q where "l = 4 * q + 1" by (metis mod_div_decomp mult.commute)
  then have "k = 6 + 8 * (3 * q) - 8 * n" "8 * n \<le> 6 + 8 * (3 * q)" using assms(1) by simp_all
  then show False using assms(2) by (cases "n \<le> 3 * q") linarith+
qed

lemma b64decode_parts:
  assumes "\<And>c. c \<in> set body \<Longrightarrow> c \<in> set B64" "length (body @ replicate n (CHR ''='')) mod 4 = 0" "n \<le> 2"
  shows "b64decode (body @ replicate n (CHR ''='')) =
    (let bits = concat (map (\<lambda>c. msb 6 (sextet c)) body) in Inr (octets (take (8 * (length bits div 8)) bits)))"
proof -
  have "c \<noteq> CHR ''=''" if "c \<in> set body" for c using assms(1) [OF that] B64_facts(2) by metis
  moreover have "takeWhile (\<lambda>c. c \<noteq> CHR ''='') (replicate n (CHR ''='')) = []" by (cases n) simp_all
  ultimately have "takeWhile (\<lambda>c. c \<noteq> CHR ''='') (body @ replicate n (CHR ''='')) = body"
    using takeWhile_append2 [of body] by simp
  then show ?thesis using assms by (simp add: b64decode_def Let_def list_all_iff)
qed

theorem b64_round_trip: "b64decode (b64encode data) = Inr data"
proof -
  let ?gs = "sextets (bytes_bits data)" and ?body = "map (\<lambda>g. B64 ! nat (bits_val g)) (sextets (bytes_bits data))"
  let ?n = "(4 - length ?body mod 4) mod 4"
  have val: "0 \<le> bits_val g" "bits_val g < 64" if "g \<in> set ?gs" for g
    using bits_val_bounds [of g] length_sextet [OF that] by simp_all
  have in64: "c \<in> set B64" if c: "c \<in> set ?body" for c
  proof -
    obtain g where "g \<in> set ?gs" "c = B64 ! nat (bits_val g)"
      using c unfolding set_map by blast
    then show ?thesis using val [of g] B64_facts(1) by simp
  qed
  have bits: "concat (map (\<lambda>c. msb 6 (sextet c)) ?body) = concat ?gs"
  proof -
    have "msb 6 (sextet (B64 ! nat (bits_val g))) = g" if "g \<in> set ?gs" for g
      using val [OF that] sextet_B64 msb_bits_val [of g] length_sextet [OF that] by simp
    then show ?thesis by (simp cong: map_cong)
  qed
  obtain k where k: "k \<le> 5" "concat ?gs = bytes_bits data @ replicate k False" using concat_sextets by blast
  have n: "length (bytes_bits data) = 8 * length data" by (simp add: bytes_bits_def length_push_bytes)
  have "6 * length ?body = 8 * length data + k"
    using length_concat_sextets [of "bytes_bits data"] k(2) n by simp
  then have one: "length ?body mod 4 \<noteq> 1"
    by (rule sextet_count [OF _ k(1)])
  have pad: "(l + (4 - l mod 4) mod 4) mod 4 = 0" "l mod 4 \<noteq> 1 \<Longrightarrow> (4 - l mod 4) mod 4 \<le> 2" for l :: nat
  proof -
    have "r = 0 \<or> r = 1 \<or> r = 2 \<or> r = 3" if "r < 4" for r :: nat using that by linarith
    then have r: "l mod 4 = 0 \<or> l mod 4 = 1 \<or> l mod 4 = 2 \<or> l mod 4 = 3" by simp
    then have "(l mod 4 + (4 - l mod 4) mod 4) mod 4 = 0" by auto
    then show "(l + (4 - l mod 4) mod 4) mod 4 = 0" by (simp only: mod_add_left_eq)
    show "(4 - l mod 4) mod 4 \<le> 2" if "l mod 4 \<noteq> 1" using r that by auto
  qed
  have "b64decode (?body @ replicate ?n (CHR ''='')) =
      (let bits = concat ?gs in Inr (octets (take (8 * (length bits div 8)) bits)))"
    unfolding bits [symmetric] by (rule b64decode_parts [OF in64]) (use pad one in \<open>simp_all\<close>)
  moreover have "take (8 * (length (concat ?gs) div 8)) (concat ?gs) = bytes_bits data" using k n by simp
  moreover have "b64encode data = ?body @ replicate ?n (CHR ''='')" by (simp add: b64encode_def Let_def)
  ultimately show ?thesis using octets_bytes [of data] by (simp add: bytes_bits_def del: map_map)
qed

end
