(* ===== verification/Dash_Auth.thy ===== *)
theory Dash_Auth
  imports Routing_Config Brew_Transport Py_Base64
begin

text \<open>
  Who may do what in the dashboard (\<^verbatim>\<open>src/dashboard/app.py\<close>): the password file (\<^verbatim>\<open>AuthStore\<close>), the sessions
  (\<^verbatim>\<open>SessionStore\<close>) and the brake on failed log-ins (\<^verbatim>\<open>LoginLimiter\<close>). Every method holds the lock of its
  object, so it is one step on the object's state. \<^verbatim>\<open>time.time()\<close>, the random tokens and the random salt are
  arguments; PBKDF2 is the parameter \<open>kdf\<close> (password bytes, salt, iterations). The password file is what
  \<^verbatim>\<open>json.loads\<close> makes of it, \<open>None\<close> when there is no file.
\<close>

section \<open>Failed log-ins\<close>

record limiter =
  max_attempts :: int
  window_seconds :: int
  tries :: "string \<rightharpoonup> real list"

definition new_limiter :: limiter where
  "new_limiter = \<lparr>max_attempts = 5, window_seconds = 300, tries = Map.empty\<rparr>"

definition tries_of :: "limiter \<Rightarrow> string \<Rightarrow> real list" where
  "tries_of l address = (case tries l address of None \<Rightarrow> [] | Some q \<Rightarrow> q)"

definition recent_tries :: "real \<Rightarrow> string \<Rightarrow> limiter \<Rightarrow> real list" where
  "recent_tries now address l = dropWhile (\<lambda>t. of_int (window_seconds l) < now - t) (tries_of l address)"

text \<open>The seconds to wait, 0 when a log-in is admitted.\<close>

definition retry_after :: "real \<Rightarrow> string \<Rightarrow> (limiter, int) act" where
  "retry_after now address = readA (\<lambda>l. let q = recent_tries now address l in
     thenA (upd (\<lambda>l. l\<lparr>tries := (tries l)(address \<mapsto> q)\<rparr>))
       (if int (length q) < max_attempts l then ret 0
        else case q of [] \<Rightarrow> raiseA IndexError
          | t # _ \<Rightarrow> ret (max 1 (py_trunc (of_int (window_seconds l) - (now - t))))))"

definition login_failed :: "real \<Rightarrow> string \<Rightarrow> (limiter, unit) act" where
  "login_failed now address = upd (\<lambda>l. l\<lparr>tries := (tries l)(address \<mapsto> tries_of l address @ [now])\<rparr>)"

definition login_succeeded :: "string \<Rightarrow> (limiter, unit) act" where
  "login_succeeded address = upd (\<lambda>l. l\<lparr>tries := (tries l)(address := None)\<rparr>)"

section \<open>Sessions\<close>

record session =
  username :: string
  csrf_token :: string
  created_at :: real
  last_seen :: real

type_synonym session_store = "string \<rightharpoonup> session"

definition SESSION_MAX_AGE_SECONDS :: int where "SESSION_MAX_AGE_SECONDS = 8 * 60 * 60"
definition SESSION_IDLE_SECONDS :: int where "SESSION_IDLE_SECONDS = 60 * 60"

definition session_over :: "real \<Rightarrow> session \<Rightarrow> bool" where
  "session_over now x \<longleftrightarrow> of_int SESSION_MAX_AGE_SECONDS < now - created_at x \<or> of_int SESSION_IDLE_SECONDS < now - last_seen x"

definition cleanup :: "real \<Rightarrow> session_store \<Rightarrow> session_store" where
  "cleanup now m = (\<lambda>t. case m t of None \<Rightarrow> None | Some x \<Rightarrow> if session_over now x then None else Some x)"

definition create_session :: "real \<Rightarrow> string \<Rightarrow> string \<Rightarrow> string \<Rightarrow> (session_store, session) act" where
  "create_session now token csrf user =
     (let x = \<lparr>username = user, csrf_token = csrf, created_at = now, last_seen = now\<rparr> in
      thenA (upd (\<lambda>m. (cleanup now m)(token \<mapsto> x))) (ret x))"

definition get_session :: "real \<Rightarrow> string option \<Rightarrow> (session_store, session option) act" where
  "get_session now token = (case token of
     None \<Rightarrow> ret None
   | Some t \<Rightarrow> if t = [] then ret None
       else thenA (upd (cleanup now)) (readA (\<lambda>m. case m t of
           None \<Rightarrow> ret None
         | Some x \<Rightarrow> let x' = x\<lparr>last_seen := now\<rparr> in thenA (upd (\<lambda>m. m(t \<mapsto> x'))) (ret (Some x')))))"

definition revoke :: "string option \<Rightarrow> (session_store, unit) act" where
  "revoke token = (case token of None \<Rightarrow> ret () | Some t \<Rightarrow> if t = [] then ret () else upd (\<lambda>m. m(t := None)))"

definition revoke_user :: "string \<Rightarrow> string option \<Rightarrow> (session_store, unit) act" where
  "revoke_user user keep_token = upd (\<lambda>m t. case m t of
     None \<Rightarrow> None
   | Some x \<Rightarrow> if Some t \<noteq> keep_token \<and> username x = user then None else Some x)"

section \<open>Passwords\<close>

type_synonym kdf = "bytes \<Rightarrow> bytes \<Rightarrow> int \<Rightarrow> py_error + bytes"
type_synonym auth_file = "(py_error + pyval) option"

definition PBKDF2_ITERATIONS :: int where "PBKDF2_ITERATIONS = 600000"

definition to_utf8 :: "string \<Rightarrow> py_error + bytes" where
  "to_utf8 s = utf8_encode (map code s)"

definition derive :: "kdf \<Rightarrow> string \<Rightarrow> bytes \<Rightarrow> int \<Rightarrow> py_error + bytes" where
  "derive kdf password salt iterations = bindE (to_utf8 password) (\<lambda>p. kdf p salt iterations)"

definition password_record :: "kdf \<Rightarrow> bytes \<Rightarrow> string \<Rightarrow> string \<Rightarrow> py_error + pyval" where
  "password_record kdf salt stamp password =
     (if length password < 12 then Inl (ValueError ''Das Passwort muss mindestens 12 Zeichen lang sein.'')
      else bindE (derive kdf password salt PBKDF2_ITERATIONS) (\<lambda>digest.
        Inr (PDict [(''algorithm'', PStr ''pbkdf2-sha256''), (''iterations'', PInt PBKDF2_ITERATIONS),
          (''salt'', PStr (b64encode salt)), (''hash'', PStr (b64encode digest)), (''updatedAt'', PStr stamp)])))"

definition user_name_char :: "char \<Rightarrow> bool" where
  "user_name_char c \<longleftrightarrow> is_digit c \<or> 65 \<le> code c \<and> code c \<le> 90 \<or> 97 \<le> code c \<and> code c \<le> 122 \<or>
     c \<in> set ''_.-''"

definition write_auth :: "py_error option \<Rightarrow> pyval \<Rightarrow> (auth_file, unit) act" where
  "write_auth failure payload = (case failure of Some e \<Rightarrow> raiseA e | None \<Rightarrow> upd (\<lambda>_. Some (Inr payload)))"

definition initialize_auth ::
  "kdf \<Rightarrow> bytes \<Rightarrow> string \<Rightarrow> py_error option \<Rightarrow> string \<Rightarrow> string \<Rightarrow> bool \<Rightarrow> (auth_file, unit) act" where
  "initialize_auth kdf salt stamp failure user password force =
     (let user = strip user in
      if \<not> (3 \<le> length user \<and> length user \<le> 32 \<and> list_all user_name_char user)
      then raiseA (ValueError (''Ung'' @ [CHR 0xFC] @ ''ltiger Benutzername.''))
      else readA (\<lambda>f. if f \<noteq> None \<and> \<not> force then raiseA (OSError ''FileExistsError'')
        else bindA (liftE (password_record kdf salt stamp password)) (\<lambda>r.
          write_auth failure (PDict [(''version'', PInt 1), (''users'', PDict [(user, r)])]))))"

fun equals_one :: "pyval \<Rightarrow> bool" where
  "equals_one (PInt i) \<longleftrightarrow> i = 1"
| "equals_one (PBool b) \<longleftrightarrow> b"
| "equals_one (PFloat x) \<longleftrightarrow> x = 1"
| "equals_one _ \<longleftrightarrow> False"

definition read_auth :: "auth_file \<Rightarrow> py_error + pyval" where
  "read_auth f = (case f of
     None \<Rightarrow> Inl (RuntimeError ''Dashboard authentication is not initialized'')
   | Some r \<Rightarrow> bindE r (\<lambda>payload.
       bindE (py_get payload ''version'' PNone) (\<lambda>v.
       if \<not> equals_one v then Inl (RuntimeError ''Invalid dashboard auth file'')
       else bindE (py_get payload ''users'' PNone) (\<lambda>users.
         if is_dict users then Inr payload else Inl (RuntimeError ''Invalid dashboard auth file'')))))"

fun py_b64decode :: "pyval \<Rightarrow> py_error + bytes" where
  "py_b64decode (PStr s) = b64decode s"
| "py_b64decode _ = Inl (TypeError ''b64decode'')"

definition password_fields :: "pyval \<Rightarrow> py_error + (bytes \<times> bytes \<times> int)" where
  "password_fields r =
     bindE (bindE (py_item r ''salt'') py_b64decode) (\<lambda>salt.
     bindE (bindE (py_item r ''hash'') py_b64decode) (\<lambda>expected.
     bindE (bindE (py_item r ''iterations'') py_int) (\<lambda>iterations. Inr (salt, expected, iterations))))"

definition verify :: "kdf \<Rightarrow> auth_file \<Rightarrow> string \<Rightarrow> string \<Rightarrow> py_error + bool" where
  "verify kdf f user password =
     bindE (read_auth f) (\<lambda>payload.
     bindE (py_get payload ''users'' (PDict [])) (\<lambda>users.
     bindE (py_get users user PNone) (\<lambda>r.
     if \<not> is_dict r
     then bindE (derive kdf password (map (word_of_nat \<circ> code) ''missing-user-padding'') PBKDF2_ITERATIONS) (\<lambda>_. Inr False)
     else case password_fields r of
         Inl e \<Rightarrow> if is_key_error e \<or> is_type_error e \<or> is_value_error e then Inr False else Inl e
       | Inr (salt, expected, iterations) \<Rightarrow>
           bindE (derive kdf password salt iterations) (\<lambda>actual. Inr (actual = expected)))))"

text \<open>\<^verbatim>\<open>payload["users"][username] = record\<close>, for a payload that \<open>read_auth\<close> returned.\<close>

fun with_user :: "string \<Rightarrow> pyval \<Rightarrow> pyval \<Rightarrow> pyval" where
  "with_user user r (PDict d) =
     (case map_of d ''users'' of
        Some (PDict users) \<Rightarrow> PDict (AList.update ''users'' (PDict (AList.update user r users)) d)
      | _ \<Rightarrow> PDict d)"
| "with_user user r v = v"

definition change_password ::
  "kdf \<Rightarrow> bytes \<Rightarrow> string \<Rightarrow> py_error option \<Rightarrow> string \<Rightarrow> string \<Rightarrow> string \<Rightarrow> (auth_file, unit) act" where
  "change_password kdf salt stamp failure user current new = readA (\<lambda>f.
     bindA (liftE (verify kdf f user current)) (\<lambda>ok.
     if \<not> ok then raiseA (OSError ''PermissionError'')
     else bindA (liftE (read_auth f)) (\<lambda>payload.
          bindA (liftE (password_record kdf salt stamp new)) (\<lambda>r.
          write_auth failure (with_user user r payload)))))"

section \<open>What a change of the password changes\<close>

lemma read_auth_Inr:
  assumes "read_auth f = Inr payload"
  obtains d users where "payload = PDict d" "f = Some (Inr payload)" "map_of d ''users'' = Some (PDict users)"
    "\<And>v. map_of d ''version'' = Some v \<Longrightarrow> equals_one v" "map_of d ''version'' \<noteq> None"
proof -
  obtain d where d: "payload = PDict d" "f = Some (Inr payload)"
    using assms by (auto simp: read_auth_def bindE_eq_Inr split: option.splits if_splits dest!: py_get_Inr)
  moreover obtain users where "map_of d ''users'' = Some (PDict users)"
    using assms d by (auto simp: read_auth_def split: option.splits if_splits elim!: is_dict.elims)
  moreover obtain v where "map_of d ''version'' = Some v" "equals_one v"
    using assms d by (auto simp: read_auth_def split: option.splits if_splits)
  ultimately show ?thesis using that [of d users] by simp
qed

text \<open>After a password was changed the file accepts, for that user, exactly the passwords with the digest of
  the new one under the new salt, and for every other user what it accepted before; the current password
  was right and the new one has twelve characters or more.\<close>

lemma change_password_effect:
  assumes "change_password kdf salt stamp failure user current new f = (Inr (), f')"
  shows "verify kdf f user current = Inr True \<and> 12 \<le> length new \<and>
    verify kdf f' u p =
      (if u = user then bindE (derive kdf p salt PBKDF2_ITERATIONS)
         (\<lambda>d. Inr (derive kdf new salt PBKDF2_ITERATIONS = Inr d))
       else verify kdf f u p)"
proof -
  have ok: "verify kdf f user current = Inr True"
    using assms by (auto simp: change_password_def bindA_def split: sum.splits if_splits)
  then obtain payload where p: "read_auth f = Inr payload" by (auto simp: verify_def bindE_eq_Inr)
  then obtain d users where d: "payload = PDict d" "map_of d ''users'' = Some (PDict users)"
      "\<And>v. map_of d ''version'' = Some v \<Longrightarrow> equals_one v" "map_of d ''version'' \<noteq> None"
    by (rule read_auth_Inr) blast
  obtain r where r: "password_record kdf salt stamp new = Inr r" and f': "f' = Some (Inr (with_user user r payload))"
    using assms ok p by (auto simp: change_password_def bindA_def write_auth_def split: sum.splits option.splits)
  have n: "12 \<le> length new" using r by (simp add: password_record_def split: if_splits)
  then obtain digest where g: "derive kdf new salt PBKDF2_ITERATIONS = Inr digest"
    using r by (auto simp: password_record_def bindE_eq_Inr)
  have r': "is_dict r" "password_fields r = Inr (salt, digest, PBKDF2_ITERATIONS)"
    using r g n by (auto simp: password_record_def password_fields_def b64_round_trip)
  let ?d = "AList.update ''users'' (PDict (AList.update user r users)) d"
  obtain v where v: "map_of d ''version'' = Some v" "equals_one v" using d by auto
  have ra: "read_auth f' = Inr (PDict ?d)"
    using d v by (simp add: f' read_auth_def map_of_update update_conv')
  have "verify kdf f' u p = bindE (derive kdf p salt PBKDF2_ITERATIONS) (\<lambda>x. Inr (Inr digest = (Inr x :: py_error + bytes)))"
    if "u = user"
    using r' that ra by (simp add: verify_def map_of_update update_conv' eq_commute)
  moreover have "verify kdf f' u p = verify kdf f u p" if "u \<noteq> user"
    using that ra p d by (simp add: verify_def map_of_update update_conv')
  ultimately show ?thesis using ok n g by simp
qed

section \<open>The age of a session\<close>

definition store_ok :: "real \<Rightarrow> session_store \<Rightarrow> bool" where
  "store_ok now m \<longleftrightarrow> (\<forall>t x. m t = Some x \<longrightarrow> created_at x \<le> last_seen x \<and> last_seen x \<le> now)"

lemma cleanup_Some: "cleanup now m t = Some x \<longleftrightarrow> m t = Some x \<and> \<not> session_over now x"
  by (auto simp: cleanup_def split: option.splits if_splits)

lemma store_ok_empty [simp]: "store_ok now Map.empty"
  by (simp add: store_ok_def)

lemma store_ok_later: "store_ok now m \<Longrightarrow> now \<le> now' \<Longrightarrow> store_ok now' m"
  by (fastforce simp: store_ok_def)

lemma store_ok_create: "store_ok now m \<Longrightarrow> store_ok now (snd (create_session now token csrf user m))"
  by (auto simp: create_session_def store_ok_def cleanup_Some Let_def thenA_def bindA_def split: if_splits)

lemma store_ok_get: "store_ok now m \<Longrightarrow> store_ok now (snd (get_session now token m))"
  by (force simp: get_session_def store_ok_def cleanup_Some Let_def thenA_def bindA_def split: option.splits)

lemma store_ok_revoke: "store_ok now m \<Longrightarrow> store_ok now (snd (revoke token m))"
  by (auto simp: revoke_def store_ok_def split: option.splits)

lemma store_ok_revoke_user: "store_ok now m \<Longrightarrow> store_ok now (snd (revoke_user user keep m))"
  by (auto simp: revoke_user_def store_ok_def split: option.splits if_splits)

text \<open>A session that is returned belongs to the token, is at most eight hours old and was used within the hour.\<close>

lemma get_session_Some:
  assumes "get_session now token m = (Inr (Some x), m')"
  shows "\<exists>t y. token = Some t \<and> m t = Some y \<and> \<not> session_over now y \<and> x = y\<lparr>last_seen := now\<rparr> \<and> m' = (cleanup now m)(t \<mapsto> x)"
  using assms by (auto simp: get_session_def Let_def thenA_def bindA_def cleanup_Some split: option.splits if_splits)

lemma get_session_returns: "\<exists>r. get_session now token m = (Inr r, snd (get_session now token m))"
  by (auto simp: get_session_def Let_def thenA_def bindA_def split: option.splits)

section \<open>The property\<close>

text \<open>C34: after the password of a user was changed, the file accepts for that user exactly the passwords that have
  the digest of the new one under the new salt, and for every other user what it accepted before; a change is
  made only when the current password was right, and the new one has twelve characters or more.\<close>

theorem password_change_exact:
  assumes "change_password kdf salt stamp failure user current new f = (Inr (), f')"
  shows "verify kdf f user current = Inr True \<and> 12 \<le> length new \<and>
    verify kdf f' u p =
      (if u = user then bindE (derive kdf p salt PBKDF2_ITERATIONS)
         (\<lambda>d. Inr (derive kdf new salt PBKDF2_ITERATIONS = Inr d))
       else verify kdf f u p)"
  by (rule change_password_effect) (rule assms)

text \<open>A password file as \<open>initialize_auth\<close> writes it, with a derivation that appends the salt.\<close>

definition demo_kdf :: kdf where
  "demo_kdf p salt n = Inr (p @ salt)"

definition demo_auth :: "bytes \<Rightarrow> string \<Rightarrow> bytes \<Rightarrow> auth_file" where
  "demo_auth salt stamp digest = Some (Inr (PDict [(''version'', PInt 1), (''users'', PDict [(''admin'',
     PDict [(''algorithm'', PStr ''pbkdf2-sha256''), (''iterations'', PInt PBKDF2_ITERATIONS), (''salt'', PStr (b64encode salt)),
       (''hash'', PStr (b64encode digest)), (''updatedAt'', PStr stamp)])])]))"

lemma demo_derive:
  "derive demo_kdf ''correct horse'' salt n = Inr ([99, 111, 114, 114, 101, 99, 116, 32, 104, 111, 114, 115, 101] @ salt)"
  "derive demo_kdf ''battery staple'' salt n = Inr ([98, 97, 116, 116, 101, 114, 121, 32, 115, 116, 97, 112, 108, 101] @ salt)"
  by (simp_all add: derive_def demo_kdf_def to_utf8_def utf8_encode_def code_def surrogate_def utf8_bytes_def)

lemma demo_init:
  "initialize_auth demo_kdf [1, 2, 3] ''t0'' None ''admin'' ''correct horse'' False None =
   (Inr (), demo_auth [1, 2, 3] ''t0'' [99, 111, 114, 114, 101, 99, 116, 32, 104, 111, 114, 115, 101, 1, 2, 3])"
proof -
  have "strip ''admin'' = ''admin''" "list_all user_name_char ''admin''" by code_simp+
  then show ?thesis
    by (simp add: initialize_auth_def Let_def bindA_def write_auth_def password_record_def demo_derive demo_auth_def)
qed

lemma demo_change:
  "change_password demo_kdf [4, 5, 6] ''t1'' None ''admin'' ''correct horse'' ''battery staple''
     (demo_auth [1, 2, 3] ''t0'' [99, 111, 114, 114, 101, 99, 116, 32, 104, 111, 114, 115, 101, 1, 2, 3]) =
   (Inr (), demo_auth [4, 5, 6] ''t1'' [98, 97, 116, 116, 101, 114, 121, 32, 115, 116, 97, 112, 108, 101, 4, 5, 6])"
  by (simp add: change_password_def verify_def read_auth_def demo_auth_def password_fields_def b64_round_trip
      demo_derive bindA_def write_auth_def password_record_def)

lemma password_change_exact_witness:
  "(\<exists>f. initialize_auth demo_kdf [1, 2, 3] ''t0'' None ''admin'' ''correct horse'' False None = (Inr (), f) \<and>
     (\<exists>f'. change_password demo_kdf [4, 5, 6] ''t1'' None ''admin'' ''correct horse'' ''battery staple'' f = (Inr (), f') \<and>
       verify demo_kdf f' ''admin'' ''battery staple'' = Inr True \<and> verify demo_kdf f' ''admin'' ''correct horse'' = Inr False))"
  using demo_init demo_change password_change_exact [OF demo_change, of "''admin''" "''battery staple''"]
    password_change_exact [OF demo_change, of "''admin''" "''correct horse''"]
  by (auto simp: demo_derive)

end
