(* ===== verification/Dash_State.thy ===== *)
theory Dash_State
  imports Ars_Registry Bridge_State
begin

text \<open>
  What the dashboard knows of the station: \<^verbatim>\<open>RuntimeState\<close> of \<^verbatim>\<open>src/dashboard/app.py\<close>. Three log files and
  the status file of the audio worker feed it; it keeps the registered radios, the call of each direction,
  the last eighty calls with their signal readings, and the talkgroups. Every method holds the lock of
  the object, so it is one step. The time stamp of a log line (\<^verbatim>\<open>_timestamp\<close>, local time) is an argument, as is
  \<^verbatim>\<open>time.time()\<close>. Calls are changed in place in the code and are in one collection at a time.
\<close>

section \<open>State\<close>

datatype direction = Uplink | Downlink

record signal_level =
  current :: int
  average :: real
  minimum :: int
  maximum :: int
  samples :: nat
  signal_at :: real

record radio =
  subscriber_ip :: string
  server_ip :: string
  registered_at :: real
  radio_seen :: real
  tms :: bool
  gps_status :: string
  gps_last_at :: "real option"
  radio_signal :: "signal_level option"

record voice_call =
  direction :: direction
  source_id :: int
  call_group :: int
  begun_at :: real
  ended_at :: "real option"
  duration_seconds :: real
  end_reason :: "string option"
  rssi_readings :: "(real \<times> int) list"
  call_signal :: "signal_level option"

record tracker =
  radios :: "(int, radio) pydict"
  active_calls :: "(direction, voice_call) pydict"
  call_history :: "voice_call list"
  rssi_samples :: "(real \<times> int) list"
  last_call_activity :: real
  bm_state :: string
  bm_last_change :: "real option"
  mappings :: "(int \<times> int) list"
  configured_ars :: string
  observed_ars :: string
  positions :: "(int, real \<times> real \<times> real) pydict"
  dynamic_activity :: "(int, real) pydict"
  dynamic_timeout :: int
  static_subscriptions :: "(int \<times> int) list"
  dynamic_subscriptions :: "(int \<times> int) list"
  timed_subscriptions :: "(int \<times> int) list"
  profile_updated_at :: "real option"
  profile_error :: "string option"

definition tracker_init :: tracker where
  "tracker_init = \<lparr>radios = [], active_calls = [], call_history = [], rssi_samples = [], last_call_activity = 0,
     bm_state = ''unknown'', bm_last_change = None, mappings = [], configured_ars = [], observed_ars = [],
     positions = [], dynamic_activity = [], dynamic_timeout = 600, static_subscriptions = [],
     dynamic_subscriptions = [], timed_subscriptions = [], profile_updated_at = None, profile_error = None\<rparr>"

section \<open>Signal readings\<close>

definition RSSI_START_TOLERANCE_SECONDS :: real where "RSSI_START_TOLERANCE_SECONDS = 3 / 4"
definition RSSI_END_TOLERANCE_SECONDS :: real where "RSSI_END_TOLERANCE_SECONDS = 1 / 4"
definition RSSI_SAMPLE_HISTORY_LIMIT :: nat where "RSSI_SAMPLE_HISTORY_LIMIT = 100000"
definition CALL_HISTORY_LIMIT :: nat where "CALL_HISTORY_LIMIT = 80"

definition set_call_rssi :: "(real \<times> int) list \<Rightarrow> voice_call \<Rightarrow> voice_call" where
  "set_call_rssi values c =
     (let raw = map snd values in
      c\<lparr>rssi_readings := values,
        call_signal := (if values = [] then None
          else Some \<lparr>current = last raw, average = round1 (of_int (sum_list raw) / of_nat (length raw)),
            minimum = Min (set raw), maximum = Max (set raw), samples = length raw, signal_at = fst (last values)\<rparr>)\<rparr>)"

definition buffered_rssi :: "real \<Rightarrow> real \<Rightarrow> tracker \<Rightarrow> (real \<times> int) list" where
  "buffered_rssi from till s = filter (\<lambda>x. from \<le> fst x \<and> fst x \<le> till) (rssi_samples s)"

definition publish_radio_rssi :: "voice_call \<Rightarrow> tracker \<Rightarrow> tracker" where
  "publish_radio_rssi c s = (case (call_signal c, map_of (radios s) (source_id c)) of
       (Some l, Some r) \<Rightarrow> s\<lparr>radios := AList.update (source_id c) (r\<lparr>radio_signal := Some l\<rparr>) (radios s)\<rparr>
     | _ \<Rightarrow> s)"

section \<open>Calls\<close>

definition push_history :: "voice_call \<Rightarrow> tracker \<Rightarrow> tracker" where
  "push_history c s = (let h = call_history s in
     s\<lparr>call_history := c # (if CALL_HISTORY_LIMIT \<le> length h then butlast h else h)\<rparr>)"

definition finish_call :: "direction \<Rightarrow> real \<Rightarrow> real option \<Rightarrow> string \<Rightarrow> tracker \<Rightarrow> tracker" where
  "finish_call d timestamp parsed_duration reason s =
     (let s = s\<lparr>last_call_activity := max (last_call_activity s) timestamp\<rparr> in
      case map_of (active_calls s) d of
        None \<Rightarrow> s
      | Some c \<Rightarrow>
          (let s = s\<lparr>active_calls := AList.delete d (active_calls s)\<rparr>;
               c = c\<lparr>ended_at := Some timestamp,
                 duration_seconds := round1 (case parsed_duration of Some x \<Rightarrow> x | None \<Rightarrow> max 0 (timestamp - begun_at c)),
                 end_reason := Some reason\<rparr> in
           if d = Uplink
           then (let c = set_call_rssi (buffered_rssi (begun_at c - RSSI_START_TOLERANCE_SECONDS)
                           (timestamp + RSSI_END_TOLERANCE_SECONDS) s) c
                 in push_history c (publish_radio_rssi c s))
           else push_history c s))"

definition new_call :: "direction \<Rightarrow> int \<Rightarrow> int \<Rightarrow> real \<Rightarrow> voice_call" where
  "new_call d source tg timestamp = \<lparr>direction = d, source_id = source, call_group = tg, begun_at = timestamp,
     ended_at = None, duration_seconds = 0, end_reason = None, rssi_readings = [], call_signal = None\<rparr>"

definition same_voice_call :: "int \<Rightarrow> int \<Rightarrow> voice_call \<Rightarrow> bool" where
  "same_voice_call source tg c \<longleftrightarrow> source_id c = source \<and> call_group c = tg"

definition start_call :: "direction \<Rightarrow> int \<Rightarrow> int \<Rightarrow> real \<Rightarrow> tracker \<Rightarrow> tracker" where
  "start_call d source tg timestamp s =
     (let s = s\<lparr>last_call_activity := max (last_call_activity s) timestamp\<rparr>;
          active = map_of (active_calls s) d in
      if (case active of None \<Rightarrow> False | Some c \<Rightarrow> same_voice_call source tg c) then s
      else let s = (if active = None then s else finish_call d timestamp None ''superseded'' s);
               c = new_call d source tg timestamp;
               c = (if d = Uplink
                 then set_call_rssi (buffered_rssi (timestamp - RSSI_START_TOLERANCE_SECONDS)
                        (timestamp + RSSI_START_TOLERANCE_SECONDS) s) c
                 else c)
           in s\<lparr>active_calls := AList.update d c (active_calls s)\<rparr>)"

definition add_reading :: "real \<times> int \<Rightarrow> voice_call \<Rightarrow> voice_call" where
  "add_reading x c = set_call_rssi (rssi_readings c @ [x]) c"

definition covers :: "real \<Rightarrow> voice_call \<Rightarrow> bool" where
  "covers timestamp c \<longleftrightarrow> direction c = Uplink \<and> begun_at c - RSSI_START_TOLERANCE_SECONDS \<le> timestamp \<and>
     (case ended_at c of None \<Rightarrow> False | Some e \<Rightarrow> timestamp \<le> e + RSSI_END_TOLERANCE_SECONDS)"

text \<open>The first call of the history that the sample belongs to gets it.\<close>

primrec late_sample :: "real \<times> int \<Rightarrow> voice_call list \<Rightarrow> voice_call list \<times> voice_call option" where
  "late_sample x [] = ([], None)"
| "late_sample x (c # h) =
     (if covers (fst x) c then (add_reading x c # h, Some (add_reading x c))
      else case late_sample x h of (h', r) \<Rightarrow> (c # h', r))"

definition push_sample :: "real \<times> int \<Rightarrow> tracker \<Rightarrow> tracker" where
  "push_sample x s = s\<lparr>rssi_samples := push_bounded RSSI_SAMPLE_HISTORY_LIMIT x (rssi_samples s)\<rparr>"

definition record_rssi_sample :: "real \<Rightarrow> int \<Rightarrow> tracker \<Rightarrow> tracker" where
  "record_rssi_sample timestamp raw_value s =
     (if \<not> (0 \<le> raw_value \<and> raw_value \<le> 255) then s
      else let x = (timestamp, raw_value); s = push_sample x s in
        case map_of (active_calls s) Uplink of
          Some c \<Rightarrow>
            if begun_at c - RSSI_START_TOLERANCE_SECONDS \<le> timestamp
            then (let c = add_reading x c in
                  publish_radio_rssi c (s\<lparr>active_calls := AList.update Uplink c (active_calls s)\<rparr>))
            else (case late_sample x (call_history s) of
                (h, None) \<Rightarrow> s
              | (h, Some c) \<Rightarrow> publish_radio_rssi c (s\<lparr>call_history := h\<rparr>))
        | None \<Rightarrow> (case late_sample x (call_history s) of
                (h, None) \<Rightarrow> s
              | (h, Some c) \<Rightarrow> publish_radio_rssi c (s\<lparr>call_history := h\<rparr>)))"

definition CALL_STALE_TIMEOUT_SECONDS :: int where "CALL_STALE_TIMEOUT_SECONDS = 75"

definition expire_stale_calls :: "real \<Rightarrow> tracker \<Rightarrow> tracker" where
  "expire_stale_calls now s = fold (\<lambda>(d, c) s.
     if of_int CALL_STALE_TIMEOUT_SECONDS < now - begun_at c then finish_call d now None ''timeout'' s else s)
     (active_calls s) s"

definition SETTINGS_RESTART_IDLE_GUARD_SECONDS :: int where "SETTINGS_RESTART_IDLE_GUARD_SECONDS = 15"

text \<open>The seconds of quiet that are still missing before services may be restarted.\<close>

definition restart_guard_remaining :: "int \<Rightarrow> real \<Rightarrow> tracker \<Rightarrow> int \<times> tracker" where
  "restart_guard_remaining quiet_seconds now s =
     (let s = expire_stale_calls now s in
      (if active_calls s \<noteq> [] then max 1 quiet_seconds
       else if last_call_activity s \<le> 0 then 0
       else max 0 \<lceil>of_int quiet_seconds - max 0 (now - last_call_activity s)\<rceil>, s))"

section \<open>Lines of the P25 host\<close>

definition not_comma :: "char \<Rightarrow> bool" where "not_comma c \<longleftrightarrow> c \<noteq> CHR '',''"

definition RSSI_SAMPLE_RE :: "rx list" where
  "RSSI_SAMPLE_RE = [Lit ''Quantar V.24 RSSI sample, ldu = 1, rssi1 = '', Cap1 is_digit]"
definition REGISTRATION_RE :: "rx list" where
  "REGISTRATION_RE = [Lit ''recognized Motorola SCEP ARS registration, llId = '', Cap1 is_digit, Lit '', subscriberIp = '',
     Cap1 not_comma, Lit '', serverIp = '', Cap1 not_comma]"
definition REFRESH_RE :: "rx list" where
  "REFRESH_RE = [Alt False [''accepted'', ''recognized''], Lit '' Motorola ARS refresh'', DotStar, Lit ''llId = '',
     Cap1 is_digit, DotStar, Lit ''subscriberIp = '', Cap1 not_comma]"
definition TMS_RE :: "rx list" where
  "TMS_RE = [Lit ''Motorola TMS service acknowledged'', DotStar, Lit ''llId = '', Cap1 is_digit]"
definition DISCONNECT_RE :: "rx list" where
  "DISCONNECT_RE = [Alt True [''DISCONNECT'', ''deregistration''], DotStar, Alt True [''llId = ''], Cap1 is_digit]"
definition GPS_REQUEST_RE :: "rx list" where
  "GPS_REQUEST_RE = [Lit ''sending Motorola LRRP '', DotStar, Lit ''request, llId = '', Cap1 is_digit]"
definition GPS_FIX_RE :: "rx list" where
  "GPS_FIX_RE = [Lit ''Motorola LRRP location report received, sourceRid = '', Cap1 is_digit]"
definition GPS_NO_FIX_RE :: "rx list" where
  "GPS_NO_FIX_RE = [Lit ''Motorola LRRP '', Alt False [''response has no usable position'', ''request was rejected''],
     DotStar, Lit ''sourceRid = '', Cap1 is_digit]"
definition SOURCE_RE :: "rx list" where
  "SOURCE_RE = [Alt False [''sourceRid'', ''llId''], Lit '' = '', Cap1 is_digit]"

definition reset_radios :: "real \<Rightarrow> tracker \<Rightarrow> tracker" where
  "reset_radios timestamp s = fold (\<lambda>d. finish_call d timestamp None ''host_restart'') (map fst (active_calls s))
     (s\<lparr>radios := []\<rparr>)"

text \<open>A registration renews what the log line has and keeps the rest of an earlier entry.\<close>

definition new_radio :: "string \<Rightarrow> string \<Rightarrow> real \<Rightarrow> radio" where
  "new_radio ip server timestamp = \<lparr>subscriber_ip = ip, server_ip = server, registered_at = timestamp, radio_seen = timestamp,
     tms = False, gps_status = ''waiting'', gps_last_at = None, radio_signal = None\<rparr>"

definition register_radio :: "int \<Rightarrow> string \<Rightarrow> string option \<Rightarrow> real \<Rightarrow> tracker \<Rightarrow> tracker" where
  "register_radio radio_id ip server timestamp s =
     s\<lparr>radios := AList.update radio_id
       (case map_of (radios s) radio_id of
          None \<Rightarrow> new_radio ip (case server of None \<Rightarrow> [] | Some x \<Rightarrow> x) timestamp
        | Some r \<Rightarrow> r\<lparr>subscriber_ip := ip, server_ip := (case server of None \<Rightarrow> server_ip r | Some x \<Rightarrow> x),
            radio_seen := timestamp\<rparr>) (radios s)\<rparr>"

definition change_radio :: "int \<Rightarrow> (radio \<Rightarrow> radio) \<Rightarrow> tracker \<Rightarrow> tracker" where
  "change_radio radio_id f s = (case map_of (radios s) radio_id of
     None \<Rightarrow> s | Some r \<Rightarrow> s\<lparr>radios := AList.update radio_id (f r) (radios s)\<rparr>)"

definition last_service_line :: "real \<Rightarrow> string \<Rightarrow> tracker \<Rightarrow> tracker" where
  "last_service_line timestamp line s =
     (if contains ''Motorola TMS'' line \<or> contains ''Motorola LRRP'' line
      then case rsearch SOURCE_RE line of
          None \<Rightarrow> s | Some m \<Rightarrow> change_radio (group1 m) (radio_seen_update (\<lambda>_. timestamp)) s
      else s)"

definition process_gps_line :: "real \<Rightarrow> string \<Rightarrow> tracker \<Rightarrow> tracker" where
  "process_gps_line timestamp line s =
     (case rsearch GPS_REQUEST_RE line of
        Some m \<Rightarrow> change_radio (group1 m) (\<lambda>r. r\<lparr>gps_status := ''querying''\<rparr>) s
      | None \<Rightarrow> (case rsearch GPS_FIX_RE line of
          Some m \<Rightarrow> change_radio (group1 m) (\<lambda>r. r\<lparr>gps_status := ''fix'', gps_last_at := Some timestamp, radio_seen := timestamp\<rparr>) s
        | None \<Rightarrow> (case rsearch GPS_NO_FIX_RE line of
            Some m \<Rightarrow> change_radio (group1 m) (\<lambda>r. r\<lparr>gps_status := ''no_fix'', gps_last_at := Some timestamp, radio_seen := timestamp\<rparr>) s
          | None \<Rightarrow> last_service_line timestamp line s)))"

definition process_service_line :: "real \<Rightarrow> string \<Rightarrow> tracker \<Rightarrow> tracker" where
  "process_service_line timestamp line s =
     (case rsearch TMS_RE line of
        Some m \<Rightarrow> change_radio (group1 m) (\<lambda>r. r\<lparr>tms := True, radio_seen := timestamp\<rparr>) s
      | None \<Rightarrow> (case rsearch DISCONNECT_RE line of
          Some m \<Rightarrow> s\<lparr>radios := AList.delete (group1 m) (radios s)\<rparr>
        | None \<Rightarrow> process_gps_line timestamp line s))"

definition process_dvmhost_line :: "real \<Rightarrow> string \<Rightarrow> tracker \<Rightarrow> tracker" where
  "process_dvmhost_line timestamp line s =
     (case rsearch RSSI_SAMPLE_RE line of
        Some m \<Rightarrow> record_rssi_sample timestamp (group1 m) s
      | None \<Rightarrow> if contains ''Motorola LRRP Initial Delay:'' line then reset_radios timestamp s
        else (case rsearch REGISTRATION_RE line of
          Some m \<Rightarrow> (let server = strip (m ! 2); s = (if server \<noteq> [] then s\<lparr>observed_ars := server\<rparr> else s)
                     in register_radio (group1 m) (strip (m ! 1)) (Some server) timestamp s)
        | None \<Rightarrow> (case rsearch REFRESH_RE line of
            Some m \<Rightarrow> register_radio (group1 m) (strip (m ! 1)) None timestamp s
          | None \<Rightarrow> process_service_line timestamp line s)))"

section \<open>Activity and BrandMeister lines\<close>

definition CALL_START_RE :: "rx list" where
  "CALL_START_RE = [Lit ''P25 '', CapAlt [''RF'', ''Net''], Lit '' '', Alt False [''RF'', ''network'', ''Net''],
     Lit '' voice transmission from '', Cap1 is_digit, Lit '' to TG '', Cap1 is_digit]"
definition CALL_END_RE :: "rx list" where
  "CALL_END_RE = [Lit ''P25 '', CapAlt [''RF'', ''Net''], Lit '' '', Alt False [''RF'', ''network'', ''Net''], Lit '' end of transmission'']"
definition CALL_END_SECONDS_RE :: "rx list" where
  "CALL_END_SECONDS_RE = CALL_END_RE @ [Lit '', '', Cap1 (\<lambda>c. is_digit c \<or> c = CHR ''.''), Lit '' seconds'']"

definition digits_int :: "string \<Rightarrow> int" where "digits_int ds = int (nat_of_digits ds)"

definition line_direction :: "string list \<Rightarrow> direction" where
  "line_direction m = (if hd m = ''RF'' then Uplink else Downlink)"

definition process_activity_line :: "real \<Rightarrow> string \<Rightarrow> (tracker, unit) act" where
  "process_activity_line timestamp line =
     (case rsearch CALL_START_RE line of
        Some m \<Rightarrow> upd (start_call (line_direction m) (digits_int (m ! 1)) (digits_int (m ! 2)) timestamp)
      | None \<Rightarrow> (case rsearch2 CALL_END_SECONDS_RE CALL_END_RE line of
          None \<Rightarrow> ret ()
        | Some m \<Rightarrow> bindA (liftE (if 1 < length m then bindE (py_float_str (m ! 1)) (\<lambda>x. Inr (Some x)) else Inr None)) (\<lambda>parsed.
            upd (finish_call (line_direction m) timestamp parsed ''normal''))))"

definition DYNAMIC_UPDATE_RE :: "rx list" where
  "DYNAMIC_UPDATE_RE = [Lit ''Updated dynamic TG '', Cap1 is_digit, Lit '' from RF activity'']"
definition DYNAMIC_END_RE :: "rx list" where
  "DYNAMIC_END_RE = [Lit ''Dynamic TG '', Cap1 is_digit, Alt False ['' expired locally'', '' fully released'']]"
definition DOWNLINK_START_RE :: "rx list" where
  "DOWNLINK_START_RE = [Lit ''Forwarding BrandMeister DMR to FNE srcId='', Cap1 is_digit, Lit '' dstId='', Cap1 is_digit]"
definition DOWNLINK_TERMINATOR_RE :: "rx list" where
  "DOWNLINK_TERMINATOR_RE = [Lit ''Flushing delayed BM DMR terminator to FNE srcId='', Cap1 is_digit, Lit '' dstId='', Cap1 is_digit]"

text \<open>\<^verbatim>\<open>max(candidates, key=startedAt)\<close>: the position of the first call with the largest start.\<close>

definition candidate :: "int \<Rightarrow> int \<Rightarrow> real \<Rightarrow> voice_call \<Rightarrow> bool" where
  "candidate source tg timestamp c \<longleftrightarrow> direction c = Downlink \<and> same_voice_call source tg c \<and> begun_at c \<le> timestamp \<and>
     (case ended_at c of None \<Rightarrow> True | Some e \<Rightarrow> timestamp \<le> e)"

definition latest_candidate :: "int \<Rightarrow> int \<Rightarrow> real \<Rightarrow> voice_call list \<Rightarrow> nat option" where
  "latest_candidate source tg timestamp h = fold (\<lambda>i best.
     if candidate source tg timestamp (h ! i) \<and> (case best of None \<Rightarrow> True | Some b \<Rightarrow> begun_at (h ! b) < begun_at (h ! i))
     then Some i else best) [0..<length h] None"

definition corrected :: "real \<Rightarrow> voice_call \<Rightarrow> voice_call" where
  "corrected timestamp c = c\<lparr>ended_at := Some timestamp, duration_seconds := round1 (max 0 (timestamp - begun_at c)),
     end_reason := Some ''normal''\<rparr>"

definition end_downlink_line :: "int \<Rightarrow> int \<Rightarrow> real \<Rightarrow> tracker \<Rightarrow> tracker" where
  "end_downlink_line source tg timestamp s =
     (if (case map_of (active_calls s) Downlink of None \<Rightarrow> False
          | Some c \<Rightarrow> same_voice_call source tg c \<and> begun_at c \<le> timestamp)
      then finish_call Downlink timestamp None ''normal'' s
      else case latest_candidate source tg timestamp (call_history s) of
          None \<Rightarrow> s
        | Some i \<Rightarrow> s\<lparr>call_history := (call_history s)[i := corrected timestamp (call_history s ! i)]\<rparr>)"

definition bm_line_state :: "string \<Rightarrow> string option" where
  "bm_line_state line =
     (if contains ''BrandMeister login complete'' line then Some ''connected''
      else if contains ''Opened BrandMeister socket'' line \<or> contains ''waiting for acknowledgement'' line then Some ''connecting''
      else if rsearch [Lit ''BrandMeister '', Alt False [''login rejected'', ''closed the session'', ''connection timed out'']] line \<noteq> None \<or>
        rsearch [Lit ''Unable to '', Alt False [''open'', ''resolve''], DotStar, Lit ''BrandMeister''] line \<noteq> None \<or>
        contains ''BrandMeister socket read failed'' line then Some ''disconnected''
      else None)"

definition dynamic_line :: "real \<Rightarrow> string \<Rightarrow> tracker \<Rightarrow> tracker" where
  "dynamic_line timestamp line s =
     (case rsearch DYNAMIC_UPDATE_RE line of
        Some m \<Rightarrow> s\<lparr>dynamic_activity := AList.update (group1 m) timestamp (dynamic_activity s)\<rparr>
      | None \<Rightarrow> (case rsearch DYNAMIC_END_RE line of
          Some m \<Rightarrow> s\<lparr>dynamic_activity := AList.delete (group1 m) (dynamic_activity s)\<rparr>
        | None \<Rightarrow> if contains ''Received disconnect TG'' line \<and> contains ''clearing dynamic TG state'' line
            then finish_call Downlink timestamp None ''disconnect'' (s\<lparr>dynamic_activity := []\<rparr>) else s))"

definition process_brandmeister_line :: "real \<Rightarrow> string \<Rightarrow> tracker \<Rightarrow> tracker" where
  "process_brandmeister_line timestamp line s =
     (let s = (case rsearch DOWNLINK_START_RE line of
            None \<Rightarrow> s | Some m \<Rightarrow> start_call Downlink (digits_int (m ! 0)) (digits_int (m ! 1)) timestamp s);
          s = (case rsearch DOWNLINK_TERMINATOR_RE line of
            None \<Rightarrow> s | Some m \<Rightarrow> end_downlink_line (digits_int (m ! 0)) (digits_int (m ! 1)) timestamp s);
          s = dynamic_line timestamp line s
      in case bm_line_state line of
          None \<Rightarrow> s | Some st \<Rightarrow> s\<lparr>bm_state := st, bm_last_change := Some timestamp\<rparr>)"

section \<open>Configuration, positions and profiles\<close>

definition set_connection_config :: "(int \<times> int) list \<Rightarrow> string \<Rightarrow> tracker \<Rightarrow> tracker" where
  "set_connection_config ms ars s = s\<lparr>mappings := ms, configured_ars := strip ars\<rparr>"

definition set_talkgroup_config :: "int \<Rightarrow> tracker \<Rightarrow> tracker" where
  "set_talkgroup_config seconds s = s\<lparr>dynamic_timeout := max 1 seconds\<rparr>"

definition update_position :: "int \<Rightarrow> real \<Rightarrow> real \<Rightarrow> real \<Rightarrow> tracker \<Rightarrow> tracker" where
  "update_position radio_id latitude longitude timestamp s =
     (case map_of (positions s) radio_id of
        Some (a, b, updated_at) \<Rightarrow>
          if timestamp < updated_at then s
          else s\<lparr>positions := AList.update radio_id (latitude, longitude, timestamp) (positions s)\<rparr>
      | None \<Rightarrow> s\<lparr>positions := AList.update radio_id (latitude, longitude, timestamp) (positions s)\<rparr>)"

text \<open>One entry of a subscription list; the code drops what is no talkgroup on a slot.\<close>

definition subscription :: "pyval \<Rightarrow> (int \<times> int) option" where
  "subscription entry =
     (case bindE (bindE (py_get entry ''talkgroup'' (PInt 0)) py_int) (\<lambda>tg.
           bindE (bindE (py_get entry ''slot'' (PInt 0)) py_int) (\<lambda>slot. Inr (tg, slot))) of
        Inl e \<Rightarrow> None
      | Inr (tg, slot) \<Rightarrow> if tg \<le> 0 \<or> slot \<notin> {0, 1, 2} then None else Some (tg, slot))"

definition normalize_subscriptions :: "pyval \<Rightarrow> (int \<times> int) list" where
  "normalize_subscriptions entries = (case entries of
     PList es \<Rightarrow> concat (map (\<lambda>slot. map (\<lambda>tg. (tg, slot))
         (sorted_list_of_set (fst ` set (filter (\<lambda>x. snd x = slot) (List.map_filter subscription es))))) [0, 1, 2])
   | _ \<Rightarrow> [])"

definition set_brandmeister_profile :: "real \<Rightarrow> (string \<times> pyval) list \<Rightarrow> tracker \<Rightarrow> tracker" where
  "set_brandmeister_profile now profile s =
     s\<lparr>static_subscriptions := normalize_subscriptions (dget profile ''staticSubscriptions'' PNone),
       dynamic_subscriptions := normalize_subscriptions (dget profile ''dynamicSubscriptions'' PNone),
       timed_subscriptions := normalize_subscriptions (dget profile ''timedSubscriptions'' PNone),
       profile_updated_at := Some now, profile_error := None\<rparr>"

definition set_brandmeister_profile_error :: "string \<Rightarrow> tracker \<Rightarrow> tracker" where
  "set_brandmeister_profile_error message s = s\<lparr>profile_error := Some message\<rparr>"

section \<open>The status of the audio worker\<close>

definition activity_entry :: "pyval \<Rightarrow> (int \<times> real) option" where
  "activity_entry entry =
     (if \<not> is_dict entry then None
      else case bindE (bindE (py_get entry ''talkgroup'' (PInt 0)) py_int) (\<lambda>tg.
                bindE (bindE (py_get entry ''lastActiveEpoch'' (PFloat 0)) py_float) (\<lambda>since. Inr (tg, since))) of
          Inl e \<Rightarrow> None
        | Inr (tg, since) \<Rightarrow> if 0 < tg \<and> 0 < since then Some (tg, since) else None)"

definition active_fields :: "real \<Rightarrow> pyval \<Rightarrow> py_error + (int \<times> int \<times> real)" where
  "active_fields now active =
     bindE (bindE (py_get active ''source'' (PInt 0)) py_int) (\<lambda>source.
     bindE (bindE (py_get active ''p25Talkgroup'' (PInt 0)) py_int) (\<lambda>tg.
     bindE (bindE (py_get active ''startedAtEpoch'' (PFloat now)) py_float) (\<lambda>since. Inr (source, tg, since))))"

definition brew_direction :: "real \<Rightarrow> (string \<times> pyval) list \<Rightarrow> direction \<times> string \<Rightarrow> tracker \<Rightarrow> tracker" where
  "brew_direction now payload dk s =
     (let active = dget payload (snd dk) PNone in
      if is_dict active
      then case active_fields now active of
          Inl e \<Rightarrow> s
        | Inr (source, tg, since) \<Rightarrow> if 0 < source \<and> 0 < tg then start_call (fst dk) source tg since s else s
      else if map_of (active_calls s) (fst dk) \<noteq> None then finish_call (fst dk) now None ''normal'' s else s)"

text \<open>A list that is no list raises before anything is changed.\<close>

definition set_brew_audio_status :: "real \<Rightarrow> (string \<times> pyval) list \<Rightarrow> (tracker, unit) act" where
  "set_brew_audio_status now payload =
     bindA (liftE (py_iter (dget payload ''dynamicTalkgroups'' (PList [])))) (\<lambda>entries.
       upd (\<lambda>s. fold (brew_direction now payload) [(Uplink, ''activeUplink''), (Downlink, ''activeDownlink'')]
         (s\<lparr>dynamic_activity := fold (\<lambda>(tg, since). AList.update tg since) (List.map_filter activity_entry entries) []\<rparr>)))"

end
