(* ===== verification/Dash_Tracker.thy ===== *)
theory Dash_Tracker
  imports Dash_State
begin

text \<open>
  What holds of the dashboard's view of the station: the invariant of \<^verbatim>\<open>RuntimeState\<close> under every line and
  status it is fed, and the guard that keeps settings from being applied near a call.
\<close>

section \<open>Events\<close>

datatype event =
    HostLine real string
  | ActivityLine real string
  | BrandmeisterLine real string
  | BrewStatus real "(string \<times> pyval) list"
  | Profile real "(string \<times> pyval) list"
  | ProfileError string
  | Position int real real real
  | Connection "(int \<times> int) list" string
  | TalkgroupConfig int
  | Guard int real

fun track :: "event \<Rightarrow> tracker \<Rightarrow> tracker" where
  "track (HostLine t line) s = process_dvmhost_line t line s"
| "track (ActivityLine t line) s = snd (process_activity_line t line s)"
| "track (BrandmeisterLine t line) s = process_brandmeister_line t line s"
| "track (BrewStatus now payload) s = snd (set_brew_audio_status now payload s)"
| "track (Profile now payload) s = set_brandmeister_profile now payload s"
| "track (ProfileError message) s = set_brandmeister_profile_error message s"
| "track (Position radio_id latitude longitude t) s = update_position radio_id latitude longitude t s"
| "track (Connection ms ars) s = set_connection_config ms ars s"
| "track (TalkgroupConfig seconds) s = set_talkgroup_config seconds s"
| "track (Guard seconds now) s = snd (restart_guard_remaining seconds now s)"

section \<open>Readings\<close>

definition in_byte :: "int \<Rightarrow> bool" where "in_byte v \<longleftrightarrow> 0 \<le> v \<and> v \<le> 255"

text \<open>\<open>level_ok values l\<close>: \<open>l\<close> describes the readings \<open>values\<close>: their number, the last one and its time, the least and the
  greatest of them, and their mean to one decimal.\<close>

definition level_ok :: "(real \<times> int) list \<Rightarrow> signal_level option \<Rightarrow> bool" where
  "level_ok values l = (case l of
     None \<Rightarrow> values = []
   | Some l \<Rightarrow> values \<noteq> [] \<and> samples l = length values \<and> current l = snd (last values) \<and> signal_at l = fst (last values) \<and>
       in_byte (minimum l) \<and> in_byte (maximum l) \<and> minimum l \<in> snd ` set values \<and> maximum l \<in> snd ` set values \<and>
       (\<forall>x \<in> set values. minimum l \<le> snd x \<and> snd x \<le> maximum l) \<and>
       of_int (minimum l) \<le> average l \<and> average l \<le> of_int (maximum l) \<and>
       \<bar>average l - of_int (sum_list (map snd values)) / of_nat (length values)\<bar> \<le> 1 / 20 \<and>
       (\<exists>k :: int. average l = of_int k / 10))"

definition call_ok :: "voice_call \<Rightarrow> bool" where
  "call_ok c \<longleftrightarrow> list_all (\<lambda>x. in_byte (snd x)) (rssi_readings c) \<and> level_ok (rssi_readings c) (call_signal c)"

lemma round1_between:
  assumes "of_int a \<le> x" "x \<le> of_int b"
  shows "of_int a \<le> round1 x \<and> round1 x \<le> of_int b"
proof -
  have "10 * a \<le> py_round (x * 10)" by (rule py_round_ge) (use assms in simp)
  moreover have "py_round (x * 10) \<le> 10 * b" by (rule py_round_le) (use assms in simp)
  ultimately show ?thesis by (simp add: round1_def field_simps flip: of_int_mult)
qed

lemma round1_near: "\<bar>round1 x - x\<bar> \<le> 1 / 20" "\<exists>k :: int. round1 x = of_int k / 10"
proof -
  have "\<bar>x * 10 - of_int (py_round (x * 10))\<bar> \<le> 1 / 2" by (rule py_round_near)
  then have "2 * of_int (py_round (x * 10)) \<le> x * 20 + 1" "x * 20 \<le> 2 * of_int (py_round (x * 10)) + 1" by linarith+
  then have "round1 x - x \<le> 1 / 20" "x - round1 x \<le> 1 / 20" unfolding round1_def by linarith+
  then show "\<bar>round1 x - x\<bar> \<le> 1 / 20" by linarith
  show "\<exists>k :: int. round1 x = of_int k / 10" unfolding round1_def by blast
qed

lemma mean_between:
  assumes "xs \<noteq> []"
  shows "of_int (Min (set xs)) \<le> (of_int (sum_list xs) / of_nat (length xs) :: real) \<and>
    of_int (sum_list xs) / of_nat (length xs) \<le> (of_int (Max (set xs)) :: real)"
proof -
  have "int (length xs) * a \<le> sum_list xs" if "\<And>x. x \<in> set xs \<Longrightarrow> a \<le> x" for a
    using that by (induction xs) (auto simp: algebra_simps intro: add_mono)
  from this [of "Min (set xs)"] have lo: "int (length xs) * Min (set xs) \<le> sum_list xs" by simp
  have "sum_list xs \<le> int (length xs) * a" if "\<And>x. x \<in> set xs \<Longrightarrow> x \<le> a" for a
    using that by (induction xs) (auto simp: algebra_simps intro: add_mono)
  from this [of "Max (set xs)"] have hi: "sum_list xs \<le> int (length xs) * Max (set xs)" by simp
  have n: "0 < (of_nat (length xs) :: real)" using assms by simp
  have "of_nat (length xs) * of_int (Min (set xs)) \<le> (of_int (sum_list xs) :: real)"
    using lo by (metis of_int_le_iff of_int_mult of_int_of_nat_eq)
  moreover have "of_int (sum_list xs) \<le> (of_nat (length xs) * of_int (Max (set xs)) :: real)"
    using hi by (metis of_int_le_iff of_int_mult of_int_of_nat_eq)
  ultimately show ?thesis using n by (simp add: pos_le_divide_eq pos_divide_le_eq mult.commute)
qed

lemma call_ok_set: "list_all (\<lambda>x. in_byte (snd x)) values \<Longrightarrow> call_ok (set_call_rssi values c)"
proof -
  assume v: "list_all (\<lambda>x. in_byte (snd x)) values"
  show ?thesis
  proof (cases "values = []")
    case False
    let ?raw = "map snd values"
    have r: "?raw \<noteq> []" "finite (set ?raw)" using False by simp_all
    have b: "in_byte x" if "x \<in> set ?raw" for x using v that by (auto simp: list_all_iff)
    have "Min (set ?raw) \<in> snd ` set values" "Max (set ?raw) \<in> snd ` set values"
      using Min_in [of "set ?raw"] Max_in [of "set ?raw"] False by auto
    then show ?thesis
      using v False b [OF Min_in] b [OF Max_in] r round1_near [of "of_int (sum_list ?raw) / of_nat (length values)"]
        round1_between [OF conjunct1 [OF mean_between] conjunct2 [OF mean_between], of ?raw]
      by (simp add: call_ok_def set_call_rssi_def level_ok_def Let_def last_map)
  qed (simp add: call_ok_def set_call_rssi_def level_ok_def)
qed

lemma set_call_rssi_frame [simp]:
  "direction (set_call_rssi v c) = direction c" "begun_at (set_call_rssi v c) = begun_at c"
  "ended_at (set_call_rssi v c) = ended_at c" "end_reason (set_call_rssi v c) = end_reason c"
  "source_id (set_call_rssi v c) = source_id c" "call_group (set_call_rssi v c) = call_group c"
  "direction (add_reading x c) = direction c" "begun_at (add_reading x c) = begun_at c"
  "ended_at (add_reading x c) = ended_at c" "end_reason (add_reading x c) = end_reason c"
  by (simp_all add: set_call_rssi_def add_reading_def Let_def)

lemma call_ok_add: "call_ok c \<Longrightarrow> in_byte (snd x) \<Longrightarrow> call_ok (add_reading x c)"
  unfolding add_reading_def by (rule call_ok_set) (simp add: call_ok_def)

lemma voice_call_ok_new [simp]: "call_ok (new_call d source tg t)"
  by (simp add: new_call_def call_ok_def level_ok_def)

section \<open>The invariant\<close>

definition history_ok :: "voice_call list \<Rightarrow> bool" where
  "history_ok h \<longleftrightarrow> length h \<le> CALL_HISTORY_LIMIT \<and> list_all (\<lambda>c. call_ok c \<and> ended_at c \<noteq> None \<and> end_reason c \<noteq> None) h"

definition active_ok :: "(direction, voice_call) pydict \<Rightarrow> real \<Rightarrow> bool" where
  "active_ok calls activity \<longleftrightarrow> dict_ok calls \<and>
     list_all (\<lambda>(d, c). direction c = d \<and> call_ok c \<and> ended_at c = None \<and> begun_at c \<le> activity) calls"

definition samples_ok :: "(real \<times> int) list \<Rightarrow> bool" where
  "samples_ok xs \<longleftrightarrow> length xs \<le> RSSI_SAMPLE_HISTORY_LIMIT \<and> list_all (\<lambda>x. in_byte (snd x)) xs"

definition tracker_ok :: "tracker \<Rightarrow> bool" where
  "tracker_ok s \<longleftrightarrow> dict_ok (radios s) \<and> active_ok (active_calls s) (last_call_activity s) \<and> history_ok (call_history s) \<and>
     samples_ok (rssi_samples s) \<and> dict_ok (dynamic_activity s) \<and> dict_ok (positions s) \<and> 1 \<le> dynamic_timeout s \<and>
     list_all (\<lambda>(tg, slot). 0 < tg \<and> slot \<in> {0, 1, 2}) (static_subscriptions s @ dynamic_subscriptions s @ timed_subscriptions s)"

interpretation history_queue: bounded_fifo CALL_HISTORY_LIMIT push_history "\<lambda>s. rev (call_history s)"
proof unfold_locales
  fix c s
  have "rev (butlast h) = tl (rev h)" for h :: "voice_call list" by (cases h rule: rev_cases) simp_all
  then show "rev (call_history (push_history c s)) = push_bounded CALL_HISTORY_LIMIT c (rev (call_history s))"
    by (simp add: push_history_def push_bounded_def Let_def)
qed (simp add: CALL_HISTORY_LIMIT_def)

interpretation sample_queue: bounded_fifo RSSI_SAMPLE_HISTORY_LIMIT push_sample rssi_samples
  by unfold_locales (simp_all add: push_sample_def RSSI_SAMPLE_HISTORY_LIMIT_def)

lemma active_ok_lookup:
  "active_ok calls activity \<Longrightarrow> map_of calls d = Some c \<Longrightarrow>
   direction c = d \<and> call_ok c \<and> ended_at c = None \<and> begun_at c \<le> activity"
  by (auto simp: active_ok_def list_all_iff dest!: map_of_in_set)

lemma active_ok_update:
  "active_ok calls activity \<Longrightarrow> direction c = d \<Longrightarrow> call_ok c \<Longrightarrow> ended_at c = None \<Longrightarrow> begun_at c \<le> activity \<Longrightarrow>
   active_ok (AList.update d c calls) activity"
  by (auto simp: active_ok_def list_all_iff dest!: in_set_updateD)

lemma active_ok_delete: "active_ok calls activity \<Longrightarrow> active_ok (AList.delete d calls) activity"
  by (auto simp: active_ok_def list_all_iff dest!: in_set_deleteD)

lemma active_ok_later: "active_ok calls activity \<Longrightarrow> activity \<le> activity' \<Longrightarrow> active_ok calls activity'"
  by (fastforce simp: active_ok_def list_all_iff)

lemma tracker_okD:
  assumes "tracker_ok s"
  shows "dict_ok (radios s)" "active_ok (active_calls s) (last_call_activity s)" "history_ok (call_history s)"
    "samples_ok (rssi_samples s)"
  using assms by (simp_all add: tracker_ok_def)

lemma tracker_ok_init: "tracker_ok tracker_init"
  by (simp add: tracker_ok_def tracker_init_def active_ok_def history_ok_def samples_ok_def)

lemma tracker_ok_radios: "tracker_ok s \<Longrightarrow> dict_ok r \<Longrightarrow> tracker_ok (s\<lparr>radios := r\<rparr>)"
  by (simp add: tracker_ok_def)

lemma tracker_ok_publish: "tracker_ok s \<Longrightarrow> tracker_ok (publish_radio_rssi c s)"
  by (auto simp: publish_radio_rssi_def tracker_ok_def split: option.splits)

lemma tracker_ok_active:
  "tracker_ok s \<Longrightarrow> active_ok calls (last_call_activity s) \<Longrightarrow> tracker_ok (s\<lparr>active_calls := calls\<rparr>)"
  by (simp add: tracker_ok_def)

lemma tracker_ok_activity: "tracker_ok s \<Longrightarrow> tracker_ok (s\<lparr>last_call_activity := max (last_call_activity s) t\<rparr>)"
  by (auto simp: tracker_ok_def intro: active_ok_later)

lemma tracker_ok_history: "tracker_ok s \<Longrightarrow> history_ok h \<Longrightarrow> tracker_ok (s\<lparr>call_history := h\<rparr>)"
  by (simp add: tracker_ok_def)

lemma tracker_ok_push:
  assumes "tracker_ok s" "call_ok c" "ended_at c \<noteq> None" "end_reason c \<noteq> None"
  shows "tracker_ok (push_history c s)"
proof -
  have "length (call_history (push_history c s)) \<le> CALL_HISTORY_LIMIT"
    using history_queue.push_within [of s c] tracker_okD(3) [OF assms(1)] by (simp add: history_ok_def)
  then show ?thesis using assms
    by (auto simp: push_history_def Let_def tracker_ok_def history_ok_def list_all_iff dest: in_set_butlastD)
qed

lemma buffered_ok: "tracker_ok s \<Longrightarrow> list_all (\<lambda>x. in_byte (snd x)) (buffered_rssi a b s)"
  by (auto simp: tracker_ok_def samples_ok_def buffered_rssi_def list_all_iff)

lemma finish_call_ok:
  assumes "tracker_ok s"
  shows "tracker_ok (finish_call d t parsed reason s)"
proof -
  let ?s = "s\<lparr>last_call_activity := max (last_call_activity s) t\<rparr>"
  have ok: "tracker_ok ?s" using assms by (rule tracker_ok_activity)
  have ok': "tracker_ok (?s\<lparr>active_calls := AList.delete d (active_calls s)\<rparr>)"
    using tracker_ok_active [OF ok] active_ok_delete tracker_okD(2) [OF ok] by simp
  show ?thesis
  proof (cases "map_of (active_calls s) d")
    case (Some c)
    then have c: "call_ok c" using active_ok_lookup [OF tracker_okD(2) [OF assms]] by blast
    show ?thesis
      using ok' c Some call_ok_set [OF buffered_ok [OF ok']]
      by (auto simp: finish_call_def Let_def call_ok_def
          intro!: tracker_ok_push tracker_ok_publish)
  qed (use ok in \<open>simp add: finish_call_def\<close>)
qed

lemma publish_frame [simp]:
  "last_call_activity (publish_radio_rssi c s) = last_call_activity s"
  "active_calls (publish_radio_rssi c s) = active_calls s"
  by (simp_all add: publish_radio_rssi_def split: option.split)

lemma finish_call_activity [simp]: "last_call_activity (finish_call d t parsed reason s) = max (last_call_activity s) t"
  by (simp add: finish_call_def Let_def push_history_def split: option.split)

lemma finish_call_active: "active_calls (finish_call d t parsed reason s) = AList.delete d (active_calls s)"
  by (auto simp: finish_call_def Let_def push_history_def map_of_None_iff split: option.split)

lemma new_call_frame [simp]:
  "direction (new_call d source tg t) = d" "begun_at (new_call d source tg t) = t" "ended_at (new_call d source tg t) = None"
  by (simp_all add: new_call_def)

lemma put_new_call_ok:
  assumes "tracker_ok u" "t \<le> last_call_activity u"
  shows "tracker_ok (u\<lparr>active_calls := AList.update d (if d = Uplink then set_call_rssi (buffered_rssi a b u) (new_call d source tg t)
    else new_call d source tg t) (active_calls u)\<rparr>)"
  using assms tracker_okD(2) [OF assms(1)] call_ok_set [OF buffered_ok [OF assms(1)]]
  by (intro tracker_ok_active active_ok_update) simp_all

lemma start_call_ok:
  assumes "tracker_ok s"
  shows "tracker_ok (start_call d source tg t s)"
proof -
  let ?s = "s\<lparr>last_call_activity := max (last_call_activity s) t\<rparr>"
  let ?u = "if map_of (active_calls s) d = None then ?s else finish_call d t None ''superseded'' ?s"
  have ok: "tracker_ok ?s" using assms by (rule tracker_ok_activity)
  then have "tracker_ok ?u" by (simp add: finish_call_ok)
  moreover have "t \<le> last_call_activity ?u" by simp
  ultimately show ?thesis using ok put_new_call_ok [of ?u t d] by (simp add: start_call_def Let_def split: option.split)
qed

lemma late_sample_ok:
  assumes "late_sample x h = (h', r)" "history_ok h" "in_byte (snd x)"
  shows "history_ok h'"
proof -
  have "length h' = length h \<and> list_all (\<lambda>c. call_ok c \<and> ended_at c \<noteq> None \<and> end_reason c \<noteq> None) h'"
    using assms by (induction h arbitrary: h' r)
      (auto simp: history_ok_def call_ok_add split: if_splits prod.splits)
  then show ?thesis using assms(2) by (simp add: history_ok_def)
qed

lemma in_tl: "x \<in> set (tl xs) \<Longrightarrow> x \<in> set xs"
  by (cases xs) auto

lemma sample_pushed_ok: "tracker_ok s \<Longrightarrow> in_byte (snd x) \<Longrightarrow> tracker_ok (push_sample x s)"
proof -
  assume s: "tracker_ok s" and x: "in_byte (snd x)"
  have "length (rssi_samples (push_sample x s)) \<le> RSSI_SAMPLE_HISTORY_LIMIT"
    using sample_queue.push_within [of s x] tracker_okD(4) [OF s] by (simp add: samples_ok_def)
  then show ?thesis using s x
    by (auto simp: push_sample_def push_bounded_def tracker_ok_def samples_ok_def list_all_iff dest!: in_tl split: if_splits)
qed

lemma record_rssi_ok:
  assumes "tracker_ok s"
  shows "tracker_ok (record_rssi_sample t v s)"
proof (cases "in_byte v")
  case True
  let ?s = "push_sample (t, v) s"
  have s: "tracker_ok ?s" using assms True by (simp add: sample_pushed_ok)
  have late: "tracker_ok (case late_sample (t, v) (call_history ?s) of (h, None) \<Rightarrow> ?s
      | (h, Some c) \<Rightarrow> publish_radio_rssi c (?s\<lparr>call_history := h\<rparr>))"
    using s True late_sample_ok [OF _ tracker_okD(3) [OF s]]
    by (auto split: prod.split option.split intro!: tracker_ok_publish tracker_ok_history)
  have "tracker_ok (publish_radio_rssi (add_reading (t, v) c)
      (?s\<lparr>active_calls := AList.update Uplink (add_reading (t, v) c) (active_calls ?s)\<rparr>))"
    if "map_of (active_calls ?s) Uplink = Some c" for c
    using active_ok_lookup [OF tracker_okD(2) [OF s] that] call_ok_add [of c "(t, v)"] True s
    by (intro tracker_ok_publish tracker_ok_active active_ok_update) (simp_all add: tracker_ok_def)
  then show ?thesis using late assms by (simp add: record_rssi_sample_def Let_def split: option.split)
qed (use assms in \<open>auto simp: record_rssi_sample_def in_byte_def\<close>)

lemma fold_ok: "(\<And>x s. P s \<Longrightarrow> P (f x s)) \<Longrightarrow> P s \<Longrightarrow> P (fold f xs s)"
  by (induction xs arbitrary: s) simp_all

lemma expire_stale_ok: "tracker_ok s \<Longrightarrow> tracker_ok (expire_stale_calls now s)"
  unfolding expire_stale_calls_def by (rule fold_ok) (auto intro: finish_call_ok)

lemma reset_radios_ok: "tracker_ok s \<Longrightarrow> tracker_ok (reset_radios t s)"
  unfolding reset_radios_def by (rule fold_ok) (auto intro: finish_call_ok tracker_ok_radios)

lemma change_radio_ok: "tracker_ok s \<Longrightarrow> tracker_ok (change_radio k f s)"
  by (auto simp: change_radio_def tracker_ok_def split: option.split)

lemma register_radio_ok: "tracker_ok s \<Longrightarrow> tracker_ok (register_radio k ip server t s)"
  by (simp add: register_radio_def tracker_ok_def)

lemma last_service_line_ok: "tracker_ok s \<Longrightarrow> tracker_ok (last_service_line t line s)"
  by (simp add: last_service_line_def change_radio_ok split: option.split)

lemma gps_line_ok: "tracker_ok s \<Longrightarrow> tracker_ok (process_gps_line t line s)"
  by (simp add: process_gps_line_def change_radio_ok last_service_line_ok split: option.split)

lemma service_line_ok: "tracker_ok s \<Longrightarrow> tracker_ok (process_service_line t line s)"
  by (simp add: process_service_line_def change_radio_ok gps_line_ok tracker_ok_radios tracker_okD(1) split: option.split)

lemma host_line_ok:
  assumes "tracker_ok s"
  shows "tracker_ok (process_dvmhost_line t line s)"
proof -
  have "tracker_ok (s\<lparr>observed_ars := x\<rparr>)" for x using assms by (simp add: tracker_ok_def)
  then show ?thesis using assms
    by (simp add: process_dvmhost_line_def Let_def record_rssi_ok reset_radios_ok register_radio_ok service_line_ok split: option.split)
qed

lemma activity_line_ok: "tracker_ok s \<Longrightarrow> tracker_ok (snd (process_activity_line t line s))"
  by (auto simp: process_activity_line_def bindA_def split: option.split sum.split prod.split
      intro!: start_call_ok finish_call_ok)

lemma corrected_ok:
  assumes "history_ok h"
  shows "history_ok (h[i := corrected t (h ! i)])"
proof (cases "i < length h")
  case True
  have "call_ok c \<and> ended_at c \<noteq> None \<and> end_reason c \<noteq> None" if "c \<in> set (h[i := corrected t (h ! i)])" for c
  proof -
    have "c \<in> set h \<or> c = corrected t (h ! i)" using that set_update_subset_insert [of h i] by blast
    moreover have "call_ok (h ! i)" using assms True by (auto simp: history_ok_def list_all_iff)
    ultimately show ?thesis using assms by (auto simp: history_ok_def list_all_iff corrected_def call_ok_def)
  qed
  then show ?thesis using assms by (simp add: history_ok_def list_all_iff)
qed (use assms in \<open>simp add: list_update_beyond\<close>)

lemma end_downlink_line_ok: "tracker_ok s \<Longrightarrow> tracker_ok (end_downlink_line source tg t s)"
  using corrected_ok tracker_okD(3)
  by (auto simp: end_downlink_line_def split: option.split intro!: finish_call_ok tracker_ok_history)

lemma dynamic_line_ok: "tracker_ok s \<Longrightarrow> tracker_ok (dynamic_line t line s)"
  unfolding dynamic_line_def
  by (auto split: option.split intro!: finish_call_ok) (simp_all add: tracker_ok_def)

lemma brandmeister_line_ok: "tracker_ok s \<Longrightarrow> tracker_ok (process_brandmeister_line t line s)"
proof -
  assume s: "tracker_ok s"
  have m: "tracker_ok u \<Longrightarrow> tracker_ok (u\<lparr>bm_state := a, bm_last_change := b\<rparr>)" for u a b by (simp add: tracker_ok_def)
  show ?thesis unfolding process_brandmeister_line_def Let_def using s
    by (auto split: option.split intro!: m dynamic_line_ok end_downlink_line_ok start_call_ok)
qed

lemma brew_status_ok: "tracker_ok s \<Longrightarrow> tracker_ok (snd (set_brew_audio_status now payload s))"
proof -
  assume s: "tracker_ok s"
  have d: "tracker_ok (brew_direction now payload dk u)" if "tracker_ok u" for dk u
    using that by (auto simp: brew_direction_def Let_def split: sum.split intro!: start_call_ok finish_call_ok)
  have "dict_ok (fold (\<lambda>(tg, since). AList.update tg since) xs ([] :: (int, real) pydict))" for xs
    by (rule fold_ok [where P = dict_ok]) auto
  then have "tracker_ok (s\<lparr>dynamic_activity := fold (\<lambda>(tg, since). AList.update tg since) xs []\<rparr>)" for xs
    using s by (simp add: tracker_ok_def)
  then show ?thesis using s
    by (auto simp: set_brew_audio_status_def bindA_def split: sum.split prod.split intro!: d)
qed

lemma subscription_ok: "subscription e = Some (tg, slot) \<Longrightarrow> 0 < tg \<and> slot \<in> {0, 1, 2}"
  by (auto simp: subscription_def split: sum.splits if_splits)

lemma normalize_ok: "list_all (\<lambda>(tg, slot). 0 < tg \<and> slot \<in> {0, 1, 2}) (normalize_subscriptions v)"
proof -
  have "0 < fst x" if "x \<in> set (List.map_filter subscription es)" for x es
    using that subscription_ok [of _ "fst x" "snd x"] by (auto simp: map_filter_def)
  then show ?thesis by (fastforce simp: normalize_subscriptions_def list_all_iff split: pyval.split)
qed

lemma profile_ok: "tracker_ok s \<Longrightarrow> tracker_ok (set_brandmeister_profile now profile s)"
  using normalize_ok by (simp add: tracker_ok_def set_brandmeister_profile_def)

lemma track_ok:
  assumes "tracker_ok s"
  shows "tracker_ok (track e s)"
proof (cases e)
  case (Position radio_id latitude longitude t)
  then show ?thesis using assms by (auto simp: update_position_def tracker_ok_def split: option.split)
qed (use assms in \<open>auto intro: host_line_ok activity_line_ok brandmeister_line_ok brew_status_ok profile_ok expire_stale_ok
    simp: restart_guard_remaining_def Let_def\<close>,
  simp_all add: tracker_ok_def set_brandmeister_profile_error_def set_connection_config_def set_talkgroup_config_def)

interpretation station: machine tracker_ok track
  by unfold_locales (rule track_ok)

text \<open>C8: whatever log lines, status files, profiles and requests the dashboard sees, in whatever order and with
  whatever time stamps, its view of the station stays well formed: one entry per radio; at most one running call
  per direction, not ended, begun no later than the last call activity; at most eighty finished calls, each with
  an end and a reason; and every signal shown for a call is that of its readings, which are byte-sized: their count, the last of them with
  its time, the least and the greatest of them, and their mean to one decimal.\<close>

theorem tracker_reachable_ok: "tracker_ok (fold track es tracker_init)"
  by (rule station.run_inv) (rule tracker_ok_init)

section \<open>Quiet before a restart\<close>

lemma start_call_activity [simp]: "last_call_activity (start_call d source tg t s) = max (last_call_activity s) t"
  by (auto simp: start_call_def Let_def split: option.split)

lemma record_rssi_activity [simp]: "last_call_activity (record_rssi_sample t v s) = last_call_activity s"
  by (simp add: record_rssi_sample_def Let_def push_sample_def split: option.split prod.split)

lemma fold_activity:
  "(\<And>x s. last_call_activity s \<le> last_call_activity (f x s)) \<Longrightarrow> last_call_activity s \<le> last_call_activity (fold f xs s)"
  by (induction xs arbitrary: s) (auto intro: order_trans)

lemma expire_stale_activity: "last_call_activity s \<le> last_call_activity (expire_stale_calls now s)"
  unfolding expire_stale_calls_def by (rule fold_activity) auto

lemma reset_radios_activity: "last_call_activity s \<le> last_call_activity (reset_radios t s)"
  using fold_activity [of "\<lambda>d. finish_call d t None ''host_restart''" "s\<lparr>radios := []\<rparr>"] by (simp add: reset_radios_def)

lemma change_radio_activity [simp]: "last_call_activity (change_radio k f s) = last_call_activity s"
  by (simp add: change_radio_def split: option.split)

lemma host_line_activity: "last_call_activity s \<le> last_call_activity (process_dvmhost_line t line s)"
proof -
  have "last_call_activity (process_service_line t line s) = last_call_activity s"
    by (simp add: process_service_line_def process_gps_line_def last_service_line_def split: option.split)
  then show ?thesis using reset_radios_activity
    by (simp add: process_dvmhost_line_def Let_def register_radio_def split: option.split)
qed

lemma brandmeister_line_activity:
  "last_call_activity (case rsearch DOWNLINK_START_RE line of None \<Rightarrow> s
     | Some m \<Rightarrow> start_call Downlink (digits_int (m ! 0)) (digits_int (m ! 1)) t s)
   \<le> last_call_activity (process_brandmeister_line t line s)"
proof -
  have d: "last_call_activity u \<le> last_call_activity (dynamic_line t line u)" for u
    by (simp add: dynamic_line_def split: option.split)
  have e: "last_call_activity u \<le> last_call_activity (end_downlink_line source tg t u)" for source tg u
    by (simp add: end_downlink_line_def split: option.split)
  have step: "last_call_activity u \<le> last_call_activity (dynamic_line t line
      (case rsearch DOWNLINK_TERMINATOR_RE line of None \<Rightarrow> u
       | Some m \<Rightarrow> end_downlink_line (digits_int (m ! 0)) (digits_int (m ! 1)) t u))" for u
    by (cases "rsearch DOWNLINK_TERMINATOR_RE line") (simp add: d, simp, rule order_trans [OF e d])
  show ?thesis
    unfolding process_brandmeister_line_def Let_def by (cases "bm_line_state line") (use step in simp_all)
qed

lemma brew_status_activity: "last_call_activity s \<le> last_call_activity (snd (set_brew_audio_status now payload s))"
proof -
  have "last_call_activity u \<le> last_call_activity (brew_direction now payload dk u)" for dk u
    by (simp add: brew_direction_def Let_def split: sum.split)
  then have "last_call_activity u \<le> last_call_activity (fold (brew_direction now payload) xs u)" for xs u
    by (rule fold_activity)
  from this [of "s\<lparr>dynamic_activity := d\<rparr>" "[(Uplink, ''activeUplink''), (Downlink, ''activeDownlink'')]" for d]
  show ?thesis by (simp add: set_brew_audio_status_def bindA_def split: sum.split prod.split)
qed

lemma track_activity: "last_call_activity s \<le> last_call_activity (track e s)"
proof (cases e)
  case (BrandmeisterLine t line)
  then show ?thesis using brandmeister_line_activity [where line = line and s = s and t = t] by (auto split: option.splits)
qed (simp_all add: host_line_activity brew_status_activity expire_stale_activity restart_guard_remaining_def Let_def
    process_activity_line_def bindA_def set_brandmeister_profile_def set_brandmeister_profile_error_def
    update_position_def set_connection_config_def set_talkgroup_config_def split: option.split sum.split prod.split)

text \<open>The log lines that show a call beginning or ending, with their time.\<close>

fun call_shown :: "event \<Rightarrow> real option" where
  "call_shown (ActivityLine t line) =
     (if rsearch CALL_START_RE line \<noteq> None \<or>
        (\<exists>m. rsearch2 CALL_END_SECONDS_RE CALL_END_RE line = Some m \<and> (1 < length m \<longrightarrow> (\<exists>x. py_float_str (m ! 1) = Inr x)))
      then Some t else None)"
| "call_shown (BrandmeisterLine t line) = (if rsearch DOWNLINK_START_RE line \<noteq> None then Some t else None)"
| "call_shown _ = None"

lemma call_shown_activity: "call_shown e = Some t \<Longrightarrow> t \<le> last_call_activity (track e s)"
proof (induction e rule: call_shown.induct)
  case (1 t' line)
  then show ?case
    by (auto simp: process_activity_line_def bindA_def split: option.splits if_splits)
next
  case (2 t' line)
  then show ?case using brandmeister_line_activity [where line = line and s = s and t = t'] by (auto split: option.splits if_splits)
qed simp_all

lemma expire_stale_none: "active_calls s = [] \<Longrightarrow> expire_stale_calls now s = s"
  by (simp add: expire_stale_calls_def)

lemma guard_zero:
  assumes "restart_guard_remaining quiet_seconds now s = (0, s')" "0 < quiet_seconds" "0 < now"
  shows "active_calls s = [] \<and> s' = s \<and> (last_call_activity s \<le> 0 \<or> last_call_activity s + of_int quiet_seconds \<le> now)"
proof -
  let ?e = "expire_stale_calls now s"
  have e: "s' = ?e" "active_calls ?e = []" "last_call_activity ?e \<le> 0 \<or>
      max 0 \<lceil>of_int quiet_seconds - max 0 (now - last_call_activity ?e)\<rceil> = 0"
    using assms(1,2) unfolding restart_guard_remaining_def Let_def by (auto split: if_splits)
  have "x \<le> 0" if "max 0 \<lceil>x\<rceil> = 0" for x :: real
  proof -
    have "\<lceil>x\<rceil> \<le> 0" using that by linarith
    then show ?thesis by (simp add: ceiling_le_iff)
  qed
  with e(3) have "last_call_activity ?e \<le> 0 \<or> of_int quiet_seconds - max 0 (now - last_call_activity ?e) \<le> 0" by blast
  then have quiet_now: "last_call_activity ?e \<le> 0 \<or> last_call_activity ?e + of_int quiet_seconds \<le> now"
    using assms(2) by (auto simp: max_def split: if_splits)
  have "active_calls s = []"
  proof (rule ccontr)
    assume "active_calls s \<noteq> []"
    have "now \<le> last_call_activity ?e \<or> (\<forall>(d, c) \<in> set (active_calls s). \<not> of_int CALL_STALE_TIMEOUT_SECONDS < now - begun_at c)"
    proof (rule disjCI)
      assume "\<not> (\<forall>(d, c) \<in> set (active_calls s). \<not> of_int CALL_STALE_TIMEOUT_SECONDS < now - begun_at c)"
      then obtain d c xs ys where x: "active_calls s = xs @ (d, c) # ys" "of_int CALL_STALE_TIMEOUT_SECONDS < now - begun_at c"
        by (auto dest!: split_list)
      let ?f = "\<lambda>(d, c) s. if of_int CALL_STALE_TIMEOUT_SECONDS < now - begun_at c then finish_call d now None ''timeout'' s else s"
      have mono: "last_call_activity u \<le> last_call_activity (fold ?f zs u)" for zs u by (rule fold_activity) auto
      have "now \<le> last_call_activity (?f (d, c) (fold ?f xs s))" using x(2) by simp
      also have "\<dots> \<le> last_call_activity (fold ?f ys (?f (d, c) (fold ?f xs s)))" by (rule mono)
      finally show "now \<le> last_call_activity ?e" by (simp add: expire_stale_calls_def x(1))
    qed
    moreover have "?e = s" if "\<forall>(d, c) \<in> set (active_calls s). \<not> of_int CALL_STALE_TIMEOUT_SECONDS < now - begun_at c"
    proof -
      have "fold (\<lambda>(d, c) s. if of_int CALL_STALE_TIMEOUT_SECONDS < now - begun_at c then finish_call d now None ''timeout'' s else s) xs u = u"
        if "\<forall>(d, c) \<in> set xs. \<not> of_int CALL_STALE_TIMEOUT_SECONDS < now - begun_at c" for xs u
        using that by (induction xs) auto
      then show ?thesis using that by (simp add: expire_stale_calls_def)
    qed
    ultimately show False using quiet_now assms(2,3) e(2) \<open>active_calls s \<noteq> []\<close> by fastforce
  qed
  then show ?thesis using e(1) quiet_now expire_stale_none by simp
qed

lemma fold_track_activity: "last_call_activity s \<le> last_call_activity (fold track es s)"
  by (rule fold_activity) (rule track_activity)

lemma restart_after_quiet:
  assumes "e \<in> set es" "call_shown e = Some t" "0 < t" "0 < quiet_seconds" "0 < now"
    and "restart_guard_remaining quiet_seconds now (fold track es s) = (0, s')"
  shows "active_calls (fold track es s) = [] \<and> t + of_int quiet_seconds \<le> now"
proof -
  obtain xs ys where es: "es = xs @ e # ys" using assms(1) by (auto dest!: split_list)
  have "t \<le> last_call_activity (track e (fold track xs s))" by (rule call_shown_activity) (rule assms(2))
  also have "\<dots> \<le> last_call_activity (fold track es s)" using fold_track_activity by (simp add: es)
  finally show ?thesis using guard_zero [OF assms(6,4,5)] assms(3) by auto
qed

text \<open>A call that began and ended, for the witnesses.\<close>

definition demo_calls :: "event list" where
  "demo_calls = [ActivityLine 1000 ''P25 RF RF voice transmission from 9 to TG 7'',
     ActivityLine 1003 ''P25 RF RF end of transmission'']"

lemma demo_lines:
  "rsearch CALL_START_RE ''P25 RF RF voice transmission from 9 to TG 7'' = Some [''RF'', ''9'', ''7'']"
  "rsearch CALL_START_RE ''P25 RF RF end of transmission'' = None"
  "rsearch2 CALL_END_SECONDS_RE CALL_END_RE ''P25 RF RF end of transmission'' = Some [''RF'']"
  "digits_int ''9'' = 9" "digits_int ''7'' = 7"
  by code_simp+

lemma demo_guard: "restart_guard_remaining 15 1018 (fold track demo_calls tracker_init) = (0, fold track demo_calls tracker_init)"
  by (simp add: demo_calls_def tracker_init_def process_activity_line_def demo_lines line_direction_def bindA_def
      start_call_def finish_call_def new_call_def set_call_rssi_def buffered_rssi_def push_history_def
      publish_radio_rssi_def restart_guard_remaining_def expire_stale_calls_def CALL_HISTORY_LIMIT_def Let_def)

end
