(* ===== verification/Dash_Text.thy ===== *)
theory Dash_Text
  imports Static_Sync
begin

text \<open>
  How the dashboard edits configuration files as text (\<^verbatim>\<open>SettingsManager\<close> in \<^verbatim>\<open>src/dashboard/app.py\<close>): the lines
  with their ends (\<^verbatim>\<open>splitlines(keepends=True)\<close>), the bounds of a section, and the replacement or insertion of
  one line. What the maintenance scripts read afterwards (\<open>section_scalar\<close>) is what was written.
\<close>

section \<open>Lines with their ends\<close>

function keep_from :: "string \<Rightarrow> string \<Rightarrow> string list" where
  "keep_from acc [] = (if acc = [] then [] else [rev acc])"
| "keep_from acc (c # cs) =
     (if is_linebreak c
      then if code c = 13 \<and> cs \<noteq> [] \<and> code (hd cs) = 10
        then rev (hd cs # c # acc) # keep_from [] (tl cs)
        else rev (c # acc) # keep_from [] cs
      else keep_from (c # acc) cs)"
  by pat_completeness auto
termination by (relation "measure (\<lambda>(acc, s). length s)") auto

definition keep_lines :: "string \<Rightarrow> string list" where
  "keep_lines s = keep_from [] s"

definition rstrip_crlf :: "string \<Rightarrow> string" where
  "rstrip_crlf l = rstrip_by (\<lambda>c. c = CR \<or> c = LF) l"

section \<open>Sections and keys\<close>

definition section_bounds :: "string list \<Rightarrow> string \<Rightarrow> py_error + (nat \<times> nat)" where
  "section_bounds lines sect =
     (let start = length (takeWhile (\<lambda>l. rstrip_crlf l \<noteq> sect @ '':'') lines) in
      if start = length lines then Inl (ValueError (''Missing YAML section: '' @ sect))
      else Inr (start, Suc start + length (takeWhile (\<lambda>l. \<not> section_end l) (drop (Suc start) lines))))"

text \<open>\<^verbatim>\<open>re.match(rf"^  {re.escape(key)}\s*:", line)\<close>\<close>

definition key_line :: "string \<Rightarrow> string \<Rightarrow> bool" where
  "key_line key l \<longleftrightarrow> prefix (''  '' @ key) l \<and> prefix '':'' (dropWhile is_space (drop (2 + length key) l))"

text \<open>The first index from \<open>a\<close> to below \<open>b\<close> whose line has the property.\<close>

definition first_in :: "(string \<Rightarrow> bool) \<Rightarrow> nat \<Rightarrow> nat \<Rightarrow> string list \<Rightarrow> nat option" where
  "first_in p a b lines =
     (let k = a + length (takeWhile (\<lambda>l. \<not> p l) (take (b - a) (drop a lines))) in if k < b then Some k else None)"

definition line_ending :: "string \<Rightarrow> string" where
  "line_ending l = (if suffix [CR, LF] l then [CR, LF] else [LF])"

definition text_ending :: "string \<Rightarrow> string" where
  "text_ending txt = (if sublist [CR, LF] txt then [CR, LF] else [LF])"

definition scalar_line :: "string \<Rightarrow> string \<Rightarrow> string \<Rightarrow> string" where
  "scalar_line key v ending = ''  '' @ key @ '': '' @ v @ ending"

definition replace_section_scalar :: "string \<Rightarrow> string \<Rightarrow> string \<Rightarrow> string \<Rightarrow> py_error + string" where
  "replace_section_scalar txt sect key v = (let lines = keep_lines txt in
     bindE (section_bounds lines sect) (\<lambda>(start, stop).
       case first_in (key_line key) (Suc start) stop lines of
         Some i \<Rightarrow> Inr (concat (lines[i := scalar_line key v (line_ending (lines ! i))]))
       | None \<Rightarrow> Inl (ValueError (''Missing YAML field: '' @ sect @ ''.'' @ key))))"

definition upsert_section_scalar :: "string \<Rightarrow> string \<Rightarrow> string \<Rightarrow> string \<Rightarrow> py_error + string" where
  "upsert_section_scalar txt sect key v = (let lines = keep_lines txt in
     bindE (section_bounds lines sect) (\<lambda>(start, stop).
       case first_in (key_line key) (Suc start) stop lines of
         Some i \<Rightarrow> Inr (concat (lines[i := scalar_line key v (line_ending (lines ! i))]))
       | None \<Rightarrow> Inr (concat (take stop lines @ scalar_line key v (text_ending txt) # drop stop lines))))"

definition mapping_lines :: "string \<Rightarrow> (int \<times> int) list \<Rightarrow> string list" where
  "mapping_lines newline ms = (''  talkgroupMappings:'' @ newline) #
     concat (map (\<lambda>(p25, bm). [''    - p25: '' @ show_int p25 @ newline, ''      brandmeister: '' @ show_int bm @ newline]) ms)"

definition block_line :: "string \<Rightarrow> bool" where
  "block_line l \<longleftrightarrow> strip l \<noteq> [] \<and> 2 < length (takeWhile (\<lambda>c. c = CHR '' '') l)"

definition replace_mapping_block :: "string \<Rightarrow> (int \<times> int) list \<Rightarrow> py_error + string" where
  "replace_mapping_block txt ms = (let lines = keep_lines txt in
     bindE (section_bounds lines ''routing'') (\<lambda>(start, stop).
       case first_in (key_line ''talkgroupMappings'') (Suc start) stop lines of
         None \<Rightarrow> Inl (ValueError ''Missing YAML field: routing.talkgroupMappings'')
       | Some k \<Rightarrow>
           (let block_end = Suc k + length (takeWhile block_line (take (stop - Suc k) (drop (Suc k) lines)))
            in Inr (concat (take k lines @ mapping_lines (text_ending txt) ms @ drop block_end lines)))))"

definition indented_key_line :: "string \<Rightarrow> string \<Rightarrow> bool" where
  "indented_key_line key l \<longleftrightarrow>
     prefix (''      '' @ key) l \<and> prefix '':'' (dropWhile is_space (drop (6 + length key) l))"

definition replace_indented_scalar :: "string \<Rightarrow> string \<Rightarrow> int \<Rightarrow> py_error + string" where
  "replace_indented_scalar txt key v = (let lines = keep_lines txt in
     case filter (\<lambda>i. indented_key_line key (lines ! i)) [0..<length lines] of
       [i] \<Rightarrow> Inr (concat (lines[i := ''      '' @ key @ '': '' @ show_int v @ line_ending (lines ! i)]))
     | _ \<Rightarrow> Inl (ValueError (''Expected one YAML field named '' @ key)))"

text \<open>\<^verbatim>\<open>f"{float(value):.4f}".rstrip("0").rstrip(".")\<close> and \<^verbatim>\<open>.0\<close> when no point is left.\<close>

definition show_fixed4 :: "real \<Rightarrow> string" where
  "show_fixed4 x =
     (let m = nat (py_round (\<bar>x\<bar> * 10000))
      in (if x < 0 then ''-'' else []) @ show_nat (m div 10000) @ ''.'' @ zero_fill 4 (show_nat (m mod 10000)))"

definition yaml_number :: "real \<Rightarrow> string" where
  "yaml_number x = (let rendered = rstrip_by (\<lambda>c. c = CHR ''.'') (rstrip_by (\<lambda>c. c = CHR ''0'') (show_fixed4 x)) in
     if CHR ''.'' \<in> set rendered then rendered else rendered @ ''.0'')"

fun yaml_scalar :: "pyval \<Rightarrow> py_error + string" where
  "yaml_scalar (PBool b) = Inr (if b then ''true'' else ''false'')"
| "yaml_scalar (PInt i) = Inr (yaml_number (of_int i))"
| "yaml_scalar (PFloat x) = Inr (yaml_number x)"
| "yaml_scalar v = Inl (TypeError ''Unsupported YAML scalar'')"

definition GATEWAY_SECTION :: string where "GATEWAY_SECTION = ''DMR Network 1''"

definition password_line :: "string \<Rightarrow> bool" where
  "password_line l \<longleftrightarrow> starts_with True ''Password'' l \<and> prefix ''='' (dropWhile is_space (drop 8 l))"

text \<open>\<open>ini\<close> gives the sections that \<^verbatim>\<open>configparser\<close> finds.\<close>

definition write_ini_password :: "(string \<Rightarrow> py_error + string list) \<Rightarrow> string \<Rightarrow> string \<Rightarrow> py_error + string" where
  "write_ini_password ini txt secret =
     bindE (ini txt) (\<lambda>sections.
     let lines = keep_lines txt; head = ''['' @ GATEWAY_SECTION @ '']'';
         start = length (takeWhile (\<lambda>l. strip l \<noteq> head) lines);
         stop = Suc start + length (takeWhile (\<lambda>l. \<not> prefix ''['' (dropWhile is_space l)) (drop (Suc start) lines))
     in if GATEWAY_SECTION \<notin> set sections \<or> start = length lines then Inl (ValueError (''Missing '' @ head))
        else case first_in password_line (Suc start) stop lines of
            Some i \<Rightarrow> Inr (concat (lines[i := ''Password='' @ secret @ line_ending (lines ! i)]))
          | None \<Rightarrow> Inl (ValueError (''Missing Password in '' @ head)))"

section \<open>Lines and text\<close>

definition chop :: "string \<Rightarrow> string" where
  "chop l = takeWhile (\<lambda>c. \<not> is_linebreak c) l"

definition a_line :: "string \<Rightarrow> string \<Rightarrow> bool" where
  "a_line b t \<longleftrightarrow> list_all (\<lambda>c. \<not> is_linebreak c) b \<and> b @ t \<noteq> [] \<and>
     (t = [] \<or> t = [CR, LF] \<or> (\<exists>c. t = [c] \<and> is_linebreak c))"

fun lines_ok :: "string list \<Rightarrow> bool" where
  "lines_ok [] = True"
| "lines_ok (l # ls) = ((\<exists>b t. l = b @ t \<and> a_line b t \<and>
     (ls \<noteq> [] \<longrightarrow> t \<noteq> [] \<and> \<not> (t = [CR] \<and> hd (hd ls) = LF))) \<and> lines_ok ls)"

lemma lines_ok_ConsI:
  "a_line b t \<Longrightarrow> lines_ok ls \<Longrightarrow> (ls \<noteq> [] \<Longrightarrow> t \<noteq> [] \<and> \<not> (t = [CR] \<and> hd (hd ls) = LF)) \<Longrightarrow> lines_ok ((b @ t) # ls)"
  unfolding lines_ok.simps by blast

lemma break_codes [simp]: "code CR = 13" "code LF = 10" "is_linebreak CR" "is_linebreak LF"
  by (simp_all add: code_def is_linebreak_def)

lemma code_CR: "code c = 13 \<Longrightarrow> c = CR" and code_LF: "code c = 10 \<Longrightarrow> c = LF"
proof -
  have c: "char_of (code c) = c" by (simp add: code_def)
  have n: "char_of (13 :: nat) = CR" "char_of (10 :: nat) = LF" by code_simp+
  show "code c = 13 \<Longrightarrow> c = CR" "code c = 10 \<Longrightarrow> c = LF" using c n by metis+
qed

lemma keep_from_ok:
  "list_all (\<lambda>c. \<not> is_linebreak c) acc \<Longrightarrow>
   lines_ok (keep_from acc s) \<and> concat (keep_from acc s) = rev acc @ s \<and> (\<forall>l \<in> set (keep_from acc s). l \<noteq> [])"
proof (induction acc s rule: keep_from.induct)
  case (1 acc)
  then have "a_line (rev acc) []" if "acc \<noteq> []" using that by (simp add: a_line_def)
  then show ?case by (auto intro: exI [of _ "rev acc"])
next
  case (2 acc c cs)
  have free: "list_all (\<lambda>c. \<not> is_linebreak c) (rev acc)" using 2(4) by simp
  show ?case
  proof (cases "is_linebreak c")
    case False
    then show ?thesis using 2 by simp
  next
    case br: True
    show ?thesis
    proof (cases "code c = 13 \<and> cs \<noteq> [] \<and> code (hd cs) = 10")
      case True
      have a: "a_line (rev acc) [CR, LF]" using free by (simp add: a_line_def)
      have c: "c = CR" "cs = LF # tl cs" using True code_CR [of c] code_LF [of "hd cs"] by (auto simp: neq_Nil_conv)
      have e: "keep_from acc (c # cs) = (rev acc @ [CR, LF]) # keep_from [] (tl cs)"
        using True br c by (subst keep_from.simps) (metis (no_types, lifting) append.simps c(1) code_LF rev.simps append_assoc)
      have IH: "lines_ok (keep_from [] (tl cs))" "concat (keep_from [] (tl cs)) = tl cs" "\<forall>l \<in> set (keep_from [] (tl cs)). l \<noteq> []"
        using 2(1) [OF br True] by simp_all
      have "lines_ok ((rev acc @ [CR, LF]) # keep_from [] (tl cs))"
        by (rule lines_ok_ConsI [OF a IH(1)]) simp
      then show ?thesis unfolding e using IH c by auto
    next
      case False
      let ?ls = "keep_from [] cs"
      have IH: "lines_ok ?ls" "concat ?ls = cs" "\<forall>l \<in> set ?ls. l \<noteq> []" using 2(2) [OF br False] by simp_all
      have a: "a_line (rev acc) [c]" using free br by (simp add: a_line_def)
      have "\<not> ([c] = [CR] \<and> hd (hd ?ls) = LF)" if "?ls \<noteq> []"
      proof -
        have "hd ?ls \<noteq> []" using IH(3) that by (meson hd_in_set)
        then have "hd (hd ?ls) = hd cs" "cs \<noteq> []" using IH(2) that by (metis concat.simps(2) hd_append2 list.collapse, metis Nil_is_append_conv concat.simps(2) list.collapse)
        then show ?thesis using False by auto
      qed
      then have "lines_ok ((rev acc @ [c]) # ?ls)" by (intro lines_ok_ConsI [OF a IH(1)]) simp
      moreover have "keep_from acc (c # cs) = (rev acc @ [c]) # ?ls"
        unfolding keep_from.simps using False br by (simp only: if_True if_False rev.simps)
      ultimately show ?thesis using IH by auto
    qed
  qed
qed

lemma keep_lines_ok: "lines_ok (keep_lines s)" "concat (keep_lines s) = s"
  using keep_from_ok [of "[]" s] by (simp_all add: keep_lines_def)

lemma splitlines_from_body:
  "list_all (\<lambda>c. \<not> is_linebreak c) b \<Longrightarrow> splitlines_from acc (b @ r) = splitlines_from (rev b @ acc) r"
  by (induction b arbitrary: acc) simp_all

lemma splitlines_a_line:
  assumes "a_line b t" "t = [] \<Longrightarrow> r = []" "t = [CR] \<Longrightarrow> r \<noteq> [] \<Longrightarrow> hd r \<noteq> LF"
  shows "splitlines (b @ t @ r) = b # splitlines r"
proof -
  have b: "splitlines (b @ t @ r) = splitlines_from (rev b) (t @ r)"
    using assms(1) splitlines_from_body [of b "[]" "t @ r"] by (simp add: splitlines_def a_line_def)
  consider "t = []" | "t = [CR, LF]" | c where "t = [c]" "is_linebreak c" using assms(1) by (auto simp: a_line_def)
  then show ?thesis
  proof cases
    case 1
    then show ?thesis using assms b by (simp add: a_line_def splitlines_def)
  next
    case 2
    then show ?thesis using b by (simp add: splitlines_def)
  next
    case (3 c)
    then have "\<not> (code c = 13 \<and> r \<noteq> [] \<and> code (hd r) = 10)" using assms(3) code_CR code_LF by blast
    then show ?thesis using b 3 by (auto simp: splitlines_def)
  qed
qed

lemma chop_line: "a_line b t \<Longrightarrow> chop (b @ t) = b"
proof -
  assume a: "a_line b t"
  then have "takeWhile (\<lambda>c. \<not> is_linebreak c) t = []" by (auto simp: a_line_def)
  moreover have "\<And>c. c \<in> set b \<Longrightarrow> \<not> is_linebreak c" using a by (auto simp: a_line_def list_all_iff)
  ultimately show ?thesis by (simp add: chop_def takeWhile_append2)
qed

lemma lines_ok_nonempty: "lines_ok ls \<Longrightarrow> l \<in> set ls \<Longrightarrow> l \<noteq> []"
  by (induction ls) (auto simp: a_line_def)

lemma splitlines_concat: "lines_ok ls \<Longrightarrow> splitlines (concat ls) = map chop ls"
proof (induction ls)
  case (Cons l ls)
  then obtain b t where l: "l = b @ t" "a_line b t" "ls \<noteq> [] \<longrightarrow> t \<noteq> [] \<and> \<not> (t = [CR] \<and> hd (hd ls) = LF)" by auto
  have h: "hd (concat ls) = hd (hd ls)" if "concat ls \<noteq> []"
  proof -
    have "ls \<noteq> []" using that by auto
    then have "hd ls \<noteq> []" using Cons(2) lines_ok_nonempty [of ls "hd ls"] by simp
    then show ?thesis using \<open>ls \<noteq> []\<close> by (metis concat.simps(2) hd_append2 list.collapse)
  qed
  have "splitlines (b @ t @ concat ls) = b # splitlines (concat ls)"
    by (rule splitlines_a_line) (use l h in \<open>auto\<close>)
  then show ?case using Cons l chop_line by simp
qed (simp add: splitlines_def)

section \<open>A section within its lines\<close>

definition ended :: "string \<Rightarrow> bool" where
  "ended l \<longleftrightarrow> l \<noteq> [] \<and> is_linebreak (last l)"

lemma break_space: "is_linebreak c \<Longrightarrow> is_space c"
  by (auto simp: is_linebreak_def is_space_def)

lemma strip_by_append: "list_all p t \<Longrightarrow> strip_by p (b @ t) = strip_by p b"
proof -
  assume t: "list_all p t"
  have r: "rstrip_by p (x @ t) = rstrip_by p x" for x
    using t by (induction t rule: rev_induct) (simp_all add: rstrip_by_snoc flip: append_assoc)
  show ?thesis
  proof (cases "list_all p b")
    case True
    then have "dropWhile p (b @ t) = []" "dropWhile p b = []" using t by (auto simp: list_all_iff)
    then show ?thesis by (simp only: strip_by_def lstrip_by_def)
  next
    case False
    then obtain x where "x \<in> set b" "\<not> p x" by (auto simp: list_all_iff)
    then have "dropWhile p (b @ t) = dropWhile p b @ t" by (rule dropWhile_append1)
    then show ?thesis using r by (simp add: strip_by_def lstrip_by_def)
  qed
qed

lemma a_line_space: "a_line b t \<Longrightarrow> list_all is_space t"
  by (auto simp: a_line_def break_space)

lemma strip_chop: "a_line b t \<Longrightarrow> strip (b @ t) = strip b"
  by (rule strip_by_append) (rule a_line_space)

lemma section_end_chop: "a_line b t \<Longrightarrow> section_end (b @ t) = section_end b"
proof (cases "b = []")
  case True
  moreover assume "a_line b t"
  ultimately show ?thesis using strip_chop [of b t] by (simp add: section_end_def strip_by_def lstrip_by_def rstrip_by_def)
qed (simp add: section_end_def strip_chop indented_def)

lemma line_parts:
  assumes "lines_ok ls" "l \<in> set ls"
  obtains b t where "l = b @ t" "a_line b t"
  using assms by (induction ls) auto

lemma section_end_lines: "lines_ok ls \<Longrightarrow> l \<in> set ls \<Longrightarrow> section_end (chop l) = section_end l"
  by (erule (1) line_parts) (simp add: chop_line section_end_chop)

text \<open>An unindented line that ends in a colon has nothing but its line end after the colon.\<close>

definition clean_head :: "string \<Rightarrow> bool" where
  "clean_head l \<longleftrightarrow> (\<not> indented (chop l) \<and> suffix '':'' (strip (chop l)) \<longrightarrow> rstrip_crlf l = strip (chop l))"

definition is_head :: "string \<Rightarrow> string \<Rightarrow> bool" where
  "is_head sect l \<longleftrightarrow> rstrip_crlf l = sect @ '':''"

definition name_ok :: "string \<Rightarrow> bool" where
  "name_ok k \<longleftrightarrow> k \<noteq> [] \<and> list_all (\<lambda>c. \<not> is_space c \<and> c \<noteq> CHR '':'' \<and> c \<noteq> CHR ''#'') k"

lemma name_strip:
  assumes "name_ok sect" shows "strip (sect @ '':'') = sect @ '':''" "\<not> indented (sect @ '':'')" "section_end (sect @ '':'')"
proof -
  have h: "hd (sect @ '':'') = hd sect" "hd sect \<in> set sect" using assms by (auto simp: name_ok_def)
  then have hs: "\<not> is_space (hd (sect @ '':''))" "hd (sect @ '':'') \<noteq> CHR ''#''" using assms by (auto simp: name_ok_def list_all_iff)
  have "\<not> is_space CHR '':''" by code_simp
  then show st: "strip (sect @ '':'') = sect @ '':''" using hs by (intro strip_by_id) simp
  show i: "\<not> indented (sect @ '':'')" using hs by (simp add: indented_def)
  show "section_end (sect @ '':'')" unfolding section_end_def st using i hs by (cases sect) (auto simp: indented_def)
qed

lemma rstrip_crlf_line:
  assumes "a_line b t" "rstrip_crlf (b @ t) = x @ '':''"
  shows "b = x @ '':''"
proof -
  consider "t = []" | "t = [CR, LF]" | c where "t = [c]" "is_linebreak c" using assms(1) by (auto simp: a_line_def)
  then have "rstrip_crlf b = x @ '':'' \<or> rstrip_crlf (b @ t) = b @ t \<and> t \<noteq> []"
  proof cases
    case (3 c)
    then show ?thesis using assms(2) by (cases "c = CR \<or> c = LF") (auto simp: rstrip_crlf_def rstrip_by_snoc rstrip_by_def)
  next
    case 2
    then have "rstrip_crlf (b @ t) = rstrip_crlf ((b @ [CR]) @ [LF])" by simp
    also have "\<dots> = rstrip_crlf b" unfolding rstrip_crlf_def by (simp only: rstrip_by_snoc simp_thms)
    finally show ?thesis using assms(2) by simp
  qed (use assms in simp)
  moreover have False if "rstrip_crlf (b @ t) = b @ t" "t \<noteq> []"
  proof -
    have "last t = CHR '':''" using that assms(2) by (metis last_appendR last_snoc)
    moreover have "\<not> is_linebreak CHR '':''" by code_simp
    ultimately show False using assms(1) that by (auto simp: a_line_def)
  qed
  ultimately have "rstrip_crlf b = x @ '':''" by blast
  moreover have "rstrip_crlf b = b"
    unfolding rstrip_crlf_def using assms(1) by (intro rstrip_by_id) (metis a_line_def break_codes(3,4) last_in_set list_all_iff)
  ultimately show ?thesis by simp
qed

lemma is_head_iff:
  assumes "name_ok sect" "a_line b t" "clean_head (b @ t)"
  shows "is_head sect (b @ t) \<longleftrightarrow> section_head sect b"
proof
  assume "is_head sect (b @ t)"
  then have "b = sect @ '':''" using rstrip_crlf_line [OF assms(2)] by (simp add: is_head_def)
  then show "section_head sect b" using name_strip [OF assms(1)] by (simp add: section_head_def)
next
  assume h: "section_head sect b"
  then have "suffix '':'' (strip b)" by (simp add: section_head_def suffix_def)
  then show "is_head sect (b @ t)"
    using h assms(3) chop_line [OF assms(2)] by (simp add: clean_head_def is_head_def section_head_def)
qed

text \<open>\<open>framed\<close>: the lines of a section between the lines before it and the rest of the text.\<close>

definition framed :: "string \<Rightarrow> string list \<Rightarrow> string \<Rightarrow> string list \<Rightarrow> string list \<Rightarrow> bool" where
  "framed sect before head body rest \<longleftrightarrow> list_all (\<lambda>l. \<not> is_head sect l) before \<and> is_head sect head \<and>
     list_all (\<lambda>l. \<not> section_end l) body \<and> (rest = [] \<or> section_end (hd rest))"

lemma takeWhile_stops: "list_all p xs \<Longrightarrow> ys = [] \<or> \<not> p (hd ys) \<Longrightarrow> takeWhile p (xs @ ys) = xs"
  by (induction xs) (cases ys; auto)+

lemma section_bounds_framed:
  "framed sect before head body rest \<Longrightarrow>
   section_bounds (before @ head # body @ rest) sect = Inr (length before, Suc (length before) + length body)"
proof -
  assume f: "framed sect before head body rest"
  have "takeWhile (\<lambda>l. rstrip_crlf l \<noteq> sect @ '':'') (before @ head # body @ rest) = before"
    using f by (intro takeWhile_stops) (auto simp: framed_def is_head_def)
  moreover have "takeWhile (\<lambda>l. \<not> section_end l) (body @ rest) = body"
    using f by (intro takeWhile_stops) (auto simp: framed_def)
  ultimately show ?thesis by (simp add: section_bounds_def Let_def)
qed

lemma section_bounds_split:
  assumes "section_bounds lines sect = Inr (start, stop)"
  obtains before head body rest where "lines = before @ head # body @ rest" "framed sect before head body rest"
    "start = length before" "stop = Suc (length before) + length body"
proof -
  let ?p = "\<lambda>l. rstrip_crlf l \<noteq> sect @ '':''" and ?q = "\<lambda>l. \<not> section_end l"
  define before where "before = takeWhile ?p lines"
  have n: "length before \<noteq> length lines" using assms by (auto simp: section_bounds_def Let_def before_def split: if_splits)
  then have "dropWhile ?p lines \<noteq> []" by (metis append_Nil2 before_def takeWhile_dropWhile_id)
  then obtain head more where m: "dropWhile ?p lines = head # more" by (cases "dropWhile ?p lines") auto
  have lines: "lines = before @ head # more" using takeWhile_dropWhile_id [of ?p lines] m before_def by simp
  let ?body = "takeWhile ?q more" and ?rest = "dropWhile ?q more"
  have hd: "is_head sect head" using hd_dropWhile [of ?p lines] m by (simp add: is_head_def)
  have "list_all (\<lambda>l. \<not> is_head sect l) before" by (auto simp: before_def list_all_iff is_head_def dest: set_takeWhileD)
  then have f: "framed sect before head ?body ?rest"
    using hd hd_dropWhile [of ?q more] by (auto simp: framed_def list_all_iff dest: set_takeWhileD)
  have l: "lines = before @ head # ?body @ ?rest" using lines by simp
  have "start = length before \<and> stop = Suc (length before) + length ?body"
    using assms section_bounds_framed [OF f] l by simp
  with l f show ?thesis using that by blast
qed

lemma is_head_chop:
  assumes "lines_ok ls" "l \<in> set ls" "list_all clean_head ls" "name_ok sect"
  shows "section_head sect (chop l) = is_head sect l"
proof -
  obtain b t where l: "l = b @ t" "a_line b t" using assms(1,2) by (rule line_parts)
  then show ?thesis using is_head_iff [of sect b t] assms chop_line by (auto simp: list_all_iff)
qed

lemma map_drop_take:
  "dropWhile p (map f xs) = map f (dropWhile (p \<circ> f) xs)" "takeWhile p (map f xs) = map f (takeWhile (p \<circ> f) xs)"
  by (simp_all add: dropWhile_map takeWhile_map)

text \<open>What the maintenance scripts take for the lines of the section.\<close>

lemma section_lines_framed:
  assumes "lines_ok ls" "ls = before @ head # body @ rest" "framed sect before head body rest" "list_all clean_head ls" "name_ok sect"
  shows "section_lines (concat ls) sect = Inr (map chop body)"
proof -
  have h: "section_head sect (chop l) = is_head sect l" "section_end (chop l) = section_end l" if "l \<in> set ls" for l
    using is_head_chop [OF assms(1) that assms(4,5)] section_end_lines [OF assms(1) that] by simp_all
  have "dropWhile (\<lambda>l. \<not> section_head sect l) (map chop ls) = map chop (dropWhile (\<lambda>l. \<not> is_head sect l) ls)"
    unfolding map_drop_take comp_def using h(1) by (metis (mono_tags, lifting) dropWhile_cong)
  also have "dropWhile (\<lambda>l. \<not> is_head sect l) ls = head # body @ rest"
    using assms(2,3) by (subst assms(2), subst dropWhile_append2) (auto simp: framed_def list_all_iff)
  finally have d: "dropWhile (\<lambda>l. \<not> section_head sect l) (map chop ls) = chop head # map chop (body @ rest)" by simp
  have "takeWhile (\<lambda>l. \<not> section_end l) (map chop (body @ rest)) = map chop (takeWhile (\<lambda>l. \<not> section_end l) (body @ rest))"
    unfolding map_drop_take comp_def using h(2) assms(2) by (intro arg_cong [where f = "map chop"] takeWhile_cong) auto
  also have "takeWhile (\<lambda>l. \<not> section_end l) (body @ rest) = body"
    using assms(3) by (intro takeWhile_stops) (auto simp: framed_def)
  finally show ?thesis using d by (simp add: section_lines_def splitlines_concat [OF assms(1)])
qed

text \<open>An edit inside one section leaves the lines of every other section as they were.\<close>

lemma section_head_end: "name_ok sect \<Longrightarrow> section_head sect l \<Longrightarrow> section_end l"
  by (cases sect) (auto simp: section_head_def section_end_def name_ok_def)

lemma chop_head:
  assumes "is_head sect l" "a_line b t" "l = b @ t"
  shows "chop l = sect @ '':''"
proof -
  have "b = sect @ '':''" by (rule rstrip_crlf_line [OF assms(2)]) (use assms in \<open>simp add: is_head_def\<close>)
  then show ?thesis using assms(3) chop_line [OF assms(2)] by simp
qed

lemma select_other:
  assumes "\<And>l. p l \<Longrightarrow> q l" "\<not> p h" "q h" "list_all (\<lambda>l. \<not> q l) body" "list_all (\<lambda>l. \<not> q l) body'"
  shows "(case dropWhile (\<lambda>l. \<not> p l) (before @ h # body @ rest) of [] \<Rightarrow> e | _ # r \<Rightarrow> f (takeWhile (\<lambda>l. \<not> q l) r)) =
    (case dropWhile (\<lambda>l. \<not> p l) (before @ h # body' @ rest) of [] \<Rightarrow> e | _ # r \<Rightarrow> f (takeWhile (\<lambda>l. \<not> q l) r))"
proof (cases "\<exists>l \<in> set before. p l")
  case True
  then obtain l where l: "l \<in> set before" "p l" by blast
  have d: "dropWhile (\<lambda>l. \<not> p l) (before @ xs) = dropWhile (\<lambda>l. \<not> p l) before @ xs" for xs
    using l by (auto intro: dropWhile_append1)
  obtain y ys where y: "dropWhile (\<lambda>l. \<not> p l) before = y # ys"
    using l by (cases "dropWhile (\<lambda>l. \<not> p l) before") (auto simp: dropWhile_eq_Nil_conv)
  have t: "takeWhile (\<lambda>l. \<not> q l) (ys @ h # xs) = takeWhile (\<lambda>l. \<not> q l) ys" for xs
    using assms(3) by (induction ys) auto
  show ?thesis unfolding d y by (simp add: t)
next
  case False
  have "dropWhile (\<lambda>l. \<not> p l) (before @ h # xs @ rest) = dropWhile (\<lambda>l. \<not> p l) rest" if "list_all (\<lambda>l. \<not> q l) xs" for xs
  proof -
    have "\<not> p l" if "l \<in> set (before @ h # xs)" for l
      using that \<open>list_all (\<lambda>l. \<not> q l) xs\<close> False assms(1,2) by (auto simp: list_all_iff)
    then have "dropWhile (\<lambda>l. \<not> p l) ((before @ h # xs) @ rest) = dropWhile (\<lambda>l. \<not> p l) rest" by (rule dropWhile_append2)
    then show ?thesis by simp
  qed
  then show ?thesis using assms(4,5) by simp
qed

lemma section_lines_other:
  assumes "lines_ok (before @ head # body @ rest)" "lines_ok (before @ head # body' @ rest)" "is_head sect head"
    "list_all (\<lambda>l. \<not> section_end l) body" "list_all (\<lambda>l. \<not> section_end l) body'" "name_ok sect" "name_ok s2" "s2 \<noteq> sect"
  shows "section_lines (concat (before @ head # body' @ rest)) s2 = section_lines (concat (before @ head # body @ rest)) s2"
proof -
  obtain b t where bt: "head = b @ t" "a_line b t" using line_parts [OF assms(1), of head] by auto
  have h: "chop head = sect @ '':''" using chop_head [OF assms(3) bt(2,1)] .
  have e: "list_all (\<lambda>l. \<not> section_end l) (map chop body)" "list_all (\<lambda>l. \<not> section_end l) (map chop body')"
    using assms(4,5) section_end_lines [OF assms(1)] section_end_lines [OF assms(2)] by (auto simp: list_all_iff)
  have "\<not> section_head s2 (chop head)" "section_end (chop head)"
    using name_strip [OF assms(6)] assms(8) h by (simp_all add: section_head_def)
  note sel = select_other [where p = "section_head s2" and q = section_end and h = "chop head", OF section_head_end [OF assms(7)] this e]
  show ?thesis
    unfolding section_lines_def splitlines_concat [OF assms(1)] splitlines_concat [OF assms(2)] map_append list.map
    by (rule sel [symmetric])
qed

section \<open>Keys\<close>

lemma name_chars: "name_ok k \<Longrightarrow> c \<in> set k \<Longrightarrow> \<not> is_space c \<and> c \<noteq> CHR '':'' \<and> \<not> is_linebreak c"
  using break_space [of c] by (auto simp: name_ok_def list_all_iff)

definition reads_key :: "string \<Rightarrow> string \<Rightarrow> bool" where
  "reads_key key l \<longleftrightarrow> prefix (''  '' @ key @ '':'') l"

lemma prefix_chop: "prefix x (chop l) \<Longrightarrow> prefix x l"
  unfolding chop_def by (metis append.assoc prefix_def takeWhile_dropWhile_id)

lemma reads_key_line: "reads_key key (chop l) \<Longrightarrow> key_line key l"
proof -
  assume "reads_key key (chop l)"
  then have "prefix (''  '' @ key @ '':'') l" unfolding reads_key_def by (rule prefix_chop)
  then obtain r where r: "l = ''  '' @ key @ '':'' @ r" by (auto simp: prefix_def)
  have "\<not> is_space CHR '':''" by code_simp
  then show ?thesis unfolding key_line_def r by simp
qed

text \<open>A line carries one key only.\<close>

lemma colon_split:
  assumes "list_all (\<lambda>c. c \<noteq> CHR '':'' \<and> \<not> is_space c) a" "list_all (\<lambda>c. c \<noteq> CHR '':'' \<and> \<not> is_space c) b"
    "a @ sa @ CHR '':'' # x = b @ CHR '':'' # y" "list_all is_space sa"
  shows "a = b"
  using assms
proof (induction a arbitrary: b)
  case Nil
  show ?case
  proof (cases b)
    case (Cons c b')
    then have "sa @ CHR '':'' # x = c # b' @ CHR '':'' # y" "c \<noteq> CHR '':''" "\<not> is_space c" using Nil by auto
    then show ?thesis using Nil(4) by (cases sa) auto
  qed simp
next
  case (Cons c a)
  then show ?case by (cases b) auto
qed

lemma key_line_one: "key_line key l \<Longrightarrow> reads_key k2 (chop l) \<Longrightarrow> name_ok key \<Longrightarrow> name_ok k2 \<Longrightarrow> k2 = key"
proof -
  assume a: "key_line key l" "reads_key k2 (chop l)" "name_ok key" "name_ok k2"
  have "prefix (''  '' @ k2 @ '':'') l" using a(2) unfolding reads_key_def by (rule prefix_chop)
  then obtain r where r: "l = ''  '' @ k2 @ CHR '':'' # r" by (auto simp: prefix_def)
  obtain u where u: "l = ''  '' @ key @ u" "prefix '':'' (dropWhile is_space u)" using a(1) by (auto simp: key_line_def prefix_def)
  then obtain x where x: "u = takeWhile is_space u @ CHR '':'' # x" by (metis append_Cons append_Nil prefix_def takeWhile_dropWhile_id)
  have "key @ takeWhile is_space u @ CHR '':'' # x = k2 @ CHR '':'' # r" using r u(1) x by simp
  then show ?thesis
    using colon_split [of key k2 "takeWhile is_space u" x r] name_chars [OF a(3)] name_chars [OF a(4)]
    by (auto simp: list_all_iff dest: set_takeWhileD)
qed

definition break_free :: "string \<Rightarrow> bool" where "break_free s \<longleftrightarrow> list_all (\<lambda>c. \<not> is_linebreak c) s"

lemma scalar_line_parts:
  assumes "name_ok key" "break_free v" "t = [LF] \<or> t = [CR, LF]"
  shows "a_line (''  '' @ key @ '': '' @ v) t" "scalar_line key v t = (''  '' @ key @ '': '' @ v) @ t"
    "chop (scalar_line key v t) = ''  '' @ key @ '': '' @ v" "\<not> section_end (scalar_line key v t)" "clean_head (scalar_line key v t)"
proof -
  have "\<not> is_linebreak CHR '' ''" "\<not> is_linebreak CHR '':''" "is_space CHR '' ''" by code_simp+
  note c = this
  then show a: "a_line (''  '' @ key @ '': '' @ v) t"
    using assms name_chars [OF assms(1)] by (auto simp: a_line_def break_free_def list_all_iff)
  show l: "scalar_line key v t = (''  '' @ key @ '': '' @ v) @ t" by (simp add: scalar_line_def)
  show ch: "chop (scalar_line key v t) = ''  '' @ key @ '': '' @ v" using chop_line [OF a] l by simp
  show "\<not> section_end (scalar_line key v t)" using c(3) by (simp add: section_end_def indented_def scalar_line_def)
  show "clean_head (scalar_line key v t)" using c(3) ch by (simp add: clean_head_def indented_def)
qed

text \<open>A line of a section is replaced, or a line is put at the end of the section.\<close>

lemma first_in_Some:
  assumes "first_in p a b lines = Some i" "lines = xs @ body @ rest" "a = length xs" "b = length xs + length body"
  obtains body1 l body2 where "body = body1 @ l # body2" "i = length xs + length body1" "p l" "list_all (\<lambda>l. \<not> p l) body1"
proof -
  have t: "take (b - a) (drop a lines) = body" using assms(2-4) by simp
  let ?b1 = "takeWhile (\<lambda>l. \<not> p l) body"
  have i: "i = a + length ?b1" "i < b" using assms(1) t by (auto simp: first_in_def Let_def split: if_splits)
  then have "length ?b1 < length body" using assms(3,4) by simp
  then have "?b1 \<noteq> body" by (metis less_irrefl)
  then have "dropWhile (\<lambda>l. \<not> p l) body \<noteq> []" by (metis append_Nil2 takeWhile_dropWhile_id)
  then obtain l b2 where l: "dropWhile (\<lambda>l. \<not> p l) body = l # b2" by (cases "dropWhile (\<lambda>l. \<not> p l) body") auto
  then have "body = ?b1 @ l # b2" "p l" using takeWhile_dropWhile_id [of "\<lambda>l. \<not> p l" body] hd_dropWhile [of "\<lambda>l. \<not> p l" body] by auto
  moreover have "list_all (\<lambda>l. \<not> p l) ?b1" by (auto simp: list_all_iff dest: set_takeWhileD)
  ultimately show ?thesis using that i(1) assms(3) by blast
qed

lemma first_in_None:
  assumes "first_in p a b lines = None" "lines = xs @ body @ rest" "a = length xs" "b = length xs + length body"
  shows "list_all (\<lambda>l. \<not> p l) body"
proof -
  have t: "take (b - a) (drop a lines) = body" using assms(2-4) by simp
  have "length body \<le> length (takeWhile (\<lambda>l. \<not> p l) body)"
    using assms(1,3,4) t by (auto simp: first_in_def Let_def split: if_splits)
  then have "takeWhile (\<lambda>l. \<not> p l) body = body" by (metis le_antisym length_takeWhile_le take_all takeWhile_eq_take)
  then show ?thesis by (metis list_all_iff set_takeWhileD)
qed

lemma lines_ok_append: "lines_ok (xs @ ys) \<Longrightarrow> lines_ok ys"
  by (induction xs) auto

lemma lines_ok_put:
  assumes "lines_ok (xs @ old @ ys)" "old = [] \<and> (ys = [] \<longrightarrow> xs = [] \<or> ended (last xs)) \<or> (\<exists>z. old = [z])"
    "a_line b t" "t = [LF] \<or> t = [CR, LF]" "hd (b @ t) \<noteq> LF"
  shows "lines_ok (xs @ (b @ t) # ys)"
  using assms(1,2)
proof (induction xs)
  case Nil
  then have "lines_ok ys" using lines_ok_append [of old ys] by simp
  then show ?case using assms(3,4) by (auto intro!: lines_ok_ConsI)
next
  case (Cons x xs)
  then obtain bx tx where x: "x = bx @ tx" "a_line bx tx"
      "xs @ old @ ys \<noteq> [] \<longrightarrow> tx \<noteq> [] \<and> \<not> (tx = [CR] \<and> hd (hd (xs @ old @ ys)) = LF)"
    by auto
  have IH: "lines_ok (xs @ (b @ t) # ys)"
  proof (rule Cons.IH)
    show "lines_ok (xs @ old @ ys)" using Cons.prems(1) by auto
    show "old = [] \<and> (ys = [] \<longrightarrow> xs = [] \<or> ended (last xs)) \<or> (\<exists>z. old = [z])"
      using Cons.prems(2) by (cases "xs = []") auto
  qed
  have "tx \<noteq> []"
  proof (cases "xs @ old @ ys = []")
    case True
    then have "ended x" using Cons.prems(2) by auto
    then show ?thesis using x(1,2) by (auto simp: ended_def a_line_def list_all_iff)
  qed (use x(3) in blast)
  moreover have "\<not> (tx = [CR] \<and> hd (hd (xs @ (b @ t) # ys)) = LF)"
    using x(3) assms(5) by (cases xs) auto
  ultimately show ?case using lines_ok_ConsI [OF x(2) IH] x(1) by simp
qed

lemma keep_lines_concat: "lines_ok ls \<Longrightarrow> keep_lines (concat ls) = ls"
proof -
  have body: "list_all (\<lambda>c. \<not> is_linebreak c) b \<Longrightarrow> keep_from acc (b @ r) = keep_from (rev b @ acc) r" for b acc r
    by (induction b arbitrary: acc) simp_all
  show "lines_ok ls \<Longrightarrow> keep_lines (concat ls) = ls"
  proof (induction ls)
    case (Cons l ls)
    then obtain b t where l: "l = b @ t" "a_line b t" "ls \<noteq> [] \<longrightarrow> t \<noteq> [] \<and> \<not> (t = [CR] \<and> hd (hd ls) = LF)" by auto
    have h: "hd (concat ls) = hd (hd ls)" if "concat ls \<noteq> []"
    proof -
      have "ls \<noteq> []" using that by auto
      then have "hd ls \<noteq> []" using Cons(2) lines_ok_nonempty [of ls "hd ls"] by simp
      then show ?thesis using \<open>ls \<noteq> []\<close> by (metis concat.simps(2) hd_append2 list.collapse)
    qed
    have k: "keep_lines (concat (l # ls)) = keep_from (rev b) (t @ concat ls)"
      using l(1,2) body [of b "[]"] by (simp add: keep_lines_def a_line_def)
    consider "t = []" | "t = [CR, LF]" | c where "t = [c]" "is_linebreak c" using l(2) by (auto simp: a_line_def)
    then show ?case
    proof cases
      case 1
      then have "ls = []" using l(3) by auto
      then show ?thesis using 1 k l(1,2) by (simp add: a_line_def)
    next
      case 2
      then show ?thesis using k l(1) Cons by (simp add: keep_lines_def)
    next
      case (3 c)
      have "\<not> (code c = 13 \<and> concat ls \<noteq> [] \<and> code (hd (concat ls)) = 10)"
        using 3 l(3) h code_CR code_LF by fastforce
      then have "keep_from (rev b) (c # concat ls) = rev (c # rev b) # keep_from [] (concat ls)"
        unfolding keep_from.simps using 3(2) by (simp only: if_True if_False)
      then show ?thesis using k l(1) 3 Cons by (simp add: keep_lines_def)
    qed
  qed (simp add: keep_lines_def)
qed

section \<open>What is read after an edit\<close>

definition clean_text :: "string \<Rightarrow> bool" where
  "clean_text doc \<longleftrightarrow> list_all clean_head (keep_lines doc) \<and> (keep_lines doc = [] \<or> ended (last (keep_lines doc)))"

lemma framed_body:
  "framed sect before head (b1 @ old @ b2) rest \<Longrightarrow> \<not> section_end n \<Longrightarrow> framed sect before head (b1 @ n # b2) rest"
  by (simp add: framed_def)

lemma section_scalar_body:
  assumes "lines_ok ls" "ls = before @ head # body @ rest" "framed sect before head body rest" "list_all clean_head ls" "name_ok sect"
  shows "section_scalar (concat ls) sect k = Inr (first_some (\<lambda>l. if reads_key k l
    then Some (scalar_value (drop (length (''  '' @ k @ '':'')) l)) else None) (map chop body))"
  using section_lines_framed [OF assms] by (simp add: section_scalar_def reads_key_def Let_def cong: if_cong)

lemma first_some_append: "first_some f (xs @ ys) = (case first_some f xs of None \<Rightarrow> first_some f ys | Some y \<Rightarrow> Some y)"
  by (induction xs) (auto split: option.split)

lemma first_some_None: "(\<And>x. x \<in> set xs \<Longrightarrow> f x = None) \<Longrightarrow> first_some f xs = None"
  by (induction xs) auto

lemma edit_reads:
  assumes body: "keep_lines doc = before @ head # (b1 @ old @ b2) @ rest" "framed sect before head (b1 @ old @ b2) rest" "clean_text doc"
    and old: "old = [] \<and> b2 = [] \<or> (\<exists>l. old = [l] \<and> key_line key l)" "list_all (\<lambda>l. \<not> key_line key l) b1"
    and names: "name_ok sect" "name_ok key" "break_free v" "t = [LF] \<or> t = [CR, LF]"
    and new: "doc' = concat (before @ head # (b1 @ scalar_line key v t # b2) @ rest)"
  shows "clean_text doc'" "name_ok s2 \<Longrightarrow> name_ok k2 \<Longrightarrow> section_scalar doc' s2 k2 =
    (if s2 = sect \<and> k2 = key then Inr (Some (scalar_value ('' '' @ v))) else section_scalar doc s2 k2)"
proof -
  let ?n = "scalar_line key v t" and ?b = "''  '' @ key @ '': '' @ v"
  let ?ls = "before @ head # (b1 @ old @ b2) @ rest" and ?ls' = "before @ head # (b1 @ scalar_line key v t # b2) @ rest"
  note n = scalar_line_parts [OF names(2,3,4)]
  have ok: "lines_ok ?ls" "doc = concat ?ls" using keep_lines_ok [of doc] body(1) by auto
  have clean: "list_all clean_head ?ls" "ended (last ?ls)" using body(1,3) by (auto simp: clean_text_def)
  have ok': "lines_ok ?ls'"
  proof -
    have sp: "hd (?b @ t) \<noteq> LF" by simp
    have "old = [] \<and> (b2 @ rest = [] \<longrightarrow> before @ head # b1 = [] \<or> ended (last (before @ head # b1))) \<or> (\<exists>z. old = [z])"
      using old(1) clean(2) by auto
    from lines_ok_put [OF _ this n(1) names(4) sp] show ?thesis using ok(1) n(2) by simp
  qed
  have k': "keep_lines doc' = ?ls'" using keep_lines_concat [OF ok'] new by simp
  have clean': "list_all clean_head ?ls'" using clean(1) n(5) by simp
  have f': "framed sect before head (b1 @ ?n # b2) rest" by (rule framed_body [OF body(2) n(4)])
  have "ended (last ?ls')"
  proof (cases "b2 @ rest = []")
    case True
    then show ?thesis using names(4) by (auto simp: ended_def scalar_line_def)
  next
    case False
    then show ?thesis using clean(2) by (cases "rest = []") auto
  qed
  then show "clean_text doc'" using clean' k' by (simp add: clean_text_def)
  show "section_scalar doc' s2 k2 = (if s2 = sect \<and> k2 = key then Inr (Some (scalar_value ('' '' @ v))) else section_scalar doc s2 k2)"
    if s2: "name_ok s2" "name_ok k2"
  proof (cases "s2 = sect")
    case False
    have "list_all (\<lambda>l. \<not> section_end l) (b1 @ old @ b2)" "list_all (\<lambda>l. \<not> section_end l) (b1 @ ?n # b2)" "is_head sect head"
      using body(2) f' by (simp_all add: framed_def)
    from section_lines_other [OF ok(1) ok' this(3,1,2) names(1) s2(1) False] show ?thesis
      using False by (simp add: section_scalar_def ok(2) new)
  next
    case True
    let ?f = "\<lambda>l. if reads_key k2 l then Some (scalar_value (drop (length (''  '' @ k2 @ '':'')) l)) else None"
    have r: "section_scalar doc s2 k2 = Inr (first_some ?f (map chop (b1 @ old @ b2)))"
      "section_scalar doc' s2 k2 = Inr (first_some ?f (map chop (b1 @ ?n # b2)))"
      using section_scalar_body [OF ok(1) refl body(2) clean(1) names(1)] section_scalar_body [OF ok' refl f' clean' names(1)]
        True ok(2) new by simp_all
    show ?thesis
    proof (cases "k2 = key")
      case eq: True
      have "first_some ?f (map chop b1) = None"
        using old(2) reads_key_line eq by (intro first_some_None) (auto simp: list_all_iff)
      then show ?thesis using r(2) True eq n(3) by (simp add: first_some_append reads_key_def)
    next
      case neq: False
      have "\<not> reads_key k2 ?b"
      proof
        assume "reads_key k2 ?b"
        moreover have "key_line key ?n"
          using n(3) reads_key_line [of key ?n] by (simp add: reads_key_def)
        ultimately show False using key_line_one [of key ?n k2] n(3) names(2) s2(2) neq by simp
      qed
      then have fn: "?f (chop ?n) = None" using n(3) by simp
      have fo: "first_some ?f (map chop old) = None"
        using old(1) key_line_one [OF _ _ names(2) s2(2)] neq by (auto intro!: first_some_None)
      show ?thesis using r neq fn fo by (simp add: first_some_append split: option.split)
    qed
  qed
qed

text \<open>The interface of a file of scalars: what was put is what is got, and nothing else changed.\<close>

locale scalar_file =
  fixes valid :: "'f \<Rightarrow> bool"
    and get :: "'f \<Rightarrow> 'k \<Rightarrow> 'v"
    and put :: "'k \<Rightarrow> 'v \<Rightarrow> 'f \<Rightarrow> 'f \<Rightarrow> bool"
    and names :: "'k set"
  assumes put_valid: "valid f \<Longrightarrow> k \<in> names \<Longrightarrow> put k v f f' \<Longrightarrow> valid f'"
    and put_get: "valid f \<Longrightarrow> k \<in> names \<Longrightarrow> k2 \<in> names \<Longrightarrow> put k v f f' \<Longrightarrow> get f' k2 = (if k2 = k then v else get f k2)"
begin

inductive puts :: "('k \<times> 'v) list \<Rightarrow> 'f \<Rightarrow> 'f \<Rightarrow> bool" where
  none: "puts [] f f"
| one: "put k v f g \<Longrightarrow> puts kvs g h \<Longrightarrow> puts ((k, v) # kvs) f h"

lemma puts_get:
  "puts kvs f g \<Longrightarrow> valid f \<Longrightarrow> fst ` set kvs \<subseteq> names \<Longrightarrow> k2 \<in> names \<Longrightarrow>
   valid g \<and> get g k2 = (case map_of (rev kvs) k2 of None \<Rightarrow> get f k2 | Some v \<Rightarrow> v)"
proof (induction rule: puts.induct)
  case (one k v f g kvs h)
  then have "valid g" "get g k2 = (if k2 = k then v else get f k2)" using put_valid put_get by auto
  then show ?case using one by (auto simp: map_add_def split: option.split)
qed simp

end

definition scalar_names :: "(string \<times> string) set" where
  "scalar_names = {(s, k). name_ok s \<and> name_ok k}"

definition put_scalar :: "string \<times> string \<Rightarrow> py_error + string option \<Rightarrow> string \<Rightarrow> string \<Rightarrow> bool" where
  "put_scalar sk v doc doc' \<longleftrightarrow> (\<exists>x. break_free x \<and> v = Inr (Some (scalar_value ('' '' @ x))) \<and>
     (replace_section_scalar doc (fst sk) (snd sk) x = Inr doc' \<or> upsert_section_scalar doc (fst sk) (snd sk) x = Inr doc'))"

lemma put_scalar_edit:
  assumes "clean_text doc" "name_ok sect" "name_ok key" "break_free x"
    "replace_section_scalar doc sect key x = Inr doc' \<or> upsert_section_scalar doc sect key x = Inr doc'"
  shows "clean_text doc'" "name_ok s2 \<Longrightarrow> name_ok k2 \<Longrightarrow> section_scalar doc' s2 k2 =
    (if s2 = sect \<and> k2 = key then Inr (Some (scalar_value ('' '' @ x))) else section_scalar doc s2 k2)"
proof -
  let ?ls = "keep_lines doc"
  obtain start stop where sb: "section_bounds ?ls sect = Inr (start, stop)"
    using assms(5) by (auto simp: replace_section_scalar_def upsert_section_scalar_def Let_def bindE_eq_Inr)
  then obtain before head body rest where ls: "?ls = before @ head # body @ rest" "framed sect before head body rest"
      "start = length before" "stop = Suc (length before) + length body"
    by (rule section_bounds_split)
  have ls': "?ls = (before @ [head]) @ body @ rest" "Suc start = length (before @ [head])" "stop = length (before @ [head]) + length body"
    using ls by simp_all
  have "\<exists>b1 old b2 t. body = b1 @ old @ b2 \<and> (old = [] \<and> b2 = [] \<or> (\<exists>l. old = [l] \<and> key_line key l)) \<and>
      list_all (\<lambda>l. \<not> key_line key l) b1 \<and> (t = [LF] \<or> t = [CR, LF]) \<and>
      doc' = concat (before @ head # (b1 @ scalar_line key x t # b2) @ rest)"
  proof (cases "first_in (key_line key) (Suc start) stop ?ls")
    case (Some i)
    then obtain b1 l b2 where b: "body = b1 @ l # b2" "i = length (before @ [head]) + length b1" "key_line key l"
        "list_all (\<lambda>l. \<not> key_line key l) b1"
      by (rule first_in_Some [OF _ ls'])
    have "doc' = concat (?ls[i := scalar_line key x (line_ending (?ls ! i))])"
      using assms(5) sb Some by (auto simp: replace_section_scalar_def upsert_section_scalar_def Let_def)
    moreover have "?ls[i := n] = before @ head # (b1 @ n # b2) @ rest" for n
      using ls(1) b(1,2) by (simp add: list_update_append)
    moreover have "line_ending y = [LF] \<or> line_ending y = [CR, LF]" for y by (simp add: line_ending_def)
    ultimately show ?thesis using b by (intro exI [of _ b1] exI [of _ "[l]"] exI [of _ b2] exI [of _ "line_ending (?ls ! i)"]) simp
  next
    case None
    then have "list_all (\<lambda>l. \<not> key_line key l) body" by (rule first_in_None [OF _ ls'])
    moreover have "doc' = concat (take stop ?ls @ scalar_line key x (text_ending doc) # drop stop ?ls)"
      using assms(5) sb None by (auto simp: replace_section_scalar_def upsert_section_scalar_def Let_def)
    moreover have "take stop ?ls @ n # drop stop ?ls = before @ head # (body @ [n]) @ rest" for n using ls(1,4) by simp
    moreover have "text_ending doc = [LF] \<or> text_ending doc = [CR, LF]" by (simp add: text_ending_def)
    ultimately show ?thesis by (intro exI [of _ body] exI [of _ "[]"] exI [of _ "text_ending doc"]) simp
  qed
  then obtain b1 old b2 t where e: "body = b1 @ old @ b2" "old = [] \<and> b2 = [] \<or> (\<exists>l. old = [l] \<and> key_line key l)"
      "list_all (\<lambda>l. \<not> key_line key l) b1" "t = [LF] \<or> t = [CR, LF]"
      "doc' = concat (before @ head # (b1 @ scalar_line key x t # b2) @ rest)"
    by blast
  note f = ls(1,2) [unfolded e(1)]
  show "clean_text doc'" "name_ok s2 \<Longrightarrow> name_ok k2 \<Longrightarrow> section_scalar doc' s2 k2 =
    (if s2 = sect \<and> k2 = key then Inr (Some (scalar_value ('' '' @ x))) else section_scalar doc s2 k2)"
    using edit_reads [OF f assms(1) e(2,3) assms(2-4) e(4,5)] by blast+
qed

interpretation yaml_file: scalar_file clean_text "\<lambda>doc sk. section_scalar doc (fst sk) (snd sk)" put_scalar scalar_names
proof unfold_locales
  fix doc doc' :: string and sk s2k2 :: "string \<times> string" and v
  assume a: "clean_text doc" "sk \<in> scalar_names" "put_scalar sk v doc doc'"
  then obtain x where x: "name_ok (fst sk)" "name_ok (snd sk)" "break_free x" "v = Inr (Some (scalar_value ('' '' @ x)))"
      "replace_section_scalar doc (fst sk) (snd sk) x = Inr doc' \<or> upsert_section_scalar doc (fst sk) (snd sk) x = Inr doc'"
    by (auto simp: put_scalar_def scalar_names_def)
  note e = put_scalar_edit [OF a(1) x(1-3,5)]
  show "clean_text doc'" by (rule e(1))
  show "section_scalar doc' (fst s2k2) (snd s2k2) = (if s2k2 = sk then v else section_scalar doc (fst s2k2) (snd s2k2))"
    if "s2k2 \<in> scalar_names"
    using e(2) [of "fst s2k2" "snd s2k2"] that x(4) by (auto simp: scalar_names_def prod_eq_iff)
qed

section \<open>Examples\<close>

definition demo_yml :: string where
  "demo_yml = ''brandmeister:'' @ [LF] @ ''  repeaterId: 123'' @ [LF] @ ''routing:'' @ [LF] @ ''  mode: x'' @ [LF]"

lemma demo_upsert:
  "upsert_section_scalar demo_yml ''brandmeister'' ''timeslot'' ''2'' =
   Inr (''brandmeister:'' @ [LF] @ ''  repeaterId: 123'' @ [LF] @ ''  timeslot: 2'' @ [LF] @ ''routing:'' @ [LF] @ ''  mode: x'' @ [LF])"
  by code_simp

text \<open>A line inserted after a last line that is not ended is glued to it.\<close>

lemma upsert_glues_last_line:
  "upsert_section_scalar (''routing:'' @ [LF] @ ''  mode: x'') ''routing'' ''timeout'' ''2'' =
   Inr (''routing:'' @ [LF] @ ''  mode: x  timeout: 2'' @ [LF])"
  by code_simp

end
