(* ===== verification/Dash_Settings.thy ===== *)
theory Dash_Settings
  imports Dash_Tracker Dash_Text
begin

text \<open>
  The check of the settings that a browser sends (the \<^verbatim>\<open>_validate\<close> methods of \<^verbatim>\<open>SettingsManager\<close> in
  \<^verbatim>\<open>src/dashboard/app.py\<close>), which returns the settings in the form the rest works with. The order of the checks
  is the code's, and the first that fails raises its \<^verbatim>\<open>ValueError\<close>.
\<close>

section \<open>Checking what the browser sends\<close>

fun is_bool_value :: "pyval \<Rightarrow> bool" where
  "is_bool_value (PBool b) = True"
| "is_bool_value _ = False"

abbreviation ae :: char where "ae \<equiv> CHR 0xE4"
abbreviation ue :: char where "ue \<equiv> CHR 0xFC"

definition not_valid :: "string \<Rightarrow> py_error" where
  "not_valid field = ValueError (field @ '' ist ung'' @ [ue] @ ''ltig.'')"

definition out_of_range :: "string \<Rightarrow> string \<Rightarrow> string \<Rightarrow> py_error" where
  "out_of_range field lo hi = ValueError (field @ '' muss zwischen '' @ lo @ '' und '' @ hi @ '' liegen.'')"

definition converted :: "string \<Rightarrow> py_error + 'a \<Rightarrow> py_error + 'a" where
  "converted field r = (case r of
     Inl e \<Rightarrow> Inl (if is_type_error e \<or> is_value_error e then not_valid field else e) | Inr x \<Rightarrow> Inr x)"

definition validate_int :: "pyval \<Rightarrow> string \<Rightarrow> int \<Rightarrow> int \<Rightarrow> py_error + int" where
  "validate_int value field lo hi =
     (if is_bool_value value then Inl (not_valid field)
      else bindE (converted field (py_int value)) (\<lambda>parsed.
        if lo \<le> parsed \<and> parsed \<le> hi then Inr parsed else Inl (out_of_range field (show_int lo) (show_int hi))))"

text \<open>\<^verbatim>\<open>f"{x:g}"\<close> for the bounds in use, which have at most four decimals.\<close>

definition show_g :: "real \<Rightarrow> string" where
  "show_g x = rstrip_by (\<lambda>c. c = CHR ''.'') (rstrip_by (\<lambda>c. c = CHR ''0'') (show_fixed4 x))"

definition round4 :: "real \<Rightarrow> real" where
  "round4 x = of_int (py_round (x * 10000)) / 10000"

definition validate_float :: "pyval \<Rightarrow> string \<Rightarrow> real \<Rightarrow> real \<Rightarrow> py_error + real" where
  "validate_float value field lo hi =
     (if is_bool_value value then Inl (not_valid field)
      else bindE (converted field (py_float value)) (\<lambda>parsed.
        if lo \<le> parsed \<and> parsed \<le> hi then Inr (round4 parsed) else Inl (out_of_range field (show_g lo) (show_g hi))))"

definition validate_bool :: "pyval \<Rightarrow> string \<Rightarrow> py_error + pyval" where
  "validate_bool value field = (if is_bool_value value then Inr value else Inl (not_valid field))"

section \<open>Audio settings\<close>

type_synonym audio = "(string \<times> pyval) list"

datatype audio_check = FloatIn real real | IntIn int int | BoolIn

definition check_audio :: "audio \<Rightarrow> string \<Rightarrow> string \<times> string \<times> audio_check \<Rightarrow> py_error + (string \<times> pyval)" where
  "check_audio payload label = (\<lambda>(key, name, check).
     let value = dget payload key PNone; field = label @ '': '' @ name in
     bindE (case check of
         FloatIn lo hi \<Rightarrow> bindE (validate_float value field lo hi) (\<lambda>x. Inr (PFloat x))
       | IntIn lo hi \<Rightarrow> bindE (validate_int value field lo hi) (\<lambda>i. Inr (PInt i))
       | BoolIn \<Rightarrow> validate_bool value field) (\<lambda>v. Inr (key, v)))"

definition common_checks :: "bool \<Rightarrow> (string \<times> string \<times> audio_check) list" where
  "common_checks p25_output =
     [(''rxAudioGain'', ''Eingangspegel'', FloatIn 0 5),
      (''vocoderDecoderAudioGain'', ''Decoder-Pegel'', FloatIn 0 5),
      (''vocoderDecoderAutoGain'', ''Decoder-Automatik'', BoolIn),
      (''txAudioGain'', ''Ausgangspegel'', FloatIn 0 (if p25_output then 10 else 5)),
      (''vocoderEncoderAudioGain'', ''Encoder-Pegel'', FloatIn 0 5)]"

definition dmr_checks :: "(string \<times> string \<times> audio_check) list" where
  "dmr_checks = [(''dmrEncodeHighCutHz'', ''DMR-Hochtonfilter'', FloatIn 0 3500)]"

definition p25_checks :: "(string \<times> string \<times> audio_check) list" where
  "p25_checks =
     [(''vocoderDecoderUvQuality'', ''AMBE-Decoderqualit'' @ [ae] @ ''t'', IntIn 1 64),
      (''p25EncodePresenceGain'', ''Sprachpr'' @ [ae] @ ''senz'', FloatIn 0 (4 / 5)),
      (''p25EncodeHighCutHz'', ''Hochtonfilter'', FloatIn 0 3500),
      (''p25EncodeAgc'', ''P25-Pegelautomatik'', BoolIn),
      (''p25EncodeAgcTargetRms'', ''AGC-Zielpegel'', FloatIn 1000 12000),
      (''p25EncodeAgcMinGain'', ''minimale AGC-Verst'' @ [ae] @ ''rkung'', FloatIn (1 / 10) 1),
      (''p25EncodeAgcMaxGain'', ''maximale AGC-Verst'' @ [ae] @ ''rkung'', FloatIn (1 / 10) 4),
      (''p25EncodeAgcAttack'', ''AGC-Anregelung'', FloatIn (1 / 100) 1),
      (''p25EncodeAgcRelease'', ''AGC-R'' @ [ue] @ ''ckregelung'', FloatIn (1 / 100) 1),
      (''p25EncodeAgcPeakLimit'', ''Spitzenbegrenzung'', FloatIn 8000 32000)]"

definition audio_checks :: "bool \<Rightarrow> (string \<times> string \<times> audio_check) list" where
  "audio_checks p25_output = common_checks p25_output @ (if p25_output then p25_checks else dmr_checks)"

fun float_of :: "pyval \<Rightarrow> real" where
  "float_of (PFloat x) = x"
| "float_of _ = 0"

definition level :: "audio \<Rightarrow> string \<Rightarrow> real" where
  "level values key = float_of (dget values key PNone)"

definition validate_audio_direction :: "pyval \<Rightarrow> string \<Rightarrow> bool \<Rightarrow> py_error + audio" where
  "validate_audio_direction payload label p25_output = (case payload of
     PDict d \<Rightarrow> bindE (mapE (check_audio d label) (audio_checks p25_output)) (\<lambda>values.
       if p25_output \<and> level values ''p25EncodeAgcMaxGain'' < level values ''p25EncodeAgcMinGain''
       then Inl (ValueError (label @ '': Die maximale AGC-Verst'' @ [ae] @ ''rkung darf nicht kleiner als die minimale sein.''))
       else if p25_output \<and> 0 < level values ''p25EncodeHighCutHz'' \<and> level values ''p25EncodeHighCutHz'' < 1800
       then Inl (ValueError (label @ '': Der Hochtonfilter muss ausgeschaltet (0 Hz) oder auf mindestens 1800 Hz eingestellt sein.''))
       else Inr values)
   | _ \<Rightarrow> Inl (ValueError (''Audio '' @ label @ '' ist ung'' @ [ue] @ ''ltig.'')))"

section \<open>All settings\<close>

record settings =
  new_id :: int
  new_callsign :: string
  new_timeslot :: int
  new_rx :: int
  new_tx :: int
  new_password :: string
  new_timeout :: int
  new_mappings :: "(int \<times> int) list"
  new_gps :: "(string \<times> int) list"
  new_d2p :: audio
  new_p2d :: audio

text \<open>\<^verbatim>\<open>str.upper\<close> for Latin-1; the two letters whose capital is outside Latin-1 stay.\<close>

definition to_upper :: "char \<Rightarrow> string" where
  "to_upper c =
     (if 97 \<le> code c \<and> code c \<le> 122 \<or> 0xE0 \<le> code c \<and> code c \<le> 0xFE \<and> code c \<noteq> 0xF7 then [char_of (code c - 32)]
      else if code c = 0xDF then ''SS'' else [c])"

definition upper :: "string \<Rightarrow> string" where
  "upper s = concat (map to_upper s)"

definition callsign_char :: "char \<Rightarrow> bool" where
  "callsign_char c \<longleftrightarrow> 65 \<le> code c \<and> code c \<le> 90 \<or> is_digit c"

definition callsign_ok :: "string \<Rightarrow> bool" where
  "callsign_ok s \<longleftrightarrow> 3 \<le> length s \<and> length s \<le> 8 \<and> callsign_char (hd s) \<and>
     list_all (\<lambda>c. callsign_char c \<or> c = CHR ''/'' \<or> c = CHR ''-'') (tl s)"

definition secret_ok :: "string \<Rightarrow> bool" where
  "secret_ok s \<longleftrightarrow> length s \<le> 128 \<and> list_all (\<lambda>c. c \<noteq> CR \<and> c \<noteq> LF \<and> code c \<noteq> 0) s"

fun text_of :: "pyval \<Rightarrow> string option" where
  "text_of (PStr s) = Some s"
| "text_of _ = None"

definition invalid_callsign :: py_error where
  "invalid_callsign = ValueError (''Das BrandMeister-Rufzeichen ist ung'' @ [ue] @ ''ltig.'')"

definition validate_callsign :: "pyval \<Rightarrow> py_error + string" where
  "validate_callsign v = (case text_of v of
     None \<Rightarrow> Inl invalid_callsign
   | Some s \<Rightarrow> let callsign = upper (strip s) in if callsign_ok callsign then Inr callsign else Inl invalid_callsign)"

definition validate_password :: "pyval \<Rightarrow> py_error + string" where
  "validate_password v = (case text_of (if v = PNone then PStr [] else v) of
     Some s \<Rightarrow> if secret_ok s then Inr s else Inl (ValueError (''Das BrandMeister-Passwort ist ung'' @ [ue] @ ''ltig.''))
   | None \<Rightarrow> Inl (ValueError (''Das BrandMeister-Passwort ist ung'' @ [ue] @ ''ltig.'')))"

fun check_mappings :: "int \<Rightarrow> int set \<Rightarrow> int set \<Rightarrow> pyval list \<Rightarrow> py_error + (int \<times> int) list" where
  "check_mappings index seen_p25 seen_bm [] = Inr []"
| "check_mappings index seen_p25 seen_bm (PDict raw # entries) =
     bindE (validate_int (dget raw ''p25'' PNone) (''P25-TG '' @ show_int index) 1 16777215) (\<lambda>p25.
     bindE (validate_int (dget raw ''brandmeister'' PNone) (''BrandMeister-TG '' @ show_int index) 1 16777215) (\<lambda>bm.
     if p25 \<in> seen_p25 \<or> bm \<in> seen_bm
     then Inl (ValueError (''Talkgroup-Zuordnungen m'' @ [ue] @ ''ssen eindeutig sein.''))
     else bindE (check_mappings (index + 1) (insert p25 seen_p25) (insert bm seen_bm) entries) (\<lambda>ms. Inr ((p25, bm) # ms))))"
| "check_mappings index seen_p25 seen_bm (_ # entries) =
     Inl (not_valid (''Talkgroup-Zuordnung '' @ show_int index))"

definition validate_mappings :: "pyval \<Rightarrow> py_error + (int \<times> int) list" where
  "validate_mappings v = (case v of
     PList es \<Rightarrow> if 1 \<le> length es \<and> length es \<le> 64 then check_mappings 1 {} {} es
       else Inl (ValueError ''Es muss mindestens eine Talkgroup-Zuordnung geben.'')
   | _ \<Rightarrow> Inl (ValueError ''Es muss mindestens eine Talkgroup-Zuordnung geben.''))"

definition validate_gps :: "pyval \<Rightarrow> py_error + (string \<times> int) list" where
  "validate_gps v = (case v of
     PDict gps \<Rightarrow>
       bindE (validate_int (dget gps ''initialDelaySeconds'' PNone) (''GPS-Startverz'' @ [CHR 0xF6] @ ''gerung'') 1 300) (\<lambda>a.
       bindE (validate_int (dget gps ''updateIntervalSeconds'' PNone) ''GPS-Aktualisierung'' 30 86400) (\<lambda>b.
       bindE (validate_int (dget gps ''noFixRetrySeconds'' PNone) ''GPS-Wiederholung'' 15 3600) (\<lambda>c.
       Inr [(''initialDelaySeconds'', a), (''updateIntervalSeconds'', b), (''noFixRetrySeconds'', c)])))
   | _ \<Rightarrow> Inl (ValueError (''GPS-Abfrage ist ung'' @ [ue] @ ''ltig.'')))"

definition validate_audio :: "pyval \<Rightarrow> py_error + (audio \<times> audio)" where
  "validate_audio v = (case v of
     PDict d \<Rightarrow>
       bindE (validate_audio_direction (dget d ''dmrToP25'' PNone) ''BREW nach P25'' True) (\<lambda>a.
       bindE (validate_audio_direction (dget d ''p25ToDmr'' PNone) ''P25 nach BREW'' False) (\<lambda>b. Inr (a, b)))
   | _ \<Rightarrow> Inl (ValueError (''Audioeinstellungen sind ung'' @ [ue] @ ''ltig.'')))"

definition validate_settings :: "(string \<times> pyval) list \<Rightarrow> py_error + settings" where
  "validate_settings payload = (let field = (\<lambda>k. dget payload k PNone) in
     if \<not> {''brandmeisterCallsign'', ''brandmeisterTimeslot'', ''brandmeisterRxFrequency'', ''brandmeisterTxFrequency''}
       \<subseteq> set (map fst payload)
     then Inl (ValueError (''Die Browseroberfl'' @ [ae] @ ''che ist veraltet. Bitte die Seite vollst'' @ [ae] @ ''ndig neu laden.''))
     else
     bindE (validate_int (field ''repeaterId'') ''Repeater-ID'' 1 4294967295) (\<lambda>repeater_id.
     bindE (validate_callsign (dget payload ''brandmeisterCallsign'' (PStr []))) (\<lambda>callsign.
     bindE (validate_int (field ''brandmeisterTimeslot'') ''BrandMeister-Zeitschlitz'' 1 2) (\<lambda>timeslot.
     bindE (validate_int (field ''brandmeisterRxFrequency'') ''Repeater-RX-Frequenz'' 10000000 999999999) (\<lambda>rx.
     bindE (validate_int (field ''brandmeisterTxFrequency'') ''Repeater-TX-Frequenz'' 10000000 999999999) (\<lambda>tx.
     bindE (validate_password (dget payload ''brandmeisterPassword'' (PStr []))) (\<lambda>secret.
     bindE (validate_int (field ''dynamicTimeoutSeconds'') ''Ablaufzeit dynamischer Talkgroups'' 10 86400) (\<lambda>timeout.
     bindE (validate_mappings (field ''talkgroupMappings'')) (\<lambda>ms.
     bindE (validate_gps (field ''gps'')) (\<lambda>gps.
     bindE (validate_audio (field ''audio'')) (\<lambda>(d2p, p2d).
     Inr \<lparr>new_id = repeater_id, new_callsign = callsign, new_timeslot = timeslot, new_rx = rx, new_tx = tx,
       new_password = secret, new_timeout = timeout, new_mappings = ms, new_gps = gps, new_d2p = d2p, new_p2d = p2d\<rparr>)))))))))))"

end
