(* ===== verification/Dash_Update.thy ===== *)
theory Dash_Update
  imports Dash_Settings
begin

text \<open>
  Reading the settings and applying a change (\<^verbatim>\<open>SettingsManager.read\<close> and \<^verbatim>\<open>update\<close>, \<^verbatim>\<open>RestartCoordinator.restart\<close>,
  \<^verbatim>\<open>atomic_write\<close> of \<^verbatim>\<open>src/dashboard/app.py\<close>). The contents of files are texts; \<^verbatim>\<open>read_text\<close> translates line ends
  (\<open>universal_newlines\<close>), \<^verbatim>\<open>read_bytes().decode()\<close> does not. A write may fail before the file is replaced or after
  it (the last synchronisation of the directory); modes and temporary names are not modelled.
\<close>

section \<open>Files, services and their faults\<close>

record dash =
  disk :: "string \<rightharpoonup> string"
  station :: tracker
  write_count :: nat
  service_count :: nat
  services_restarted :: "string list"

datatype write_fate = Written | Not_written py_error | Written_but py_error

record settings_env =
  yaml :: "string \<Rightarrow> py_error + pyval"
  json :: "string \<Rightarrow> py_error + pyval"
  ini_sections :: "string \<Rightarrow> py_error + string list"
  dump :: "pyval \<Rightarrow> string"
  value_repr :: "pyval \<Rightarrow> string"
  sha256 :: "string \<Rightarrow> string"
  write_fate :: "nat \<Rightarrow> write_fate"
  service_fate :: "nat \<Rightarrow> py_error option"
  backup_fate :: "py_error option"

record settings_paths =
  bridge_yml :: string
  host_yml :: string
  gateway_ini :: string
  d2p_yml :: string
  p2d_yml :: string
  brew_json :: string
  backup_dir :: string
  public_ars :: string
  restart_targets :: "(string \<times> pyval) list"

fun universal_newlines :: "string \<Rightarrow> string" where
  "universal_newlines [] = []"
| "universal_newlines (c # cs) =
     (if c = CR then LF # (case cs of [] \<Rightarrow> [] | d # ds \<Rightarrow> if d = LF then universal_newlines ds else universal_newlines (d # ds))
      else c # universal_newlines cs)"

definition file_text :: "(string \<rightharpoonup> string) \<Rightarrow> string \<Rightarrow> py_error + string" where
  "file_text d path = (case d path of None \<Rightarrow> Inl (OSError ''FileNotFoundError'') | Some t \<Rightarrow> Inr t)"

definition atomic_write :: "settings_env \<Rightarrow> string \<Rightarrow> string \<Rightarrow> (dash, unit) act" where
  "atomic_write env path payload = readA (\<lambda>s.
     thenA (upd (\<lambda>s. s\<lparr>write_count := write_count s + 1\<rparr>))
       (case write_fate env (write_count s) of
          Written \<Rightarrow> upd (\<lambda>s. s\<lparr>disk := (disk s)(path \<mapsto> payload)\<rparr>)
        | Not_written e \<Rightarrow> raiseA e
        | Written_but e \<Rightarrow> thenA (upd (\<lambda>s. s\<lparr>disk := (disk s)(path \<mapsto> payload)\<rparr>)) (raiseA e)))"

text \<open>One service: \<^verbatim>\<open>_restart_systemd\<close>, \<^verbatim>\<open>_restart_systemd_user\<close> or \<^verbatim>\<open>_restart_process\<close> returns or raises.\<close>

definition restart_service :: "settings_env \<Rightarrow> string \<Rightarrow> (dash, unit) act" where
  "restart_service env name = readA (\<lambda>s.
     thenA (upd (\<lambda>s. s\<lparr>service_count := service_count s + 1\<rparr>))
       (case service_fate env (service_count s) of
          Some e \<Rightarrow> raiseA e
        | None \<Rightarrow> upd (\<lambda>s. s\<lparr>services_restarted := services_restarted s @ [name]\<rparr>)))"

definition restart_target :: "settings_env \<Rightarrow> (string \<times> pyval) list \<Rightarrow> string \<Rightarrow> (dash, unit) act" where
  "restart_target env targets name = (let spec = dget targets name PNone in
     if \<not> truthy spec then raiseA (RuntimeError (''Restart target is not configured: '' @ name))
     else bindA (liftE (py_get spec ''type'' PNone)) (\<lambda>target_type.
       if target_type = PStr ''systemd'' \<or> target_type = PStr ''systemd-user''
       then bindA (liftE (py_item spec ''unit'')) (\<lambda>unit. restart_service env name)
       else if target_type = PStr ''process''
       then bindA (liftE (py_item spec ''match'')) (\<lambda>match. restart_service env name)
       else raiseA (RuntimeError ''Unsupported restart target type'')))"

definition restart :: "settings_env \<Rightarrow> (string \<times> pyval) list \<Rightarrow> string list \<Rightarrow> (dash, string list) act" where
  "restart env targets names = forA names (\<lambda>name restarted. thenA (restart_target env targets name) (ret (restarted @ [name]))) []"

section \<open>Reading\<close>

definition read_yaml_file :: "settings_env \<Rightarrow> (string \<rightharpoonup> string) \<Rightarrow> string \<Rightarrow> py_error + pyval" where
  "read_yaml_file env d path =
     bindE (file_text d path) (\<lambda>t.
     bindE (yaml env (universal_newlines t)) (\<lambda>payload.
       if is_dict payload then Inr payload else Inl (ValueError (''Invalid YAML document: '' @ path))))"

definition audio_defaults :: "bool \<Rightarrow> audio" where
  "audio_defaults p25_output =
     (if p25_output
      then [(''rxAudioGain'', PFloat (3 / 10)), (''vocoderDecoderAudioGain'', PFloat (4 / 10)),
        (''vocoderDecoderAutoGain'', PBool False), (''txAudioGain'', PFloat (11 / 10)),
        (''vocoderEncoderAudioGain'', PFloat 0), (''vocoderDecoderUvQuality'', PInt 12),
        (''p25EncodePresenceGain'', PFloat 0), (''p25EncodeHighCutHz'', PFloat 2500), (''p25EncodeAgc'', PBool False),
        (''p25EncodeAgcTargetRms'', PFloat 6500), (''p25EncodeAgcMinGain'', PFloat (55 / 100)),
        (''p25EncodeAgcMaxGain'', PFloat (19 / 10)), (''p25EncodeAgcAttack'', PFloat (4 / 10)),
        (''p25EncodeAgcRelease'', PFloat (6 / 100)), (''p25EncodeAgcPeakLimit'', PFloat 24000)]
      else [(''rxAudioGain'', PFloat 1), (''vocoderDecoderAudioGain'', PFloat 1), (''vocoderDecoderAutoGain'', PBool False),
        (''txAudioGain'', PFloat 2), (''vocoderEncoderAudioGain'', PFloat 0), (''dmrEncodeHighCutHz'', PFloat 2500)])"

definition audio_value :: "string \<Rightarrow> string \<Rightarrow> pyval \<Rightarrow> pyval \<Rightarrow> py_error + pyval" where
  "audio_value path key dflt raw =
     (let invalid = (\<lambda>kind r. case r of
            Inl e \<Rightarrow> Inl (if is_type_error e \<or> is_value_error e then ValueError (''Invalid '' @ kind @ ''audio value '' @ key @ '': '' @ path) else e)
          | Inr v \<Rightarrow> Inr v)
      in case dflt of
        PBool b \<Rightarrow> if is_bool_value raw then Inr raw else Inl (ValueError (''Invalid boolean audio value '' @ key @ '': '' @ path))
      | PInt i \<Rightarrow> invalid ''integer '' (bindE (py_int raw) (\<lambda>i. Inr (PInt i)))
      | _ \<Rightarrow> invalid [] (bindE (py_float raw) (\<lambda>x. Inr (PFloat x))))"

definition read_audio :: "settings_env \<Rightarrow> (string \<rightharpoonup> string) \<Rightarrow> string \<Rightarrow> bool \<Rightarrow> py_error + audio" where
  "read_audio env d path p25_output =
     bindE (read_yaml_file env d path) (\<lambda>document.
     bindE (py_get document ''system'' (PDict [])) (\<lambda>sys. case sys of
       PDict sys \<Rightarrow> mapE (\<lambda>(key, dflt). bindE (audio_value path key dflt (dget sys key dflt)) (\<lambda>v. Inr (key, v)))
         (audio_defaults p25_output)
     | _ \<Rightarrow> Inl (ValueError (''Invalid system section: '' @ path))))"

definition int_at :: "pyval \<Rightarrow> string \<Rightarrow> int \<Rightarrow> py_error + int" where
  "int_at v key dflt = bindE (py_get v key (PInt dflt)) py_int"

definition mapping_entries :: "pyval \<Rightarrow> py_error + (int \<times> int) list" where
  "mapping_entries routing =
     bindE (bindE (py_get routing ''talkgroupMappings'' (PList [])) py_iter) (\<lambda>es.
       mapE (\<lambda>e. bindE (int_at e ''p25'' 0) (\<lambda>p25. bindE (int_at e ''brandmeister'' 0) (\<lambda>bm. Inr (p25, bm))))
         (filter is_dict es))"

text \<open>\<^verbatim>\<open>int(bm.get("timeslot", 1 if bm.get("slot1", False) else 2))\<close>\<close>

definition timeslot_at :: "pyval \<Rightarrow> py_error + int" where
  "timeslot_at bm = bindE (py_get bm ''slot1'' (PBool False)) (\<lambda>slot1. int_at bm ''timeslot'' (if truthy slot1 then 1 else 2))"

definition gps_at :: "pyval \<Rightarrow> py_error + (string \<times> int) list" where
  "gps_at location =
     bindE (int_at location ''initialDelaySeconds'' 5) (\<lambda>a.
     bindE (int_at location ''updateIntervalSeconds'' 300) (\<lambda>b.
     bindE (int_at location ''noFixRetrySeconds'' 60) (\<lambda>c.
     Inr [(''initialDelaySeconds'', a), (''updateIntervalSeconds'', b), (''noFixRetrySeconds'', c)])))"

definition mapping_dicts :: "(int \<times> int) list \<Rightarrow> pyval" where
  "mapping_dicts ms = PList (map (\<lambda>(p25, bm). PDict [(''p25'', PInt p25), (''brandmeister'', PInt bm)]) ms)"

text \<open>The gain that the audio worker uses replaces the one of the bridge.\<close>

definition with_uplink_gain :: "(string \<times> pyval) list \<Rightarrow> audio \<Rightarrow> py_error + audio" where
  "with_uplink_gain document values =
     bindE (py_float (dget document ''uplinkGain'' (dget values ''txAudioGain'' PNone))) (\<lambda>x.
       Inr (AList.update ''txAudioGain'' (PFloat x) values))"

definition shown_uplink_gain :: "settings_env \<Rightarrow> (string \<rightharpoonup> string) \<Rightarrow> settings_paths \<Rightarrow> audio \<Rightarrow> py_error + audio" where
  "shown_uplink_gain env d cfg values = (case d (brew_json cfg) of
     None \<Rightarrow> Inr values
   | Some t \<Rightarrow> bindE (json env (universal_newlines t)) (\<lambda>v. case v of PDict doc \<Rightarrow> with_uplink_gain doc values | _ \<Rightarrow> Inr values))"

definition read_settings :: "settings_env \<Rightarrow> settings_paths \<Rightarrow> (dash, pyval) act" where
  "read_settings env cfg = readA (\<lambda>s. let d = disk s in
     bindA (liftE (read_yaml_file env d (bridge_yml cfg))) (\<lambda>bridge.
     bindA (liftE (read_yaml_file env d (host_yml cfg))) (\<lambda>host.
     bindA (liftE (read_audio env d (d2p_yml cfg) True)) (\<lambda>d2p.
     bindA (liftE (bindE (read_audio env d (p2d_yml cfg) False) (shown_uplink_gain env d cfg))) (\<lambda>p2d.
     bindA (liftE (py_get bridge ''brandmeister'' (PDict []))) (\<lambda>bm.
     bindA (liftE (py_get bridge ''routing'' (PDict []))) (\<lambda>routing.
     bindA (liftE (bindE (py_get host ''protocols'' (PDict [])) (\<lambda>v. py_get v ''p25'' (PDict [])))) (\<lambda>p25.
     bindA (liftE (py_get p25 ''motorolaLocation'' (PDict []))) (\<lambda>location.
     bindA (liftE (py_get p25 ''motorolaPacketData'' (PDict []))) (\<lambda>packet_data.
     bindA (liftE (mapping_entries routing)) (\<lambda>ms.
     bindA (liftE (py_get packet_data ''arsServerAddress'' (PStr []))) (\<lambda>ars.
     let own = strip (py_str (value_repr env) ars) in
     thenA (upd (\<lambda>s. s\<lparr>station := set_connection_config ms (if own = [] then public_ars cfg else own) (station s)\<rparr>)) (
     bindA (liftE (int_at routing ''dynamicTimeoutSeconds'' 600)) (\<lambda>timeout.
     thenA (upd (\<lambda>s. s\<lparr>station := set_talkgroup_config timeout (station s)\<rparr>)) (
     bindA (liftE (mapE (file_text d) ([bridge_yml cfg, host_yml cfg, d2p_yml cfg, p2d_yml cfg] @
       (if d (brew_json cfg) = None then [] else [brew_json cfg])))) (\<lambda>texts.
     bindA (liftE (int_at bm ''repeaterId'' 0)) (\<lambda>repeater_id.
     bindA (liftE (py_get bm ''callsign'' (PStr []))) (\<lambda>callsign.
     bindA (liftE (timeslot_at bm)) (\<lambda>timeslot.
     bindA (liftE (int_at bm ''rxFrequency'' 0)) (\<lambda>rx.
     bindA (liftE (int_at bm ''txFrequency'' 0)) (\<lambda>tx.
     bindA (liftE (py_get bm ''address'' (PStr []))) (\<lambda>address.
     bindA (liftE (py_get bm ''password'' PNone)) (\<lambda>secret.
     bindA (liftE (bindE (py_get routing ''staticTalkgroups'' PNone) (\<lambda>v. bindE (py_iter (py_or v (PList []))) (mapE py_int)))) (\<lambda>static_groups.
     bindA (liftE (gps_at location)) (\<lambda>gps.
     ret (PDict
       [(''version'', PStr (take 16 (sha256 env (concat texts)))),
        (''repeaterId'', PInt repeater_id),
        (''brandmeisterCallsign'', PStr (py_str (value_repr env) callsign)),
        (''brandmeisterTimeslot'', PInt timeslot),
        (''brandmeisterRxFrequency'', PInt rx),
        (''brandmeisterTxFrequency'', PInt tx),
        (''brandmeisterAddress'', PStr (py_str (value_repr env) address)),
        (''brandmeisterPasswordConfigured'', PBool (truthy secret)),
        (''dynamicTimeoutSeconds'', PInt timeout),
        (''talkgroupMappings'', mapping_dicts ms),
        (''staticTalkgroups'', PList (map PInt static_groups)),
        (''gps'', PDict (map (\<lambda>(k, i). (k, PInt i)) gps)),
        (''audio'', PDict [(''dmrToP25'', PDict d2p), (''p25ToDmr'', PDict p2d)])]))))))))))))))))))))))))))"

section \<open>What is stored now\<close>

record current_settings =
  cur_id :: int
  cur_callsign :: string
  cur_timeslot :: int
  cur_has_timeslot :: bool
  cur_slot1 :: bool
  cur_slot2 :: bool
  cur_sms_slot :: "int option"
  cur_rx :: int
  cur_tx :: int
  cur_timeout :: int
  cur_mappings :: "(int \<times> int) list"
  cur_gps :: "(string \<times> int) list"
  cur_d2p :: audio
  cur_p2d :: audio
  cur_gain :: real
  cur_brew :: "(string \<times> pyval) list option"

definition stored_brew :: "settings_env \<Rightarrow> (string \<rightharpoonup> string) \<Rightarrow> settings_paths \<Rightarrow> py_error + (string \<times> pyval) list option" where
  "stored_brew env d cfg = (case d (brew_json cfg) of
     None \<Rightarrow> Inr None
   | Some t \<Rightarrow> bindE (json env (universal_newlines t)) (\<lambda>v. case v of
       PDict doc \<Rightarrow> Inr (Some doc)
     | _ \<Rightarrow> Inl (ValueError (''Invalid JSON document: '' @ brew_json cfg))))"

text \<open>\<^verbatim>\<open>"bmSlot" in sms\<close>, with the number it has.\<close>

definition stored_sms_slot :: "pyval \<Rightarrow> py_error + int option" where
  "stored_sms_slot sms = (case sms of
     PDict d \<Rightarrow> (case map_of d ''bmSlot'' of None \<Rightarrow> Inr None | Some v \<Rightarrow> bindE (py_int v) (\<lambda>i. Inr (Some i)))
   | _ \<Rightarrow> Inr None)"

definition stored_key :: "pyval \<Rightarrow> string \<Rightarrow> bool" where
  "stored_key v key = (case v of PDict d \<Rightarrow> map_of d key \<noteq> None | _ \<Rightarrow> False)"

definition stored_settings :: "settings_env \<Rightarrow> settings_paths \<Rightarrow> (string \<rightharpoonup> string) \<Rightarrow> py_error + current_settings" where
  "stored_settings env cfg d =
     bindE (read_yaml_file env d (bridge_yml cfg)) (\<lambda>bridge.
     bindE (read_yaml_file env d (host_yml cfg)) (\<lambda>host.
     bindE (read_audio env d (d2p_yml cfg) True) (\<lambda>d2p.
     bindE (read_audio env d (p2d_yml cfg) False) (\<lambda>p2d.
     bindE (stored_brew env d cfg) (\<lambda>brew.
     bindE (case brew of None \<Rightarrow> Inr p2d | Some doc \<Rightarrow> with_uplink_gain doc p2d) (\<lambda>p2d.
     bindE (py_get bridge ''brandmeister'' (PDict [])) (\<lambda>bm.
     bindE (py_get bridge ''routing'' (PDict [])) (\<lambda>routing.
     bindE (bindE (py_get host ''protocols'' (PDict [])) (\<lambda>v. bindE (py_get v ''p25'' (PDict [])) (\<lambda>p25.
       py_get p25 ''motorolaLocation'' (PDict [])))) (\<lambda>location.
     bindE (int_at bm ''repeaterId'' 0) (\<lambda>current_id.
     bindE (py_get bm ''callsign'' (PStr [])) (\<lambda>callsign.
     bindE (timeslot_at bm) (\<lambda>timeslot.
     bindE (py_get bm ''slot1'' (PBool False)) (\<lambda>slot1.
     bindE (py_get bm ''slot2'' (PBool False)) (\<lambda>slot2.
     bindE (bindE (py_get bridge ''sms'' (PDict [])) stored_sms_slot) (\<lambda>sms_slot.
     bindE (int_at bm ''rxFrequency'' 0) (\<lambda>rx.
     bindE (int_at bm ''txFrequency'' 0) (\<lambda>tx.
     bindE (int_at routing ''dynamicTimeoutSeconds'' 600) (\<lambda>timeout.
     bindE (mapping_entries routing) (\<lambda>ms.
     bindE (gps_at location) (\<lambda>gps.
     Inr \<lparr>cur_id = current_id, cur_callsign = upper (strip (py_str (value_repr env) callsign)), cur_timeslot = timeslot,
       cur_has_timeslot = stored_key bm ''timeslot'', cur_slot1 = truthy slot1, cur_slot2 = truthy slot2,
       cur_sms_slot = sms_slot, cur_rx = rx, cur_tx = tx, cur_timeout = timeout, cur_mappings = ms, cur_gps = gps,
       cur_d2p = d2p, cur_p2d = p2d, cur_gain = level p2d ''txAudioGain'', cur_brew = brew\<rparr>))))))))))))))))))))"

section \<open>What changes\<close>

definition timeslot_changed :: "current_settings \<Rightarrow> settings \<Rightarrow> bool" where
  "timeslot_changed c v \<longleftrightarrow> \<not> cur_has_timeslot c \<or> cur_timeslot c \<noteq> new_timeslot v \<or>
     cur_slot1 c \<noteq> (new_timeslot v = 1) \<or> cur_slot2 c \<noteq> (new_timeslot v = 2) \<or>
     (case cur_sms_slot c of None \<Rightarrow> False | Some i \<Rightarrow> i \<noteq> new_timeslot v)"

definition password_changed :: "settings \<Rightarrow> bool" where
  "password_changed v \<longleftrightarrow> new_password v \<noteq> []"

definition routing_changed :: "current_settings \<Rightarrow> settings \<Rightarrow> bool" where
  "routing_changed c v \<longleftrightarrow> cur_timeout c \<noteq> new_timeout v \<or> cur_mappings c \<noteq> new_mappings v"

definition bridge_changed :: "current_settings \<Rightarrow> settings \<Rightarrow> bool" where
  "bridge_changed c v \<longleftrightarrow> cur_id c \<noteq> new_id v \<or> cur_callsign c \<noteq> new_callsign v \<or> timeslot_changed c v \<or>
     cur_rx c \<noteq> new_rx v \<or> cur_tx c \<noteq> new_tx v \<or> routing_changed c v \<or> password_changed v"

definition host_changed :: "current_settings \<Rightarrow> settings \<Rightarrow> bool" where
  "host_changed c v \<longleftrightarrow> cur_gps c \<noteq> new_gps v"

text \<open>Equality of two dictionaries.\<close>

definition same_dict :: "audio \<Rightarrow> audio \<Rightarrow> bool" where
  "same_dict a b \<longleftrightarrow> set (map fst a) = set (map fst b) \<and> list_all (\<lambda>k. map_of a k = map_of b k) (map fst a)"

definition d2p_changed :: "current_settings \<Rightarrow> settings \<Rightarrow> bool" where
  "d2p_changed c v \<longleftrightarrow> \<not> same_dict (cur_d2p c) (new_d2p v)"

definition p2d_changed :: "current_settings \<Rightarrow> settings \<Rightarrow> bool" where
  "p2d_changed c v \<longleftrightarrow> \<not> same_dict (cur_p2d c) (new_p2d v)"

definition gain_changed :: "current_settings \<Rightarrow> settings \<Rightarrow> bool" where
  "gain_changed c v \<longleftrightarrow> cur_brew c \<noteq> None \<and> cur_gain c \<noteq> level (new_p2d v) ''txAudioGain''"

definition anything_changed :: "current_settings \<Rightarrow> settings \<Rightarrow> bool" where
  "anything_changed c v \<longleftrightarrow> bridge_changed c v \<or> host_changed c v \<or> d2p_changed c v \<or> p2d_changed c v"

definition targets_of :: "bool \<Rightarrow> current_settings \<Rightarrow> settings \<Rightarrow> string list" where
  "targets_of has_gateway c v =
     (if password_changed v \<and> has_gateway then [''dmrgateway''] else []) @
     (if bridge_changed c v then [''quantarbridge''] else []) @
     (if password_changed v then [''sms-bridge''] else []) @
     (if host_changed c v then [''dvmhost''] else []) @
     (if d2p_changed c v then [''dmr-to-p25''] else []) @
     (if p2d_changed c v then [''p25-to-dmr''] else []) @
     (if cur_brew c \<noteq> None \<and> (password_changed v \<or> routing_changed c v \<or> gain_changed c v) then [''brew-audio''] else [])"

section \<open>The new texts\<close>

definition hex_digit :: "nat \<Rightarrow> char" where
  "hex_digit n = (if n < 10 then digit_char n else char_of (87 + n))"

text \<open>\<^verbatim>\<open>json.dumps(s, ensure_ascii=True)\<close>\<close>

definition json_char :: "char \<Rightarrow> string" where
  "json_char c =
     (if code c = 34 then [CHR 0x5C, CHR 0x22] else if code c = 92 then [CHR 0x5C, CHR 0x5C]
      else if code c = 10 then [CHR 0x5C, CHR ''n''] else if code c = 13 then [CHR 0x5C, CHR ''r'']
      else if code c = 9 then [CHR 0x5C, CHR ''t''] else if code c = 8 then [CHR 0x5C, CHR ''b'']
      else if code c = 12 then [CHR 0x5C, CHR ''f'']
      else if code c < 32 \<or> 126 < code c then CHR 0x5C # ''u00'' @ [hex_digit (code c div 16), hex_digit (code c mod 16)]
      else [c])"

definition json_string :: "string \<Rightarrow> string" where
  "json_string s = CHR 0x22 # concat (map json_char s) @ [CHR 0x22]"

fun lf_lines :: "string \<Rightarrow> string \<Rightarrow> string list" where
  "lf_lines acc [] = [rev acc]"
| "lf_lines acc (c # cs) = (if c = LF then rev acc # lf_lines [] cs else lf_lines (c # acc) cs)"

text \<open>\<^verbatim>\<open>re.search(r"(?m)^sms:\s*$", text)\<close>\<close>

definition has_sms_section :: "string \<Rightarrow> bool" where
  "has_sms_section txt \<longleftrightarrow> list_ex (\<lambda>l. prefix ''sms:'' l \<and> list_all is_space (drop 4 l)) (lf_lines [] txt)"

definition yaml_bool :: "bool \<Rightarrow> string" where
  "yaml_bool b = (if b then ''true'' else ''false'')"

definition edit_timeslot :: "int \<Rightarrow> string \<Rightarrow> py_error + string" where
  "edit_timeslot slot txt =
     bindE (upsert_section_scalar txt ''brandmeister'' ''timeslot'' (show_int slot)) (\<lambda>txt.
     bindE (upsert_section_scalar txt ''brandmeister'' ''slot1'' (yaml_bool (slot = 1))) (\<lambda>txt.
     bindE (upsert_section_scalar txt ''brandmeister'' ''slot2'' (yaml_bool (slot = 2))) (\<lambda>txt.
     if has_sms_section txt then upsert_section_scalar txt ''sms'' ''bmSlot'' (show_int slot) else Inr txt)))"

definition edit_bridge :: "current_settings \<Rightarrow> settings \<Rightarrow> string \<Rightarrow> py_error + string" where
  "edit_bridge c v txt = foldE (\<lambda>(changed, edit) txt. if changed then edit txt else Inr txt)
     [(cur_id c \<noteq> new_id v, \<lambda>txt. replace_section_scalar txt ''brandmeister'' ''repeaterId'' (show_int (new_id v))),
      (cur_callsign c \<noteq> new_callsign v, \<lambda>txt. upsert_section_scalar txt ''brandmeister'' ''callsign'' (json_string (new_callsign v))),
      (timeslot_changed c v, edit_timeslot (new_timeslot v)),
      (cur_rx c \<noteq> new_rx v, \<lambda>txt. upsert_section_scalar txt ''brandmeister'' ''rxFrequency'' (show_int (new_rx v))),
      (cur_tx c \<noteq> new_tx v, \<lambda>txt. upsert_section_scalar txt ''brandmeister'' ''txFrequency'' (show_int (new_tx v))),
      (password_changed v, \<lambda>txt. replace_section_scalar txt ''brandmeister'' ''password'' (json_string (new_password v))),
      (cur_timeout c \<noteq> new_timeout v, \<lambda>txt. upsert_section_scalar txt ''routing'' ''dynamicTimeoutSeconds'' (show_int (new_timeout v))),
      (cur_mappings c \<noteq> new_mappings v, \<lambda>txt. replace_mapping_block txt (new_mappings v))] txt"

definition edit_host :: "settings \<Rightarrow> string \<Rightarrow> py_error + string" where
  "edit_host v txt = foldE (\<lambda>(key, i) txt. replace_indented_scalar txt key i) (new_gps v) txt"

definition edit_audio :: "audio \<Rightarrow> audio \<Rightarrow> string \<Rightarrow> py_error + string" where
  "edit_audio old requested txt = foldE (\<lambda>(key, value) txt.
     if map_of old key = Some value then Inr txt
     else bindE (yaml_scalar value) (upsert_section_scalar txt ''system'' key)) requested txt"

text \<open>The texts before and after, by path, in the order they are written.\<close>

record plan =
  originals :: "(string, string) pydict"
  pending :: "(string, string) pydict"

definition planned :: "(string \<rightharpoonup> string) \<Rightarrow> bool \<Rightarrow> string \<Rightarrow> (string \<Rightarrow> py_error + string) \<Rightarrow> plan \<Rightarrow> py_error + plan" where
  "planned d changed path edit p =
     (if \<not> changed then Inr p
      else bindE (file_text d path) (\<lambda>original.
        let p = p\<lparr>originals := AList.update path original (originals p)\<rparr> in
        bindE (edit original) (\<lambda>updated. Inr (p\<lparr>pending := AList.update path updated (pending p)\<rparr>))))"

definition with_gain :: "settings_env \<Rightarrow> current_settings \<Rightarrow> settings \<Rightarrow> string" where
  "with_gain env c v =
     dump env (PDict (AList.update ''uplinkGain'' (dget (new_p2d v) ''txAudioGain'' PNone)
       (case cur_brew c of None \<Rightarrow> [] | Some doc \<Rightarrow> doc))) @ [LF]"

definition make_plan ::
  "settings_env \<Rightarrow> settings_paths \<Rightarrow> (string \<rightharpoonup> string) \<Rightarrow> current_settings \<Rightarrow> settings \<Rightarrow> py_error + plan" where
  "make_plan env cfg d c v =
     bindE (planned d (bridge_changed c v) (bridge_yml cfg) (edit_bridge c v) \<lparr>originals = [], pending = []\<rparr>) (\<lambda>p.
     bindE (planned d (host_changed c v) (host_yml cfg) (edit_host v) p) (\<lambda>p.
     bindE (planned d (d2p_changed c v) (d2p_yml cfg) (edit_audio (cur_d2p c) (new_d2p v)) p) (\<lambda>p.
     bindE (planned d (p2d_changed c v) (p2d_yml cfg) (edit_audio (cur_p2d c) (new_p2d v)) p) (\<lambda>p.
     bindE (planned d (gain_changed c v) (brew_json cfg) (\<lambda>_. Inr (with_gain env c v)) p) (\<lambda>p.
     planned d (password_changed v \<and> d (gateway_ini cfg) \<noteq> None) (gateway_ini cfg)
       (\<lambda>txt. write_ini_password (ini_sections env) (universal_newlines txt) (new_password v)) p)))))"

section \<open>Applying a change\<close>

definition file_name :: "string \<Rightarrow> string" where
  "file_name path = rev (takeWhile (\<lambda>c. c \<noteq> CHR ''/'') (rev path))"

definition yaml_path :: "string \<Rightarrow> bool" where
  "yaml_path path \<longleftrightarrow> (suffix ''.yml'' path \<and> file_name path \<noteq> ''.yml'') \<or> (suffix ''.yaml'' path \<and> file_name path \<noteq> ''.yaml'')"

definition back_up :: "settings_env \<Rightarrow> string \<Rightarrow> plan \<Rightarrow> (dash, unit) act" where
  "back_up env backup_path p = (case backup_fate env of
     Some e \<Rightarrow> raiseA e
   | None \<Rightarrow> forA (originals p) (\<lambda>(source, content) _. atomic_write env (backup_path @ ''/'' @ file_name source) content) ())"

definition apply_plan :: "settings_env \<Rightarrow> settings_paths \<Rightarrow> plan \<Rightarrow> string list \<Rightarrow> (dash, string list) act" where
  "apply_plan env cfg p targets =
     thenA (forA (pending p) (\<lambda>(path, content) _.
         bindA (liftE (if yaml_path path then bindE (yaml env content) (\<lambda>_. Inr ()) else Inr ())) (\<lambda>_.
         atomic_write env path content)) ())
       (restart env (restart_targets cfg) targets)"

definition roll_back :: "settings_env \<Rightarrow> settings_paths \<Rightarrow> plan \<Rightarrow> string list \<Rightarrow> py_error \<Rightarrow> (dash, string list) act" where
  "roll_back env cfg p targets e =
     thenA (forA (originals p) (\<lambda>(path, content) _. atomic_write env path content) ())
       (thenA (catchA (\<lambda>_. True) (restart env (restart_targets cfg) targets) (\<lambda>_. ret [])) (raiseA e))"

definition busy :: "int \<Rightarrow> py_error" where
  "busy seconds = SettingsBusyError (''Funkverkehr ist noch aktiv oder gerade erst beendet. Bitte nach '' @ show_int seconds @
     '' Sekunden Funkruhe erneut speichern; es wurde nichts ge'' @ [ae] @ ''ndert.'')"

definition carry_out ::
  "settings_env \<Rightarrow> settings_paths \<Rightarrow> settings \<Rightarrow> plan \<Rightarrow> string list \<Rightarrow> string \<Rightarrow> (dash, (string list \<times> string) option) act" where
  "carry_out env cfg v p targets backup_path =
     thenA (back_up env backup_path p) (
     bindA (catchA (\<lambda>_. True) (apply_plan env cfg p targets) (roll_back env cfg p targets)) (\<lambda>restarted.
     thenA (upd (\<lambda>s. s\<lparr>station := (station s)\<lparr>mappings := new_mappings v\<rparr>\<rparr>))
       (ret (Some (restarted, backup_path)))))"

text \<open>\<^verbatim>\<open>update\<close> up to its last statement: the restarted services and the backup, \<open>None\<close> when there was nothing to do.\<close>

definition apply_settings ::
  "settings_env \<Rightarrow> settings_paths \<Rightarrow> real \<Rightarrow> string \<Rightarrow> (string \<times> pyval) list \<Rightarrow> (dash, (string list \<times> string) option) act" where
  "apply_settings env cfg now backup_name payload =
     bindA (liftE (validate_settings payload)) (\<lambda>v.
     bindA (readA (\<lambda>s. liftE (stored_settings env cfg (disk s)))) (\<lambda>c.
     if \<not> anything_changed c v then ret None
     else bindA (readA (\<lambda>s. ret (targets_of (disk s (gateway_ini cfg) \<noteq> None) c v))) (\<lambda>targets.
     bindA (call (\<lambda>s. case restart_guard_remaining SETTINGS_RESTART_IDLE_GUARD_SECONDS now (station s) of
         (remaining, st) \<Rightarrow> (remaining, s\<lparr>station := st\<rparr>))) (\<lambda>remaining.
     if targets \<noteq> [] \<and> 0 < remaining then raiseA (busy remaining)
     else bindA (readA (\<lambda>s. liftE (make_plan env cfg (disk s) c v))) (\<lambda>p.
     carry_out env cfg v p targets (backup_dir cfg @ ''/'' @ backup_name))))))"

definition update_settings ::
  "settings_env \<Rightarrow> settings_paths \<Rightarrow> real \<Rightarrow> string \<Rightarrow> (string \<times> pyval) list \<Rightarrow> (dash, pyval) act" where
  "update_settings env cfg now backup_name payload =
     bindA (apply_settings env cfg now backup_name payload) (\<lambda>r.
     bindA (read_settings env cfg) (\<lambda>shown. case r of
       None \<Rightarrow> ret (PDict [(''changed'', PBool False), (''restarted'', PList []), (''settings'', shown)])
     | Some (restarted, backup_path) \<Rightarrow> ret (PDict [(''changed'', PBool True), (''restarted'', PList (map PStr restarted)),
         (''backup'', PStr backup_path), (''settings'', shown)])))"

end
