(* ===== verification/Dash_Safety.thy ===== *)
theory Dash_Safety
  imports Dash_Update
begin

text \<open>
  What a change of the settings does to the station: the settings are within their bounds, either every file is
  changed or none is, and nothing is touched near a call.
\<close>

section \<open>Settings within their bounds\<close>

definition value_in :: "audio_check \<Rightarrow> pyval option \<Rightarrow> bool" where
  "value_in check v = (case (check, v) of
     (FloatIn lo hi, Some (PFloat x)) \<Rightarrow> lo \<le> x \<and> x \<le> hi
   | (IntIn lo hi, Some (PInt i)) \<Rightarrow> lo \<le> i \<and> i \<le> hi
   | (BoolIn, Some (PBool b)) \<Rightarrow> True
   | _ \<Rightarrow> False)"

definition audio_ok :: "bool \<Rightarrow> audio \<Rightarrow> bool" where
  "audio_ok p25_output a \<longleftrightarrow> map fst a = map fst (audio_checks p25_output) \<and>
     list_all (\<lambda>(key, name, check). value_in check (map_of a key)) (audio_checks p25_output) \<and>
     (p25_output \<longrightarrow> level a ''p25EncodeAgcMinGain'' \<le> level a ''p25EncodeAgcMaxGain'' \<and>
        (level a ''p25EncodeHighCutHz'' \<le> 0 \<or> 1800 \<le> level a ''p25EncodeHighCutHz''))"

definition gps_ok :: "(string \<times> int) list \<Rightarrow> bool" where
  "gps_ok g \<longleftrightarrow> (\<exists>a b c. g = [(''initialDelaySeconds'', a), (''updateIntervalSeconds'', b), (''noFixRetrySeconds'', c)] \<and>
     1 \<le> a \<and> a \<le> 300 \<and> 30 \<le> b \<and> b \<le> 86400 \<and> 15 \<le> c \<and> c \<le> 3600)"

definition mappings_ok :: "(int \<times> int) list \<Rightarrow> bool" where
  "mappings_ok ms \<longleftrightarrow> 1 \<le> length ms \<and> length ms \<le> 64 \<and> distinct (map fst ms) \<and> distinct (map snd ms) \<and>
     list_all (\<lambda>(p25, bm). in_24bit p25 \<and> in_24bit bm) ms"

definition settings_ok :: "settings \<Rightarrow> bool" where
  "settings_ok v \<longleftrightarrow> 1 \<le> new_id v \<and> new_id v < 2 ^ 32 \<and> callsign_ok (new_callsign v) \<and> new_timeslot v \<in> {1, 2} \<and>
     10000000 \<le> new_rx v \<and> new_rx v \<le> 999999999 \<and> 10000000 \<le> new_tx v \<and> new_tx v \<le> 999999999 \<and>
     secret_ok (new_password v) \<and> 10 \<le> new_timeout v \<and> new_timeout v \<le> 86400 \<and> mappings_ok (new_mappings v) \<and>
     gps_ok (new_gps v) \<and> audio_ok True (new_d2p v) \<and> audio_ok False (new_p2d v)"

lemma validate_int_Inr: "validate_int v field lo hi = Inr i \<Longrightarrow> lo \<le> i \<and> i \<le> hi"
  by (auto simp: validate_int_def bindE_eq_Inr split: if_splits)

lemma round4_int: "round4 (of_int i) = of_int i"
  using py_round_of_int [of "i * 10000"] by (simp add: round4_def)

lemma round4_between:
  assumes "of_int a / 10000 \<le> x" "x \<le> of_int b / 10000"
  shows "of_int a / 10000 \<le> round4 x \<and> round4 x \<le> of_int b / 10000"
proof -
  have "a \<le> py_round (x * 10000)" by (rule py_round_ge) (use assms in simp)
  moreover have "py_round (x * 10000) \<le> b" by (rule py_round_le) (use assms in simp)
  ultimately show ?thesis by (simp add: round4_def divide_right_mono)
qed

text \<open>The bounds in use have four decimals.\<close>

definition round_bounds :: "audio_check \<Rightarrow> bool" where
  "round_bounds check \<longleftrightarrow> (case check of FloatIn lo hi \<Rightarrow> round4 lo = lo \<and> round4 hi = hi | _ \<Rightarrow> True)"

lemma validate_float_Inr:
  assumes "validate_float v field lo hi = Inr x" "round4 lo = lo" "round4 hi = hi"
  shows "lo \<le> x \<and> x \<le> hi"
proof -
  obtain y where y: "x = round4 y" "lo \<le> y" "y \<le> hi"
    using assms(1) by (auto simp: validate_float_def bindE_eq_Inr split: if_splits)
  have "of_int (py_round (lo * 10000)) / 10000 = lo" "of_int (py_round (hi * 10000)) / 10000 = hi"
    using assms(2,3) by (simp_all add: round4_def)
  then show ?thesis using round4_between [of "py_round (lo * 10000)" y "py_round (hi * 10000)"] y by simp
qed

lemma check_audio_Inr:
  assumes "check_audio d label (key, name, check) = Inr kv" "round_bounds check"
  shows "fst kv = key \<and> value_in check (Some (snd kv))"
  using assms validate_float_Inr validate_int_Inr
  by (cases check) (auto simp: check_audio_def Let_def bindE_eq_Inr value_in_def round_bounds_def validate_bool_def
      split: if_splits elim!: is_bool_value.elims)

lemma mapE_check_audio:
  assumes "mapE (check_audio d label) checks = Inr vals" "list_all (\<lambda>(key, name, check). round_bounds check) checks"
    "distinct (map fst checks)"
  shows "map fst vals = map fst checks \<and> list_all (\<lambda>(key, name, check). value_in check (map_of vals key)) checks"
  using assms
proof (induction checks arbitrary: vals)
  case (Cons x checks)
  obtain key nm check where x: "x = (key, nm, check)" by (cases x)
  obtain kv rest where v: "vals = kv # rest" "check_audio d label x = Inr kv" "mapE (check_audio d label) checks = Inr rest"
    using Cons.prems(1) by (auto simp: bindE_eq_Inr)
  have kv: "fst kv = key" "value_in check (Some (snd kv))" using check_audio_Inr v(2) x Cons.prems(2) by auto
  have IH: "map fst rest = map fst checks" "list_all (\<lambda>(key, name, check). value_in check (map_of rest key)) checks"
    using Cons.IH [OF v(3)] Cons.prems by auto
  have "value_in c (map_of vals k)" if "(k, n, c) \<in> set checks" for k n c
  proof -
    have "k \<noteq> key" using that Cons.prems(3) x by force
    then show ?thesis using IH(2) that v(1) kv(1) by (auto simp: list_all_iff)
  qed
  then show ?case using kv IH(1) v(1) x by (auto simp: list_all_iff)
qed simp

lemma audio_checks_round: "list_all (\<lambda>(key, name, check). round_bounds check) (audio_checks p25_output)"
proof -
  have "round4 (of_int i / 10000) = of_int i / 10000" for i by (simp add: round4_def)
  from this [of 8000] this [of 1000] this [of 100]
  have "round4 (4 / 5) = 4 / 5" "round4 (1 / 10) = 1 / 10" "round4 (1 / 100) = 1 / 100" by simp_all
  moreover have "round4 (numeral n) = numeral n" "round4 0 = 0" "round4 1 = 1" for n
    using round4_int [of "numeral n"] round4_int [of 0] round4_int [of 1] by simp_all
  ultimately show ?thesis by (simp add: audio_checks_def common_checks_def p25_checks_def dmr_checks_def round_bounds_def)
qed

lemma audio_checks_distinct: "distinct (map fst (audio_checks p25_output))"
  by (cases p25_output) (simp_all add: audio_checks_def common_checks_def p25_checks_def dmr_checks_def)

lemma validate_audio_ok: "validate_audio_direction v label p25_output = Inr a \<Longrightarrow> audio_ok p25_output a"
  using mapE_check_audio [OF _ audio_checks_round audio_checks_distinct]
  by (auto simp: validate_audio_direction_def audio_ok_def bindE_eq_Inr split: pyval.splits if_splits)

lemma check_mappings_ok:
  "check_mappings n A B es = Inr ms \<Longrightarrow> length ms = length es \<and> distinct (map fst ms) \<and> distinct (map snd ms) \<and>
     fst ` set ms \<inter> A = {} \<and> snd ` set ms \<inter> B = {} \<and> list_all (\<lambda>(p25, bm). in_24bit p25 \<and> in_24bit bm) ms"
proof (induction n A B es arbitrary: ms rule: check_mappings.induct)
  case (2 n A B raw es)
  obtain p25 bm ms' where m: "ms = (p25, bm) # ms'" "p25 \<notin> A" "bm \<notin> B" "in_24bit p25" "in_24bit bm"
      "check_mappings (n + 1) (insert p25 A) (insert bm B) es = Inr ms'"
      "validate_int (dget raw ''p25'' PNone) (''P25-TG '' @ show_int n) 1 16777215 = Inr p25"
      "validate_int (dget raw ''brandmeister'' PNone) (''BrandMeister-TG '' @ show_int n) 1 16777215 = Inr bm"
    using 2(2) validate_int_Inr by (fastforce simp: bindE_eq_Inr in_24bit_def split: if_splits)
  have "\<not> (p25 \<in> A \<or> bm \<in> B)" using m by simp
  from 2(1) [OF m(7,8) this m(6)] m(1-5) show ?case by auto
qed auto

lemma validate_settings_ok:
  assumes "validate_settings payload = Inr v"
  shows "settings_ok v"
proof -
  have m: "mappings_ok ms" if "validate_mappings x = Inr ms" for x ms
    using that check_mappings_ok [of 1 "{}" "{}"] by (auto simp: validate_mappings_def mappings_ok_def split: pyval.splits if_splits)
  have g: "gps_ok g" if "validate_gps x = Inr g" for x g
    using that validate_int_Inr by (fastforce simp: validate_gps_def gps_ok_def bindE_eq_Inr split: pyval.splits)
  have a: "audio_ok True (fst ab) \<and> audio_ok False (snd ab)" if "validate_audio x = Inr ab" for x ab
    using that validate_audio_ok by (auto simp: validate_audio_def bindE_eq_Inr split: pyval.splits)
  have c: "callsign_ok s" if "validate_callsign x = Inr s" for x s
    using that by (auto simp: validate_callsign_def Let_def split: option.splits if_splits)
  have s: "secret_ok s" if "validate_password x = Inr s" for x s
    using that by (auto simp: validate_password_def split: option.splits if_splits)
  note int_in = validate_int_Inr
  let ?f = "\<lambda>k. dget payload k PNone"
  obtain a b c' d e f g' h i j k where
    f: "validate_int (?f ''repeaterId'') ''Repeater-ID'' 1 4294967295 = Inr a"
      "validate_callsign (dget payload ''brandmeisterCallsign'' (PStr [])) = Inr b"
      "validate_int (?f ''brandmeisterTimeslot'') ''BrandMeister-Zeitschlitz'' 1 2 = Inr c'"
      "validate_int (?f ''brandmeisterRxFrequency'') ''Repeater-RX-Frequenz'' 10000000 999999999 = Inr d"
      "validate_int (?f ''brandmeisterTxFrequency'') ''Repeater-TX-Frequenz'' 10000000 999999999 = Inr e"
      "validate_password (dget payload ''brandmeisterPassword'' (PStr [])) = Inr f"
      "validate_int (?f ''dynamicTimeoutSeconds'') ''Ablaufzeit dynamischer Talkgroups'' 10 86400 = Inr g'"
      "validate_mappings (?f ''talkgroupMappings'') = Inr h" "validate_gps (?f ''gps'') = Inr i"
      "validate_audio (?f ''audio'') = Inr (j, k)"
    and v: "v = \<lparr>new_id = a, new_callsign = b, new_timeslot = c', new_rx = d, new_tx = e, new_password = f, new_timeout = g',
       new_mappings = h, new_gps = i, new_d2p = j, new_p2d = k\<rparr>"
    using assms unfolding validate_settings_def Let_def
    by (clarsimp simp: bindE_eq_Inr split: if_splits)
  have "c' = 1 \<or> c' = 2" using int_in [OF f(3)] by linarith
  then show ?thesis
    using int_in [OF f(1)] int_in [OF f(4)] int_in [OF f(5)] int_in [OF f(7)] c [OF f(2)] s [OF f(6)] m [OF f(8)] g [OF f(9)] a [OF f(10)]
    by (simp add: settings_ok_def v)
qed

section \<open>Writing several files\<close>

lemma write_frame:
  assumes "atomic_write env path t s = (r, s')"
  shows "station s' = station s" "services_restarted s' = services_restarted s" "service_count s' = service_count s"
    "write_count s' = write_count s + 1" "q \<noteq> path \<Longrightarrow> disk s' q = disk s q"
    "r = Inr () \<Longrightarrow> disk s' path = Some t" "r \<noteq> Inr () \<longleftrightarrow> write_fate env (write_count s) \<noteq> Written"
  using assms by (auto simp: atomic_write_def split: write_fate.splits)

definition write_each :: "('x \<Rightarrow> py_error + unit) \<Rightarrow> settings_env \<Rightarrow> ('x \<Rightarrow> string) \<Rightarrow> ('x \<Rightarrow> string) \<Rightarrow> 'x list \<Rightarrow> (dash, unit) act" where
  "write_each chk env pa te xs = forA xs (\<lambda>x _. bindA (liftE (chk x)) (\<lambda>_. atomic_write env (pa x) (te x))) ()"

lemma write_each_simps [simp]:
  "write_each chk env pa te [] = ret ()"
  "write_each chk env pa te (x # xs) = bindA (bindA (liftE (chk x)) (\<lambda>_. atomic_write env (pa x) (te x))) (\<lambda>_. write_each chk env pa te xs)"
  by (simp_all add: write_each_def)

definition writes_ok :: "('x \<Rightarrow> py_error + unit) \<Rightarrow> settings_env \<Rightarrow> ('x \<Rightarrow> string) \<Rightarrow> ('x \<Rightarrow> string) \<Rightarrow> 'x list \<Rightarrow> dash \<Rightarrow> py_error + unit \<Rightarrow> dash \<Rightarrow> bool" where
  "writes_ok chk env pa te xs s r s' \<longleftrightarrow>
     station s' = station s \<and> services_restarted s' = services_restarted s \<and> (\<forall>q. q \<notin> pa ` set xs \<longrightarrow> disk s' q = disk s q) \<and>
     (r = Inr () \<longrightarrow> distinct (map pa xs) \<longrightarrow> (\<forall>x \<in> set xs. disk s' (pa x) = Some (te x))) \<and>
     (r \<noteq> Inr () \<longrightarrow> (\<forall>x. chk x = Inr ()) \<longrightarrow> write_fate env (write_count s' - 1) \<noteq> Written)"

lemma write_each_ok: "write_each chk env pa te xs s = (r, s') \<Longrightarrow> writes_ok chk env pa te xs s r s'"
proof (induction xs arbitrary: s)
  case (Cons x xs)
  show ?case
  proof (cases "chk x")
    case (Inl e)
    then show ?thesis using Cons.prems by (auto simp: writes_ok_def)
  next
    case (Inr u)
    obtain a t where w: "atomic_write env (pa x) (te x) s = (a, t)" by (cases "atomic_write env (pa x) (te x) s")
    note f = write_frame [OF w]
    show ?thesis
    proof (cases a)
      case (Inl e)
      then have "r = Inl e" "s' = t" using Cons.prems Inr w by simp_all
      then show ?thesis using f Inl by (auto simp: writes_ok_def)
    next
      case ok: (Inr u)
      then have "write_each chk env pa te xs t = (r, s')" using Cons.prems Inr w by simp
      from Cons.IH [OF this] show ?thesis using f(1,2,5,6) ok by (auto simp: writes_ok_def image_iff)
    qed
  qed
qed (auto simp: writes_ok_def)

lemma restart_frame:
  "restart env targets names s = (r, s') \<Longrightarrow> disk s' = disk s \<and> station s' = station s \<and> write_count s' = write_count s"
proof -
  have "keeps (\<lambda>t. disk t = disk s \<and> station t = station s \<and> write_count t = write_count s) (restart env targets names)"
    unfolding restart_def restart_target_def restart_service_def Let_def
    by (intro act_rules) auto
  moreover assume "restart env targets names s = (r, s')"
  ultimately show ?thesis by (auto simp: keeps_def dest!: spec [of _ s])
qed

section \<open>All or nothing\<close>

definition plan_ok :: "(string \<rightharpoonup> string) \<Rightarrow> plan \<Rightarrow> bool" where
  "plan_ok d p \<longleftrightarrow> dict_ok (originals p) \<and> dict_ok (pending p) \<and> fst ` set (pending p) = fst ` set (originals p) \<and>
     (\<forall>(path, t) \<in> set (originals p). d path = Some t)"

lemma planned_ok: "planned d changed path edit p = Inr p' \<Longrightarrow> plan_ok d p \<Longrightarrow> plan_ok d p'"
proof -
  assume a: "planned d changed path edit p = Inr p'" "plan_ok d p"
  show ?thesis
  proof (cases changed)
    case True
    then obtain t u where "d path = Some t"
        "p' = p\<lparr>originals := AList.update path t (originals p), pending := AList.update path u (pending p)\<rparr>"
      using a(1) by (auto simp: planned_def Let_def bindE_eq_Inr file_text_def split: option.splits)
    then show ?thesis using a(2) by (auto simp: plan_ok_def dest!: in_set_updateD)
  qed (use a in \<open>simp add: planned_def\<close>)
qed

lemma make_plan_ok: "make_plan env cfg d c v = Inr p \<Longrightarrow> plan_ok d p"
proof -
  have "plan_ok d \<lparr>originals = [], pending = []\<rparr>" by (simp add: plan_ok_def)
  moreover assume "make_plan env cfg d c v = Inr p"
  ultimately show ?thesis unfolding make_plan_def by (elim bindE_InrE) (blast intro: planned_ok)
qed

definition with_pending :: "plan \<Rightarrow> (string \<rightharpoonup> string) \<Rightarrow> string \<rightharpoonup> string" where
  "with_pending p d path = (case map_of (pending p) path of None \<Rightarrow> d path | Some t \<Rightarrow> Some t)"

lemma apply_plan_disk:
  assumes "apply_plan env cfg p targets s = (r, s')" "dict_ok (pending p)"
  shows "station s' = station s" "path \<notin> fst ` set (pending p) \<Longrightarrow> disk s' path = disk s path"
    "r = Inr x \<Longrightarrow> disk s' path = with_pending p (disk s) path"
proof -
  let ?chk = "\<lambda>(path, content). if yaml_path path then bindE (yaml env content) (\<lambda>_. Inr ()) else Inr ()"
  let ?w = "write_each ?chk env fst snd (pending p)"
  have a: "apply_plan env cfg p targets = thenA ?w (restart env (restart_targets cfg) targets)"
    unfolding apply_plan_def write_each_def by (simp add: case_prod_unfold)
  obtain u t where w: "?w s = (u, t)" by (cases "?w s")
  note o = write_each_ok [OF w, unfolded writes_ok_def]
  have "station s' = station t \<and> disk s' = disk t \<and> (r = Inr x \<longrightarrow> u = Inr ())" for x
    using assms(1) w restart_frame [of env "restart_targets cfg" targets t] unfolding a
    by (cases u) (auto simp del: write_each_simps)
  then have t: "station s' = station t" "disk s' = disk t" "r = Inr x \<Longrightarrow> u = Inr ()" by blast+
  show "station s' = station s" using t o by simp
  show "disk s' path = disk s path" if "path \<notin> fst ` set (pending p)" using that t o by auto
  show "disk s' path = with_pending p (disk s) path" if "r = Inr x"
  proof (cases "map_of (pending p) path")
    case None
    then have "path \<notin> fst ` set (pending p)" by (simp add: map_of_eq_None_iff)
    then show ?thesis using t(2) o None by (auto simp: with_pending_def)
  next
    case (Some c)
    then show ?thesis using t(2,3) that o assms(2) map_of_SomeD [OF Some] by (force simp: with_pending_def dict_ok_def)
  qed
qed

lemma roll_back_disk:
  assumes "roll_back env cfg p targets e s = (r, s')" "write_fate env (write_count s' - 1) = Written" "dict_ok (originals p)"
  shows "station s' = station s" "disk s' path = (case map_of (originals p) path of None \<Rightarrow> disk s path | Some t \<Rightarrow> Some t)"
    "\<exists>e. r = Inl e"
proof -
  let ?w = "write_each (\<lambda>_. Inr ()) env fst snd (originals p)"
  let ?rest = "thenA (catchA (\<lambda>_. True) (restart env (restart_targets cfg) targets) (\<lambda>_. ret [])) (raiseA e) :: (dash, string list) act"
  have a: "roll_back env cfg p targets e = thenA ?w ?rest"
    unfolding roll_back_def write_each_def by (simp add: case_prod_unfold)
  obtain u t where w: "?w s = (u, t)" by (cases "?w s")
  note o = write_each_ok [OF w, unfolded writes_ok_def]
  obtain r0 t0 where r0: "restart env (restart_targets cfg) targets t = (r0, t0)" by (cases "restart env (restart_targets cfg) targets t")
  have rest: "?rest t = (Inl e, t0)" using r0 by (simp add: thenA_def bindA_def catchA_def split: sum.split)
  have u: "u = Inr ()"
  proof (rule ccontr)
    assume n: "u \<noteq> Inr ()"
    then have "s' = t" using assms(1) w unfolding a by (cases u) (auto simp del: write_each_simps)
    then show False using n o assms(2) by simp
  qed
  have t: "r = Inl e" "s' = t0" using assms(1) w u rest unfolding a by (auto simp del: write_each_simps)
  note f = restart_frame [OF r0]
  show "\<exists>e. r = Inl e" using t(1) by blast
  show "station s' = station s" using t(2) f o by simp
  show "disk s' path = (case map_of (originals p) path of None \<Rightarrow> disk s path | Some t \<Rightarrow> Some t)"
  proof (cases "map_of (originals p) path")
    case None
    then have "path \<notin> fst ` set (originals p)" by (simp add: map_of_eq_None_iff)
    then show ?thesis using t(2) f o None by auto
  next
    case (Some c)
    then show ?thesis using t(2) f u o assms(3) map_of_SomeD [OF Some] by (force simp: dict_ok_def)
  qed
qed

lemma back_up_disk:
  assumes "back_up env (backup_dir cfg @ ''/'' @ name) p s = (r, s')"
  shows "station s' = station s" "services_restarted s' = services_restarted s"
    "\<not> prefix (backup_dir cfg @ ''/'') path \<Longrightarrow> disk s' path = disk s path"
proof -
  let ?at = "\<lambda>x. (backup_dir cfg @ ''/'' @ name) @ ''/'' @ file_name (fst x)"
  let ?w = "write_each (\<lambda>_. Inr ()) env ?at snd (originals p)"
  have a: "back_up env (backup_dir cfg @ ''/'' @ name) p = (case backup_fate env of Some e \<Rightarrow> raiseA e | None \<Rightarrow> ?w)"
    unfolding back_up_def write_each_def by (simp add: case_prod_unfold split: option.split)
  have "s' = s \<or> ?w s = (r, s')" using assms unfolding a by (cases "backup_fate env") auto
  then have o: "station s' = station s" "services_restarted s' = services_restarted s"
      "\<And>q. q \<notin> ?at ` set (originals p) \<Longrightarrow> disk s' q = disk s q"
    using write_each_ok [of "\<lambda>_. Inr ()" env ?at snd "originals p" s r s'] by (auto simp: writes_ok_def)
  show "station s' = station s" "services_restarted s' = services_restarted s" by (rule o)+
  show "disk s' path = disk s path" if "\<not> prefix (backup_dir cfg @ ''/'') path"
  proof (rule o(3))
    show "path \<notin> ?at ` set (originals p)" using that by (auto simp: prefix_def)
  qed
qed

lemma carry_out_cases:
  assumes "carry_out env cfg v p targets bp s = (r, s')"
  obtains (backup) e where "back_up env bp p s = (Inl e, s')" "r = Inl e"
  | (applied) s1 x t where "back_up env bp p s = (Inr (), s1)"
      "catchA (\<lambda>_. True) (apply_plan env cfg p targets) (roll_back env cfg p targets) s1 = (x, t)"
      "case x of Inl e \<Rightarrow> r = Inl e \<and> s' = t | Inr l \<Rightarrow> r = Inr (Some (l, bp)) \<and> s' = t\<lparr>station := (station t)\<lparr>mappings := new_mappings v\<rparr>\<rparr>"
proof -
  obtain a s1 where b: "back_up env bp p s = (a, s1)" by (cases "back_up env bp p s")
  show ?thesis
  proof (cases a)
    case (Inl e)
    then show ?thesis using assms b backup [of e] by (simp add: carry_out_def)
  next
    case (Inr u)
    obtain x t where x: "catchA (\<lambda>_. True) (apply_plan env cfg p targets) (roll_back env cfg p targets) s1 = (x, t)"
      by (cases "catchA (\<lambda>_. True) (apply_plan env cfg p targets) (roll_back env cfg p targets) s1")
    have "case x of Inl e \<Rightarrow> r = Inl e \<and> s' = t | Inr l \<Rightarrow> r = Inr (Some (l, bp)) \<and> s' = t\<lparr>station := (station t)\<lparr>mappings := new_mappings v\<rparr>\<rparr>"
      using assms b Inr x by (cases x) (simp_all add: carry_out_def)
    with b x Inr show ?thesis using applied by simp
  qed
qed

text \<open>The course of a change: refused before anything was touched, nothing to do, or carried out.\<close>

lemma apply_settings_cases:
  assumes "apply_settings env cfg now name payload s = (r, s')"
  obtains (refused) e where "r = Inl e" "disk s' = disk s" "services_restarted s' = services_restarted s"
  | (nothing) "r = Inr None" "s' = s"
  | (begun) v c p st targets where "validate_settings payload = Inr v" "stored_settings env cfg (disk s) = Inr c"
      "make_plan env cfg (disk s) c v = Inr p" "targets = targets_of (disk s (gateway_ini cfg) \<noteq> None) c v" "targets \<noteq> []"
      "\<exists>n \<le> 0. restart_guard_remaining SETTINGS_RESTART_IDLE_GUARD_SECONDS now (station s) = (n, st)"
      "carry_out env cfg v p targets (backup_dir cfg @ ''/'' @ name) (s\<lparr>station := st\<rparr>) = (r, s')"
proof (cases "validate_settings payload")
  case (Inl e)
  then show ?thesis using assms refused [of e] by (simp add: apply_settings_def)
next
  case v: (Inr v)
  show ?thesis
  proof (cases "stored_settings env cfg (disk s)")
    case (Inl e)
    then show ?thesis using assms v refused [of e] by (simp add: apply_settings_def bindA_def)
  next
    case c: (Inr c)
    define targets where "targets = targets_of (disk s (gateway_ini cfg) \<noteq> None) c v"
    obtain n st where g: "restart_guard_remaining SETTINGS_RESTART_IDLE_GUARD_SECONDS now (station s) = (n, st)"
      by (cases "restart_guard_remaining SETTINGS_RESTART_IDLE_GUARD_SECONDS now (station s)")
    show ?thesis
    proof (cases "anything_changed c v")
      case False
      then have "r = Inr None" "s' = s" using assms v c by (simp_all add: apply_settings_def bindA_def)
      then show ?thesis by (rule nothing)
    next
      case changed: True
      then have t: "targets \<noteq> []" by (auto simp: targets_of_def targets_def anything_changed_def)
      have run: "(if 0 < n then raiseA (busy n) else bindA (readA (\<lambda>s. liftE (make_plan env cfg (disk s) c v))) (\<lambda>p.
          carry_out env cfg v p targets (backup_dir cfg @ ''/'' @ name))) (s\<lparr>station := st\<rparr>) = (r, s')"
        using assms t changed unfolding apply_settings_def v c targets_def
        by (simp add: bindA_def call_def c g del: append.simps append_Cons split: if_splits)
      show ?thesis
      proof (cases "0 < n")
        case True
        then show ?thesis using run refused [of "busy n"] by auto
      next
        case n: False
        show ?thesis
        proof (cases "make_plan env cfg (disk s) c v")
          case (Inl e)
          then show ?thesis using run n refused [of e] by (auto simp: bindA_def)
        next
          case (Inr p)
          then have "carry_out env cfg v p targets (backup_dir cfg @ ''/'' @ name) (s\<lparr>station := st\<rparr>) = (r, s')"
            using run n by (simp add: bindA_def)
          then show ?thesis using begun [OF v c Inr targets_def t] g n by auto
        qed
      qed
    qed
  qed
qed

lemma carry_out_applied:
  assumes "carry_out env cfg v p targets (backup_dir cfg @ ''/'' @ name) s = (r, s')" "r = Inr x" "plan_ok d p"
    "\<not> prefix (backup_dir cfg @ ''/'') path"
  shows "disk s' path = with_pending p (disk s) path"
  using assms(1)
proof (cases rule: carry_out_cases)
  case (applied s1 y t)
  have d1: "disk s1 path = disk s path" using back_up_disk(3) [OF applied(1) assms(4)] by simp
  obtain z w where z: "apply_plan env cfg p targets s1 = (z, w)" by (cases "apply_plan env cfg p targets s1")
  have "\<exists>l. z = Inr l \<and> t = w \<and> y = z"
  proof (cases z)
    case (Inl e)
    then have "roll_back env cfg p targets e w = (y, t)" using applied(2) z by (simp add: catchA_def)
    then have "\<exists>e. y = Inl e"
      unfolding roll_back_def thenA_def bindA_def by (auto split: prod.splits sum.splits)
    then show ?thesis using applied(3) assms(2) by auto
  qed (use applied(2) z in \<open>auto simp: catchA_def\<close>)
  then obtain l where l: "z = Inr l" "t = w" "y = Inr l" by blast
  then show ?thesis
    using applied(3) apply_plan_disk(3) [OF z _ l(1), of path] assms(3) d1 by (simp add: plan_ok_def with_pending_def split: option.split)
qed (use assms(2) in simp)

lemma settings_all_or_nothing:
  assumes "apply_settings env cfg now name payload s = (r, s')"
    and "write_fate env (write_count s' - 1) = Written" "\<not> prefix (backup_dir cfg @ ''/'') path"
  shows "case r of
      Inr (Some _) \<Rightarrow> \<exists>v c p. validate_settings payload = Inr v \<and> stored_settings env cfg (disk s) = Inr c \<and>
        make_plan env cfg (disk s) c v = Inr p \<and> disk s' path = with_pending p (disk s) path
    | _ \<Rightarrow> disk s' path = disk s path"
  using assms(1)
proof (cases rule: apply_settings_cases)
  case (begun v c p st targets)
  note ok = make_plan_ok [OF begun(3), unfolded plan_ok_def]
  from begun(7) show ?thesis
  proof (cases rule: carry_out_cases)
    case (backup e)
    then show ?thesis using back_up_disk(3) [OF backup(1) assms(3)] by simp
  next
    case (applied s1 x t)
    have d1: "disk s1 path = disk s path" using back_up_disk(3) [OF applied(1) assms(3)] by simp
    obtain y w where y: "apply_plan env cfg p targets s1 = (y, w)" by (cases "apply_plan env cfg p targets s1")
    show ?thesis
    proof (cases y)
      case (Inr l)
      then have "x = Inr l" "t = w" using applied(2) y by (simp_all add: catchA_def)
      then show ?thesis
        using applied(3) begun(1-3) apply_plan_disk(3) [OF y _ Inr, of path] ok d1 by (auto simp: with_pending_def split: option.splits)
    next
      case (Inl e)
      then have rb: "roll_back env cfg p targets e w = (x, t)" using applied(2) y by (simp add: catchA_def)
      have n: "write_count s' = write_count t" using applied(3) by (cases x) auto
      note rd = roll_back_disk [OF rb assms(2) [unfolded n]]
      obtain e' where e': "x = Inl e'" using rd(3) ok by blast
      have "disk t path = disk s path"
      proof (cases "map_of (originals p) path")
        case None
        then have "path \<notin> fst ` set (pending p)" using ok by (simp add: map_of_eq_None_iff)
        then show ?thesis using apply_plan_disk(2) [OF y] rd(2) [of path] None ok d1 by simp
      next
        case (Some c)
        then show ?thesis using rd(2) [of path] ok map_of_SomeD [OF Some] by auto
      qed
      then show ?thesis using applied(3) e' by simp
    qed
  qed
qed auto

section \<open>Nothing near a call\<close>

lemma touched_only_when_quiet:
  assumes "apply_settings env cfg now name payload s = (r, s')" "disk s' \<noteq> disk s \<or> services_restarted s' \<noteq> services_restarted s" "0 < now"
  shows "\<exists>st. restart_guard_remaining SETTINGS_RESTART_IDLE_GUARD_SECONDS now (station s) = (0, st)"
  using assms(1)
proof (cases rule: apply_settings_cases)
  case (begun v c p st targets)
  have "0 \<le> fst (restart_guard_remaining SETTINGS_RESTART_IDLE_GUARD_SECONDS now (station s))"
    by (simp add: restart_guard_remaining_def Let_def le_max_iff_disj)
  then show ?thesis using begun(6) by auto
qed (use assms(2) in auto)

end
