(* ===== verification/Dash_Readback.thy ===== *)
theory Dash_Readback
  imports Dash_Safety
begin

text \<open>
  The dashboard writes \<^verbatim>\<open>quantarbridge.yml\<close> line by line and the maintenance scripts read it line by line: the device
  that was saved is the device they read.
\<close>

section \<open>Replacing the block of the mappings\<close>

lemma lines_ok_replace:
  assumes "lines_ok (xs @ old @ ys)" "old \<noteq> []" "lines_ok (new @ ys)" "new \<noteq> []" "hd (hd new) \<noteq> LF"
  shows "lines_ok (xs @ new @ ys)"
  using assms(1)
proof (induction xs)
  case (Cons x xs)
  then obtain b t where x: "x = b @ t" "a_line b t"
      "xs @ old @ ys \<noteq> [] \<longrightarrow> t \<noteq> [] \<and> \<not> (t = [CR] \<and> hd (hd (xs @ old @ ys)) = LF)"
    by auto
  have IH: "lines_ok (xs @ new @ ys)" using Cons by simp
  have "t \<noteq> []" using x(3) assms(2) by blast
  moreover have "\<not> (t = [CR] \<and> hd (hd (xs @ new @ ys)) = LF)" using x(3) assms(2,4,5) by (cases xs) auto
  ultimately show ?case using lines_ok_ConsI [OF x(2) IH] x(1) by simp
qed (use assms(3) in simp)

definition full_line :: "string \<Rightarrow> bool" where
  "full_line l \<longleftrightarrow> (\<exists>b t. l = b @ t \<and> a_line b t \<and> (t = [LF] \<or> t = [CR, LF]) \<and> prefix ''  '' b)"

lemma full_line_facts:
  assumes "full_line l"
  shows "\<not> section_end l" "clean_head l" "ended l" "hd l \<noteq> LF"
proof -
  obtain b t where l: "l = b @ t" "a_line b t" "t = [LF] \<or> t = [CR, LF]" "prefix ''  '' b" using assms by (auto simp: full_line_def)
  then obtain r where r: "b = CHR '' '' # CHR '' '' # r" by (auto simp: prefix_def)
  have sp: "is_space CHR '' ''" by code_simp
  show "\<not> section_end l" using sp l(1) r by (simp add: section_end_def indented_def)
  show "clean_head l" using sp r chop_line [OF l(2)] l(1) by (simp add: clean_head_def indented_def)
  show "ended l" using l(1,3) by (auto simp: ended_def)
  show "hd l \<noteq> LF" using l(1) r by simp
qed

lemma lines_ok_full: "list_all full_line new \<Longrightarrow> lines_ok ys \<Longrightarrow> lines_ok (new @ ys)"
proof (induction new)
  case (Cons n new)
  then obtain b t where n: "n = b @ t" "a_line b t" "t = [LF] \<or> t = [CR, LF]" by (auto simp: full_line_def)
  have "lines_ok ((b @ t) # new @ ys)"
    by (rule lines_ok_ConsI [OF n(2)]) (use Cons n(3) in auto)
  then show ?case using n(1) by simp
qed simp

lemma show_int_break_free: "break_free (show_int i)"
proof -
  have "list_all (\<lambda>c. \<not> is_linebreak c) (show_nat n)" for n
    using show_nat_digits [of n] is_digit_not_linebreak by (auto simp: list_all_iff)
  moreover have "\<not> is_linebreak CHR ''-''" by code_simp
  ultimately show ?thesis by (simp add: break_free_def show_int_def)
qed

lemma break_free_append: "break_free (a @ b) \<longleftrightarrow> break_free a \<and> break_free b"
  by (simp add: break_free_def)

lemma mapping_lines_full:
  assumes "newline = [LF] \<or> newline = [CR, LF]"
  shows "list_all full_line (mapping_lines newline ms)" "mapping_lines newline ms \<noteq> []"
proof -
  have lit: "break_free ''  talkgroupMappings:''" "break_free ''    - p25: ''" "break_free ''      brandmeister: ''" by code_simp+
  have f: "full_line (b @ newline)" if b: "break_free b" "prefix ''  '' b" for b
  proof -
    have "a_line b newline" using assms b(1) by (elim disjE) (simp_all add: a_line_def break_free_def)
    then show ?thesis unfolding full_line_def using assms b(2) by blast
  qed
  have "full_line (''  talkgroupMappings:'' @ newline)" by (rule f [OF lit(1)]) simp
  moreover have "full_line (''    - p25: '' @ show_int a @ newline)" for a
  proof -
    have "break_free (''    - p25: '' @ show_int a)" using lit(2) show_int_break_free by (simp only: break_free_append simp_thms)
    then have "full_line ((''    - p25: '' @ show_int a) @ newline)" by (rule f) simp
    then show ?thesis by simp
  qed
  moreover have "full_line (''      brandmeister: '' @ show_int a @ newline)" for a
  proof -
    have "break_free (''      brandmeister: '' @ show_int a)" using lit(3) show_int_break_free by (simp only: break_free_append simp_thms)
    then have "full_line ((''      brandmeister: '' @ show_int a) @ newline)" by (rule f) simp
    then show ?thesis by simp
  qed
  ultimately show "list_all full_line (mapping_lines newline ms)"
    by (auto simp: mapping_lines_def list_all_iff)
  show "mapping_lines newline ms \<noteq> []" by (simp add: mapping_lines_def)
qed

lemma mapping_block_edit:
  assumes "replace_mapping_block doc ms = Inr doc'" "clean_text doc"
  shows "clean_text doc'" "name_ok s2 \<Longrightarrow> s2 \<noteq> ''routing'' \<Longrightarrow> section_scalar doc' s2 k2 = section_scalar doc s2 k2"
proof -
  let ?ls = "keep_lines doc"
  have routing: "name_ok ''routing''" by code_simp
  obtain start stop k where sb: "section_bounds ?ls ''routing'' = Inr (start, stop)"
      and k: "first_in (key_line ''talkgroupMappings'') (Suc start) stop ?ls = Some k"
      and new: "doc' = concat (take k ?ls @ mapping_lines (text_ending doc) ms @
        drop (Suc k + length (takeWhile block_line (take (stop - Suc k) (drop (Suc k) ?ls)))) ?ls)"
    using assms(1) by (auto simp: replace_mapping_block_def Let_def bindE_eq_Inr split: option.splits)
  from sb obtain before head body rest where ls: "?ls = before @ head # body @ rest" "framed ''routing'' before head body rest"
      "start = length before" "stop = Suc (length before) + length body"
    by (rule section_bounds_split)
  have ls': "?ls = (before @ [head]) @ body @ rest" "Suc start = length (before @ [head])" "stop = length (before @ [head]) + length body"
    using ls by simp_all
  from k obtain b1 l b2 where b: "body = b1 @ l # b2" "k = length (before @ [head]) + length b1"
    by (rule first_in_Some [OF _ ls'])
  define blk where "blk = takeWhile block_line b2"
  define b3 where "b3 = dropWhile block_line b2"
  have b2: "b2 = blk @ b3" by (simp add: blk_def b3_def)
  have "take (stop - Suc k) (drop (Suc k) ?ls) = b2" using ls(1,4) b by simp
  then have blk_len: "length (takeWhile block_line (take (stop - Suc k) (drop (Suc k) ?ls))) = length blk" by (simp add: blk_def)
  let ?new = "mapping_lines (text_ending doc) ms" and ?old = "l # blk"
  have te: "text_ending doc = [LF] \<or> text_ending doc = [CR, LF]" by (simp add: text_ending_def)
  note nl = mapping_lines_full [OF te, of ms]
  let ?ls' = "before @ head # (b1 @ ?new @ b3) @ rest"
  have old: "?ls = (before @ head # b1) @ ?old @ (b3 @ rest)" using ls(1) b(1) b2 by simp
  have doc': "doc' = concat ?ls'"
    using new blk_len b(2) by (subst (asm) old) (simp add: old)
  have ok: "lines_ok ?ls" "doc = concat ?ls" using keep_lines_ok [of doc] by auto
  have nf: "hd (hd ?new) \<noteq> LF" using full_line_facts(4) nl by (cases ?new) auto
  have tail: "lines_ok (b3 @ rest)" using lines_ok_append [of "before @ head # b1 @ ?old" "b3 @ rest"] ok(1) old by simp
  have ok': "lines_ok ?ls'"
    using lines_ok_replace [of "before @ head # b1" ?old "b3 @ rest" ?new] ok(1) old lines_ok_full [OF nl(1) tail] nl(2) nf by simp
  have k': "keep_lines doc' = ?ls'" using keep_lines_concat [OF ok'] doc' by simp
  have clean: "list_all clean_head ?ls" "ended (last ?ls)" using assms(2) ls(1) by (auto simp: clean_text_def)
  have nc: "list_all clean_head ?new" "list_all (\<lambda>l. \<not> section_end l) ?new" "ended (last ?new)"
    using nl full_line_facts by (auto simp: list_all_iff)
  have "list_all clean_head ?ls'" using clean(1) nc(1) old by simp
  moreover have "ended (last ?ls')"
  proof (cases "b3 @ rest = []")
    case True
    then show ?thesis using nc(3) nl(2) by auto
  next
    case False
    then show ?thesis using clean(2) old by (cases "rest = []") auto
  qed
  ultimately show "clean_text doc'" using k' by (simp add: clean_text_def)
  show "section_scalar doc' s2 k2 = section_scalar doc s2 k2" if "name_ok s2" "s2 \<noteq> ''routing''"
  proof -
    have f: "is_head ''routing'' head" "list_all (\<lambda>l. \<not> section_end l) body" "list_all (\<lambda>l. \<not> section_end l) (b1 @ ?new @ b3)"
      using ls(2) nc(2) b(1) b2 by (auto simp: framed_def)
    from section_lines_other [OF ok(1) [unfolded ls(1)] ok' f routing that]
    show ?thesis using ok(2) ls(1) doc' by (simp add: section_scalar_def)
  qed
qed

section \<open>The edits of the bridge's file\<close>

lemma code_char_of: "n < 256 \<Longrightarrow> code (char_of n) = n"
  by (simp add: code_def)

lemma json_char_break_free: "break_free (json_char c)"
proof -
  have h: "\<not> is_linebreak (hex_digit n)" if "n < 16" for n
  proof (cases "n < 10")
    case True
    then show ?thesis using is_digit_not_linebreak by (simp add: hex_digit_def)
  next
    case False
    then have "code (hex_digit n) = 87 + n" using that by (simp add: hex_digit_def code_char_of)
    then show ?thesis using False that by (simp add: is_linebreak_def)
  qed
  have "code c < 256" by (simp add: code_def)
  then have "code c div 16 < 16" "code c mod 16 < 16" by auto
  note hx = h [OF this(1)] h [OF this(2)]
  have lit: "\<not> is_linebreak CHR 0x5C" "\<not> is_linebreak CHR 0x22" "\<not> is_linebreak CHR ''n''" "\<not> is_linebreak CHR ''r''"
    "\<not> is_linebreak CHR ''t''" "\<not> is_linebreak CHR ''b''" "\<not> is_linebreak CHR ''f''" "\<not> is_linebreak CHR ''u''"
    "\<not> is_linebreak CHR ''0''" by code_simp+
  have "\<not> is_linebreak c" if "\<not> (code c < 32 \<or> 126 < code c)" using that by (auto simp: is_linebreak_def)
  then show ?thesis using hx lit by (auto simp: json_char_def break_free_def)
qed

lemma json_string_break_free: "break_free (json_string s)"
proof -
  have "break_free (concat (map json_char s))"
    by (induction s) (simp_all add: break_free_append json_char_break_free, simp add: break_free_def)
  moreover have "\<not> is_linebreak CHR 0x22" by code_simp
  ultimately show ?thesis by (simp add: json_string_def break_free_def)
qed

section \<open>Values that are read back\<close>

text \<open>A plain value has no blanks, no comment sign and no quotes; the flags and numbers the dashboard writes are plain, a
  text is written between double quotes.\<close>

definition plain_char :: "char \<Rightarrow> bool" where
  "plain_char c \<longleftrightarrow> \<not> is_space c \<and> c \<noteq> CHR ''#'' \<and> c \<noteq> CHR 0x22 \<and> c \<noteq> CHR 0x27"

definition plain :: "string \<Rightarrow> bool" where "plain x \<longleftrightarrow> list_all plain_char x"

definition carried_text :: "string \<Rightarrow> bool" where
  "carried_text t \<longleftrightarrow>
     list_all (\<lambda>c. 32 \<le> code c \<and> code c \<le> 126 \<and> c \<noteq> CHR ''#'' \<and> c \<noteq> CHR 0x22 \<and> c \<noteq> CHR 0x5C) t"

definition written_as :: "string \<Rightarrow> string \<Rightarrow> bool" where
  "written_as x t \<longleftrightarrow> (\<exists>v. yaml_scalar v = Inr x \<and> t = x) \<or> (\<exists>i. x = show_int i \<and> t = x) \<or>
     (x = json_string t \<and> carried_text t)"

lemma plain_simps [simp]:
  "plain []" "plain (c # x) \<longleftrightarrow> plain_char c \<and> plain x" "plain (x @ y) \<longleftrightarrow> plain x \<and> plain y"
  by (simp_all add: plain_def)

lemma plain_lits [simp]:
  "plain_char CHR ''-''" "plain_char CHR ''.''" "plain_char CHR ''0''" "plain_char CHR ''t''" "plain_char CHR ''r''"
  "plain_char CHR ''u''" "plain_char CHR ''e''" "plain_char CHR ''f''" "plain_char CHR ''a''" "plain_char CHR ''l''"
  "plain_char CHR ''s''"
  by code_simp+

lemma plain_digits: assumes "list_all is_digit x" shows "plain x"
proof -
  have "plain_char c" if "is_digit c" for c
  proof -
    have "\<not> is_digit CHR ''#''" "\<not> is_digit CHR 0x22" "\<not> is_digit CHR 0x27" by code_simp+
    then show ?thesis using that is_digit_not_space by (auto simp: plain_char_def)
  qed
  then show ?thesis using assms by (auto simp: plain_def list_all_iff)
qed

lemma plain_show [simp]: "plain (show_nat n)" "plain (show_int i)"
  using plain_digits [OF show_nat_digits] by (simp_all add: show_int_def)

lemma plain_fill [simp]: "plain (zero_fill n x) \<longleftrightarrow> plain x"
  by (simp add: zero_fill_def) (simp add: plain_def list_all_iff)

lemma plain_rstrip: "plain x \<Longrightarrow> plain (rstrip_by p x)"
  by (auto simp: plain_def rstrip_by_def list_all_iff dest: set_dropWhileD)

lemma plain_yaml_number: "plain (yaml_number x)"
proof -
  have "plain (show_fixed4 x)" by (simp add: show_fixed4_def Let_def)
  then show ?thesis by (simp add: yaml_number_def Let_def plain_rstrip)
qed

lemma plain_scalar: "yaml_scalar v = Inr x \<Longrightarrow> plain x"
  by (cases v) (auto simp: plain_yaml_number)

lemma plain_break_free: "plain x \<Longrightarrow> break_free x"
  using break_space unfolding plain_def plain_char_def break_free_def list_all_iff by blast

lemma scalar_value_plain: assumes "plain x" shows "scalar_value ('' '' @ x) = x"
proof -
  have tw: "takeWhile (\<lambda>c. c \<noteq> CHR ''#'') x = x" 
    using assms unfolding plain_def plain_char_def list_all_iff takeWhile_eq_all_conv by blast
  have n: "is_space CHR '' ''" "CHR '' '' \<noteq> CHR ''#''" by code_simp+
  have e: "x = [] \<or> \<not> is_space (hd x) \<and> \<not> is_space (last x)"
    using assms hd_in_set last_in_set unfolding plain_def plain_char_def list_all_iff by blast
  then have "strip x = x" by (intro strip_by_id) auto
  then have st: "strip (CHR '' '' # x) = x" using n(1) by (simp add: strip_by_def lstrip_by_def)
  have "\<not> in_quotes x" using assms by (cases x) (auto simp: in_quotes_def plain_char_def)
  then show ?thesis by (simp add: scalar_value_def Let_def tw st n(2))
qed

lemma scalar_value_int: "scalar_value ('' '' @ show_int i) = show_int i"
  using scalar_value_plain by simp

lemma json_carried: "carried_text t \<Longrightarrow> concat (map json_char t) = t"
proof (induction t)
  case (Cons c t)
  have n: "char_of (code c) = c" by (simp add: code_def)
  have m: "char_of (34 :: nat) = CHR 0x22" "char_of (92 :: nat) = CHR 0x5C" by code_simp+
  have "c = CHR 0x22" if "code c = 34" using n m(1) that by metis
  moreover have "c = CHR 0x5C" if "code c = 92" using n m(2) that by metis
  ultimately have "json_char c = [c]" using Cons.prems by (auto simp: carried_text_def json_char_def)
  then show ?case using Cons by (simp add: carried_text_def)
qed simp

lemma scalar_value_json: assumes "carried_text t" shows "scalar_value ('' '' @ json_string t) = t"
proof -
  have j: "json_string t = CHR 0x22 # t @ [CHR 0x22]" by (simp add: json_string_def json_carried [OF assms])
  have tw: "takeWhile (\<lambda>c. c \<noteq> CHR ''#'') (CHR 0x22 # t @ [CHR 0x22]) = CHR 0x22 # t @ [CHR 0x22]"
    using assms by (auto simp: carried_text_def list_all_iff takeWhile_eq_all_conv)
  have n: "is_space CHR '' ''" "CHR '' '' \<noteq> CHR ''#''" "\<not> is_space CHR 0x22" by code_simp+
  have "strip (CHR 0x22 # t @ [CHR 0x22]) = CHR 0x22 # t @ [CHR 0x22]" using n(3) by (intro strip_by_id) simp
  then have st: "strip (CHR '' '' # CHR 0x22 # t @ [CHR 0x22]) = CHR 0x22 # t @ [CHR 0x22]"
    using n(1) by (simp add: strip_by_def lstrip_by_def)
  have "in_quotes (CHR 0x22 # t @ [CHR 0x22])" by (simp add: in_quotes_def)
  then show ?thesis using n(2) tw by (simp add: scalar_value_def Let_def j st)
qed

lemma written_as_carried:
  assumes "written_as x t"
  shows "break_free x" "scalar_value ('' '' @ x) = t"
proof -
  have "plain x \<and> t = x \<or> x = json_string t \<and> carried_text t"
    using assms plain_scalar plain_show unfolding written_as_def by blast
  then have "break_free x \<and> scalar_value ('' '' @ x) = t"
    using plain_break_free json_string_break_free scalar_value_plain scalar_value_json by metis
  then show "break_free x" "scalar_value ('' '' @ x) = t" by blast+
qed

text \<open>C28: a setting that the dashboard writes into a configuration file (a flag, a number, or a text between quotes) is
  the very value the maintenance scripts read there afterwards, whether the line was replaced or inserted, and
  every other setting of every section reads as before; the file can be edited again. Of a text this needs that it
  is printable ASCII without a quote, a backslash or the comment sign, which the line reader cuts at even between
  quotes (\<^verbatim>\<open>comment_sign_cuts_setting\<close>). Files whose last line has no line end are excepted, because an
  insertion after such a line is glued to it.\<close>

theorem written_setting_read_back:
  assumes "clean_text doc" "name_ok sect" "name_ok key" "written_as x t" "name_ok s2" "name_ok k2"
    and "replace_section_scalar doc sect key x = Inr doc' \<or> upsert_section_scalar doc sect key x = Inr doc'"
  shows "clean_text doc' \<and> section_scalar doc' s2 k2 =
    (if s2 = sect \<and> k2 = key then Inr (Some t) else section_scalar doc s2 k2)"
  using put_scalar_edit [OF assms(1-3) written_as_carried(1) [OF assms(4)] assms(7)] assms(5,6)
    written_as_carried(2) [OF assms(4)] by simp

lemma written_setting_read_back_witness:
  "\<exists>doc'. upsert_section_scalar demo_yml ''brandmeister'' ''timeslot'' ''2'' = Inr doc' \<and>
     section_scalar doc' ''brandmeister'' ''timeslot'' = Inr (Some ''2'') \<and>
     section_scalar doc' ''brandmeister'' ''repeaterId'' = Inr (Some ''123'')"
proof -
  have c: "clean_text demo_yml" "name_ok ''brandmeister''" "name_ok ''timeslot''" "name_ok ''repeaterId''" by code_simp+
  have "show_int 2 = ''2''" by code_simp
  then have w: "written_as ''2'' ''2''" by (metis written_as_def)
  have r: "section_scalar demo_yml ''brandmeister'' ''repeaterId'' = Inr (Some ''123'')" by code_simp
  show ?thesis
    using demo_upsert r written_setting_read_back [OF c(1,2,3) w c(2,3) disjI2, OF demo_upsert]
      written_setting_read_back [OF c(1,2,3) w c(2,4) disjI2, OF demo_upsert] by auto
qed

text \<open>A password with a comment sign is read cut off, with its opening quote.\<close>

lemma comment_sign_cuts_setting:
  "\<exists>doc'. upsert_section_scalar demo_yml ''brandmeister'' ''password'' (json_string ''a#b'') = Inr doc' \<and>
     section_scalar doc' ''brandmeister'' ''password'' = Inr (Some (CHR 0x22 # ''a''))"
proof -
  have "case upsert_section_scalar demo_yml ''brandmeister'' ''password'' (json_string ''a#b'') of Inl e \<Rightarrow> False
    | Inr d \<Rightarrow> section_scalar d ''brandmeister'' ''password'' = Inr (Some (CHR 0x22 # ''a''))" by code_simp
  then show ?thesis by (auto split: sum.splits)
qed

definition kept :: "bool \<Rightarrow> string \<Rightarrow> string \<Rightarrow> string \<Rightarrow> string \<Rightarrow> string \<Rightarrow> bool" where
  "kept changed sect key x t t' \<longleftrightarrow> clean_text t' \<and> (\<forall>s2 k2. name_ok s2 \<longrightarrow> name_ok k2 \<longrightarrow> s2 \<noteq> ''routing'' \<longrightarrow> section_scalar t' s2 k2 =
     (if changed \<and> s2 = sect \<and> k2 = key then Inr (Some (scalar_value ('' '' @ x))) else section_scalar t s2 k2))"

lemma keptD:
  "kept changed sect key x t t' \<Longrightarrow> clean_text t'"
  "kept changed sect key x t t' \<Longrightarrow> name_ok s2 \<Longrightarrow> name_ok k2 \<Longrightarrow> s2 \<noteq> ''routing'' \<Longrightarrow> section_scalar t' s2 k2 =
     (if changed \<and> s2 = sect \<and> k2 = key then Inr (Some (scalar_value ('' '' @ x))) else section_scalar t s2 k2)"
  by (simp_all add: kept_def)

lemma kept_scalar:
  assumes "(if changed then edit t else Inr t) = Inr t'" "clean_text t" "name_ok sect" "name_ok key" "break_free x"
    "edit t = replace_section_scalar t sect key x \<or> edit t = upsert_section_scalar t sect key x"
  shows "kept changed sect key x t t'"
proof (cases changed)
  case True
  then have e: "replace_section_scalar t sect key x = Inr t' \<or> upsert_section_scalar t sect key x = Inr t'" using assms(1,6) by auto
  show ?thesis using put_scalar_edit [OF assms(2-5) e] True by (simp add: kept_def)
qed (use assms in \<open>simp add: kept_def\<close>)

lemma kept_block:
  "(if changed then replace_mapping_block t ms else Inr t) = Inr t' \<Longrightarrow> clean_text t \<Longrightarrow> kept False sect key x t t'"
  using mapping_block_edit [of t ms t'] by (auto simp: kept_def split: if_splits)

lemma names_ok:
  "name_ok ''brandmeister''" "name_ok ''routing''" "name_ok ''sms''" "name_ok ''repeaterId''" "name_ok ''callsign''"
  "name_ok ''timeslot''" "name_ok ''slot1''" "name_ok ''slot2''" "name_ok ''bmSlot''" "name_ok ''rxFrequency''"
  "name_ok ''txFrequency''" "name_ok ''password''" "name_ok ''dynamicTimeoutSeconds''"
  by code_simp+

lemma yaml_bool_break_free: "break_free (yaml_bool b)"
  by (cases b) (simp_all add: yaml_bool_def, code_simp+)

lemma edit_timeslot_scalars:
  assumes "edit_timeslot slot t = Inr t'" "clean_text t" "name_ok k2" "k2 \<notin> {''slot1'', ''slot2''}" "0 \<le> slot"
  shows "clean_text t'" "section_scalar t' ''brandmeister'' k2 =
    (if k2 = ''timeslot'' then Inr (Some (show_int slot)) else section_scalar t ''brandmeister'' k2)"
proof -
  obtain a b c where e: "upsert_section_scalar t ''brandmeister'' ''timeslot'' (show_int slot) = Inr a"
      "upsert_section_scalar a ''brandmeister'' ''slot1'' (yaml_bool (slot = 1)) = Inr b"
      "upsert_section_scalar b ''brandmeister'' ''slot2'' (yaml_bool (slot = 2)) = Inr c"
      "(if has_sms_section c then upsert_section_scalar c ''sms'' ''bmSlot'' (show_int slot) else Inr c) = Inr t'"
    using assms(1) unfolding edit_timeslot_def by (elim bindE_InrE)
  note bf = show_int_break_free [of slot] yaml_bool_break_free [of "slot = 1"] yaml_bool_break_free [of "slot = 2"]
  have 1: "clean_text a" "section_scalar a ''brandmeister'' k2 =
      (if k2 = ''timeslot'' then Inr (Some (show_int slot)) else section_scalar t ''brandmeister'' k2)"
    using put_scalar_edit [OF assms(2) names_ok(1,6) bf(1) disjI2, OF e(1)] assms(3,5) names_ok(1) scalar_value_int by simp_all
  have 2: "clean_text b" "section_scalar b ''brandmeister'' k2 = section_scalar a ''brandmeister'' k2"
    using put_scalar_edit [OF 1(1) names_ok(1,7) bf(2) disjI2, OF e(2)] assms(3,4) names_ok(1) by simp_all
  have 3: "clean_text c" "section_scalar c ''brandmeister'' k2 = section_scalar b ''brandmeister'' k2"
    using put_scalar_edit [OF 2(1) names_ok(1,8) bf(3) disjI2, OF e(3)] assms(3,4) names_ok(1) by simp_all
  have 4: "kept (has_sms_section c) ''sms'' ''bmSlot'' (show_int slot) c t'"
    by (rule kept_scalar [where edit = "\<lambda>t. upsert_section_scalar t ''sms'' ''bmSlot'' (show_int slot)", OF e(4) 3(1) names_ok(3,9) bf(1)]) simp
  show "clean_text t'" "section_scalar t' ''brandmeister'' k2 =
    (if k2 = ''timeslot'' then Inr (Some (show_int slot)) else section_scalar t ''brandmeister'' k2)"
    using keptD(1) [OF 4] keptD(2) [OF 4 names_ok(1) assms(3)] 1(2) 2(2) 3(2) by simp_all
qed

text \<open>A key of the BrandMeister section that a step does not write reads as before the step.\<close>

definition same_device :: "string \<Rightarrow> string \<Rightarrow> bool" where
  "same_device t t' \<longleftrightarrow> clean_text t' \<and> (\<forall>k \<in> {''repeaterId'', ''timeslot''}.
     section_scalar t' ''brandmeister'' k = section_scalar t ''brandmeister'' k)"

lemma same_device_kept:
  assumes "kept changed sect key x t t'" "key \<notin> {''repeaterId'', ''timeslot''}" shows "same_device t t'"
  using keptD(1) [OF assms(1)] keptD(2) [OF assms(1) names_ok(1,4)] keptD(2) [OF assms(1) names_ok(1,6)] assms(2)
  by (auto simp: same_device_def)

lemma same_device_trans: "same_device t u \<Longrightarrow> same_device u w \<Longrightarrow> same_device t w"
  by (simp add: same_device_def)

lemma edit_bridge_device:
  assumes "edit_bridge c v t = Inr t'" "clean_text t" "0 \<le> new_id v" "0 \<le> new_timeslot v"
  shows "clean_text t'"
    "section_scalar t' ''brandmeister'' ''repeaterId'' =
      (if cur_id c \<noteq> new_id v then Inr (Some (show_int (new_id v))) else section_scalar t ''brandmeister'' ''repeaterId'')"
    "section_scalar t' ''brandmeister'' ''timeslot'' =
      (if timeslot_changed c v then Inr (Some (show_int (new_timeslot v))) else section_scalar t ''brandmeister'' ''timeslot'')"
proof -
  let ?upsert = "\<lambda>sect key x t. upsert_section_scalar t sect key x"
  let ?replace = "\<lambda>sect key x t. replace_section_scalar t sect key x"
  obtain t1 t2 t3 t4 t5 t6 t7 where
      e1: "(if cur_id c \<noteq> new_id v then ?replace ''brandmeister'' ''repeaterId'' (show_int (new_id v)) t else Inr t) = Inr t1"
    and e2: "(if cur_callsign c \<noteq> new_callsign v then ?upsert ''brandmeister'' ''callsign'' (json_string (new_callsign v)) t1 else Inr t1) = Inr t2"
    and e3: "(if timeslot_changed c v then edit_timeslot (new_timeslot v) t2 else Inr t2) = Inr t3"
    and e4: "(if cur_rx c \<noteq> new_rx v then ?upsert ''brandmeister'' ''rxFrequency'' (show_int (new_rx v)) t3 else Inr t3) = Inr t4"
    and e5: "(if cur_tx c \<noteq> new_tx v then ?upsert ''brandmeister'' ''txFrequency'' (show_int (new_tx v)) t4 else Inr t4) = Inr t5"
    and e6: "(if password_changed v then ?replace ''brandmeister'' ''password'' (json_string (new_password v)) t5 else Inr t5) = Inr t6"
    and e7: "(if cur_timeout c \<noteq> new_timeout v then ?upsert ''routing'' ''dynamicTimeoutSeconds'' (show_int (new_timeout v)) t6 else Inr t6) = Inr t7"
    and e8: "(if cur_mappings c \<noteq> new_mappings v then replace_mapping_block t7 (new_mappings v) else Inr t7) = Inr t'"
    using assms(1) unfolding edit_bridge_def foldE.simps case_prod_conv by (elim bindE_InrE) simp
  note bf = show_int_break_free json_string_break_free
  have k1: "kept (cur_id c \<noteq> new_id v) ''brandmeister'' ''repeaterId'' (show_int (new_id v)) t t1"
    by (rule kept_scalar [where edit = "?replace ''brandmeister'' ''repeaterId'' (show_int (new_id v))", OF e1 assms(2) names_ok(1,4) bf(1)]) simp
  have k2: "kept (cur_callsign c \<noteq> new_callsign v) ''brandmeister'' ''callsign'' (json_string (new_callsign v)) t1 t2"
    by (rule kept_scalar [where edit = "?upsert ''brandmeister'' ''callsign'' (json_string (new_callsign v))",
        OF e2 keptD(1) [OF k1] names_ok(1,5) bf(2)]) simp
  have k3: "clean_text t3"
    "section_scalar t3 ''brandmeister'' ''repeaterId'' = section_scalar t2 ''brandmeister'' ''repeaterId''"
    "section_scalar t3 ''brandmeister'' ''timeslot'' =
      (if timeslot_changed c v then Inr (Some (show_int (new_timeslot v))) else section_scalar t2 ''brandmeister'' ''timeslot'')"
    using edit_timeslot_scalars [OF _ keptD(1) [OF k2] names_ok(4)] edit_timeslot_scalars [OF _ keptD(1) [OF k2] names_ok(6)] e3
      assms(4) keptD(1) [OF k2] by (auto split: if_splits)
  have k4: "kept (cur_rx c \<noteq> new_rx v) ''brandmeister'' ''rxFrequency'' (show_int (new_rx v)) t3 t4"
    by (rule kept_scalar [where edit = "?upsert ''brandmeister'' ''rxFrequency'' (show_int (new_rx v))",
        OF e4 k3(1) names_ok(1,10) bf(1)]) simp
  have k5: "kept (cur_tx c \<noteq> new_tx v) ''brandmeister'' ''txFrequency'' (show_int (new_tx v)) t4 t5"
    by (rule kept_scalar [where edit = "?upsert ''brandmeister'' ''txFrequency'' (show_int (new_tx v))",
        OF e5 keptD(1) [OF k4] names_ok(1,11) bf(1)]) simp
  have k6: "kept (password_changed v) ''brandmeister'' ''password'' (json_string (new_password v)) t5 t6"
    by (rule kept_scalar [where edit = "?replace ''brandmeister'' ''password'' (json_string (new_password v))",
        OF e6 keptD(1) [OF k5] names_ok(1,12) bf(2)]) simp
  have k7: "kept (cur_timeout c \<noteq> new_timeout v) ''routing'' ''dynamicTimeoutSeconds'' (show_int (new_timeout v)) t6 t7"
    by (rule kept_scalar [where edit = "?upsert ''routing'' ''dynamicTimeoutSeconds'' (show_int (new_timeout v))",
        OF e7 keptD(1) [OF k6] names_ok(2,13) bf(1)]) simp
  have k8: "kept False ''routing'' ''talkgroupMappings'' [] t7 t'" by (rule kept_block [OF e8 keptD(1) [OF k7]])
  have d: "same_device t3 t'"
    by (rule same_device_trans [OF same_device_kept [OF k4] same_device_trans [OF same_device_kept [OF k5]
        same_device_trans [OF same_device_kept [OF k6] same_device_trans [OF same_device_kept [OF k7] same_device_kept [OF k8]]]]]) simp_all
  show "clean_text t'" using d by (simp add: same_device_def)
  show "section_scalar t' ''brandmeister'' ''repeaterId'' =
      (if cur_id c \<noteq> new_id v then Inr (Some (show_int (new_id v))) else section_scalar t ''brandmeister'' ''repeaterId'')"
    using d k3(2) keptD(2) [OF k2 names_ok(1,4)] keptD(2) [OF k1 names_ok(1,4)] scalar_value_int
    by (simp add: same_device_def)
  show "section_scalar t' ''brandmeister'' ''timeslot'' =
      (if timeslot_changed c v then Inr (Some (show_int (new_timeslot v))) else section_scalar t ''brandmeister'' ''timeslot'')"
    using d k3(3) keptD(2) [OF k2 names_ok(1,6)] keptD(2) [OF k1 names_ok(1,6)] by (simp add: same_device_def)
qed

section \<open>From the browser to the maintenance scripts\<close>

text \<open>What is applied is the pending text of each file.\<close>

lemma applied_disk:
  assumes "apply_settings env cfg now name payload s = (Inr (Some x), s')" "validate_settings payload = Inr v"
    "stored_settings env cfg (disk s) = Inr c" "\<not> prefix (backup_dir cfg @ ''/'') path"
  obtains p where "make_plan env cfg (disk s) c v = Inr p" "disk s' path = with_pending p (disk s) path"
  using assms(1)
proof (cases rule: apply_settings_cases)
  case (begun v' c' p st targets)
  then have "v' = v" "c' = c" using assms(2,3) by simp_all
  then show ?thesis
    using that [of p] begun(3) carry_out_applied [OF begun(7) refl make_plan_ok [OF begun(3)] assms(4)]
    by (simp add: with_pending_def)
qed simp_all

lemma planned_pending:
  assumes "planned d changed path edit p = Inr p'"
  shows "map_of (pending p') q = (if changed \<and> q = path
    then (case bindE (file_text d path) edit of Inr u \<Rightarrow> Some u | Inl e \<Rightarrow> None) else map_of (pending p) q)"
  using assms by (auto simp: planned_def Let_def bindE_eq_Inr split: if_splits)

lemma bridge_pending:
  assumes "make_plan env cfg d c v = Inr p" "d (bridge_yml cfg) = Some doc"
    "bridge_yml cfg \<notin> {host_yml cfg, d2p_yml cfg, p2d_yml cfg, brew_json cfg, gateway_ini cfg}"
  shows "if bridge_changed c v then \<exists>doc'. edit_bridge c v doc = Inr doc' \<and> with_pending p d (bridge_yml cfg) = Some doc'
    else with_pending p d (bridge_yml cfg) = Some doc"
proof -
  obtain p1 p2 p3 p4 p5 where e: "planned d (bridge_changed c v) (bridge_yml cfg) (edit_bridge c v) \<lparr>originals = [], pending = []\<rparr> = Inr p1"
      "planned d (host_changed c v) (host_yml cfg) (edit_host v) p1 = Inr p2"
      "planned d (d2p_changed c v) (d2p_yml cfg) (edit_audio (cur_d2p c) (new_d2p v)) p2 = Inr p3"
      "planned d (p2d_changed c v) (p2d_yml cfg) (edit_audio (cur_p2d c) (new_p2d v)) p3 = Inr p4"
      "planned d (gain_changed c v) (brew_json cfg) (\<lambda>_. Inr (with_gain env c v)) p4 = Inr p5"
      "planned d (password_changed v \<and> d (gateway_ini cfg) \<noteq> None) (gateway_ini cfg)
         (\<lambda>txt. write_ini_password (ini_sections env) (universal_newlines txt) (new_password v)) p5 = Inr p"
    using assms(1) unfolding make_plan_def by (elim bindE_InrE)
  have "map_of (pending p) (bridge_yml cfg) = map_of (pending p1) (bridge_yml cfg)"
    using planned_pending [OF e(2)] planned_pending [OF e(3)] planned_pending [OF e(4)] planned_pending [OF e(5)]
      planned_pending [OF e(6)] assms(3) by simp
  moreover have "\<exists>doc'. edit_bridge c v doc = Inr doc'" if "bridge_changed c v"
    using e(1) that assms(2) by (auto simp: planned_def Let_def bindE_eq_Inr file_text_def)
  ultimately show ?thesis
    using planned_pending [OF e(1), of "bridge_yml cfg"] assms(2) by (auto simp: with_pending_def file_text_def)
qed

lemma py_int_show_int: "0 \<le> i \<Longrightarrow> py_int_str (show_int i) = Inr i"
  by (simp add: show_int_def py_int_digits show_nat_digits)

lemma device_saved:
  assumes "apply_settings env cfg now name payload s = (Inr (Some x), s')" "validate_settings payload = Inr v"
    "stored_settings env cfg (disk s) = Inr c"
    "bridge_yml cfg \<notin> {host_yml cfg, d2p_yml cfg, p2d_yml cfg, brew_json cfg, gateway_ini cfg}"
    "\<not> prefix (backup_dir cfg @ ''/'') (bridge_yml cfg)"
    "disk s (bridge_yml cfg) = Some doc" "clean_text doc"
    "section_scalar doc ''brandmeister'' ''repeaterId'' = Inr (Some (show_int (cur_id c)))"
    "cur_has_timeslot c \<Longrightarrow> section_scalar doc ''brandmeister'' ''timeslot'' = Inr (Some (show_int (cur_timeslot c)))"
  shows "\<exists>doc'. disk s' (bridge_yml cfg) = Some doc' \<and>
    read_brandmeister_device doc' = Inr (new_id v, if 999999 < new_id v then 0 else new_timeslot v)"
proof -
  have v: "1 \<le> new_id v" "new_timeslot v = 1 \<or> new_timeslot v = 2"
    using validate_settings_ok [OF assms(2)] by (auto simp: settings_ok_def)
  obtain p where p: "make_plan env cfg (disk s) c v = Inr p" "disk s' (bridge_yml cfg) = with_pending p (disk s) (bridge_yml cfg)"
    by (rule applied_disk [OF assms(1-3,5)])
  note b = bridge_pending [OF p(1) assms(6,4)]
  have "\<exists>doc'. disk s' (bridge_yml cfg) = Some doc' \<and>
      section_scalar doc' ''brandmeister'' ''repeaterId'' = Inr (Some (show_int (new_id v))) \<and>
      section_scalar doc' ''brandmeister'' ''timeslot'' = Inr (Some (show_int (new_timeslot v)))"
  proof (cases "bridge_changed c v")
    case True
    then obtain doc' where d: "edit_bridge c v doc = Inr doc'" "disk s' (bridge_yml cfg) = Some doc'" using b p(2) by auto
    have z: "0 \<le> new_id v" "0 \<le> new_timeslot v" using v by auto
    note e = edit_bridge_device [OF d(1) assms(7) z]
    have "section_scalar doc' ''brandmeister'' ''timeslot'' = Inr (Some (show_int (new_timeslot v)))"
      using e(3) assms(9) by (auto simp: timeslot_changed_def)
    then show ?thesis using d(2) e(2) assms(8) by auto
  next
    case False
    then show ?thesis using b p(2) assms(8,9) by (auto simp: bridge_changed_def timeslot_changed_def)
  qed
  then show ?thesis using v by (auto simp: read_brandmeister_device_def int_or_invalid_def py_int_show_int)
qed

end
