(* ===== verification/Dash_Demo.thy ===== *)
theory Dash_Demo
  imports Dash_Readback
begin

text \<open>
  The properties of a settings change, each with a concrete run: a station with one mapping whose repeater id is
  changed.
\<close>

definition demo_doc :: pyval where
  "demo_doc = PDict [(''brandmeister'', PDict [(''repeaterId'', PInt 123), (''callsign'', PStr ''AB1CD''), (''timeslot'', PInt 2),
      (''slot2'', PBool True), (''rxFrequency'', PInt 430000000), (''txFrequency'', PInt 438000000)]),
    (''routing'', PDict [(''talkgroupMappings'', PList [PDict [(''p25'', PInt 1), (''brandmeister'', PInt 91)]])])]"

definition demo_text :: string where
  "demo_text = ''brandmeister:'' @ [LF] @ ''  repeaterId: 123'' @ [LF] @ ''  timeslot: 2'' @ [LF] @ ''routing:'' @ [LF] @ ''  mode: x'' @ [LF]"

definition demo_env :: settings_env where
  "demo_env = \<lparr>yaml = \<lambda>_. Inr demo_doc, json = \<lambda>_. Inr PNone, ini_sections = \<lambda>_. Inr [], dump = \<lambda>_. [], value_repr = \<lambda>_. [],
     sha256 = \<lambda>_. [], write_fate = \<lambda>_. Written, service_fate = \<lambda>_. None, backup_fate = None\<rparr>"

definition demo_cfg :: settings_paths where
  "demo_cfg = \<lparr>bridge_yml = ''q.yml'', host_yml = ''h.yml'', gateway_ini = ''g.ini'', d2p_yml = ''d.yml'', p2d_yml = ''p.yml'',
     brew_json = ''b.json'', backup_dir = ''backups'', public_ars = [],
     restart_targets = [(''quantarbridge'', PDict [(''type'', PStr ''systemd''), (''unit'', PStr ''qb'')])]\<rparr>"

definition demo_disk :: "string \<rightharpoonup> string" where
  "demo_disk = [''q.yml'' \<mapsto> demo_text, ''h.yml'' \<mapsto> [], ''d.yml'' \<mapsto> [], ''p.yml'' \<mapsto> []]"

definition demo_dash :: dash where
  "demo_dash = \<lparr>disk = demo_disk, station = tracker_init, write_count = 0, service_count = 0, services_restarted = []\<rparr>"

definition demo_payload :: "(string \<times> pyval) list" where
  "demo_payload = [(''repeaterId'', PInt 124), (''brandmeisterCallsign'', PStr ''AB1CD''), (''brandmeisterTimeslot'', PInt 2),
     (''brandmeisterRxFrequency'', PInt 430000000), (''brandmeisterTxFrequency'', PInt 438000000),
     (''dynamicTimeoutSeconds'', PInt 600), (''talkgroupMappings'', PList [PDict [(''p25'', PInt 1), (''brandmeister'', PInt 91)]]),
     (''gps'', PDict [(''initialDelaySeconds'', PInt 5), (''updateIntervalSeconds'', PInt 300), (''noFixRetrySeconds'', PInt 60)]),
     (''audio'', PDict [(''dmrToP25'', PDict (audio_defaults True)), (''p25ToDmr'', PDict (audio_defaults False))])]"

definition demo_settings :: settings where
  "demo_settings = \<lparr>new_id = 124, new_callsign = ''AB1CD'', new_timeslot = 2, new_rx = 430000000, new_tx = 438000000,
     new_password = [], new_timeout = 600, new_mappings = [(1, 91)],
     new_gps = [(''initialDelaySeconds'', 5), (''updateIntervalSeconds'', 300), (''noFixRetrySeconds'', 60)],
     new_d2p = audio_defaults True, new_p2d = audio_defaults False\<rparr>"

lemma round4_tenth: "round4 (of_int n / 10000) = of_int n / 10000"
  by (simp add: round4_def)

lemma round4_demo:
  "round4 0 = 0" "round4 1 = 1" "round4 (numeral k) = numeral k" "round4 (3 / 10) = 3 / 10" "round4 (2 / 5) = 2 / 5"
  "round4 (11 / 10) = 11 / 10" "round4 (11 / 20) = 11 / 20" "round4 (19 / 10) = 19 / 10" "round4 (3 / 50) = 3 / 50"
  using round4_int [of 0] round4_int [of 1] round4_int [of "numeral k"] round4_tenth [of 3000] round4_tenth [of 4000]
    round4_tenth [of 11000] round4_tenth [of 5500] round4_tenth [of 19000] round4_tenth [of 600]
  by simp_all

lemma demo_audio:
  "validate_audio_direction (PDict (audio_defaults True)) l True = Inr (audio_defaults True)"
  "validate_audio_direction (PDict (audio_defaults False)) l False = Inr (audio_defaults False)"
  by (simp_all add: validate_audio_direction_def audio_defaults_def audio_checks_def common_checks_def p25_checks_def
      dmr_checks_def check_audio_def validate_float_def validate_int_def validate_bool_def converted_def dget_def Let_def
      round4_demo level_def)

lemma demo_valid: "validate_settings demo_payload = Inr demo_settings"
proof -
  have "validate_callsign (PStr ''AB1CD'') = Inr ''AB1CD''" by code_simp
  moreover have "validate_password (PStr []) = Inr []" by code_simp
  ultimately show ?thesis
    by (simp add: validate_settings_def demo_payload_def demo_settings_def dget_def validate_int_def converted_def Let_def
        validate_mappings_def validate_gps_def validate_audio_def demo_audio)
qed

definition demo_current :: current_settings where
  "demo_current = \<lparr>cur_id = 123, cur_callsign = ''AB1CD'', cur_timeslot = 2, cur_has_timeslot = True, cur_slot1 = False,
     cur_slot2 = True, cur_sms_slot = None, cur_rx = 430000000, cur_tx = 438000000, cur_timeout = 600, cur_mappings = [(1, 91)],
     cur_gps = [(''initialDelaySeconds'', 5), (''updateIntervalSeconds'', 300), (''noFixRetrySeconds'', 60)],
     cur_d2p = audio_defaults True, cur_p2d = audio_defaults False, cur_gain = 2, cur_brew = None\<rparr>"

lemma demo_audio_values:
  "mapE (\<lambda>(key, dflt). bindE (audio_value path key dflt (dget [] key dflt)) (\<lambda>v. Inr (key, v))) (audio_defaults b) = Inr (audio_defaults b)"
  by (cases b) (simp_all add: audio_defaults_def audio_value_def dget_def)

lemma demo_stored:
  assumes "\<And>t. yaml env t = Inr demo_doc"
  shows "stored_settings env demo_cfg demo_disk = Inr demo_current"
proof -
  have r: "read_yaml_file env demo_disk p = Inr demo_doc" if "p \<in> {''q.yml'', ''h.yml'', ''d.yml'', ''p.yml''}" for p
    using that assms by (auto simp: read_yaml_file_def file_text_def demo_disk_def demo_doc_def)
  have a: "read_audio env demo_disk p b = Inr (audio_defaults b)" if "p \<in> {''d.yml'', ''p.yml''}" for p b
  proof -
    have "read_yaml_file env demo_disk p = Inr demo_doc" using that r by auto
    then show ?thesis by (simp add: read_audio_def demo_doc_def demo_audio_values)
  qed
  have u: "upper (strip ''AB1CD'') = ''AB1CD''" by code_simp
  have g: "level (audio_defaults False) ''txAudioGain'' = 2" by (simp add: level_def audio_defaults_def dget_def)
  have b: "stored_brew env demo_disk demo_cfg = Inr None" by (simp add: stored_brew_def demo_disk_def demo_cfg_def)
  have c: "bridge_yml demo_cfg = ''q.yml''" "host_yml demo_cfg = ''h.yml''" "d2p_yml demo_cfg = ''d.yml''" "p2d_yml demo_cfg = ''p.yml''"
    by (simp_all add: demo_cfg_def)
  show ?thesis
    unfolding stored_settings_def b c
    by (simp add: r a)
      (simp add: demo_doc_def int_at_def timeslot_at_def stored_sms_slot_def mapping_entries_def gps_at_def stored_key_def
        demo_current_def u g)
qed

definition demo_text_after :: string where
  "demo_text_after = ''brandmeister:'' @ [LF] @ ''  repeaterId: 124'' @ [LF] @ ''  timeslot: 2'' @ [LF] @ ''routing:'' @ [LF] @ ''  mode: x'' @ [LF]"

lemma demo_edit: "replace_section_scalar demo_text ''brandmeister'' ''repeaterId'' (show_int 124) = Inr demo_text_after"
  by code_simp

lemma same_dict_refl [simp]: "same_dict a a"
  by (simp add: same_dict_def list_all_iff)

lemma demo_changes:
  "timeslot_changed demo_current demo_settings = False" "routing_changed demo_current demo_settings = False"
  "password_changed demo_settings = False" "bridge_changed demo_current demo_settings = True"
  "host_changed demo_current demo_settings = False" "d2p_changed demo_current demo_settings = False"
  "p2d_changed demo_current demo_settings = False" "gain_changed demo_current demo_settings = False"
  "anything_changed demo_current demo_settings = True"
  by (simp_all add: demo_current_def demo_settings_def timeslot_changed_def routing_changed_def password_changed_def
      bridge_changed_def host_changed_def d2p_changed_def p2d_changed_def gain_changed_def anything_changed_def)

lemma demo_targets: "targets_of g demo_current demo_settings = [''quantarbridge'']"
  by (simp add: targets_of_def demo_changes)

definition demo_plan :: plan where
  "demo_plan = \<lparr>originals = [(''q.yml'', demo_text)], pending = [(''q.yml'', demo_text_after)]\<rparr>"

lemma demo_make_plan: "make_plan env demo_cfg demo_disk demo_current demo_settings = Inr demo_plan"
proof -
  have "edit_bridge demo_current demo_settings demo_text = Inr demo_text_after"
    by (simp add: edit_bridge_def demo_changes) (simp add: demo_current_def demo_settings_def demo_edit)
  then show ?thesis
    by (simp add: make_plan_def planned_def demo_changes demo_cfg_def file_text_def demo_disk_def demo_plan_def)
qed

lemma demo_apply:
  assumes "\<And>t. yaml env t = Inr demo_doc" "restart_guard_remaining SETTINGS_RESTART_IDLE_GUARD_SECONDS now st = (0, st)"
  shows "apply_settings env demo_cfg now ''b1'' demo_payload (demo_dash\<lparr>station := st\<rparr>) =
    carry_out env demo_cfg demo_settings demo_plan [''quantarbridge''] ''backups/b1'' (demo_dash\<lparr>station := st\<rparr>)"
proof -
  have d: "disk demo_dash = demo_disk" by (simp add: demo_dash_def)
  have "backup_dir demo_cfg @ ''/'' @ ''b1'' = ''backups/b1''" by (simp add: demo_cfg_def)
  then show ?thesis
    by (simp add: apply_settings_def demo_valid bindA_def call_def d assms(2) demo_stored [OF assms(1)] demo_changes demo_targets demo_make_plan)
qed

lemma demo_target:
  "restart_target env (restart_targets demo_cfg) ''quantarbridge'' = restart_service env ''quantarbridge''"
  by (simp add: restart_target_def demo_cfg_def dget_def Let_def)

lemma demo_file_name: "file_name ''q.yml'' = ''q.yml''" by code_simp

definition demo_after :: "tracker \<Rightarrow> dash" where
  "demo_after st = \<lparr>disk = demo_disk(''backups/b1/q.yml'' \<mapsto> demo_text, ''q.yml'' \<mapsto> demo_text_after),
     station = st\<lparr>mappings := [(1, 91)]\<rparr>, write_count = 2, service_count = 1, services_restarted = [''quantarbridge'']\<rparr>"

lemma demo_run:
  assumes "restart_guard_remaining SETTINGS_RESTART_IDLE_GUARD_SECONDS now st = (0, st)"
  shows "apply_settings demo_env demo_cfg now ''b1'' demo_payload (demo_dash\<lparr>station := st\<rparr>) =
    (Inr (Some ([''quantarbridge''], ''backups/b1'')), demo_after st)"
proof -
  have w: "write_fate demo_env n = Written" "service_fate demo_env n = None" "backup_fate demo_env = None" "yaml demo_env t = Inr demo_doc" for n t
    by (simp_all add: demo_env_def)
  show ?thesis
    unfolding demo_apply [OF w(4) assms]
    by (simp add: carry_out_def back_up_def apply_plan_def atomic_write_def restart_def demo_target
        restart_service_def catchA_def demo_plan_def demo_file_name w thenA_def bindA_def demo_dash_def demo_after_def demo_settings_def)
qed

lemma demo_quiet: "restart_guard_remaining SETTINGS_RESTART_IDLE_GUARD_SECONDS 100 tracker_init = (0, tracker_init)"
  by (simp add: restart_guard_remaining_def expire_stale_calls_def tracker_init_def)

section \<open>The properties\<close>

text \<open>C33: settings that the check accepts are within the bounds of the station: the id, time slot, frequencies,
  time-outs and gains, a well formed call sign, a password without line ends, and talkgroup mappings that are
  one to one; of the audio settings none is missing and the gain limits are in order.\<close>

theorem accepted_settings_in_bounds:
  assumes "validate_settings payload = Inr v"
  shows "settings_ok v"
  by (rule validate_settings_ok) (rule assms)

lemma accepted_settings_in_bounds_witness:
  "validate_settings demo_payload = Inr demo_settings \<and> settings_ok demo_settings"
  using demo_valid accepted_settings_in_bounds [OF demo_valid] by simp

text \<open>C6: a change of the settings is applied to all files or to none. When it fails (a file cannot be read or
  parsed, an edit finds no place, a write fails before or after the file was replaced, a service does not come
  back) every file outside the backup directory has the content it had, provided the last write that was
  attempted, one of the roll-back, succeeded; when it succeeds each file has the content that was planned for it.\<close>

theorem settings_applied_or_restored:
  assumes "apply_settings env cfg now name payload s = (r, s')"
    and "write_fate env (write_count s' - 1) = Written" "\<not> prefix (backup_dir cfg @ ''/'') path"
  shows "case r of
      Inr (Some _) \<Rightarrow> \<exists>v c p. validate_settings payload = Inr v \<and> stored_settings env cfg (disk s) = Inr c \<and>
        make_plan env cfg (disk s) c v = Inr p \<and> disk s' path = with_pending p (disk s) path
    | _ \<Rightarrow> disk s' path = disk s path"
  by (rule settings_all_or_nothing) (rule assms)+

text \<open>The service does not come back: everything is as before.\<close>

definition failing_env :: settings_env where
  "failing_env = demo_env\<lparr>service_fate := \<lambda>_. Some (RuntimeError ''qb did not return after restart'')\<rparr>"

lemma demo_failed_run:
  "\<exists>s'. apply_settings failing_env demo_cfg 100 ''b1'' demo_payload (demo_dash\<lparr>station := tracker_init\<rparr>) =
     (Inl (RuntimeError ''qb did not return after restart''), s') \<and> write_count s' = 3"
proof -
  have w: "write_fate failing_env n = Written" "service_fate failing_env n = Some (RuntimeError ''qb did not return after restart'')"
      "backup_fate failing_env = None" "yaml failing_env t = Inr demo_doc" for n t
    by (simp_all add: failing_env_def demo_env_def)
  show ?thesis
    unfolding demo_apply [OF w(4) demo_quiet]
    by (simp add: carry_out_def back_up_def apply_plan_def roll_back_def atomic_write_def restart_def
        demo_target restart_service_def catchA_def demo_plan_def demo_file_name w thenA_def bindA_def demo_dash_def)
qed

lemma settings_applied_or_restored_witness:
  "\<exists>s'. apply_settings failing_env demo_cfg 100 ''b1'' demo_payload (demo_dash\<lparr>station := tracker_init\<rparr>) =
     (Inl (RuntimeError ''qb did not return after restart''), s') \<and> disk s' ''q.yml'' = Some demo_text"
proof -
  obtain s' where r: "apply_settings failing_env demo_cfg 100 ''b1'' demo_payload (demo_dash\<lparr>station := tracker_init\<rparr>) =
     (Inl (RuntimeError ''qb did not return after restart''), s')" using demo_failed_run by blast
  have w: "write_fate failing_env (write_count s' - 1) = Written" by (simp add: failing_env_def demo_env_def)
  have b: "\<not> prefix (backup_dir demo_cfg @ ''/'') ''q.yml''" by (simp add: demo_cfg_def)
  show ?thesis using r settings_applied_or_restored [OF r w b] by (simp add: demo_dash_def demo_disk_def)
qed

text \<open>C15: a change of the settings writes a file or restarts a service only when the radio has been quiet: then no
  call is running, and each call whose beginning or end any log line had shown was shown at least fifteen
  seconds ago.\<close>

theorem settings_touch_nothing_near_call:
  assumes "apply_settings env cfg now name payload s = (r, s')"
    and "disk s' \<noteq> disk s \<or> services_restarted s' \<noteq> services_restarted s"
    and "station s = fold track es tracker_init" "e \<in> set es" "call_shown e = Some t" "0 < t" "0 < now"
  shows "active_calls (station s) = [] \<and> t + 15 \<le> now"
proof -
  obtain st where "restart_guard_remaining SETTINGS_RESTART_IDLE_GUARD_SECONDS now (fold track es tracker_init) = (0, st)"
    using touched_only_when_quiet [OF assms(1,2,7)] assms(3) by auto
  from restart_after_quiet [OF assms(4-6) _ assms(7) this] show ?thesis
    using assms(3) by (simp add: SETTINGS_RESTART_IDLE_GUARD_SECONDS_def)
qed

lemma settings_touch_nothing_near_call_witness:
  "restart_guard_remaining SETTINGS_RESTART_IDLE_GUARD_SECONDS 1018 (fold track demo_calls tracker_init) = (0, fold track demo_calls tracker_init) \<and>
   services_restarted (snd (apply_settings demo_env demo_cfg 1018 ''b1'' demo_payload
     (demo_dash\<lparr>station := fold track demo_calls tracker_init\<rparr>))) = [''quantarbridge''] \<and>
   active_calls (fold track demo_calls tracker_init) = []"
proof -
  let ?st = "fold track demo_calls tracker_init"
  have e: "ActivityLine 1003 ''P25 RF RF end of transmission'' \<in> set demo_calls" by (simp add: demo_calls_def)
  have c: "call_shown (ActivityLine 1003 ''P25 RF RF end of transmission'') = Some 1003" by (simp add: demo_lines)
  have g: "restart_guard_remaining SETTINGS_RESTART_IDLE_GUARD_SECONDS 1018 ?st = (0, ?st)"
    by (simp add: SETTINGS_RESTART_IDLE_GUARD_SECONDS_def demo_guard)
  note r = demo_run [OF g]
  have n: "services_restarted (demo_after ?st) \<noteq> services_restarted (demo_dash\<lparr>station := ?st\<rparr>)"
    by (simp add: demo_after_def demo_dash_def)
  show ?thesis
    using g r settings_touch_nothing_near_call [OF r disjI2, OF n _ e c] by (simp add: demo_after_def)
qed



end
