(* ===== verification/Dash_Web.thy ===== *)
theory Dash_Web
  imports Dash_Auth Dash_Demo
begin

text \<open>
  The requests of the dashboard's API (\<^verbatim>\<open>DashboardHandler\<close> of \<^verbatim>\<open>src/dashboard/app.py\<close>): log-in, log-out, password,
  session and settings. A request is what the handler takes from it: the value \<^verbatim>\<open>SimpleCookie\<close> finds for the session
  cookie, the header fields that are read, and the bytes that can be read from the connection. The times are those of
  the first and of the last look at the clock; random tokens and the salt are arguments. Each handler is one action:
  the server runs handlers in threads, and the stores take a lock per operation, so this is the behaviour of
  requests that do not overlap.
\<close>

section \<open>Requests and answers\<close>

record request =
  rq_path :: string
  client_address :: string
  cookie_token :: "string option"
  csrf_header :: "string option"
  content_length :: "string option"
  content_type :: "string option"
  rq_data :: bytes
  at_start :: real
  at_end :: real
  fresh_token :: string
  fresh_csrf :: string
  fresh_salt :: bytes
  stamp :: string
  backup_stamp :: string

record answer =
  status :: int
  payload :: pyval
  set_cookie :: "string option"

record web_site =
  auth :: auth_file
  sessions :: session_store
  login_limiter :: limiter
  dashboard :: dash

record web_env =
  kdf_of :: kdf
  parse_json :: "bytes \<Rightarrow> py_error + pyval"
  settings_of :: settings_env
  paths_of :: settings_paths
  secure_cookies :: bool
  text_repr :: "pyval \<Rightarrow> string"
  auth_write_fault :: "py_error option"

text \<open>An action on one part of the site.\<close>

definition on_auth :: "(auth_file, 'a) act \<Rightarrow> (web_site, 'a) act" where
  "on_auth m = (\<lambda>s. case m (auth s) of (r, x) \<Rightarrow> (r, s\<lparr>auth := x\<rparr>))"

definition on_sessions :: "(session_store, 'a) act \<Rightarrow> (web_site, 'a) act" where
  "on_sessions m = (\<lambda>s. case m (sessions s) of (r, x) \<Rightarrow> (r, s\<lparr>sessions := x\<rparr>))"

definition on_limiter :: "(limiter, 'a) act \<Rightarrow> (web_site, 'a) act" where
  "on_limiter m = (\<lambda>s. case m (login_limiter s) of (r, x) \<Rightarrow> (r, s\<lparr>login_limiter := x\<rparr>))"

definition on_dashboard :: "(dash, 'a) act \<Rightarrow> (web_site, 'a) act" where
  "on_dashboard m = (\<lambda>s. case m (dashboard s) of (r, x) \<Rightarrow> (r, s\<lparr>dashboard := x\<rparr>))"

definition json_answer :: "int \<Rightarrow> (string \<times> pyval) list \<Rightarrow> answer" where
  "json_answer st d = \<lparr>status = st, payload = PDict d, set_cookie = None\<rparr>"

definition error_answer :: "int \<Rightarrow> string \<Rightarrow> answer" where
  "error_answer st message = json_answer st [(''error'', PStr message)]"

text \<open>\<^verbatim>\<open>str(exc)\<close> of the errors that reach an answer.\<close>

definition message_of :: "py_error \<Rightarrow> string" where
  "message_of e = (case e of ValueError m \<Rightarrow> m | SettingsBusyError m \<Rightarrow> m | OSError m \<Rightarrow> m | _ \<Rightarrow> exc_name e)"

definition MAX_JSON_BYTES :: int where "MAX_JSON_BYTES = 128 * 1024"

definition header :: "string option \<Rightarrow> string \<Rightarrow> string" where
  "header h dflt = (case h of None \<Rightarrow> dflt | Some v \<Rightarrow> v)"

definition read_body :: "web_env \<Rightarrow> request \<Rightarrow> py_error + (string \<times> pyval) list" where
  "read_body env rq =
     bindE (case py_int_str (header (content_length rq) ''0'') of
         Inl e \<Rightarrow> Inl (ValueError (''Ung'' @ [ue] @ ''ltige Anfrage.'')) | Inr n \<Rightarrow> Inr n) (\<lambda>n.
     if n \<le> 0 \<or> MAX_JSON_BYTES < n then Inl (ValueError (''Ung'' @ [ue] @ ''ltige Anfragegr'' @ [CHR 0xF6, CHR 0xDF] @ ''e.''))
     else if strip (takeWhile (\<lambda>c. c \<noteq> CHR '';'') (header (content_type rq) [])) \<noteq> ''application/json''
     then Inl (ValueError ''Content-Type muss application/json sein.'')
     else bindE (case parse_json env (take (nat n) (rq_data rq)) of
         Inl e \<Rightarrow> Inl (if is_value_error e then ValueError (''Ung'' @ [ue] @ ''ltiges JSON.'') else e) | Inr v \<Rightarrow> Inr v) (\<lambda>v.
       case v of PDict d \<Rightarrow> Inr d | _ \<Rightarrow> Inl (ValueError ''JSON-Objekt erwartet.'')))"

text \<open>\<^verbatim>\<open>hmac.compare_digest\<close> takes ASCII text only.\<close>

definition compare_digest :: "string \<Rightarrow> string \<Rightarrow> py_error + bool" where
  "compare_digest a b =
     (if list_all (\<lambda>c. code c < 128) a \<and> list_all (\<lambda>c. code c < 128) b then Inr (a = b) else Inl (TypeError ''compare_digest''))"

text \<open>The session of the request, or the answer that refuses it.\<close>

definition require_session :: "bool \<Rightarrow> request \<Rightarrow> (web_site, answer + (string \<times> session)) act" where
  "require_session csrf rq =
     bindA (on_sessions (get_session (at_start rq) (cookie_token rq))) (\<lambda>found.
       case (cookie_token rq, found) of
         (Some t, Some x) \<Rightarrow>
           if t = [] then ret (Inl (error_answer 401 ''Anmeldung erforderlich.''))
           else if csrf then bindA (liftE (compare_digest (header (csrf_header rq) []) (csrf_token x))) (\<lambda>same.
             ret (if same then Inr (t, x) else Inl (error_answer 403 (''Sicherheits-Token ist ung'' @ [ue] @ ''ltig.''))))
           else ret (Inr (t, x))
       | _ \<Rightarrow> ret (Inl (error_answer 401 ''Anmeldung erforderlich.'')))"

definition cookie_header_of :: "web_env \<Rightarrow> string \<Rightarrow> int \<Rightarrow> string" where
  "cookie_header_of env token max_age =
     ''qb_session='' @ token @ ''; Path=/; HttpOnly; SameSite=Strict; Max-Age='' @ show_int max_age @
     (if secure_cookies env then ''; Secure'' else [])"

section \<open>Log-in, log-out and password\<close>

text \<open>A log-in takes the lock of the limiter twice: to ask whether the address has to wait, and, when the password has been
  checked, to count the failure or to forget the earlier ones. Other requests may come in between.\<close>

definition admit_login :: "web_env \<Rightarrow> request \<Rightarrow> (web_site, answer + string \<times> string) act" where
  "admit_login env rq =
     bindA (on_limiter (retry_after (at_start rq) (client_address rq))) (\<lambda>wait.
     if wait \<noteq> 0
     then ret (Inl (error_answer 429 (''Zu viele Anmeldeversuche. Erneut in '' @ show_int wait @ '' Sekunden.'')))
     else bindA (liftE (read_body env rq)) (\<lambda>body.
       ret (Inr (strip (py_str (text_repr env) (dget body ''username'' (PStr []))),
                 py_str (text_repr env) (dget body ''password'' (PStr []))))))"

definition answer_login :: "web_env \<Rightarrow> request \<Rightarrow> string \<Rightarrow> string \<Rightarrow> (web_site, answer) act" where
  "answer_login env rq user secret =
     bindA (readA (\<lambda>s. liftE (verify (kdf_of env) (auth s) user secret))) (\<lambda>ok.
     if \<not> ok
     then thenA (on_limiter (login_failed (at_end rq) (client_address rq)))
       (ret (error_answer 401 ''Benutzername oder Passwort ist falsch.''))
     else thenA (on_limiter (login_succeeded (client_address rq)))
       (bindA (on_sessions (create_session (at_end rq) (fresh_token rq) (fresh_csrf rq) user)) (\<lambda>x.
         ret ((json_answer 200 [(''authenticated'', PBool True), (''username'', PStr user), (''csrfToken'', PStr (csrf_token x))])
           \<lparr>set_cookie := Some (cookie_header_of env (fresh_token rq) SESSION_MAX_AGE_SECONDS)\<rparr>))))"

definition login :: "web_env \<Rightarrow> request \<Rightarrow> (web_site, answer) act" where
  "login env rq = bindA (admit_login env rq) (\<lambda>r. case r of
     Inl a \<Rightarrow> ret a | Inr (user, secret) \<Rightarrow> answer_login env rq user secret)"

lemma login_unfold:
  "login env rq =
     bindA (on_limiter (retry_after (at_start rq) (client_address rq))) (\<lambda>wait.
     if wait \<noteq> 0
     then ret (error_answer 429 (''Zu viele Anmeldeversuche. Erneut in '' @ show_int wait @ '' Sekunden.''))
     else bindA (liftE (read_body env rq)) (\<lambda>body.
       let user = strip (py_str (text_repr env) (dget body ''username'' (PStr [])));
           secret = py_str (text_repr env) (dget body ''password'' (PStr [])) in
       bindA (readA (\<lambda>s. liftE (verify (kdf_of env) (auth s) user secret))) (\<lambda>ok.
       if \<not> ok
       then thenA (on_limiter (login_failed (at_end rq) (client_address rq)))
         (ret (error_answer 401 ''Benutzername oder Passwort ist falsch.''))
       else thenA (on_limiter (login_succeeded (client_address rq)))
         (bindA (on_sessions (create_session (at_end rq) (fresh_token rq) (fresh_csrf rq) user)) (\<lambda>x.
           ret ((json_answer 200 [(''authenticated'', PBool True), (''username'', PStr user), (''csrfToken'', PStr (csrf_token x))])
             \<lparr>set_cookie := Some (cookie_header_of env (fresh_token rq) SESSION_MAX_AGE_SECONDS)\<rparr>))))))"
  unfolding login_def admit_login_def answer_login_def Let_def
  by (rule ext) (auto simp: bindA_def split: prod.splits sum.splits)

definition logout :: "web_env \<Rightarrow> request \<Rightarrow> (web_site, answer) act" where
  "logout env rq =
     bindA (require_session True rq) (\<lambda>r. case r of
       Inl a \<Rightarrow> ret a
     | Inr (token, x) \<Rightarrow> thenA (on_sessions (revoke (Some token)))
         (ret ((json_answer 200 [(''authenticated'', PBool False)])\<lparr>set_cookie := Some (cookie_header_of env [] 0)\<rparr>)))"

definition set_password :: "web_env \<Rightarrow> request \<Rightarrow> (web_site, answer) act" where
  "set_password env rq =
     bindA (require_session True rq) (\<lambda>r. case r of
       Inl a \<Rightarrow> ret a
     | Inr (token, x) \<Rightarrow> bindA (liftE (read_body env rq)) (\<lambda>body.
         let current = py_str (text_repr env) (dget body ''currentPassword'' (PStr []));
             new = py_str (text_repr env) (dget body ''newPassword'' (PStr [])) in
         bindA (catchA (\<lambda>e. e = OSError ''PermissionError'')
             (thenA (on_auth (change_password (kdf_of env) (fresh_salt rq) (stamp rq) (auth_write_fault env) (session.username x) current new))
               (ret None))
             (\<lambda>e. ret (Some (error_answer 403 ''Das aktuelle Passwort ist nicht korrekt.'')))) (\<lambda>refused.
         case refused of
           Some a \<Rightarrow> ret a
         | None \<Rightarrow> thenA (on_sessions (revoke_user (session.username x) (Some token))) (ret (json_answer 200 [(''changed'', PBool True)])))))"

text \<open>\<^verbatim>\<open>do_POST\<close>: an error that is no \<^verbatim>\<open>ValueError\<close> leaves the request without an answer.\<close>

definition do_POST :: "web_env \<Rightarrow> request \<Rightarrow> (web_site, answer) act" where
  "do_POST env rq =
     catchA is_value_error
       (if rq_path rq = ''/api/auth/login'' then login env rq
        else if rq_path rq = ''/api/auth/logout'' then logout env rq
        else if rq_path rq = ''/api/auth/password'' then set_password env rq
        else ret (error_answer 404 ''Nicht gefunden.''))
       (\<lambda>e. ret (error_answer 400 (message_of e)))"

section \<open>Settings\<close>

fun is_busy :: "py_error \<Rightarrow> bool" where
  "is_busy (SettingsBusyError m) = True"
| "is_busy _ = False"

definition do_PUT :: "web_env \<Rightarrow> request \<Rightarrow> (web_site, answer) act" where
  "do_PUT env rq =
     (if rq_path rq \<noteq> ''/api/settings'' then ret (error_answer 404 ''Nicht gefunden.'')
      else bindA (require_session True rq) (\<lambda>r. case r of
        Inl a \<Rightarrow> ret a
      | Inr (token, x) \<Rightarrow> catchA (\<lambda>_. True)
          (bindA (liftE (read_body env rq)) (\<lambda>body.
           bindA (on_dashboard (update_settings (settings_of env) (paths_of env) (at_end rq) (backup_stamp rq) body)) (\<lambda>v.
           ret \<lparr>status = 200, payload = v, set_cookie = None\<rparr>)))
          (\<lambda>e. ret (if is_busy e then error_answer 409 (message_of e)
             else if is_value_error e then error_answer 400 (message_of e)
             else error_answer 500 ([CHR 0xC4] @ ''nderungen konnten nicht angewendet werden; die vorherige Konfiguration wurde wiederhergestellt.'')))))"

definition get_session_api :: "request \<Rightarrow> (web_site, answer) act" where
  "get_session_api rq =
     bindA (on_sessions (get_session (at_start rq) (cookie_token rq))) (\<lambda>found. ret (case found of
       Some x \<Rightarrow> json_answer 200 [(''authenticated'', PBool True), (''username'', PStr (session.username x)), (''csrfToken'', PStr (csrf_token x))]
     | None \<Rightarrow> json_answer 200 [(''authenticated'', PBool False)]))"

definition get_settings_api :: "web_env \<Rightarrow> request \<Rightarrow> (web_site, answer) act" where
  "get_settings_api env rq =
     bindA (require_session False rq) (\<lambda>r. case r of
       Inl a \<Rightarrow> ret a
     | Inr (token, x) \<Rightarrow> catchA (\<lambda>_. True)
         (bindA (on_dashboard (read_settings (settings_of env) (paths_of env))) (\<lambda>v. ret \<lparr>status = 200, payload = v, set_cookie = None\<rparr>))
         (\<lambda>e. ret (error_answer 500 ''Einstellungen konnten nicht gelesen werden.'')))"

end
