(* ===== verification/Dash_Access.thy ===== *)
theory Dash_Access
  imports Dash_Web
begin

text \<open>Who can change what through the dashboard's API, and who gets a session.\<close>

section \<open>Requests\<close>

datatype call_kind = Post | Put | Session | Settings

definition serve :: "web_env \<Rightarrow> call_kind \<Rightarrow> request \<Rightarrow> (web_site, answer) act" where
  "serve env kind rq = (case kind of Post \<Rightarrow> do_POST env rq | Put \<Rightarrow> do_PUT env rq | Session \<Rightarrow> get_session_api rq
     | Settings \<Rightarrow> get_settings_api env rq)"

definition guarded :: "web_site \<Rightarrow> auth_file \<times> (string \<rightharpoonup> string) \<times> string list" where
  "guarded s = (auth s, disk (dashboard s), services_restarted (dashboard s))"

text \<open>The request carries a live session and its token.\<close>

definition authorized :: "request \<Rightarrow> web_site \<Rightarrow> string \<Rightarrow> session \<Rightarrow> bool" where
  "authorized rq s t x \<longleftrightarrow> cookie_token rq = Some t \<and> sessions s t = Some x \<and> \<not> session_over (at_start rq) x \<and>
     header (csrf_header rq) [] = csrf_token x"

lemma on_frame:
  "guarded (snd (on_sessions m s)) = guarded s" "guarded (snd (on_limiter l s)) = guarded s"
  "sessions (snd (on_auth a s)) = sessions s" "login_limiter (snd (on_auth a s)) = login_limiter s"
  "sessions (snd (on_limiter l s)) = sessions s" "login_limiter (snd (on_sessions m s)) = login_limiter s"
  "auth (snd (on_sessions m s)) = auth s" "auth (snd (on_limiter l s)) = auth s" "auth (snd (on_dashboard d s)) = auth s"
  "sessions (snd (on_dashboard d s)) = sessions s" "login_limiter (snd (on_dashboard d s)) = login_limiter s"
  by (simp_all add: on_sessions_def on_limiter_def on_auth_def on_dashboard_def guarded_def split: prod.split)

lemma require_session_frame:
  "login_limiter (snd (require_session csrf rq s)) = login_limiter s"
  "guarded (snd (require_session csrf rq s)) = guarded s" "auth (snd (require_session csrf rq s)) = auth s"
proof -
  obtain r u where r: "on_sessions (get_session (at_start rq) (cookie_token rq)) s = (r, u)"
    by (cases "on_sessions (get_session (at_start rq) (cookie_token rq)) s")
  then have u: "login_limiter u = login_limiter s" "guarded u = guarded s" "auth u = auth s" using on_frame by (metis snd_conv)+
  have "snd (require_session csrf rq s) = u"
    unfolding require_session_def bindA_def r
    by (simp split: sum.split option.split)
  with u show "login_limiter (snd (require_session csrf rq s)) = login_limiter s"
    "guarded (snd (require_session csrf rq s)) = guarded s" "auth (snd (require_session csrf rq s)) = auth s" by simp_all
qed

lemma require_session_Inr:
  assumes "require_session csrf rq s = (Inr (Inr (t, x)), s')"
  shows "cookie_token rq = Some t" "\<exists>y. sessions s t = Some y \<and> \<not> session_over (at_start rq) y \<and> x = y\<lparr>last_seen := at_start rq\<rparr>"
    "csrf \<Longrightarrow> header (csrf_header rq) [] = csrf_token x" "sessions s' = (cleanup (at_start rq) (sessions s))(t \<mapsto> x)"
proof -
  obtain r m where g: "get_session (at_start rq) (cookie_token rq) (sessions s) = (r, m)"
    by (cases "get_session (at_start rq) (cookie_token rq) (sessions s)")
  have "cookie_token rq = Some t \<and> r = Inr (Some x) \<and> s' = s\<lparr>sessions := m\<rparr> \<and> (csrf \<longrightarrow> header (csrf_header rq) [] = csrf_token x)"
    using assms unfolding require_session_def bindA_def on_sessions_def g
    by (auto simp: compare_digest_def split: sum.splits option.splits if_splits)
  then show "cookie_token rq = Some t" "\<exists>y. sessions s t = Some y \<and> \<not> session_over (at_start rq) y \<and> x = y\<lparr>last_seen := at_start rq\<rparr>"
    "csrf \<Longrightarrow> header (csrf_header rq) [] = csrf_token x" "sessions s' = (cleanup (at_start rq) (sessions s))(t \<mapsto> x)"
    using get_session_Some [of "at_start rq" "cookie_token rq" "sessions s" x m] g by auto
qed

lemma require_session_authorized: "require_session True rq s = (Inr (Inr (t, x)), s') \<Longrightarrow> \<exists>x. authorized rq s t x"
  using require_session_Inr [of True rq s t x s'] by (auto simp: authorized_def)

text \<open>A handler that begins with the check changes nothing guarded unless the check lets it pass.\<close>

lemma behind_session:
  assumes "bindA (require_session True rq) (\<lambda>r. case r of Inl a \<Rightarrow> ret a | Inr tx \<Rightarrow> f tx) s = (r, s')" "guarded s' \<noteq> guarded s"
  shows "\<exists>t x. authorized rq s t x"
proof -
  obtain q u where q: "require_session True rq s = (q, u)" by (cases "require_session True rq s")
  have u: "guarded u = guarded s" using require_session_frame(2) [of True rq s] q by simp
  have "\<exists>t x. q = Inr (Inr (t, x))"
    using assms u q by (auto simp: bindA_def split: sum.splits)
  then show ?thesis using q require_session_authorized by blast
qed

lemma read_settings_disk: "disk (snd (read_settings env cfg s)) = disk s \<and> services_restarted (snd (read_settings env cfg s)) = services_restarted s"
proof -
  have "keeps (\<lambda>t. disk t = disk s \<and> services_restarted t = services_restarted s) (read_settings env cfg)"
    unfolding read_settings_def Let_def by (intro act_rules) auto
  then show ?thesis by (auto simp: keeps_def)
qed

lemma guarded_catch: "guarded (snd (catchA p m (\<lambda>e. ret (h e)) s)) = guarded (snd (m s))"
  by (auto simp: catchA_def split: prod.split sum.split)

lemma login_guarded: "guarded (snd (login env rq s)) = guarded s"
proof -
  have "keeps (\<lambda>t. guarded t = guarded s) (login env rq)"
    unfolding login_unfold Let_def
    by (intro act_rules; simp add: keeps_def on_frame)
  then show ?thesis by (auto simp: keeps_def)
qed

lemma changes_authorized:
  assumes "serve env kind rq s = (r, s')" "guarded s' \<noteq> guarded s"
  shows "\<exists>t x. authorized rq s t x"
proof (cases kind)
  case Post
  let ?h = "\<lambda>e. error_answer 400 (message_of e)"
  let ?m = "if rq_path rq = ''/api/auth/login'' then login env rq
        else if rq_path rq = ''/api/auth/logout'' then logout env rq
        else if rq_path rq = ''/api/auth/password'' then set_password env rq
        else ret (error_answer 404 ''Nicht gefunden.'')"
  have "do_POST env rq = catchA is_value_error ?m (\<lambda>e. ret (?h e))" by (simp add: do_POST_def)
  then have g: "guarded (snd (?m s)) \<noteq> guarded s" using assms Post guarded_catch [of is_value_error ?m ?h s] by (simp add: serve_def)
  obtain q u where q: "?m s = (q, u)" by (cases "?m s")
  show ?thesis
  proof (rule ccontr)
    assume n: "\<nexists>t x. authorized rq s t x"
    have "guarded (snd (logout env rq s)) = guarded s" "guarded (snd (set_password env rq s)) = guarded s"
      using behind_session [of rq _ s, OF _ _] n unfolding logout_def set_password_def
      by (metis (no_types, lifting) prod.collapse case_prod_beta')+
    then show False using g login_guarded [of env rq s] by (auto split: if_splits)
  qed
next
  case Put
  then show ?thesis using assms behind_session [of rq _ s r s']
    by (auto simp: serve_def do_PUT_def case_prod_beta' split: if_splits)
next
  case Session
  have "keeps (\<lambda>t. guarded t = guarded s) (get_session_api rq)"
    unfolding get_session_api_def by (intro act_rules) (simp add: keeps_def on_frame)
  then have "guarded s' = guarded s" using assms(1) Session by (auto simp: serve_def keeps_def)
  then show ?thesis using assms(2) by simp
next
  case Settings
  have rs: "keeps (\<lambda>t. guarded t = guarded s) (require_session False rq)"
    "keeps (\<lambda>t. guarded t = guarded s) (on_dashboard (read_settings (settings_of env) (paths_of env)))"
    using require_session_frame(2) read_settings_disk
    by (auto simp: keeps_def guarded_def on_dashboard_def split: prod.split) (metis snd_conv)+
  have k: "keeps (\<lambda>t. guarded t = guarded s) (get_settings_api env rq)"
    unfolding get_settings_api_def by (intro act_rules keeps_sum keeps_case_prod rs)
  then have "guarded s' = guarded s" using assms(1) Settings by (auto simp: serve_def keeps_def)
  then show ?thesis using assms(2) by simp
qed

section \<open>New sessions\<close>

definition login_fields :: "web_env \<Rightarrow> request \<Rightarrow> py_error + string \<times> string" where
  "login_fields env rq = bindE (read_body env rq) (\<lambda>body.
     Inr (strip (py_str (text_repr env) (dget body ''username'' (PStr []))), py_str (text_repr env) (dget body ''password'' (PStr []))))"

text \<open>How a log-in can go.\<close>

definition limited :: "request \<Rightarrow> limiter \<Rightarrow> int \<times> limiter" where
  "limited rq l = (case retry_after (at_start rq) (client_address rq) l of (Inr n, l') \<Rightarrow> (n, l') | (Inl e, l') \<Rightarrow> (1, l'))"

lemma retry_returns: "0 < max_attempts l \<Longrightarrow> \<exists>n l'. retry_after now address l = (Inr n, l')"
  by (auto simp: retry_after_def Let_def thenA_def bindA_def split: list.splits)

lemma on_succeeded:
  "thenA (on_limiter (login_succeeded address)) m s = m (s\<lparr>login_limiter := snd (login_succeeded address (login_limiter s))\<rparr>)"
  by (simp add: thenA_def bindA_def on_limiter_def login_succeeded_def)

lemma on_failed:
  "thenA (on_limiter (login_failed now address)) m s = m (s\<lparr>login_limiter := snd (login_failed now address (login_limiter s))\<rparr>)"
  by (simp add: thenA_def bindA_def on_limiter_def login_failed_def)

lemma on_created:
  "bindA (on_sessions (create_session now token csrf user)) f s =
   f \<lparr>session.username = user, csrf_token = csrf, created_at = now, last_seen = now\<rparr>
     (s\<lparr>sessions := snd (create_session now token csrf user (sessions s))\<rparr>)"
  by (simp add: bindA_def on_sessions_def create_session_def thenA_def Let_def)

lemma login_cases:
  assumes "login env rq s = (r, s')" "0 < max_attempts (login_limiter s)"
  obtains (wait) n where "limited rq (login_limiter s) = (n, login_limiter s')" "n \<noteq> 0" "r = Inr (error_answer 429
        (''Zu viele Anmeldeversuche. Erneut in '' @ show_int n @ '' Sekunden.''))" "s' = s\<lparr>login_limiter := login_limiter s'\<rparr>"
  | (refused) e where "limited rq (login_limiter s) = (0, login_limiter s')" "r = Inl e" "s' = s\<lparr>login_limiter := login_limiter s'\<rparr>"
  | (wrong) l where "limited rq (login_limiter s) = (0, l)" "login_limiter s' = snd (login_failed (at_end rq) (client_address rq) l)"
      "r = Inr (error_answer 401 ''Benutzername oder Passwort ist falsch.'')" "s' = s\<lparr>login_limiter := login_limiter s'\<rparr>"
  | (right) l user secret a where "limited rq (login_limiter s) = (0, l)" "login_limiter s' = snd (login_succeeded (client_address rq) l)"
      "login_fields env rq = Inr (user, secret)" "verify (kdf_of env) (auth s) user secret = Inr True"
      "sessions s' = snd (create_session (at_end rq) (fresh_token rq) (fresh_csrf rq) user (sessions s))" "r = Inr a" "status a = 200"
      "auth s' = auth s" "dashboard s' = dashboard s"
proof -
  let ?a = "\<lambda>user x. (json_answer 200 [(''authenticated'', PBool True), (''username'', PStr user), (''csrfToken'', PStr (csrf_token x))])
             \<lparr>set_cookie := Some (cookie_header_of env (fresh_token rq) SESSION_MAX_AGE_SECONDS)\<rparr>"
  obtain n l where l: "retry_after (at_start rq) (client_address rq) (login_limiter s) = (Inr n, l)"
    using retry_returns [OF assms(2)] by blast
  then have lim: "limited rq (login_limiter s) = (n, l)" by (simp add: limited_def)
  show ?thesis
  proof (cases "n = 0")
    case False
    then have "r = Inr (error_answer 429 (''Zu viele Anmeldeversuche. Erneut in '' @ show_int n @ '' Sekunden.''))"
        "s' = s\<lparr>login_limiter := l\<rparr>"
      using assms(1) l by (auto simp: login_unfold on_limiter_def bindA_def)
    then show ?thesis using wait [of n] lim False by simp
  next
    case n: True
    show ?thesis
    proof (cases "read_body env rq")
      case (Inl e)
      then show ?thesis using assms(1) l n lim refused [of e] by (auto simp: login_unfold on_limiter_def bindA_def)
    next
      case (Inr body)
      define user where "user = strip (py_str (text_repr env) (dget body ''username'' (PStr [])))"
      define secret where "secret = py_str (text_repr env) (dget body ''password'' (PStr []))"
      have f: "login_fields env rq = Inr (user, secret)" using Inr by (simp add: login_fields_def user_def secret_def)
      have run: "bindA (readA (\<lambda>s. liftE (verify (kdf_of env) (auth s) user secret))) (\<lambda>ok.
         if \<not> ok
         then thenA (on_limiter (login_failed (at_end rq) (client_address rq))) (ret (error_answer 401 ''Benutzername oder Passwort ist falsch.''))
         else thenA (on_limiter (login_succeeded (client_address rq)))
           (bindA (on_sessions (create_session (at_end rq) (fresh_token rq) (fresh_csrf rq) user)) (\<lambda>x.
           ret ((json_answer 200 [(''authenticated'', PBool True), (''username'', PStr user), (''csrfToken'', PStr (csrf_token x))])
             \<lparr>set_cookie := Some (cookie_header_of env (fresh_token rq) SESSION_MAX_AGE_SECONDS)\<rparr>))))
         (s\<lparr>login_limiter := l\<rparr>) = (r, s')"
        using assms(1) l n Inr unfolding login_unfold user_def secret_def by (simp add: on_limiter_def bindA_def Let_def)
      show ?thesis
      proof (cases "verify (kdf_of env) (auth s) user secret")
        case (Inl e)
        then show ?thesis using run lim n refused [of e] by (auto simp: bindA_def)
      next
        case v: (Inr ok)
        show ?thesis
        proof (cases ok)
          case True
          have "thenA (on_limiter (login_succeeded (client_address rq)))
             (bindA (on_sessions (create_session (at_end rq) (fresh_token rq) (fresh_csrf rq) user)) (\<lambda>x. ret (?a user x)))
             (s\<lparr>login_limiter := l\<rparr>) = (r, s')"
            using run v True by (simp add: bindA_def [of "\<lambda>s. liftE (verify _ (auth s) _ _) s"])
          then have e: "r = Inr (?a user \<lparr>session.username = user, csrf_token = fresh_csrf rq, created_at = at_end rq, last_seen = at_end rq\<rparr>)"
            and s': "s' = s\<lparr>login_limiter := snd (login_succeeded (client_address rq) l),
              sessions := snd (create_session (at_end rq) (fresh_token rq) (fresh_csrf rq) user (sessions s))\<rparr>"
            by (simp_all add: on_succeeded on_created)
          then obtain a where a: "r = Inr a" "status a = 200" by (simp add: json_answer_def)
          from v True have ok: "verify (kdf_of env) (auth s) user secret = Inr True" by simp
          from right [OF _ _ f ok _ a] lim n s' show ?thesis by simp
        next
          case False
          then show ?thesis
            using run lim n v wrong [of l]
            by (auto simp: bindA_def thenA_def on_limiter_def login_failed_def)
        qed
      qed
    qed
  qed
qed

lemma get_session_dom: "dom (snd (get_session now t m)) \<subseteq> dom m"
  by (auto simp: get_session_def Let_def thenA_def bindA_def cleanup_def split: option.splits if_splits)

lemma require_session_dom: "dom (sessions (snd (require_session csrf rq s))) \<subseteq> dom (sessions s)"
proof -
  obtain g m where g: "get_session (at_start rq) (cookie_token rq) (sessions s) = (g, m)"
    by (cases "get_session (at_start rq) (cookie_token rq) (sessions s)")
  have "snd (require_session csrf rq s) = s\<lparr>sessions := m\<rparr>"
    unfolding require_session_def bindA_def on_sessions_def g by (simp split: sum.split option.split)
  then show ?thesis using get_session_dom [of "at_start rq" "cookie_token rq" "sessions s"] g by simp
qed

text \<open>Every request but a log-in leaves the sessions there are or takes some away.\<close>

definition is_login :: "call_kind \<Rightarrow> request \<Rightarrow> bool" where
  "is_login kind rq \<longleftrightarrow> kind = Post \<and> rq_path rq = ''/api/auth/login''"

definition fewer :: "web_site \<Rightarrow> web_site \<Rightarrow> bool" where
  "fewer s t \<longleftrightarrow> dom (sessions t) \<subseteq> dom (sessions s) \<and> login_limiter t = login_limiter s"

lemma keeps_fewer_on:
  "keeps (fewer s) (require_session csrf rq)" "keeps (fewer s) (on_auth a)" "keeps (fewer s) (on_dashboard d)"
  "keeps (fewer s) (on_sessions (get_session now tok))" "keeps (fewer s) (on_sessions (revoke tok))"
  "keeps (fewer s) (on_sessions (revoke_user user tok))"
proof -
  have g: "dom (snd (get_session now tok m)) \<subseteq> dom m" "dom (snd (revoke tok m)) \<subseteq> dom m" "dom (snd (revoke_user user tok m)) \<subseteq> dom m" for m
    using get_session_dom by (auto simp: revoke_def revoke_user_def split: option.splits if_splits)
  have o: "sessions (snd (on_sessions m s)) = snd (m (sessions s))" for m :: "(session_store, 'x) act" and s
    by (simp add: on_sessions_def split: prod.split)
  show "keeps (fewer s) (require_session csrf rq)"
    using require_session_dom require_session_frame(1) unfolding keeps_def fewer_def by (metis subset_trans)
  show "keeps (fewer s) (on_auth a)" "keeps (fewer s) (on_dashboard d)" unfolding keeps_def fewer_def by (simp_all add: on_frame)
  show "keeps (fewer s) (on_sessions (get_session now tok))" "keeps (fewer s) (on_sessions (revoke tok))"
    "keeps (fewer s) (on_sessions (revoke_user user tok))"
    using g unfolding keeps_def fewer_def by (simp_all add: on_frame o) (meson subset_trans)+
qed

lemma other_requests:
  assumes "\<not> is_login kind rq" shows "fewer s (snd (serve env kind rq s))"
proof -
  have k: "keeps (fewer s) (serve env kind rq)"
    unfolding serve_def do_POST_def do_PUT_def logout_def set_password_def get_session_api_def get_settings_api_def Let_def
    using assms by (cases kind) (auto simp: is_login_def intro!: act_rules keeps_sum keeps_case_prod keeps_fewer_on)
  show ?thesis by (rule keepsD [OF k]) (simp add: fewer_def)
qed

lemma serve_login: "is_login kind rq \<Longrightarrow> serve env kind rq s = catchA is_value_error (login env rq) (\<lambda>e. ret (error_answer 400 (message_of e))) s"
  by (simp add: is_login_def serve_def do_POST_def)

lemma new_session_verified:
  assumes "serve env kind rq s = (r, s')" "sessions s' t = Some x" "sessions s t = None" "0 < max_attempts (login_limiter s)"
  shows "is_login kind rq \<and> t = fresh_token rq \<and> session.created_at x = at_end rq \<and>
    (\<exists>secret. login_fields env rq = Inr (session.username x, secret) \<and> verify (kdf_of env) (auth s) (session.username x) secret = Inr True)"
proof (cases "is_login kind rq")
  case False
  then have "dom (sessions s') \<subseteq> dom (sessions s)" using other_requests [OF False, of s env] assms(1) by (simp add: fewer_def)
  then show ?thesis using assms(2,3) by (auto simp: dom_def)
next
  case True
  obtain q u where q: "login env rq s = (q, u)" by (cases "login env rq s")
  have s': "s' = u" using assms(1) serve_login [OF True, of env s] q by (auto simp: catchA_def split: sum.splits if_splits)
  have same: False if "u = s\<lparr>login_limiter := l\<rparr>" for l using that assms(2,3) s' by simp
  from q assms(4) show ?thesis
  proof (cases rule: login_cases)
    case (right l user secret a)
    then have "t = fresh_token rq" "x = \<lparr>session.username = user, csrf_token = fresh_csrf rq, created_at = at_end rq, last_seen = at_end rq\<rparr>"
      using assms(2,3) s' by (auto simp: create_session_def Let_def thenA_def bindA_def cleanup_def split: if_splits)
    then show ?thesis using True right(3,4) by simp
  qed (use same in blast)+
qed

section \<open>The properties\<close>

text \<open>C5: a request changes the password file, a configuration file or a service only when it carries the cookie of a
  session that is neither over eight hours old nor idle for an hour, and the token of that session in its header.\<close>

theorem changes_need_session:
  assumes "serve env kind rq s = (r, s')"
    and "auth s' \<noteq> auth s \<or> disk (dashboard s') \<noteq> disk (dashboard s) \<or>
      services_restarted (dashboard s') \<noteq> services_restarted (dashboard s)"
  shows "\<exists>t x. cookie_token rq = Some t \<and> sessions s t = Some x \<and> \<not> session_over (at_start rq) x \<and>
    header (csrf_header rq) [] = csrf_token x"
  using changes_authorized [OF assms(1)] assms(2) by (auto simp: guarded_def authorized_def)

definition demo_session :: session where
  "demo_session = \<lparr>session.username = ''admin'', csrf_token = ''c'', created_at = 0, last_seen = 0\<rparr>"

definition demo_site :: web_site where
  "demo_site = \<lparr>auth = demo_auth [1, 2, 3] ''t0'' [99, 111, 114, 114, 101, 99, 116, 32, 104, 111, 114, 115, 101, 1, 2, 3],
     sessions = [''tok'' \<mapsto> demo_session], login_limiter = new_limiter, dashboard = demo_dash\<rparr>"

definition demo_web :: "(string \<times> pyval) list \<Rightarrow> web_env" where
  "demo_web d = \<lparr>kdf_of = demo_kdf, parse_json = \<lambda>_. Inr (PDict d), settings_of = demo_env, paths_of = demo_cfg,
     secure_cookies = False, text_repr = \<lambda>_. [], auth_write_fault = None\<rparr>"

definition demo_request :: "string \<Rightarrow> real \<Rightarrow> request" where
  "demo_request path now = \<lparr>rq_path = path, client_address = ''a'', cookie_token = Some ''tok'', csrf_header = Some ''c'',
     content_length = Some ''2'', content_type = Some ''application/json'', rq_data = [0, 0], at_start = now, at_end = now,
     fresh_token = ''tok2'', fresh_csrf = ''c2'', fresh_salt = [4, 5, 6], stamp = ''t1'', backup_stamp = ''b1''\<rparr>"

lemma demo_body: "read_body (demo_web d) (demo_request path now) = Inr d"
proof -
  have "py_int_str ''2'' = Inr 2" by code_simp
  moreover have "strip (takeWhile (\<lambda>c. c \<noteq> CHR '';'') ''application/json'') = ''application/json''" by code_simp
  ultimately show ?thesis by (simp add: read_body_def demo_web_def demo_request_def header_def MAX_JSON_BYTES_def)
qed

lemma demo_password_request:
  "\<exists>a s'. serve (demo_web [(''currentPassword'', PStr ''correct horse''), (''newPassword'', PStr ''battery staple'')]) Post
     (demo_request ''/api/auth/password'' 10) demo_site = (Inr a, s') \<and>
     auth s' = demo_auth [4, 5, 6] ''t1'' [98, 97, 116, 116, 101, 114, 121, 32, 115, 116, 97, 112, 108, 101, 4, 5, 6]"
  (is "\<exists>a s'. serve ?env Post ?rq _ = _ \<and> _")
proof -
  have sess: "require_session True ?rq demo_site =
      (Inr (Inr (''tok'', demo_session\<lparr>last_seen := 10\<rparr>)), demo_site\<lparr>sessions := [''tok'' \<mapsto> demo_session\<lparr>last_seen := 10\<rparr>]\<rparr>)"
    by (auto simp: require_session_def on_sessions_def get_session_def demo_site_def demo_request_def demo_session_def
        cleanup_def session_over_def SESSION_MAX_AGE_SECONDS_def SESSION_IDLE_SECONDS_def compare_digest_def header_def
        code_def bindA_def thenA_def Let_def fun_eq_iff)
  have f: "rq_path ?rq = ''/api/auth/password''" "fresh_salt ?rq = [4, 5, 6]" "stamp ?rq = ''t1''" "kdf_of ?env = demo_kdf"
      "auth_write_fault ?env = None" "session.username (demo_session\<lparr>last_seen := 10\<rparr>) = ''admin''"
    by (simp_all add: demo_request_def demo_web_def demo_session_def)
  have c: "change_password demo_kdf [4, 5, 6] ''t1'' None ''admin'' ''correct horse'' ''battery staple'' (auth demo_site) =
      (Inr (), demo_auth [4, 5, 6] ''t1'' [98, 97, 116, 116, 101, 114, 121, 32, 115, 116, 97, 112, 108, 101, 4, 5, 6])"
    using demo_change by (simp add: demo_site_def)
  show ?thesis
    by (simp add: serve_def do_POST_def f set_password_def bindA_def sess demo_body dget_def Let_def on_auth_def c catchA_def thenA_def
        on_sessions_def revoke_user_def)
qed

lemma changes_need_session_witness:
  "\<exists>a s'. serve (demo_web [(''currentPassword'', PStr ''correct horse''), (''newPassword'', PStr ''battery staple'')]) Post
     (demo_request ''/api/auth/password'' 10) demo_site = (Inr a, s') \<and> auth s' \<noteq> auth demo_site \<and>
     (\<exists>t x. cookie_token (demo_request ''/api/auth/password'' 10) = Some t \<and> sessions demo_site t = Some x \<and>
        header (csrf_header (demo_request ''/api/auth/password'' 10)) [] = csrf_token x)"
proof -
  obtain a s' where r: "serve (demo_web [(''currentPassword'', PStr ''correct horse''), (''newPassword'', PStr ''battery staple'')]) Post
     (demo_request ''/api/auth/password'' 10) demo_site = (Inr a, s')"
     "auth s' = demo_auth [4, 5, 6] ''t1'' [98, 97, 116, 116, 101, 114, 121, 32, 115, 116, 97, 112, 108, 101, 4, 5, 6]"
    using demo_password_request by blast
  have n: "auth s' \<noteq> auth demo_site" by (simp add: r(2) demo_site_def demo_auth_def)
  show ?thesis using r(1) n changes_need_session [OF r(1) disjI1, OF n] by blast
qed

text \<open>C11: a session appears only through a log-in request, under the fresh token of that request, for the user name
  the request named, and only when the password it carried was verified against the password file.\<close>

theorem session_needs_credentials:
  assumes "serve env kind rq s = (r, s')" "sessions s' t = Some x" "sessions s t = None" "0 < max_attempts (login_limiter s)"
  shows "is_login kind rq \<and> t = fresh_token rq \<and> session.created_at x = at_end rq \<and>
    (\<exists>secret. login_fields env rq = Inr (session.username x, secret) \<and> verify (kdf_of env) (auth s) (session.username x) secret = Inr True)"
  by (rule new_session_verified) (rule assms)+

lemma demo_verify:
  "verify demo_kdf (auth demo_site) ''admin'' ''correct horse'' = Inr True"
  "verify demo_kdf (auth demo_site) ''admin'' ''battery staple'' = Inr False"
  by (simp_all add: verify_def read_auth_def demo_site_def demo_auth_def password_fields_def b64_round_trip demo_derive)

lemma demo_login:
  "\<exists>a s' x. serve (demo_web [(''username'', PStr ''admin''), (''password'', PStr ''correct horse'')]) Post
     (demo_request ''/api/auth/login'' 10) demo_site = (Inr a, s') \<and> sessions s' ''tok2'' = Some x"
proof -
  have "strip ''admin'' = ''admin''" by code_simp
  then show ?thesis
    using demo_verify(1)
    by (simp add: serve_def do_POST_def login_unfold demo_body bindA_def demo_request_def on_limiter_def retry_after_def recent_tries_def
        tries_of_def demo_site_def new_limiter_def thenA_def Let_def dget_def demo_web_def login_succeeded_def on_sessions_def
        create_session_def catchA_def demo_body [unfolded demo_web_def demo_request_def])
qed

lemma session_needs_credentials_witness:
  "\<exists>a s' x. serve (demo_web [(''username'', PStr ''admin''), (''password'', PStr ''correct horse'')]) Post
     (demo_request ''/api/auth/login'' 10) demo_site = (Inr a, s') \<and> sessions s' ''tok2'' = Some x \<and>
     (\<exists>secret. verify demo_kdf (auth demo_site) (session.username x) secret = Inr True)"
proof -
  obtain a s' x where r: "serve (demo_web [(''username'', PStr ''admin''), (''password'', PStr ''correct horse'')]) Post
     (demo_request ''/api/auth/login'' 10) demo_site = (Inr a, s')" "sessions s' ''tok2'' = Some x"
    using demo_login by blast
  have "sessions demo_site ''tok2'' = None" "0 < max_attempts (login_limiter demo_site)" by (simp_all add: demo_site_def new_limiter_def)
  from session_needs_credentials [OF r this] r show ?thesis by (auto simp: demo_web_def)
qed

end
