(* ===== verification/Dash_Guesses.thy ===== *)
theory Dash_Guesses
  imports Dash_Access
begin

text \<open>
  How fast passwords can be tried. The server runs a thread per request, so the two halves of a log-in, asking the limiter and
  counting the failure, interleave with those of other log-ins and with other requests.
\<close>

section \<open>Requests that overlap\<close>

text \<open>A log-in arrives and asks the limiter, the \<open>n\<close>th of those under way is answered, or another request is served. What
  happened is kept with its time; a time stamp is read before the lock is taken, or, for a failure, under it.\<close>

datatype web_event = Arrive request | Finish nat | Other call_kind request

datatype mark = Asked request | Answered request "py_error + answer"

type_synonym under_way = "(request \<times> string \<times> string) list"

fun web_step :: "web_env \<Rightarrow> web_event \<Rightarrow> web_site \<times> under_way \<Rightarrow> mark list \<times> web_site \<times> under_way" where
  "web_step env (Arrive rq) (s, ws) = (case admit_login env rq s of
     (Inr (Inr (user, secret)), s') \<Rightarrow> ([Asked rq], s', ws @ [(rq, user, secret)])
   | (r, s') \<Rightarrow> ([Asked rq], s', ws))"
| "web_step env (Finish n) (s, ws) = (if length ws \<le> n then ([], s, ws) else case ws ! n of
     (rq, user, secret) \<Rightarrow> (case answer_login env rq user secret s of
       (r, s') \<Rightarrow> ([Answered rq r], s', take n ws @ drop (Suc n) ws)))"
| "web_step env (Other kind rq) (s, ws) = (if is_login kind rq then ([], s, ws) else ([], snd (serve env kind rq s), ws))"

fun web_run :: "web_env \<Rightarrow> web_event list \<Rightarrow> web_site \<times> under_way \<Rightarrow> mark list \<times> web_site \<times> under_way" where
  "web_run env [] st = ([], st)"
| "web_run env (e # es) st = (case web_step env e st of (ms, st') \<Rightarrow> case web_run env es st' of (ms', u) \<Rightarrow> (ms @ ms', u))"

definition from_address :: "string \<Rightarrow> under_way \<Rightarrow> nat" where
  "from_address address ws = length (filter (\<lambda>(rq, _). client_address rq = address) ws)"

text \<open>The most log-ins of one address that are under way at a time.\<close>

fun most_under_way :: "web_env \<Rightarrow> string \<Rightarrow> web_event list \<Rightarrow> web_site \<times> under_way \<Rightarrow> nat" where
  "most_under_way env address [] st = from_address address (snd st)"
| "most_under_way env address (e # es) st =
     max (from_address address (snd st)) (most_under_way env address es (snd (web_step env e st)))"

fun time_of :: "mark \<Rightarrow> real" where
  "time_of (Asked rq) = at_start rq"
| "time_of (Answered rq r) = at_end rq"

fun answers :: "mark \<Rightarrow> bool" where
  "answers (Asked rq) = False"
| "answers (Answered rq r) = True"

text \<open>The clock does not go back: the stamp of a failure is no earlier than any stamp read before.\<close>

fun clocked :: "mark list \<Rightarrow> bool" where
  "clocked [] \<longleftrightarrow> True"
| "clocked (x # xs) \<longleftrightarrow> list_all (\<lambda>y. answers y \<longrightarrow> time_of x \<le> time_of y) xs \<and> clocked xs"

text \<open>The times at which passwords from an address turned out wrong, since the last right one.\<close>

fun note_guess :: "string \<Rightarrow> mark \<Rightarrow> real list \<Rightarrow> real list" where
  "note_guess address (Asked rq) ts = ts"
| "note_guess address (Answered rq r) ts =
     (if client_address rq = address
      then (case r of Inr a \<Rightarrow> if status a = 200 then [] else if status a = 401 then ts @ [at_end rq] else ts | Inl e \<Rightarrow> ts)
      else ts)"

definition wrong_guesses :: "string \<Rightarrow> mark list \<Rightarrow> real list" where
  "wrong_guesses address ms = fold (note_guess address) ms []"

section \<open>What the limiter remembers\<close>

text \<open>The end of the list of wrong guesses; what it forgot lies more than its window before some stamp. As long as it remembers the
  fifth last it admits nobody, so only those already under way can add to it.\<close>

definition remembers :: "mark list \<Rightarrow> nat \<Rightarrow> string \<Rightarrow> nat \<Rightarrow> real list \<Rightarrow> limiter \<Rightarrow> bool" where
  "remembers past m address n ts l \<longleftrightarrow> max_attempts l = 5 \<and> window_seconds l = 300 \<and> n \<le> m \<and>
     (\<forall>i. i + m + 4 < length ts \<longrightarrow> ts ! i + 300 < ts ! (i + m + 4)) \<and>
     (\<exists>k. tries_of l address = drop k ts \<and> (\<forall>i < k. i < length ts \<longrightarrow> (\<exists>x \<in> set past. ts ! i + 300 < time_of x)) \<and>
       (\<forall>i \<ge> k. i + 5 \<le> length ts \<longrightarrow> length ts - (i + 5) + n + 1 \<le> m))"

lemma remembers_fewer: "remembers past m address n ts l \<Longrightarrow> n' \<le> n \<Longrightarrow> set past \<subseteq> set past' \<Longrightarrow> remembers past' m address n' ts l"
  unfolding remembers_def by (elim conjE exE, intro conjI exI) (assumption | (fastforce dest: spec))+

lemma remembers_same:
  "tries_of l' address = tries_of l address \<Longrightarrow> max_attempts l' = max_attempts l \<Longrightarrow> window_seconds l' = window_seconds l \<Longrightarrow>
   remembers past m address n ts l' = remembers past m address n ts l"
  by (simp add: remembers_def)

text \<open>Asking: old failures are forgotten, and who is admitted has found fewer than five.\<close>

lemma remembers_asked:
  assumes "remembers past m address n ts l" "retry_after now address l = (Inr w, l')" "Asked rq \<in> set past" "at_start rq = now"
  shows "remembers past m address n ts l'" "w = 0 \<Longrightarrow> n + 1 \<le> m \<Longrightarrow> remembers past m address (n + 1) ts l'"
proof -
  obtain k where k: "tries_of l address = drop k ts" "\<forall>i < k. i < length ts \<longrightarrow> (\<exists>x \<in> set past. ts ! i + 300 < time_of x)"
      "\<forall>i \<ge> k. i + 5 \<le> length ts \<longrightarrow> length ts - (i + 5) + n + 1 \<le> m"
    and l: "max_attempts l = 5" "window_seconds l = 300" "n \<le> m" "\<forall>i. i + m + 4 < length ts \<longrightarrow> ts ! i + 300 < ts ! (i + m + 4)"
    using assms(1) by (auto simp: remembers_def)
  let ?q = "recent_tries now address l"
  have l': "l' = l\<lparr>tries := (tries l)(address \<mapsto> ?q)\<rparr>" "w = 0 \<Longrightarrow> length ?q < 5"
    using assms(2) l(1) by (auto simp: retry_after_def Let_def thenA_def bindA_def split: if_splits list.splits)
  let ?p = "\<lambda>t. of_int (window_seconds l) < now - t"
  define j where "j = length (takeWhile ?p (drop k ts)) + k"
  have q: "?q = drop j ts" using k(1) dropWhile_eq_drop [of ?p "drop k ts"] by (simp add: recent_tries_def j_def)
  have old: "\<exists>x \<in> set past. ts ! i + 300 < time_of x" if "i < j" "i < length ts" for i
  proof (cases "i < k")
    case False
    then have "i - k < length (takeWhile ?p (drop k ts))" using that j_def by simp
    then have "?p (drop k ts ! (i - k))" by (metis nth_mem set_takeWhileD takeWhile_nth)
    then have "ts ! i + 300 < now" using False that l(2) by simp
    then show ?thesis using assms(3,4) by (intro bexI [of _ "Asked rq"]) simp_all
  qed (use k(2) that in blast)
  have t: "tries_of l' address = drop j ts" using l'(1) q by (simp add: tries_of_def)
  have kj: "k \<le> j" by (simp add: j_def)
  show "remembers past m address n ts l'"
    using l l'(1) old k(3) kj unfolding remembers_def t by (auto intro!: exI [of _ j])
  show "remembers past m address (n + 1) ts l'" if "w = 0" "n + 1 \<le> m"
  proof -
    have "length ts < j + 5" using l'(2) [OF that(1)] q by simp
    then show ?thesis using l that(2) l'(1) old unfolding remembers_def t by (auto intro!: exI [of _ j])
  qed
qed

text \<open>A failure: it comes from one of those under way.\<close>

lemma remembers_failed:
  assumes "remembers past m address (Suc n) ts l" "\<And>x. x \<in> set past \<Longrightarrow> time_of x \<le> now"
  shows "remembers past m address n (ts @ [now]) (snd (login_failed now address l))"
proof -
  obtain k where k: "tries_of l address = drop k ts" "\<forall>i < k. i < length ts \<longrightarrow> (\<exists>x \<in> set past. ts ! i + 300 < time_of x)"
      "\<forall>i \<ge> k. i + 5 \<le> length ts \<longrightarrow> length ts - (i + 5) + Suc n + 1 \<le> m"
    and l: "max_attempts l = 5" "window_seconds l = 300" "Suc n \<le> m" "\<forall>i. i + m + 4 < length ts \<longrightarrow> ts ! i + 300 < ts ! (i + m + 4)"
    using assms(1) by (auto simp: remembers_def)
  let ?k = "min k (length ts)"
  have t: "tries_of (snd (login_failed now address l)) address = drop ?k (ts @ [now])"
    using k(1) by (simp add: login_failed_def tries_of_def min_def)
  have "(ts @ [now]) ! i + 300 < (ts @ [now]) ! (i + m + 4)" if "i + m + 4 < length (ts @ [now])" for i
  proof (cases "i + m + 4 < length ts")
    case True
    then show ?thesis using l(4) by (simp add: nth_append)
  next
    case False
    then have i: "length ts = i + m + 4" using that by simp
    have "i < k"
    proof (rule ccontr)
      assume "\<not> i < k"
      then show False using k(3) [rule_format, of i] i l(3) by simp
    qed
    then obtain x where "x \<in> set past" "ts ! i + 300 < time_of x" using k(2) i by auto
    then show ?thesis using assms(2) i by (fastforce simp: nth_append)
  qed
  moreover have "\<exists>x \<in> set past. (ts @ [now]) ! i + 300 < time_of x" if "i < ?k" for i
    using k(2) that by (simp add: nth_append)
  moreover have "length (ts @ [now]) - (i + 5) + n + 1 \<le> m" if "?k \<le> i" "i + 5 \<le> length (ts @ [now])" for i
  proof (cases "i + 5 \<le> length ts")
    case True
    then have "k \<le> i" using that by simp
    then have "length ts - (i + 5) + Suc n + 1 \<le> m" using k(3) True by blast
    then show ?thesis using True by simp
  qed (use that l(3) in simp)
  ultimately show ?thesis
    using l unfolding remembers_def t by (auto simp: login_failed_def intro!: exI [of _ ?k])
qed

lemma remembers_succeeded:
  "remembers past m address n ts l \<Longrightarrow> remembers past m address n [] (snd (login_succeeded address l))"
  by (auto simp: remembers_def login_succeeded_def tries_of_def)

section \<open>One step\<close>

lemma from_address_simps [simp]:
  "from_address address [] = 0"
  "from_address address (ws @ vs) = from_address address ws + from_address address vs"
  "from_address address (w # ws) = (if client_address (fst w) = address then 1 else 0) + from_address address ws"
  by (auto simp: from_address_def case_prod_unfold)

lemma from_address_finish:
  assumes "n < length ws"
  shows "from_address address ws = from_address address (take n ws @ drop (Suc n) ws) +
    (if client_address (fst (ws ! n)) = address then 1 else 0)"
  by (subst id_take_nth_drop [OF assms]) simp

lemma admit_login_cases:
  assumes "admit_login env rq s = (r, s')" "0 < max_attempts (login_limiter s)"
  obtains w where "retry_after (at_start rq) (client_address rq) (login_limiter s) = (Inr w, login_limiter s')"
    "\<And>u. r = Inr (Inr u) \<Longrightarrow> w = 0"
proof -
  obtain w l where l: "retry_after (at_start rq) (client_address rq) (login_limiter s) = (Inr w, l)"
    using retry_returns [OF assms(2)] by blast
  then have "login_limiter s' = l" "\<And>u. r = Inr (Inr u) \<Longrightarrow> w = 0"
    using assms(1) by (auto simp: admit_login_def on_limiter_def bindA_def split: if_splits sum.splits)
  with l that show thesis by blast
qed

lemma answer_login_cases:
  assumes "answer_login env rq user secret s = (r, s')"
  obtains (refused) e where "r = Inl e" "login_limiter s' = login_limiter s"
  | (wrong) a where "r = Inr a" "status a = 401"
      "login_limiter s' = snd (login_failed (at_end rq) (client_address rq) (login_limiter s))"
  | (right) a where "r = Inr a" "status a = 200"
      "login_limiter s' = snd (login_succeeded (client_address rq) (login_limiter s))"
proof (cases "verify (kdf_of env) (auth s) user secret")
  case (Inl e)
  then show thesis using assms refused by (auto simp: answer_login_def bindA_def)
next
  case (Inr ok)
  show thesis
  proof (cases ok)
    case True
    have c: "bindA (on_sessions (create_session n t c u)) f z = f \<lparr>session.username = u, csrf_token = c, created_at = n, last_seen = n\<rparr>
        (z\<lparr>sessions := snd (create_session n t c u (sessions z))\<rparr>)" for n t c u and f :: "session \<Rightarrow> (web_site, answer) act" and z
      by (rule on_created)
    have "answer_login env rq user secret s = (thenA (on_limiter (login_succeeded (client_address rq)))
       (bindA (on_sessions (create_session (at_end rq) (fresh_token rq) (fresh_csrf rq) user)) (\<lambda>x.
         ret ((json_answer 200 [(''authenticated'', PBool True), (''username'', PStr user), (''csrfToken'', PStr (csrf_token x))])
           \<lparr>set_cookie := Some (cookie_header_of env (fresh_token rq) SESSION_MAX_AGE_SECONDS)\<rparr>)))) s"
      using Inr True unfolding answer_login_def bindA_def [of "\<lambda>s. liftE (verify _ (auth s) _ _) s"] by simp
    then show thesis using assms right by (auto simp: on_succeeded c json_answer_def)
  next
    case False
    then show thesis using assms Inr wrong
      by (auto simp: answer_login_def bindA_def thenA_def on_limiter_def login_failed_def error_answer_def json_answer_def)
  qed
qed

lemma limiter_other:
  "other \<noteq> address \<Longrightarrow> tries_of (snd (login_failed t other l)) address = tries_of l address"
  "other \<noteq> address \<Longrightarrow> tries_of (snd (login_succeeded other l)) address = tries_of l address"
  "retry_after now other l = (Inr w, l') \<Longrightarrow> other \<noteq> address \<Longrightarrow> tries_of l' address = tries_of l address"
  "retry_after now other l = (Inr w, l') \<Longrightarrow> max_attempts l' = max_attempts l \<and> window_seconds l' = window_seconds l"
  "max_attempts (snd (login_failed t other l)) = max_attempts l" "window_seconds (snd (login_failed t other l)) = window_seconds l"
  "max_attempts (snd (login_succeeded other l)) = max_attempts l" "window_seconds (snd (login_succeeded other l)) = window_seconds l"
  by (auto simp: login_failed_def login_succeeded_def retry_after_def tries_of_def Let_def thenA_def bindA_def split: if_splits list.splits)

lemma remembers_arrive:
  assumes "remembers past m address (from_address address ws) ts (login_limiter s)"
    and "web_step env (Arrive rq) (s, ws) = (ms, s', ws')" "from_address address ws' \<le> m"
  shows "remembers (past @ ms) m address (from_address address ws') (fold (note_guess address) ms ts) (login_limiter s')"
proof -
  obtain r t where r: "admit_login env rq s = (r, t)" by (cases "admit_login env rq s")
  have "0 < max_attempts (login_limiter s)" using assms(1) by (simp add: remembers_def)
  from admit_login_cases [OF r this] obtain w where
    w: "retry_after (at_start rq) (client_address rq) (login_limiter s) = (Inr w, login_limiter t)" "\<And>u. r = Inr (Inr u) \<Longrightarrow> w = 0" by blast
  have ms: "ms = [Asked rq]" "s' = t" "ws' = ws \<or> (\<exists>u p. ws' = ws @ [(rq, u, p)] \<and> w = 0)"
    using assms(2) r w(2) by (auto split: sum.splits)
  have past: "remembers (past @ ms) m address (from_address address ws) ts (login_limiter s)"
    by (rule remembers_fewer [OF assms(1)]) auto
  show ?thesis
  proof (cases "client_address rq = address")
    case True
    note a = remembers_asked [OF past w(1) [unfolded True], of]
    have in_past: "Asked rq \<in> set (past @ ms)" by (simp add: ms(1))
    show ?thesis using a [OF in_past refl] ms True assms(3) by auto
  next
    case False
    then have "from_address address ws' = from_address address ws" using ms(3) by auto
    then show ?thesis
      using past remembers_same [OF limiter_other(3) [OF w(1) False]] limiter_other(4) [OF w(1)] ms by simp
  qed
qed

lemma remembers_finish:
  assumes "remembers past m address (from_address address ws) ts (login_limiter s)"
    and "web_step env (Finish n) (s, ws) = (ms, s', ws')"
    and "\<And>x y. x \<in> set past \<Longrightarrow> y \<in> set ms \<Longrightarrow> answers y \<Longrightarrow> time_of x \<le> time_of y"
  shows "remembers (past @ ms) m address (from_address address ws') (fold (note_guess address) ms ts) (login_limiter s')"
proof (cases "n < length ws")
  case False
  then show ?thesis using assms(1,2) by auto
next
  case n: True
  obtain rq user secret where e: "ws ! n = (rq, user, secret)" by (cases "ws ! n")
  obtain r t where r: "answer_login env rq user secret s = (r, t)" by (cases "answer_login env rq user secret s")
  have ms: "ms = [Answered rq r]" "s' = t" "ws' = take n ws @ drop (Suc n) ws" using assms(2) n e r by auto
  have c: "from_address address ws = from_address address ws' + (if client_address rq = address then 1 else 0)"
    using from_address_finish [OF n, of address] by (simp add: ms(3) e)
  have past: "remembers (past @ ms) m address (from_address address ws') ts (login_limiter s)"
    by (rule remembers_fewer [OF assms(1)]) (use c in auto)
  from r show ?thesis
  proof (cases rule: answer_login_cases)
    case (refused e)
    then show ?thesis using past ms by simp
  next
    case (wrong a)
    show ?thesis
    proof (cases "client_address rq = address")
      case True
      have "remembers past m address (Suc (from_address address ws')) ts (login_limiter s)" using assms(1) c True by simp
      moreover have "time_of x \<le> at_end rq" if "x \<in> set past" for x using assms(3) [OF that, of "Answered rq r"] ms(1) by simp
      ultimately have "remembers past m address (from_address address ws') (ts @ [at_end rq]) (login_limiter t)"
        using remembers_failed wrong(3) True by simp
      then show ?thesis using wrong True ms by (auto elim: remembers_fewer)
    next
      case False
      then show ?thesis using past ms wrong remembers_same [OF limiter_other(1) [OF False] limiter_other(5,6)] by simp
    qed
  next
    case (right a)
    show ?thesis
    proof (cases "client_address rq = address")
      case True
      then show ?thesis using remembers_succeeded [OF past] ms right by simp
    next
      case False
      then show ?thesis using past ms right remembers_same [OF limiter_other(2) [OF False] limiter_other(7,8)] by simp
    qed
  qed
qed

lemma remembers_step:
  assumes "remembers past m address (from_address address ws) ts (login_limiter s)"
    and "web_step env e (s, ws) = (ms, s', ws')" "from_address address ws' \<le> m"
    and "\<And>x y. x \<in> set past \<Longrightarrow> y \<in> set ms \<Longrightarrow> answers y \<Longrightarrow> time_of x \<le> time_of y"
  shows "remembers (past @ ms) m address (from_address address ws') (fold (note_guess address) ms ts) (login_limiter s')"
proof (cases e)
  case (Arrive rq)
  then show ?thesis using remembers_arrive assms by blast
next
  case (Finish n)
  then show ?thesis using remembers_finish assms by blast
next
  case (Other kind rq)
  then have "login_limiter s' = login_limiter s" "ms = []" "ws' = ws"
    using assms(2) other_requests [of kind rq s env] by (auto simp: fewer_def split: if_splits)
  then show ?thesis using assms(1) by simp
qed

lemma remembers_run:
  assumes "web_run env es (s, ws) = (ms, s', ws')" "remembers past m address (from_address address ws) ts (login_limiter s)"
    and "most_under_way env address es (s, ws) \<le> m" "clocked ms"
    and "\<And>x y. x \<in> set past \<Longrightarrow> y \<in> set ms \<Longrightarrow> answers y \<Longrightarrow> time_of x \<le> time_of y"
  shows "remembers (past @ ms) m address (from_address address ws') (fold (note_guess address) ms ts) (login_limiter s')"
  using assms
proof (induction es arbitrary: s ws ms past ts)
  case (Cons e es)
  obtain ms1 t vs where 1: "web_step env e (s, ws) = (ms1, t, vs)" by (cases "web_step env e (s, ws)") auto
  obtain ms2 where 2: "web_run env es (t, vs) = (ms2, s', ws')" "ms = ms1 @ ms2"
    using Cons.prems(1) 1 by (auto split: prod.splits)
  have m: "most_under_way env address es (t, vs) \<le> m" using Cons.prems(3) 1 by simp
  then have v: "from_address address vs \<le> m" by (cases es) auto
  have c: "clocked ms2" "\<And>x y. x \<in> set ms1 \<Longrightarrow> y \<in> set ms2 \<Longrightarrow> answers y \<Longrightarrow> time_of x \<le> time_of y"
    using Cons.prems(4) unfolding 2(2) by (induction ms1) (auto simp: list_all_iff)
  have "remembers (past @ ms1) m address (from_address address vs) (fold (note_guess address) ms1 ts) (login_limiter t)"
    by (rule remembers_step [OF Cons.prems(2) 1 v]) (use Cons.prems(5) 2(2) in auto)
  from Cons.IH [OF 2(1) this m c(1)] c(2) Cons.prems(5) show ?case by (auto simp: 2(2))
qed auto

section \<open>The property\<close>

text \<open>C14: passwords cannot be tried much faster than five in 300 seconds. However log-ins and other requests from all addresses
  interleave: when at most \<open>m\<close> log-ins of an address are under way at a time, any \<open>m\<close> + 5 wrong passwords in
  a row from it, without a right one between them, span more than 300 seconds; so it is at most \<open>m\<close> + 4 guesses in
  any 300 seconds, five when they follow one another. The server itself does not bound \<open>m\<close>
  (\<^verbatim>\<open>overlapping_guesses_pass\<close>).\<close>

theorem guesses_are_limited:
  assumes "web_run env es (s, []) = (ms, s', ws)" "login_limiter s = new_limiter" "clocked ms"
    and "most_under_way env address es (s, []) \<le> m" "i + m + 4 < length (wrong_guesses address ms)"
  shows "wrong_guesses address ms ! i + 300 < wrong_guesses address ms ! (i + m + 4)"
proof -
  have "remembers [] m address (from_address address []) [] (login_limiter s)"
    by (simp add: assms(2) remembers_def new_limiter_def tries_of_def)
  from remembers_run [OF assms(1) this assms(4,3)] show ?thesis
    using assms(5) by (simp add: remembers_def wrong_guesses_def)
qed

definition guess_env :: web_env where
  "guess_env = demo_web [(''username'', PStr ''admin''), (''password'', PStr ''battery staple'')]"

definition wrong_answer :: answer where
  "wrong_answer = error_answer 401 ''Benutzername oder Passwort ist falsch.''"

abbreviation try_at :: "real \<Rightarrow> request" where "try_at now \<equiv> demo_request ''/api/auth/login'' now"

definition with_tries :: "real list \<Rightarrow> web_site" where
  "with_tries ts = demo_site\<lparr>login_limiter := new_limiter\<lparr>tries := [''a'' \<mapsto> ts]\<rparr>\<rparr>"

lemma demo_admit:
  assumes "length (dropWhile (\<lambda>t. 300 < now - t) ts) < 5"
  shows "admit_login guess_env (try_at now) (with_tries ts) =
    (Inr (Inr (''admin'', ''battery staple'')), with_tries (dropWhile (\<lambda>t. 300 < now - t) ts))"
proof -
  have st: "strip ''admin'' = ''admin''" by code_simp
  have f: "client_address (try_at now) = ''a''" "at_start (try_at now) = now" by (simp_all add: demo_request_def)
  have b: "read_body guess_env (try_at now) = Inr [(''username'', PStr ''admin''), (''password'', PStr ''battery staple'')]"
    unfolding guess_env_def by (rule demo_body)
  show ?thesis
    using assms
    by (simp add: admit_login_def f b bindA_def on_limiter_def retry_after_def thenA_def Let_def dget_def st tries_of_def
        recent_tries_def with_tries_def new_limiter_def)
qed

lemma demo_admit_first:
  "admit_login guess_env (try_at now) demo_site = (Inr (Inr (''admin'', ''battery staple'')), with_tries [])"
proof -
  have st: "strip ''admin'' = ''admin''" by code_simp
  have f: "client_address (try_at now) = ''a''" "at_start (try_at now) = now" by (simp_all add: demo_request_def)
  have b: "read_body guess_env (try_at now) = Inr [(''username'', PStr ''admin''), (''password'', PStr ''battery staple'')]"
    unfolding guess_env_def by (rule demo_body)
  have l: "login_limiter demo_site = new_limiter" by (simp add: demo_site_def)
  show ?thesis
    by (simp add: admit_login_def f b bindA_def on_limiter_def retry_after_def thenA_def Let_def dget_def st tries_of_def
        recent_tries_def with_tries_def l) (simp add: new_limiter_def tries_of_def)
qed

lemma demo_answer:
  "answer_login guess_env (try_at now) ''admin'' ''battery staple'' (with_tries ts) = (Inr wrong_answer, with_tries (ts @ [now]))"
proof -
  have f: "client_address (try_at now) = ''a''" "at_end (try_at now) = now" "kdf_of guess_env = demo_kdf"
    by (simp_all add: demo_request_def guess_env_def demo_web_def)
  show ?thesis
    using demo_verify(2)
    by (simp add: answer_login_def f bindA_def on_limiter_def thenA_def tries_of_def with_tries_def login_failed_def wrong_answer_def)
qed

definition demo_tries :: "web_event list" where
  "demo_tries = concat (map (\<lambda>now. [Arrive (try_at now), Finish 0]) [0, 1, 2, 3]) @
     [Arrive (try_at 4), Arrive (try_at 4), Finish 1, Finish 0, Arrive (try_at 305), Finish 0]"

definition demo_marks :: "mark list" where
  "demo_marks = concat (map (\<lambda>now. [Asked (try_at now), Answered (try_at now) (Inr wrong_answer)]) [0, 1, 2, 3]) @
     [Asked (try_at 4), Asked (try_at 4), Answered (try_at 4) (Inr wrong_answer), Answered (try_at 4) (Inr wrong_answer),
      Asked (try_at 305), Answered (try_at 305) (Inr wrong_answer)]"

lemma demo_steps:
  "web_step guess_env (Arrive (try_at now)) (demo_site, []) = ([Asked (try_at now)], with_tries [], [(try_at now, ''admin'', ''battery staple'')])"
  "length (dropWhile (\<lambda>t. 300 < now - t) ts) < 5 \<Longrightarrow> web_step guess_env (Arrive (try_at now)) (with_tries ts, ws) =
     ([Asked (try_at now)], with_tries (dropWhile (\<lambda>t. 300 < now - t) ts), ws @ [(try_at now, ''admin'', ''battery staple'')])"
  "web_step guess_env (Finish 0) (with_tries ts, (try_at now, ''admin'', ''battery staple'') # ws) =
     ([Answered (try_at now) (Inr wrong_answer)], with_tries (ts @ [now]), ws)"
  "web_step guess_env (Finish 1) (with_tries ts, w # (try_at now, ''admin'', ''battery staple'') # ws) =
     ([Answered (try_at now) (Inr wrong_answer)], with_tries (ts @ [now]), w # ws)"
  by (simp_all add: demo_admit_first demo_admit demo_answer)

lemma demo_try_run:
  "\<exists>t. web_run guess_env demo_tries (demo_site, []) = (demo_marks, t, []) \<and>
     most_under_way guess_env ''a'' demo_tries (demo_site, []) = 2"
proof -
  have f: "client_address (try_at now) = ''a''" for now by (simp add: demo_request_def)
  show ?thesis by (simp add: demo_tries_def demo_marks_def demo_steps f del: web_step.simps One_nat_def)
qed

lemma guesses_are_limited_witness:
  "\<exists>ms t. web_run guess_env demo_tries (demo_site, []) = (ms, t, []) \<and> length (wrong_guesses ''a'' ms) = 7 \<and>
     wrong_guesses ''a'' ms ! 0 + 300 < wrong_guesses ''a'' ms ! 6"
proof -
  obtain t where r: "web_run guess_env demo_tries (demo_site, []) = (demo_marks, t, [])"
    "most_under_way guess_env ''a'' demo_tries (demo_site, []) \<le> 2"
    using demo_try_run by auto
  have f: "client_address (try_at now) = ''a''" "at_start (try_at now) = now" "at_end (try_at now) = now" for now
    by (simp_all add: demo_request_def)
  have g: "wrong_guesses ''a'' demo_marks = [0, 1, 2, 3, 4, 4, 305]"
    by (simp add: wrong_guesses_def demo_marks_def f wrong_answer_def error_answer_def json_answer_def)
  have l: "login_limiter demo_site = new_limiter" by (simp add: demo_site_def)
  have c: "clocked demo_marks" by (simp add: demo_marks_def f)
  from guesses_are_limited [OF r(1) l c r(2), of 0] show ?thesis using r(1) g by auto
qed

text \<open>The limiter counts a guess only when it has failed, so any number of requests that overlap all pass.\<close>

lemma overlapping_guesses_pass:
  "fst (forA (replicate 10 ()) (\<lambda>_ ns. bindA (retry_after 0 ''a'') (\<lambda>n. ret (n # ns))) [] new_limiter) = Inr (replicate 10 0)"
  by (simp add: numeral_eq_Suc retry_after_def recent_tries_def tries_of_def new_limiter_def bindA_def thenA_def Let_def)

end
