(* ===== verification/Dash_Position.thy ===== *)
theory Dash_Position
  imports Dash_State
begin

text \<open>
  Where the radios are: \<^verbatim>\<open>decode_motorola_lrrp_position\<close> of \<^verbatim>\<open>src/dashboard/app.py\<close>, which takes a captured IP packet
  as hexadecimal text and finds the position in the location report inside it. An offset into the report is the
  list of the bytes from there on.
\<close>

section \<open>Hexadecimal text\<close>

definition ascii_space :: "char \<Rightarrow> bool" where
  "ascii_space c \<longleftrightarrow> code c = 32 \<or> (9 \<le> code c \<and> code c \<le> 13)"

definition hex_value :: "char \<Rightarrow> nat option" where
  "hex_value c =
     (let n = code c in
      if 48 \<le> n \<and> n \<le> 57 then Some (n - 48)
      else if 65 \<le> n \<and> n \<le> 70 then Some (n - 55)
      else if 97 \<le> n \<and> n \<le> 102 then Some (n - 87) else None)"

text \<open>\<^verbatim>\<open>bytes.fromhex\<close>: white space may stand between the pairs of digits.\<close>

fun from_hex :: "string \<Rightarrow> py_error + bytes" where
  "from_hex [] = Inr []"
| "from_hex [c] = (if ascii_space c then Inr [] else Inl (ValueError ''fromhex''))"
| "from_hex (c # d # cs) =
     (if ascii_space c then from_hex (d # cs)
      else case (hex_value c, hex_value d) of
        (Some h, Some l) \<Rightarrow> bindE (from_hex cs) (\<lambda>bs. Inr (word_of_nat (16 * h + l) # bs))
      | _ \<Rightarrow> Inl (ValueError ''fromhex''))"

section \<open>The report inside the packet\<close>

text \<open>The payload of the UDP datagram, for an IPv4 packet that is long enough and carries UDP.\<close>

definition udp_payload :: "bytes \<Rightarrow> bytes option" where
  "udp_payload packet =
     (if length packet < 39 \<or> unat (packet ! 0) div 16 \<noteq> 4 \<or> packet ! 9 \<noteq> 0x11 then None
      else let ip_header_length = unat (packet ! 0) mod 16 * 4 in
        if ip_header_length < 20 \<or> length packet < ip_header_length + 10 then None
        else let udp_length = nat (be_val (slice (ip_header_length + 4) (ip_header_length + 6) packet)) in
          if udp_length < 10 \<or> length packet < ip_header_length + udp_length then None
          else Some (slice (ip_header_length + 8) (ip_header_length + udp_length) packet))"

text \<open>The report behind its type and length, without the identifier of the request it answers.\<close>

definition lrrp_report :: "bytes \<Rightarrow> bytes option" where
  "lrrp_report payload =
     (if length payload < 2 \<or> unat (payload ! 0) mod 128 \<notin> {0x07, 0x0D} then None
      else let report_length = unat (payload ! 1) + 2 in
        if length payload < report_length then None
        else Some (case slice 2 report_length payload of
            token # n # rest \<Rightarrow> if token = 0x22 then drop (unat n) rest else token # n # rest
          | report \<Rightarrow> report))"

definition signed32 :: "int \<Rightarrow> int" where
  "signed32 v = (if v < 2 ^ 31 then v else v - 2 ^ 32)"

definition round7 :: "real \<Rightarrow> real" where
  "round7 x = of_int (py_round (x * 10 ^ 7)) / 10 ^ 7"

text \<open>A number of the report: every byte but the last has its top bit set.\<close>

fun skip_number :: "bytes \<Rightarrow> bytes" where
  "skip_number [] = []"
| "skip_number (b # bs) = (if unat b < 128 then bs else skip_number bs)"

lemma length_skip_number [termination_simp]: "length (skip_number bs) \<le> length bs"
  by (induction bs rule: skip_number.induct) auto

definition position_of :: "bytes \<Rightarrow> (real \<times> real) option" where
  "position_of bs =
     (let latitude = of_int (signed32 (be_val (slice 0 4 bs))) * 180 / 2 ^ 32;
          longitude = of_int (signed32 (be_val (slice 4 8 bs))) * 360 / 2 ^ 32 in
      if - 90 \<le> latitude \<and> latitude \<le> 90 \<and> - 180 \<le> longitude \<and> longitude \<le> 180
      then Some (round7 latitude, round7 longitude) else None)"

text \<open>The tokens: a time stamp and a number are skipped, the first position ends the search.\<close>

function find_position :: "bytes \<Rightarrow> (real \<times> real) option" where
  "find_position [] = None"
| "find_position (token # rest) =
     (if token = 0x34 then find_position (drop 5 rest)
      else if token = 0x37 then find_position (skip_number rest)
      else if token \<in> {0x51, 0x55, 0x66, 0x69} \<and> 8 \<le> length rest then position_of rest
      else None)"
  by pat_completeness auto
termination
  by (relation "measure length") (auto simp: le_imp_less_Suc length_skip_number)

definition decode_motorola_lrrp_position :: "string \<Rightarrow> (real \<times> real) option" where
  "decode_motorola_lrrp_position packet_hex = (case from_hex packet_hex of
     Inl _ \<Rightarrow> None
   | Inr packet \<Rightarrow> Option.bind (udp_payload packet) (\<lambda>payload. Option.bind (lrrp_report payload) find_position))"

section \<open>Positions are on the globe\<close>

lemma round7_within:
  assumes "of_int lo \<le> x" "x \<le> of_int hi"
  shows "of_int lo \<le> round7 x \<and> round7 x \<le> of_int hi"
proof -
  have "of_int (lo * 10 ^ 7) \<le> x * 10 ^ 7" "x * 10 ^ 7 \<le> of_int (hi * 10 ^ 7)" using assms by simp_all
  then have "lo * 10 ^ 7 \<le> py_round (x * 10 ^ 7)" "py_round (x * 10 ^ 7) \<le> hi * 10 ^ 7"
    using py_round_ge [of "lo * 10 ^ 7" "x * 10 ^ 7"] py_round_le [of "x * 10 ^ 7" "hi * 10 ^ 7"] by simp_all
  then have "of_int (lo * 10 ^ 7) \<le> (of_int (py_round (x * 10 ^ 7)) :: real)"
    "(of_int (py_round (x * 10 ^ 7)) :: real) \<le> of_int (hi * 10 ^ 7)" by (simp_all only: of_int_le_iff)
  then show ?thesis by (simp add: round7_def field_simps)
qed

lemma round7_near: "\<bar>round7 x - x\<bar> \<le> 1 / (2 * 10 ^ 7)"
proof -
  have "\<bar>x * 10 ^ 7 - of_int (py_round (x * 10 ^ 7))\<bar> \<le> 1 / 2" by (rule py_round_near)
  then show ?thesis by (simp add: round7_def field_simps abs_minus_commute)
qed

definition on_globe :: "real \<times> real \<Rightarrow> bool" where
  "on_globe p \<longleftrightarrow> (case p of (latitude, longitude) \<Rightarrow>
     - 90 \<le> latitude \<and> latitude \<le> 90 \<and> - 180 \<le> longitude \<and> longitude \<le> 180)"

lemma position_of_globe: "position_of bs = Some p \<Longrightarrow> on_globe p"
  using round7_within [of "- 90" _ 90] round7_within [of "- 180" _ 180]
  by (auto simp: position_of_def on_globe_def Let_def split: if_splits)

lemma find_position_globe: "find_position bs = Some p \<Longrightarrow> on_globe p"
  by (induction bs rule: find_position.induct) (auto simp: position_of_globe split: if_splits)

lemma decode_on_globe: "decode_motorola_lrrp_position s = Some p \<Longrightarrow> on_globe p"
  by (auto simp: decode_motorola_lrrp_position_def find_position_globe bind_eq_Some_conv split: sum.splits)

section \<open>Reports as the radios send them\<close>

lemma hex_value_digit: "n < 16 \<Longrightarrow> hex_value (hex_digit n) = Some n \<and> \<not> ascii_space (hex_digit n)"
  by (simp add: hex_digit_def hex_value_def ascii_space_def code_def Let_def)

lemma from_hex_text: "from_hex (hex_text bs) = Inr bs"
proof (induction bs)
  case (Cons b bs)
  have b: "unat b < 256" using unsigned_less [of b, where 'a = nat] by simp
  then have d: "unat b div 16 < 16" "unat b mod 16 < 16" by simp_all
  have "(word_of_nat (16 * (unat b div 16) + unat b mod 16) :: byte) = b" by simp
  then show ?case using Cons hex_value_digit [OF d(1)] hex_value_digit [OF d(2)] by (simp add: hex_text_def)
qed (simp add: hex_text_def)

text \<open>A packet: the IPv4 header, the UDP header with its length, the report with its length, and whatever follows.\<close>

definition report_packet :: "bytes \<Rightarrow> bytes \<Rightarrow> bytes \<Rightarrow> byte \<Rightarrow> bytes \<Rightarrow> bytes \<Rightarrow> bytes" where
  "report_packet ip ports checksum kind report tail =
     ip @ ports @ be_bytes 2 (int (10 + length report)) @ checksum @ [kind, word_of_nat (length report)] @ report @ tail"

definition ip_header :: "bytes \<Rightarrow> bool" where
  "ip_header ip \<longleftrightarrow> (\<exists>n. 5 \<le> n \<and> n < 16 \<and> length ip = 4 * n \<and> unat (ip ! 0) = 64 + n) \<and> ip ! 9 = 0x11"

text \<open>What may stand before the position: the identifier of the request, then time stamps and numbers.\<close>

definition request_id :: "bytes \<Rightarrow> bytes" where
  "request_id rid = [0x22, word_of_nat (length rid)] @ rid"

fun token_bytes :: "bytes + bytes \<Rightarrow> bytes" where
  "token_bytes (Inl stamp) = 0x34 # stamp"
| "token_bytes (Inr number) = 0x37 # number"

fun token_ok :: "bytes + bytes \<Rightarrow> bool" where
  "token_ok (Inl stamp) \<longleftrightarrow> length stamp = 5"
| "token_ok (Inr number) \<longleftrightarrow> number \<noteq> [] \<and> unat (last number) < 128 \<and> list_all (\<lambda>b. 128 \<le> unat b) (butlast number)"

definition position_token :: "byte \<Rightarrow> int \<Rightarrow> int \<Rightarrow> bytes" where
  "position_token kind latitude longitude = kind # be_bytes 4 latitude @ be_bytes 4 longitude"

lemma skip_number_ends:
  "number \<noteq> [] \<Longrightarrow> unat (last number) < 128 \<Longrightarrow> list_all (\<lambda>b. 128 \<le> unat b) (butlast number) \<Longrightarrow>
   skip_number (number @ rest) = rest"
proof (induction number)
  case (Cons b bs)
  then show ?case by (cases "bs = []") auto
qed simp

lemma skip_tokens: "list_all token_ok ts \<Longrightarrow> find_position (concat (map token_bytes ts) @ rest) = find_position rest"
proof (induction ts)
  case (Cons t ts)
  then show ?case by (cases t) (simp_all add: skip_number_ends)
qed simp

lemma signed32_mod: "- (2 ^ 31) \<le> v \<Longrightarrow> v < 2 ^ 31 \<Longrightarrow> signed32 (v mod 2 ^ 32) = v"
proof (cases "0 \<le> v")
  case False
  moreover assume "- (2 ^ 31) \<le> v"
  ultimately have "v mod 2 ^ 32 = v + 2 ^ 32"
    using mod_pos_pos_trivial [of "v + 2 ^ 32" "2 ^ 32"] by simp
  then show ?thesis using \<open>- (2 ^ 31) \<le> v\<close> by (simp add: signed32_def)
qed (simp add: signed32_def)

lemma position_found:
  assumes "kind \<in> {0x51, 0x55, 0x66, 0x69}" "- (2 ^ 31) \<le> la" "la < 2 ^ 31" "- (2 ^ 31) \<le> lo" "lo < 2 ^ 31"
  shows "find_position (position_token kind la lo @ rest) =
    Some (round7 (of_int la * 180 / 2 ^ 32), round7 (of_int lo * 360 / 2 ^ 32))"
proof -
  have v: "signed32 (be_val (slice 0 4 (be_bytes 4 la @ be_bytes 4 lo @ rest))) = la"
    "signed32 (be_val (slice 4 8 (be_bytes 4 la @ be_bytes 4 lo @ rest))) = lo"
    using signed32_mod [of la] signed32_mod [of lo] assms by (simp_all add: slice_def)
  have b: "(of_int (- (2 ^ 31)) :: real) \<le> of_int la" "(of_int la :: real) \<le> of_int (2 ^ 31)"
    "(of_int (- (2 ^ 31)) :: real) \<le> of_int lo" "(of_int lo :: real) \<le> of_int (2 ^ 31)"
    unfolding of_int_le_iff using assms by linarith+
  have "position_of (be_bytes 4 la @ be_bytes 4 lo @ rest) =
    Some (round7 (of_int la * 180 / 2 ^ 32), round7 (of_int lo * 360 / 2 ^ 32))"
    unfolding position_of_def v using b by simp
  then show ?thesis using assms(1) by (auto simp: position_token_def)
qed

lemma payload_of_packet:
  assumes "ip_header ip" "length ports = 4" "length checksum = 2" "length report < 256"
    and "39 \<le> length (report_packet ip ports checksum kind report tail)"
  shows "udp_payload (report_packet ip ports checksum kind report tail) = Some ([kind, word_of_nat (length report)] @ report)"
proof -
  obtain n where n: "5 \<le> n" "n < 16" "length ip = 4 * n" "unat (ip ! 0) = 64 + n" and h: "ip ! 9 = 0x11"
    using assms(1) by (auto simp: ip_header_def)
  let ?p = "report_packet ip ports checksum kind report tail"
  have first: "?p ! 0 = ip ! 0" "?p ! 9 = ip ! 9" using n(1,3) by (simp_all add: report_packet_def nth_append)
  have len: "length ?p = 4 * n + 10 + length report + length tail" using n(3) assms(2,3) by (simp add: report_packet_def)
  have d: "(64 + n) div 16 = 4" "(64 + n) mod 16 = n" using n(2) by presburger+
  have "slice (4 * n + 4) (4 * n + 6) ?p = be_bytes 2 (int (10 + length report))"
    using n(3) assms(2) by (simp add: report_packet_def slice_def)
  then have u: "nat (be_val (slice (4 * n + 4) (4 * n + 6) ?p)) = 10 + length report" using assms(4) by simp
  have "slice (4 * n + 8) (4 * n + (10 + length report)) ?p = [kind, word_of_nat (length report)] @ report"
    using n(3) assms(2,3) by (simp add: report_packet_def slice_def)
  then show ?thesis
    using assms(5) n(1) first h n(4) len d u by (simp add: udp_payload_def Let_def mult.commute)
qed

lemma report_of_payload:
  assumes "length report < 256" "unat kind mod 128 \<in> {0x07, 0x0D}"
  shows "lrrp_report ([kind, word_of_nat (length report)] @ report @ behind) =
    Some (case report of token # n # rest \<Rightarrow> if token = 0x22 then drop (unat n) rest else token # n # rest | r \<Rightarrow> r)"
proof -
  have "unat (word_of_nat (length report) :: byte) = length report" using assms(1) by (simp add: unat_of_nat take_bit_nat_eq_self)
  then show ?thesis using assms(2) by (simp add: lrrp_report_def slice_def Let_def)
qed

lemma report_without_id:
  assumes "length rid < 256"
  shows "(case request_id rid @ r of token # n # rest \<Rightarrow> if token = 0x22 then drop (unat n) rest else token # n # rest | x \<Rightarrow> x) = r"
proof -
  have "unat (word_of_nat (length rid) :: byte) = length rid" using assms by (simp add: unat_of_nat take_bit_nat_eq_self)
  then show ?thesis by (simp add: request_id_def)
qed

section \<open>The property\<close>

text \<open>C29: a location report is decoded to the position that was sent, rounded to the seventh decimal place, whatever
  the IP options, ports and checksums are, whatever request it answers, whatever time stamps and numbers precede the
  position and whatever follows it; and no input at all is decoded to a place off the globe.\<close>

theorem location_report_round_trip:
  assumes "ip_header ip" "length ports = 4" "length checksum = 2" "unat kind mod 128 \<in> {0x07, 0x0D}"
    and "length rid < 256" "list_all token_ok ts" "token \<in> {0x51, 0x55, 0x66, 0x69}"
    and "- (2 ^ 31) \<le> la" "la < 2 ^ 31" "- (2 ^ 31) \<le> lo" "lo < 2 ^ 31"
    and "report = request_id rid @ concat (map token_bytes ts) @ position_token token la lo @ behind" "length report < 256"
  shows "decode_motorola_lrrp_position (hex_text (report_packet ip ports checksum kind report tail)) =
      Some (round7 (of_int la * 180 / 2 ^ 32), round7 (of_int lo * 360 / 2 ^ 32)) \<and>
    (decode_motorola_lrrp_position s = Some p \<longrightarrow> on_globe p)"
proof -
  have "11 \<le> length report" using assms(12) by (simp add: request_id_def position_token_def)
  moreover have "20 \<le> length ip" using assms(1) by (auto simp: ip_header_def)
  ultimately have "39 \<le> length (report_packet ip ports checksum kind report tail)"
    using assms(2,3) by (simp add: report_packet_def)
  note p = payload_of_packet [OF assms(1-3,13) this]
  have "lrrp_report ([kind, word_of_nat (length report)] @ report) = Some (concat (map token_bytes ts) @ position_token token la lo @ behind)"
    using report_of_payload [OF assms(13,4), of "[]"] report_without_id [OF assms(5)] assms(12) by simp
  then show ?thesis
    using p position_found [OF assms(7-11)] skip_tokens [OF assms(6)] decode_on_globe
    by (simp add: decode_motorola_lrrp_position_def from_hex_text)
qed

definition demo_ip :: bytes where
  "demo_ip = [0x45, 0, 0, 60, 0, 1, 0, 0, 64, 0x11, 0, 0, 10, 0, 0, 1, 10, 0, 0, 2]"

lemma location_report_round_trip_witness:
  "decode_motorola_lrrp_position (hex_text (report_packet demo_ip [0x0F, 0xA1, 0x0F, 0xA1] [0, 0] 0x0D
     (request_id [1] @ concat (map token_bytes [Inl [1, 2, 3, 4, 5], Inr [0x81, 2]]) @ position_token 0x66 (2 ^ 30) (- (2 ^ 29)) @ []) [])) =
   Some (45, - 45)"
proof -
  have ip: "ip_header demo_ip" by (simp add: ip_header_def demo_ip_def)
  have r: "round7 45 = 45" "round7 (- 45) = - 45"
    using py_round_of_int [of "45 * 10 ^ 7"] py_round_of_int [of "- 45 * 10 ^ 7"] by (simp_all add: round7_def)
  show ?thesis
    using location_report_round_trip [OF ip _ _ _ _ _ _ _ _ _ _ refl, of "[0x0F, 0xA1, 0x0F, 0xA1]" "[0, 0]" "0x0D" "[1]"
        "[Inl [1, 2, 3, 4, 5], Inr [0x81, 2]]" "0x66" "2 ^ 30" "- (2 ^ 29)" "[]" "[]"] r
    by (simp add: request_id_def position_token_def)
qed

end
