(* ===== verification/Dash_Feed.thy ===== *)
theory Dash_Feed
  imports Dash_Position Dash_Tracker
begin

text \<open>
  What feeds the dashboard's view of the station: \<^verbatim>\<open>LogMonitor\<close>, \<^verbatim>\<open>BrewAudioStatusMonitor\<close>, \<^verbatim>\<open>LocationMonitor\<close>,
  \<^verbatim>\<open>BrandmeisterProfileMonitor\<close> and \<^verbatim>\<open>ServiceMonitor\<close> of \<^verbatim>\<open>src/dashboard/app.py\<close>. Each monitor is a thread that runs
  one pass after the other; a pass is one definition. Files are what a pass finds: their text or document, the
  time of their last change, and whether looking at them or opening them raises.
\<close>

record feed =
  seen_events :: "string set"
  status_mtime :: int
  services_shown :: "pyval list"
  view :: tracker

section \<open>Log files\<close>

text \<open>A log file as a pass finds it. A file that has gone is no longer listed; who has it open still reads it.\<close>

record log_view =
  log_text :: string
  listed :: bool
  stat_fault :: bool
  open_fault :: bool

record follower =
  follow_file :: "string option"
  follow_offset :: nat
  stream_open :: bool
  next_discovery :: real

text \<open>\<^verbatim>\<open>readline()\<close> on the rest of a text that is not empty: the line with its end as \<^verbatim>\<open>\n\<close>, and what remains.\<close>

definition first_line :: "string \<Rightarrow> string \<times> string" where
  "first_line s =
     (let l = takeWhile (\<lambda>c. c \<noteq> CHR 0x0A \<and> c \<noteq> CHR 0x0D) s in
      case drop (length l) s of
        [] \<Rightarrow> (l, [])
      | c # r \<Rightarrow> (l @ [CHR 0x0A], if c = CHR 0x0D then drop_lf r else r))"

definition latest_log :: "(string \<times> log_view) list \<Rightarrow> string option" where
  "latest_log files = (case filter (\<lambda>(name, v). listed v) files of [] \<Rightarrow> None | fs \<Rightarrow> Some (fst (last fs)))"

definition read_log :: "log_view \<Rightarrow> follower \<Rightarrow> string option \<times> follower" where
  "read_log v f =
     (case drop (follow_offset f) (log_text v) of
        [] \<Rightarrow> (None, f)
      | c # r \<Rightarrow> (case first_line (c # r) of
          (line, rest) \<Rightarrow> (Some line, f\<lparr>follow_offset := length (log_text v) - length rest\<rparr>)))"

text \<open>One round of the loop of \<^verbatim>\<open>_follow\<close>: the line it hands on, if any. The files are in the order of their names.\<close>

definition follow_pass :: "real \<Rightarrow> (string \<times> log_view) list \<Rightarrow> follower \<Rightarrow> string option \<times> follower" where
  "follow_pass now files f =
     (let discover = \<not> stream_open f \<or> next_discovery f \<le> now;
          latest = (if discover then latest_log files else follow_file f);
          f = (if discover then f\<lparr>next_discovery := now + 10\<rparr> else f) in
      case latest of
        None \<Rightarrow> (None, f)
      | Some name \<Rightarrow>
        (case map_of files name of
           None \<Rightarrow> (None, f\<lparr>stream_open := False\<rparr>)
         | Some v \<Rightarrow>
           let changed = follow_file f \<noteq> Some name in
           if discover \<and> \<not> changed \<and> stat_fault v then (None, f\<lparr>stream_open := False\<rparr>)
           else let truncated = discover \<and> \<not> changed \<and> length (log_text v) < follow_offset f in
             if \<not> stream_open f \<or> changed \<or> truncated
             then let f = f\<lparr>follow_file := Some name, follow_offset := (if changed \<or> truncated then 0 else follow_offset f)\<rparr> in
               if open_fault v then (None, f\<lparr>stream_open := False\<rparr>) else read_log v (f\<lparr>stream_open := True\<rparr>)
             else read_log v f))"

text \<open>\<^verbatim>\<open>start\<close>: the two newest files are scanned, then the newest is followed from the size it has by then.\<close>

definition scan_log :: "log_view \<Rightarrow> string list" where
  "scan_log v = (if open_fault v then [] else stream_lines [] (log_text v))"

definition log_start :: "(string \<times> log_view) list \<Rightarrow> nat \<Rightarrow> string list \<times> follower" where
  "log_start files file_size =
     (concat (map (scan_log \<circ> snd) (drop (length files - 2) files)),
      (if files = [] then \<lparr>follow_file = None, follow_offset = 0, stream_open = False, next_discovery = 0\<rparr>
       else \<lparr>follow_file = Some (fst (last files)), follow_offset = file_size, stream_open = False, next_discovery = 0\<rparr>))"

section \<open>Status file, locations, profile and services\<close>

definition poll_caught :: "py_error \<Rightarrow> bool" where
  "poll_caught e \<longleftrightarrow> is_os_error e \<or> is_value_error e \<or> is_type_error e"

definition on_view :: "(tracker, unit) act \<Rightarrow> (feed, unit) act" where
  "on_view m = (\<lambda>s. case m (view s) of (r, t) \<Rightarrow> (r, s\<lparr>view := t\<rparr>))"

definition poll_status :: "real \<Rightarrow> py_error + int \<Rightarrow> py_error + pyval \<Rightarrow> (feed, unit) act" where
  "poll_status now mtime document = catchA poll_caught
     (bindA (liftE mtime) (\<lambda>mtime. readA (\<lambda>s.
        if mtime = status_mtime s then ret ()
        else bindA (liftE document) (\<lambda>payload. case payload of
            PDict d \<Rightarrow> thenA (upd (\<lambda>s. s\<lparr>status_mtime := mtime\<rparr>)) (on_view (set_brew_audio_status now d))
          | _ \<Rightarrow> raiseA (ValueError ''status root is not an object'')))))
     (\<lambda>_. ret ())"

record location_file =
  event_name :: string
  event_doc :: "py_error + pyval"
  event_mtime :: "py_error + real"

text \<open>The milliseconds in \<^verbatim>\<open>host-raw-(\d{13})-\<close> at the start of a name.\<close>

definition event_time :: "string \<Rightarrow> int option" where
  "event_time name =
     (let digits = take 13 (drop 9 name) in
      if prefix ''host-raw-'' name \<and> length digits = 13 \<and> list_all is_digit digits \<and> prefix ''-'' (drop 22 name)
      then Some (int (nat_of_digits digits)) else None)"

definition location_fix :: "(pyval \<Rightarrow> string) \<Rightarrow> location_file \<Rightarrow> py_error + (int \<times> real \<times> real \<times> real) option" where
  "location_fix rep f =
     bindE (event_doc f) (\<lambda>ev.
     bindE (py_get ev ''application'' PNone) (\<lambda>app.
     if app \<noteq> PStr ''motorola_lrrp'' then Inr None
     else bindE (bindE (py_get ev ''sourceRid'' (PInt 0)) py_int) (\<lambda>radio_id.
       bindE (py_get ev ''rawIpPacketHex'' PNone) (\<lambda>raw.
       bindE (py_get ev ''hexIpPacket'' PNone) (\<lambda>hex.
       case decode_motorola_lrrp_position (py_str rep (py_or (py_or raw hex) (PStr []))) of
         None \<Rightarrow> Inr None
       | Some p \<Rightarrow>
           if radio_id \<le> 0 then Inr None
           else bindE (case event_time (event_name f) of Some ms \<Rightarrow> Inr (of_int ms / 1000) | None \<Rightarrow> event_mtime f) (\<lambda>t.
             Inr (Some (radio_id, fst p, snd p, t))))))))"

definition take_location :: "(pyval \<Rightarrow> string) \<Rightarrow> location_file \<Rightarrow> (feed, unit) act" where
  "take_location rep f = catchA poll_caught
     (bindA (liftE (location_fix rep f)) (\<lambda>x. case x of
        None \<Rightarrow> ret ()
      | Some (radio_id, latitude, longitude, t) \<Rightarrow>
          upd (\<lambda>s. s\<lparr>view := update_position radio_id latitude longitude t (view s)\<rparr>)))
     (\<lambda>_. ret ())"

text \<open>The event files in the order of their names, \<open>None\<close> when the directory cannot be listed.\<close>

definition scan_locations :: "(pyval \<Rightarrow> string) \<Rightarrow> location_file list option \<Rightarrow> (feed, unit) act" where
  "scan_locations rep paths = (case paths of
     None \<Rightarrow> ret ()
   | Some files \<Rightarrow> forA files (\<lambda>f _. readA (\<lambda>s.
       if event_name f \<in> seen_events s then ret ()
       else thenA (upd (\<lambda>s. s\<lparr>seen_events := insert (event_name f) (seen_events s)\<rparr>)) (take_location rep f))) ())"

text \<open>\<^verbatim>\<open>_fetch\<close>: the device id from \<^verbatim>\<open>quantarbridge.yml\<close>, the key, and the answer for the device. An error of the
  YAML reader, which the loop catches by name, is a \<open>ValueError\<close> here.\<close>

definition fetch_profile ::
  "py_error + pyval \<Rightarrow> py_error + string \<Rightarrow> (int \<Rightarrow> string \<Rightarrow> py_error + pyval) \<Rightarrow> py_error + (string \<times> pyval) list" where
  "fetch_profile config key answer =
     bindE config (\<lambda>bridge.
     if \<not> is_dict bridge then Inl (ValueError ''configuration'')
     else bindE (py_get bridge ''brandmeister'' (PDict [])) (\<lambda>bm.
       bindE (bindE (py_get bm ''repeaterId'' (PInt 0)) py_int) (\<lambda>device_id.
       bindE key (\<lambda>key.
       if device_id \<le> 0 \<or> strip key = [] then Inl (ValueError ''device id or key'')
       else bindE (answer device_id (strip key)) (\<lambda>payload. case payload of
           PDict d \<Rightarrow> Inr d | _ \<Rightarrow> Inl (ValueError ''answer''))))))"

definition profile_unreachable :: string where
  "profile_unreachable = ''BrandMeister-Profil ist vor'' @ [CHR 0xFC] @ ''bergehend nicht erreichbar.''"

definition profile_round :: "real \<Rightarrow> py_error + (string \<times> pyval) list \<Rightarrow> (feed, unit) act" where
  "profile_round now fetched = catchA poll_caught
     (bindA (liftE fetched) (\<lambda>profile. upd (\<lambda>s. s\<lparr>view := set_brandmeister_profile now profile (view s)\<rparr>)))
     (\<lambda>_. upd (\<lambda>s. s\<lparr>view := set_brandmeister_profile_error profile_unreachable (view s)\<rparr>))"

text \<open>\<^verbatim>\<open>_find_process\<close> over the numbered entries of \<^verbatim>\<open>/proc\<close>, in the order they are listed, with the command line of each
  that can be read; \<^verbatim>\<open>_unit_status\<close> over the output of \<^verbatim>\<open>systemctl show\<close>.\<close>

definition find_process :: "(int \<times> string option) list option \<Rightarrow> string \<Rightarrow> int option" where
  "find_process proc pattern = (case proc of
     None \<Rightarrow> None
   | Some entries \<Rightarrow> if pattern = [] then None
       else map_option fst (find (\<lambda>(pid, command). case command of None \<Rightarrow> False | Some c \<Rightarrow> sublist pattern c) entries))"

definition unit_values :: "string option \<Rightarrow> (string, string) pydict" where
  "unit_values stdout = (case stdout of
     None \<Rightarrow> []
   | Some out \<Rightarrow> fold (\<lambda>line d. case split_at CHR ''='' line of
       (key, Some value) \<Rightarrow> AList.update key value d | _ \<Rightarrow> d) (splitlines out) [])"

record host_env =
  unit_shown :: "bool \<Rightarrow> string \<Rightarrow> string option"
  processes :: "(int \<times> string option) list option"

definition sget :: "(string, string) pydict \<Rightarrow> string \<Rightarrow> string \<Rightarrow> string" where
  "sget d k dflt = (case map_of d k of None \<Rightarrow> dflt | Some v \<Rightarrow> v)"

definition service_entry :: "(pyval \<Rightarrow> string) \<Rightarrow> host_env \<Rightarrow> (string \<times> pyval) list \<Rightarrow> py_error + pyval" where
  "service_entry rep h spec =
     (let unit = py_str rep (dget spec ''unit'' (PStr []));
          values = (if unit = [] then [] else unit_values (unit_shown h (truthy (dget spec ''userUnit'' (PBool False))) unit));
          shown_pid = (if sget values ''MainPID'' ''0'' = [] then ''0'' else sget values ''MainPID'' ''0'') in
      bindE (py_int_str shown_pid) (\<lambda>main_pid.
      let active = (sget values ''ActiveState'' [] = ''active'' \<and> 0 < main_pid);
          matched = (if \<not> active \<and> truthy (dget spec ''processMatch'' PNone)
            then find_process (processes h) (py_str rep (dget spec ''processMatch'' PNone)) else None);
          matched = (if matched = Some 0 then None else matched);
          running = (active \<or> matched \<noteq> None);
          pid = (case matched of Some p \<Rightarrow> p | None \<Rightarrow> main_pid);
          started = sget values ''ExecMainStartTimestamp'' [] in
      Inr (PDict [
        (''id'', PStr (py_str rep (dget spec ''id'' (dget spec ''unit'' (PStr ''service''))))),
        (''label'', PStr (py_str rep (dget spec ''label'' (dget spec ''unit'' (PStr ''Dienst''))))),
        (''running'', PBool running),
        (''state'', PStr (if running then ''running'' else sget values ''ActiveState'' ''unknown'')),
        (''subState'', PStr (sget values ''SubState'' [])),
        (''pid'', if pid = 0 then PNone else PInt pid),
        (''startedAt'', if started = [] then PNone else PStr started),
        (''source'', PStr (if matched = None then ''systemd'' else ''process'')),
        (''critical'', PBool (truthy (dget spec ''critical'' (PBool True))))])))"

definition service_round :: "(pyval \<Rightarrow> string) \<Rightarrow> host_env \<Rightarrow> (string \<times> pyval) list list \<Rightarrow> (feed, unit) act" where
  "service_round rep h specs =
     bindA (liftE (mapE (service_entry rep h) specs)) (\<lambda>services. upd (\<lambda>s. s\<lparr>services_shown := services\<rparr>))"

end
