(* ===== verification/Dash_Follow.thy ===== *)
theory Dash_Follow
  imports Dash_Feed
begin

text \<open>
  What the monitors hand on to the view of the station: every line of a growing log once and in order, and of
  every radio the newest position. What is lost when a line is torn or the log changes its file is shown as well.
\<close>

section \<open>Lines\<close>

definition clean_line :: "string \<Rightarrow> bool" where
  "clean_line l \<longleftrightarrow> list_all (\<lambda>c. c \<noteq> CHR 0x0A \<and> c \<noteq> CHR 0x0D) l"

definition log_lines :: "string list \<Rightarrow> string" where
  "log_lines ls = concat (map (\<lambda>l. l @ [CHR 0x0A]) ls)"

lemma log_lines_simps [simp]:
  "log_lines [] = []" "log_lines (l # ls) = l @ CHR 0x0A # log_lines ls" "log_lines (ls @ ms) = log_lines ls @ log_lines ms"
  by (simp_all add: log_lines_def)

lemma log_lines_Nil [simp]: "log_lines ls = [] \<longleftrightarrow> ls = []"
  by (cases ls) auto

lemma first_line_clean:
  assumes "clean_line l"
  shows "first_line (l @ CHR 0x0A # r) = (l @ [CHR 0x0A], r)"
proof -
  have "takeWhile (\<lambda>c. c \<noteq> CHR 0x0A \<and> c \<noteq> CHR 0x0D) (l @ CHR 0x0A # r) = l"
    using assms by (subst takeWhile_append2) (auto simp: clean_line_def list_all_iff)
  then show ?thesis by (simp add: first_line_def)
qed

lemma stream_lines_clean: "clean_line l \<Longrightarrow> stream_lines acc (l @ CHR 0x0A # r) = (acc @ l @ [CHR 0x0A]) # stream_lines [] r"
  by (induction l arbitrary: acc) (auto simp: clean_line_def)

lemma stream_log_lines:
  "list_all clean_line ls \<Longrightarrow> stream_lines [] (log_lines ls @ r) = map (\<lambda>l. l @ [CHR 0x0A]) ls @ stream_lines [] r"
  by (induction ls) (simp_all add: stream_lines_clean)

section \<open>Following a log that grows\<close>

definition live_log :: "string \<Rightarrow> log_view" where
  "live_log t = \<lparr>log_text = t, listed = True, stat_fault = False, open_fault = False\<rparr>"

lemma live_log_simps [simp]:
  "log_text (live_log t) = t" "listed (live_log t)" "\<not> stat_fault (live_log t)" "\<not> open_fault (live_log t)"
  by (simp_all add: live_log_def)

lemma latest_log_snoc [simp]: "latest_log (older @ [(name, live_log t)]) = Some name"
  by (cases "filter (\<lambda>(name, v). listed v) older") (simp_all add: latest_log_def)

text \<open>The log grows by whole lines, or the follower looks at it.\<close>

datatype log_step = Grow "string list" | Look real

fun grown :: "log_step list \<Rightarrow> string list" where
  "grown [] = []"
| "grown (Grow ls # steps) = ls @ grown steps"
| "grown (Look now # steps) = grown steps"

fun follow_run :: "(string \<times> log_view) list \<Rightarrow> string \<Rightarrow> log_step list \<Rightarrow> string \<times> follower \<Rightarrow> string list \<times> string \<times> follower" where
  "follow_run older name [] (t, f) = ([], t, f)"
| "follow_run older name (Grow ls # steps) (t, f) = follow_run older name steps (t @ log_lines ls, f)"
| "follow_run older name (Look now # steps) (t, f) =
     (case follow_pass now (older @ [(name, live_log t)]) f of
        (l, f') \<Rightarrow> (case follow_run older name steps (t, f') of
          (out, rest) \<Rightarrow> ((case l of None \<Rightarrow> [] | Some l \<Rightarrow> [l]) @ out, rest)))"

text \<open>The lines of the log that the follower still has before it.\<close>

definition unread :: "string \<Rightarrow> string \<Rightarrow> follower \<Rightarrow> string list \<Rightarrow> bool" where
  "unread name t f ls \<longleftrightarrow> follow_file f = Some name \<and>
     (\<exists>done. t = done @ log_lines ls \<and> follow_offset f = length done) \<and> list_all clean_line ls"

lemma read_log_none: "unread name t f [] \<Longrightarrow> read_log (live_log t) f = (None, f)"
  by (auto simp: unread_def read_log_def)

lemma read_log_some:
  assumes "unread name t f (l # ls)"
  shows "\<exists>f'. read_log (live_log t) f = (Some (l @ [CHR 0x0A]), f') \<and> unread name t f' ls"
proof -
  obtain before where t: "t = before @ l @ CHR 0x0A # log_lines ls" "follow_offset f = length before" "clean_line l"
    "follow_file f = Some name" "list_all clean_line ls"
    using assms by (auto simp: unread_def)
  let ?f = "f\<lparr>follow_offset := length t - length (log_lines ls)\<rparr>"
  obtain c r where d: "l @ CHR 0x0A # log_lines ls = c # r" by (cases l) auto
  have "read_log (live_log t) f = (Some (l @ [CHR 0x0A]), ?f)"
    using first_line_clean [OF t(3), of "log_lines ls"] d t(1,2) by (simp add: read_log_def)
  moreover have "unread name t ?f ls"
    unfolding unread_def using t by (intro conjI exI [of _ "before @ l @ [CHR 0x0A]"]) simp_all
  ultimately show ?thesis by blast
qed

text \<open>A round reads the log wherever it stands: it never starts again and never changes the file.\<close>

lemma follow_pass_stays:
  assumes "follow_file f = Some name" "follow_offset f \<le> length t" "name \<notin> fst ` set older"
  obtains f' where "follow_pass now (older @ [(name, live_log t)]) f = read_log (live_log t) f'"
    "follow_file f' = Some name" "follow_offset f' = follow_offset f"
proof -
  have m: "map_of (older @ [(name, live_log t)]) name = Some (live_log t)"
    using assms(3) by (simp add: map_add_def map_of_eq_None_iff [THEN iffD2])
  let ?g = "if \<not> stream_open f \<or> next_discovery f \<le> now then f\<lparr>next_discovery := now + 10\<rparr> else f"
  let ?f = "if \<not> stream_open f then ?g\<lparr>follow_file := Some name, follow_offset := follow_offset f, stream_open := True\<rparr> else ?g"
  have "follow_pass now (older @ [(name, live_log t)]) f = read_log (live_log t) ?f"
    using assms(1,2) m by (simp add: follow_pass_def Let_def)
  moreover have "follow_file ?f = Some name" "follow_offset ?f = follow_offset f" using assms(1) by simp_all
  ultimately show ?thesis by (rule that)
qed

lemma follow_pass_reads:
  assumes "unread name t f ls" "name \<notin> fst ` set older"
  shows "\<exists>f'. follow_pass now (older @ [(name, live_log t)]) f = read_log (live_log t) f' \<and> unread name t f' ls"
proof -
  have "follow_file f = Some name" "follow_offset f \<le> length t" using assms(1) by (auto simp: unread_def)
  then obtain f' where "follow_pass now (older @ [(name, live_log t)]) f = read_log (live_log t) f'"
    "follow_file f' = Some name" "follow_offset f' = follow_offset f"
    using follow_pass_stays assms(2) by blast
  then show ?thesis using assms(1) by (auto simp: unread_def)
qed

lemma follow_pass_next:
  assumes "unread name t f ls" "name \<notin> fst ` set older"
  shows "\<exists>f'. follow_pass now (older @ [(name, live_log t)]) f =
      (case ls of [] \<Rightarrow> None | l # _ \<Rightarrow> Some (l @ [CHR 0x0A]), f') \<and> unread name t f' (tl ls)"
proof -
  obtain f' where f': "follow_pass now (older @ [(name, live_log t)]) f = read_log (live_log t) f'" "unread name t f' ls"
    using follow_pass_reads [OF assms] by blast
  show ?thesis
  proof (cases ls)
    case Nil
    then show ?thesis using f' read_log_none by simp
  next
    case (Cons l ms)
    then show ?thesis using f' read_log_some [of name t f' l ms] by simp
  qed
qed

lemma unread_grow: "unread name t f ls \<Longrightarrow> list_all clean_line ms \<Longrightarrow> unread name (t @ log_lines ms) f (ls @ ms)"
  by (auto simp: unread_def)

text \<open>What a run hands on and what it leaves unread are the lines that were there, in order.\<close>

lemma follow_run_lines:
  assumes "follow_run older name steps (t, f) = (out, t', f')" "unread name t f ls" "list_all clean_line (grown steps)"
    "name \<notin> fst ` set older"
  shows "t' = t @ log_lines (grown steps) \<and>
    (\<exists>ms. unread name t' f' ms \<and> map (\<lambda>l. l @ [CHR 0x0A]) (ls @ grown steps) = out @ map (\<lambda>l. l @ [CHR 0x0A]) ms)"
  using assms
proof (induction older name steps "(t, f)" arbitrary: t f ls out t' f' rule: follow_run.induct)
  case (1 older name t f)
  then show ?case by auto
next
  case (2 older name gs steps t f)
  have "unread name (t @ log_lines gs) f (ls @ gs)" using 2(3,4) unread_grow by simp
  from 2(1) [OF _ this] 2(2-5) show ?case by auto
next
  case (3 older name now steps t f)
  obtain f1 where p: "follow_pass now (older @ [(name, live_log t)]) f =
      (case ls of [] \<Rightarrow> None | l # _ \<Rightarrow> Some (l @ [CHR 0x0A]), f1)" "unread name t f1 (tl ls)"
    using follow_pass_next [OF 3(3,5)] by blast
  obtain out1 where o: "follow_run older name steps (t, f1) = (out1, t', f')"
    "out = (case ls of [] \<Rightarrow> [] | l # _ \<Rightarrow> [l @ [CHR 0x0A]]) @ out1"
    using 3(2) p(1) by (cases ls) (auto split: prod.splits)
  from 3(1) [OF p(1) [symmetric] o(1) p(2)] 3(4,5) o(2) show ?case by (cases ls) auto
qed

lemma follow_looks:
  assumes "unread name t f ls" "name \<notin> fst ` set older" "length ls \<le> length ts"
  shows "\<exists>f'. follow_run older name (map Look ts) (t, f) = (map (\<lambda>l. l @ [CHR 0x0A]) ls, t, f')"
  using assms
proof (induction ts arbitrary: f ls)
  case (Cons now ts)
  obtain f1 where p: "follow_pass now (older @ [(name, live_log t)]) f =
      (case ls of [] \<Rightarrow> None | l # _ \<Rightarrow> Some (l @ [CHR 0x0A]), f1)" "unread name t f1 (tl ls)"
    using follow_pass_next [OF Cons.prems(1,2)] by blast
  have "length (tl ls) \<le> length ts" using Cons.prems(3) by (cases ls) simp_all
  from Cons.IH [OF p(2) Cons.prems(2) this] p(1) show ?case by (cases ls) auto
qed simp

lemma follow_run_append:
  "follow_run older name (steps @ more_steps) (t, f) =
     (case follow_run older name steps (t, f) of (out, t1, f1) \<Rightarrow>
      case follow_run older name more_steps (t1, f1) of (out2, r) \<Rightarrow> (out @ out2, r))"
  by (induction older name steps "(t, f)" arbitrary: t f rule: follow_run.induct) (auto split: prod.splits option.splits)

section \<open>What is not handed on as a line\<close>

text \<open>A look between the two halves of a line hands on two lines.\<close>

lemma torn_line:
  assumes "clean_line a" "clean_line b" "a \<noteq> []" "follow_file f = Some name" "follow_offset f = 0"
  shows "\<exists>f1 f2. follow_pass t1 [(name, live_log a)] f = (Some a, f1) \<and>
    follow_pass t2 [(name, live_log (a @ b @ [CHR 0x0A]))] f1 = (Some (b @ [CHR 0x0A]), f2)"
proof -
  have "takeWhile (\<lambda>c. c \<noteq> CHR 0x0A \<and> c \<noteq> CHR 0x0D) a = a" using assms(1) by (auto simp: clean_line_def list_all_iff)
  then have fa: "first_line a = (a, [])" by (simp only: first_line_def Let_def) simp
  have fb: "first_line (b @ [CHR 0x0A]) = (b @ [CHR 0x0A], [])" using first_line_clean [OF assms(2), of "[]"] by simp
  obtain g where g: "follow_pass t1 ([] @ [(name, live_log a)]) f = read_log (live_log a) g"
    "follow_file g = Some name" "follow_offset g = 0"
    using follow_pass_stays [OF assms(4), of a "[]"] assms(5) by auto
  let ?g = "g\<lparr>follow_offset := length a\<rparr>"
  have one: "read_log (live_log a) g = (Some a, ?g)" using g(3) assms(3) fa by (cases a) (simp_all add: read_log_def)
  obtain h where h: "follow_pass t2 ([] @ [(name, live_log (a @ b @ [CHR 0x0A]))]) ?g = read_log (live_log (a @ b @ [CHR 0x0A])) h"
    "follow_offset h = length a"
    using follow_pass_stays [of ?g name "a @ b @ [CHR 0x0A]" "[]"] g(2) by auto
  obtain c r where "b @ [CHR 0x0A] = c # r" by (cases b) auto
  then have "read_log (live_log (a @ b @ [CHR 0x0A])) h = (Some (b @ [CHR 0x0A]), h\<lparr>follow_offset := length (a @ b @ [CHR 0x0A])\<rparr>)"
    using h(2) fb by (simp add: read_log_def)
  then show ?thesis using g(1) one h(1) by auto
qed

text \<open>When the follower sees a newer log it leaves the older one, whatever is still unread there.\<close>

lemma newer_log_leaves_rest:
  assumes "follow_file f = Some old" "old \<noteq> new" "\<not> stream_open f \<or> next_discovery f \<le> now"
  shows "follow_file (snd (follow_pass now [(old, live_log t), (new, live_log u)] f)) = Some new"
proof -
  have "latest_log [(old, live_log t), (new, live_log u)] = Some new" using latest_log_snoc [of "[(old, live_log t)]" new u] by simp
  then show ?thesis using assms by (auto simp: follow_pass_def Let_def read_log_def split: list.splits prod.splits)
qed

section \<open>The newest position of every radio\<close>

fun fresh_files :: "string set \<Rightarrow> location_file list \<Rightarrow> location_file list" where
  "fresh_files names [] = []"
| "fresh_files names (f # fs) =
     (if event_name f \<in> names then fresh_files names fs else f # fresh_files (insert (event_name f) names) fs)"

definition fixes_of :: "(pyval \<Rightarrow> string) \<Rightarrow> location_file list \<Rightarrow> (int \<times> real \<times> real \<times> real) list" where
  "fixes_of rep = List.map_filter (\<lambda>f. case location_fix rep f of Inr x \<Rightarrow> x | Inl _ \<Rightarrow> None)"

definition files_of :: "location_file list option list \<Rightarrow> location_file list" where
  "files_of dirs = concat (map (\<lambda>d. case d of None \<Rightarrow> [] | Some fs \<Rightarrow> fs) dirs)"

definition position_ok :: "(int \<times> real \<times> real \<times> real) list \<Rightarrow> tracker \<Rightarrow> bool" where
  "position_ok ps v \<longleftrightarrow> (\<forall>r. case map_of (positions v) r of
     None \<Rightarrow> \<forall>x \<in> set ps. fst x \<noteq> r
   | Some (la, lo, t) \<Rightarrow> (r, la, lo, t) \<in> set ps \<and> (\<forall>(r', _, _, t') \<in> set ps. r' = r \<longrightarrow> t' \<le> t))"

lemma position_ok_update:
  assumes "position_ok ps v"
  shows "position_ok (ps @ [(r, la, lo, t)]) (update_position r la lo t v)"
proof -
  have k: "case map_of (positions v) q of None \<Rightarrow> \<forall>x \<in> set ps. fst x \<noteq> q
     | Some (la, lo, t) \<Rightarrow> (q, la, lo, t) \<in> set ps \<and> (\<forall>(r', _, _, t') \<in> set ps. r' = q \<longrightarrow> t' \<le> t)" for q
    using assms by (simp add: position_ok_def)
  show ?thesis unfolding position_ok_def
  proof
    fix q
    show "case map_of (positions (update_position r la lo t v)) q of None \<Rightarrow> \<forall>x \<in> set (ps @ [(r, la, lo, t)]). fst x \<noteq> q
       | Some (la', lo', t') \<Rightarrow> (q, la', lo', t') \<in> set (ps @ [(r, la, lo, t)]) \<and>
           (\<forall>(r', _, _, s) \<in> set (ps @ [(r, la, lo, t)]). r' = q \<longrightarrow> s \<le> t')"
      using k [of q] by (cases "map_of (positions v) r"; cases "map_of (positions v) q"; cases "q = r")
        (fastforce simp: update_position_def update_conv' split: prod.splits if_splits)+
  qed
qed

definition scan_file :: "(pyval \<Rightarrow> string) \<Rightarrow> location_file \<Rightarrow> (feed, unit) act" where
  "scan_file rep f = readA (\<lambda>s. if event_name f \<in> seen_events s then ret ()
     else thenA (upd (\<lambda>s. s\<lparr>seen_events := insert (event_name f) (seen_events s)\<rparr>)) (take_location rep f))"

lemma process_location_positions:
  assumes "take_location rep f s = (Inr (), s')" "position_ok ps (view s)"
  shows "position_ok (ps @ fixes_of rep [f]) (view s') \<and> seen_events s' = seen_events s"
  using assms position_ok_update
  by (auto simp: take_location_def fixes_of_def map_filter_def catchA_def bindA_def split: sum.splits option.splits if_splits)

lemma scan_file_positions:
  assumes "scan_file rep f s = (Inr (), s')" "position_ok ps (view s)"
  shows "position_ok (ps @ fixes_of rep (fresh_files (seen_events s) [f])) (view s') \<and>
    seen_events s' = insert (event_name f) (seen_events s)"
proof (cases "event_name f \<in> seen_events s")
  case True
  then show ?thesis using assms by (auto simp: scan_file_def fixes_of_def map_filter_def insert_absorb)
next
  case False
  let ?s = "s\<lparr>seen_events := insert (event_name f) (seen_events s)\<rparr>"
  have "take_location rep f ?s = (Inr (), s')" using assms(1) False by (simp add: scan_file_def thenA_def)
  from process_location_positions [OF this] assms(2) False show ?thesis by simp
qed

lemma fresh_files_append: "fresh_files names (fs @ gs) = fresh_files names fs @ fresh_files (names \<union> event_name ` set fs) gs"
proof (induction fs arbitrary: names)
  case (Cons f fs)
  have "insert (event_name f) names = names" if "event_name f \<in> names" using that by blast
  then show ?case using Cons by (auto simp: insert_absorb)
qed simp

lemma scan_files_positions:
  assumes "forA files (\<lambda>f _. scan_file rep f) () s = (Inr (), s')" "position_ok ps (view s)"
  shows "position_ok (ps @ fixes_of rep (fresh_files (seen_events s) files)) (view s') \<and>
    seen_events s' = seen_events s \<union> event_name ` set files"
  using assms
proof (induction files arbitrary: s ps)
  case (Cons f files)
  obtain s1 where s1: "scan_file rep f s = (Inr (), s1)" "forA files (\<lambda>f _. scan_file rep f) () s1 = (Inr (), s')"
    using Cons.prems(1) by (auto simp: bindA_def split: prod.splits sum.splits)
  note p = scan_file_positions [OF s1(1) Cons.prems(2)]
  from Cons.IH [OF s1(2) conjunct1 [OF p]] p fresh_files_append [of "seen_events s" "[f]" files]
  show ?case by (auto simp: fixes_of_def map_filter_def simp del: fresh_files.simps)
qed (simp add: fixes_of_def map_filter_def)

definition scan_all :: "(pyval \<Rightarrow> string) \<Rightarrow> location_file list option list \<Rightarrow> (feed, unit) act" where
  "scan_all rep dirs = forA dirs (\<lambda>d _. scan_locations rep d) ()"

lemma scan_locations_files: "scan_locations rep d = forA (case d of None \<Rightarrow> [] | Some fs \<Rightarrow> fs) (\<lambda>f _. scan_file rep f) ()"
  by (cases d) (simp_all add: scan_locations_def scan_file_def)

lemma scan_all_files: "scan_all rep dirs = forA (files_of dirs) (\<lambda>f _. scan_file rep f) ()"
proof (induction dirs)
  case (Cons d dirs)
  have "(\<lambda>_::unit. scan_all rep dirs) = forA (files_of dirs) (\<lambda>f _. scan_file rep f)" using Cons by (simp add: fun_eq_iff)
  then show ?case by (simp add: scan_all_def scan_locations_files files_of_def forA_append)
qed (simp add: scan_all_def files_of_def)

lemma fix_on_globe: "(r, la, lo, t) \<in> set (fixes_of rep fs) \<Longrightarrow> on_globe (la, lo)"
proof -
  assume "(r, la, lo, t) \<in> set (fixes_of rep fs)"
  then obtain f where "location_fix rep f = Inr (Some (r, la, lo, t))"
    by (auto simp: fixes_of_def map_filter_def split: sum.splits)
  then show ?thesis
    by (auto simp: location_fix_def elim!: bindE_InrE split: if_split_asm option.split_asm) (erule decode_on_globe)+
qed

text \<open>A scan returns when every file has a document that is an object, or none that can be read.\<close>

lemma scan_returns:
  assumes "\<forall>f \<in> set files. case location_fix rep f of Inr _ \<Rightarrow> True | Inl e \<Rightarrow> poll_caught e"
  shows "\<exists>s'. forA files (\<lambda>f _. scan_file rep f) () s = (Inr (), s')"
  using assms
proof (induction files arbitrary: s)
  case (Cons f files)
  have "\<exists>s1. scan_file rep f s = (Inr (), s1)"
    using Cons.prems by (auto simp: scan_file_def take_location_def thenA_def catchA_def split: sum.splits option.splits)
  then show ?case using Cons by (auto simp: bindA_def)
qed simp

text \<open>A file whose JSON is no object ends the scan with an error that nothing catches.\<close>

lemma no_object_ends_scan:
  assumes "event_doc f = Inr (PList xs)" "event_name f \<notin> seen_events s"
  shows "fst (scan_locations rep (Some (f # fs)) s) = Inl (AttributeError ''get'')"
  using assms by (simp add: scan_locations_def thenA_def take_location_def location_fix_def catchA_def poll_caught_def bindA_def)

section \<open>The properties\<close>

text \<open>C17: the dashboard handles every line of the two newest logs once and in order, those that were there when it scanned
  them and those that are added to the newest while it follows it, whenever it looks; what it has not handled yet it
  handles by looking once more per line. Lines that are written between the scan and the moment it takes the size to
  follow from (\<open>gap\<close>) are the exception: they, and only they, are never handled. (The log grows by whole lines, keeps
  its file, and can be read.)\<close>

theorem each_log_line_once:
  assumes "log_start (older @ [(name, live_log (log_lines ls))]) (length (log_lines (ls @ gap))) = (scanned, f)"
    and "follow_run older name (steps @ map Look ts) (log_lines (ls @ gap), f) = (out, t, f')"
    and "name \<notin> fst ` set older" "list_all clean_line (ls @ gap @ grown steps)"
  shows "t = log_lines (ls @ gap @ grown steps) \<and>
    prefix (scanned @ out) (concat (map (scan_log \<circ> snd) (drop (length older - 1) older)) @
      stream_lines [] (log_lines (ls @ grown steps))) \<and>
    (length (grown steps) \<le> length ts \<longrightarrow>
     scanned @ out = concat (map (scan_log \<circ> snd) (drop (length older - 1) older)) @
       stream_lines [] (log_lines (ls @ grown steps)))"
proof -
  let ?e = "map (\<lambda>l. l @ [CHR 0x0A])"
  have f: "f = \<lparr>follow_file = Some name, follow_offset = length (log_lines (ls @ gap)), stream_open = False, next_discovery = 0\<rparr>"
    and sc: "scanned = concat (map (scan_log \<circ> snd) (drop (length older - 1) older)) @ ?e ls"
    using assms(1,4) stream_log_lines [of ls "[]"] by (auto simp: log_start_def scan_log_def)
  have u: "unread name (log_lines (ls @ gap)) f []" by (simp add: unread_def f)
  obtain out1 t1 f1 where r1: "follow_run older name steps (log_lines (ls @ gap), f) = (out1, t1, f1)"
    by (cases "follow_run older name steps (log_lines (ls @ gap), f)") auto
  obtain out2 where r2: "follow_run older name (map Look ts) (t1, f1) = (out2, t, f')" "out = out1 @ out2"
    using assms(2) r1 by (auto simp: follow_run_append split: prod.splits)
  have c: "list_all clean_line (grown steps)" using assms(4) by simp
  obtain ms where m: "t1 = log_lines (ls @ gap) @ log_lines (grown steps)" "unread name t1 f1 ms" "?e (grown steps) = out1 @ ?e ms"
    using follow_run_lines [OF r1 u c assms(3)] by auto
  have g: "grown (map Look ts) = []" by (induction ts) simp_all
  obtain ms2 where m2: "t = t1" "?e ms = out2 @ ?e ms2"
    using follow_run_lines [OF r2(1) m(2) _ assms(3)] g by auto
  have s: "stream_lines [] (log_lines (ls @ grown steps)) = ?e ls @ out @ ?e ms2"
    using stream_log_lines [of "ls @ grown steps" "[]"] assms(4) m m2 r2(2) by simp
  have "out2 = ?e ms" if "length (grown steps) \<le> length ts"
  proof -
    have "length ms \<le> length ts" using arg_cong [OF m(3), of length] that by simp
    then show ?thesis using follow_looks [OF m(2) assms(3)] r2(1) by fastforce
  qed
  then show ?thesis using s sc m m2 by auto
qed

lemma each_log_line_once_witness:
  "\<exists>scanned f out t f'. log_start ([] @ [(''log'', live_log (log_lines [''a'']))]) (length (log_lines ([''a''] @ [''x'']))) = (scanned, f) \<and>
     follow_run [] ''log'' ([Look 0, Grow [''b'']] @ map Look [1]) (log_lines ([''a''] @ [''x'']), f) = (out, t, f') \<and>
     scanned @ out = [''a'' @ [CHR 0x0A], ''b'' @ [CHR 0x0A]]"
proof -
  obtain scanned f where a: "log_start ([] @ [(''log'', live_log (log_lines [''a'']))]) (length (log_lines ([''a''] @ [''x'']))) = (scanned, f)"
    by (cases "log_start ([] @ [(''log'', live_log (log_lines [''a'']))]) (length (log_lines ([''a''] @ [''x''])))") auto
  obtain out t f' where b: "follow_run [] ''log'' ([Look 0, Grow [''b'']] @ map Look [1]) (log_lines ([''a''] @ [''x'']), f) = (out, t, f')"
    by (cases "follow_run [] ''log'' ([Look 0, Grow [''b'']] @ map Look [1]) (log_lines ([''a''] @ [''x'']), f)") auto
  have c: "list_all clean_line ([''a''] @ [''x''] @ grown [Look 0, Grow [''b'']])" by (simp add: clean_line_def)
  have "stream_lines [] (log_lines ([''a''] @ grown [Look 0, Grow [''b'']])) = [''a'' @ [CHR 0x0A], ''b'' @ [CHR 0x0A]]"
    using stream_log_lines [of "[''a'', ''b'']" "[]"] by (simp add: clean_line_def)
  then show ?thesis using each_log_line_once [OF a b _ c] a b by auto
qed

text \<open>C18: of every radio the dashboard shows the newest of the positions reported for it, however the event files
  appear and how often they are scanned: it is one that an event reported, on the globe, and no event processed so far has a
  later one; a radio without a report has no position.\<close>

theorem newest_position_shown:
  assumes "scan_all rep dirs s = (Inr (), s')" "seen_events s = {}" "positions (view s) = []"
  shows "case map_of (positions (view s')) r of
      None \<Rightarrow> \<forall>x \<in> set (fixes_of rep (fresh_files {} (files_of dirs))). fst x \<noteq> r
    | Some (la, lo, t) \<Rightarrow> (r, la, lo, t) \<in> set (fixes_of rep (fresh_files {} (files_of dirs))) \<and> on_globe (la, lo) \<and>
        (\<forall>(r', _, _, t') \<in> set (fixes_of rep (fresh_files {} (files_of dirs))). r' = r \<longrightarrow> t' \<le> t)"
proof -
  have "position_ok [] (view s)" using assms(3) by (simp add: position_ok_def)
  from scan_files_positions [OF assms(1) [unfolded scan_all_files] this] assms(2)
  have "position_ok (fixes_of rep (fresh_files {} (files_of dirs))) (view s')" by simp
  then have k: "case map_of (positions (view s')) r of None \<Rightarrow> \<forall>x \<in> set (fixes_of rep (fresh_files {} (files_of dirs))). fst x \<noteq> r
     | Some (la, lo, t) \<Rightarrow> (r, la, lo, t) \<in> set (fixes_of rep (fresh_files {} (files_of dirs))) \<and>
         (\<forall>(r', _, _, t') \<in> set (fixes_of rep (fresh_files {} (files_of dirs))). r' = r \<longrightarrow> t' \<le> t)"
    by (simp add: position_ok_def)
  show ?thesis
  proof (cases "map_of (positions (view s')) r")
    case (Some x)
    then show ?thesis using k fix_on_globe by (cases x) auto
  qed (use k in simp)
qed

text \<open>Two events of one radio, the older one found later.\<close>

definition demo_event :: "string \<Rightarrow> int \<Rightarrow> real \<Rightarrow> location_file" where
  "demo_event name la t = \<lparr>event_name = name,
     event_doc = Inr (PDict [(''application'', PStr ''motorola_lrrp''), (''sourceRid'', PInt 42),
       (''rawIpPacketHex'', PStr (hex_text (report_packet demo_ip [0x0F, 0xA1, 0x0F, 0xA1] [0, 0] 0x0D
          (request_id [1] @ position_token 0x66 la 0) [])))]),
     event_mtime = Inr t\<rparr>"

definition demo_feed :: feed where
  "demo_feed = \<lparr>seen_events = {}, status_mtime = - 1, services_shown = [], view = tracker_init\<rparr>"

lemma demo_decode:
  assumes "la = 2 ^ 30 \<or> la = 0"
  shows "decode_motorola_lrrp_position (hex_text (report_packet demo_ip [0x0F, 0xA1, 0x0F, 0xA1] [0, 0] 0x0D
      (request_id [1] @ position_token 0x66 la 0) [])) = Some (if la = 0 then 0 else 45, 0)"
proof -
  have r: "round7 45 = 45" "round7 0 = 0"
    using py_round_of_int [of "45 * 10 ^ 7"] py_round_of_int [of 0] by (simp_all add: round7_def)
  have ip: "ip_header demo_ip" by (simp add: ip_header_def demo_ip_def)
  let ?r = "request_id [1] @ position_token 0x66 la 0"
  have p: "udp_payload (report_packet demo_ip [0x0F, 0xA1, 0x0F, 0xA1] [0, 0] 0x0D ?r []) = Some ([0x0D, word_of_nat (length ?r)] @ ?r)"
    by (rule payload_of_packet [OF ip]) (simp_all add: request_id_def position_token_def report_packet_def demo_ip_def)
  have "lrrp_report ([0x0D, word_of_nat (length ?r)] @ ?r) = Some (position_token 0x66 la 0)"
    using report_of_payload [of ?r "0x0D" "[]"] report_without_id [of "[1]" "position_token 0x66 la 0"]
    by (simp add: request_id_def position_token_def)
  moreover have "find_position (position_token 0x66 la 0) = Some (if la = 0 then 0 else 45, 0)"
    using position_found [of "0x66" la 0 "[]"] assms r by auto
  ultimately show ?thesis using p by (simp add: decode_motorola_lrrp_position_def from_hex_text)
qed

lemma newest_position_shown_witness:
  "\<exists>s'. scan_all (\<lambda>_. []) [Some [demo_event ''host-raw-b.json'' (2 ^ 30) 20],
      Some [demo_event ''host-raw-a.json'' 0 10, demo_event ''host-raw-b.json'' (2 ^ 30) 20]] demo_feed = (Inr (), s') \<and>
     map_of (positions (view s')) 42 = Some (45, 0, 20)"
proof -
  let ?d = "[Some [demo_event ''host-raw-b.json'' (2 ^ 30) 20],
      Some [demo_event ''host-raw-a.json'' 0 10, demo_event ''host-raw-b.json'' (2 ^ 30) 20]]"
  have t: "event_time ''host-raw-b.json'' = None" "event_time ''host-raw-a.json'' = None"
    by (simp_all add: event_time_def)
  have nonempty: "hex_text (report_packet demo_ip p c k r x) \<noteq> []" for p c k r x
    by (simp add: report_packet_def demo_ip_def hex_text_def)
  have fix2: "location_fix (\<lambda>_. []) (demo_event ''host-raw-b.json'' (2 ^ 30) 20) = Inr (Some (42, 45, 0, 20))"
    and fix1: "location_fix (\<lambda>_. []) (demo_event ''host-raw-a.json'' 0 10) = Inr (Some (42, 0, 0, 10))"
    using demo_decode [of "2 ^ 30"] demo_decode [of 0] t nonempty by (simp_all add: location_fix_def demo_event_def py_or_def)
  have n: "event_name (demo_event x la t) = x" for x la t by (simp add: demo_event_def)
  obtain s' where s': "scan_all (\<lambda>_. []) ?d demo_feed = (Inr (), s')"
    using scan_returns [of "files_of ?d" "\<lambda>_. []" demo_feed] unfolding scan_all_files by (auto simp: files_of_def fix1 [simplified] fix2 [simplified])
  have f: "fixes_of (\<lambda>_. []) (fresh_files {} (files_of ?d)) = [(42, 45, 0, 20), (42, 0, 0, 10)]"
    by (simp add: files_of_def n fixes_of_def map_filter_def fix1 [simplified] fix2 [simplified])
  have "seen_events demo_feed = {}" "positions (view demo_feed) = []" by (simp_all add: demo_feed_def tracker_init_def)
  from newest_position_shown [OF s' this, of 42] s' show ?thesis
    unfolding f by (auto split: option.splits prod.splits)
qed

end
