(* ===== verification/Dash_Identity.thy ===== *)
theory Dash_Identity
  imports Dash_Auth Dash_Readback
begin

text \<open>
  Names of radios and talkgroups: \<^verbatim>\<open>IdentityDirectory\<close> of \<^verbatim>\<open>src/dashboard/app.py\<close>. One thread asks RadioID and
  BrandMeister for the ids the dashboard shows, keeps the answers in a cache file, and waits before it asks again.
  Every use of the condition variable is one step; a lookup is three of them (\<open>next_job\<close>, the answer, \<open>finish_job\<close>), between
  which the dashboard may observe more ids. Keys of the two tables are the decimal texts of ids: here the ids themselves.
\<close>

section \<open>Answers\<close>

type_synonym identity = "(string \<times> pyval) list"

definition words_of :: "(pyval \<Rightarrow> string) \<Rightarrow> pyval \<Rightarrow> string" where
  "words_of rep v = concat (case split_ws (py_str rep (py_or v (PStr []))) of
     [] \<Rightarrow> [] | w # ws \<Rightarrow> w # map (\<lambda>w. '' '' @ w) ws)"

definition lookup_caught :: "py_error \<Rightarrow> bool" where
  "lookup_caught e \<longleftrightarrow> is_type_error e \<or> is_value_error e"

definition radio_identity :: "(pyval \<Rightarrow> string) \<Rightarrow> identity \<Rightarrow> identity" where
  "radio_identity rep entry =
     (let field = (\<lambda>k. words_of rep (dget entry k PNone));
          parts = filter (\<lambda>p. p \<noteq> []) [field ''fname'', field ''surname''];
          full = (case parts of [a, b] \<Rightarrow> a @ '' '' @ b | ps \<Rightarrow> concat ps) in
      [(''callsign'', PStr (upper (field ''callsign''))),
       (''name'', PStr (if full = [] then field ''name'' else full)),
       (''city'', PStr (field ''city'')), (''state'', PStr (field ''state'')), (''country'', PStr (field ''country''))])"

fun find_radio :: "(pyval \<Rightarrow> string) \<Rightarrow> int \<Rightarrow> pyval list \<Rightarrow> py_error + identity option" where
  "find_radio rep radio_id [] = Inr None"
| "find_radio rep radio_id (PDict entry # entries) =
     (case py_int (dget entry ''radio_id'' (dget entry ''id'' (PInt 0))) of
        Inl e \<Rightarrow> if lookup_caught e then find_radio rep radio_id entries else Inl e
      | Inr i \<Rightarrow> if i = radio_id then Inr (Some (radio_identity rep entry)) else find_radio rep radio_id entries)"
| "find_radio rep radio_id (_ # entries) = find_radio rep radio_id entries"

definition parse_radio_payload :: "(pyval \<Rightarrow> string) \<Rightarrow> int \<Rightarrow> identity \<Rightarrow> py_error + identity option" where
  "parse_radio_payload rep radio_id payload = (case dget payload ''results'' PNone of
     PList results \<Rightarrow> find_radio rep radio_id results
   | _ \<Rightarrow> Inl (ValueError ''Invalid RadioID response''))"

definition parse_talkgroup_payload :: "(pyval \<Rightarrow> string) \<Rightarrow> int \<Rightarrow> identity \<Rightarrow> py_error + identity option" where
  "parse_talkgroup_payload rep talkgroup payload =
     (case py_int (dget payload ''ID'' (dget payload ''id'' (PInt 0))) of
        Inl e \<Rightarrow> Inl (if lookup_caught e then ValueError ''Invalid BrandMeister talkgroup response'' else e)
      | Inr i \<Rightarrow> if i \<noteq> talkgroup then Inr None
          else let name = words_of rep (dget payload ''Name'' (dget payload ''name'' PNone)) in
            Inr (if name = [] then None else Some [(''name'', PStr name)]))"

section \<open>State\<close>

datatype id_kind = RadioId | TalkgroupId

type_synonym job = "id_kind \<times> int"

record directory =
  known_radios :: "(int, identity) pydict"
  known_talkgroups :: "(int, identity) pydict"
  pending_radios :: "int set"
  pending_talkgroups :: "int set"
  retry_at :: "job \<rightharpoonup> real"
  last_success :: "real option"
  last_error :: "string option"

definition IDENTITY_REFRESH_SECONDS :: int where "IDENTITY_REFRESH_SECONDS = 24 * 60 * 60"
definition IDENTITY_NEGATIVE_REFRESH_SECONDS :: int where "IDENTITY_NEGATIVE_REFRESH_SECONDS = 6 * 60 * 60"
definition IDENTITY_RETRY_SECONDS :: int where "IDENTITY_RETRY_SECONDS = 5 * 60"

section \<open>The cache file\<close>

definition add_entry :: "string \<times> pyval \<Rightarrow> (int, identity) pydict \<Rightarrow> (int, identity) pydict" where
  "add_entry x es = (case (py_int_str (fst x), snd x) of
     (Inr i, PDict e) \<Rightarrow> if 0 < i then AList.update i e es else es
   | _ \<Rightarrow> es)"

fun valid_entries :: "pyval \<Rightarrow> (int, identity) pydict" where
  "valid_entries (PDict d) = fold add_entry d []"
| "valid_entries _ = []"

text \<open>\<^verbatim>\<open>_load\<close>, over what reading and parsing the file gives.\<close>

definition load_cache :: "py_error + pyval \<Rightarrow> (directory, unit) act" where
  "load_cache content = (case content of
     Inl e \<Rightarrow> if is_os_error e \<or> is_value_error e then ret () else raiseA e
   | Inr (PDict payload) \<Rightarrow>
       if \<not> equals_one (dget payload ''version'' PNone) then ret ()
       else upd (\<lambda>s. s\<lparr>known_radios := valid_entries (dget payload ''radios'' PNone),
         known_talkgroups := valid_entries (dget payload ''talkgroups'' PNone),
         last_success := (case py_float (dget payload ''savedAt'' (PInt 0)) of
            Inl e \<Rightarrow> None | Inr x \<Rightarrow> if x = 0 then None else Some x)\<rparr>)
   | Inr _ \<Rightarrow> ret ())"

definition entries_value :: "(int, identity) pydict \<Rightarrow> pyval" where
  "entries_value es = PDict (map (\<lambda>(i, e). (show_int i, PDict e)) es)"

text \<open>The document that \<^verbatim>\<open>_save\<close> writes; a write that fails is logged and forgotten.\<close>

definition cache_document :: "real \<Rightarrow> directory \<Rightarrow> pyval" where
  "cache_document now s = PDict
     [(''version'', PInt 1),
      (''savedAt'', PFloat (case last_success s of None \<Rightarrow> now | Some x \<Rightarrow> if x = 0 then now else x)),
      (''radios'', entries_value (known_radios s)), (''talkgroups'', entries_value (known_talkgroups s))]"

section \<open>What has to be asked\<close>

definition needs_refresh :: "identity option \<Rightarrow> real \<Rightarrow> bool" where
  "needs_refresh entry now = (case entry of
     None \<Rightarrow> True
   | Some e \<Rightarrow> e = [] \<or> (case py_float (dget e ''updatedAt'' (PInt 0)) of
       Inl _ \<Rightarrow> True
     | Inr updated_at \<Rightarrow>
         of_int (if truthy (dget e ''notFound'' PNone) then IDENTITY_NEGATIVE_REFRESH_SECONDS else IDENTITY_REFRESH_SECONDS)
           \<le> now - updated_at))"

text \<open>The ids among the entries of a list; \<^verbatim>\<open>AttributeError\<close>, \<^verbatim>\<open>TypeError\<close> and \<^verbatim>\<open>ValueError\<close>, which are all that taking an
  id can raise, skip an entry.\<close>

definition ids_in :: "(pyval \<Rightarrow> py_error + int) \<Rightarrow> pyval list \<Rightarrow> int set" where
  "ids_in f vs = set (List.map_filter (\<lambda>v. case f v of Inr i \<Rightarrow> Some i | Inl _ \<Rightarrow> None) vs)"

definition int_field :: "string \<Rightarrow> pyval \<Rightarrow> py_error + int" where
  "int_field key v = bindE (py_get v key (PInt 0)) py_int"

definition call_group_id :: "pyval \<Rightarrow> py_error + int" where
  "call_group_id v =
     bindE (int_field ''sourceId'' v) (\<lambda>_.
     bindE (py_get v ''mappedTalkgroup'' PNone) (\<lambda>m.
     if truthy m then py_int m else int_field ''talkgroup'' v))"

definition listed_in :: "pyval \<Rightarrow> string \<Rightarrow> py_error + pyval list" where
  "listed_in v key = bindE (py_get v key (PList [])) py_iter"

definition observed_ids :: "pyval \<Rightarrow> py_error + (int set \<times> int set)" where
  "observed_ids status =
     bindE (listed_in status ''radios'') (\<lambda>shown.
     bindE (listed_in status ''activeCalls'') (\<lambda>active.
     bindE (listed_in status ''recentCalls'') (\<lambda>recent.
     bindE (py_get status ''talkgroups'' (PDict [])) (\<lambda>subscriptions.
     bindE (mapE (listed_in subscriptions) [''static'', ''dynamic'', ''timed'']) (\<lambda>groups.
     bindE (py_get status ''connection'' (PDict [])) (\<lambda>connection.
     bindE (listed_in connection ''talkgroupMappings'') (\<lambda>ms.
     Inr (ids_in (int_field ''id'') shown \<union> ids_in (int_field ''sourceId'') (active @ recent),
          ids_in call_group_id (active @ recent) \<union> ids_in (int_field ''talkgroup'') (concat groups) \<union>
          ids_in (int_field ''brandmeister'') ms))))))))"

definition observe :: "real \<Rightarrow> pyval \<Rightarrow> (directory, unit) act" where
  "observe now status =
     bindA (liftE (observed_ids status)) (\<lambda>(rs, ts). upd (\<lambda>s. s\<lparr>
       pending_radios := pending_radios s \<union> {i \<in> rs - {0}. needs_refresh (map_of (known_radios s) i) now},
       pending_talkgroups := pending_talkgroups s \<union> {i \<in> ts - {0}. needs_refresh (map_of (known_talkgroups s) i) now}\<rparr>))"

section \<open>Asking\<close>

definition job_due :: "real \<Rightarrow> directory \<Rightarrow> job \<Rightarrow> bool" where
  "job_due now s j \<longleftrightarrow> (case retry_at s j of None \<Rightarrow> 0 | Some t \<Rightarrow> t) \<le> now"

definition jobs_of :: "directory \<Rightarrow> job list" where
  "jobs_of s = map (Pair RadioId) (sorted_list_of_set (pending_radios s)) @
     map (Pair TalkgroupId) (sorted_list_of_set (pending_talkgroups s))"

definition next_job :: "real \<Rightarrow> directory \<Rightarrow> job option \<times> directory" where
  "next_job now s = (case find (job_due now s) (jobs_of s) of
     None \<Rightarrow> (None, s)
   | Some (RadioId, i) \<Rightarrow> (Some (RadioId, i), s\<lparr>pending_radios := pending_radios s - {i}\<rparr>)
   | Some (TalkgroupId, i) \<Rightarrow> (Some (TalkgroupId, i), s\<lparr>pending_talkgroups := pending_talkgroups s - {i}\<rparr>))"

definition kind_name :: "id_kind \<Rightarrow> string" where
  "kind_name k = (case k of RadioId \<Rightarrow> ''radio'' | TalkgroupId \<Rightarrow> ''talkgroup'')"

text \<open>What the services answer: a document, or an error; BrandMeister's 404 means that there is no such talkgroup.\<close>

definition fetch :: "(pyval \<Rightarrow> string) \<Rightarrow> py_error + string \<Rightarrow> (job \<Rightarrow> py_error + pyval) \<Rightarrow> job \<Rightarrow> py_error + identity option" where
  "fetch rep key answer j =
     (let document = (case answer j of Inl e \<Rightarrow> Inl e | Inr (PDict d) \<Rightarrow> Inr d | Inr _ \<Rightarrow> Inl (ValueError ''Invalid directory response'')) in
      case j of
        (RadioId, i) \<Rightarrow> bindE document (parse_radio_payload rep i)
      | (TalkgroupId, i) \<Rightarrow> bindE key (\<lambda>key.
          if strip key = [] then Inl (ValueError ''BrandMeister API key is missing'')
          else if document = Inl (OSError ''HTTP 404'') then Inr None
          else bindE document (parse_talkgroup_payload rep i)))"

definition identity_entry :: "real \<Rightarrow> identity option \<Rightarrow> identity" where
  "identity_entry now result = (case result of
     None \<Rightarrow> [(''updatedAt'', PFloat now), (''notFound'', PBool True)]
   | Some r \<Rightarrow> fold (\<lambda>(k, v). AList.update k v) r [(''updatedAt'', PFloat now)])"

definition finish_job :: "real \<Rightarrow> job \<Rightarrow> py_error + identity option \<Rightarrow> (directory, unit) act" where
  "finish_job now j result = (case result of
     Inl e \<Rightarrow>
       if is_os_error e \<or> is_value_error e
       then upd (\<lambda>s. (case j of
           (RadioId, i) \<Rightarrow> s\<lparr>pending_radios := insert i (pending_radios s)\<rparr>
         | (TalkgroupId, i) \<Rightarrow> s\<lparr>pending_talkgroups := insert i (pending_talkgroups s)\<rparr>)
         \<lparr>last_error := Some (kind_name (fst j) @ '' lookup temporarily unavailable''),
          retry_at := (retry_at s)(j \<mapsto> now + of_int IDENTITY_RETRY_SECONDS)\<rparr>)
       else raiseA e
   | Inr r \<Rightarrow>
       upd (\<lambda>s. (case j of
           (RadioId, i) \<Rightarrow> s\<lparr>known_radios := AList.update i (identity_entry now r) (known_radios s)\<rparr>
         | (TalkgroupId, i) \<Rightarrow> s\<lparr>known_talkgroups := AList.update i (identity_entry now r) (known_talkgroups s)\<rparr>)
         \<lparr>retry_at := (retry_at s)(j := None), last_success := Some now, last_error := None\<rparr>))"

section \<open>What the dashboard shows\<close>

definition shown_entries :: "(int, identity) pydict \<Rightarrow> (int, identity) pydict" where
  "shown_entries es = map (\<lambda>(i, e). (i, filter (\<lambda>(k, v). k \<notin> {''updatedAt'', ''notFound''}) e))
     (filter (\<lambda>(i, e). \<not> truthy (dget e ''notFound'' PNone)) es)"

definition directory_state :: "directory \<Rightarrow> string" where
  "directory_state s =
     (let populated = (shown_entries (known_radios s) \<noteq> [] \<or> shown_entries (known_talkgroups s) \<noteq> []) in
      if last_error s \<noteq> None then (if populated then ''stale'' else ''error'')
      else if (case last_success s of None \<Rightarrow> False | Some x \<Rightarrow> x \<noteq> 0) then ''ok'' else ''loading'')"

end
