(* ===== verification/Dash_Lookup.thy ===== *)
theory Dash_Lookup
  imports Dash_Identity
begin

text \<open>How the directory asks: after a lookup that failed it waits; what it knows survives a restart.\<close>

section \<open>The cache file is read back\<close>

lemma fold_update_new:
  "distinct (map fst es @ map fst d) \<Longrightarrow> fold (\<lambda>(k, v). AList.update k v) es d = d @ es"
proof (induction es arbitrary: d)
  case (Cons x es)
  then show ?case by (cases x) (simp add: update_new)
qed simp

lemma valid_entries_value:
  assumes "dict_ok es" "\<forall>i \<in> fst ` set es. 0 < i"
  shows "valid_entries (entries_value es) = es"
proof -
  have "fold add_entry (map (\<lambda>(i, e). (show_int i, PDict e)) es) d = fold (\<lambda>(k, v). AList.update k v) es d" for d
    using assms(2)
  proof (induction es arbitrary: d)
    case (Cons x es)
    then show ?case by (cases x) (simp add: add_entry_def py_int_show_int)
  qed simp
  then show ?thesis using fold_update_new [of es "[]"] assms(1) by (simp add: entries_value_def dict_ok_def)
qed

section \<open>Lookups in time\<close>

datatype lookup = Asked job real | Failed job real | Answered job real

record lookups =
  directory :: directory
  in_flight :: "job option"
  trace :: "lookup list"

text \<open>The thread takes a job when it has none; a lookup that ends with an error nobody catches ends the thread.\<close>

datatype directory_event = Observe real pyval | Take real | Finish real "py_error + identity option"

fun moment :: "directory_event \<Rightarrow> real" where
  "moment (Observe now status) = now"
| "moment (Take now) = now"
| "moment (Finish now result) = now"

fun look_up :: "directory_event \<Rightarrow> lookups \<Rightarrow> lookups" where
  "look_up (Observe now status) s = s\<lparr>directory := snd (observe now status (directory s))\<rparr>"
| "look_up (Take now) s =
     (if in_flight s \<noteq> None then s
      else case next_job now (directory s) of
        (None, d) \<Rightarrow> s\<lparr>directory := d\<rparr>
      | (Some j, d) \<Rightarrow> s\<lparr>directory := d, in_flight := Some j, trace := trace s @ [Asked j now]\<rparr>)"
| "look_up (Finish now result) s =
     (case in_flight s of
        None \<Rightarrow> s
      | Some j \<Rightarrow> (case finish_job now j result (directory s) of
          (Inl e, d) \<Rightarrow> s
        | (Inr x, d) \<Rightarrow> s\<lparr>directory := d, in_flight := None,
            trace := trace s @ [case result of Inl _ \<Rightarrow> Failed j now | Inr _ \<Rightarrow> Answered j now]\<rparr>))"

definition waits :: "lookup \<Rightarrow> lookup \<Rightarrow> bool" where
  "waits x y \<longleftrightarrow> (\<forall>j t t'. x = Failed j t \<and> y = Asked j t' \<longrightarrow> t + 300 \<le> t')"

text \<open>At time \<open>now\<close>: a lookup that failed has had its 300 seconds, or the directory will wait for them.\<close>

definition patient :: "real \<Rightarrow> lookups \<Rightarrow> bool" where
  "patient now s \<longleftrightarrow> sorted_wrt waits (trace s) \<and>
     (\<forall>j t. Failed j t \<in> set (trace s) \<longrightarrow>
        t + 300 \<le> now \<or> in_flight s \<noteq> Some j \<and> (\<exists>r. retry_at (directory s) j = Some r \<and> t + 300 \<le> r))"

lemma patientD:
  "patient now s \<Longrightarrow> Failed j t \<in> set (trace s) \<Longrightarrow>
   t + 300 \<le> now \<or> in_flight s \<noteq> Some j \<and> (\<exists>r. retry_at (directory s) j = Some r \<and> t + 300 \<le> r)"
  unfolding patient_def by blast

lemma next_job_due:
  assumes "next_job now s = (Some j, s')"
  shows "job_due now s j \<and> retry_at s' = retry_at s"
proof -
  obtain q where q: "find (job_due now s) (jobs_of s) = Some q"
    using assms by (cases "find (job_due now s) (jobs_of s)") (auto simp: next_job_def)
  then have "job_due now s q" by (auto simp: find_Some_iff)
  then show ?thesis using assms q by (cases q; cases "fst q") (auto simp: next_job_def)
qed

lemma patient_later: "patient now s \<Longrightarrow> now \<le> later \<Longrightarrow> patient later s"
  by (fastforce simp: patient_def)

lemma observe_retry: "retry_at (snd (observe now status d)) = retry_at d"
  by (cases "observed_ids status") (auto simp: observe_def)

lemma patient_take:
  assumes "patient now s"
  shows "patient now (look_up (Take now) s)"
proof (cases "in_flight s")
  case None
  obtain q d where n: "next_job now (directory s) = (q, d)" by (cases "next_job now (directory s)") auto
  show ?thesis
  proof (cases q)
    case None
    then have "d = directory s" using n by (auto simp: next_job_def split: option.splits prod.splits id_kind.splits)
    then show ?thesis using assms n \<open>q = None\<close> \<open>in_flight s = None\<close> by simp
  next
    case (Some j)
    have due: "job_due now (directory s) j" "retry_at d = retry_at (directory s)" using next_job_due n Some by auto
    have "t + 300 \<le> now" if "Failed j t \<in> set (trace s)" for t
      using patientD [OF assms that] due(1) by (auto simp: job_due_def)
    then show ?thesis
      using assms n Some due(2) \<open>in_flight s = None\<close> by (auto simp: patient_def sorted_wrt_append waits_def simp del: split_paired_All)
  qed
qed (use assms in simp)

lemma finish_job_retry:
  assumes "finish_job now j result d = (Inr x, d')"
  shows "retry_at d' = (retry_at d)(j := (case result of Inl _ \<Rightarrow> Some (now + 300) | Inr _ \<Rightarrow> None))"
  using assms by (cases j; cases "fst j")
    (auto simp: finish_job_def IDENTITY_RETRY_SECONDS_def split: sum.splits if_splits id_kind.splits)

lemma patient_finish:
  assumes "patient now s"
  shows "patient now (look_up (Finish now result) s)"
proof (cases "in_flight s")
  case (Some j)
  obtain r d where f: "finish_job now j result (directory s) = (r, d)" by (cases "finish_job now j result (directory s)") auto
  show ?thesis
  proof (cases r)
    case (Inr x)
    have "t + 300 \<le> now" if "Failed j t \<in> set (trace s)" for t using patientD [OF assms that] Some by simp
    then show ?thesis
      using assms Some f Inr finish_job_retry [of now j result "directory s" x d]
      by (auto simp: patient_def sorted_wrt_append waits_def split: sum.splits)
  qed (use assms Some f in simp)
qed (use assms in simp)

lemma patient_step:
  assumes "patient now s" "now \<le> moment e"
  shows "patient (moment e) (look_up e s)"
proof (cases e)
  case (Observe t status)
  then show ?thesis using patient_later [OF assms] by (simp add: patient_def observe_retry)
qed (use patient_later [OF assms] patient_take patient_finish in auto)

lemma patient_run:
  assumes "patient now s" "sorted (now # map moment es)"
  shows "\<exists>later. patient later (fold look_up es s)"
  using assms
proof (induction es arbitrary: now s)
  case (Cons e es)
  have "patient (moment e) (look_up e s)" using patient_step Cons.prems by simp
  then show ?case using Cons.IH [of "moment e" "look_up e s"] Cons.prems(2) by simp
qed auto

text \<open>An id that is observed while it is being looked up is asked for again at once, whatever the answer was.\<close>

lemma observed_in_flight_asked_again:
  assumes "finite (pending_radios d)" "\<forall>i \<in> pending_radios d. 7 \<le> i" "7 \<notin> pending_radios d" "retry_at d (RadioId, 7) = None"
    "0 \<le> now" "map_of (known_radios d) 7 = None"
  shows "\<exists>d1 d2 d3. observe now (PDict [(''radios'', PList [PDict [(''id'', PInt 7)]])]) d = (Inr (), d1) \<and>
    finish_job now (RadioId, 7) (Inr (Some r)) d1 = (Inr (), d2) \<and> next_job now d2 = (Some (RadioId, 7), d3)"
proof -
  let ?s = "PDict [(''radios'', PList [PDict [(''id'', PInt 7)]])]"
  have ids: "observed_ids ?s = Inr ({7}, {})"
    by (simp add: observed_ids_def listed_in_def ids_in_def int_field_def map_filter_simps)
  let ?d1 = "d\<lparr>pending_radios := insert 7 (pending_radios d)\<rparr>"
  have "needs_refresh (map_of (known_radios d) i) now" if "i = 7" for i using assms(6) that by (simp add: needs_refresh_def)
  then have "{i. i = 7 \<and> i \<noteq> 0 \<and> needs_refresh (map_of (known_radios d) i) now} = {7}" by auto
  then have o: "observe now ?s d = (Inr (), ?d1)" using ids by (simp add: observe_def)
  obtain d2 where f: "finish_job now (RadioId, 7) (Inr (Some r)) ?d1 = (Inr (), d2)"
    "pending_radios d2 = insert 7 (pending_radios d)" "retry_at d2 (RadioId, 7) = None"
    by (simp add: finish_job_def)
  have "sorted_list_of_set (insert 7 (pending_radios d)) = 7 # sorted_list_of_set (pending_radios d)"
    using assms(1-3) by (simp add: sorted_list_of_set_insert_remove insort_is_Cons)
  then have "find (job_due now d2) (jobs_of d2) = Some (RadioId, 7)"
    using f(2,3) assms(5) by (simp add: jobs_of_def job_due_def)
  then show ?thesis using o f(1) by (auto simp: next_job_def)
qed

section \<open>The properties\<close>

text \<open>C30: the directory does not press a service that fails: however the dashboard is used and whatever the services
  answer, once a lookup of an id failed the same id is not asked for again within 300 seconds.\<close>

theorem failed_lookup_waits:
  assumes "fold look_up es s = s'" "trace s = []" "sorted (map moment es)"
    and "i < k" "k < length (trace s')" "trace s' ! i = Failed j t" "trace s' ! k = Asked j t'"
  shows "t + 300 \<le> t'"
proof -
  obtain now where n: "sorted (now # map moment es)"
    by (cases es) (use assms(3) in \<open>auto intro: that [of "moment (hd es)"]\<close>)
  have "patient now s" using assms(2) by (simp add: patient_def)
  then obtain later where "patient later s'" using patient_run n assms(1) by blast
  then have "waits (trace s' ! i) (trace s' ! k)" using assms(4,5) by (simp add: patient_def sorted_wrt_iff_nth_less)
  then show ?thesis using assms(6,7) by (simp add: waits_def)
qed

text \<open>What the directory knows survives a restart: the cache file it writes is read back to the same radios and
  talkgroups with all their fields, in the same order.\<close>

theorem identity_cache_round_trip:
  assumes "dict_ok (known_radios s)" "dict_ok (known_talkgroups s)" "\<forall>i \<in> fst ` set (known_radios s @ known_talkgroups s). 0 < i"
    and "last_success s = Some x" "x \<noteq> 0"
  shows "load_cache (Inr (cache_document now s)) s0 =
    (Inr (), s0\<lparr>known_radios := known_radios s, known_talkgroups := known_talkgroups s, last_success := Some x\<rparr>)"
proof -
  have "valid_entries (entries_value (known_radios s)) = known_radios s"
    "valid_entries (entries_value (known_talkgroups s)) = known_talkgroups s"
    using assms(1-3) by (auto intro!: valid_entries_value)
  then show ?thesis using assms(4,5) by (simp add: load_cache_def cache_document_def dget_def)
qed

section \<open>Concrete runs\<close>

definition demo_directory :: directory where
  "demo_directory = \<lparr>known_radios = [], known_talkgroups = [], pending_radios = {7}, pending_talkgroups = {},
     retry_at = (\<lambda>_. None), last_success = None, last_error = None\<rparr>"

definition demo_lookups :: lookups where
  "demo_lookups = \<lparr>directory = demo_directory, in_flight = None, trace = []\<rparr>"

text \<open>The first lookup fails; a look after 100 seconds finds nothing to do, the one after 400 asks again.\<close>

lemma demo_lookups_run:
  "trace (fold look_up [Take 0, Finish 1 (Inl (OSError ''URLError'')), Take 100, Take 400] demo_lookups) =
     [Asked (RadioId, 7) 0, Failed (RadioId, 7) 1, Asked (RadioId, 7) 400]"
  by (simp add: demo_lookups_def demo_directory_def next_job_def jobs_of_def job_due_def finish_job_def IDENTITY_RETRY_SECONDS_def)

lemma failed_lookup_waits_witness:
  "trace (fold look_up [Take 0, Finish 1 (Inl (OSError ''URLError'')), Take 100, Take 400] demo_lookups) =
     [Asked (RadioId, 7) 0, Failed (RadioId, 7) 1, Asked (RadioId, 7) 400] \<and> (1 :: real) + 300 \<le> 400"
proof -
  let ?s = "fold look_up [Take 0, Finish 1 (Inl (OSError ''URLError'')), Take 100, Take 400] demo_lookups"
  have "trace demo_lookups = []" by (simp add: demo_lookups_def)
  moreover have "sorted (map moment [Take 0, Finish 1 (Inl (OSError ''URLError'')), Take 100, Take 400])" by simp
  ultimately have "(1 :: real) + 300 \<le> 400"
    using failed_lookup_waits [where s' = ?s and s = demo_lookups and i = 1 and k = 2 and j = "(RadioId, 7)" and t = 1 and t' = 400]
      demo_lookups_run by simp
  then show ?thesis using demo_lookups_run by simp
qed

lemma identity_cache_round_trip_witness:
  "load_cache (Inr (cache_document 0 (demo_directory\<lparr>known_radios := [(7, [(''name'', PStr ''Ada'')])], last_success := Some 5\<rparr>))) demo_directory =
    (Inr (), demo_directory\<lparr>known_radios := [(7, [(''name'', PStr ''Ada'')])], last_success := Some 5\<rparr>)"
  using identity_cache_round_trip [of "demo_directory\<lparr>known_radios := [(7, [(''name'', PStr ''Ada'')])], last_success := Some 5\<rparr>" 5 0 demo_directory]
  by (simp add: demo_directory_def dict_ok_def)

end
