(* ===== verification/Dash_View.thy ===== *)
theory Dash_View
  imports Dash_Follow Dash_Lookup
begin

text \<open>
  The status that the dashboard shows: \<^verbatim>\<open>RuntimeState.snapshot\<close>, \<^verbatim>\<open>RidDirectory\<close> and
  \<^verbatim>\<open>DashboardApplication.status\<close> of \<^verbatim>\<open>src/dashboard/app.py\<close>. \<open>iso\<close> is \<^verbatim>\<open>utc_iso\<close>, the text of a time in the
  local time zone, which raises for a time out of the range of the calendar; \<open>labels\<close> are the names of the local
  radio list. A sort by a pair is a sort by its second part after one by its first: sorting is stable.
\<close>

record names =
  iso :: "real \<Rightarrow> py_error + string"
  value_text :: "pyval \<Rightarrow> string"
  labels :: "int \<rightharpoonup> string"
  radio_names :: "(int, identity) pydict"
  group_names :: "(int, identity) pydict"

section \<open>The radio list\<close>

text \<open>\<^verbatim>\<open>RidDirectory\<close>: what the file system and the reader of comma separated values give, and what is kept of it. The
  list is read again when the file has another time stamp.\<close>

record rid_source =
  rid_stat :: "py_error + int"
  rid_rows :: "py_error + string list list"

record rid_directory =
  rid_mtime :: int
  rid_entries :: "(int, string) pydict"

definition rid_row :: "string list \<Rightarrow> (int, string) pydict \<Rightarrow> (int, string) pydict" where
  "rid_row row entries = (case row of [] \<Rightarrow> entries
     | first # _ \<Rightarrow> (case py_int_str (strip first) of
         Inl e \<Rightarrow> entries
       | Inr radio_id \<Rightarrow> (let label = (if 2 < length row then strip (row ! 2) else []) in
           if label = [] then entries else AList.update radio_id label entries)))"

definition rid_refresh :: "rid_source \<Rightarrow> (rid_directory, unit) act" where
  "rid_refresh src = readA (\<lambda>r. case rid_stat src of
     Inl e \<Rightarrow> if e = OSError ''FileNotFoundError'' then ret () else raiseA e
   | Inr mtime \<Rightarrow> if mtime = rid_mtime r then ret ()
       else bindA (liftE (rid_rows src)) (\<lambda>rows.
         upd (\<lambda>r. r\<lparr>rid_entries := fold rid_row rows [], rid_mtime := mtime\<rparr>)))"

definition rid_snapshot :: "rid_source \<Rightarrow> (rid_directory, (int, string) pydict) act" where
  "rid_snapshot src = thenA (rid_refresh src) (readA (\<lambda>r. ret (rid_entries r)))"

text \<open>A list that has gone or not changed leaves what is known; one that cannot be read leaves it as well, and raises.\<close>

lemma rid_snapshot_known:
  assumes "rid_stat src = Inl (OSError ''FileNotFoundError'') \<or> rid_stat src = Inr (rid_mtime r)"
  shows "rid_snapshot src r = (Inr (rid_entries r), r)"
  using assms by (auto simp: rid_snapshot_def rid_refresh_def thenA_def bindA_def)

lemma rid_snapshot_fails: "rid_snapshot src r = (Inl e, r') \<Longrightarrow> r' = r"
  by (auto simp: rid_snapshot_def rid_refresh_def thenA_def bindA_def split: sum.splits if_splits)

section \<open>Names\<close>

text \<open>The text of a time; a time without one is never shown, since formatting it has raised before.\<close>

definition date_text :: "names \<Rightarrow> real \<Rightarrow> string" where
  "date_text n t = (case iso n t of Inl e \<Rightarrow> [] | Inr x \<Rightarrow> x)"

definition or_none :: "(real \<Rightarrow> string) \<Rightarrow> real option \<Rightarrow> pyval" where
  "or_none f t = (case t of None \<Rightarrow> PNone | Some x \<Rightarrow> if x = 0 then PNone else PStr (f x))"

definition label_of :: "names \<Rightarrow> int \<Rightarrow> string" where
  "label_of n radio_id = (case labels n radio_id of None \<Rightarrow> [] | Some l \<Rightarrow> l)"

definition identity_payload :: "names \<Rightarrow> int \<Rightarrow> string \<Rightarrow> pyval" where
  "identity_payload n radio_id local_label =
     (let remote = (case map_of (radio_names n) radio_id of None \<Rightarrow> [] | Some e \<Rightarrow> e);
          field = (\<lambda>k. py_str (value_text n) (dget remote k (PStr [])));
          places = map field (filter (\<lambda>k. truthy (dget remote k PNone)) [''city'', ''state'', ''country'']);
          location = concat (case places of [] \<Rightarrow> [] | p # ps \<Rightarrow> p # map (\<lambda>q. '', '' @ q) ps) in
      PDict [(''id'', PInt radio_id), (''callsign'', PStr (field ''callsign'')), (''name'', PStr (field ''name'')),
        (''location'', PStr location), (''localLabel'', PStr local_label),
        (''displayName'', PStr (if field ''callsign'' \<noteq> [] then field ''callsign'' else if field ''name'' \<noteq> [] then field ''name''
           else if local_label \<noteq> [] then local_label else ''RID '' @ show_int radio_id)),
        (''resolved'', PBool (remote \<noteq> []))])"

definition talkgroup_name :: "names \<Rightarrow> int \<Rightarrow> string" where
  "talkgroup_name n tg =
     (if tg = 0 then [] else py_str (value_text n)
        (dget (case map_of (group_names n) tg of None \<Rightarrow> [] | Some e \<Rightarrow> e) ''name'' (PStr [])))"

section \<open>Radios\<close>

definition RADIO_REGISTRATION_TIMEOUT_SECONDS :: int where "RADIO_REGISTRATION_TIMEOUT_SECONDS = 70 * 60"

definition shown_radios :: "real \<Rightarrow> tracker \<Rightarrow> (int \<times> radio) list" where
  "shown_radios now s =
     sort_key fst (filter (\<lambda>(i, r). \<not> of_int RADIO_REGISTRATION_TIMEOUT_SECONDS < now - radio_seen r) (radios s))"

definition signal_payload :: "names \<Rightarrow> signal_level \<Rightarrow> pyval" where
  "signal_payload n l = PDict [(''kind'', PStr ''quantarRelative''), (''current'', PInt (current l)), (''average'', PFloat (average l)),
     (''minimum'', PInt (minimum l)), (''maximum'', PInt (maximum l)), (''samples'', PInt (int (samples l))),
     (''updatedAt'', PStr (date_text n (signal_at l)))]"

definition signal_item :: "names \<Rightarrow> signal_level option \<Rightarrow> (string \<times> pyval) list" where
  "signal_item n x = (case x of None \<Rightarrow> [] | Some l \<Rightarrow> [(''signal'', signal_payload n l)])"

definition radio_payload :: "names \<Rightarrow> tracker \<Rightarrow> int \<times> radio \<Rightarrow> pyval" where
  "radio_payload n s x = (case x of (i, r) \<Rightarrow> PDict (
     [(''id'', PInt i), (''registered'', PBool True), (''subscriberIp'', PStr (subscriber_ip r)), (''serverIp'', PStr (server_ip r)),
      (''registeredAt'', or_none (date_text n) (Some (registered_at r))), (''lastSeen'', or_none (date_text n) (Some (radio_seen r))),
      (''tms'', PBool (tms r)), (''gpsStatus'', PStr (gps_status r)), (''gpsLastAt'', or_none (date_text n) (gps_last_at r))] @
     signal_item n (radio_signal r) @
     [(''label'', PStr (label_of n i)), (''identity'', identity_payload n i (label_of n i)),
      (''position'', case map_of (positions s) i of
         None \<Rightarrow> PNone
       | Some (la, lo, t) \<Rightarrow> PDict [(''latitude'', PFloat la), (''longitude'', PFloat lo), (''updatedAt'', PStr (date_text n t))])]))"

section \<open>Calls\<close>

definition mappings_by_p25 :: "tracker \<Rightarrow> (int, int) pydict" where
  "mappings_by_p25 s = fold (\<lambda>(p25, bm). AList.update p25 bm) (mappings s) []"

definition direction_name :: "direction \<Rightarrow> string" where
  "direction_name d = (case d of Uplink \<Rightarrow> ''uplink'' | Downlink \<Rightarrow> ''downlink'')"

definition call_payload :: "names \<Rightarrow> real \<Rightarrow> tracker \<Rightarrow> voice_call \<Rightarrow> pyval" where
  "call_payload n now s c =
     (let mapped = map_of (mappings_by_p25 s) (call_group c);
          ended = or_none (date_text n) (ended_at c) in
      PDict ([(''id'', PStr (show_int (py_trunc (begun_at c * 1000)) @ ''-'' @ direction_name (direction c))),
        (''direction'', PStr (direction_name (direction c))), (''sourceId'', PInt (source_id c)), (''talkgroup'', PInt (call_group c)),
        (''startedAt'', PStr (date_text n (begun_at c))), (''endedAt'', ended),
        (''durationSeconds'', PFloat (if ended = PNone then round1 (now - begun_at c) else duration_seconds c))] @
       (case end_reason c of None \<Rightarrow> [] | Some r \<Rightarrow> [(''endReason'', PStr r)]) @
       signal_item n (call_signal c) @
       [(''sourceLabel'', PStr (label_of n (source_id c))), (''mappedTalkgroup'', case mapped of None \<Rightarrow> PNone | Some t \<Rightarrow> PInt t),
        (''sourceIdentity'', identity_payload n (source_id c) (label_of n (source_id c))),
        (''talkgroupName'', PStr (talkgroup_name n (case mapped of Some t \<Rightarrow> if t \<noteq> 0 then t else call_group c | None \<Rightarrow> call_group c)))]))"

definition shown_active :: "tracker \<Rightarrow> voice_call list" where
  "shown_active s = sort_key begun_at (map snd (active_calls s))"

section \<open>Talkgroups\<close>

definition add_key :: "'k \<Rightarrow> 'k list \<Rightarrow> 'k list" where
  "add_key k ks = (if k \<in> set ks then ks else ks @ [k])"

text \<open>The dynamic talkgroups of the profile and those with activity that has not run out.\<close>

definition unsorted_dynamic :: "real \<Rightarrow> tracker \<Rightarrow> (int \<times> int) list" where
  "unsorted_dynamic now s = fold (\<lambda>(tg, last_active) ks.
       if now - last_active \<le> of_int (dynamic_timeout s) \<and> tg \<notin> fst ` set ks then add_key (tg, 0) ks else ks)
     (dynamic_activity s) (fold add_key (dynamic_subscriptions s) [])"

definition shown_dynamic :: "real \<Rightarrow> tracker \<Rightarrow> (int \<times> int) list" where
  "shown_dynamic now s = sort_key snd (sort_key fst (unsorted_dynamic now s))"

definition dynamic_payload :: "names \<Rightarrow> real \<Rightarrow> tracker \<Rightarrow> int \<times> int \<Rightarrow> pyval" where
  "dynamic_payload n now s k =
     (let active = (case map_of (dynamic_activity s) (fst k) of Some t \<Rightarrow> if t = 0 then None else Some t | None \<Rightarrow> None) in
      PDict [(''talkgroup'', PInt (fst k)), (''slot'', PInt (snd k)),
        (''lastActiveAt'', case active of None \<Rightarrow> PNone | Some t \<Rightarrow> PStr (date_text n t)),
        (''expiresAt'', case active of None \<Rightarrow> PNone | Some t \<Rightarrow> PStr (date_text n (t + of_int (dynamic_timeout s)))),
        (''remainingSeconds'', case active of None \<Rightarrow> PNone
           | Some t \<Rightarrow> PInt (max 0 (py_trunc (t + of_int (dynamic_timeout s) - now)))),
        (''name'', PStr (talkgroup_name n (fst k)))])"

definition subscription_payload :: "names \<Rightarrow> int \<times> int \<Rightarrow> pyval" where
  "subscription_payload n k = PDict [(''talkgroup'', PInt (fst k)), (''slot'', PInt (snd k)), (''name'', PStr (talkgroup_name n (fst k)))]"

section \<open>Services\<close>

definition critical_services :: "pyval list \<Rightarrow> pyval list" where
  "critical_services = filter (\<lambda>v. case v of PDict d \<Rightarrow> truthy (dget d ''critical'' (PBool True)) | _ \<Rightarrow> False)"

definition running_services :: "pyval list \<Rightarrow> pyval list" where
  "running_services = filter (\<lambda>v. case v of PDict d \<Rightarrow> truthy (dget d ''running'' PNone) | _ \<Rightarrow> False)"

definition system_state :: "pyval list \<Rightarrow> string" where
  "system_state services = (let critical = critical_services services in
     if critical \<noteq> [] \<and> length (running_services critical) = length critical then ''healthy'' else ''degraded'')"

section \<open>The snapshot\<close>

definition status_payload :: "names \<Rightarrow> pyval \<Rightarrow> pyval list \<Rightarrow> real \<Rightarrow> tracker \<Rightarrow> pyval" where
  "status_payload n directory_status services now s =
     (let shown = shown_radios now s; active = shown_active s; dynamic = shown_dynamic now s;
          critical = critical_services services in
      PDict [
       (''serverTime'', PStr (date_text n now)),
       (''summary'', PDict [(''registeredRadios'', PInt (int (length shown))), (''activeCalls'', PInt (int (length active))),
          (''runningServices'', PInt (int (length (running_services critical)))), (''totalServices'', PInt (int (length critical))),
          (''subscribedTalkgroups'', PInt (int (length (static_subscriptions s) + length dynamic + length (timed_subscriptions s)))),
          (''systemState'', PStr (system_state services))]),
       (''radioRegistrationTimeoutSeconds'', PInt RADIO_REGISTRATION_TIMEOUT_SECONDS),
       (''brandmeister'', PDict [(''state'', PStr (bm_state s)), (''lastChange'', or_none (date_text n) (bm_last_change s))]),
       (''connection'', PDict [(''arsServerAddress'', PStr (if configured_ars s \<noteq> [] then configured_ars s else observed_ars s)),
          (''talkgroupMappings'', PList (map (\<lambda>(p25, bm). PDict [(''p25'', PInt p25), (''brandmeister'', PInt bm),
             (''name'', PStr (talkgroup_name n bm))]) (sort_key fst (mappings_by_p25 s))))]),
       (''talkgroups'', PDict [
          (''status'', PStr (if (case profile_error s of None \<Rightarrow> False | Some m \<Rightarrow> m \<noteq> []) then ''stale''
             else if or_none (date_text n) (profile_updated_at s) \<noteq> PNone then ''ok'' else ''loading'')),
          (''lastUpdated'', or_none (date_text n) (profile_updated_at s)),
          (''error'', case profile_error s of None \<Rightarrow> PNone | Some m \<Rightarrow> PStr m),
          (''dynamicTimeoutSeconds'', PInt (dynamic_timeout s)),
          (''static'', PList (map (subscription_payload n) (static_subscriptions s))),
          (''dynamic'', PList (map (dynamic_payload n now s) dynamic)),
          (''timed'', PList (map (subscription_payload n) (timed_subscriptions s)))]),
       (''identityDirectory'', directory_status),
       (''radios'', PList (map (radio_payload n s) shown)),
       (''activeCalls'', PList (map (call_payload n now s) active)),
       (''recentCalls'', PList (take 30 (map (call_payload n now s) (call_history s)))),
       (''services'', PList services)])"

text \<open>The times that a snapshot formats, in the order it does: those of the radios, of the calls, also of the finished ones that
  it will not show, of the dynamic talkgroups, and its own.\<close>

definition signal_dates :: "signal_level option \<Rightarrow> real list" where
  "signal_dates x = (case x of None \<Rightarrow> [] | Some l \<Rightarrow> [signal_at l])"

definition set_dates :: "real option list \<Rightarrow> real list" where
  "set_dates ts = concat (map (\<lambda>t. case t of None \<Rightarrow> [] | Some x \<Rightarrow> if x = 0 then [] else [x]) ts)"

definition radio_dates :: "tracker \<Rightarrow> int \<times> radio \<Rightarrow> real list" where
  "radio_dates s x = (case x of (i, r) \<Rightarrow> (case map_of (positions s) i of None \<Rightarrow> [] | Some (la, lo, t) \<Rightarrow> [t]) @
     set_dates [Some (registered_at r), Some (radio_seen r), gps_last_at r] @ signal_dates (radio_signal r))"

definition call_dates :: "voice_call \<Rightarrow> real list" where
  "call_dates c = begun_at c # set_dates [ended_at c] @ signal_dates (call_signal c)"

definition dynamic_dates :: "tracker \<Rightarrow> int \<times> int \<Rightarrow> real list" where
  "dynamic_dates s k = (case map_of (dynamic_activity s) (fst k) of
     None \<Rightarrow> [] | Some t \<Rightarrow> if t = 0 then [] else [t, t + of_int (dynamic_timeout s)])"

definition snapshot_dates :: "real \<Rightarrow> tracker \<Rightarrow> real list" where
  "snapshot_dates now s =
     concat (map (radio_dates s) (filter (\<lambda>(i, r). \<not> of_int RADIO_REGISTRATION_TIMEOUT_SECONDS < now - radio_seen r) (radios s))) @
     concat (map call_dates (shown_active s @ call_history s)) @
     concat (map (dynamic_dates s) (unsorted_dynamic now s)) @ [now] @ set_dates [bm_last_change s, profile_updated_at s]"

definition state_snapshot :: "names \<Rightarrow> pyval \<Rightarrow> pyval list \<Rightarrow> real \<Rightarrow> (tracker, pyval) act" where
  "state_snapshot n directory_status services now =
     thenA (upd (expire_stale_calls now)) (readA (\<lambda>s. liftE (bindE (mapE (iso n) (snapshot_dates now s)) (\<lambda>_.
       Inr (status_payload n directory_status services now s)))))"

text \<open>\<^verbatim>\<open>status\<close>: the names the directory shows go into the snapshot, and the ids of the snapshot back into the directory.\<close>

definition directory_payload :: "names \<Rightarrow> directory \<Rightarrow> pyval" where
  "directory_payload n d = PDict [(''state'', PStr (directory_state d)), (''lastUpdated'', or_none (date_text n) (last_success d)),
     (''error'', case last_error d of None \<Rightarrow> PNone | Some m \<Rightarrow> PStr m),
     (''radioCount'', PInt (int (length (shown_entries (known_radios d))))),
     (''talkgroupCount'', PInt (int (length (shown_entries (known_talkgroups d)))))]"

definition known_names :: "names \<Rightarrow> (int, string) pydict \<Rightarrow> directory \<Rightarrow> names" where
  "known_names n rids d = n\<lparr>labels := map_of rids, radio_names := shown_entries (known_radios d),
     group_names := shown_entries (known_talkgroups d)\<rparr>"

definition application_status ::
  "names \<Rightarrow> rid_source \<Rightarrow> real \<Rightarrow> real \<Rightarrow> (feed \<times> directory \<times> rid_directory, pyval) act" where
  "application_status n src now later = (\<lambda>(f, d, r).
     case mapE (iso n) (set_dates [last_success d]) of
       Inl e \<Rightarrow> (Inl e, (f, d, r))
     | Inr _ \<Rightarrow> (case rid_snapshot src r of
         (Inl e, r') \<Rightarrow> (Inl e, (f, d, r'))
       | (Inr rids, r') \<Rightarrow>
           (case state_snapshot (known_names n rids d) (directory_payload n d) (services_shown f) now (view f) of
              (Inl e, v) \<Rightarrow> (Inl e, (f\<lparr>view := v\<rparr>, d, r'))
            | (Inr shown, v) \<Rightarrow> (case observe later shown d of
                (Inl e, d') \<Rightarrow> (Inl e, (f\<lparr>view := v\<rparr>, d', r'))
              | (Inr x, d') \<Rightarrow> (Inr shown, (f\<lparr>view := v\<rparr>, d', r'))))))"

section \<open>What is shown\<close>

lemma finish_call_shown: "active_calls (finish_call d t dur reason s) = AList.delete d (active_calls s)"
  by (auto simp: finish_call_def push_history_def publish_radio_rssi_def Let_def map_of_None_iff
      split: option.splits)

lemma expire_fold_active:
  "set (active_calls (fold (\<lambda>(d, c) s. if of_int CALL_STALE_TIMEOUT_SECONDS < now - begun_at c
       then finish_call d now None ''timeout'' s else s) xs s)) \<subseteq>
   {x \<in> set (active_calls s). \<forall>(d, c) \<in> set xs. of_int CALL_STALE_TIMEOUT_SECONDS < now - begun_at c \<longrightarrow> d \<noteq> fst x}"
proof (induction xs arbitrary: s)
  case (Cons x xs)
  obtain d c where x: "x = (d, c)" by (cases x) auto
  let ?s = "if of_int CALL_STALE_TIMEOUT_SECONDS < now - begun_at c then finish_call d now None ''timeout'' s else s"
  have "set (active_calls ?s) \<subseteq> {y \<in> set (active_calls s). of_int CALL_STALE_TIMEOUT_SECONDS < now - begun_at c \<longrightarrow> d \<noteq> fst y}"
    by (auto simp: finish_call_shown dest: in_set_deleteD)
  then show ?case using Cons [of ?s] x by fastforce
qed auto

lemma expire_active:
  assumes "(d, c) \<in> set (active_calls (expire_stale_calls now s))"
  shows "(d, c) \<in> set (active_calls s) \<and> now - begun_at c \<le> 75"
  using assms expire_fold_active [of now "active_calls s" s]
  by (fastforce simp: expire_stale_calls_def CALL_STALE_TIMEOUT_SECONDS_def)

lemma active_at_most_two:
  assumes "dict_ok (calls :: (direction, voice_call) pydict)"
  shows "length calls \<le> 2"
proof -
  have "set (map fst calls) \<subseteq> {Uplink, Downlink}" using direction.exhaust by auto
  then have "card (set (map fst calls)) \<le> card {Uplink, Downlink}" by (intro card_mono) simp_all
  then show ?thesis using distinct_card [of "map fst calls"] assms by (simp add: dict_ok_def)
qed

lemma shown_radios_sorted:
  assumes "dict_ok (radios s)"
  shows "sorted_wrt (<) (map fst (shown_radios now s)) \<and>
    set (shown_radios now s) = {(i, r). (i, r) \<in> set (radios s) \<and> now - radio_seen r \<le> 4200}"
proof -
  have "distinct (map fst (shown_radios now s))"
    using assms by (auto simp: shown_radios_def dict_ok_def distinct_map intro: inj_on_subset)
  moreover have "sorted (map fst (shown_radios now s))" by (simp add: shown_radios_def)
  ultimately show ?thesis
    by (auto simp: strict_sorted_iff shown_radios_def RADIO_REGISTRATION_TIMEOUT_SECONDS_def)
qed

section \<open>What the directory learns from it\<close>

lemma listed_in_PDict:
  "listed_in (PDict d) key = (case map_of d key of None \<Rightarrow> Inr [] | Some v \<Rightarrow> py_iter v)"
  by (simp add: listed_in_def split: option.splits)

lemma ids_in_map: "(\<And>x. x \<in> set xs \<Longrightarrow> f (g x) = Inr (h x)) \<Longrightarrow> ids_in f (map g xs) = h ` set xs"
  by (force simp: ids_in_def map_filter_def)

lemma observed_status:
  "\<exists>ts. observed_ids (status_payload n ds services now s) =
     Inr (fst ` set (shown_radios now s) \<union> source_id ` set (shown_active s @ take 30 (call_history s)), ts)"
proof -
  have r: "int_field ''id'' (radio_payload n s x) = Inr (fst x)" for x
    by (cases x) (simp add: int_field_def radio_payload_def)
  have c: "int_field ''sourceId'' (call_payload n now s x) = Inr (source_id x)" for x
    by (simp add: int_field_def call_payload_def Let_def)
  have "ids_in (int_field ''id'') (map (radio_payload n s) (shown_radios now s)) = fst ` set (shown_radios now s)"
    by (rule ids_in_map) (rule r)
  moreover have "ids_in (int_field ''sourceId'') (map (call_payload n now s) (shown_active s @ take 30 (call_history s))) =
      source_id ` set (shown_active s @ take 30 (call_history s))"
    by (rule ids_in_map) (rule c)
  ultimately show ?thesis
    unfolding observed_ids_def status_payload_def Let_def
    by (simp add: listed_in_PDict take_map)
qed

section \<open>The property\<close>

lemma active_distinct:
  assumes "tracker_ok s" shows "distinct (map direction (shown_active s))"
proof -
  have k: "direction c = d" if "(d, c) \<in> set (active_calls s)" for d c
    using assms that by (auto simp: tracker_ok_def active_ok_def list_all_iff)
  have "map direction (map snd (active_calls s)) = map fst (active_calls s)" using k by auto
  moreover have "distinct (map fst (active_calls s))" using assms by (simp add: tracker_ok_def active_ok_def dict_ok_def)
  ultimately have "distinct (map direction (map snd (active_calls s)))" by (simp only:)
  then show ?thesis unfolding shown_active_def distinct_map [of direction] by simp
qed

text \<open>The times a request for the status formats.\<close>

definition status_dates :: "real \<Rightarrow> feed \<Rightarrow> directory \<Rightarrow> real list" where
  "status_dates now f d = set_dates [last_success d] @ snapshot_dates now (expire_stale_calls now (view f))"

lemma mapE_all: "\<forall>x \<in> set xs. \<exists>y. f x = Inr y \<Longrightarrow> \<exists>ys. mapE f xs = Inr ys"
  by (induction xs) (auto simp: bindE_def)

lemma mapE_fails: "x \<in> set xs \<Longrightarrow> f x = Inl e \<Longrightarrow> \<exists>e'. mapE f xs = Inl e'"
  by (induction xs) (auto simp: bindE_def split: sum.splits)

text \<open>C16: a request for the status is answered, when the radio list can be read and every time it has to show is one of the
  calendar (\<^verbatim>\<open>bad_date_blocks_status\<close> is what happens otherwise). The answer lists, by ascending id, exactly the radios that
  were heard within the last 70 minutes, and at most one running call of each direction, none of them older than 75 seconds;
  every radio it shows, in the list or as the source of a call, whose name is not known will be looked up.\<close>

theorem status_shows_station:
  assumes "tracker_ok (view f)" "rid_snapshot src r = (Inr rids, r')" "\<forall>t \<in> set (status_dates now f d). \<exists>x. iso n t = Inr x"
  shows "\<exists>d'. let s = expire_stale_calls now (view f) in
    application_status n src now later (f, d, r) =
      (Inr (status_payload (known_names n rids d) (directory_payload n d) (services_shown f) now s), (f\<lparr>view := s\<rparr>, d', r')) \<and>
    sorted_wrt (<) (map fst (shown_radios now s)) \<and>
    set (shown_radios now s) = {(i, r). (i, r) \<in> set (radios s) \<and> now - radio_seen r \<le> 4200} \<and>
    distinct (map direction (shown_active s)) \<and> length (shown_active s) \<le> 2 \<and>
    (\<forall>c \<in> set (shown_active s). ended_at c = None \<and> now - begun_at c \<le> 75) \<and>
    (\<forall>i \<in> fst ` set (shown_radios now s) \<union> source_id ` set (shown_active s @ take 30 (call_history s)).
       i \<noteq> 0 \<and> map_of (known_radios d) i = None \<longrightarrow> i \<in> pending_radios d')"
proof -
  let ?s = "expire_stale_calls now (view f)"
  let ?n = "known_names n rids d"
  let ?p = "status_payload ?n (directory_payload n d) (services_shown f) now ?s"
  let ?ids = "fst ` set (shown_radios now ?s) \<union> source_id ` set (shown_active ?s @ take 30 (call_history ?s))"
  have ok: "tracker_ok ?s" by (rule expire_stale_ok) (rule assms)
  obtain ts where o: "observed_ids ?p = Inr (?ids, ts)" using observed_status by blast
  let ?d = "d\<lparr>pending_radios := pending_radios d \<union> {i \<in> ?ids - {0}. needs_refresh (map_of (known_radios d) i) later},
      pending_talkgroups := pending_talkgroups d \<union> {i \<in> ts - {0}. needs_refresh (map_of (known_talkgroups d) i) later}\<rparr>"
  have ob: "observe later ?p d = (Inr (), ?d)" by (simp only: observe_def o) simp
  obtain xs ys where dates: "mapE (iso n) (set_dates [last_success d]) = Inr xs" "mapE (iso n) (snapshot_dates now ?s) = Inr ys"
    using mapE_all [of "set_dates [last_success d]" "iso n"] mapE_all [of "snapshot_dates now ?s" "iso n"] assms(3)
    by (auto simp: status_dates_def)
  have i: "iso ?n = iso n" by (simp add: known_names_def)
  have "state_snapshot ?n (directory_payload n d) (services_shown f) now (view f) = (Inr ?p, ?s)"
    by (simp add: state_snapshot_def thenA_def bindA_def i dates(2))
  then have a: "application_status n src now later (f, d, r) = (Inr ?p, (f\<lparr>view := ?s\<rparr>, ?d, r'))"
    by (simp add: application_status_def dates(1) assms(2) ob)
  have pend: "\<forall>i \<in> ?ids. i \<noteq> 0 \<and> map_of (known_radios d) i = None \<longrightarrow> i \<in> pending_radios ?d"
    by (auto simp: needs_refresh_def)
  have act: "length (shown_active ?s) \<le> 2"
    using active_at_most_two [of "active_calls ?s"] ok by (simp add: shown_active_def tracker_ok_def active_ok_def)
  have run: "ended_at c = None \<and> now - begun_at c \<le> 75" if c: "c \<in> set (shown_active ?s)" for c
  proof -
    obtain d where d: "(d, c) \<in> set (active_calls ?s)" using c by (auto simp: shown_active_def)
    then show ?thesis using expire_active [OF d] ok by (auto simp: tracker_ok_def active_ok_def list_all_iff)
  qed
  have rad: "dict_ok (radios ?s)" using ok by (simp add: tracker_ok_def)
  show ?thesis unfolding Let_def
    by (intro exI [of _ ?d] conjI ballI) (use a pend act run shown_radios_sorted [OF rad] active_distinct [OF ok] in blast)+
qed

text \<open>A time outside the calendar (the start of a call is a number that the status file of the audio worker gives) makes every
  request for the status raise, for as long as the call is in the table or among the last eighty.\<close>

lemma bad_date_blocks_status:
  assumes "c \<in> set (map snd (active_calls (expire_stale_calls now (view f))) @ call_history (expire_stale_calls now (view f)))"
    and "iso n (begun_at c) = Inl e"
  shows "\<exists>e' st. application_status n src now later (f, d, r) = (Inl e', st)"
proof -
  let ?s = "expire_stale_calls now (view f)"
  have "begun_at c \<in> set (snapshot_dates now ?s)"
    using assms(1) by (auto simp: snapshot_dates_def call_dates_def shown_active_def)
  then obtain e' where "mapE (iso n) (snapshot_dates now ?s) = Inl e'" using mapE_fails assms(2) by metis
  then have "\<exists>v. state_snapshot (known_names n rids d) p sv now (view f) = (Inl e', v)" for rids p sv
    by (simp add: state_snapshot_def thenA_def bindA_def known_names_def)
  then show ?thesis
    by (auto simp: application_status_def split: sum.splits prod.splits) (metis prod.inject sum.distinct(1))+
qed

definition demo_names :: names where
  "demo_names = \<lparr>iso = (\<lambda>t. if t < 10 ^ 12 then Inr [] else Inl (ValueError ''year is out of range'')), value_text = (\<lambda>_. []),
     labels = (\<lambda>_. None), radio_names = [], group_names = []\<rparr>"

definition demo_rids :: rid_source where
  "demo_rids = \<lparr>rid_stat = Inr 7, rid_rows = Inr [[''42'', [], '' Werkstatt ''], [''id'', ''x'', ''y''], [''7'']]\<rparr>"

definition demo_radio :: radio where
  "demo_radio = \<lparr>subscriber_ip = ''10.0.0.9'', server_ip = ''10.0.0.2'', registered_at = 5, radio_seen = 50, tms = True,
     gps_status = ''waiting'', gps_last_at = None, radio_signal = None\<rparr>"

lemma demo_rids_read:
  "rid_snapshot demo_rids \<lparr>rid_mtime = - 1, rid_entries = []\<rparr> =
     (Inr [(42, ''Werkstatt'')], \<lparr>rid_mtime = 7, rid_entries = [(42, ''Werkstatt'')]\<rparr>)"
  by code_simp

lemma status_shows_station_witness:
  "\<exists>shown f' d' r'. application_status demo_names demo_rids 100 101
      (demo_feed\<lparr>view := tracker_init\<lparr>radios := [(42, demo_radio)]\<rparr>\<rparr>, demo_directory, \<lparr>rid_mtime = - 1, rid_entries = []\<rparr>) =
      (Inr shown, (f', d', r')) \<and> 42 \<in> pending_radios d'"
proof -
  let ?f = "demo_feed\<lparr>view := tracker_init\<lparr>radios := [(42, demo_radio)]\<rparr>\<rparr>"
  have ok: "tracker_ok (view ?f)" using tracker_ok_init by (simp add: tracker_ok_def dict_ok_def)
  have e: "expire_stale_calls 100 (view ?f) = view ?f" by (rule expire_stale_none) (simp add: tracker_init_def)
  have "set (status_dates 100 ?f demo_directory) \<subseteq> {5, 50, 100}"
    unfolding status_dates_def e
    by (auto simp: snapshot_dates_def radio_dates_def set_dates_def signal_dates_def demo_radio_def tracker_init_def demo_directory_def
        shown_active_def unsorted_dynamic_def split: if_splits)
  then have dates: "\<forall>t \<in> set (status_dates 100 ?f demo_directory). \<exists>x. iso demo_names t = Inr x"
    by (auto simp: demo_names_def)
  have "(42, demo_radio) \<in> set (radios (view ?f))" "100 - radio_seen demo_radio \<le> 4200" by (simp_all add: demo_radio_def)
  moreover obtain d' shown r' where a: "application_status demo_names demo_rids 100 101 (?f, demo_directory, \<lparr>rid_mtime = - 1, rid_entries = []\<rparr>) =
      (Inr shown, (?f, d', r'))"
    "set (shown_radios 100 (view ?f)) = {(i, r). (i, r) \<in> set (radios (view ?f)) \<and> 100 - radio_seen r \<le> 4200}"
    "\<forall>i \<in> fst ` set (shown_radios 100 (view ?f)). i \<noteq> 0 \<and> map_of (known_radios demo_directory) i = None \<longrightarrow> i \<in> pending_radios d'"
    using status_shows_station [OF ok demo_rids_read dates, where later = 101] unfolding Let_def e by auto
  ultimately have "(42, demo_radio) \<in> set (shown_radios 100 (view ?f))" by simp
  then have "42 \<in> fst ` set (shown_radios 100 (view ?f))" by force
  moreover have "map_of (known_radios demo_directory) 42 = None" by (simp add: demo_directory_def)
  ultimately have "42 \<in> pending_radios d'" using bspec [OF a(3), of 42] by simp
  then show ?thesis using a(1) by blast
qed

end
