(* ===== verification/Setup_Migrate.thy ===== *)
theory Setup_Migrate
  imports Routing_Config Brew_Transport
begin

text \<open>
  \<^verbatim>\<open>scripts/enable_brew_audio.py\<close>, which moves an installed station from BrandMeister voice to the BREW audio worker: it
  edits the configuration files of the bridges, the SMS bridge and the dashboard and writes that of the audio worker. A file is
  the document that parsing it gives (what the YAML and JSON writers write parses to what they were given); writing one may
  fail. Paths are the texts of the resolved paths.
\<close>

section \<open>Documents\<close>

type_synonym doc = "(string \<times> pyval) list"

text \<open>\<^verbatim>\<open>s.replace(old, new)\<close>, for a text \<open>old\<close> that is not empty.\<close>

function str_replace :: "string \<Rightarrow> string \<Rightarrow> string \<Rightarrow> string" where
  "str_replace old new s =
     (if old \<noteq> [] \<and> prefix old s then new @ str_replace old new (drop (length old) s)
      else case s of [] \<Rightarrow> [] | c # cs \<Rightarrow> c # str_replace old new cs)"
  by pat_completeness auto
termination
  by (relation "measure (\<lambda>(old, new, s). length s)") (auto simp: prefix_def)

declare str_replace.simps [simp del]

definition DEFAULT_RUNTIME :: string where "DEFAULT_RUNTIME = ''/home/quantar/quantar-runtime''"
definition DEFAULT_INSTALL :: string where "DEFAULT_INSTALL = ''/home/quantar/quantarbridge''"

definition replace_path :: "string \<Rightarrow> string \<Rightarrow> string \<Rightarrow> string" where
  "replace_path runtime install s = str_replace DEFAULT_INSTALL install (str_replace DEFAULT_RUNTIME runtime s)"

fun replace_paths :: "string \<Rightarrow> string \<Rightarrow> pyval \<Rightarrow> pyval" where
  "replace_paths runtime install (PDict d) = PDict (map (\<lambda>(k, v). (k, replace_paths runtime install v)) d)"
| "replace_paths runtime install (PList vs) = PList (map (replace_paths runtime install) vs)"
| "replace_paths runtime install (PStr s) = PStr (replace_path runtime install s)"
| "replace_paths runtime install v = v"

text \<open>\<^verbatim>\<open>d.setdefault(k, {})[key] = v\<close> and \<^verbatim>\<open>d.setdefault(k, {}).update(vs)\<close>\<close>

definition put_in :: "string \<Rightarrow> string \<Rightarrow> pyval \<Rightarrow> doc \<Rightarrow> py_error + doc" where
  "put_in k key v d = (case dget d k (PDict []) of
     PDict e \<Rightarrow> Inr (AList.update k (PDict (AList.update key v e)) d)
   | _ \<Rightarrow> Inl (TypeError ''item assignment''))"

definition put_all :: "doc \<Rightarrow> doc \<Rightarrow> doc" where
  "put_all vs d = fold (\<lambda>(k, v). AList.update k v) vs d"

definition update_in :: "string \<Rightarrow> doc \<Rightarrow> doc \<Rightarrow> py_error + doc" where
  "update_in k vs d = (case dget d k (PDict []) of
     PDict e \<Rightarrow> Inr (AList.update k (PDict (put_all vs e)) d)
   | _ \<Rightarrow> Inl (AttributeError ''update''))"

section \<open>Files\<close>

record store =
  files :: "string \<rightharpoonup> pyval"
  writes :: nat
  folders :: "string set"

record paths =
  runtime_dir :: string
  install_dir :: string
  codec_path :: string

definition beside :: "string \<Rightarrow> string \<Rightarrow> string" where "beside dir name = dir @ ''/'' @ name"

definition read_doc :: "string \<Rightarrow> (store, doc) act" where
  "read_doc path = readA (\<lambda>s. liftE (case files s path of
     Some (PDict d) \<Rightarrow> Inr d | Some _ \<Rightarrow> Inl (ValueError ''invalid root'') | None \<Rightarrow> Inl (OSError ''FileNotFoundError'')))"

text \<open>An empty YAML file reads as no entries.\<close>

definition read_yaml_doc :: "string \<Rightarrow> (store, doc) act" where
  "read_yaml_doc path = readA (\<lambda>s. liftE (case files s path of
     Some v \<Rightarrow> (case v of PDict d \<Rightarrow> Inr d | _ \<Rightarrow> if truthy v then Inl (ValueError ''invalid YAML root'') else Inr [])
   | None \<Rightarrow> Inl (OSError ''FileNotFoundError'')))"

definition store_doc :: "(nat \<Rightarrow> py_error option) \<Rightarrow> string \<Rightarrow> pyval \<Rightarrow> (store, unit) act" where
  "store_doc fate path v = readA (\<lambda>s. thenA (upd (\<lambda>s. s\<lparr>writes := writes s + 1\<rparr>))
     (case fate (writes s) of Some e \<Rightarrow> raiseA e | None \<Rightarrow> upd (\<lambda>s. s\<lparr>files := (files s)(path \<mapsto> v)\<rparr>)))"

definition backup_name :: "string \<Rightarrow> string \<Rightarrow> string" where
  "backup_name stamp path = path @ ''.pre-brew-audio-'' @ stamp"

definition backup_file :: "(nat \<Rightarrow> py_error option) \<Rightarrow> string \<Rightarrow> string \<Rightarrow> (store, unit) act" where
  "backup_file fate stamp path = readA (\<lambda>s. case files s path of
     None \<Rightarrow> ret () | Some v \<Rightarrow> store_doc fate (backup_name stamp path) v)"

section \<open>The edits\<close>

definition UPLINK_PROFILE :: doc where
  "UPLINK_PROFILE = [(''identity'', PStr ''BRIDGE-P25-PCM-ONLY''), (''txMode'', PInt 1), (''rxAudioGain'', PFloat 1),
     (''vocoderDecoderAudioGain'', PFloat 1), (''vocoderDecoderAutoGain'', PBool False), (''vocoderDecoderUvQuality'', PInt 12),
     (''txAudioGain'', PFloat 2), (''vocoderEncoderAudioGain'', PFloat 0), (''dmrEncodeHighCutHz'', PInt 2500), (''dropTimeMs'', PInt 600),
     (''udpAudio'', PBool True), (''udpMetadata'', PBool True), (''udpSendPort'', PInt 31120), (''udpSendAddress'', PStr ''127.0.0.1''),
     (''udpReceivePort'', PInt 31122), (''udpReceiveAddress'', PStr ''127.0.0.1''), (''udpRTPFrames'', PBool True),
     (''udpIgnoreRTPTiming'', PBool True), (''udpRTPContinuousSeq'', PBool False), (''udpUseULaw'', PBool False), (''udpUsrp'', PBool False),
     (''udpFrameTiming'', PBool False)]"

definition DOWNLINK_PROFILE :: doc where
  "DOWNLINK_PROFILE = [(''identity'', PStr ''BRIDGE-PCM-P25-ONLY''), (''txMode'', PInt 2), (''rxAudioGain'', PFloat (3 / 10)),
     (''vocoderDecoderAudioGain'', PFloat (4 / 10)), (''vocoderDecoderAutoGain'', PBool False), (''vocoderDecoderUvQuality'', PInt 12),
     (''txAudioGain'', PFloat (11 / 10)), (''vocoderEncoderAudioGain'', PFloat 0), (''p25EncodePresenceGain'', PFloat 0),
     (''p25EncodeHighCutHz'', PInt 2500), (''p25EncodeAgc'', PBool False), (''p25EncodeAgcPeakLimit'', PInt 24000), (''dropTimeMs'', PInt 500),
     (''udpAudio'', PBool True), (''udpMetadata'', PBool True), (''udpSendPort'', PInt 31123), (''udpSendAddress'', PStr ''127.0.0.1''),
     (''udpReceivePort'', PInt 31121), (''udpReceiveAddress'', PStr ''127.0.0.1''), (''udpRTPFrames'', PBool True),
     (''udpIgnoreRTPTiming'', PBool True), (''udpRTPContinuousSeq'', PBool False), (''udpUseULaw'', PBool False), (''udpUsrp'', PBool False),
     (''udpFrameTiming'', PBool False)]"

definition edit_yaml :: "(nat \<Rightarrow> py_error option) \<Rightarrow> string \<Rightarrow> (doc \<Rightarrow> py_error + doc) \<Rightarrow> (store, unit) act" where
  "edit_yaml fate path edit = bindA (read_yaml_doc path) (\<lambda>d. bindA (liftE (edit d)) (\<lambda>d. store_doc fate path (PDict d)))"

definition update_audio_profiles :: "(nat \<Rightarrow> py_error option) \<Rightarrow> paths \<Rightarrow> (store, unit) act" where
  "update_audio_profiles fate p =
     thenA (edit_yaml fate (beside (runtime_dir p) ''dvmbridge-p25-to-dmr.yml'') (update_in ''system'' UPLINK_PROFILE))
       (edit_yaml fate (beside (runtime_dir p) ''dvmbridge-dmr-to-p25.yml'') (update_in ''system'' DOWNLINK_PROFILE))"

definition SERVICE_LABELS :: "(string \<times> string) list" where
  "SERVICE_LABELS = [(''p25-to-dmr'', ''P25 nach BREW PCM''), (''dmr-to-p25'', ''BREW PCM nach P25''),
     (''quantarbridge'', ''BrandMeister Datenbruecke'')]"

definition hashable :: "pyval \<Rightarrow> bool" where
  "hashable v \<longleftrightarrow> (case v of PDict d \<Rightarrow> False | PList vs \<Rightarrow> False | _ \<Rightarrow> True)"

definition relabel :: "string \<Rightarrow> pyval \<Rightarrow> py_error + pyval" where
  "relabel sms_match v = (case v of
     PDict d \<Rightarrow>
       if \<not> hashable (dget d ''id'' PNone) then Inl (TypeError ''unhashable'')
       else let d = (case dget d ''id'' PNone of
           PStr i \<Rightarrow> (case map_of SERVICE_LABELS i of Some l \<Rightarrow> AList.update ''label'' (PStr l) d | None \<Rightarrow> d)
         | _ \<Rightarrow> d) in
         Inr (PDict (if dget d ''id'' PNone = PStr ''sms-bridge'' then AList.update ''processMatch'' (PStr sms_match) d else d))
   | _ \<Rightarrow> Inr v)"

definition is_brew_audio :: "pyval \<Rightarrow> bool" where
  "is_brew_audio v \<longleftrightarrow> (case v of PDict d \<Rightarrow> dget d ''id'' PNone = PStr ''brew-audio'' | _ \<Rightarrow> False)"

definition script_call :: "paths \<Rightarrow> string \<Rightarrow> string \<Rightarrow> string" where
  "script_call p script config = install_dir p @ ''/deploy/scripts/'' @ script @ '' --config '' @ config"

definition brew_audio_service :: "paths \<Rightarrow> pyval" where
  "brew_audio_service p = PDict [(''id'', PStr ''brew-audio''), (''label'', PStr ''TETRAPACK BREW Audio''),
     (''unit'', PStr ''tetrapack-brew-audio.service''), (''userUnit'', PBool True),
     (''processMatch'', PStr (script_call p ''tetrapack_brew_audio.py'' (beside (runtime_dir p) ''tetrapack-brew-audio.json''))),
     (''critical'', PBool True)]"

definition sms_match :: "paths \<Rightarrow> string" where
  "sms_match p = script_call p ''tetrapack_brew_bridge.py'' (beside (runtime_dir p) ''tetrapack-brew-bridge.json'')"

definition edit_services :: "paths \<Rightarrow> doc \<Rightarrow> py_error + doc" where
  "edit_services p d = (case dget d ''serviceUnits'' (PList []) of
     PList vs \<Rightarrow> bindE (mapE (relabel (sms_match p)) vs) (\<lambda>vs.
       Inr (AList.update ''serviceUnits'' (PList (filter (\<lambda>v. \<not> is_brew_audio v) vs @ [brew_audio_service p])) d))
   | _ \<Rightarrow> Inl (TypeError ''serviceUnits''))"

definition edit_sms_restart :: "paths \<Rightarrow> doc \<Rightarrow> doc" where
  "edit_sms_restart p targets = (case dget targets ''sms-bridge'' PNone of
     PDict e \<Rightarrow>
       if dget e ''type'' PNone = PStr ''process''
       then AList.update ''sms-bridge'' (PDict (put_all
         [(''match'', PStr (sms_match p)),
          (''command'', PList [PStr ''/usr/bin/python3'', PStr (install_dir p @ ''/deploy/scripts/tetrapack_brew_bridge.py''),
             PStr ''--config'', PStr (beside (runtime_dir p) ''tetrapack-brew-bridge.json'')])] e)) targets
       else targets
   | _ \<Rightarrow> targets)"

definition edit_dashboard :: "paths \<Rightarrow> doc \<Rightarrow> py_error + doc" where
  "edit_dashboard p d =
     bindE (edit_services p (put_all [(''brewAudioConfig'', PStr (beside (runtime_dir p) ''tetrapack-brew-audio.json'')),
         (''brewAudioStatusFile'', PStr (beside (runtime_dir p) ''brew-audio-status.json''))] d)) (\<lambda>d.
     bindE (put_in ''restartTargets'' ''brew-audio'' (PDict [(''type'', PStr ''systemd-user''), (''unit'', PStr ''tetrapack-brew-audio.service'')]) d) (\<lambda>d.
     Inr (case dget d ''restartTargets'' PNone of
         PDict targets \<Rightarrow> AList.update ''restartTargets'' (PDict (edit_sms_restart p targets)) d
       | _ \<Rightarrow> d)))"

definition update_dashboard :: "(nat \<Rightarrow> py_error option) \<Rightarrow> paths \<Rightarrow> string \<Rightarrow> (store, unit) act" where
  "update_dashboard fate p path =
     bindA (read_doc path) (\<lambda>d. bindA (liftE (edit_dashboard p d)) (\<lambda>d. store_doc fate path (PDict d)))"

section \<open>The migration\<close>

text \<open>What has to hold before anything is touched.\<close>

definition migration_check :: "doc \<Rightarrow> doc \<Rightarrow> py_error + unit" where
  "migration_check brew main =
     bindE (py_get (dget brew ''brew'' (PDict [])) ''enabled'' PNone) (\<lambda>enabled.
     bindE (if truthy enabled then py_get (dget brew ''brew'' (PDict [])) ''username'' PNone else Inr PNone) (\<lambda>user.
     if \<not> truthy user then Inl (ValueError ''BREW must be enabled and have a username before audio migration'')
     else bindE (py_get (dget brew ''brew'' (PDict [])) ''password'' PNone) (\<lambda>password.
       if truthy password then Inr ()
       else bindE (py_get (dget main ''brandmeister'' (PDict [])) ''password'' PNone) (\<lambda>device_password.
         if truthy device_password then Inr ()
         else Inl (ValueError ''no protected BREW or BrandMeister device password is available'')))))"

definition dashboard_path :: "paths \<Rightarrow> (string \<rightharpoonup> pyval) \<Rightarrow> string option" where
  "dashboard_path p fs = find (\<lambda>path. fs path \<noteq> None)
     [beside (runtime_dir p) ''quantar-dashboard.json'', beside (install_dir p) ''deploy/runtime/quantar-dashboard.json'']"

definition audio_document :: "paths \<Rightarrow> doc \<Rightarrow> py_error + doc" where
  "audio_document p template = (case replace_paths (runtime_dir p) (install_dir p) (PDict template) of
     PDict d \<Rightarrow> Inr (put_all [(''existingBrewConfig'', PStr (beside (runtime_dir p) ''tetrapack-brew-bridge.json'')),
       (''codecLibrary'', PStr (codec_path p)), (''smsCommandDir'', PStr (beside (runtime_dir p) ''sms/brew-audio-outbox''))] d)
   | _ \<Rightarrow> Inl (TypeError ''template''))"

text \<open>The edits, once the copies are made.\<close>

definition migration_edits :: "(nat \<Rightarrow> py_error option) \<Rightarrow> paths \<Rightarrow> string option \<Rightarrow> doc \<Rightarrow> doc \<Rightarrow> (store, unit) act" where
  "migration_edits fate p dashboard main brew =
     bindA (liftE (put_in ''brandmeister'' ''voiceEnabled'' (PBool False) main)) (\<lambda>main.
     thenA (store_doc fate (beside (runtime_dir p) ''quantarbridge.yml'') (PDict main))
     (thenA (update_audio_profiles fate p)
     (thenA (store_doc fate (beside (runtime_dir p) ''tetrapack-brew-bridge.json'') (PDict brew))
     (bindA (read_doc (beside (install_dir p) ''deploy/examples/tetrapack-brew-audio.json'')) (\<lambda>template.
     bindA (liftE (audio_document p template)) (\<lambda>audio.
     thenA (store_doc fate (beside (runtime_dir p) ''tetrapack-brew-audio.json'') (PDict audio))
     (case dashboard of None \<Rightarrow> ret () | Some path \<Rightarrow> update_dashboard fate p path)))))))"

definition migrate :: "(nat \<Rightarrow> py_error option) \<Rightarrow> paths \<Rightarrow> string \<Rightarrow> (store, unit) act" where
  "migrate fate p stamp = readA (\<lambda>s.
     let main_config = beside (runtime_dir p) ''quantarbridge.yml'';
         p25_config = beside (runtime_dir p) ''dvmbridge-p25-to-dmr.yml'';
         downlink_config = beside (runtime_dir p) ''dvmbridge-dmr-to-p25.yml'';
         canonical_brew = beside (runtime_dir p) ''tetrapack-brew-bridge.json'';
         legacy_brew = beside (install_dir p) ''deploy/runtime/tetrapack-brew-bridge.json'';
         dashboard = dashboard_path p (files s);
         source_brew = (if files s canonical_brew \<noteq> None then canonical_brew else legacy_brew) in
     if list_ex (\<lambda>path. files s path = None) [main_config, p25_config, downlink_config, source_brew]
     then raiseA (OSError ''FileNotFoundError'')
     else bindA (read_doc source_brew) (\<lambda>brew.
       let brew = AList.update ''brewAudioOutboxDir'' (PStr (beside (runtime_dir p) ''sms/brew-audio-outbox'')) brew in
       bindA (read_yaml_doc main_config) (\<lambda>main.
       bindA (liftE (migration_check brew main)) (\<lambda>_.
       thenA (forA ([main_config, p25_config, downlink_config, canonical_brew] @ (case dashboard of None \<Rightarrow> [] | Some d \<Rightarrow> [d]))
           (\<lambda>path _. backup_file fate stamp path) ())
       (migration_edits fate p dashboard main brew)))))"

section \<open>What a migration writes\<close>

definition base_name :: "string \<Rightarrow> string" where
  "base_name path = rev (takeWhile (\<lambda>c. c \<noteq> CHR ''/'') (rev path))"

lemma base_name_slash: "CHR ''/'' \<notin> set n \<Longrightarrow> base_name (d @ CHR ''/'' # n) = n"
proof -
  assume "CHR ''/'' \<notin> set n"
  then have "takeWhile (\<lambda>c. c \<noteq> CHR ''/'') (rev n @ CHR ''/'' # rev d) = rev n"
    by (subst takeWhile_append2) auto
  then show ?thesis by (simp add: base_name_def)
qed

lemma store_docE:
  assumes "store_doc fate path v s = (Inr (), s')"
  shows "files s' = (files s)(path \<mapsto> v)"
  using assms by (auto simp: store_doc_def thenA_def bindA_def split: option.splits)

lemma read_doc_state: "read_doc path s = (r, s') \<Longrightarrow> s' = s" "read_yaml_doc path s = (r, s') \<Longrightarrow> s' = s"
  by (simp_all add: read_doc_def read_yaml_doc_def)

lemma bindA_InrE:
  assumes "bindA m f s = (Inr y, s')"
  obtains x s1 where "m s = (Inr x, s1)" "f x s1 = (Inr y, s')"
  using assms by (auto simp: bindA_def split: prod.splits sum.splits)

lemma thenA_InrE:
  assumes "thenA m n s = (Inr y, s')"
  obtains x s1 where "m s = (Inr x, s1)" "n s1 = (Inr y, s')"
  using assms unfolding thenA_def by (rule bindA_InrE)

lemma edit_yamlE: "edit_yaml fate path edit s = (Inr (), s') \<Longrightarrow> \<exists>v. files s' = (files s)(path \<mapsto> v)"
  unfolding edit_yaml_def by (elim bindA_InrE) (auto dest: read_doc_state store_docE)

lemma update_dashboardE: "update_dashboard fate p path s = (Inr (), s') \<Longrightarrow> \<exists>v. files s' = (files s)(path \<mapsto> v)"
  unfolding update_dashboard_def by (elim bindA_InrE) (auto dest: read_doc_state store_docE)

lemma update_audio_profilesE:
  "update_audio_profiles fate p s = (Inr (), s') \<Longrightarrow>
   \<exists>v w. files s' = (files s)(beside (runtime_dir p) ''dvmbridge-p25-to-dmr.yml'' \<mapsto> v,
     beside (runtime_dir p) ''dvmbridge-dmr-to-p25.yml'' \<mapsto> w)"
  unfolding update_audio_profiles_def by (elim thenA_InrE) (fastforce dest!: edit_yamlE)

text \<open>The copies that are made first hold the old documents and change no other file.\<close>

lemma backups_kept:
  assumes "forA ps (\<lambda>path _. backup_file fate stamp path) () s = (Inr (), s')"
    and "\<forall>x \<in> set ps. \<forall>y \<in> set ps. backup_name stamp x \<noteq> y"
  shows "(\<forall>x \<in> set ps. files s x \<noteq> None \<longrightarrow> files s' (backup_name stamp x) = files s x) \<and>
    (\<forall>x. x \<notin> backup_name stamp ` set ps \<longrightarrow> files s' x = files s x)"
  using assms
proof (induction ps arbitrary: s)
  case (Cons p ps)
  obtain s1 where s1: "backup_file fate stamp p s = (Inr (), s1)" "forA ps (\<lambda>path _. backup_file fate stamp path) () s1 = (Inr (), s')"
    using Cons.prems(1) by (auto elim: bindA_InrE)
  have f: "files s1 = (case files s p of None \<Rightarrow> files s | Some v \<Rightarrow> (files s)(backup_name stamp p \<mapsto> v))"
    using s1(1) by (auto simp: backup_file_def split: option.splits dest: store_docE)
  have IH: "\<forall>x \<in> set ps. files s1 x \<noteq> None \<longrightarrow> files s' (backup_name stamp x) = files s1 x"
    "\<forall>x. x \<notin> backup_name stamp ` set ps \<longrightarrow> files s' x = files s1 x"
    using Cons.IH [OF s1(2)] Cons.prems(2) by simp_all
  have inj: "backup_name stamp x = backup_name stamp y \<longleftrightarrow> x = y" for x y by (simp add: backup_name_def)
  have same: "files s1 x = files s x" if "x \<in> set (p # ps)" for x
    using f that Cons.prems(2) by (auto split: option.splits)
  show ?case
  proof (intro conjI ballI allI impI)
    fix x assume x: "x \<in> set (p # ps)" "files s x \<noteq> None"
    show "files s' (backup_name stamp x) = files s x"
    proof (cases "x \<in> set ps")
      case True
      then show ?thesis using IH(1) x same [of x] by simp
    next
      case False
      then have "backup_name stamp x \<notin> backup_name stamp ` set ps" using inj by auto
      then show ?thesis using IH(2) f x False by auto
    qed
  next
    fix x assume "x \<notin> backup_name stamp ` set (p # ps)"
    then show "files s' x = files s x" using IH(2) f by (auto split: option.splits)
  qed
qed simp

definition no_slash :: "string \<Rightarrow> bool" where "no_slash n \<longleftrightarrow> CHR ''/'' \<notin> set n"

lemma base_names:
  "no_slash n \<Longrightarrow> base_name (beside d n) = n"
  "no_slash n \<Longrightarrow> no_slash stamp \<Longrightarrow> base_name (backup_name stamp (beside d n)) = n @ ''.pre-brew-audio-'' @ stamp"
  using base_name_slash [of n d] base_name_slash [of "n @ ''.pre-brew-audio-'' @ stamp" d]
  by (auto simp: beside_def backup_name_def no_slash_def)

lemma dashboard_path_base:
  assumes "dashboard_path p fs = Some path"
  shows "\<exists>d. path = beside d ''quantar-dashboard.json''"
proof -
  consider "path = beside (runtime_dir p) ''quantar-dashboard.json''"
    | "path = beside (install_dir p) ''deploy/runtime/quantar-dashboard.json''"
    using assms by (auto simp: dashboard_path_def split: if_splits)
  then show ?thesis
  proof cases
    case 1
    then show ?thesis by blast
  next
    case 2
    then have "path = beside (install_dir p @ ''/deploy/runtime'') ''quantar-dashboard.json''" by (simp add: beside_def)
    then show ?thesis by blast
  qed
qed

text \<open>The files a migration may change besides writing the configuration of the audio worker.\<close>

definition touched_files :: "paths \<Rightarrow> (string \<rightharpoonup> pyval) \<Rightarrow> string list" where
  "touched_files p fs = map (beside (runtime_dir p))
     [''quantarbridge.yml'', ''dvmbridge-p25-to-dmr.yml'', ''dvmbridge-dmr-to-p25.yml'', ''tetrapack-brew-bridge.json''] @
     (case dashboard_path p fs of None \<Rightarrow> [] | Some d \<Rightarrow> [d])"

definition audio_file :: "paths \<Rightarrow> string" where
  "audio_file p = beside (runtime_dir p) ''tetrapack-brew-audio.json''"

definition TOUCHED_NAMES :: "string list" where
  "TOUCHED_NAMES = [''quantarbridge.yml'', ''dvmbridge-p25-to-dmr.yml'', ''dvmbridge-dmr-to-p25.yml'', ''tetrapack-brew-bridge.json'',
     ''quantar-dashboard.json'']"

lemma names_no_slash: "n \<in> set TOUCHED_NAMES \<Longrightarrow> no_slash n" "no_slash ''tetrapack-brew-audio.json''"
  by (auto simp: TOUCHED_NAMES_def no_slash_def)

lemma touched_name:
  assumes "x \<in> set (touched_files p fs)"
  shows "\<exists>d n. x = beside d n \<and> n \<in> set TOUCHED_NAMES"
proof (cases "\<exists>n \<in> set TOUCHED_NAMES. x = beside (runtime_dir p) n")
  case True
  then show ?thesis by blast
next
  case False
  then have "dashboard_path p fs = Some x"
    using assms by (auto simp: touched_files_def TOUCHED_NAMES_def split: option.splits)
  then show ?thesis using dashboard_path_base by (fastforce simp: TOUCHED_NAMES_def)
qed

lemma backup_elsewhere:
  assumes "no_slash stamp" "x \<in> set (touched_files p fs)" "y \<in> set (touched_files p fs) \<or> y = audio_file p"
  shows "backup_name stamp x \<noteq> y"
proof -
  obtain d n where x: "x = beside d n" "n \<in> set TOUCHED_NAMES" using touched_name [OF assms(2)] by blast
  obtain e m where y: "y = beside e m" "m \<in> set (''tetrapack-brew-audio.json'' # TOUCHED_NAMES)"
    using assms(3) touched_name [of y p fs] unfolding audio_file_def list.set(2) by blast
  then have m: "no_slash m" using names_no_slash by auto
  have "base_name (backup_name stamp x) = n @ ''.pre-brew-audio-'' @ stamp"
    using base_names(2) [OF names_no_slash(1) [OF x(2)] assms(1)] x(1) by simp
  moreover have "base_name y = m" using base_names(1) [OF m] y(1) by simp
  moreover have "n @ ''.pre-brew-audio-'' @ stamp \<noteq> m" using x(2) y(2) by (auto simp: TOUCHED_NAMES_def)
  ultimately show ?thesis by auto
qed

text \<open>A migration that is refused has touched nothing.\<close>

lemma refused_untouched:
  assumes "read_yaml_doc (beside (runtime_dir p) ''quantarbridge.yml'') s = (Inr main, s)"
    "read_doc (if files s (beside (runtime_dir p) ''tetrapack-brew-bridge.json'') \<noteq> None
       then beside (runtime_dir p) ''tetrapack-brew-bridge.json'' else beside (install_dir p) ''deploy/runtime/tetrapack-brew-bridge.json'') s = (Inr brew, s)"
    "migration_check (AList.update ''brewAudioOutboxDir'' (PStr (beside (runtime_dir p) ''sms/brew-audio-outbox'')) brew) main = Inl e"
  shows "snd (migrate fate p stamp s) = s"
  using assms by (auto simp: migrate_def Let_def)

section \<open>Nothing is lost\<close>

definition untouched_yet :: "string list \<Rightarrow> (string \<rightharpoonup> pyval) \<Rightarrow> store \<Rightarrow> bool" where
  "untouched_yet xs fs s \<longleftrightarrow> (\<forall>x \<in> set xs. files s x = fs x)"

definition backed_up :: "string \<Rightarrow> string list \<Rightarrow> (string \<rightharpoonup> pyval) \<Rightarrow> store \<Rightarrow> bool" where
  "backed_up stamp xs fs s \<longleftrightarrow> (\<forall>x \<in> set xs. fs x \<noteq> None \<longrightarrow> files s (backup_name stamp x) = fs x)"

definition kept :: "string \<Rightarrow> string list \<Rightarrow> (string \<rightharpoonup> pyval) \<Rightarrow> store \<Rightarrow> bool" where
  "kept stamp xs fs s \<longleftrightarrow> untouched_yet xs fs s \<or> backed_up stamp xs fs s"

lemma keeps_store:
  assumes "\<And>s. P s \<Longrightarrow> P (s\<lparr>writes := writes s + 1\<rparr>)" "\<And>s. P s \<Longrightarrow> P (s\<lparr>files := (files s)(path \<mapsto> v)\<rparr>)"
  shows "keeps P (store_doc fate path v)"
  unfolding store_doc_def by (intro keeps_read_all keeps_then keeps_option keeps_upd assms) (simp_all add: keeps_def)

lemma keeps_backed_up:
  "\<forall>x \<in> set xs. backup_name stamp x \<noteq> path \<Longrightarrow> keeps (backed_up stamp xs fs) (store_doc fate path v)"
  by (rule keeps_store) (auto simp: backed_up_def)

lemma keeps_read_doc: "keeps P (read_doc path)" "keeps P (read_yaml_doc path)"
  by (simp_all add: keeps_def read_doc_def read_yaml_doc_def)

lemma keeps_backup_file:
  assumes "\<forall>x \<in> set xs. backup_name stamp path \<noteq> x"
  shows "keeps (untouched_yet xs fs) (backup_file fate stamp path)"
  unfolding backup_file_def
  by (intro keeps_read_all keeps_option keeps_store)
    (use assms in \<open>auto simp: untouched_yet_def keeps_def\<close>)

text \<open>Everything that follows the copies, from the edit of the bridge's configuration on.\<close>

lemma edits_keep_backups:
  assumes "xs = touched_files p fs0" "no_slash stamp" "dashboard_path p fs0 = dashboard"
  shows "keeps (backed_up stamp xs fs) (migration_edits fate p dashboard main brew)"
proof -
  have w: "keeps (backed_up stamp xs fs) (store_doc fate path v)" if "path \<in> set xs \<or> path = audio_file p" for path v
    using keeps_backed_up backup_elsewhere assms(1,2) that by blast
  have paths: "beside (runtime_dir p) n \<in> set xs"
    if "n \<in> {''quantarbridge.yml'', ''dvmbridge-p25-to-dmr.yml'', ''dvmbridge-dmr-to-p25.yml'', ''tetrapack-brew-bridge.json''}" for n
    using that assms(1) by (auto simp: touched_files_def)
  have dash: "d \<in> set xs" if "dashboard = Some d" for d using that assms(1,3) by (auto simp: touched_files_def)
  have audio: "beside (runtime_dir p) ''tetrapack-brew-audio.json'' = audio_file p" by (simp add: audio_file_def)
  show ?thesis
    unfolding migration_edits_def update_audio_profiles_def edit_yaml_def update_dashboard_def audio
    by (intro keeps_bind keeps_then keeps_lift keeps_option keeps_read_doc w) (auto simp: paths dash keeps_def)
qed

lemma copies_and_edits:
  assumes "no_slash stamp" "xs = touched_files p (files s)"
  shows "kept stamp xs (files s) (snd (thenA (forA xs (\<lambda>path _. backup_file fate stamp path) ())
    (migration_edits fate p (dashboard_path p (files s)) main brew) s))"
proof -
  let ?copies = "forA xs (\<lambda>path _. backup_file fate stamp path) ()"
  have sep: "\<forall>x \<in> set xs. \<forall>y \<in> set xs. backup_name stamp x \<noteq> y" using backup_elsewhere assms by blast
  obtain r s1 where r: "?copies s = (r, s1)" by (cases "?copies s")
  have u: "untouched_yet xs (files s) s1"
  proof -
    have "keeps (untouched_yet xs (files s)) ?copies" using sep by (intro keeps_for_in keeps_backup_file) blast
    moreover have "untouched_yet xs (files s) s" by (simp add: untouched_yet_def)
    ultimately have "untouched_yet xs (files s) (snd (?copies s))" by (rule keepsD)
    then show ?thesis unfolding r by simp
  qed
  show ?thesis
  proof (cases r)
    case (Inl e)
    then show ?thesis using r u by (simp add: thenA_def bindA_def kept_def)
  next
    case (Inr x)
    then have "backed_up stamp xs (files s) s1"
      using backups_kept [of xs fate stamp s s1] r sep by (simp add: backed_up_def)
    then have "backed_up stamp xs (files s) (snd (migration_edits fate p (dashboard_path p (files s)) main brew s1))"
      by (rule keepsD [OF edits_keep_backups [OF assms(2,1) refl]])
    then show ?thesis using r Inr by (simp add: thenA_def bindA_def kept_def)
  qed
qed

lemma migration_keeps:
  assumes "no_slash stamp"
  shows "kept stamp (touched_files p (files s)) (files s) (snd (migrate fate p stamp s))"
proof -
  have u: "kept stamp xs (files s) s" for xs by (simp add: kept_def untouched_yet_def)
  show ?thesis
    using copies_and_edits [OF assms refl, of p s fate] u
    by (auto simp: migrate_def Let_def bindA_def touched_files_def read_doc_def read_yaml_doc_def split: sum.splits)
qed

text \<open>What a run leaves alone: every path outside a set.\<close>

definition same_outside :: "string set \<Rightarrow> (string \<rightharpoonup> pyval) \<Rightarrow> store \<Rightarrow> bool" where
  "same_outside X fs s \<longleftrightarrow> (\<forall>x. x \<notin> X \<longrightarrow> files s x = fs x)"

lemma keeps_store_in: "path \<in> X \<Longrightarrow> keeps (same_outside X fs) (store_doc fate path v)"
  by (rule keeps_store) (auto simp: same_outside_def)

definition migration_paths :: "string \<Rightarrow> paths \<Rightarrow> (string \<rightharpoonup> pyval) \<Rightarrow> string set" where
  "migration_paths stamp p fs =
     (let xs = set (touched_files p fs) in xs \<union> backup_name stamp ` xs \<union> {audio_file p})"

lemma copies_stay_inside:
  "keeps (same_outside (migration_paths stamp p fs0) fs) (forA (touched_files p fs0) (\<lambda>path _. backup_file fate stamp path) ())"
  unfolding backup_file_def
  by (intro keeps_for_in keeps_read_all keeps_option keeps_store_in) (auto simp: migration_paths_def Let_def keeps_def)

lemma edits_stay_inside:
  "keeps (same_outside (migration_paths stamp p fs0) fs) (migration_edits fate p (dashboard_path p fs0) main brew)"
  unfolding migration_edits_def update_audio_profiles_def edit_yaml_def update_dashboard_def
  by (intro keeps_bind keeps_then keeps_lift keeps_option keeps_read_doc keeps_store_in)
    (auto simp: migration_paths_def Let_def touched_files_def audio_file_def keeps_def)

lemma migration_stays_inside:
  "same_outside (migration_paths stamp p (files s)) (files s) (snd (migrate fate p stamp s))"
proof -
  let ?P = "same_outside (migration_paths stamp p (files s)) (files s)"
  have "keeps ?P (thenA (forA (touched_files p (files s)) (\<lambda>path _. backup_file fate stamp path) ())
      (migration_edits fate p (dashboard_path p (files s)) main brew))" for main brew
    by (rule keeps_then [OF copies_stay_inside edits_stay_inside])
  moreover have "?P s" by (simp add: same_outside_def)
  ultimately have "?P (snd (thenA (forA (touched_files p (files s)) (\<lambda>path _. backup_file fate stamp path) ())
      (migration_edits fate p (dashboard_path p (files s)) main brew) s))" for main brew
    by (rule keepsD)
  then show ?thesis using \<open>?P s\<close>
    by (auto simp: migrate_def Let_def bindA_def touched_files_def read_doc_def read_yaml_doc_def split: sum.splits)
qed

text \<open>C19: However a migration ends, whatever write fails, every file it may change has either kept its document or has a copy
of it beside it; and no other file changes but the copies and the configuration of the audio worker.\<close>

theorem migration_loses_nothing:
  assumes "no_slash stamp"
  shows "let s' = snd (migrate fate p stamp s); xs = touched_files p (files s) in
    (\<forall>x \<in> set xs. files s x \<noteq> None \<longrightarrow> files s' x = files s x \<or> files s' (backup_name stamp x) = files s x) \<and>
    (\<forall>x. x \<notin> set xs \<union> backup_name stamp ` set xs \<union> {audio_file p} \<longrightarrow> files s' x = files s x)"
  using migration_keeps [OF assms, of p s fate] migration_stays_inside [of stamp p s fate]
  by (auto simp: kept_def untouched_yet_def backed_up_def same_outside_def migration_paths_def Let_def)

section \<open>What a finished migration has written\<close>

lemma put_inE:
  assumes "put_in k key v d = Inr d'"
  obtains e where "dget d k (PDict []) = PDict e" "d' = AList.update k (PDict (AList.update key v e)) d"
  using assms by (auto simp: put_in_def split: pyval.splits)

lemma guard_InrE:
  assumes "(if b then raiseA e else m) s = (Inr y, s')"
  obtains "\<not> b" "m s = (Inr y, s')"
  using assms by (auto split: if_splits)

lemma migrateE:
  assumes "migrate fate p stamp s = (Inr (), s')"
  obtains main brew s1 where
    "read_doc (if files s (beside (runtime_dir p) ''tetrapack-brew-bridge.json'') \<noteq> None
       then beside (runtime_dir p) ''tetrapack-brew-bridge.json'' else beside (install_dir p) ''deploy/runtime/tetrapack-brew-bridge.json'') s = (Inr brew, s)"
    "read_yaml_doc (beside (runtime_dir p) ''quantarbridge.yml'') s = (Inr main, s)"
    "migration_edits fate p (dashboard_path p (files s)) main
       (AList.update ''brewAudioOutboxDir'' (PStr (beside (runtime_dir p) ''sms/brew-audio-outbox'')) brew) s1 = (Inr (), s')"
  using assms unfolding migrate_def Let_def readA_def
  by (elim guard_InrE bindA_InrE thenA_InrE) (use that read_doc_state in metis)

lemma beside_same: "beside d n = beside d m \<longleftrightarrow> n = m" by (simp add: beside_def)

lemma beside_other: "no_slash n \<Longrightarrow> no_slash m \<Longrightarrow> n \<noteq> m \<Longrightarrow> beside d n \<noteq> beside e m"
  using base_names(1) by metis

lemma dashboard_names:
  "''quantarbridge.yml'' \<in> set TOUCHED_NAMES" "''tetrapack-brew-bridge.json'' \<in> set TOUCHED_NAMES"
  "''quantar-dashboard.json'' \<in> set TOUCHED_NAMES"
  "''quantarbridge.yml'' \<noteq> ''quantar-dashboard.json''" "''tetrapack-brew-bridge.json'' \<noteq> ''quantar-dashboard.json''"
  by (simp_all add: TOUCHED_NAMES_def)

lemma not_the_dashboard:
  assumes "dashboard_path p fs = Some d" "n \<in> set TOUCHED_NAMES" "n \<noteq> ''quantar-dashboard.json''"
  shows "beside e n \<noteq> d"
proof -
  obtain d' where "d = beside d' ''quantar-dashboard.json''" using dashboard_path_base [OF assms(1)] by blast
  then show ?thesis using beside_other [OF names_no_slash(1) [OF assms(2)] names_no_slash(1) [OF dashboard_names(3)] assms(3)] by simp
qed

lemma bind_lift_InrE:
  assumes "bindA (liftE r) f s = (Inr y, s')"
  obtains x where "r = Inr x" "f x s = (Inr y, s')"
  using assms by (auto simp: bindA_def split: sum.splits)

lemma bind_read_InrE:
  assumes "bindA (read_doc path) f s = (Inr y, s')"
  obtains x where "f x s = (Inr y, s')"
  using assms by (rule bindA_InrE) (auto dest: read_doc_state)

lemma then_unit_InrE:
  assumes "thenA m n s = (Inr y, s')"
  obtains s1 where "m s = (Inr (), s1)" "n s1 = (Inr y, s')"
  using assms by (rule thenA_InrE) simp

lemma migration_edits_wrote:
  assumes "migration_edits fate p (dashboard_path p fs) main brew s = (Inr (), s')"
  shows "\<exists>main'. put_in ''brandmeister'' ''voiceEnabled'' (PBool False) main = Inr main' \<and>
    files s' (beside (runtime_dir p) ''quantarbridge.yml'') = Some (PDict main') \<and>
    files s' (beside (runtime_dir p) ''tetrapack-brew-bridge.json'') = Some (PDict brew)"
proof -
  let ?at = "beside (runtime_dir p)"
  have other: "?at ''quantarbridge.yml'' \<noteq> d" "?at ''tetrapack-brew-bridge.json'' \<noteq> d" if "dashboard_path p fs = Some d" for d
    by (rule not_the_dashboard [OF that dashboard_names(1,4)], rule not_the_dashboard [OF that dashboard_names(2,5)])
  obtain main' s1 s2 s3 s4 s5 audio template where w: "put_in ''brandmeister'' ''voiceEnabled'' (PBool False) main = Inr main'"
    "store_doc fate (?at ''quantarbridge.yml'') (PDict main') s = (Inr (), s1)"
    "update_audio_profiles fate p s1 = (Inr (), s2)"
    "store_doc fate (?at ''tetrapack-brew-bridge.json'') (PDict brew) s2 = (Inr (), s3)"
    "store_doc fate (?at ''tetrapack-brew-audio.json'') (PDict audio) s3 = (Inr (), s4)"
    "(case dashboard_path p fs of None \<Rightarrow> ret () | Some path \<Rightarrow> update_dashboard fate p path) s4 = (Inr (), s')"
    using assms unfolding migration_edits_def
    by (elim bind_lift_InrE bind_read_InrE then_unit_InrE) (rule that)
  have last: "files s' = files s4 \<or> (\<exists>d v. dashboard_path p fs = Some d \<and> files s' = (files s4)(d \<mapsto> v))"
    using w(6) by (cases "dashboard_path p fs") (auto dest: update_dashboardE)
  show ?thesis
    using store_docE [OF w(2)] update_audio_profilesE [OF w(3)] store_docE [OF w(4)] store_docE [OF w(5)] last other w(1)
    by (auto simp: beside_same)
qed

text \<open>C31: A finished migration has changed the bridge's configuration in one setting, \<open>voiceEnabled\<close> of its BrandMeister
section, and that of the SMS bridge in one, the directory it hands text messages to the audio worker through: the password
and every other setting of both stand as before.\<close>

theorem migration_keeps_credentials:
  assumes "migrate fate p stamp s = (Inr (), s')"
  shows "\<exists>main brew e main' e' brew'.
    read_yaml_doc (beside (runtime_dir p) ''quantarbridge.yml'') s = (Inr main, s) \<and>
    dget main ''brandmeister'' (PDict []) = PDict e \<and>
    files s' (beside (runtime_dir p) ''quantarbridge.yml'') = Some (PDict main') \<and>
    (\<forall>k. k \<noteq> ''brandmeister'' \<longrightarrow> map_of main' k = map_of main k) \<and>
    map_of main' ''brandmeister'' = Some (PDict e') \<and> map_of e' = (map_of e)(''voiceEnabled'' \<mapsto> PBool False) \<and>
    read_doc (if files s (beside (runtime_dir p) ''tetrapack-brew-bridge.json'') \<noteq> None
      then beside (runtime_dir p) ''tetrapack-brew-bridge.json''
      else beside (install_dir p) ''deploy/runtime/tetrapack-brew-bridge.json'') s = (Inr brew, s) \<and>
    files s' (beside (runtime_dir p) ''tetrapack-brew-bridge.json'') = Some (PDict brew') \<and>
    map_of brew' = (map_of brew)(''brewAudioOutboxDir'' \<mapsto> PStr (beside (runtime_dir p) ''sms/brew-audio-outbox''))"
  using assms
proof (rule migrateE)
  fix main brew s1
  assume r: "read_doc (if files s (beside (runtime_dir p) ''tetrapack-brew-bridge.json'') \<noteq> None
       then beside (runtime_dir p) ''tetrapack-brew-bridge.json''
       else beside (install_dir p) ''deploy/runtime/tetrapack-brew-bridge.json'') s = (Inr brew, s)"
    "read_yaml_doc (beside (runtime_dir p) ''quantarbridge.yml'') s = (Inr main, s)"
    and e: "migration_edits fate p (dashboard_path p (files s)) main
       (AList.update ''brewAudioOutboxDir'' (PStr (beside (runtime_dir p) ''sms/brew-audio-outbox'')) brew) s1 = (Inr (), s')"
  obtain main' where m: "put_in ''brandmeister'' ''voiceEnabled'' (PBool False) main = Inr main'"
    "files s' (beside (runtime_dir p) ''quantarbridge.yml'') = Some (PDict main')"
    "files s' (beside (runtime_dir p) ''tetrapack-brew-bridge.json'') =
       Some (PDict (AList.update ''brewAudioOutboxDir'' (PStr (beside (runtime_dir p) ''sms/brew-audio-outbox'')) brew))"
    using migration_edits_wrote [OF e] by blast
  obtain d where d: "dget main ''brandmeister'' (PDict []) = PDict d"
    "main' = AList.update ''brandmeister'' (PDict (AList.update ''voiceEnabled'' (PBool False) d)) main"
    using m(1) by (rule put_inE)
  show ?thesis
    by (intro exI conjI, rule r(2), rule d(1), rule m(2)) (rule r(1) m(3) | simp add: d(2) update_conv' m(3))+
qed

section \<open>A concrete migration\<close>

definition demo_paths :: paths where
  "demo_paths = \<lparr>runtime_dir = ''/r'', install_dir = ''/i'', codec_path = ''/c.so''\<rparr>"

definition demo_store :: store where
  "demo_store = \<lparr>files = [
     ''/r/quantarbridge.yml'' \<mapsto> PDict [(''brandmeister'', PDict [(''password'', PStr ''secret'')])],
     ''/r/dvmbridge-p25-to-dmr.yml'' \<mapsto> PDict [],
     ''/r/dvmbridge-dmr-to-p25.yml'' \<mapsto> PDict [],
     ''/i/deploy/runtime/tetrapack-brew-bridge.json'' \<mapsto>
       PDict [(''brew'', PDict [(''enabled'', PBool True), (''username'', PStr ''u''), (''password'', PStr ''p'')])],
     ''/i/deploy/examples/tetrapack-brew-audio.json'' \<mapsto> PDict []], writes = 0, folders = {}\<rparr>"

lemma demo_migration:
  "fst (migrate (\<lambda>_. None) demo_paths ''20250101T000000Z'' demo_store) = Inr ()"
  by (simp add: migrate_def migration_edits_def demo_paths_def demo_store_def Let_def beside_def dashboard_path_def bindA_def thenA_def
      read_doc_def read_yaml_doc_def migration_check_def dget_def backup_file_def store_doc_def backup_name_def put_in_def
      update_audio_profiles_def edit_yaml_def update_in_def audio_document_def)

theorem migration_keeps_credentials_witness:
  "\<exists>s'. migrate (\<lambda>_. None) demo_paths ''20250101T000000Z'' demo_store = (Inr (), s') \<and>
    files s' ''/r/quantarbridge.yml'' \<noteq> None"
proof -
  let ?s' = "snd (migrate (\<lambda>_. None) demo_paths ''20250101T000000Z'' demo_store)"
  have m: "migrate (\<lambda>_. None) demo_paths ''20250101T000000Z'' demo_store = (Inr (), ?s')"
    using demo_migration by (simp add: prod_eq_iff)
  then show ?thesis using migration_keeps_credentials [OF m] by (force simp: demo_paths_def beside_def)
qed

theorem migration_loses_nothing_witness:
  "let s' = snd (migrate (\<lambda>n. if n = 1 then Some (OSError ''disk full'') else None) demo_paths ''20250101T000000Z'' demo_store) in
   (files s' ''/r/quantarbridge.yml'' = files demo_store ''/r/quantarbridge.yml'' \<or>
    files s' ''/r/quantarbridge.yml.pre-brew-audio-20250101T000000Z'' = files demo_store ''/r/quantarbridge.yml'') \<and>
   files s' ''/r/RSSI.dat'' = None"
proof -
  have n: "no_slash ''20250101T000000Z''" by (simp add: no_slash_def)
  have d: "dashboard_path demo_paths (files demo_store) = None"
    by (simp add: dashboard_path_def demo_paths_def demo_store_def beside_def)
  show ?thesis
    using migration_loses_nothing [OF n, where s = demo_store and p = demo_paths and fate = "\<lambda>n. if n = 1 then Some (OSError ''disk full'') else None"]
    by (simp add: touched_files_def d Let_def) (simp add: demo_paths_def beside_def backup_name_def audio_file_def demo_store_def)
qed

end
