(* ===== verification/Setup_Configure.thy ===== *)
theory Setup_Configure
  imports Setup_Migrate Dash_Settings
begin

text \<open>
  \<^verbatim>\<open>scripts/configure.py\<close>, which writes the first configuration of a station from the templates under
  \<^verbatim>\<open>deploy/examples\<close>. Files are those of \<^verbatim>\<open>Setup_Migrate\<close>: the document that reading one gives, and writes that
  may fail. File modes are left out; the random local password and the argument parser's splitting of the command line are inputs.
\<close>

section \<open>Arguments\<close>

definition argument_error :: "string \<Rightarrow> py_error + 'a" where "argument_error m = Inl (ArgumentTypeError m)"

definition parse_repeater_id :: "string \<Rightarrow> py_error + int" where
  "parse_repeater_id value =
     (if length value = 6 \<and> list_all is_digit value \<and> hd value \<noteq> CHR ''0'' then Inr (int (nat_of_digits value))
      else argument_error ''BrandMeister repeater ID must be six digits'')"

definition parse_frequency :: "string \<Rightarrow> py_error + int" where
  "parse_frequency value = (case py_int_str value of
     Inl e \<Rightarrow> argument_error ''frequency must be an integer in Hz''
   | Inr frequency \<Rightarrow> if 1000000 \<le> frequency \<and> frequency \<le> 1000000000 then Inr frequency
       else argument_error ''frequency must be between 1 MHz and 1 GHz'')"

text \<open>\<^verbatim>\<open>ipaddress.IPv4Address\<close>: four numbers up to 255 of at most three digits, without leading zeros.\<close>

fun split_dots :: "string \<Rightarrow> string list" where
  "split_dots [] = [[]]"
| "split_dots (c # cs) = (if c = CHR ''.'' then [] # split_dots cs
     else (c # hd (split_dots cs)) # tl (split_dots cs))"

definition octet_ok :: "string \<Rightarrow> bool" where
  "octet_ok s \<longleftrightarrow> s \<noteq> [] \<and> length s \<le> 3 \<and> list_all is_digit s \<and> (hd s = CHR ''0'' \<longrightarrow> length s = 1) \<and> nat_of_digits s \<le> 255"

definition parse_ipv4 :: "string \<Rightarrow> py_error + string" where
  "parse_ipv4 value =
     (if length (split_dots value) = 4 \<and> list_all octet_ok (split_dots value) then Inr value
      else argument_error ''invalid IPv4 address'')"

definition parse_callsign :: "string \<Rightarrow> py_error + string" where
  "parse_callsign value = (let callsign = upper (strip value) in
     if 3 \<le> length callsign \<and> length callsign \<le> 16 \<and>
       list_all (\<lambda>c. callsign_char c \<or> c = CHR ''/'' \<or> c = CHR ''-'') callsign
     then Inr callsign else argument_error ''invalid callsign syntax'')"

definition upper_hex :: "char \<Rightarrow> bool" where
  "upper_hex c \<longleftrightarrow> is_digit c \<or> 65 \<le> code c \<and> code c \<le> 70"

definition parse_hex :: "string \<Rightarrow> nat \<Rightarrow> string \<Rightarrow> py_error + string" where
  "parse_hex value digits label = (let normalized = upper (strip value) in
     if length normalized = digits \<and> list_all upper_hex normalized then Inr normalized
     else argument_error (label @ '' must contain exactly '' @ show_nat digits @ '' hex digits''))"

definition hex_int :: "string \<Rightarrow> int" where
  "hex_int s = foldl (\<lambda>n c. 16 * n + (if is_digit c then int (digit_val c) else int (code c) - 55)) 0 s"

record options =
  station_paths :: paths
  template_dir :: string
  runtime_absolute :: bool
  install_absolute :: bool
  bm_id :: int
  bm_callsign :: string
  bm_master :: string
  brew_username :: string
  rx_frequency :: int
  tx_frequency :: int
  serial_port :: string
  ars_server_ip :: string
  ars_peer_ip :: string
  p25_nac :: string
  p25_network_id :: string
  p25_system_id :: string
  opt_latitude :: real
  opt_longitude :: real
  opt_height :: int
  opt_power :: int
  opt_location :: string
  dashboard_listen :: string
  dashboard_port :: int
  overwrite :: bool

definition ascii_alnum :: "char \<Rightarrow> bool" where
  "ascii_alnum c \<longleftrightarrow> callsign_char c \<or> 97 \<le> code c \<and> code c \<le> 122"

definition require :: "bool \<Rightarrow> string \<Rightarrow> py_error + unit" where
  "require b m = (if b then Inr () else Inl (ValueError m))"

definition validate_arguments :: "options \<Rightarrow> py_error + unit" where
  "validate_arguments a =
     bindE (require (runtime_absolute a \<and> install_absolute a) ''runtime and install directories must be absolute'') (\<lambda>_.
     bindE (require (bm_master a \<noteq> [] \<and> list_all (\<lambda>c. ascii_alnum c \<or> c = CHR ''.'' \<or> c = CHR ''-'') (bm_master a) \<and>
         CHR ''.'' \<in> set (bm_master a)) ''BrandMeister master must be a hostname without a URL scheme'') (\<lambda>_.
     bindE (require (brew_username a = [] \<or> length (brew_username a) \<le> 64 \<and>
         list_all (\<lambda>c. ascii_alnum c \<or> c \<in> set ''_.@+-'') (brew_username a)) ''BREW username contains unsupported characters'') (\<lambda>_.
     bindE (require (- 90 \<le> opt_latitude a \<and> opt_latitude a \<le> 90) ''latitude must be between -90 and 90'') (\<lambda>_.
     bindE (require (- 180 \<le> opt_longitude a \<and> opt_longitude a \<le> 180) ''longitude must be between -180 and 180'') (\<lambda>_.
     bindE (require (0 \<le> opt_height a \<and> opt_height a \<le> 10000) ''height must be between 0 and 10000 metres'') (\<lambda>_.
     bindE (require (0 \<le> opt_power a \<and> opt_power a \<le> 1000) ''power must be between 0 and 1000 watts'') (\<lambda>_.
     bindE (require (1 \<le> dashboard_port a \<and> dashboard_port a \<le> 65535) ''dashboard port must be between 1 and 65535'') (\<lambda>_.
     bindE (parse_ipv4 (dashboard_listen a)) (\<lambda>_.
     require (list_all (\<lambda>c. c \<noteq> CR \<and> c \<noteq> LF \<and> code c \<noteq> 0) (serial_port a)) ''serial port contains invalid characters'')))))))))"

section \<open>Edits of nested documents\<close>

text \<open>\<^verbatim>\<open>d[k]\<close> as the place of a further edit; \<open>other\<close> is what the edit raises when the entry is no dictionary.\<close>

definition edit_at :: "py_error \<Rightarrow> string \<Rightarrow> (doc \<Rightarrow> py_error + doc) \<Rightarrow> doc \<Rightarrow> py_error + doc" where
  "edit_at other k f d = (case map_of d k of
     None \<Rightarrow> Inl (KeyError k)
   | Some (PDict e) \<Rightarrow> bindE (f e) (\<lambda>e. Inr (AList.update k (PDict e) d))
   | Some v \<Rightarrow> Inl other)"

definition inside :: "string \<Rightarrow> (doc \<Rightarrow> py_error + doc) \<Rightarrow> doc \<Rightarrow> py_error + doc" where
  "inside k f d = edit_at (TypeError ''subscript'') k f d"

definition put :: "string \<Rightarrow> pyval \<Rightarrow> doc \<Rightarrow> py_error + doc" where
  "put k v d = Inr (AList.update k v d)"

definition update_at :: "string \<Rightarrow> doc \<Rightarrow> doc \<Rightarrow> py_error + doc" where
  "update_at k vs d = edit_at (AttributeError ''update'') k (\<lambda>e. Inr (put_all vs e)) d"

definition run_edits :: "(doc \<Rightarrow> py_error + doc) list \<Rightarrow> doc \<Rightarrow> py_error + doc" where
  "run_edits fs d = foldE (\<lambda>f d. f d) fs d"

text \<open>What the DVM programs cannot read is left out.\<close>

fun dvm_payload :: "pyval \<Rightarrow> pyval" where
  "dvm_payload (PList vs) = PList (map dvm_payload vs)"
| "dvm_payload (PDict d) =
     (let r = concat (map (\<lambda>(k, v). if k \<in> {''presharedKey'', ''rpcPassword'', ''key''} \<and> v = PStr [] then []
        else [(k, dvm_payload v)]) d)
      in PDict (if map_of r ''secure'' = Some (PDict []) then AList.delete ''secure'' r else r))"
| "dvm_payload v = v"

definition DVM_FILES :: "string list" where
  "DVM_FILES = [''dvmhost-config.yml'', ''dvmfne-config.yml'', ''dvmbridge-p25-to-dmr.yml'', ''dvmbridge-dmr-to-p25.yml'']"

definition written_yaml :: "string \<Rightarrow> pyval \<Rightarrow> pyval" where
  "written_yaml name payload = (if name \<in> set DVM_FILES then dvm_payload payload else payload)"

section \<open>The configuration\<close>

definition MANAGED_FILES :: "string list" where
  "MANAGED_FILES = [''quantarbridge.yml'', ''dvmfne-config.yml'', ''dvmhost-config.yml'', ''dvmbridge-p25-to-dmr.yml'',
     ''dvmbridge-dmr-to-p25.yml'', ''quantar-dashboard.json'', ''tetrapack-brew-bridge.json'', ''tetrapack-brew-audio.json'',
     ''iden_table.dat'', ''peer_list.dat'', ''talkgroup_rules.yml'', ''RSSI.dat'', ''rid_acl.dat'']"

definition YAML_FILES :: "string list" where
  "YAML_FILES = [''quantarbridge.yml'', ''dvmfne-config.yml'', ''dvmhost-config.yml'', ''dvmbridge-p25-to-dmr.yml'',
     ''dvmbridge-dmr-to-p25.yml'']"

definition STATION_FOLDERS :: "string list" where
  "STATION_FOLDERS = [''log'', ''dashboard-backups'', ''sms/inbox'', ''sms/outbox'', ''sms/sent'', ''sms/error'', ''sms/processed'',
     ''sms/p25-outbox'', ''sms/p25-sent'', ''sms/service-routes'', ''sms/brew-audio-outbox'', ''sms/brew-audio-results'',
     ''sms/brew-audio-errors'', ''sms/p25-failed'', ''sms/quantarbridge-inbox'']"

definition make_folder :: "(nat \<Rightarrow> py_error option) \<Rightarrow> string \<Rightarrow> (store, unit) act" where
  "make_folder fate path = readA (\<lambda>s. thenA (upd (\<lambda>s. s\<lparr>writes := writes s + 1\<rparr>))
     (case fate (writes s) of Some e \<Rightarrow> raiseA e | None \<Rightarrow> upd (\<lambda>s. s\<lparr>folders := insert path (folders s)\<rparr>)))"

definition here :: "options \<Rightarrow> string \<Rightarrow> string" where "here a name = beside (runtime_dir (station_paths a)) name"

definition moved :: "options \<Rightarrow> pyval \<Rightarrow> pyval" where
  "moved a v = replace_paths (runtime_dir (station_paths a)) (install_dir (station_paths a)) v"

definition load_template :: "options \<Rightarrow> string \<Rightarrow> (store, pyval) act" where
  "load_template a name = readA (\<lambda>s. liftE (case files s (beside (template_dir a) name) of
     Some v \<Rightarrow> Inr (moved a v) | None \<Rightarrow> Inl (OSError ''FileNotFoundError'')))"

definition load_yaml :: "options \<Rightarrow> string \<Rightarrow> (store, doc) act" where
  "load_yaml a name = bindA (load_template a name) (\<lambda>v. liftE (case v of
     PDict d \<Rightarrow> Inr d | _ \<Rightarrow> Inl (ValueError (''template '' @ name @ '' is not a YAML mapping''))))"

definition edit_station :: "options \<Rightarrow> string \<Rightarrow> string \<Rightarrow> doc \<Rightarrow> py_error + doc" where
  "edit_station a local_password bm_password = run_edits
     [inside ''fne'' (put ''password'' (PStr local_password)),
      update_at ''brandmeister'' [(''repeaterId'', PInt (bm_id a)), (''password'', PStr bm_password), (''address'', PStr (bm_master a)),
        (''callsign'', PStr (bm_callsign a)), (''rxFrequency'', PInt (rx_frequency a)), (''txFrequency'', PInt (tx_frequency a)),
        (''power'', PInt (opt_power a)), (''latitude'', PStr (show_fixed6 (opt_latitude a))),
        (''longitude'', PStr (show_fixed6 (opt_longitude a))), (''height'', PStr (show_int (opt_height a))),
        (''location'', PStr (opt_location a)), (''voiceEnabled'', PBool True)]]"

definition edit_fne :: "string \<Rightarrow> doc \<Rightarrow> py_error + doc" where
  "edit_fne local_password = inside ''master'' (put ''password'' (PStr local_password))"

definition edit_dvmhost :: "options \<Rightarrow> string \<Rightarrow> doc \<Rightarrow> py_error + doc" where
  "edit_dvmhost a local_password = run_edits
     [inside ''network'' (put ''password'' (PStr local_password)),
      inside ''protocols'' (inside ''p25'' (put ''motorolaPacketData''
        (PDict [(''arsServerAddress'', PStr (ars_server_ip a)), (''arsPeerAddress'', PStr (ars_peer_ip a))]))),
      inside ''system'' (put ''identity'' (PStr (bm_callsign a))),
      inside ''system'' (update_at ''info'' [(''latitude'', PFloat (opt_latitude a)), (''longitude'', PFloat (opt_longitude a)),
        (''height'', PInt (opt_height a)), (''power'', PInt (opt_power a)), (''location'', PStr (opt_location a))]),
      inside ''system'' (inside ''cwId'' (put ''callsign'' (PStr (bm_callsign a)))),
      inside ''system'' (inside ''modem'' (inside ''protocol'' (inside ''uart'' (put ''port'' (PStr (serial_port a)))))),
      inside ''system'' (update_at ''config'' [(''nac'', PInt (hex_int (p25_nac a))), (''netId'', PStr (p25_network_id a)),
        (''sysId'', PStr (p25_system_id a))])]"

definition edit_voice_bridge :: "options \<Rightarrow> string \<Rightarrow> doc \<Rightarrow> py_error + doc" where
  "edit_voice_bridge a local_password = run_edits
     [inside ''network'' (put ''password'' (PStr local_password)),
      inside ''system'' (put ''netId'' (PStr (p25_network_id a))),
      inside ''system'' (put ''sysId'' (PStr (p25_system_id a)))]"

definition edit_listener :: "options \<Rightarrow> pyval \<Rightarrow> py_error + pyval" where
  "edit_listener a v = (case v of
     PDict d \<Rightarrow> Inr (PDict (put_all [(''listenAddress'', PStr (dashboard_listen a)), (''port'', PInt (dashboard_port a))] d))
   | _ \<Rightarrow> Inl (TypeError ''item assignment''))"

definition edit_brew :: "options \<Rightarrow> pyval \<Rightarrow> py_error + pyval" where
  "edit_brew a v = (case v of
     PDict d \<Rightarrow> bindE (update_at ''brew'' [(''enabled'', PBool False), (''username'', PStr (brew_username a)), (''password'', PStr [])] d)
       (\<lambda>d. Inr (PDict (put_all [(''brewServiceRids'', PList []), (''brandmeisterServiceRids'', PList [PInt 262993])]
         (AList.delete ''brewAudioOutboxDir'' d))))
   | _ \<Rightarrow> Inl (TypeError ''subscript''))"

definition write_yaml :: "(nat \<Rightarrow> py_error option) \<Rightarrow> options \<Rightarrow> string \<Rightarrow> doc \<Rightarrow> (store, unit) act" where
  "write_yaml fate a name d = store_doc fate (here a name) (written_yaml name (PDict d))"

definition copy_template :: "(nat \<Rightarrow> py_error option) \<Rightarrow> options \<Rightarrow> string \<Rightarrow> (store, unit) act" where
  "copy_template fate a name = readA (\<lambda>s. case files s (beside (template_dir a) name) of
     None \<Rightarrow> raiseA (OSError ''FileNotFoundError'') | Some v \<Rightarrow> store_doc fate (here a name) v)"

definition write_station :: "(nat \<Rightarrow> py_error option) \<Rightarrow> options \<Rightarrow> string \<Rightarrow> string \<Rightarrow> (store, unit) act" where
  "write_station fate a local_password bm_password =
     bindA (load_yaml a ''quantarbridge.yml'') (\<lambda>bridge.
     bindA (load_yaml a ''dvmfne-config.yml'') (\<lambda>fne.
     bindA (load_yaml a ''dvmhost-config.yml'') (\<lambda>host.
     bindA (load_yaml a ''dvmbridge-p25-to-dmr.yml'') (\<lambda>up.
     bindA (load_yaml a ''dvmbridge-dmr-to-p25.yml'') (\<lambda>down.
     bindA (liftE (edit_station a local_password bm_password bridge)) (\<lambda>bridge.
     bindA (liftE (edit_fne local_password fne)) (\<lambda>fne.
     bindA (liftE (edit_dvmhost a local_password host)) (\<lambda>host.
     bindA (liftE (edit_voice_bridge a local_password up)) (\<lambda>up.
     bindA (liftE (edit_voice_bridge a local_password down)) (\<lambda>down.
     thenA (write_yaml fate a ''quantarbridge.yml'' bridge)
     (thenA (write_yaml fate a ''dvmfne-config.yml'' fne)
     (thenA (write_yaml fate a ''dvmhost-config.yml'' host)
     (thenA (write_yaml fate a ''dvmbridge-p25-to-dmr.yml'' up)
     (write_yaml fate a ''dvmbridge-dmr-to-p25.yml'' down))))))))))))))"

definition write_services :: "(nat \<Rightarrow> py_error option) \<Rightarrow> options \<Rightarrow> (store, unit) act" where
  "write_services fate a =
     bindA (load_template a ''quantar-dashboard.json'') (\<lambda>v.
     bindA (liftE (edit_listener a v)) (\<lambda>v.
     thenA (store_doc fate (here a ''quantar-dashboard.json'') v)
     (bindA (load_template a ''tetrapack-brew-bridge.json'') (\<lambda>v.
     bindA (liftE (edit_brew a v)) (\<lambda>v.
     thenA (store_doc fate (here a ''tetrapack-brew-bridge.json'') v)
     (bindA (load_template a ''tetrapack-brew-audio.json'') (\<lambda>v.
     thenA (store_doc fate (here a ''tetrapack-brew-audio.json'') v)
     (thenA (forA [''iden_table.dat'', ''peer_list.dat'', ''RSSI.dat'', ''talkgroup_rules.yml''] (\<lambda>name _. copy_template fate a name) ())
     (store_doc fate (here a ''rid_acl.dat'') (PStr []))))))))))"

definition existing_files :: "options \<Rightarrow> store \<Rightarrow> string list" where
  "existing_files a s = filter (\<lambda>name. files s (here a name) \<noteq> None) MANAGED_FILES"

definition configure :: "(nat \<Rightarrow> py_error option) \<Rightarrow> options \<Rightarrow> string \<Rightarrow> string \<Rightarrow> (store, unit) act" where
  "configure fate a local_password bm_password =
     thenA (make_folder fate (runtime_dir (station_paths a))) (readA (\<lambda>s.
     if existing_files a s \<noteq> [] \<and> \<not> overwrite a then raiseA (OSError ''FileExistsError'')
     else thenA (write_station fate a local_password bm_password)
       (thenA (write_services fate a)
       (forA STATION_FOLDERS (\<lambda>name _. make_folder fate (here a name)) ()))))"

text \<open>\<^verbatim>\<open>main\<close>: an error that \<^verbatim>\<open>parser.error\<close> reports ends the program with status 2. \<open>line\<close> is what standard input holds.\<close>

definition configure_caught :: "py_error \<Rightarrow> bool" where
  "configure_caught e \<longleftrightarrow> is_os_error e \<or> is_value_error e"

definition configure_main :: "(nat \<Rightarrow> py_error option) \<Rightarrow> options \<Rightarrow> string \<Rightarrow> string \<Rightarrow> (store, int) act" where
  "configure_main fate a local_password line = catchA configure_caught
     (bindA (liftE (validate_arguments a)) (\<lambda>_.
      let password = rstrip_by (\<lambda>c. c = CR \<or> c = LF) line in
      bindA (liftE (require (password \<noteq> [] \<and> list_all (\<lambda>c. c \<noteq> CR \<and> c \<noteq> LF \<and> code c \<noteq> 0) password)
        ''BrandMeister password from stdin is empty or invalid'')) (\<lambda>_.
      thenA (configure fate a local_password password) (ret 0))))
     (\<lambda>_. ret 2)"

section \<open>Where an entry stands\<close>

fun entry_at :: "string list \<Rightarrow> pyval \<Rightarrow> pyval option" where
  "entry_at [] v = Some v"
| "entry_at (k # ks) (PDict d) = (case map_of d k of None \<Rightarrow> None | Some v \<Rightarrow> entry_at ks v)"
| "entry_at (k # ks) v = None"

lemma map_of_kept:
  assumes "k \<notin> {''presharedKey'', ''rpcPassword'', ''key''}"
  shows "map_of (concat (map (\<lambda>(k, v). if k \<in> {''presharedKey'', ''rpcPassword'', ''key''} \<and> v = PStr [] then [] else [(k, f v)]) d)) k =
    map_option f (map_of d k)"
  using assms by (induction d) auto

lemma entry_dvm_payload:
  "set ks \<inter> {''presharedKey'', ''rpcPassword'', ''key'', ''secure''} = {} \<Longrightarrow> entry_at ks v = Some (PStr p) \<Longrightarrow>
   entry_at ks (dvm_payload v) = Some (PStr p)"
proof (induction ks arbitrary: v)
  case (Cons k ks)
  then obtain d w where d: "v = PDict d" "map_of d k = Some w" "entry_at ks w = Some (PStr p)"
    by (cases v) (auto split: option.splits)
  have k: "k \<notin> {''presharedKey'', ''rpcPassword'', ''key''}" "k \<noteq> ''secure''" using Cons.prems(1) by auto
  have "entry_at ks (dvm_payload w) = Some (PStr p)" using Cons.IH [OF _ d(3)] Cons.prems(1) by auto
  then show ?case using map_of_kept [OF k(1), of dvm_payload d] k(2) d(1,2)
    by (simp add: Let_def delete_conv')
qed simp

lemma entry_written: "set ks \<inter> {''presharedKey'', ''rpcPassword'', ''key'', ''secure''} = {} \<Longrightarrow>
  entry_at ks (PDict d) = Some (PStr p) \<Longrightarrow> entry_at ks (written_yaml name (PDict d)) = Some (PStr p)"
  using entry_dvm_payload [of ks "PDict d" p] by (simp add: written_yaml_def del: dvm_payload.simps)

lemma edit_atE:
  assumes "edit_at other k f d = Inr d'"
  obtains e e' where "map_of d k = Some (PDict e)" "f e = Inr e'" "d' = AList.update k (PDict e') d"
  using assms by (auto simp: edit_at_def bindE_eq_Inr split: option.splits pyval.splits)

lemma inside_entry: "inside k f d = Inr d' \<Longrightarrow>
   \<exists>e e'. map_of d k = Some (PDict e) \<and> f e = Inr e' \<and> map_of d' = (map_of d)(k \<mapsto> PDict e')"
  unfolding inside_def by (erule edit_atE) (auto simp: update_conv')

lemma update_at_entry: "update_at k vs d = Inr d' \<Longrightarrow>
   \<exists>e. map_of d k = Some (PDict e) \<and> map_of d' = (map_of d)(k \<mapsto> PDict (put_all vs e))"
  unfolding update_at_def by (erule edit_atE) (auto simp: update_conv')

lemma put_entry: "put k v d = Inr d' \<Longrightarrow> map_of d' = (map_of d)(k \<mapsto> v)"
  by (auto simp: put_def update_conv')

lemma run_edits_Cons: "run_edits (f # fs) d = bindE (f d) (run_edits fs)" "run_edits [] d = Inr d"
  by (simp_all add: run_edits_def [abs_def])

text \<open>An edit of one entry leaves the others.\<close>

definition only_changes :: "string \<Rightarrow> (doc \<Rightarrow> py_error + doc) \<Rightarrow> bool" where
  "only_changes k f \<longleftrightarrow> (\<forall>d d' k'. f d = Inr d' \<longrightarrow> k' \<noteq> k \<longrightarrow> map_of d' k' = map_of d k')"

lemma only_inside: "only_changes k (inside k f)" "only_changes k (update_at k vs)"
  by (auto simp: only_changes_def dest!: inside_entry update_at_entry)

lemma other_entry [intro]:
  "k \<noteq> k' \<Longrightarrow> \<exists>j. j \<noteq> k' \<and> only_changes j (inside k f)" "k \<noteq> k' \<Longrightarrow> \<exists>j. j \<noteq> k' \<and> only_changes j (update_at k vs)"
  using only_inside by blast+

lemma run_edits_frame:
  assumes "\<forall>f \<in> set fs. \<exists>k. k \<noteq> k' \<and> only_changes k f" "run_edits fs d = Inr d'"
  shows "map_of d' k' = map_of d k'"
  using assms
proof (induction fs arbitrary: d)
  case (Cons f fs)
  then obtain d1 where "f d = Inr d1" "run_edits fs d1 = Inr d'" by (auto simp: run_edits_Cons bindE_eq_Inr)
  then show ?case using Cons by (fastforce simp: only_changes_def)
qed (simp add: run_edits_Cons)

lemma first_edit_stands:
  assumes "run_edits (inside k (put j v) # fs) d = Inr d'" "\<forall>f \<in> set fs. \<exists>k'. k' \<noteq> k \<and> only_changes k' f"
  shows "entry_at [k, j] (PDict d') = Some v"
proof -
  obtain d1 where d1: "inside k (put j v) d = Inr d1" "run_edits fs d1 = Inr d'" using assms(1) by (auto simp: run_edits_Cons bindE_eq_Inr)
  have "map_of d' k = map_of d1 k" by (rule run_edits_frame [OF assms(2) d1(2)])
  then show ?thesis using inside_entry [OF d1(1)] by (auto dest: put_entry)
qed

lemma host_password: "edit_dvmhost a p d = Inr d' \<Longrightarrow> entry_at [''network'', ''password''] (PDict d') = Some (PStr p)"
  unfolding edit_dvmhost_def by (erule first_edit_stands) (auto intro!: other_entry)

lemma voice_bridge_password: "edit_voice_bridge a p d = Inr d' \<Longrightarrow> entry_at [''network'', ''password''] (PDict d') = Some (PStr p)"
  unfolding edit_voice_bridge_def by (erule first_edit_stands) (auto intro!: other_entry)

lemma fne_password: "edit_fne p d = Inr d' \<Longrightarrow> entry_at [''master'', ''password''] (PDict d') = Some (PStr p)"
  using first_edit_stands [of "''master''" "''password''" "PStr p" "[]" d d'] by (simp add: edit_fne_def run_edits_Cons)

lemma station_entries:
  assumes "edit_station a p q d = Inr d'"
  shows "entry_at [''fne'', ''password''] (PDict d') = Some (PStr p)" "entry_at [''brandmeister'', ''password''] (PDict d') = Some (PStr q)"
    "entry_at [''brandmeister'', ''repeaterId''] (PDict d') = Some (PInt (bm_id a))"
    "entry_at [''brandmeister'', ''voiceEnabled''] (PDict d') = Some (PBool True)"
proof -
  obtain d1 e where d1: "inside ''fne'' (put ''password'' (PStr p)) d = Inr d1" "map_of d1 ''brandmeister'' = Some (PDict e)"
    "map_of d' = (map_of d1)(''brandmeister'' \<mapsto> PDict (put_all [(''repeaterId'', PInt (bm_id a)), (''password'', PStr q),
        (''address'', PStr (bm_master a)),
        (''callsign'', PStr (bm_callsign a)), (''rxFrequency'', PInt (rx_frequency a)), (''txFrequency'', PInt (tx_frequency a)),
        (''power'', PInt (opt_power a)), (''latitude'', PStr (show_fixed6 (opt_latitude a))),
        (''longitude'', PStr (show_fixed6 (opt_longitude a))), (''height'', PStr (show_int (opt_height a))),
        (''location'', PStr (opt_location a)), (''voiceEnabled'', PBool True)] e))"
    using assms unfolding edit_station_def run_edits_Cons bindE_eq_Inr by (auto dest!: update_at_entry)
  show "entry_at [''fne'', ''password''] (PDict d') = Some (PStr p)"
    using inside_entry [OF d1(1)] d1(3) by (auto dest: put_entry)
  show "entry_at [''brandmeister'', ''password''] (PDict d') = Some (PStr q)"
    "entry_at [''brandmeister'', ''repeaterId''] (PDict d') = Some (PInt (bm_id a))"
    "entry_at [''brandmeister'', ''voiceEnabled''] (PDict d') = Some (PBool True)"
    by (simp_all add: d1(3) put_all_def update_conv')
qed

lemma brew_disabled: "edit_brew a v = Inr w \<Longrightarrow> \<exists>d e. w = PDict d \<and> map_of d ''brew'' = Some (PDict e) \<and>
   map_of e ''enabled'' = Some (PBool False) \<and> map_of e ''username'' = Some (PStr (brew_username a)) \<and> map_of d ''brewAudioOutboxDir'' = None"
  by (auto simp: edit_brew_def bindE_eq_Inr put_all_def update_conv' delete_conv' split: pyval.splits dest!: update_at_entry)

section \<open>What a run changes\<close>

definition SERVICE_FILES :: "string list" where
  "SERVICE_FILES = [''quantar-dashboard.json'', ''tetrapack-brew-bridge.json'', ''tetrapack-brew-audio.json'', ''iden_table.dat'',
     ''peer_list.dat'', ''RSSI.dat'', ''talkgroup_rules.yml'', ''rid_acl.dat'']"

lemma managed_split: "set MANAGED_FILES = set YAML_FILES \<union> set SERVICE_FILES"
  by (auto simp: MANAGED_FILES_def YAML_FILES_def SERVICE_FILES_def)

lemma keeps_folder: "keeps (same_outside X fs) (make_folder fate path)"
  unfolding make_folder_def
  by (intro keeps_read_all keeps_then keeps_option keeps_upd) (simp_all add: keeps_def same_outside_def)

lemma keeps_load: "keeps P (load_template a name)" "keeps P (load_yaml a name)"
  by (auto simp: keeps_def load_template_def load_yaml_def bindA_def split: sum.splits)

lemma keeps_copy: "here a name \<in> X \<Longrightarrow> keeps (same_outside X fs) (copy_template fate a name)"
  unfolding copy_template_def by (intro keeps_read_all keeps_option keeps_store_in) (simp_all add: keeps_def)

lemma write_station_changes: "keeps (same_outside (here a ` set YAML_FILES) fs) (write_station fate a p q)"
  unfolding write_station_def write_yaml_def
  by (intro keeps_bind keeps_then keeps_load keeps_lift keeps_store_in) (simp_all add: YAML_FILES_def)

lemma write_services_changes: "keeps (same_outside (here a ` set SERVICE_FILES) fs) (write_services fate a)"
  unfolding write_services_def
  by (intro keeps_bind keeps_then keeps_load keeps_lift keeps_store_in keeps_for_in keeps_copy) (auto simp: SERVICE_FILES_def)

lemma make_folders_change: "keeps (same_outside X fs) (forA names (\<lambda>name _. make_folder fate (f name)) ())"
  by (intro keeps_for keeps_folder)

lemma same_outside_mono: "same_outside X fs s \<Longrightarrow> X \<subseteq> Y \<Longrightarrow> same_outside Y fs s"
  by (auto simp: same_outside_def)

lemma keeps_same_outside_mono: "(\<And>fs. keeps (same_outside X fs) m) \<Longrightarrow> X \<subseteq> Y \<Longrightarrow> keeps (same_outside Y fs) m"
  unfolding keeps_def same_outside_def by (metis subsetD)

lemma keeps_run: "keeps P m \<Longrightarrow> P s \<Longrightarrow> m s = (r, s') \<Longrightarrow> P s'"
  using keepsD by fastforce

lemma make_folder_files: "make_folder fate path s = (r, s') \<Longrightarrow> files s' = files s"
  by (auto simp: make_folder_def thenA_def bindA_def split: option.splits)

text \<open>C32: Whatever happens in between, a run changes only the configuration files it manages; without \<open>--force\<close> it
changes no file at all where one of them is there already.\<close>

theorem configuration_kept_without_force:
  assumes "configure fate a local_password bm_password s = (r, s')"
  shows "(\<forall>path. path \<notin> here a ` set MANAGED_FILES \<longrightarrow> files s' path = files s path) \<and>
    (\<not> overwrite a \<and> (\<exists>name \<in> set MANAGED_FILES. files s (here a name) \<noteq> None) \<longrightarrow> files s' = files s \<and> (\<exists>e. r = Inl e))"
proof
  have "keeps (same_outside (here a ` set MANAGED_FILES) (files s)) (configure fate a local_password bm_password)"
    unfolding configure_def
    by (intro keeps_then keeps_read_all keeps_if keeps_lift keeps_folder make_folders_change
        keeps_same_outside_mono [OF write_station_changes] keeps_same_outside_mono [OF write_services_changes])
      (auto simp: managed_split)
  moreover have "same_outside (here a ` set MANAGED_FILES) (files s) s" by (simp add: same_outside_def)
  ultimately have "same_outside (here a ` set MANAGED_FILES) (files s) s'" using assms by (rule keeps_run)
  then show "\<forall>path. path \<notin> here a ` set MANAGED_FILES \<longrightarrow> files s' path = files s path" by (simp add: same_outside_def)
next
  show "\<not> overwrite a \<and> (\<exists>name \<in> set MANAGED_FILES. files s (here a name) \<noteq> None) \<longrightarrow> files s' = files s \<and> (\<exists>e. r = Inl e)"
  proof (intro impI)
    assume e: "\<not> overwrite a \<and> (\<exists>name \<in> set MANAGED_FILES. files s (here a name) \<noteq> None)"
    obtain r1 s1 where m: "make_folder fate (runtime_dir (station_paths a)) s = (r1, s1)" by (cases "make_folder fate (runtime_dir (station_paths a)) s")
    have f: "files s1 = files s" by (rule make_folder_files [OF m])
    then have "existing_files a s1 \<noteq> []" using e by (auto simp: existing_files_def filter_empty_conv)
    then show "files s' = files s \<and> (\<exists>e. r = Inl e)"
      using assms m f e by (cases r1) (auto simp: configure_def thenA_def bindA_def)
  qed
qed

section \<open>What a finished run has written\<close>

lemma bind_load_InrE:
  assumes "bindA (load_yaml a name) f s = (Inr y, s')"
  obtains x where "f x s = (Inr y, s')"
  using assms by (rule bindA_InrE) (auto simp: load_yaml_def load_template_def bindA_def split: sum.splits)

lemma bind_template_InrE:
  assumes "bindA (load_template a name) f s = (Inr y, s')"
  obtains x where "f x s = (Inr y, s')"
  using assms by (rule bindA_InrE) (auto simp: load_template_def)

lemma write_station_wrote:
  assumes "write_station fate a p q s = (Inr (), s')"
  obtains bridge bridge' fne fne' host host' up up' down down' where
    "edit_station a p q bridge = Inr bridge'" "files s' (here a ''quantarbridge.yml'') = Some (PDict bridge')"
    "edit_fne p fne = Inr fne'" "files s' (here a ''dvmfne-config.yml'') = Some (dvm_payload (PDict fne'))"
    "edit_dvmhost a p host = Inr host'" "files s' (here a ''dvmhost-config.yml'') = Some (dvm_payload (PDict host'))"
    "edit_voice_bridge a p up = Inr up'" "files s' (here a ''dvmbridge-p25-to-dmr.yml'') = Some (dvm_payload (PDict up'))"
    "edit_voice_bridge a p down = Inr down'" "files s' (here a ''dvmbridge-dmr-to-p25.yml'') = Some (dvm_payload (PDict down'))"
proof -
  obtain bridge bridge' fne fne' host host' up up' down down' s1 s2 s3 s4 where w:
    "edit_station a p q bridge = Inr bridge'" "edit_fne p fne = Inr fne'" "edit_dvmhost a p host = Inr host'"
    "edit_voice_bridge a p up = Inr up'" "edit_voice_bridge a p down = Inr down'"
    "write_yaml fate a ''quantarbridge.yml'' bridge' s = (Inr (), s1)"
    "write_yaml fate a ''dvmfne-config.yml'' fne' s1 = (Inr (), s2)"
    "write_yaml fate a ''dvmhost-config.yml'' host' s2 = (Inr (), s3)"
    "write_yaml fate a ''dvmbridge-p25-to-dmr.yml'' up' s3 = (Inr (), s4)"
    "write_yaml fate a ''dvmbridge-dmr-to-p25.yml'' down' s4 = (Inr (), s')"
    using assms unfolding write_station_def by (elim bind_load_InrE bind_lift_InrE then_unit_InrE) (rule that)
  have f: "files s' = (files s)(here a ''quantarbridge.yml'' \<mapsto> written_yaml ''quantarbridge.yml'' (PDict bridge'),
      here a ''dvmfne-config.yml'' \<mapsto> written_yaml ''dvmfne-config.yml'' (PDict fne'),
      here a ''dvmhost-config.yml'' \<mapsto> written_yaml ''dvmhost-config.yml'' (PDict host'),
      here a ''dvmbridge-p25-to-dmr.yml'' \<mapsto> written_yaml ''dvmbridge-p25-to-dmr.yml'' (PDict up'),
      here a ''dvmbridge-dmr-to-p25.yml'' \<mapsto> written_yaml ''dvmbridge-dmr-to-p25.yml'' (PDict down'))"
    using w(6-10) [unfolded write_yaml_def, THEN store_docE] by simp
  show ?thesis
    by (rule that [OF w(1) _ w(2) _ w(3) _ w(4) _ w(5)])
      (simp_all add: f here_def beside_same written_yaml_def DVM_FILES_def del: dvm_payload.simps)
qed

lemma write_services_wrote:
  assumes "write_services fate a s = (Inr (), s')"
  obtains v w where "edit_brew a v = Inr w" "files s' (here a ''tetrapack-brew-bridge.json'') = Some w"
proof -
  obtain s0 v w s1 u s2 s3 where w: "edit_brew a v = Inr w"
    "store_doc fate (here a ''tetrapack-brew-bridge.json'') w s0 = (Inr (), s1)"
    "store_doc fate (here a ''tetrapack-brew-audio.json'') u s1 = (Inr (), s2)"
    "forA [''iden_table.dat'', ''peer_list.dat'', ''RSSI.dat'', ''talkgroup_rules.yml''] (\<lambda>name _. copy_template fate a name) () s2 = (Inr (), s3)"
    "store_doc fate (here a ''rid_acl.dat'') (PStr []) s3 = (Inr (), s')"
    using assms unfolding write_services_def by (elim bind_template_InrE bind_lift_InrE then_unit_InrE) (rule that)
  let ?X = "here a ` {''iden_table.dat'', ''peer_list.dat'', ''RSSI.dat'', ''talkgroup_rules.yml''}"
  have "keeps (same_outside ?X (files s2)) (forA [''iden_table.dat'', ''peer_list.dat'', ''RSSI.dat'', ''talkgroup_rules.yml'']
      (\<lambda>name _. copy_template fate a name) ())"
    by (intro keeps_for_in keeps_copy) auto
  moreover have "same_outside ?X (files s2) s2" by (simp add: same_outside_def)
  ultimately have "same_outside ?X (files s2) s3" using w(4) by (rule keeps_run)
  then have "files s3 (here a ''tetrapack-brew-bridge.json'') = files s2 (here a ''tetrapack-brew-bridge.json'')"
    unfolding same_outside_def by (auto simp: here_def beside_same)
  then have "files s' (here a ''tetrapack-brew-bridge.json'') = Some w"
    using store_docE [OF w(2)] store_docE [OF w(3)] store_docE [OF w(5)] by (simp add: here_def beside_same)
  then show ?thesis using that w(1) by blast
qed

definition entry_of :: "store \<Rightarrow> string \<Rightarrow> string list \<Rightarrow> pyval option" where
  "entry_of s path ks = (case files s path of None \<Rightarrow> None | Some v \<Rightarrow> entry_at ks v)"

text \<open>C21: In the configuration of a new station one random password connects all that talk to the local network server,
and the account given on the command line is the one of the bridge; voice goes over BrandMeister and BREW is off, so
that the migration to BREW audio refuses the new station and touches nothing.\<close>

theorem configured_station_connects:
  assumes "configure fate a local_password bm_password s = (Inr (), s')"
  shows "(\<forall>(name, section) \<in> {(''quantarbridge.yml'', ''fne''), (''dvmfne-config.yml'', ''master''), (''dvmhost-config.yml'', ''network''),
      (''dvmbridge-p25-to-dmr.yml'', ''network''), (''dvmbridge-dmr-to-p25.yml'', ''network'')}.
      entry_of s' (here a name) [section, ''password''] = Some (PStr local_password)) \<and>
    entry_of s' (here a ''quantarbridge.yml'') [''brandmeister'', ''password''] = Some (PStr bm_password) \<and>
    entry_of s' (here a ''quantarbridge.yml'') [''brandmeister'', ''repeaterId''] = Some (PInt (bm_id a)) \<and>
    entry_of s' (here a ''quantarbridge.yml'') [''brandmeister'', ''voiceEnabled''] = Some (PBool True) \<and>
    (\<exists>e. migrate fate' (station_paths a) moment_text s' = (Inl e, s'))"
proof -
  obtain s0 s1 s2 where r: "write_station fate a local_password bm_password s0 = (Inr (), s1)"
    "write_services fate a s1 = (Inr (), s2)"
    "forA STATION_FOLDERS (\<lambda>name _. make_folder fate (here a name)) () s2 = (Inr (), s')"
    using assms unfolding configure_def readA_def
    by (elim then_unit_InrE guard_InrE) (rule that)
  have f: "files s' = files s2"
  proof -
    have "same_outside {} (files s2) s2" by (simp add: same_outside_def)
    then have "same_outside {} (files s2) s'" using r(3) by (rule keeps_run [OF make_folders_change])
    then show ?thesis by (auto simp: same_outside_def)
  qed
  have y: "files s' (here a name) = files s1 (here a name)" if "name \<in> set YAML_FILES" for name
  proof -
    have "same_outside (here a ` set SERVICE_FILES) (files s1) s1" by (simp add: same_outside_def)
    then have "same_outside (here a ` set SERVICE_FILES) (files s1) s2" using r(2) by (rule keeps_run [OF write_services_changes])
    moreover have "here a name \<notin> here a ` set SERVICE_FILES"
      using that by (auto simp: here_def beside_same YAML_FILES_def SERVICE_FILES_def)
    ultimately show ?thesis by (simp add: f same_outside_def)
  qed
  obtain bridge bridge' fne fne' host host' up up' down down' where w:
    "edit_station a local_password bm_password bridge = Inr bridge'" "files s1 (here a ''quantarbridge.yml'') = Some (PDict bridge')"
    "edit_fne local_password fne = Inr fne'" "files s1 (here a ''dvmfne-config.yml'') = Some (dvm_payload (PDict fne'))"
    "edit_dvmhost a local_password host = Inr host'" "files s1 (here a ''dvmhost-config.yml'') = Some (dvm_payload (PDict host'))"
    "edit_voice_bridge a local_password up = Inr up'" "files s1 (here a ''dvmbridge-p25-to-dmr.yml'') = Some (dvm_payload (PDict up'))"
    "edit_voice_bridge a local_password down = Inr down'" "files s1 (here a ''dvmbridge-dmr-to-p25.yml'') = Some (dvm_payload (PDict down'))"
    by (rule write_station_wrote [OF r(1)])
  have g: "files s' (here a ''quantarbridge.yml'') = Some (PDict bridge')"
    "files s' (here a ''dvmfne-config.yml'') = Some (dvm_payload (PDict fne'))"
    "files s' (here a ''dvmhost-config.yml'') = Some (dvm_payload (PDict host'))"
    "files s' (here a ''dvmbridge-p25-to-dmr.yml'') = Some (dvm_payload (PDict up'))"
    "files s' (here a ''dvmbridge-dmr-to-p25.yml'') = Some (dvm_payload (PDict down'))"
    using y w(2,4,6,8,10) by (simp_all add: YAML_FILES_def del: dvm_payload.simps)
  obtain v d e where brew: "files s' (here a ''tetrapack-brew-bridge.json'') = Some (PDict d)" "map_of d ''brew'' = Some (PDict e)"
    "map_of e ''enabled'' = Some (PBool False)"
    using write_services_wrote [OF r(2)] brew_disabled f by metis
  have refused: "\<exists>e. migrate fate' (station_paths a) moment_text s' = (Inl e, s')"
  proof -
    let ?w = "AList.update ''brewAudioOutboxDir'' (PStr (beside (runtime_dir (station_paths a)) ''sms/brew-audio-outbox'')) d"
    have c: "\<exists>e. migration_check ?w bridge' = Inl e"
      using brew(2,3) by (simp add: migration_check_def dget_def update_conv')
    show ?thesis using g brew(1) c
      by (auto simp: migrate_def Let_def read_doc_def read_yaml_doc_def here_def bindA_def simp del: dvm_payload.simps)
  qed
  note dvm = entry_dvm_payload [of "[''network'', ''password'']"] entry_dvm_payload [of "[''master'', ''password'']"]
  show ?thesis
    using station_entries [OF w(1)] fne_password [OF w(3), THEN dvm(2) [rotated]] host_password [OF w(5), THEN dvm(1) [rotated]]
      voice_bridge_password [OF w(7), THEN dvm(1) [rotated]] voice_bridge_password [OF w(9), THEN dvm(1) [rotated]] refused
    by (simp add: entry_of_def g del: dvm_payload.simps entry_at.simps)
qed

section \<open>Concrete runs\<close>

definition demo_options :: options where
  "demo_options = \<lparr>station_paths = demo_paths, template_dir = ''/e'', runtime_absolute = True, install_absolute = True, bm_id = 262999,
     bm_callsign = ''AB1CD'', bm_master = ''m.example'', brew_username = [], rx_frequency = 430000000, tx_frequency = 439000000,
     serial_port = ''/dev/ttyUSB0'', ars_server_ip = ''10.0.0.2'', ars_peer_ip = ''10.0.0.1'', p25_nac = ''293'', p25_network_id = ''BB800'',
     p25_system_id = ''001'', opt_latitude = 0, opt_longitude = 0, opt_height = 0, opt_power = 25, opt_location = ''Bridge'',
     dashboard_listen = ''127.0.0.1'', dashboard_port = 8088, overwrite = False\<rparr>"

definition demo_templates :: "string \<rightharpoonup> pyval" where
  "demo_templates = [
     ''/e/quantarbridge.yml'' \<mapsto> PDict [(''fne'', PDict []), (''brandmeister'', PDict [])],
     ''/e/dvmfne-config.yml'' \<mapsto> PDict [(''master'', PDict [])],
     ''/e/dvmhost-config.yml'' \<mapsto> PDict [(''network'', PDict [(''presharedKey'', PStr [])]), (''protocols'', PDict [(''p25'', PDict [])]),
       (''system'', PDict [(''info'', PDict []), (''cwId'', PDict []), (''modem'', PDict [(''protocol'', PDict [(''uart'', PDict [])])]),
         (''config'', PDict [])])],
     ''/e/dvmbridge-p25-to-dmr.yml'' \<mapsto> PDict [(''network'', PDict []), (''system'', PDict [])],
     ''/e/dvmbridge-dmr-to-p25.yml'' \<mapsto> PDict [(''network'', PDict []), (''system'', PDict [])],
     ''/e/quantar-dashboard.json'' \<mapsto> PDict [],
     ''/e/tetrapack-brew-bridge.json'' \<mapsto> PDict [(''brew'', PDict [])],
     ''/e/tetrapack-brew-audio.json'' \<mapsto> PDict [],
     ''/e/iden_table.dat'' \<mapsto> PStr [], ''/e/peer_list.dat'' \<mapsto> PStr [], ''/e/RSSI.dat'' \<mapsto> PStr [], ''/e/talkgroup_rules.yml'' \<mapsto> PStr []]"

definition fresh_store :: store where "fresh_store = \<lparr>files = demo_templates, writes = 0, folders = {}\<rparr>"

definition used_store :: store where
  "used_store = \<lparr>files = demo_templates(''/r/rid_acl.dat'' \<mapsto> PStr []), writes = 0, folders = {}\<rparr>"

lemma demo_configured: "fst (configure (\<lambda>_. None) demo_options ''token'' ''secret'' fresh_store) = Inr ()"
proof -
  let ?a = demo_options
  have at: "beside (template_dir ?a) n = ''/e/'' @ n" "here ?a n = ''/r/'' @ n" for n
    by (simp_all add: demo_options_def here_def demo_paths_def beside_def)
  note small = at thenA_def bindA_def store_doc_def Let_def
  have e: "existing_files ?a s = []" if "files s = demo_templates" for s
    by (simp add: existing_files_def MANAGED_FILES_def at that demo_templates_def)
  have "write_station (\<lambda>_. None) ?a ''token'' ''secret'' s = (Inr (), snd (write_station (\<lambda>_. None) ?a ''token'' ''secret'' s))"
    if "files s = demo_templates" for s
    using that
    by (simp add: write_station_def load_yaml_def load_template_def moved_def small demo_templates_def write_yaml_def
        edit_station_def edit_fne_def edit_dvmhost_def edit_voice_bridge_def run_edits_def inside_def edit_at_def put_def update_at_def)
  then have station: "\<exists>s1. write_station (\<lambda>_. None) ?a ''token'' ''secret'' s = (Inr (), s1)" if "files s = demo_templates" for s
    using that by blast
  have services: "\<exists>s1. write_services (\<lambda>_. None) ?a s = (Inr (), s1)" if "\<And>n. files s (''/e/'' @ n) = demo_templates (''/e/'' @ n)" for s
    using that [of "''quantar-dashboard.json''"] that [of "''tetrapack-brew-bridge.json''"] that [of "''tetrapack-brew-audio.json''"]
      that [of "''iden_table.dat''"] that [of "''peer_list.dat''"] that [of "''RSSI.dat''"] that [of "''talkgroup_rules.yml''"]
    by (simp add: write_services_def load_template_def moved_def small demo_templates_def copy_template_def
        edit_listener_def edit_brew_def edit_at_def update_at_def)
  have folders: "\<exists>s1. forA STATION_FOLDERS (\<lambda>name _. make_folder (\<lambda>_. None) (here ?a name)) () s = (Inr (), s1)" for s
    by (simp add: STATION_FOLDERS_def make_folder_def thenA_def bindA_def)
  have m: "\<exists>s0. make_folder (\<lambda>_. None) d fresh_store = (Inr (), s0) \<and> files s0 = demo_templates" for d
    by (simp add: make_folder_def thenA_def bindA_def fresh_store_def)
  then obtain s0 where s0: "make_folder (\<lambda>_. None) (runtime_dir (station_paths ?a)) fresh_store = (Inr (), s0)" "files s0 = demo_templates" by blast
  obtain s1 where s1: "write_station (\<lambda>_. None) ?a ''token'' ''secret'' s0 = (Inr (), s1)" using station [OF s0(2)] by blast
  have "same_outside (here ?a ` set YAML_FILES) demo_templates s0" using s0(2) by (simp add: same_outside_def)
  then have "same_outside (here ?a ` set YAML_FILES) demo_templates s1" using s1 by (rule keeps_run [OF write_station_changes])
  then have "files s1 (''/e/'' @ n) = demo_templates (''/e/'' @ n)" for n
    unfolding same_outside_def by (rule allE [of _ "''/e/'' @ n"]) (auto simp: at)
  then obtain s2 where s2: "write_services (\<lambda>_. None) ?a s1 = (Inr (), s2)" using services by blast
  obtain s3 where "forA STATION_FOLDERS (\<lambda>name _. make_folder (\<lambda>_. None) (here ?a name)) () s2 = (Inr (), s3)" using folders by blast
  then show ?thesis using s0 s1 s2 e [OF s0(2)] by (simp add: configure_def thenA_def bindA_def)
qed

theorem configured_station_connects_witness:
  "\<exists>s'. configure (\<lambda>_. None) demo_options ''token'' ''secret'' fresh_store = (Inr (), s') \<and>
    entry_of s' ''/r/dvmhost-config.yml'' [''network'', ''password''] = Some (PStr ''token'')"
proof -
  let ?s' = "snd (configure (\<lambda>_. None) demo_options ''token'' ''secret'' fresh_store)"
  have m: "configure (\<lambda>_. None) demo_options ''token'' ''secret'' fresh_store = (Inr (), ?s')"
    using demo_configured by (simp add: prod_eq_iff)
  then show ?thesis using configured_station_connects [OF m]
    by (auto simp: here_def demo_options_def demo_paths_def beside_def)
qed

theorem configuration_kept_without_force_witness:
  "files (snd (configure (\<lambda>_. None) demo_options ''token'' ''secret'' used_store)) = files used_store"
proof -
  let ?c = "configure (\<lambda>_. None) demo_options ''token'' ''secret'' used_store"
  have "\<exists>name \<in> set MANAGED_FILES. files used_store (here demo_options name) \<noteq> None"
    by (simp add: MANAGED_FILES_def used_store_def here_def demo_options_def demo_paths_def beside_def)
  moreover have "\<not> overwrite demo_options" by (simp add: demo_options_def)
  ultimately show ?thesis using configuration_kept_without_force [of "\<lambda>_. None" demo_options "''token''" "''secret''" used_store "fst ?c" "snd ?c"]
    by simp
qed

text \<open>A call sign that a new station may have and the dashboard's settings may not: nothing can be saved there then.\<close>

lemma call_sign_unsavable:
  "parse_callsign ''DB0QUANTAR'' = Inr ''DB0QUANTAR''" "validate_callsign (PStr ''DB0QUANTAR'') = Inl invalid_callsign"
proof -
  have "strip ''DB0QUANTAR'' = ''DB0QUANTAR''" "upper ''DB0QUANTAR'' = ''DB0QUANTAR''" by code_simp+
  then show "parse_callsign ''DB0QUANTAR'' = Inr ''DB0QUANTAR''" "validate_callsign (PStr ''DB0QUANTAR'') = Inl invalid_callsign"
    by (simp_all add: parse_callsign_def validate_callsign_def Let_def callsign_ok_def callsign_char_def is_digit_def code_def)
qed

text \<open>An invalid listening address raises an exception that \<^verbatim>\<open>main\<close> does not catch.\<close>

lemma listener_address_uncaught:
  "configure_main fate (demo_options\<lparr>dashboard_listen := ''localhost''\<rparr>) local_password line s =
    (Inl (ArgumentTypeError ''invalid IPv4 address''), s)"
proof -
  have "\<not> (length (split_dots ''localhost'') = 4 \<and> list_all octet_ok (split_dots ''localhost''))" by simp
  then have "parse_ipv4 ''localhost'' = Inl (ArgumentTypeError ''invalid IPv4 address'')" by (simp add: parse_ipv4_def argument_error_def)
  moreover have "list_all (\<lambda>c. ascii_alnum c \<or> c = CHR ''.'' \<or> c = CHR ''-'') ''m.example''" by code_simp
  ultimately have "validate_arguments (demo_options\<lparr>dashboard_listen := ''localhost''\<rparr>) = Inl (ArgumentTypeError ''invalid IPv4 address'')"
    by (simp add: validate_arguments_def demo_options_def require_def)
  then show ?thesis by (simp add: configure_main_def bindA_def catchA_def configure_caught_def)
qed

end
