(* ===== verification/Dash_Restart.thy ===== *)
theory Dash_Restart
  imports Dash_Update
begin

text \<open>
  The commands behind a restart: \<^verbatim>\<open>RestartCoordinator\<close> of \<^verbatim>\<open>dashboard/app.py\<close>. What the machine answers is a
  function of how often it was asked before: the list of processes, the clock, the end of a command. The waiting loops
  have a value only when they end; \<open>restart_ends\<close> shows that they do, given a clock that goes on.
\<close>

section \<open>The machine\<close>

record process =
  process_id :: int
  owner_id :: int
  command_line :: string

datatype command_end = Returned int string | TimedOut | NotStarted py_error

record host_machine =
  listing :: "nat \<Rightarrow> process list"
  monotonic :: "nat \<Rightarrow> real"
  unix_seconds :: "nat \<Rightarrow> int"
  user_id :: int
  signal_fate :: "nat \<Rightarrow> py_error option"
  command_ends :: "nat \<Rightarrow> string list \<Rightarrow> command_end"
  log_fate :: "nat \<Rightarrow> py_error option"
  spawn_fate :: "nat \<Rightarrow> py_error option"
  exit_code :: "nat \<Rightarrow> int option"

datatype control_signal = Terminate | Kill

record control =
  asked :: nat
  signals :: "(control_signal \<times> int) list"
  launched :: "string list list"

definition ask :: "(nat \<Rightarrow> 'a) \<Rightarrow> control \<Rightarrow> 'a \<times> control" where
  "ask f s = (f (asked s), s\<lparr>asked := asked s + 1\<rparr>)"

definition matches :: "host_machine \<Rightarrow> string \<Rightarrow> process \<Rightarrow> bool" where
  "matches h pattern p \<longleftrightarrow> owner_id p = user_id h \<and> sublist pattern (command_line p)"

definition matching_pids :: "host_machine \<Rightarrow> string \<Rightarrow> control \<Rightarrow> int list \<times> control" where
  "matching_pids h pattern = ask (\<lambda>k. map process_id (filter (matches h pattern) (listing h k)))"

definition send_signal :: "host_machine \<Rightarrow> control_signal \<Rightarrow> int \<Rightarrow> (control, unit) act" where
  "send_signal h sg pid = bindA (call (ask (signal_fate h))) (\<lambda>fate. case fate of
     Some e \<Rightarrow> raiseA e | None \<Rightarrow> upd (\<lambda>s. s\<lparr>signals := signals s @ [(sg, pid)]\<rparr>))"

definition run_command :: "host_machine \<Rightarrow> string list \<Rightarrow> (control, command_end) act" where
  "run_command h c = thenA (upd (\<lambda>s. s\<lparr>launched := launched s @ [c]\<rparr>)) (call (ask (\<lambda>k. command_ends h k c)))"

definition time_out :: py_error where "time_out = RuntimeError ''TimeoutExpired''"

definition process_gone :: "py_error \<Rightarrow> bool" where "process_gone e \<longleftrightarrow> e = OSError ''ProcessLookupError''"

section \<open>Units\<close>

definition main_pid :: "host_machine \<Rightarrow> string \<Rightarrow> (control, int) act" where
  "main_pid h unit = bindA (run_command h [''systemctl'', ''show'', unit, ''--property=MainPID'', ''--value''])
     (\<lambda>r. case r of
        Returned status out \<Rightarrow> (case py_int_str (strip out) of Inr pid \<Rightarrow> ret pid | Inl e \<Rightarrow> ret 0)
      | TimedOut \<Rightarrow> raiseA time_out
      | NotStarted e \<Rightarrow> raiseA e)"

definition restart_systemd_user :: "host_machine \<Rightarrow> string \<Rightarrow> (control, unit) act" where
  "restart_systemd_user h unit = bindA (run_command h [''systemctl'', ''--user'', ''restart'', unit])
     (\<lambda>r. case r of
        Returned status out \<Rightarrow> if status = 0 then ret () else raiseA (RuntimeError ''CalledProcessError'')
      | TimedOut \<Rightarrow> raiseA time_out
      | NotStarted e \<Rightarrow> raiseA e)"

text \<open>The loop that waits for the new main process.\<close>

partial_function (option) await_unit :: "host_machine \<Rightarrow> string \<Rightarrow> int \<Rightarrow> real \<Rightarrow> control \<Rightarrow> ((py_error + unit) \<times> control) option" where
  "await_unit h unit old_pid deadline s =
     (case ask (monotonic h) s of (now, s1) \<Rightarrow>
      if \<not> now < deadline then Some (Inl (RuntimeError (unit @ '' did not return after restart'')), s1)
      else case main_pid h unit s1 of
          (Inl e, s2) \<Rightarrow> Some (Inl e, s2)
        | (Inr new_pid, s2) \<Rightarrow>
            if 0 < new_pid \<and> new_pid \<noteq> old_pid
            then (case ask (listing h) s2 of (ps, s3) \<Rightarrow>
              if new_pid \<in> process_id ` set ps then Some (Inr (), s3) else await_unit h unit old_pid deadline s3)
            else await_unit h unit old_pid deadline s2)"

text \<open>\<^verbatim>\<open>sudo\<close> first; without it, the main process of the unit is killed when it is the dashboard's own user's, and
  \<^verbatim>\<open>systemd\<close> starts it again. \<open>Inr True\<close> means that \<^verbatim>\<open>sudo\<close> has done it.\<close>

definition sudo_restart :: "host_machine \<Rightarrow> string \<Rightarrow> (control, bool) act" where
  "sudo_restart h unit = bindA (run_command h [''sudo'', ''-n'', ''/usr/bin/systemctl'', ''restart'', unit])
     (\<lambda>r. case r of
        Returned status out \<Rightarrow> ret (status = 0)
      | TimedOut \<Rightarrow> ret False
      | NotStarted e \<Rightarrow> raiseA e)"

definition kill_unit :: "host_machine \<Rightarrow> string \<Rightarrow> (control, int) act" where
  "kill_unit h unit =
     bindA (main_pid h unit) (\<lambda>old_pid.
     if old_pid \<le> 0 then raiseA (RuntimeError (unit @ '' has no running process''))
     else bindA (call (ask (listing h))) (\<lambda>ps.
       if \<not> (\<exists>p \<in> set ps. process_id p = old_pid \<and> owner_id p = user_id h)
       then raiseA (OSError ''PermissionError'')
       else thenA (send_signal h Kill old_pid) (ret old_pid)))"

definition restart_systemd :: "host_machine \<Rightarrow> string \<Rightarrow> control \<Rightarrow> ((py_error + unit) \<times> control) option" where
  "restart_systemd h unit s = (case sudo_restart h unit s of
     (Inl e, s1) \<Rightarrow> Some (Inl e, s1)
   | (Inr True, s1) \<Rightarrow> Some (Inr (), s1)
   | (Inr False, s1) \<Rightarrow> (case kill_unit h unit s1 of
       (Inl e, s2) \<Rightarrow> Some (Inl e, s2)
     | (Inr old_pid, s2) \<Rightarrow> (case ask (monotonic h) s2 of (now, s3) \<Rightarrow> await_unit h unit old_pid (now + 20) s3)))"

section \<open>Processes\<close>

partial_function (option) wait_gone :: "host_machine \<Rightarrow> string \<Rightarrow> real \<Rightarrow> control \<Rightarrow> control option" where
  "wait_gone h pattern deadline s =
     (case matching_pids h pattern s of (pids, s1) \<Rightarrow>
      if pids = [] then Some s1
      else case ask (monotonic h) s1 of (now, s2) \<Rightarrow>
        if now < deadline then wait_gone h pattern deadline s2 else Some s2)"

partial_function (option) wait_back :: "host_machine \<Rightarrow> string \<Rightarrow> real \<Rightarrow> control \<Rightarrow> (bool \<times> control) option" where
  "wait_back h pattern deadline s =
     (case ask (monotonic h) s of (now, s1) \<Rightarrow>
      if \<not> now < deadline then Some (False, s1)
      else case matching_pids h pattern s1 of (pids, s2) \<Rightarrow>
        if pids \<noteq> [] then Some (True, s2) else wait_back h pattern deadline s2)"

definition terminate_all :: "host_machine \<Rightarrow> string \<Rightarrow> (control, real) act" where
  "terminate_all h pattern =
     bindA (call (matching_pids h pattern)) (\<lambda>pids.
     thenA (forA pids (\<lambda>pid _. catchA process_gone (send_signal h Terminate pid) (\<lambda>_. ret ())) ())
       (call (ask (monotonic h))))"

definition kill_all :: "host_machine \<Rightarrow> string \<Rightarrow> (control, unit) act" where
  "kill_all h pattern = bindA (call (matching_pids h pattern)) (\<lambda>pids. forA pids (\<lambda>pid _. send_signal h Kill pid) ())"

definition working_directory :: "(pyval \<Rightarrow> string) \<Rightarrow> (string \<times> pyval) list \<Rightarrow> string" where
  "working_directory rep spec = py_str rep (py_or (dget spec ''workingDirectory'' PNone) (PStr ''/''))"

definition command_parts :: "(pyval \<Rightarrow> string) \<Rightarrow> (string \<times> pyval) list \<Rightarrow> py_error + string list" where
  "command_parts rep spec = bindE (py_item (PDict spec) ''command'') (\<lambda>v. bindE (py_iter v) (\<lambda>vs. Inr (map (py_str rep) vs)))"

text \<open>A transient unit of the user, when the target names one; \<open>True\<close> when a matching process is seen in time.\<close>

definition transient_command :: "(pyval \<Rightarrow> string) \<Rightarrow> (string \<times> pyval) list \<Rightarrow> string \<Rightarrow> int \<Rightarrow> string list \<Rightarrow> string list" where
  "transient_command rep spec transient_prefix now parts =
     [''systemd-run'', ''--user'', ''--unit='' @ transient_prefix @ ''-'' @ show_int now, ''--collect'', ''--property=Restart=on-failure'',
      ''--property=RestartSec=3s'', ''--property=WorkingDirectory='' @ working_directory rep spec] @ parts"

definition start_transient :: "host_machine \<Rightarrow> (pyval \<Rightarrow> string) \<Rightarrow> (string \<times> pyval) list \<Rightarrow> string \<Rightarrow> string \<Rightarrow> control \<Rightarrow>
    ((py_error + bool) \<times> control) option" where
  "start_transient h rep spec pattern transient_prefix s =
     (case ask (unix_seconds h) s of (now, s1) \<Rightarrow>
      case command_parts rep spec of
        Inl e \<Rightarrow> Some (Inl e, s1)
      | Inr parts \<Rightarrow> (case run_command h (transient_command rep spec transient_prefix now parts) s1 of
          (Inl e, s2) \<Rightarrow> Some (Inl e, s2)
        | (Inr r, s2) \<Rightarrow> (case r of
            Returned status out \<Rightarrow>
              if status = 0
              then (case ask (monotonic h) s2 of (start, s3) \<Rightarrow> map_option (\<lambda>(b, s). (Inr b, s)) (wait_back h pattern (start + 8) s3))
              else Some (Inr False, s2)
          | TimedOut \<Rightarrow> Some (Inr False, s2)
          | NotStarted e \<Rightarrow> if is_os_error e then Some (Inr False, s2) else Some (Inl e, s2))))"

text \<open>The process itself, with its output in the log file; it must still run after 1.5 s.\<close>

definition start_direct :: "host_machine \<Rightarrow> (pyval \<Rightarrow> string) \<Rightarrow> (string \<times> pyval) list \<Rightarrow> (control, unit) act" where
  "start_direct h rep spec =
     bindA (liftE (py_item (PDict spec) ''logFile'')) (\<lambda>log.
     bindA (call (ask (log_fate h))) (\<lambda>fate. case fate of
       Some e \<Rightarrow> raiseA e
     | None \<Rightarrow>
         bindA (liftE (command_parts rep spec)) (\<lambda>parts.
         bindA (call (ask (spawn_fate h))) (\<lambda>fate. case fate of
           Some e \<Rightarrow> raiseA e
         | None \<Rightarrow>
             thenA (upd (\<lambda>s. s\<lparr>launched := launched s @ [parts]\<rparr>))
             (bindA (call (ask (exit_code h))) (\<lambda>status. case status of
                None \<Rightarrow> ret ()
              | Some c \<Rightarrow> raiseA (RuntimeError (''Managed process exited during restart with code '' @ show_int c))))))))"

definition restart_process :: "host_machine \<Rightarrow> (pyval \<Rightarrow> string) \<Rightarrow> (string \<times> pyval) list \<Rightarrow> control \<Rightarrow> ((py_error + unit) \<times> control) option" where
  "restart_process h rep spec s = (case py_item (PDict spec) ''match'' of
     Inl e \<Rightarrow> Some (Inl e, s)
   | Inr m \<Rightarrow> let pattern = py_str rep m in
     (case terminate_all h pattern s of
       (Inl e, s1) \<Rightarrow> Some (Inl e, s1)
     | (Inr now, s1) \<Rightarrow> (case wait_gone h pattern (now + 6) s1 of
         None \<Rightarrow> None
       | Some s2 \<Rightarrow> (case kill_all h pattern s2 of
           (Inl e, s3) \<Rightarrow> Some (Inl e, s3)
         | (Inr _, s3) \<Rightarrow>
             let transient_prefix = strip (py_str rep (dget spec ''transientUnitPrefix'' (PStr []))) in
             if transient_prefix = [] then Some (start_direct h rep spec s3)
             else (case start_transient h rep spec pattern transient_prefix s3 of
               None \<Rightarrow> None
             | Some (Inl e, s4) \<Rightarrow> Some (Inl e, s4)
             | Some (Inr back, s4) \<Rightarrow> if back then Some (Inr (), s4) else Some (start_direct h rep spec s4))))))"

section \<open>Targets\<close>

definition run_target :: "host_machine \<Rightarrow> (pyval \<Rightarrow> string) \<Rightarrow> (string \<times> pyval) list \<Rightarrow> string \<Rightarrow> control \<Rightarrow> ((py_error + unit) \<times> control) option" where
  "run_target h rep targets name s = (case dget targets name PNone of
     PDict spec \<Rightarrow>
       if spec = [] then Some (Inl (RuntimeError (''Restart target is not configured: '' @ name)), s)
       else if dget spec ''type'' PNone = PStr ''systemd''
       then (case py_item (PDict spec) ''unit'' of Inl e \<Rightarrow> Some (Inl e, s) | Inr unit \<Rightarrow> restart_systemd h (py_str rep unit) s)
       else if dget spec ''type'' PNone = PStr ''systemd-user''
       then (case py_item (PDict spec) ''unit'' of Inl e \<Rightarrow> Some (Inl e, s) | Inr unit \<Rightarrow> Some (restart_systemd_user h (py_str rep unit) s))
       else if dget spec ''type'' PNone = PStr ''process'' then restart_process h rep spec s
       else Some (Inl (RuntimeError ''Unsupported restart target type''), s)
   | v \<Rightarrow> if truthy v then Some (Inl (AttributeError ''get''), s)
       else Some (Inl (RuntimeError (''Restart target is not configured: '' @ name)), s))"

fun restart_all :: "host_machine \<Rightarrow> (pyval \<Rightarrow> string) \<Rightarrow> (string \<times> pyval) list \<Rightarrow> string list \<Rightarrow> string list \<Rightarrow> control \<Rightarrow>
    ((py_error + string list) \<times> control) option" where
  "restart_all h rep targets [] restarted s = Some (Inr restarted, s)"
| "restart_all h rep targets (name # names) restarted s = (case run_target h rep targets name s of
     None \<Rightarrow> None
   | Some (Inl e, s1) \<Rightarrow> Some (Inl e, s1)
   | Some (Inr _, s1) \<Rightarrow> restart_all h rep targets names (restarted @ [name]) s1)"

section \<open>Who is signalled\<close>

text \<open>A process of the dashboard's own user, which some look found to match a process target or to be the main process of a unit.\<close>

definition rightful :: "host_machine \<Rightarrow> (pyval \<Rightarrow> string) \<Rightarrow> (string \<times> pyval) list \<Rightarrow> control_signal \<times> int \<Rightarrow> bool" where
  "rightful h rep targets x \<longleftrightarrow> (\<exists>k. \<exists>p \<in> set (listing h k). process_id p = snd x \<and> owner_id p = user_id h \<and>
     ((\<exists>name spec m. map_of targets name = Some (PDict spec) \<and> map_of spec ''match'' = Some m \<and> sublist (py_str rep m) (command_line p)) \<or>
      (fst x = Kill \<and> (\<exists>name spec u j status out. map_of targets name = Some (PDict spec) \<and> map_of spec ''unit'' = Some u \<and>
         command_ends h j [''systemctl'', ''show'', py_str rep u, ''--property=MainPID'', ''--value''] = Returned status out \<and>
         py_int_str (strip out) = Inr (snd x)))))"

definition signals_in :: "(control_signal \<times> int \<Rightarrow> bool) \<Rightarrow> control \<Rightarrow> bool" where
  "signals_in Q s \<longleftrightarrow> (\<forall>x \<in> set (signals s). Q x)"

lemma ask_state: "ask f s = (x, s') \<Longrightarrow> x = f (asked s) \<and> asked s' = Suc (asked s) \<and> signals s' = signals s \<and> launched s' = launched s"
  by (auto simp: ask_def)

lemma keeps_ask:
  assumes "\<And>s. P s \<Longrightarrow> P (s\<lparr>asked := asked s + 1\<rparr>)" "\<And>k. keeps P (f (g k))"
  shows "keeps P (bindA (call (ask g)) f)"
  using assms by (simp add: keeps_def bindA_def call_def ask_def)

lemma signals_asked: "signals_in Q s \<Longrightarrow> signals_in Q (s\<lparr>asked := asked s + 1\<rparr>)"
  by (simp add: signals_in_def)

lemmas keeps_asked = keeps_ask [of "signals_in Q" for Q, OF signals_asked]

lemma send_signal_keeps: "Q (sg, pid) \<Longrightarrow> keeps (signals_in Q) (send_signal h sg pid)"
  unfolding send_signal_def
  by (intro keeps_asked keeps_option keeps_upd keeps_lift) (auto simp: signals_in_def)

lemma run_command_keeps: "keeps (signals_in Q) (run_command h c)"
  unfolding run_command_def by (intro keeps_then keeps_upd keeps_call) (auto simp: signals_in_def ask_def)

lemma matching_keeps:
  assumes "\<And>k pid. pid \<in> process_id ` set (filter (matches h pattern) (listing h k)) \<Longrightarrow> Q (sg, pid)"
    and "\<And>pid. Q (sg, pid) \<Longrightarrow> keeps (signals_in Q) (f pid)"
  shows "keeps (signals_in Q) (bindA (call (matching_pids h pattern)) (\<lambda>pids. forA pids (\<lambda>pid _. f pid) ()))"
  unfolding matching_pids_def using assms by (intro keeps_asked keeps_for_in) auto

lemma terminate_keeps:
  assumes "\<And>k pid. pid \<in> process_id ` set (filter (matches h pattern) (listing h k)) \<Longrightarrow> Q (Terminate, pid)"
  shows "keeps (signals_in Q) (terminate_all h pattern)"
  unfolding terminate_all_def matching_pids_def
  using assms by (intro keeps_asked keeps_then keeps_call keeps_for_in keeps_catch keeps_lift send_signal_keeps) (auto simp: ask_def signals_in_def)

lemma kill_all_keeps:
  assumes "\<And>k pid. pid \<in> process_id ` set (filter (matches h pattern) (listing h k)) \<Longrightarrow> Q (Kill, pid)"
  shows "keeps (signals_in Q) (kill_all h pattern)"
  unfolding kill_all_def using assms by (intro matching_keeps send_signal_keeps) auto

lemma main_pid_keeps: "keeps (signals_in Q) (main_pid h unit)"
  unfolding main_pid_def
  by (intro keeps_bind run_command_keeps) (auto simp: keeps_def split: command_end.split sum.split)

lemma main_pid_value:
  assumes "main_pid h unit s = (Inr pid, s')" "0 < pid"
  shows "\<exists>j status out. command_ends h j [''systemctl'', ''show'', unit, ''--property=MainPID'', ''--value''] = Returned status out \<and>
    py_int_str (strip out) = Inr pid"
proof -
  let ?c = "[''systemctl'', ''show'', unit, ''--property=MainPID'', ''--value'']"
  have "\<exists>status out. command_ends h (asked s) ?c = Returned status out \<and> py_int_str (strip out) = Inr pid"
    using assms by (cases "command_ends h (asked s) ?c")
      (auto simp: main_pid_def run_command_def call_def ask_def bindA_def thenA_def split: sum.splits)
  then show ?thesis by blast
qed

lemma kill_unit_keeps:
  assumes "\<And>k j status out p pid. p \<in> set (listing h k) \<Longrightarrow> process_id p = pid \<Longrightarrow> owner_id p = user_id h \<Longrightarrow>
      command_ends h j [''systemctl'', ''show'', unit, ''--property=MainPID'', ''--value''] = Returned status out \<Longrightarrow>
      py_int_str (strip out) = Inr pid \<Longrightarrow> Q (Kill, pid)"
  shows "keeps (signals_in Q) (kill_unit h unit)"
proof -
  have "signals_in Q (snd (kill_unit h unit s))" if s: "signals_in Q s" for s
  proof -
    obtain r s1 where m: "main_pid h unit s = (r, s1)" by (cases "main_pid h unit s")
    have s1: "signals_in Q s1" using keepsD [OF main_pid_keeps s, of h unit] m by simp
    show ?thesis
    proof (cases r)
      case (Inl e)
      then show ?thesis using m s1 by (simp add: kill_unit_def bindA_def)
    next
      case (Inr pid)
      show ?thesis
      proof (cases "0 < pid \<and> (\<exists>p \<in> set (listing h (asked s1)). process_id p = pid \<and> owner_id p = user_id h)")
        case True
        then obtain p where p: "p \<in> set (listing h (asked s1))" "process_id p = pid" "owner_id p = user_id h" by blast
        obtain j status out where j: "command_ends h j [''systemctl'', ''show'', unit, ''--property=MainPID'', ''--value''] = Returned status out"
          "py_int_str (strip out) = Inr pid" using main_pid_value m Inr True by blast
        have "Q (Kill, pid)" using assms p j by blast
        then have "keeps (signals_in Q) (thenA (send_signal h Kill pid) (ret pid))"
          by (intro keeps_then send_signal_keeps keeps_lift)
        then have "signals_in Q (snd (thenA (send_signal h Kill pid) (ret pid) (s1\<lparr>asked := asked s1 + 1\<rparr>)))"
          by (rule keepsD) (rule signals_asked [OF s1])
        then show ?thesis using m Inr True
          by (auto simp: kill_unit_def bindA_def call_def ask_def)
      next
        case False
        then show ?thesis using m Inr signals_asked [OF s1] s1 by (auto simp: kill_unit_def bindA_def call_def ask_def)
      qed
    qed
  qed
  then show ?thesis by (simp add: keeps_def)
qed

text \<open>Waiting signals nobody.\<close>

lemma await_unit_signals: "await_unit h unit old_pid deadline s = Some y \<Longrightarrow> signals_in Q s \<Longrightarrow> signals_in Q (snd y)"
proof (induction rule: await_unit.raw_induct [rotated, consumes 1])
  case (1 await_unit h unit old_pid deadline s y)
  obtain r s2 where m: "main_pid h unit (s\<lparr>asked := asked s + 1\<rparr>) = (r, s2)" by fastforce
  have s2: "signals_in Q s2" using keepsD [OF main_pid_keeps signals_asked [OF 1(3)], of h unit] m by simp
  show ?case using 1(1,2) m s2 signals_asked [OF 1(3)] signals_asked [OF s2]
    by (auto simp: ask_def split: if_splits sum.splits)
qed

lemma wait_gone_signals: "wait_gone h pattern deadline s = Some y \<Longrightarrow> signals_in Q s \<Longrightarrow> signals_in Q y"
proof (induction rule: wait_gone.raw_induct [rotated, consumes 1])
  case (1 wait_gone h pattern deadline s y)
  then show ?case using signals_asked [OF 1(3)] signals_asked [OF signals_asked [OF 1(3)]]
    by (auto simp: matching_pids_def ask_def split: if_splits)
qed

lemma wait_back_signals: "wait_back h pattern deadline s = Some y \<Longrightarrow> signals_in Q s \<Longrightarrow> signals_in Q (snd y)"
proof (induction rule: wait_back.raw_induct [rotated, consumes 1])
  case (1 wait_back h pattern deadline s y)
  then show ?case using signals_asked [OF 1(3)] signals_asked [OF signals_asked [OF 1(3)]]
    by (auto simp: matching_pids_def ask_def split: if_splits)
qed

text \<open>\<open>stays Q r\<close>: if the run \<open>r\<close> ends, only what \<open>Q\<close> allows has been signalled.\<close>

definition stays :: "(control_signal \<times> int \<Rightarrow> bool) \<Rightarrow> ('a \<times> control) option \<Rightarrow> bool" where
  "stays Q r \<longleftrightarrow> (\<forall>y. r = Some y \<longrightarrow> signals_in Q (snd y))"

lemma stays_end: "signals_in Q s \<Longrightarrow> stays Q (Some (r, s))"
  by (simp add: stays_def)

lemma stays_act_end: "keeps (signals_in Q) m \<Longrightarrow> signals_in Q s \<Longrightarrow> stays Q (Some (m s))"
  by (simp add: stays_def keepsD)

lemma stays_act:
  "keeps (signals_in Q) m \<Longrightarrow> signals_in Q s \<Longrightarrow> (\<And>r s'. signals_in Q s' \<Longrightarrow> stays Q (f r s')) \<Longrightarrow>
   stays Q (case m s of (r, s') \<Rightarrow> f r s')"
  using keepsD [of "signals_in Q" m s] by (cases "m s") simp

lemma stays_ask:
  "signals_in Q s \<Longrightarrow> (\<And>x s'. signals_in Q s' \<Longrightarrow> stays Q (f x s')) \<Longrightarrow> stays Q (case ask g s of (x, s') \<Rightarrow> f x s')"
  by (simp add: ask_def signals_in_def)

lemma stays_map: "stays Q r \<Longrightarrow> stays Q (map_option (\<lambda>(x, s). (f x, s)) r)"
  by (auto simp: stays_def)

lemma stays_await: "signals_in Q s \<Longrightarrow> stays Q (await_unit h unit old_pid deadline s)"
  using await_unit_signals by (auto simp: stays_def)

lemma stays_back: "signals_in Q s \<Longrightarrow> stays Q (wait_back h pattern deadline s)"
  using wait_back_signals by (auto simp: stays_def)

lemma stays_gone:
  "signals_in Q s \<Longrightarrow> (\<And>s'. signals_in Q s' \<Longrightarrow> stays Q (f s')) \<Longrightarrow>
   stays Q (case wait_gone h pattern deadline s of None \<Rightarrow> None | Some s' \<Rightarrow> f s')"
  using wait_gone_signals [of h pattern deadline s _ Q] by (cases "wait_gone h pattern deadline s") (simp_all add: stays_def)

lemma stays_run:
  "stays Q r \<Longrightarrow> (\<And>x s'. signals_in Q s' \<Longrightarrow> stays Q (f x s')) \<Longrightarrow>
   stays Q (case r of None \<Rightarrow> None | Some y \<Rightarrow> (case y of (x, s') \<Rightarrow> f x s'))"
  by (cases r) (auto simp: stays_def split: prod.splits)

section \<open>The runs\<close>

lemma sudo_keeps: "keeps (signals_in Q) (sudo_restart h unit)"
  unfolding sudo_restart_def by (intro keeps_bind run_command_keeps) (auto simp: keeps_def split: command_end.split)

lemma user_unit_keeps: "keeps (signals_in Q) (restart_systemd_user h unit)"
  unfolding restart_systemd_user_def by (intro keeps_bind run_command_keeps) (auto simp: keeps_def split: command_end.split)

lemma restart_systemd_stays:
  assumes "signals_in Q s"
    and "\<And>k j status out p pid. p \<in> set (listing h k) \<Longrightarrow> process_id p = pid \<Longrightarrow> owner_id p = user_id h \<Longrightarrow>
      command_ends h j [''systemctl'', ''show'', unit, ''--property=MainPID'', ''--value''] = Returned status out \<Longrightarrow>
      py_int_str (strip out) = Inr pid \<Longrightarrow> Q (Kill, pid)"
  shows "stays Q (restart_systemd h unit s)"
  proof -
  have k: "keeps (signals_in Q) (kill_unit h unit)" by (rule kill_unit_keeps) (rule assms(2))
  show ?thesis
    unfolding restart_systemd_def
    by (rule stays_act [OF sudo_keeps assms(1)])
      (auto intro!: stays_act [OF k] stays_ask stays_await stays_end split: sum.split bool.split)
qed

lemma start_direct_keeps: "keeps (signals_in Q) (start_direct h rep spec)"
  unfolding start_direct_def
  by (intro keeps_asked keeps_bind [OF keeps_lift] keeps_then keeps_option keeps_upd keeps_lift) (auto simp: signals_in_def)

lemma start_transient_stays: "signals_in Q s \<Longrightarrow> stays Q (start_transient h rep spec pattern transient_prefix s)"
  unfolding start_transient_def
  by (erule stays_ask) (auto intro!: stays_act [OF run_command_keeps] stays_ask stays_back stays_map stays_end split: sum.split command_end.split)

lemma restart_process_stays:
  assumes "signals_in Q s"
    and "\<And>m k p sg. py_item (PDict spec) ''match'' = Inr m \<Longrightarrow> p \<in> set (listing h k) \<Longrightarrow> matches h (py_str rep m) p \<Longrightarrow> Q (sg, process_id p)"
  shows "stays Q (restart_process h rep spec s)"
proof -
  have k: "keeps (signals_in Q) (terminate_all h (py_str rep m))" "keeps (signals_in Q) (kill_all h (py_str rep m))"
    if "py_item (PDict spec) ''match'' = Inr m" for m
    using assms(2) [OF that] by (auto intro!: terminate_keeps kill_all_keeps)
  show ?thesis
    unfolding restart_process_def Let_def
    by (auto intro!: stays_act [OF k(1)] stays_act [OF k(2)] stays_gone stays_run [OF start_transient_stays] stays_act_end [OF start_direct_keeps] stays_end assms(1)
        simp del: py_item.simps split: sum.split)
qed

lemma run_target_stays:
  assumes "signals_in (rightful h rep targets) s"
  shows "stays (rightful h rep targets) (run_target h rep targets name s)"
proof (cases "dget targets name PNone")
  case (PDict spec)
  then have t: "map_of targets name = Some (PDict spec)" by (auto simp: dget_def split: option.splits)
  have p: "stays (rightful h rep targets) (restart_process h rep spec s)"
    using t by (intro restart_process_stays assms) (fastforce simp: rightful_def matches_def split: option.splits)
  have u: "stays (rightful h rep targets) (restart_systemd h (py_str rep u) s)" if "map_of spec ''unit'' = Some u" for u
    using t that by (intro restart_systemd_stays assms) (fastforce simp: rightful_def)
  show ?thesis
    using PDict p u stays_act_end [OF user_unit_keeps assms, of h] stays_end [OF assms]
    by (auto simp: run_target_def split: sum.split option.splits)
qed (auto simp: run_target_def intro!: stays_end assms)

lemma restart_all_stays:
  "signals_in (rightful h rep targets) s \<Longrightarrow> stays (rightful h rep targets) (restart_all h rep targets names restarted s)"
proof (induction names arbitrary: restarted s)
  case (Cons name names)
  have r: "stays (rightful h rep targets) (run_target h rep targets name s)" by (rule run_target_stays [OF Cons.prems])
  show ?case
  proof (cases "run_target h rep targets name s")
    case (Some y)
    then have y: "signals_in (rightful h rep targets) (snd y)" using r by (simp add: stays_def)
    obtain x s1 where "y = (x, s1)" by (cases y)
    then show ?thesis using Some y Cons.IH by (cases x) (auto simp: stays_end)
  qed (simp add: stays_def)
qed (simp add: stays_end)

text \<open>C20: A restart signals no process but those of the dashboard's own user that a look at the machine found to match the
text of a configured process target, or that \<^verbatim>\<open>systemctl\<close> named as the main process of a configured unit, and those of
a unit only to kill them.\<close>

theorem restart_signals_rightful:
  assumes "restart_all h rep targets names [] s = Some (r, s')" "signals s = []"
  shows "\<forall>x \<in> set (signals s'). rightful h rep targets x"
  using restart_all_stays [of h rep targets s names "[]"] assms by (simp add: stays_def signals_in_def)

section \<open>Every restart ends\<close>

definition clock_goes_on :: "host_machine \<Rightarrow> bool" where
  "clock_goes_on h \<longleftrightarrow> (\<forall>x. \<exists>k. \<forall>j \<ge> k. x \<le> monotonic h j)"

lemma wait_gone_ends: "\<forall>j \<ge> k. deadline \<le> monotonic h j \<Longrightarrow> \<exists>y. wait_gone h pattern deadline s = Some y"
proof (induction "k - asked s" arbitrary: s rule: less_induct)
  case less
  show ?case
  proof (cases "fst (matching_pids h pattern s) \<noteq> [] \<and> monotonic h (asked s + 1) < deadline")
    case True
    then have "asked s + 1 < k" using less.prems by (meson not_le)
    then have "\<exists>y. wait_gone h pattern deadline (s\<lparr>asked := Suc (Suc (asked s))\<rparr>) = Some y" using less by simp
    then show ?thesis using True by (subst wait_gone.simps) (simp add: matching_pids_def ask_def)
  next
    case False
    then show ?thesis by (subst wait_gone.simps) (auto simp: matching_pids_def ask_def)
  qed
qed

lemma wait_back_ends: "\<forall>j \<ge> k. deadline \<le> monotonic h j \<Longrightarrow> \<exists>y. wait_back h pattern deadline s = Some y"
proof (induction "k - asked s" arbitrary: s rule: less_induct)
  case less
  show ?case
  proof (cases "monotonic h (asked s) < deadline")
    case True
    then have "asked s < k" using less.prems by (meson not_le)
    then have "\<exists>y. wait_back h pattern deadline (s\<lparr>asked := Suc (Suc (asked s))\<rparr>) = Some y" using less by simp
    then show ?thesis using True by (subst wait_back.simps) (auto simp: matching_pids_def ask_def)
  next
    case False
    then show ?thesis by (subst wait_back.simps) (auto simp: ask_def)
  qed
qed

lemma main_pid_asks: "main_pid h unit s = (r, s') \<Longrightarrow> asked s' = Suc (asked s)"
  by (auto simp: main_pid_def run_command_def call_def ask_def bindA_def thenA_def split: command_end.splits sum.splits)

lemma await_unit_ends: "\<forall>j \<ge> k. deadline \<le> monotonic h j \<Longrightarrow> \<exists>y. await_unit h unit old_pid deadline s = Some y"
proof (induction "k - asked s" arbitrary: s rule: less_induct)
  case less
  show ?case
  proof (cases "monotonic h (asked s) < deadline")
    case True
    then have k: "asked s < k" using less.prems by (meson not_le)
    obtain r s2 where m: "main_pid h unit (s\<lparr>asked := Suc (asked s)\<rparr>) = (r, s2)" by fastforce
    then have a: "asked s2 = Suc (Suc (asked s))" using main_pid_asks by fastforce
    have "\<exists>y. await_unit h unit old_pid deadline s2 = Some y" "\<exists>y. await_unit h unit old_pid deadline (s2\<lparr>asked := Suc (asked s2)\<rparr>) = Some y"
      using less.hyps [OF _ less.prems] k a by simp_all
    then show ?thesis using True m by (subst await_unit.simps) (auto simp: ask_def split: sum.split)
  next
    case False
    then show ?thesis by (subst await_unit.simps) (auto simp: ask_def)
  qed
qed

lemma restart_process_ends:
  assumes "clock_goes_on h"
  shows "\<exists>y. restart_process h rep spec s = Some y"
proof -
  have g: "\<exists>y. wait_gone h pattern deadline s = Some y" "wait_back h pattern deadline s \<noteq> None" for pattern deadline s
    using assms wait_gone_ends wait_back_ends unfolding clock_goes_on_def by (meson, metis option.distinct(1))
  have t: "start_transient h rep spec pattern transient_prefix s \<noteq> None" for pattern transient_prefix s
  proof -
    have "\<exists>b a. wait_back h p d c = Some (a, b)" for p d c using g(2) [of p d c] by (cases "wait_back h p d c") auto
    then show ?thesis by (simp add: start_transient_def split: prod.split sum.split command_end.split)
  qed
  have "restart_process h rep spec s \<noteq> None"
  proof (cases "py_item (PDict spec) ''match''")
    case (Inr m)
    obtain r1 s1 where 1: "terminate_all h (py_str rep m) s = (r1, s1)" by fastforce
    show ?thesis
    proof (cases r1)
      case r1: (Inr now)
      obtain s2 where 2: "wait_gone h (py_str rep m) (now + 6) s1 = Some s2" using g(1) by blast
      obtain r3 s3 where 3: "kill_all h (py_str rep m) s2 = (r3, s3)" by fastforce
      show ?thesis using Inr 1 r1 2 3 t [of "py_str rep m" "strip (py_str rep (dget spec ''transientUnitPrefix'' (PStr [])))" s3]
        by (cases r3) (auto simp: restart_process_def Let_def simp del: py_item.simps split: option.split sum.split)
    qed (use Inr 1 in \<open>simp add: restart_process_def Let_def del: py_item.simps\<close>)
  qed (simp add: restart_process_def del: py_item.simps)
  then show ?thesis by blast
qed

lemma restart_systemd_ends:
  assumes "clock_goes_on h"
  shows "\<exists>y. restart_systemd h unit s = Some y"
proof -
  have "await_unit h unit old_pid deadline s \<noteq> None" for old_pid deadline s
    using assms await_unit_ends unfolding clock_goes_on_def by (metis option.distinct(1))
  then have "restart_systemd h unit s \<noteq> None"
    by (simp add: restart_systemd_def split: prod.split sum.split bool.split)
  then show ?thesis by blast
qed

lemma run_target_ends: "clock_goes_on h \<Longrightarrow> \<exists>y. run_target h rep targets name s = Some y"
  using restart_process_ends [of h rep] restart_systemd_ends [of h]
  by (auto simp: run_target_def split: pyval.split sum.split simp del: py_item.simps)

lemma restart_all_names: "restart_all h rep targets names restarted s = Some (Inr done_names, s') \<Longrightarrow> done_names = restarted @ names"
  by (induction names arbitrary: restarted s) (fastforce split: option.splits sum.splits)+

text \<open>C27: A restart ends, whatever the machine answers, as long as its clock goes on: with an error, or with the names of all
the services that were to be restarted.\<close>

theorem restart_ends:
  assumes "clock_goes_on h"
  shows "\<exists>r s'. restart_all h rep targets names [] s = Some (r, s') \<and> (r = Inr names \<or> (\<exists>e. r = Inl e))"
proof -
  have "\<exists>r s'. restart_all h rep targets names restarted s = Some (r, s')" for restarted
  proof (induction names arbitrary: restarted s)
    case (Cons name names)
    obtain r s1 where "run_target h rep targets name s = Some (r, s1)" using run_target_ends [OF assms] by fastforce
    then show ?case using Cons.IH by (cases r) simp_all
  qed simp
  then obtain r s' where "restart_all h rep targets names [] s = Some (r, s')" by blast
  then show ?thesis using restart_all_names [of h rep targets names "[]" s] by (cases r) auto
qed

text \<open>A process that ends between the last look and the signal makes the restart fail.\<close>

lemma ended_in_between:
  assumes "filter (matches h pattern) (listing h (asked s)) = p # ps"
    and "signal_fate h (Suc (asked s)) = Some (OSError ''ProcessLookupError'')"
  shows "fst (kill_all h pattern s) = Inl (OSError ''ProcessLookupError'')"
  using assms by (simp add: kill_all_def matching_pids_def ask_def send_signal_def bindA_def call_def)

section \<open>Concrete runs\<close>

text \<open>A machine with a process of the SMS bridge that ends at the first signal.\<close>

definition demo_process :: process where
  "demo_process = \<lparr>process_id = 41, owner_id = 1000, command_line = ''python3 sms.py --config c''\<rparr>"

definition demo_machine :: host_machine where
  "demo_machine = \<lparr>listing = (\<lambda>k. if k = 0 then [demo_process] else []), monotonic = real, unix_seconds = (\<lambda>k. 0), user_id = 1000,
     signal_fate = (\<lambda>k. None), command_ends = (\<lambda>k c. Returned 0 []), log_fate = (\<lambda>k. None), spawn_fate = (\<lambda>k. None),
     exit_code = (\<lambda>k. None)\<rparr>"

definition demo_targets :: "(string \<times> pyval) list" where
  "demo_targets = [(''sms-bridge'', PDict [(''type'', PStr ''process''), (''match'', PStr ''sms.py''), (''command'', PList [PStr ''sms.py'']),
     (''logFile'', PStr ''l'')])]"

definition idle_control :: control where "idle_control = \<lparr>asked = 0, signals = [], launched = []\<rparr>"

lemma demo_clock: "clock_goes_on demo_machine"
proof -
  have "\<exists>k. \<forall>j \<ge> k. x \<le> real j" for x
    using real_arch_simple [of x] by (meson of_nat_le_iff order_trans)
  then show ?thesis by (simp add: clock_goes_on_def demo_machine_def)
qed

theorem restart_ends_witness: "\<exists>r s'. restart_all demo_machine (\<lambda>v. []) demo_targets [''sms-bridge''] [] idle_control = Some (r, s')"
  using restart_ends [OF demo_clock, of "\<lambda>v. []" demo_targets "[''sms-bridge'']" idle_control] by blast

lemma demo_restart:
  "restart_all demo_machine rep demo_targets [''sms-bridge''] [] idle_control =
    Some (Inr [''sms-bridge''], \<lparr>asked = 8, signals = [(Terminate, 41)], launched = [[''sms.py'']]\<rparr>)"
proof -
  let ?spec = "[(''type'', PStr ''process''), (''match'', PStr ''sms.py''), (''command'', PList [PStr ''sms.py'']), (''logFile'', PStr ''l'')]"
  have sub: "sublist ''sms.py'' (command_line demo_process)" unfolding demo_process_def by code_simp
  have own: "owner_id demo_process = 1000" "process_id demo_process = 41" by (simp_all add: demo_process_def)
  have m: "matches demo_machine ''sms.py'' demo_process" using sub by (simp add: matches_def own demo_machine_def)
  have 1: "terminate_all demo_machine ''sms.py'' idle_control = (Inr 2, \<lparr>asked = 3, signals = [(Terminate, 41)], launched = []\<rparr>)"
    using m own by (simp add: terminate_all_def matching_pids_def ask_def idle_control_def bindA_def thenA_def call_def send_signal_def catchA_def)
      (simp add: demo_machine_def)
  have 2: "wait_gone demo_machine ''sms.py'' (2 + 6) \<lparr>asked = 3, signals = [(Terminate, 41)], launched = []\<rparr> =
      Some \<lparr>asked = 4, signals = [(Terminate, 41)], launched = []\<rparr>"
    by (subst wait_gone.simps) (simp add: matching_pids_def ask_def demo_machine_def)
  have 3: "kill_all demo_machine ''sms.py'' \<lparr>asked = 4, signals = [(Terminate, 41)], launched = []\<rparr> =
      (Inr (), \<lparr>asked = 5, signals = [(Terminate, 41)], launched = []\<rparr>)"
    by (simp add: kill_all_def matching_pids_def ask_def bindA_def call_def demo_machine_def)
  have 4: "start_direct demo_machine rep ?spec \<lparr>asked = 5, signals = [(Terminate, 41)], launched = []\<rparr> =
      (Inr (), \<lparr>asked = 8, signals = [(Terminate, 41)], launched = [[''sms.py'']]\<rparr>)"
    by (simp add: start_direct_def ask_def bindA_def thenA_def call_def demo_machine_def command_parts_def)
  have strip: "strip [] = []" by code_simp
  have 5: "restart_process demo_machine rep ?spec idle_control =
      Some (Inr (), \<lparr>asked = 8, signals = [(Terminate, 41)], launched = [[''sms.py'']]\<rparr>)"
    using 1 2 3 4 by (simp add: restart_process_def Let_def dget_def strip)
  have "run_target demo_machine rep demo_targets ''sms-bridge'' idle_control = restart_process demo_machine rep ?spec idle_control"
    by (simp add: run_target_def demo_targets_def dget_def)
  then show ?thesis by (simp add: 5)
qed

theorem restart_signals_rightful_witness:
  "\<exists>s'. restart_all demo_machine (\<lambda>v. []) demo_targets [''sms-bridge''] [] idle_control = Some (Inr [''sms-bridge''], s') \<and>
    (Terminate, 41) \<in> set (signals s') \<and> (\<forall>x \<in> set (signals s'). rightful demo_machine (\<lambda>v. []) demo_targets x)"
  using restart_signals_rightful [OF demo_restart, of "\<lambda>v. []"] demo_restart [of "\<lambda>v. []"] by (auto simp: idle_control_def)

end
