(* ===== verification/Spec2Isabelle.thy ===== *)
theory Spec2Isabelle
  imports Qb_Prelude Tetra_Codec Uplink_Audio Py_Text Py_Value Brew_Wire Talkgroup_Router
    Routing_Config Ars_Registry Brew_Transport Bridge_Core Bridge_State Bridge_Downlink Bridge_Uplink
    Sds_Pdu Bridge_Sds Sms_Config Sms_Bridge Sms_Delivery Bridge_Worker
    Runtime_Config Static_Sync Static_Text Recovery
    Py_Base64 Dash_Auth Dash_State Dash_Tracker Dash_Text Dash_Settings Dash_Update Dash_Safety
    Dash_Readback Dash_Demo Dash_Web Dash_Access Dash_Guesses Dash_Position Dash_Feed Dash_Follow Dash_Identity Dash_Lookup Dash_View
    Setup_Migrate Setup_Configure Dash_Restart
begin

text \<open>
  QuantarBridge connects a Motorola Quantar P25 repeater, driven by DVM host, with the BrandMeister and BREW
  networks. This library models the Python programs of the repository, which carry its voice, its text messages
  and its operation, and proves what makes them correct.

  \<^bold>\<open>The program and its parts.\<close>
  The audio worker (\<^verbatim>\<open>deploy/scripts/tetrapack_brew_audio.py\<close>) holds one WebSocket to the BREW server and
  two UDP sockets to the P25 bridge. It turns P25 voice into TETRA codec frames and back, routes talkgroups,
  announces the local radios it finds in the logs of DVM host, and passes text messages. The SMS bridge
  (\<^verbatim>\<open>deploy/scripts/tetrapack_brew_bridge.py\<close>) collects text fragments from an inbox directory and hands
  each text to the P25 outbox, to BREW (directly or through a command file of the audio worker) or to
  BrandMeister. The maintenance scripts (\<^verbatim>\<open>deploy/scripts/\<close>) keep the static talkgroups of
  \<^verbatim>\<open>quantarbridge.yml\<close> in step with the BrandMeister profile and restart services that are stuck. The
  dashboard (\<^verbatim>\<open>dashboard/app.py\<close>) shows the station, reads the logs and the status file of the audio worker,
  and lets a user who logged in change the configuration files that the other programs read. The parts meet in
  files: command files, the outboxes, \<^verbatim>\<open>quantarbridge.yml\<close>, the status file and the logs.

  \<^bold>\<open>Shared theories.\<close>
  \<^verbatim>\<open>Qb_Prelude\<close>: exceptions as values (\<open>py_error\<close>), fallible functions \<open>py_error + 'a\<close>, slices, struct
  packing, ordered dictionaries, bounded queues, and the interfaces: \<open>codec\<close> (an encoder whose results decode
  to what was encoded), \<open>bounded_fifo\<close> (a queue that keeps its newest elements), \<open>machine\<close> and \<open>transitions\<close>
  (an invariant that every step keeps). \<^verbatim>\<open>Py_Text\<close>, \<^verbatim>\<open>Py_Value\<close> and \<^verbatim>\<open>Py_Base64\<close> are the parts of Python's
  text, number, regular expression, document and base64 functions that the code uses. \<^verbatim>\<open>Brew_Transport\<close>
  starts with the actions \<open>('s, 'a) act\<close>: a state is returned also when an exception is raised; \<open>keeps\<close> and
  \<open>does\<close> are their calculi of partial and total correctness.

  \<^bold>\<open>The audio worker.\<close>
  \<^verbatim>\<open>Tetra_Codec\<close>: the bit packing of codec blocks (\<open>split_tmd_block\<close>, \<open>join_tmd_block\<close>) and codec handles.
  \<^verbatim>\<open>Uplink_Audio\<close>: \<^verbatim>\<open>UplinkAudioProcessor\<close>. \<^verbatim>\<open>Brew_Wire\<close>: all BREW messages and the RTP packets, byte for
  byte. \<^verbatim>\<open>Talkgroup_Router\<close>: \<^verbatim>\<open>TalkgroupRouter\<close> and its state file. \<^verbatim>\<open>Routing_Config\<close>: \<^verbatim>\<open>AudioConfig.load\<close>
  and the reload of the routing. \<^verbatim>\<open>Ars_Registry\<close>: registrations in the logs. \<^verbatim>\<open>Brew_Transport\<close>: status,
  sending, endpoint discovery. \<^verbatim>\<open>Bridge_Core\<close>, \<^verbatim>\<open>Bridge_State\<close>, \<^verbatim>\<open>Bridge_Downlink\<close>, \<^verbatim>\<open>Bridge_Uplink\<close>,
  \<^verbatim>\<open>Bridge_Sds\<close>: the methods of \<^verbatim>\<open>BrewAudioBridge\<close>, in the record \<open>core\<close> and its extension \<open>bridge\<close>. A handler
  is one definition; so is one pass of each loop (\<open>registration_tick\<close>, \<open>uplink_tick\<close>, \<open>downlink_tick\<close>,
  \<open>routing_tick\<close>, \<open>sms_command_tick\<close>). \<^verbatim>\<open>Bridge_Worker\<close>: constructor, start, the sessions of
  the transport with their back-off, all threads as one relation \<open>step\<close> over \<open>event\<close>s in any order, the stop
  signal being one, and \<open>stop_worker\<close>, between whose steps the other threads go on handling events.
  The lemmas show for every operation that it keeps the invariant of the worker and what it sends; that calls and
  codec handles are released; that the log follower is a refinement of reading the log; that what is sent decodes
  to what was meant; and how each error ends.

  \<^bold>\<open>The SMS bridge.\<close>
  \<^verbatim>\<open>Sds_Pdu\<close>: text PDUs. \<^verbatim>\<open>Sms_Config\<close>: \<^verbatim>\<open>load_config\<close>. \<^verbatim>\<open>Sms_Bridge\<close>: the inbox, the texts being
  collected, all outlets and \<open>run_once\<close>, with a disk whose every operation may fail; its lemmas show that events and
  texts are never lost. \<^verbatim>\<open>Sms_Delivery\<close>: what is delivered when the disk works.

  \<^bold>\<open>The maintenance scripts.\<close>
  \<^verbatim>\<open>Runtime_Config\<close> (\<^verbatim>\<open>runtime_config.py\<close>), \<^verbatim>\<open>Static_Sync\<close> (\<^verbatim>\<open>bm_static_sync.py\<close>) with \<^verbatim>\<open>Static_Text\<close> (what
  is written is what is read back), \<^verbatim>\<open>Recovery\<close> (the other seven scripts, one definition per \<^verbatim>\<open>main\<close>).

  \<^bold>\<open>The dashboard.\<close>
  \<^verbatim>\<open>Dash_Auth\<close>: \<^verbatim>\<open>AuthStore\<close>, \<^verbatim>\<open>SessionStore\<close>, \<^verbatim>\<open>LoginLimiter\<close>. \<^verbatim>\<open>Dash_Web\<close>: the handlers of the API over
  these stores; \<^verbatim>\<open>Dash_Access\<close>: who can change what; \<^verbatim>\<open>Dash_Guesses\<close>: requests that overlap, and how fast
  passwords can be tried then. \<^verbatim>\<open>Dash_State\<close>:
  \<^verbatim>\<open>RuntimeState\<close>, the view of the station, with \<^verbatim>\<open>Dash_Tracker\<close> its invariant and the guard that keeps
  restarts away from calls. \<^verbatim>\<open>Dash_Text\<close>: the line editors of \<^verbatim>\<open>SettingsManager\<close>, and the interface
  \<open>scalar_file\<close> (what an edit makes a reader see); \<^verbatim>\<open>Dash_Settings\<close>: the check of the settings a browser sends;
  \<^verbatim>\<open>Dash_Update\<close>: reading the settings and applying a change with backup, write, restart and roll-back.
  \<^verbatim>\<open>Dash_Safety\<close>, \<^verbatim>\<open>Dash_Readback\<close> and \<^verbatim>\<open>Dash_Demo\<close> hold what a change does: bounds, all or nothing,
  nothing near a call, and that the maintenance scripts read the device that was saved. \<^verbatim>\<open>Dash_Position\<close>: the
  decoder of location reports. \<^verbatim>\<open>Dash_Feed\<close>: one definition per pass of the threads that read logs, status,
  location events, services and the BrandMeister profile; \<^verbatim>\<open>Dash_Follow\<close>: that each line of a log is handed on once and
  that the newest position is the one shown. \<^verbatim>\<open>Dash_Identity\<close>: \<^verbatim>\<open>IdentityDirectory\<close>, with \<^verbatim>\<open>Dash_Lookup\<close> on
  its cache and on how often it asks. \<^verbatim>\<open>Dash_View\<close>: the list of radio names (\<^verbatim>\<open>RidDirectory\<close>) and the status document, \<^verbatim>\<open>snapshot\<close> and
  \<^verbatim>\<open>DashboardApplication.status\<close>. \<^verbatim>\<open>Dash_Restart\<close>: the commands behind a restart, whom they signal and that they end.

  \<^bold>\<open>The set-up scripts.\<close>
  \<^verbatim>\<open>Setup_Migrate\<close>: \<^verbatim>\<open>scripts/enable_brew_audio.py\<close>, which moves a station to the audio worker, with writes that
  may fail: no document is lost, and the settings it does not mean to change stand. \<^verbatim>\<open>Setup_Configure\<close>:
  \<^verbatim>\<open>scripts/configure.py\<close>, the checks of its arguments and the configuration of a new station, whose parts share one
  password and which the migration refuses as it is.
  \<^verbatim>\<open>Spec2Isabelle\<close> (this theory) follows a text from the SMS bridge through the audio worker into the
  frames that a TETRA receiver reads.

  \<^bold>\<open>How the code is modelled.\<close>
  Whatever holds a lock, or runs in a thread of its own without being interrupted by what it shares, is one atomic step;
  a pass of a loop is one step, so every interleaving of passes is covered and no interleaving inside them. Where an
  operation lets others come in between, and a property depends on it, it is split: a log-in into the question to the limiter and the
  answer (\<open>admit_login\<close>, \<open>answer_login\<close>), \<^verbatim>\<open>stop\<close> into its steps. Exceptions
  are values with the state they leave. Dictionaries that are iterated are lists of pairs in insertion order, others
  are maps. Bytes are 8 bit words; Python's integers are \<open>int\<close>. Floats are real numbers: the
  rounding of arithmetic is not modelled, \<^verbatim>\<open>round\<close> and \<^verbatim>\<open>int\<close> are; \<^verbatim>\<open>inf\<close> and \<^verbatim>\<open>nan\<close> do not exist. Text is a
  list of Latin-1 characters, in \<^verbatim>\<open>Sds_Pdu\<close> of code points. Time, random ids, the network, \<^verbatim>\<open>systemctl\<close>,
  the codec library, PBKDF2, SHA-256 and the YAML, JSON and INI parsers are parameters. Writes fail where a
  theory says so: in the SMS bridge, the set-up scripts and the changes of settings each on its own, in the audio worker all or none
  (\<open>disk_error\<close>); its invariants \<open>core_ok\<close> and \<open>bridge_ok\<close> contain that they succeed, and \<open>failed_save_ends_receiving\<close>
  and \<open>refused_codec_ends_uplink\<close> show what happens to its threads otherwise. Writing a temporary file and renaming it is one operation.

  \<^bold>\<open>Bounds and loops.\<close>
  Recursion is structural or has a measure. The waiting loop of \<^verbatim>\<open>wait_for_dynamic_clear\<close> is
  \<open>clear_rounds\<close>, which has a value only when the loop ends; \<open>clear_wait_ends\<close> shows that it always does, given a
  clock that advances. The waiting loops of \<^verbatim>\<open>Dash_Restart\<close> are of the same kind (\<open>restart_ends\<close>). The session loop of the transport runs over the list of what each attempt meets. There is no
  fuel.

  \<^bold>\<open>Not modelled.\<close>
  Logging, printing, argument parsing and thread objects; sockets below the messages sent and received. Of the
  dashboard: \<^verbatim>\<open>DashboardConfig.load\<close>, static files and the page itself. The audit of the source tree and the image build.
  The bridge in C++ (\<^verbatim>\<open>src/src\<close>), the shell and JavaScript parts and the patches to DVM host are in other languages.
\<close>

section \<open>From the SMS bridge through the audio worker onto the network\<close>

lemma space_uspace: "is_space c \<Longrightarrow> is_uspace (code c)"
  by (auto simp: is_space_def is_uspace_def)

lemma latin_scalar: "list_all scalar (map code body)"
proof -
  have "scalar n" if "n < 256" for n using that by (simp add: scalar_def surrogate_def)
  then have "scalar (code c)" for c by (simp add: code_def)
  then show ?thesis by (simp add: list_all_iff)
qed

text \<open>A text that the reader of a PDU would leave as it is carries no white space to strip.\<close>

lemma tidy_strip:
  assumes "tidy (map code body) = map code body"
  shows "strip body = body"
proof (cases "body = []")
  case False
  let ?t = "rstrip_by (\<lambda>c. c = 0) (map code body)"
  have ends: "\<not> is_uspace (code (hd body)) \<and> \<not> is_uspace (code (last body))"
    using strip_by_ends [of is_uspace ?t] assms False by (simp add: tidy_def hd_map last_map)
  then show ?thesis using space_uspace by (intro strip_by_id) blast
qed (simp add: strip_by_def lstrip_by_def rstrip_by_def)

lemma queue_command_fields:
  assumes "in_24bit source" "in_24bit target" "strip body = body" "body \<noteq> []"
  shows "sms_fields rep (PDict (queue_command command_id created source target body)) = Inr (source, target, map code body)"
  using assms by (simp add: sms_fields_def queue_command_def sms_text_def Let_def)

text \<open>The command's frames, for a text that fits the length field.\<close>

lemma sms_frames_readable:
  assumes "in_24bit source" "in_24bit target" "length session = 16" "length body < 4094"
  obtains header transfer release payload r where
    "sms_frames ck session source target (map code body) = Inr [header, transfer, release]"
    "build_brew_short_transfer session source target = Inr header" "parse_brew_frame transfer = ParsedFrame r"
    "pf_sessionId r = Some session" "pf_payloadHex r = Some payload"
    "\<And>cm. parse_text_sds_type4_pdu cm payload None =
       Inr (if tidy (map code body) = [] then None else Some (tidy (map code body)))"
proof -
  let ?mr = "ns ck div 10 ^ 6 mod 256"
  have "list_all (\<lambda>c. c < 256) (map code body)" by (simp add: list_all_iff code_def)
  then obtain utf16 where u: "utf16_encode (map code body) = Inr utf16" "length utf16 = 2 * length (map code body)"
    by (rule latin_utf16)
  obtain payload where p: "build_text_sds_type4_pdu (map code body) ?mr = Inr payload"
    "length payload < 8192"
    using build_text_sds_bytes [OF u(1), of ?mr] u(2) assms(4) by simp
  have read: "parse_text_sds_type4_pdu cm payload None =
       Inr (if tidy (map code body) = [] then None else Some (tidy (map code body)))" for cm
    using sds_text_built [OF latin_scalar, of body ?mr cm] p(1) by simp
  obtain transfer r where t: "build_brew_sds_transfer session payload = Inr transfer"
    "parse_brew_frame transfer = ParsedFrame r" "pf_sessionId r = Some session" "pf_payloadHex r = Some payload"
    using parse_built_transfer [OF assms(3) p(2)] by blast
  obtain header where h: "build_brew_short_transfer session source target = Inr header"
    using assms(1,2) by (simp add: build_brew_short_transfer_def to_bytes_le_def in_24bit_def)
  obtain release where rel: "build_brew_call_release session 0 = Inr release"
    by (simp add: build_brew_call_release_def to_bytes_le_def)
  have "sms_frames ck session source target (map code body) = Inr [header, transfer, release]"
    using p(1) h t(1) rel by (simp add: sms_frames_def)
  then show thesis by (rule that [OF _ h t(2,3,4) read])
qed

lemma queued_command:
  assumes "world.disk w (ops s) = None"
  obtains name d t command_id created where "queue_client_send_sms w dir source target body s = (Inr d, t)"
    "audio_docs t = audio_docs s @ [(name, queue_command command_id created source target body)]"
    "map_of d ''status'' = Some (PStr ''sent'')"
  using assms by (simp add: queue_client_send_sms_def disk_op_def step_op_def Let_def that)

text \<open>C9: a text that the SMS bridge queues for the audio worker reaches the network as it was written. The text has
  to be one that survives: not empty, shorter than 4094 characters, of characters of one byte and without blanks at
  its ends (the bridge checks none of this; \<^verbatim>\<open>long_sms_stops_command_loop\<close> is the case of a longer one); both
  radio ids have at most 24 bits. Then the bridge writes one command file, and whenever the worker, connected to
  BREW, finds it in its command directory it accepts it, registers the sender when it is new and then sends, in
  one piece, a header from the sender to the receiver, a transfer in whose payload the reader of text PDUs finds
  the text, and a release. The disk the bridge writes to works and the clock is in the range of a time stamp.\<close>

theorem queued_text_on_air:
  assumes "in_24bit source" "in_24bit target" "tidy (map code body) = map code body" "body \<noteq> []" "length body < 4094"
    and "world.disk w (ops s) = None" "bridge_ok b" "online (bio b)" "clock_ok ck" "length session = 16"
  shows "\<exists>name d t command. queue_client_send_sms w dir source target body s = (Inr d, t) \<and>
    audio_docs t = audio_docs s @ [(name, command)] \<and>
    (map_of (command_files b) name = Some (Inr (PDict command)) \<longrightarrow>
      (\<exists>u header transfer release payload r. process_sms_command rep ck session name b = (Inr True, u) \<and>
        sent (bio u) = sent (bio b) @ (if source \<in> local_issis b then [] else
          [subscriber_frame ck SUBSCRIBER_REGISTER [] source,
           subscriber_frame ck SUBSCRIBER_AFFILIATE (groups (brt b)) source]) @ [header, transfer, release] \<and>
        build_brew_short_transfer session source target = Inr header \<and>
        parse_brew_frame transfer = ParsedFrame r \<and> pf_sessionId r = Some session \<and> pf_payloadHex r = Some payload \<and>
        parse_text_sds_type4_pdu cm payload None = Inr (Some (map code body))))"
proof -
  obtain name d t command_id created where q: "queue_client_send_sms w dir source target body s = (Inr d, t)"
    "audio_docs t = audio_docs s @ [(name, queue_command command_id created source target body)]"
    by (rule queued_command [OF assms(6), of dir source target body])
  let ?c = "queue_command command_id created source target body"
  have f: "sms_fields rep (PDict ?c) = Inr (source, target, map code body)"
    by (rule queue_command_fields [OF assms(1,2) tidy_strip [OF assms(3)] assms(4)])
  obtain header transfer release payload r where m:
    "sms_frames ck session source target (map code body) = Inr [header, transfer, release]"
    "build_brew_short_transfer session source target = Inr header" "parse_brew_frame transfer = ParsedFrame r"
    "pf_sessionId r = Some session" "pf_payloadHex r = Some payload"
    "parse_text_sds_type4_pdu cm payload None = Inr (Some (map code body))"
    using assms(3,4) by (rule_tac sms_frames_readable [OF assms(1,2,10,5), of ck]) simp
  show ?thesis
    using q m sms_command_sends [OF assms(7,8,9) _ f m(1), of name] by blast
qed

theorem queued_text_on_air_witness:
  "\<exists>name command. map_of (command_files (example_bridge\<lparr>command_files := [(name, Inr (PDict command))]\<rparr>)) name =
      Some (Inr (PDict command)) \<and>
     audio_docs (snd (queue_client_send_sms example_world (True, []) 42 5 ''Hi'' example_sms)) = [(name, command)] \<and>
     (\<exists>u payload. process_sms_command (\<lambda>_. []) example_clock (replicate 16 3) name
        (example_bridge\<lparr>command_files := [(name, Inr (PDict command))]\<rparr>) = (Inr True, u) \<and>
      length (sent (bio u)) = 5 \<and> parse_text_sds_type4_pdu (\<lambda>_ _. None) payload None = Inr (Some (map code ''Hi'')))"
proof -
  have d: "world.disk example_world (ops example_sms) = None" by (simp add: example_world_def)
  obtain name d t command where q: "queue_client_send_sms example_world (True, []) 42 5 ''Hi'' example_sms = (Inr d, t)"
    "audio_docs t = audio_docs example_sms @ [(name, command)]"
    by (rule queued_command [OF d, of "(True, [])" 42 5 "''Hi''"])
  let ?b = "example_bridge\<lparr>command_files := [(name, Inr (PDict command))]\<rparr>"
  have b: "bridge_ok ?b" "online (bio ?b)" "map_of (command_files ?b) name = Some (Inr (PDict command))"
    "42 \<notin> local_issis ?b" "sent (bio ?b) = []"
    using bridge_ok_dicts(3) [OF example_bridge_ok] example_ok(3)
    by (simp_all add: dict_ok_def example_bridge_def core.defs example_core_def idle_io_def)
  have t: "tidy (map code ''Hi'') = map code ''Hi''"
    by (simp add: tidy_def strip_by_def lstrip_by_def rstrip_by_def is_uspace_def code_def)
  have e: "audio_docs example_sms = []" by (simp add: example_sms_def)
  from queued_text_on_air [of 42 5 "''Hi''" example_world example_sms ?b example_clock "replicate 16 3" "(True, [])"
      "\<lambda>_. []" "\<lambda>_ _. None"] t d b(1,2) example_ok(2) q
  obtain u header transfer release payload where
    "process_sms_command (\<lambda>_. []) example_clock (replicate 16 3) name ?b = (Inr True, u)"
    "sent (bio u) = sent (bio ?b) @ (if 42 \<in> local_issis ?b then [] else
       [subscriber_frame example_clock SUBSCRIBER_REGISTER [] 42,
        subscriber_frame example_clock SUBSCRIBER_AFFILIATE (groups (brt ?b)) 42]) @ [header, transfer, release]"
    "parse_text_sds_type4_pdu (\<lambda>_ _. None) payload None = Inr (Some (map code ''Hi''))"
    using b(3) by (auto simp: in_24bit_def)
  then show ?thesis using q e b(3-5) by (intro exI [of _ name] exI [of _ command]) auto
qed

end
